(* ===== verification/ZPrelude.thy ===== *)
theory ZPrelude
  imports Main
begin

text \<open>
  Shared vocabulary of the development: the state-and-error actions every route, step and
  workflow is written in, their weakest preconditions, the SQL operations on a table kept as
  the list of its rows, and the decimal and JSON texts the program stores in its key-value
  table. Nothing here models a file of the program; the component theories do.
\<close>

named_theorems wp_simps \<open>weakest preconditions of the action combinators\<close>
named_theorems tbl_simps \<open>the SQL operations on tables\<close>

section \<open>Actions: state passing with errors as values\<close>

text \<open>
  An \<open>async\<close> function of the program is an action: it takes the world and returns an error
  (\<open>Inl\<close>, a thrown value) or a result (\<open>Inr\<close>), with the world after it. A throw keeps the
  effects made before it, as JavaScript does; \<open>txnE\<close> is \<open>db.transaction\<close>, which rolls
  them back.
\<close>

type_synonym ('w, 'e, 'a) act = "'w \<Rightarrow> ('e + 'a) \<times> 'w"

definition retE :: "'a \<Rightarrow> ('w, 'e, 'a) act" where
  "retE x = (\<lambda>w. (Inr x, w))"

definition throwE :: "'e \<Rightarrow> ('w, 'e, 'a) act" where
  "throwE e = (\<lambda>w. (Inl e, w))"

definition bindE :: "('w, 'e, 'a) act \<Rightarrow> ('a \<Rightarrow> ('w, 'e, 'b) act) \<Rightarrow> ('w, 'e, 'b) act" where
  "bindE m k = (\<lambda>w. case m w of (Inl e, w') \<Rightarrow> (Inl e, w') | (Inr a, w') \<Rightarrow> k a w')"

definition thenE :: "('w, 'e, 'a) act \<Rightarrow> ('w, 'e, 'b) act \<Rightarrow> ('w, 'e, 'b) act" where
  "thenE m k = bindE m (\<lambda>_. k)"

definition catchE :: "('w, 'e, 'a) act \<Rightarrow> ('e \<Rightarrow> ('w, 'f, 'a) act) \<Rightarrow> ('w, 'f, 'a) act" where
  "catchE m h = (\<lambda>w. case m w of (Inl e, w') \<Rightarrow> h e w' | (Inr a, w') \<Rightarrow> (Inr a, w'))"

definition getE :: "('w \<Rightarrow> 'a) \<Rightarrow> ('w, 'e, 'a) act" where
  "getE f = (\<lambda>w. (Inr (f w), w))"

definition modE :: "('w \<Rightarrow> 'w) \<Rightarrow> ('w, 'e, unit) act" where
  "modE f = (\<lambda>w. (Inr (), f w))"

definition whenE :: "bool \<Rightarrow> ('w, 'e, unit) act \<Rightarrow> ('w, 'e, unit) act" where
  "whenE b m = (if b then m else retE ())"

definition txnE :: "('w, 'e, 'a) act \<Rightarrow> ('w, 'e, 'a) act" where
  "txnE m = (\<lambda>w. case m w of (Inl e, w') \<Rightarrow> (Inl e, w) | (Inr a, w') \<Rightarrow> (Inr a, w'))"

definition finallyE :: "('w, 'e, 'a) act \<Rightarrow> ('w, 'e, unit) act \<Rightarrow> ('w, 'e, 'a) act" where
  "finallyE m f = (\<lambda>w. case m w of (r, w') \<Rightarrow>
     (case f w' of (Inl e, w'') \<Rightarrow> (Inl e, w'') | (Inr _, w'') \<Rightarrow> (r, w'')))"

fun forE :: "'a list \<Rightarrow> ('a \<Rightarrow> ('w, 'e, unit) act) \<Rightarrow> ('w, 'e, unit) act" where
  "forE [] f = retE ()"
| "forE (x # xs) f = bindE (f x) (\<lambda>_. forE xs f)"

text \<open>
  A loop with a deadline: at most \<open>n\<close> rounds, each of which answers or asks for another one.
  The error of a loop without rounds left is one the program does not have.
\<close>

fun roundsE :: "'e \<Rightarrow> nat \<Rightarrow> ('w, 'e, 'a option) act \<Rightarrow> ('w, 'e, 'a) act" where
  "roundsE e 0 body = throwE e"
| "roundsE e (Suc n) body = bindE body (\<lambda>r. case r of Some x \<Rightarrow> retE x | None \<Rightarrow> roundsE e n body)"

text \<open>The same with variables of its own: a round answers, or goes on with new values of them.\<close>

fun iterE :: "'e \<Rightarrow> nat \<Rightarrow> ('s \<Rightarrow> ('w, 'e, 'a + 's) act) \<Rightarrow> 's \<Rightarrow> ('w, 'e, 'a) act" where
  "iterE e 0 body s = throwE e"
| "iterE e (Suc n) body s = bindE (body s) (\<lambda>r. case r of Inl x \<Rightarrow> retE x | Inr s' \<Rightarrow> iterE e n body s')"

lemmas act_defs = retE_def throwE_def bindE_def thenE_def catchE_def getE_def modE_def whenE_def
  txnE_def finallyE_def

subsection \<open>Weakest preconditions\<close>

text \<open>
  \<open>wp m Q E w\<close>: run from \<open>w\<close>, the action returns with \<open>Q\<close> or throws with \<open>E\<close>.
  Actions are total, so this is total correctness.
\<close>

definition wp :: "('w, 'e, 'a) act \<Rightarrow> ('a \<Rightarrow> 'w \<Rightarrow> bool) \<Rightarrow> ('e \<Rightarrow> 'w \<Rightarrow> bool) \<Rightarrow> 'w \<Rightarrow> bool" where
  "wp m Q E w \<longleftrightarrow> (case m w of (Inl e, w') \<Rightarrow> E e w' | (Inr a, w') \<Rightarrow> Q a w')"

lemma wp_ret [wp_simps]: "wp (retE x) Q E w = Q x w"
  by (simp add: wp_def retE_def)

lemma wp_ret': "wp (retE x) Q E = Q x"
  by (simp add: fun_eq_iff wp_ret)

lemma wp_throw [wp_simps]: "wp (throwE e) Q E w = E e w"
  by (simp add: wp_def throwE_def)

lemma wp_bind [wp_simps]: "wp (bindE m k) Q E w = wp m (\<lambda>a. wp (k a) Q E) E w"
  by (simp add: wp_def bindE_def split: prod.splits sum.splits)

lemma wp_then [wp_simps]: "wp (thenE m k) Q E w = wp m (\<lambda>_. wp k Q E) E w"
  by (simp add: thenE_def wp_bind)

lemma wp_then': "wp (thenE m k) Q E = wp m (\<lambda>_. wp k Q E) E"
  by (simp add: fun_eq_iff wp_then)

lemma wp_catch [wp_simps]: "wp (catchE m h) Q E w = wp m Q (\<lambda>e. wp (h e) Q E) w"
  by (simp add: wp_def catchE_def split: prod.splits sum.splits)

lemma wp_get [wp_simps]: "wp (getE f) Q E w = Q (f w) w"
  by (simp add: wp_def getE_def)

lemma wp_mod [wp_simps]: "wp (modE f) Q E w = Q () (f w)"
  by (simp add: wp_def modE_def)

lemma wp_when [wp_simps]: "wp (whenE b m) Q E w = (if b then wp m Q E w else Q () w)"
  by (simp add: whenE_def wp_ret)

lemma wp_txn [wp_simps]: "wp (txnE m) Q E w = wp m Q (\<lambda>e _. E e w) w"
  by (simp add: wp_def txnE_def split: prod.splits sum.splits)

lemma wp_finally [wp_simps]:
  "wp (finallyE m f) Q E w =
     wp m (\<lambda>a. wp f (\<lambda>_. Q a) E) (\<lambda>e. wp f (\<lambda>_. E e) E) w"
  by (simp add: wp_def finallyE_def split: prod.splits sum.splits)

lemma wp_if [wp_simps]: "wp (if b then m else n) Q E w = (if b then wp m Q E w else wp n Q E w)"
  by simp

lemma wp_forE_Nil [wp_simps]: "wp (forE [] f) Q E w = Q () w"
  by (simp add: wp_ret)

lemma wp_forE_Cons [wp_simps]:
  "wp (forE (x # xs) f) Q E w = wp (f x) (\<lambda>_. wp (forE xs f) Q E) E w"
  by (simp add: wp_bind)

lemma wp_mono:
  assumes "wp m Q E w"
    and "\<And>a w'. Q a w' \<Longrightarrow> Q' a w'" and "\<And>e w'. E e w' \<Longrightarrow> E' e w'"
  shows "wp m Q' E' w"
  using assms by (auto simp: wp_def split: prod.splits sum.splits)

lemma wp_conj: "wp m Q E w \<Longrightarrow> wp m Q' E' w \<Longrightarrow>
    wp m (\<lambda>a w'. Q a w' \<and> Q' a w') (\<lambda>e w'. E e w' \<and> E' e w') w"
  by (auto simp: wp_def split: prod.splits sum.splits)

lemma wp_TrueI: "wp m (\<lambda>_ _. True) (\<lambda>_ _. True) w"
  by (auto simp: wp_def split: prod.splits sum.splits)

lemma wp_run: "wp m Q E w \<Longrightarrow> m w = (Inr a, w') \<Longrightarrow> Q a w'"
  and wp_run_err: "wp m Q E w \<Longrightarrow> m w = (Inl e, w') \<Longrightarrow> E e w'"
  by (auto simp: wp_def)

text \<open>Total correctness of a loop: an invariant, and a measure each round that goes on decreases.\<close>

lemma wp_loopE:
  fixes \<mu> :: "'w \<Rightarrow> nat"
  assumes "I w" and "\<mu> w < n"
    and "\<And>v. I v \<Longrightarrow> wp body (\<lambda>r v'. case r of Some x \<Rightarrow> Q x v' | None \<Rightarrow> I v' \<and> \<mu> v' < \<mu> v) E v"
  shows "wp (roundsE e n body) Q E w"
  using assms(1,2)
proof (induction n arbitrary: w)
  case 0
  then show ?case by simp
next
  case (Suc n)
  show ?case
    unfolding roundsE.simps wp_bind
    by (rule wp_mono [OF assms(3) [OF Suc.prems(1)]])
      (use Suc in \<open>auto simp: wp_simps split: option.splits\<close>)
qed

lemma wp_iterE:
  fixes \<mu> :: "'s \<Rightarrow> 'w \<Rightarrow> nat"
  assumes "I s w" and "\<mu> s w < n"
    and "\<And>t v. I t v \<Longrightarrow> wp (body t)
       (\<lambda>r v'. case r of Inl x \<Rightarrow> Q x v' | Inr t' \<Rightarrow> I t' v' \<and> \<mu> t' v' < \<mu> t v) E v"
  shows "wp (iterE e n body s) Q E w"
  using assms(1,2)
proof (induction n arbitrary: s w)
  case 0
  then show ?case by simp
next
  case (Suc n)
  show ?case
    unfolding iterE.simps wp_bind
    by (rule wp_mono [OF assms(3) [OF Suc.prems(1)]])
      (use Suc in \<open>auto simp: wp_simps split: sum.splits\<close>)
qed

lemma wp_forE_inv:
  assumes "I w" and "\<And>x v. x \<in> set xs \<Longrightarrow> I v \<Longrightarrow> wp (f x) (\<lambda>_. I) E v"
  shows "wp (forE xs f) (\<lambda>_. I) E w"
  using assms
proof (induction xs arbitrary: w)
  case Nil
  then show ?case by (simp add: wp_ret)
next
  case (Cons x xs)
  have head: "wp (f x) (\<lambda>_. I) E w" using Cons.prems by simp
  have tail: "wp (forE xs f) (\<lambda>_. I) E v" if "I v" for v
    by (rule Cons.IH [OF that]) (simp add: Cons.prems(2))
  from head show ?case
    unfolding wp_forE_Cons by (rule wp_mono) (auto intro: tail)
qed

text \<open>An action that keeps \<open>I\<close> whether it returns or throws.\<close>

definition keeps :: "('w, 'e, 'a) act \<Rightarrow> ('w \<Rightarrow> bool) \<Rightarrow> bool" where
  "keeps m I \<longleftrightarrow> (\<forall>w. I w \<longrightarrow> wp m (\<lambda>_. I) (\<lambda>_. I) w)"

lemma keepsI: "(\<And>w. I w \<Longrightarrow> wp m (\<lambda>_. I) (\<lambda>_. I) w) \<Longrightarrow> keeps m I"
  by (simp add: keeps_def)

lemma keepsD: "keeps m I \<Longrightarrow> I w \<Longrightarrow> wp m (\<lambda>_. I) (\<lambda>_. I) w"
  by (simp add: keeps_def)

lemma keeps_run: "keeps m I \<Longrightarrow> I w \<Longrightarrow> m w = (r, w') \<Longrightarrow> I w'"
  by (cases r) (auto simp: keeps_def wp_def)

lemma keeps_ret [intro!]: "keeps (retE x) I"
  and keeps_throw [intro!]: "keeps (throwE e) I"
  and keeps_get [intro!]: "keeps (getE f) I"
  by (auto simp: keeps_def wp_simps)

lemma keeps_bind [intro]: "keeps m I \<Longrightarrow> (\<And>a. keeps (k a) I) \<Longrightarrow> keeps (bindE m k) I"
  unfolding keeps_def wp_bind by (blast intro: wp_mono)

lemma keeps_then [intro]: "keeps m I \<Longrightarrow> keeps k I \<Longrightarrow> keeps (thenE m k) I"
  unfolding thenE_def by (rule keeps_bind)

lemma keeps_catch [intro]: "keeps m I \<Longrightarrow> (\<And>e. keeps (h e) I) \<Longrightarrow> keeps (catchE m h) I"
  unfolding keeps_def wp_catch by (blast intro: wp_mono)

lemma keeps_mod [intro]: "(\<And>w. I w \<Longrightarrow> I (f w)) \<Longrightarrow> keeps (modE f) I"
  by (simp add: keeps_def wp_mod)

lemma keeps_when [intro]: "(b \<Longrightarrow> keeps m I) \<Longrightarrow> keeps (whenE b m) I"
  by (cases b) (auto simp: whenE_def)

lemma keeps_if [intro]:
  "(b \<Longrightarrow> keeps m I) \<Longrightarrow> (\<not> b \<Longrightarrow> keeps n I) \<Longrightarrow> keeps (if b then m else n) I"
  by simp

lemma keeps_txn [intro]: "keeps m I \<Longrightarrow> keeps (txnE m) I"
  unfolding keeps_def wp_txn by (blast intro: wp_mono)

lemma keeps_forE [intro]: "(\<And>x. x \<in> set xs \<Longrightarrow> keeps (f x) I) \<Longrightarrow> keeps (forE xs f) I"
  by (induction xs) auto

lemma keeps_loopE [intro]: "keeps body I \<Longrightarrow> keeps (roundsE e n body) I"
  by (induction n) (auto split: option.splits)

lemma keeps_option: "keeps a I \<Longrightarrow> (\<And>y. x = Some y \<Longrightarrow> keeps (b y) I) \<Longrightarrow>
    keeps (case x of None \<Rightarrow> a | Some y \<Rightarrow> b y) I"
  by (cases x) auto

lemma keeps_sum: "(\<And>e. x = Inl e \<Longrightarrow> keeps (a e) I) \<Longrightarrow> (\<And>y. x = Inr y \<Longrightarrow> keeps (b y) I) \<Longrightarrow>
    keeps (case x of Inl e \<Rightarrow> a e | Inr y \<Rightarrow> b y) I"
  by (cases x) auto

lemma keeps_prod: "(\<And>a b. x = (a, b) \<Longrightarrow> keeps (f a b) I) \<Longrightarrow> keeps (case x of (a, b) \<Rightarrow> f a b) I"
  by (cases x) auto

lemma keeps_Let: "(\<And>y. y = x \<Longrightarrow> keeps (f y) I) \<Longrightarrow> keeps (Let x f) I"
  by simp

text \<open>The shape of an action, rule by rule, for \<open>intro\<close>.\<close>

lemmas keeps_shape = keeps_ret keeps_throw keeps_get keeps_bind keeps_then keeps_catch keeps_when
  keeps_if keeps_txn keeps_forE keeps_option keeps_sum keeps_prod keeps_Let

section \<open>Tables as lists of rows\<close>

text \<open>\<open>UPDATE t SET f WHERE p\<close>, and \<open>count(*)\<close>; \<open>SELECT\<close> and \<open>DELETE\<close> are \<open>filter\<close>.\<close>

definition updateWhere :: "('r \<Rightarrow> bool) \<Rightarrow> ('r \<Rightarrow> 'r) \<Rightarrow> 'r list \<Rightarrow> 'r list" where
  "updateWhere p f rows = map (\<lambda>r. if p r then f r else r) rows"

definition selectOne :: "('r \<Rightarrow> bool) \<Rightarrow> 'r list \<Rightarrow> 'r option" where
  "selectOne p rows = find p rows"

lemma updateWhere_Nil [simp, tbl_simps]: "updateWhere p f [] = []"
  and updateWhere_Cons [simp, tbl_simps]:
    "updateWhere p f (r # rs) = (if p r then f r else r) # updateWhere p f rs"
  and updateWhere_append [simp]:
    "updateWhere p f (xs @ ys) = updateWhere p f xs @ updateWhere p f ys"
  and length_updateWhere [simp]: "length (updateWhere p f rows) = length rows"
  by (simp_all add: updateWhere_def)

lemma set_updateWhere: "set (updateWhere p f rows) = (\<lambda>r. if p r then f r else r) ` set rows"
  by (simp add: updateWhere_def)

lemma map_updateWhere_key:
  "(\<And>r. key (f r) = key r) \<Longrightarrow> map key (updateWhere p f rows) = map key rows"
  by (induction rows) auto

lemma selectOne_Nil [simp, tbl_simps]: "selectOne p [] = None"
  and selectOne_Cons [simp, tbl_simps]:
    "selectOne p (r # rs) = (if p r then Some r else selectOne p rs)"
  by (simp_all add: selectOne_def)

lemma selectOne_Some: "selectOne p rows = Some r \<Longrightarrow> r \<in> set rows \<and> p r"
  by (induction rows) (auto split: if_splits)

lemma selectOne_None: "selectOne p rows = None \<longleftrightarrow> (\<forall>r \<in> set rows. \<not> p r)"
  by (induction rows) auto

lemma selectOne_updateWhere:
  assumes "\<And>r. p (f r) = p r"
  shows "selectOne p (updateWhere p f rows) = map_option f (selectOne p rows)"
  by (induction rows) (auto simp: assms)

lemma selectOne_updateWhere_other:
  assumes "\<And>r. q (f r) = q r" and "\<And>r. p r \<Longrightarrow> \<not> q r"
  shows "selectOne q (updateWhere p f rows) = selectOne q rows"
  using assms by (induction rows) auto

lemma ex1_of_distinct_key:
  "distinct (map key rows) \<Longrightarrow> r \<in> set rows \<Longrightarrow> r' \<in> set rows \<Longrightarrow> key r = key r' \<Longrightarrow> r = r'"
  by (induction rows) (auto simp: image_iff)

section \<open>Blanks\<close>

text \<open>The blanks of \<open>\s\<close> and \<open>trim()\<close> that a byte can be.\<close>

definition isSpace :: "char \<Rightarrow> bool" where
  "isSpace c \<longleftrightarrow> c = CHR '' '' \<or> c = CHR 0x0A \<or> c = CHR 0x0D \<or> c = CHR 0x09
     \<or> c = CHR 0x0B \<or> c = CHR 0x0C \<or> c = CHR 0xA0"

definition trimBoth :: "string \<Rightarrow> string" where
  "trimBoth s = rev (dropWhile isSpace (rev (dropWhile isSpace s)))"

section \<open>Decimal texts\<close>

text \<open>\<open>String(n)\<close> and \<open>Number(s)\<close> on the decimal integers the program stores.\<close>

definition digitChar :: "nat \<Rightarrow> char" where
  "digitChar d = ''0123456789'' ! (d mod 10)"

fun showNat :: "nat \<Rightarrow> string" where
  "showNat n = (if n < 10 then [digitChar n] else showNat (n div 10) @ [digitChar (n mod 10)])"

declare showNat.simps [simp del]

definition showInt :: "int \<Rightarrow> string" where
  "showInt i = (if i < 0 then CHR ''-'' # showNat (nat (- i)) else showNat (nat i))"

definition isDigit :: "char \<Rightarrow> bool" where
  "isDigit c \<longleftrightarrow> c \<in> set ''0123456789''"

fun charDigit :: "char \<Rightarrow> nat" where
  "charDigit c = (if c = CHR ''0'' then 0 else if c = CHR ''1'' then 1 else
     if c = CHR ''2'' then 2 else if c = CHR ''3'' then 3 else if c = CHR ''4'' then 4 else
     if c = CHR ''5'' then 5 else if c = CHR ''6'' then 6 else if c = CHR ''7'' then 7 else
     if c = CHR ''8'' then 8 else 9)"

declare charDigit.simps [simp del]

fun readDigits :: "nat \<Rightarrow> string \<Rightarrow> nat" where
  "readDigits acc [] = acc"
| "readDigits acc (c # cs) = readDigits (10 * acc + charDigit c) cs"

definition readNat :: "string \<Rightarrow> nat option" where
  "readNat s = (if s \<noteq> [] \<and> list_all isDigit s then Some (readDigits 0 s) else None)"

definition readInt :: "string \<Rightarrow> int option" where
  "readInt s = (if s \<noteq> [] \<and> hd s = CHR ''-''
     then map_option (\<lambda>n. - int n) (readNat (tl s)) else map_option int (readNat s))"

lemma less_10_cases: "(n::nat) < 10 \<Longrightarrow>
    n = 0 \<or> n = 1 \<or> n = 2 \<or> n = 3 \<or> n = 4 \<or> n = 5 \<or> n = 6 \<or> n = 7 \<or> n = 8 \<or> n = 9"
  by arith

lemma digitChar_props: "isDigit (digitChar n) \<and> charDigit (digitChar n) = n mod 10"
proof -
  have "n mod 10 < 10" by simp
  from less_10_cases [OF this] show ?thesis
    by (elim disjE) (simp_all add: digitChar_def isDigit_def charDigit.simps)
qed

lemma showNat_digits: "list_all isDigit (showNat n) \<and> showNat n \<noteq> []"
  by (induction n rule: showNat.induct)
    (subst (1 2) showNat.simps, simp add: digitChar_props)

lemma readDigits_append: "readDigits a (xs @ ys) = readDigits (readDigits a xs) ys"
  by (induction xs arbitrary: a) auto

lemma readDigits_showNat: "readDigits 0 (showNat n) = n"
proof (induction n rule: showNat.induct)
  case (1 n)
  then show ?case
    by (subst showNat.simps) (simp add: readDigits_append digitChar_props)
qed

lemma readNat_showNat [simp]: "readNat (showNat n) = Some n"
  by (simp add: readNat_def showNat_digits readDigits_showNat)

lemma not_isDigit_minus: "\<not> isDigit CHR ''-''"
  by (simp add: isDigit_def)

lemma showNat_Cons_digit: "showNat n = c # cs \<Longrightarrow> isDigit c"
  using showNat_digits [of n] by simp

lemma readInt_showNat [simp]: "readInt (showNat n) = Some (int n)"
proof (cases "showNat n")
  case Nil
  then show ?thesis using showNat_digits [of n] by simp
next
  case (Cons c cs)
  then have "c \<noteq> CHR ''-''" using showNat_Cons_digit not_isDigit_minus by metis
  with Cons show ?thesis
    by (simp add: readInt_def readNat_showNat [of n, unfolded Cons])
qed

lemma readInt_showInt [simp]: "readInt (showInt i) = Some i"
proof (cases "i < 0")
  case True
  then show ?thesis by (simp add: showInt_def readInt_def)
next
  case False
  then show ?thesis by (simp add: showInt_def)
qed

end
