(* ===== verification/Schema.thy ===== *)
theory Schema
  imports ZPrelude
begin

text \<open>
  The rows of the control plane's database (\<open>apps/web/lib/schema.ts\<close>): one datatype per
  SQLite enum, one record per table that the modelled code reads or writes, field for column.
  A nullable column is an \<open>option\<close>; a timestamp is its unix time in milliseconds.
\<close>

section \<open>Enums\<close>

datatype workspaceState = Creating | Running | Stopping | Stopped | Rebuilding | Deleting | ErrorState

datatype machineType = Vcpu2 | Vcpu4 | Vcpu8 | Vcpu32

datatype region = Iad1 | Sfo1 | Cle1 | Cdg1

datatype settingsKind = SettingsDoc | KeymapDoc | DotfilesDoc

datatype portVisibility = Private | Public

datatype restoreKind = Fresh | SnapshotRestore | Tarball

text \<open>The text SQLite stores for an enum value (and zod parses back).\<close>

fun stateText :: "workspaceState \<Rightarrow> string" where
  "stateText Creating = ''creating''"
| "stateText Running = ''running''"
| "stateText Stopping = ''stopping''"
| "stateText Stopped = ''stopped''"
| "stateText Rebuilding = ''rebuilding''"
| "stateText Deleting = ''deleting''"
| "stateText ErrorState = ''error''"

fun regionText :: "region \<Rightarrow> string" where
  "regionText Iad1 = ''iad1''"
| "regionText Sfo1 = ''sfo1''"
| "regionText Cle1 = ''cle1''"
| "regionText Cdg1 = ''cdg1''"

section \<open>Tables\<close>

text \<open>\<open>users\<close>: the columns the control plane reads after sign-in.\<close>

record user =
  u_id :: string
  u_idleMinutesDefault :: int
  u_flaggedAt :: "int option"
  u_flagReason :: "string option"
  u_updatedAt :: int
  u_deletedAt :: "int option"

record repo =
  r_id :: string
  r_installationId :: int
  r_githubRepoId :: int
  r_owner :: string
  r_name :: string
  r_defaultBranch :: string
  r_private :: bool
  r_defaultMachine :: machineType
  r_idleMinutes :: "int option"

record workspace =
  ws_id :: string
  ownerUserId :: string
  repoId :: string
  ws_name :: string
  branch :: "string option"
  workshopKey :: "string option"
  revision :: "string option"
  gitRef :: "string option"
  pullRequest :: "int option"
  machine :: machineType
  ws_region :: region
  sandboxName :: string
  previousSandboxName :: "string option"
  sandboxGeneration :: int
  imageRef :: string
  serverBuild :: string
  clientBuild :: string
  restoreKind :: restoreKind
  restoreBlobPathname :: "string option"
  ws_state :: workspaceState
  stateReason :: "string option"
  audience :: string
  sandboxTokenHash :: "string option"
  sandboxTokenGeneration :: int
  supervisorCmdId :: "string option"
  currentWsHost :: "string option"
  currentSlotHosts :: "(string \<times> string) list option"
  currentHealthHost :: "string option"
  currentSandboxSessionId :: "string option"
  sessionStartedAt :: "int option"
  sandboxExpiresAt :: "int option"
  snapshotSizeBytes :: "int option"
  workflowRunId :: "string option"
  workflowRunStartedAt :: "int option"
  lastActiveAt :: int
  idleMinutes :: int
  installedExtensions :: "string list"
  retentionUntil :: "int option"
  retentionWarnedAt :: "int option"
  createdAt :: int
  updatedAt :: int
  lastStoppedAt :: "int option"
  deletedAt :: "int option"

record session =
  s_id :: string
  s_workspaceId :: string
  s_userId :: string
  s_sandboxGeneration :: int
  s_sandboxSessionId :: "string option"
  holderTabId :: string
  wsHost :: string
  s_clientBuild :: "string option"
  s_serverBuild :: "string option"
  startedAt :: int
  endedAt :: "int option"
  endReason :: "string option"
  tokensMinted :: int
  lastConnectId :: "string option"

record forward =
  f_workspaceId :: string
  f_port :: int
  f_visibility :: portVisibility
  f_label :: "string option"
  f_url :: "string option"
  f_slot :: "int option"

record settingsDoc =
  d_userId :: string
  d_kind :: settingsKind
  d_content :: string
  d_version :: int

text \<open>
  The key-value table (\<open>kvEntries\<close>): the key is its primary key, so the table is a map from
  keys to the value and the expiry instant.
\<close>

type_synonym kvTable = "string \<rightharpoonup> string \<times> int option"

end
