(* ===== verification/Config.thy ===== *)
theory Config
  imports Schema "HOL-Library.Sublist"
begin

text \<open>
  Deployment configuration and the pure tables over it: \<open>lib/env.ts\<close> (the variables the
  modelled code reads, the port map, the test-bundle guard, the control API base),
  \<open>lib/builds.ts\<close>, \<open>lib/release.ts\<close> and \<open>lib/plans.ts\<close>. Also the error values the
  program throws, one datatype for routes and workflows.
\<close>

section \<open>Errors\<close>

datatype sandboxErrorCode = Image_not_ready | Not_found | Snapshot_expired
  | Snapshot_region_mismatch | Quota | Unknown_code

fun sandboxCodeText :: "sandboxErrorCode \<Rightarrow> string" where
  "sandboxCodeText Image_not_ready = ''image_not_ready''"
| "sandboxCodeText Not_found = ''not_found''"
| "sandboxCodeText Snapshot_expired = ''snapshot_expired''"
| "sandboxCodeText Snapshot_region_mismatch = ''snapshot_region_mismatch''"
| "sandboxCodeText Quota = ''quota''"
| "sandboxCodeText Unknown_code = ''unknown''"

text \<open>
  \<open>ApiError status code\<close> (its message and details are left out), the workflow runtime's
  \<open>FatalError\<close> and \<open>RetryableError\<close>, \<open>SandboxError code retryable message\<close>,
  \<open>EnvError missing\<close>, and any other thrown value as its text.
\<close>

datatype err = ApiError int string | FatalError string | RetryableError string
  | SandboxError sandboxErrorCode bool string | EnvError "string list" | OtherError string

text \<open>\<open>String(err)\<close> of a thrown value: an \<open>Error\<close> prints as its name and message.\<close>

fun errString :: "err \<Rightarrow> string" where
  "errString (ApiError st code) = ''ApiError: '' @ code"
| "errString (FatalError m) = ''FatalError: '' @ m"
| "errString (RetryableError m) = ''RetryableError: '' @ m"
| "errString (SandboxError c r m) = ''SandboxError: '' @ m"
| "errString (EnvError ks) = ''EnvError: '' @ concat ks"
| "errString (OtherError m) = m"

section \<open>Environment\<close>

datatype sandboxBackend = Vercel | Local | Docker

datatype vercelEnv = Production | Preview | Development

datatype nodeEnv = NodeDevelopment | NodeTest | NodeProduction

datatype blobDriver = BlobVercel | BlobMemory | BlobFile

record env =
  TURSO_DATABASE_URL :: "string option"
  TURSO_AUTH_TOKEN :: "string option"
  ZS_DB_URL :: "string option"
  ZS_MAX_RUNNING_WORKSPACES :: int
  CRON_SECRET :: "string option"
  ZS_JWT_PRIVATE_KEY :: "string option"
  ZS_JWT_KID :: string
  ZS_JWT_PREVIOUS_PUBLIC_KEY :: "string option"
  ZS_JWT_PREVIOUS_KID :: "string option"
  ZS_JWT_ISSUER :: string
  GITHUB_CLIENT_ID :: "string option"
  GITHUB_CLIENT_SECRET :: "string option"
  BETTER_AUTH_SECRET :: "string option"
  ZS_CLIENT_BUILD_ID :: "string option"
  ZS_SERVER_BUILD_ID :: "string option"
  ZS_IMAGE_REF :: "string option"
  ZS_VERCEL_TOKEN :: "string option"
  VERCEL_TEAM_ID :: "string option"
  VERCEL_PROJECT_ID :: "string option"
  ZS_EDITOR_BUNDLES :: "string option"
  ZS_EDITOR_UPDATE_BUILDS :: "string option"
  ZS_CONTROL_URL :: "string option"
  ZS_EDITOR_BUNDLE_SOURCE :: "string option"
  ZS_EDITOR_BUNDLES_KEEP :: int
  ZS_CSP_UNSAFE_EVAL :: bool
  VERCEL_AUTOMATION_BYPASS_SECRET :: "string option"
  ZS_DEFAULT_REGION :: region
  ZS_RPC_PORT :: int
  ZS_HEALTH_PORT :: int
  ZS_IDLE_MINUTES_DEFAULT :: int
  ZS_RETENTION_DAYS :: int
  ZS_SESSION_TIMEOUT_MS :: int
  ZS_SESSION_CAP_MS :: int
  ZS_SANDBOX_BACKEND :: sandboxBackend
  ZS_DOCKER_ROOT :: "string option"
  ZS_DOCKER_CONTROL_URL :: "string option"
  ZS_LOCAL_ROOT :: "string option"
  ZS_LOCAL_REPOS_DIR :: "string option"
  ZS_AGENT_BIN :: "string option"
  ZS_SERVE_BIN :: "string option"
  BLOB_READ_WRITE_TOKEN :: "string option"
  ZS_BLOB_DRIVER :: "blobDriver option"
  ZS_LOG_SINK_URL :: "string option"
  ZS_LOG_SINK_TOKEN :: "string option"
  VERCEL_ENV :: "vercelEnv option"
  VERCEL_URL :: "string option"
  NODE_ENV :: "nodeEnv option"

text \<open>The defaults zod fills in for a bare environment; \<open>ZS_CSP_UNSAFE_EVAL\<close> is whether it is \<open>1\<close>.\<close>

definition defaultEnv :: env where
  "defaultEnv = \<lparr>TURSO_DATABASE_URL = None, TURSO_AUTH_TOKEN = None, ZS_DB_URL = None, ZS_MAX_RUNNING_WORKSPACES = 5,
     CRON_SECRET = None, ZS_JWT_PRIVATE_KEY = None, ZS_JWT_KID = ''k1'', ZS_JWT_PREVIOUS_PUBLIC_KEY =
     None, ZS_JWT_PREVIOUS_KID = None, ZS_JWT_ISSUER = ''zs'', GITHUB_CLIENT_ID = None,
     GITHUB_CLIENT_SECRET = None, BETTER_AUTH_SECRET = None, ZS_CLIENT_BUILD_ID = None,
     ZS_SERVER_BUILD_ID = None, ZS_IMAGE_REF = None, ZS_VERCEL_TOKEN = None, VERCEL_TEAM_ID = None,
     VERCEL_PROJECT_ID = None, ZS_EDITOR_BUNDLES = None, ZS_EDITOR_UPDATE_BUILDS = None, ZS_CONTROL_URL =
     None, ZS_EDITOR_BUNDLE_SOURCE = None, ZS_EDITOR_BUNDLES_KEEP = 5, ZS_CSP_UNSAFE_EVAL = True,
     VERCEL_AUTOMATION_BYPASS_SECRET = None, ZS_DEFAULT_REGION = Iad1, ZS_RPC_PORT = 8443, ZS_HEALTH_PORT
     = 8448, ZS_IDLE_MINUTES_DEFAULT = 30, ZS_RETENTION_DAYS = 30, ZS_SESSION_TIMEOUT_MS = 4 * 3600000,
     ZS_SESSION_CAP_MS = 24 * 3600000, ZS_SANDBOX_BACKEND = Vercel, ZS_DOCKER_ROOT = None,
     ZS_DOCKER_CONTROL_URL = None, ZS_LOCAL_ROOT = None, ZS_LOCAL_REPOS_DIR = None, ZS_AGENT_BIN = None,
     ZS_SERVE_BIN = None, BLOB_READ_WRITE_TOKEN = None, ZS_BLOB_DRIVER = None, ZS_LOG_SINK_URL = None,
     ZS_LOG_SINK_TOKEN = None, VERCEL_ENV = None, VERCEL_URL = None, NODE_ENV = None\<rparr>"

definition INFRA_PORT_MIN :: int where "INFRA_PORT_MIN = 8443"
definition INFRA_PORT_MAX :: int where "INFRA_PORT_MAX = 8460"

text \<open>\<open>/-test(-names)?$/\<close>.\<close>

definition isTestClientBuild :: "string option \<Rightarrow> bool" where
  "isTestClientBuild build = (case build of None \<Rightarrow> False
     | Some b \<Rightarrow> suffix ''-test'' b \<or> suffix ''-test-names'' b)"

definition refusesTestBundles :: "env \<Rightarrow> nodeEnv option \<Rightarrow> bool" where
  "refusesTestBundles e processNodeEnv \<longleftrightarrow>
     NODE_ENV e = Some NodeProduction \<or> processNodeEnv = Some NodeProduction
     \<or> VERCEL_ENV e = Some Production"

definition refuseTestClientBuildInProduction :: "env \<Rightarrow> nodeEnv option \<Rightarrow> err option" where
  "refuseTestClientBuildInProduction e processNodeEnv =
     (if \<not> isTestClientBuild (ZS_CLIENT_BUILD_ID e) then None
      else if refusesTestBundles e processNodeEnv then Some (EnvError [''ZS_CLIENT_BUILD_ID''])
      else None)"

definition refusesTestClientBuild :: "env \<Rightarrow> nodeEnv option \<Rightarrow> string option \<Rightarrow> bool" where
  "refusesTestClientBuild e processNodeEnv build \<longleftrightarrow>
     isTestClientBuild build \<and> refusesTestBundles e processNodeEnv"

text \<open>\<open>value.replace(/\/+$/, "")\<close>.\<close>

definition stripTrailingSlashes :: "string \<Rightarrow> string" where
  "stripTrailingSlashes v = rev (dropWhile (\<lambda>c. c = CHR ''/'') (rev v))"

definition controlApiBase :: "env \<Rightarrow> err + string" where
  "controlApiBase e = (case ZS_CONTROL_URL e of
      Some u \<Rightarrow> Inr (stripTrailingSlashes u)
    | None \<Rightarrow> (case VERCEL_URL e of
        Some u \<Rightarrow> Inr (''https://'' @ stripTrailingSlashes u @ ''/api'')
      | None \<Rightarrow> Inl (EnvError [''ZS_CONTROL_URL''])))"

definition envTag :: "env \<Rightarrow> vercelEnv" where
  "envTag e = (case VERCEL_ENV e of Some v \<Rightarrow> v | None \<Rightarrow> Development)"

fun envTagText :: "vercelEnv \<Rightarrow> string" where
  "envTagText Production = ''production''"
| "envTagText Preview = ''preview''"
| "envTagText Development = ''development''"

definition proxySlots :: "int list" where
  "proxySlots = [8444, 8445, 8446, 8447, 8452, 8453, 8454, 8455, 8456, 8457, 8458, 8459]"

definition infraPorts :: "env \<Rightarrow> int list" where
  "infraPorts e = sort (remdups ([22, 53, 111, 23456] @ [INFRA_PORT_MIN .. INFRA_PORT_MAX]
     @ [ZS_RPC_PORT e, ZS_HEALTH_PORT e] @ proxySlots))"

definition isInfraPort :: "env \<Rightarrow> int \<Rightarrow> bool" where
  "isInfraPort e port \<longleftrightarrow> port \<in> set (infraPorts e)"

section \<open>Builds and releases\<close>

definition buildsCompatible :: "string option \<Rightarrow> string option \<Rightarrow> bool" where
  "buildsCompatible a b = (case (a, b) of
      (Some x, Some y) \<Rightarrow>
        (if x = [] \<or> y = [] then True
         else if x = y then True
         else prefix ''dev'' x \<or> prefix ''dev'' y)
    | _ \<Rightarrow> True)"

record editorRelease =
  er_imageRef :: string
  er_serverBuild :: string
  er_clientBuild :: string

definition sameRelease :: "editorRelease \<Rightarrow> editorRelease \<Rightarrow> bool" where
  "sameRelease a b \<longleftrightarrow> er_imageRef a = er_imageRef b \<and> er_serverBuild a = er_serverBuild b
     \<and> er_clientBuild a = er_clientBuild b"

text \<open>A workspace row read as the release it runs (the structural typing of \<open>sameRelease\<close>).\<close>

definition releaseOf :: "workspace \<Rightarrow> editorRelease" where
  "releaseOf ws = \<lparr>er_imageRef = imageRef ws, er_serverBuild = serverBuild ws,
     er_clientBuild = clientBuild ws\<rparr>"

text \<open>\<open>s.split(",")\<close>.\<close>

fun splitOn :: "char \<Rightarrow> string \<Rightarrow> string list" where
  "splitOn d [] = [[]]"
| "splitOn d (c # cs) = (if c = d then [] # splitOn d cs
     else (case splitOn d cs of [] \<Rightarrow> [[c]] | p # ps \<Rightarrow> (c # p) # ps))"

definition listedIn :: "string \<Rightarrow> string option \<Rightarrow> bool" where
  "listedIn b v = (case v of None \<Rightarrow> False | Some s \<Rightarrow> b \<in> set (splitOn CHR '','' s))"

definition canDeferUpgrade :: "env \<Rightarrow> string \<Rightarrow> bool" where
  "canDeferUpgrade e build \<longleftrightarrow> prefix ''dev'' build \<or>
     (listedIn build (ZS_EDITOR_BUNDLES e) \<and> listedIn build (ZS_EDITOR_UPDATE_BUILDS e))"

definition currentRelease :: "env \<Rightarrow> err + editorRelease" where
  "currentRelease e = (case (ZS_IMAGE_REF e, ZS_SERVER_BUILD_ID e) of
      (Some i, Some s) \<Rightarrow>
        (if i = [] \<or> s = [] then Inl (EnvError [''ZS_IMAGE_REF'', ''ZS_SERVER_BUILD_ID''])
         else Inr \<lparr>er_imageRef = i, er_serverBuild = s,
           er_clientBuild = (case ZS_CLIENT_BUILD_ID e of Some c \<Rightarrow> c | None \<Rightarrow> s)\<rparr>)
    | _ \<Rightarrow> Inl (EnvError [''ZS_IMAGE_REF'', ''ZS_SERVER_BUILD_ID'']))"

section \<open>Machines and idle policy\<close>

fun MACHINES :: "machineType \<Rightarrow> int \<times> int" where
  "MACHINES Vcpu2 = (2, 4)"
| "MACHINES Vcpu4 = (4, 8)"
| "MACHINES Vcpu8 = (8, 16)"
| "MACHINES Vcpu32 = (32, 64)"

definition vcpus :: "machineType \<Rightarrow> int" where
  "vcpus m = fst (MACHINES m)"

definition idleMinutesFor :: "env \<Rightarrow> int option \<Rightarrow> int" where
  "idleMinutesFor e requested =
     min 240 (max 5 (case requested of Some r \<Rightarrow> r | None \<Rightarrow> ZS_IDLE_MINUTES_DEFAULT e))"

section \<open>Lemmas\<close>

lemma proxySlots_range: "set proxySlots \<subseteq> {INFRA_PORT_MIN .. INFRA_PORT_MAX}"
  by (simp add: proxySlots_def INFRA_PORT_MIN_def INFRA_PORT_MAX_def)

lemma set_infraPorts: "set (infraPorts e) =
    {22, 53, 111, 23456} \<union> {INFRA_PORT_MIN .. INFRA_PORT_MAX} \<union> {ZS_RPC_PORT e, ZS_HEALTH_PORT e}"
  using proxySlots_range
  unfolding infraPorts_def set_sort set_remdups set_append set_upto by auto

lemma isInfraPort_iff: "isInfraPort e p \<longleftrightarrow> p = 22 \<or> p = 53 \<or> p = 111 \<or> p = 23456
    \<or> (8443 \<le> p \<and> p \<le> 8460) \<or> p = ZS_RPC_PORT e \<or> p = ZS_HEALTH_PORT e"
  unfolding isInfraPort_def set_infraPorts INFRA_PORT_MIN_def INFRA_PORT_MAX_def by auto

lemma proxySlots_infra: "s \<in> set proxySlots \<Longrightarrow> isInfraPort e s"
  using proxySlots_range unfolding isInfraPort_def set_infraPorts by auto

lemma distinct_proxySlots [simp]: "distinct proxySlots"
  by (simp add: proxySlots_def)

lemma length_proxySlots [simp]: "length proxySlots = 12"
  by (simp add: proxySlots_def)

lemma sorted_infraPorts: "sorted (infraPorts e) \<and> distinct (infraPorts e)"
  by (simp only: infraPorts_def sorted_sort distinct_sort distinct_remdups simp_thms)

lemma buildsCompatible_sym: "buildsCompatible a b = buildsCompatible b a"
  by (auto simp: buildsCompatible_def split: option.splits)

lemma buildsCompatible_refl: "buildsCompatible a a"
  by (auto simp: buildsCompatible_def split: option.splits)

lemma sameRelease_iff: "sameRelease a b \<longleftrightarrow> (a :: editorRelease) = b"
  by (auto simp: sameRelease_def)

lemma stripTrailingSlashes_no_slash:
  "stripTrailingSlashes v = [] \<or> last (stripTrailingSlashes v) \<noteq> CHR ''/''"
proof (cases "dropWhile (\<lambda>c. c = CHR ''/'') (rev v)")
  case (Cons c cs)
  then have "c \<noteq> CHR ''/''" by (metis (mono_tags) dropWhile_eq_Cons_conv)
  with Cons show ?thesis by (simp add: stripTrailingSlashes_def)
qed (simp add: stripTrailingSlashes_def)

end
