(* ===== verification/Ids.thy ===== *)
theory Ids
  imports Config
begin

text \<open>
  Identifiers (\<open>lib/ids.ts\<close>) and the rebuild archive's pathname (\<open>lib/archive.ts\<close>). Random
  bytes and SHA-256 are parameters: the bytes are an argument, the digest a function \<open>sha\<close>.
\<close>

section \<open>Minting\<close>

datatype idPrefix = PreWs | PreSb | PreSes | PreCon | PreRepo

fun prefixText :: "idPrefix \<Rightarrow> string" where
  "prefixText PreWs = ''ws''"
| "prefixText PreSb = ''sb''"
| "prefixText PreSes = ''ses''"
| "prefixText PreCon = ''con''"
| "prefixText PreRepo = ''repo''"

definition CROCKFORD :: string where
  "CROCKFORD = ''0123456789ABCDEFGHJKMNPQRSTVWXYZ''"

text \<open>\<open>CROCKFORD[byte \& 31]\<close>; a byte is below 256.\<close>

definition newId :: "idPrefix \<Rightarrow> nat list \<Rightarrow> string" where
  "newId p bytes = prefixText p @ ''_'' @ map (\<lambda>b. CROCKFORD ! (b mod 32)) bytes"

definition newConnectId :: "nat list \<Rightarrow> string" where
  "newConnectId bytes = newId PreCon bytes"

text \<open>\<open>Buffer.toString("base64url")\<close>: six bits a character, no padding.\<close>

definition B64URL :: string where
  "B64URL = ''ABCDEFGHIJKLMNOPQRSTUVWXYZabcdefghijklmnopqrstuvwxyz0123456789-_''"

fun base64url :: "nat list \<Rightarrow> string" where
  "base64url [] = []"
| "base64url [a] = [B64URL ! (a div 4 mod 64), B64URL ! (a mod 4 * 16)]"
| "base64url [a, b] = [B64URL ! (a div 4 mod 64), B64URL ! (a mod 4 * 16 + b div 16 mod 16),
     B64URL ! (b mod 16 * 4)]"
| "base64url (a # b # c # rest) = [B64URL ! (a div 4 mod 64),
     B64URL ! (a mod 4 * 16 + b div 16 mod 16), B64URL ! (b mod 16 * 4 + c div 64 mod 4),
     B64URL ! (c mod 64)] @ base64url rest"

definition newJti :: "nat list \<Rightarrow> string" where
  "newJti bytes = base64url bytes"

definition newSandboxToken :: "(string \<Rightarrow> string) \<Rightarrow> nat list \<Rightarrow> string \<times> string" where
  "newSandboxToken sha bytes = (let token = ''zsb_'' @ base64url bytes in (token, sha token))"

fun envShort :: "vercelEnv option \<Rightarrow> string" where
  "envShort (Some Production) = ''prod''"
| "envShort (Some Preview) = ''prev''"
| "envShort _ = ''dev''"

text \<open>\<open>toLowerCase\<close> on the ASCII letters that occur in ids.\<close>

definition toLower :: "char \<Rightarrow> char" where
  "toLower c = (case map_of (zip ''ABCDEFGHIJKLMNOPQRSTUVWXYZ'' ''abcdefghijklmnopqrstuvwxyz'') c of
      Some d \<Rightarrow> d | None \<Rightarrow> c)"

definition newSandboxName :: "vercelEnv option \<Rightarrow> string \<Rightarrow> int \<Rightarrow> string" where
  "newSandboxName v workspaceId generation =
     ''sb-'' @ envShort v @ ''-'' @ map toLower (drop 3 workspaceId) @ ''-g'' @ showInt generation"

section \<open>Validating\<close>

text \<open>\<open>[0-9A-HJKMNP-TV-Z]\<close>, and the two anchored id patterns built on it.\<close>

definition crockfordChar :: "char \<Rightarrow> bool" where
  "crockfordChar c \<longleftrightarrow> c \<in> set CROCKFORD"

definition WORKSPACE_ID_RE :: "string \<Rightarrow> bool" where
  "WORKSPACE_ID_RE s \<longleftrightarrow> take 3 s = ''ws_'' \<and> length s = 23 \<and> list_all crockfordChar (drop 3 s)"

definition REPO_ID_RE :: "string \<Rightarrow> bool" where
  "REPO_ID_RE s \<longleftrightarrow> take 5 s = ''repo_'' \<and> length s = 25 \<and> list_all crockfordChar (drop 5 s)"

text \<open>\<open>/^sb-[a-z0-9-]{1,60}$/\<close>.\<close>

definition sandboxChar :: "char \<Rightarrow> bool" where
  "sandboxChar c \<longleftrightarrow> c \<in> set ''abcdefghijklmnopqrstuvwxyz0123456789-''"

definition SANDBOX_NAME_RE :: "string \<Rightarrow> bool" where
  "SANDBOX_NAME_RE s \<longleftrightarrow> take 3 s = ''sb-'' \<and> 4 \<le> length s \<and> length s \<le> 63
     \<and> list_all sandboxChar (drop 3 s)"

section \<open>Comparing\<close>

definition hexDigits :: string where "hexDigits = ''0123456789abcdef''"

definition isHexChar :: "char \<Rightarrow> bool" where
  "isHexChar c \<longleftrightarrow> toLower c \<in> set hexDigits"

fun indexOf :: "char \<Rightarrow> string \<Rightarrow> nat" where
  "indexOf c [] = 0"
| "indexOf c (x # xs) = (if c = x then 0 else Suc (indexOf c xs))"

definition hexVal :: "char \<Rightarrow> nat" where
  "hexVal c = indexOf (toLower c) hexDigits"

text \<open>\<open>Buffer.from(s, "hex")\<close>: one byte per two digits; a last odd digit is dropped.\<close>

fun hexBytes :: "string \<Rightarrow> nat list" where
  "hexBytes (a # b # rest) = (16 * hexVal a + hexVal b) # hexBytes rest"
| "hexBytes _ = []"

definition timingSafeEqualHex :: "string \<Rightarrow> string \<Rightarrow> bool" where
  "timingSafeEqualHex a b =
     (if length a \<noteq> length b \<or> length a = 0 then False
      else if \<not> list_all isHexChar a \<or> \<not> list_all isHexChar b then False
      else hexBytes a = hexBytes b)"

text \<open>The two buffers hold the UTF-8 bytes; a \<open>char\<close> of the model is such a byte.\<close>

definition timingSafeEqualString :: "string \<Rightarrow> string \<Rightarrow> bool" where
  "timingSafeEqualString a b = (if length a \<noteq> length b then False else a = b)"

section \<open>The rebuild archive's pathname\<close>

definition blobPathnameFor :: "string \<Rightarrow> int \<Rightarrow> string option \<Rightarrow> string" where
  "blobPathnameFor workspaceId at sha256 = (case sha256 of
      Some d \<Rightarrow> if d = [] then ''rebuild/'' @ workspaceId @ ''/'' @ showInt at @ ''.tgz''
        else ''rebuild/'' @ workspaceId @ ''/'' @ showInt at @ ''-'' @ d @ ''.tgz''
    | None \<Rightarrow> ''rebuild/'' @ workspaceId @ ''/'' @ showInt at @ ''.tgz'')"

definition lowerHex :: "char \<Rightarrow> bool" where
  "lowerHex c \<longleftrightarrow> c \<in> set hexDigits"

text \<open>\<open>/-([0-9a-f]{64})\.tgz$/\<close>: the last 69 characters, group 1 being 64 of them.\<close>

definition sha256FromBlobPathname :: "string \<Rightarrow> string option" where
  "sha256FromBlobPathname p =
     (let t = drop (length p - 69) p; d = take 64 (drop 1 t) in
      if 69 \<le> length p \<and> hd t = CHR ''-'' \<and> list_all lowerHex d \<and> drop 65 t = ''.tgz''
      then Some d else None)"

section \<open>Lemmas\<close>

lemma length_CROCKFORD [simp]: "length CROCKFORD = 32"
  by (simp add: CROCKFORD_def)

lemma crockford_nth: "crockfordChar (CROCKFORD ! (b mod 32))"
  by (simp add: crockfordChar_def)

lemma newId_ws: "length bytes = 20 \<Longrightarrow> WORKSPACE_ID_RE (newId PreWs bytes)"
  by (simp add: WORKSPACE_ID_RE_def newId_def list_all_iff crockford_nth)

lemma newId_repo: "length bytes = 20 \<Longrightarrow> REPO_ID_RE (newId PreRepo bytes)"
  by (simp add: REPO_ID_RE_def newId_def list_all_iff crockford_nth)

lemma crockford_lower_all: "list_all (\<lambda>c. sandboxChar (toLower c)) CROCKFORD"
  by code_simp

lemma crockford_lower: "crockfordChar c \<Longrightarrow> sandboxChar (toLower c)"
  using crockford_lower_all by (simp add: crockfordChar_def list_all_iff)

lemma digit_sandboxChar: "isDigit c \<Longrightarrow> sandboxChar c"
  unfolding isDigit_def sandboxChar_def by (simp, elim disjE) simp_all

lemma newSandboxName_valid:
  assumes "WORKSPACE_ID_RE wid" and "0 \<le> generation" and "length (showInt generation) \<le> 33"
  shows "SANDBOX_NAME_RE (newSandboxName v wid generation)"
proof -
  have body: "length wid = 23" "list_all crockfordChar (drop 3 wid)"
    using assms(1) by (simp_all add: WORKSPACE_ID_RE_def)
  have low: "list_all sandboxChar (map toLower (drop 3 wid))"
    using body(2) by (auto simp: list_all_iff crockford_lower)
  have dig: "list_all sandboxChar (showInt generation)"
    using showNat_digits [of "nat generation"] assms(2)
    by (auto simp: showInt_def list_all_iff digit_sandboxChar)
  have env: "list_all sandboxChar (envShort v) \<and> length (envShort v) \<le> 4"
    by (cases v rule: envShort.cases) (simp_all add: sandboxChar_def)
  show ?thesis
    using assms(3) body(1) low dig env
    by (simp add: SANDBOX_NAME_RE_def newSandboxName_def sandboxChar_def)
qed

lemma length_base64url: "length (base64url bytes) = (4 * length bytes + 2) div 3"
  by (induction bytes rule: base64url.induct) auto

lemma isHexChar_lower_cases: "isHexChar c \<Longrightarrow> toLower c \<in> set hexDigits"
  by (simp add: isHexChar_def)

lemma indexOf_inj:
  "x \<in> set xs \<Longrightarrow> y \<in> set xs \<Longrightarrow> indexOf x xs = indexOf y xs \<Longrightarrow> x = y"
  by (induction xs) (auto split: if_splits)

lemma indexOf_less: "x \<in> set xs \<Longrightarrow> indexOf x xs < length xs"
  by (induction xs) auto

lemma hexVal_inj: "isHexChar a \<Longrightarrow> isHexChar b \<Longrightarrow> hexVal a = hexVal b \<Longrightarrow> toLower a = toLower b"
  unfolding hexVal_def isHexChar_def by (rule indexOf_inj)

lemma hexVal_eq: "isHexChar a \<Longrightarrow> isHexChar b \<Longrightarrow> hexVal a = hexVal b \<longleftrightarrow> toLower a = toLower b"
  using hexVal_inj [of a b] by (auto simp: hexVal_def)

lemma hexVal_less: "isHexChar a \<Longrightarrow> hexVal a < 16"
  using indexOf_less [of "toLower a" hexDigits] by (simp add: hexVal_def isHexChar_def hexDigits_def)

lemma nibbles_eq:
  assumes "(b::nat) < 16" and "d < 16"
  shows "16 * a + b = 16 * c + d \<longleftrightarrow> a = c \<and> b = d"
proof
  assume eq: "16 * a + b = 16 * c + d"
  have "(16 * a + b) div 16 = a" "(16 * c + d) div 16 = c" using assms by simp_all
  with eq have "a = c" by metis
  with eq show "a = c \<and> b = d" by simp
qed simp

lemma hexBytes_inj:
  "list_all isHexChar a \<Longrightarrow> list_all isHexChar b \<Longrightarrow> even (length a) \<Longrightarrow> length a = length b \<Longrightarrow>
   hexBytes a = hexBytes b \<longleftrightarrow> map toLower a = map toLower b"
proof (induction a arbitrary: b rule: hexBytes.induct)
  case (1 x y rest)
  then obtain u v bs where b: "b = u # v # bs"
    by (metis Suc_length_conv length_Cons)
  have hex: "isHexChar x" "isHexChar y" "isHexChar u" "isHexChar v"
    using "1.prems" b by simp_all
  have "16 * hexVal x + hexVal y = 16 * hexVal u + hexVal v \<longleftrightarrow> hexVal x = hexVal u \<and> hexVal y = hexVal v"
    by (rule nibbles_eq) (rule hexVal_less [OF hex(2)], rule hexVal_less [OF hex(4)])
  moreover have "hexBytes rest = hexBytes bs \<longleftrightarrow> map toLower rest = map toLower bs"
    using "1.IH" "1.prems" b by simp
  ultimately show ?case
    by (simp add: b hexVal_eq [OF hex(1,3)] hexVal_eq [OF hex(2,4)])
qed simp_all

lemma sha256FromBlobPathname_tail:
  assumes "length d = 64" and "list_all lowerHex d"
  shows "sha256FromBlobPathname (pre @ CHR ''-'' # d @ ''.tgz'') = Some d"
proof -
  have "drop (length (pre @ CHR ''-'' # d @ ''.tgz'') - 69) (pre @ CHR ''-'' # d @ ''.tgz'')
      = CHR ''-'' # d @ ''.tgz''"
    using assms(1) by simp
  then show ?thesis
    using assms by (simp add: sha256FromBlobPathname_def Let_def drop_Cons')
qed

lemma blob_digest_read:
  assumes "length d = 64" and "list_all lowerHex d"
  shows "sha256FromBlobPathname (blobPathnameFor wid at (Some d)) = Some d"
proof -
  have "d \<noteq> []" using assms(1) by auto
  then have "blobPathnameFor wid at (Some d) =
      (''rebuild/'' @ wid @ ''/'' @ showInt at) @ CHR ''-'' # d @ ''.tgz''"
    by (simp add: blobPathnameFor_def)
  then show ?thesis by (simp only: sha256FromBlobPathname_tail [OF assms])
qed

text \<open>
  Without a digest there is nothing to read back, as long as the workspace id has no dash: the
  pattern needs one before its 64 digits.
\<close>

lemma showNat_no_minus: "CHR ''-'' \<notin> set (showNat n)"
  using showNat_digits [of n] not_isDigit_minus by (auto simp: list_all_iff)

lemma blob_no_digest_read:
  assumes "CHR ''-'' \<notin> set wid" and "0 \<le> at"
  shows "sha256FromBlobPathname (blobPathnameFor wid at None) = None"
proof -
  have no: "CHR ''-'' \<notin> set (blobPathnameFor wid at None)"
    using assms showNat_no_minus [of "nat at"]
    by (simp add: blobPathnameFor_def showInt_def)
  show ?thesis
  proof (rule ccontr)
    let ?p = "blobPathnameFor wid at None"
    assume "sha256FromBlobPathname ?p \<noteq> None"
    then have long: "69 \<le> length ?p" and dash: "hd (drop (length ?p - 69) ?p) = CHR ''-''"
      by (auto simp: sha256FromBlobPathname_def Let_def split: if_splits)
    from long have "length ?p - 69 < length ?p" by linarith
    then have "hd (drop (length ?p - 69) ?p) \<in> set ?p" by (simp add: hd_drop_conv_nth)
    with no dash show False by simp
  qed
qed

end
