(* ===== verification/KvStore.thy ===== *)
theory KvStore
  imports Schema
begin

text \<open>
  The SQL key-value store (\<open>apps/web/lib/kv.ts\<close>), the base of every lock, counter and
  ephemeral flag: \<open>SqlKv\<close>'s statements on the map \<open>kvTable\<close>, each at an instant \<open>now\<close>
  (one statement is atomic in SQLite). \<open>withLock\<close> is modelled on the world in
  \<open>Platform\<close>; the contract it needs of a store is the locale \<open>kv_contract\<close> here.
\<close>

definition kvLive :: "int \<Rightarrow> string \<times> int option \<Rightarrow> bool" where
  "kvLive now e = (case snd e of None \<Rightarrow> True | Some x \<Rightarrow> now < x)"

definition kvGet :: "kvTable \<Rightarrow> string \<Rightarrow> int \<Rightarrow> string option" where
  "kvGet kv key now = (case kv key of
      None \<Rightarrow> None
    | Some e \<Rightarrow> if kvLive now e then Some (fst e) else None)"

text \<open>
  \<open>INSERT \<dots> ON CONFLICT DO UPDATE \<dots> [WHERE expires_at IS NOT NULL AND expires_at <= now]\<close>;
  the result says whether a row was written.
\<close>

definition kvSet :: "kvTable \<Rightarrow> string \<Rightarrow> string \<Rightarrow> int option \<Rightarrow> bool \<Rightarrow> int \<Rightarrow> bool \<times> kvTable" where
  "kvSet kv key value exMs nx now =
     (let row = (value, map_option (\<lambda>ms. now + ms) exMs) in
      case kv key of
        None \<Rightarrow> (True, kv(key \<mapsto> row))
      | Some (v, x) \<Rightarrow>
          if nx \<and> \<not> (case x of None \<Rightarrow> False | Some t \<Rightarrow> t \<le> now) then (False, kv)
          else (True, kv(key \<mapsto> row)))"

definition kvDel :: "kvTable \<Rightarrow> string \<Rightarrow> kvTable" where
  "kvDel kv key = kv(key := None)"

definition kvCompareDelete :: "kvTable \<Rightarrow> string \<Rightarrow> string \<Rightarrow> kvTable" where
  "kvCompareDelete kv key value =
     (case kv key of Some (v, x) \<Rightarrow> if v = value then kv(key := None) else kv | None \<Rightarrow> kv)"

text \<open>\<open>CAST(value AS INTEGER)\<close>: a text that is not an integer counts as 0.\<close>

definition castInteger :: "string \<Rightarrow> int" where
  "castInteger s = (case readInt s of Some i \<Rightarrow> i | None \<Rightarrow> 0)"

definition kvIncrBy :: "kvTable \<Rightarrow> string \<Rightarrow> int \<Rightarrow> int option \<Rightarrow> int \<Rightarrow> int \<times> kvTable" where
  "kvIncrBy kv key delta exMs now =
     (let ttl = map_option (\<lambda>ms. now + ms) exMs in
      case kv key of
        None \<Rightarrow> (delta, kv(key \<mapsto> (showInt delta, ttl)))
      | Some (v, x) \<Rightarrow>
          if (case x of None \<Rightarrow> False | Some t \<Rightarrow> t \<le> now)
          then (delta, kv(key \<mapsto> (showInt delta, ttl)))
          else (castInteger v + delta, kv(key \<mapsto> (showInt (castInteger v + delta), x))))"

definition kvIncr :: "kvTable \<Rightarrow> string \<Rightarrow> int option \<Rightarrow> int \<Rightarrow> int \<times> kvTable" where
  "kvIncr kv key exMs now = kvIncrBy kv key 1 exMs now"

definition kvExpire :: "kvTable \<Rightarrow> string \<Rightarrow> int \<Rightarrow> int \<Rightarrow> kvTable" where
  "kvExpire kv key exMs now = (case kv key of
      None \<Rightarrow> kv
    | Some e \<Rightarrow> if kvLive now e then kv(key \<mapsto> (fst e, Some (now + exMs))) else kv)"

text \<open>
  \<open>mget\<close>: chunks of 100 keys, one \<open>SELECT \<dots> WHERE key IN (\<dots>)\<close> each, whose rows fill the
  map \<open>vals\<close>; then one lookup per requested key.
\<close>

definition kvSelectIn :: "kvTable \<Rightarrow> string list \<Rightarrow> int \<Rightarrow> (string \<rightharpoonup> string)" where
  "kvSelectIn kv chunk now = (\<lambda>k. if k \<in> set chunk then kvGet kv k now else None)"

function kvMgetLoop :: "kvTable \<Rightarrow> string list \<Rightarrow> int \<Rightarrow> nat \<Rightarrow> (string \<rightharpoonup> string) \<Rightarrow> (string \<rightharpoonup> string)" where
  "kvMgetLoop kv keys now i vals =
     (if i < length keys
      then kvMgetLoop kv keys now (i + 100) (vals ++ kvSelectIn kv (take 100 (drop i keys)) now)
      else vals)"
  by pat_completeness auto
termination
  by (relation "measure (\<lambda>(kv, keys, now, i, vals). length keys - i)") auto

declare kvMgetLoop.simps [simp del]

definition kvMget :: "kvTable \<Rightarrow> string list \<Rightarrow> int \<Rightarrow> string option list" where
  "kvMget kv keys now = (let vals = kvMgetLoop kv keys now 0 Map.empty in map vals keys)"

definition sweepExpiredKv :: "kvTable \<Rightarrow> int \<Rightarrow> kvTable" where
  "sweepExpiredKv kv now = (\<lambda>k. case kv k of
      Some (v, Some x) \<Rightarrow> if x \<le> now then None else kv k
    | r \<Rightarrow> r)"

lemmas kv_defs = kvLive_def kvGet_def kvSet_def kvDel_def kvCompareDelete_def kvIncrBy_def
  kvIncr_def kvExpire_def sweepExpiredKv_def

section \<open>The keys\<close>

text \<open>\<open>keys\<close>: every shared key, a literal prefix before the name it is for.\<close>

definition activityKey :: "string \<Rightarrow> string" where "activityKey ws = ''zs:activity:'' @ ws"
definition healthKey :: "string \<Rightarrow> string" where "healthKey ws = ''zs:health:'' @ ws"
definition cpuKey :: "string \<Rightarrow> string" where "cpuKey ws = ''zs:cpu:'' @ ws"
definition listeningKey :: "string \<Rightarrow> string" where "listeningKey ws = ''zs:listening:'' @ ws"
definition mutedPortsKey :: "string \<Rightarrow> string" where "mutedPortsKey ws = ''zs:muted-ports:'' @ ws"
definition busyKey :: "string \<Rightarrow> string" where "busyKey ws = ''zs:busy:'' @ ws"
definition keepaliveKey :: "string \<Rightarrow> string" where "keepaliveKey ws = ''zs:keepalive:'' @ ws"
definition lockKey :: "string \<Rightarrow> string" where "lockKey name = ''zs:lock:'' @ name"
definition idemKey :: "string \<Rightarrow> string \<Rightarrow> string" where
  "idemKey userId key = ''zs:idem:'' @ userId @ '':'' @ key"
definition childRunKey :: "string \<Rightarrow> string" where "childRunKey token = ''zs:child:'' @ token"

lemmas key_defs = activityKey_def healthKey_def cpuKey_def listeningKey_def mutedPortsKey_def
  busyKey_def keepaliveKey_def lockKey_def idemKey_def childRunKey_def

lemma keys_distinct [simp]:
  "activityKey a \<noteq> healthKey b" "activityKey a \<noteq> cpuKey b" "activityKey a \<noteq> busyKey b"
  "activityKey a \<noteq> listeningKey b" "activityKey a \<noteq> keepaliveKey b"
  "healthKey a \<noteq> activityKey b" "healthKey a \<noteq> cpuKey b" "healthKey a \<noteq> busyKey b"
  "healthKey a \<noteq> listeningKey b" "healthKey a \<noteq> keepaliveKey b"
  "cpuKey a \<noteq> activityKey b" "cpuKey a \<noteq> healthKey b" "cpuKey a \<noteq> busyKey b"
  "cpuKey a \<noteq> listeningKey b" "cpuKey a \<noteq> keepaliveKey b"
  "busyKey a \<noteq> activityKey b" "busyKey a \<noteq> healthKey b" "busyKey a \<noteq> cpuKey b"
  "busyKey a \<noteq> listeningKey b" "busyKey a \<noteq> keepaliveKey b"
  "listeningKey a \<noteq> activityKey b" "listeningKey a \<noteq> healthKey b" "listeningKey a \<noteq> cpuKey b"
  "listeningKey a \<noteq> busyKey b" "listeningKey a \<noteq> keepaliveKey b"
  by (simp_all add: key_defs)

section \<open>The store's contract\<close>

text \<open>
  What \<open>withLock\<close>, the rate limiter, idempotent starts and the activity flags rely on, for any
  store: reads see the last write until it expires, a conditional write succeeds exactly when no
  live value is there, and an owner-checked delete touches only its own value.
\<close>

locale kv_contract =
  fixes get :: "'s \<Rightarrow> string \<Rightarrow> int \<Rightarrow> string option"
    and put :: "'s \<Rightarrow> string \<Rightarrow> string \<Rightarrow> int option \<Rightarrow> bool \<Rightarrow> int \<Rightarrow> bool \<times> 's"
    and cdel :: "'s \<Rightarrow> string \<Rightarrow> string \<Rightarrow> 's"
  assumes put_nx_free: "get s k now = None \<Longrightarrow> fst (put s k v (Some d) nx now)"
    and put_nx_held: "get s k now \<noteq> None \<Longrightarrow> put s k v ex True now = (False, s)"
    and put_get: "put s k v (Some d) nx now = (True, s') \<Longrightarrow> t < now + d \<Longrightarrow> get s' k t = Some v"
    and put_expires: "put s k v (Some d) nx now = (True, s') \<Longrightarrow> now + d \<le> t \<Longrightarrow> get s' k t = None"
    and put_frame: "put s k v ex nx now = (ok, s') \<Longrightarrow> k' \<noteq> k \<Longrightarrow> get s' k' t = get s k' t"
    and cdel_own: "get s k t = Some v \<Longrightarrow> get (cdel s k v) k u = None"
    and cdel_other: "get s k t = Some v' \<Longrightarrow> v' \<noteq> v \<Longrightarrow> get (cdel s k v) k u = get s k u"
    and cdel_frame: "k' \<noteq> k \<Longrightarrow> get (cdel s k v) k' t = get s k' t"
begin

text \<open>A lock taken at \<open>now\<close> excludes every other taker until its time to live has passed.\<close>

lemma lock_excludes:
  assumes "put s k tok (Some d) True now = (True, s')" and "t < now + d"
  shows "put s' k tok' ex True t = (False, s')"
  using put_nx_held put_get [OF assms] by simp

lemma lock_after_expiry:
  assumes "put s k tok (Some d) True now = (True, s')" and "now + d \<le> t"
  shows "fst (put s' k tok' (Some d') True t)"
  using put_nx_free put_expires [OF assms] by simp

text \<open>A late release of an expired lock leaves its next holder in place.\<close>

lemma stale_release_harmless:
  assumes "put s k tok' (Some d) True now = (True, s')" and "tok' \<noteq> tok" and "t < now + d"
  shows "get (cdel s' k tok) k t = Some tok'"
proof -
  have own: "get s' k t = Some tok'" by (rule put_get [OF assms(1,3)])
  show ?thesis using cdel_other [OF own assms(2)] own by simp
qed

lemma release_frees:
  assumes "put s k tok (Some d) True now = (True, s')" and "t < now + d"
  shows "get (cdel s' k tok) k u = None"
  by (rule cdel_own [OF put_get [OF assms]])

end

interpretation sqlkv: kv_contract kvGet kvSet kvCompareDelete
proof unfold_locales
  fix s :: kvTable and k v v' k' :: string and now t u d :: int and ex and nx ok :: bool and s'
  show "kvGet s k now = None \<Longrightarrow> fst (kvSet s k v (Some d) nx now)"
    by (auto simp: kv_defs Let_def split: option.splits prod.splits if_splits)
  show "kvGet s k now \<noteq> None \<Longrightarrow> kvSet s k v ex True now = (False, s)"
    by (auto simp: kv_defs Let_def split: option.splits prod.splits if_splits)
  show "kvSet s k v (Some d) nx now = (True, s') \<Longrightarrow> t < now + d \<Longrightarrow> kvGet s' k t = Some v"
    by (auto simp: kv_defs Let_def split: option.splits prod.splits if_splits)
  show "kvSet s k v (Some d) nx now = (True, s') \<Longrightarrow> now + d \<le> t \<Longrightarrow> kvGet s' k t = None"
    by (auto simp: kv_defs Let_def split: option.splits prod.splits if_splits)
  show "kvSet s k v ex nx now = (ok, s') \<Longrightarrow> k' \<noteq> k \<Longrightarrow> kvGet s' k' t = kvGet s k' t"
    by (auto simp: kv_defs Let_def split: option.splits prod.splits if_splits)
  show "kvGet s k t = Some v \<Longrightarrow> kvGet (kvCompareDelete s k v) k u = None"
    by (auto simp: kv_defs split: option.splits prod.splits if_splits)
  show "kvGet s k t = Some v' \<Longrightarrow> v' \<noteq> v \<Longrightarrow> kvGet (kvCompareDelete s k v) k u = kvGet s k u"
    by (auto simp: kv_defs split: option.splits prod.splits if_splits)
  show "k' \<noteq> k \<Longrightarrow> kvGet (kvCompareDelete s k v) k' t = kvGet s k' t"
    by (auto simp: kv_defs split: option.splits prod.splits if_splits)
qed

section \<open>Lemmas\<close>

lemma kvMgetLoop_eq:
  "kvMgetLoop kv keys now i vals k =
     (if k \<in> set (drop i keys) then (case kvGet kv k now of None \<Rightarrow> vals k | Some v \<Rightarrow> Some v)
      else vals k)"
proof (induction kv keys now i vals rule: kvMgetLoop.induct)
  case (1 kv keys now i vals)
  show ?case
  proof (cases "i < length keys")
    case True
    have split: "drop i keys = take 100 (drop i keys) @ drop (i + 100) keys"
      by (metis add.commute append_take_drop_id drop_drop)
    have mem: "k \<in> set (drop i keys) \<longleftrightarrow>
        k \<in> set (take 100 (drop i keys)) \<or> k \<in> set (drop (i + 100) keys)"
      by (subst split) simp
    show ?thesis
      by (subst kvMgetLoop.simps, simp add: True "1.IH" [OF True] mem)
        (auto simp: kvSelectIn_def map_add_def split: option.splits)
  next
    case False
    then show ?thesis by (subst kvMgetLoop.simps) simp
  qed
qed

text \<open>The batched read is the reference: one \<open>get\<close> per key, in order, duplicates included.\<close>

lemma kvMget_map: "kvMget kv keys now = map (\<lambda>k. kvGet kv k now) keys"
  by (auto simp: kvMget_def Let_def kvMgetLoop_eq split: option.splits)

lemma sweepExpiredKv_get: "now \<le> t \<Longrightarrow> kvGet (sweepExpiredKv kv now) k t = kvGet kv k t"
  by (auto simp: kv_defs split: option.splits prod.splits)

text \<open>A counter: \<open>n\<close> increments inside the first one's time to live count to \<open>n\<close>.\<close>

fun kvIncrs :: "kvTable \<Rightarrow> string \<Rightarrow> int option \<Rightarrow> int list \<Rightarrow> int \<times> kvTable" where
  "kvIncrs kv key exMs [] = (castInteger (case kv key of Some e \<Rightarrow> fst e | None \<Rightarrow> ''0''), kv)"
| "kvIncrs kv key exMs [t] = kvIncr kv key exMs t"
| "kvIncrs kv key exMs (t # u # ts) = kvIncrs (snd (kvIncr kv key exMs t)) key exMs (u # ts)"

lemma castInteger_showInt [simp]: "castInteger (showInt i) = i"
  by (simp add: castInteger_def)

lemma kvIncrs_live:
  assumes "kv key = Some (showInt c, Some x)" and "\<forall>t \<in> set ts. t < x" and "ts \<noteq> []"
  shows "kvIncrs kv key exMs ts =
    (c + int (length ts), kv(key \<mapsto> (showInt (c + int (length ts)), Some x)))"
  using assms
proof (induction kv key exMs ts arbitrary: c rule: kvIncrs.induct)
  case (1 kv key exMs)
  then show ?case by simp
next
  case (2 kv key exMs t)
  then show ?case by (simp add: kv_defs Let_def fun_eq_iff)
next
  case (3 kv key exMs t u ts)
  let ?kv = "kv(key \<mapsto> (showInt (c + 1), Some x))"
  have one: "snd (kvIncr kv key exMs t) = ?kv"
    using 3 by (simp add: kv_defs Let_def fun_eq_iff)
  have "kvIncrs ?kv key exMs (u # ts) =
      (c + 1 + int (length (u # ts)), ?kv(key \<mapsto> (showInt (c + 1 + int (length (u # ts))), Some x)))"
    by (rule "3.IH" [unfolded one]) (use "3.prems" in auto)
  then show ?case by (simp only: kvIncrs.simps one) (simp add: algebra_simps fun_eq_iff)
qed

end
