(* ===== verification/Platform.thy ===== *)
theory Platform
  imports Ids KvStore
begin

text \<open>
  The world a request or a workflow step runs in: the database, the clock, and a log of the
  calls that leave the program (\<open>lib/sandbox.ts\<close>'s interface, the blob store, the health
  probe, the workflow runtime). Whatever those calls answer is a parameter, the record
  \<open>platform\<close> of functions indexed by the number of the call: the theorems hold for every
  behaviour of the outside. Also \<open>withLock\<close> of \<open>lib/kv.ts\<close> and the runtime's retry loop.
\<close>

section \<open>Values of the outside\<close>

text \<open>A JSON document; \<open>JDec m k\<close> is the number \<open>m / 10 ^ k\<close> that is not an integer.\<close>

datatype json = JNull | JBool bool | JNum int | JDec int nat | JStr string | JArr "json list"
  | JObj "(string \<times> json) list"

text \<open>\<open>SandboxStatus\<close>.\<close>

datatype sandboxStatus = StPending | StRunning | StStopping | StStopped | StFailed | StAborted
  | StSnapshotting

fun statusText :: "sandboxStatus \<Rightarrow> string" where
  "statusText StPending = ''pending''"
| "statusText StRunning = ''running''"
| "statusText StStopping = ''stopping''"
| "statusText StStopped = ''stopped''"
| "statusText StFailed = ''failed''"
| "statusText StAborted = ''aborted''"
| "statusText StSnapshotting = ''snapshotting''"

text \<open>
  \<open>SandboxHandle\<close>'s read-only fields; \<open>h_domain port\<close> is the host of \<open>domain(port)\<close>, \<open>None\<close>
  where that call throws.
\<close>

record handle =
  h_name :: string
  h_status :: sandboxStatus
  h_region :: string
  h_expiresAt :: "int option"
  h_currentSessionId :: "string option"
  h_domain :: "int \<Rightarrow> string option"

record createSandboxInput =
  ci_name :: string
  ci_region :: region
  ci_vcpus :: int
  ci_ports :: "int list"
  ci_timeoutMs :: int
  ci_image :: string
  ci_env :: "(string \<times> string) list"
  ci_networkPolicy :: string
  ci_tags :: "(string \<times> string) list"
  ci_snapshotExpirationMs :: int
  ci_keepLastSnapshots :: int

text \<open>Result of \<open>stop()\<close>: the snapshot and its size; the metered usage is not kept.\<close>

record stopResult =
  sr_snapshotId :: "string option"
  sr_snapshotSizeBytes :: "int option"

datatype bootPhase = PhManifest | PhRestore | PhClone | PhServerStarting | PhServices | PhDotfiles
  | PhPostCreate | PhPostStart | PhReady

fun phaseText :: "bootPhase \<Rightarrow> string" where
  "phaseText PhManifest = ''manifest''"
| "phaseText PhRestore = ''restore''"
| "phaseText PhClone = ''clone''"
| "phaseText PhServerStarting = ''server_starting''"
| "phaseText PhServices = ''services''"
| "phaseText PhDotfiles = ''dotfiles''"
| "phaseText PhPostCreate = ''post_create''"
| "phaseText PhPostStart = ''post_start''"
| "phaseText PhReady = ''ready''"

datatype healthStatus = HsBooting | HsReady | HsDegraded | HsStopping

record healthProbe =
  hp_ready :: bool
  hp_status :: healthStatus
  hp_phase :: bootPhase
  hp_build :: "string option"
  hp_manifestBuild :: "string option"
  hp_resumed :: bool
  hp_busy :: bool
  hp_serverRunning :: bool
  hp_serverCrashLoop :: bool
  hp_serverRestarts :: int
  hp_uptimeSecs :: int

section \<open>Lifecycle runs\<close>

datatype lifecycleWorkflowName = WfCreateWorkspace | WfConnectWorkspace | WfStopWorkspace
  | WfRestartSession | WfRebuildWorkspace | WfDeleteWorkspace | WfGc

fun workflowText :: "lifecycleWorkflowName \<Rightarrow> string" where
  "workflowText WfCreateWorkspace = ''createWorkspace''"
| "workflowText WfConnectWorkspace = ''connectWorkspace''"
| "workflowText WfStopWorkspace = ''stopWorkspace''"
| "workflowText WfRestartSession = ''restartSession''"
| "workflowText WfRebuildWorkspace = ''rebuildWorkspace''"
| "workflowText WfDeleteWorkspace = ''deleteWorkspace''"
| "workflowText WfGc = ''gc''"

datatype stopReason = SrIdle | SrUser | SrCap | SrRebuild | SrDelete | SrAbuse | SrLost | SrSpendCap

fun stopReasonText :: "stopReason \<Rightarrow> string" where
  "stopReasonText SrIdle = ''idle''"
| "stopReasonText SrUser = ''user''"
| "stopReasonText SrCap = ''cap''"
| "stopReasonText SrRebuild = ''rebuild''"
| "stopReasonText SrDelete = ''delete''"
| "stopReasonText SrAbuse = ''abuse''"
| "stopReasonText SrLost = ''lost''"
| "stopReasonText SrSpendCap = ''spend_cap''"

text \<open>The argument of each workflow: workspace id, then what its input type adds.\<close>

datatype lifecycleRun =
    CreateWorkspaceRun string string bool
  | ConnectWorkspaceRun string string bool
  | StopWorkspaceRun string stopReason bool
  | RestartSessionRun string
  | RebuildWorkspaceRun string string "editorRelease option"
  | DeleteWorkspaceRun string string bool
  | GcRun int

fun runName :: "lifecycleRun \<Rightarrow> lifecycleWorkflowName" where
  "runName (CreateWorkspaceRun w u c) = WfCreateWorkspace"
| "runName (ConnectWorkspaceRun w u c) = WfConnectWorkspace"
| "runName (StopWorkspaceRun w r c) = WfStopWorkspace"
| "runName (RestartSessionRun w) = WfRestartSession"
| "runName (RebuildWorkspaceRun w u r) = WfRebuildWorkspace"
| "runName (DeleteWorkspaceRun w u c) = WfDeleteWorkspace"
| "runName (GcRun n) = WfGc"

datatype runStatus = RunPending | RunRunning | RunCompleted | RunFailed | RunCancelled | RunUnknown

fun runStatusText :: "runStatus \<Rightarrow> string" where
  "runStatusText RunPending = ''pending''"
| "runStatusText RunRunning = ''running''"
| "runStatusText RunCompleted = ''completed''"
| "runStatusText RunFailed = ''failed''"
| "runStatusText RunCancelled = ''cancelled''"
| "runStatusText RunUnknown = ''unknown''"

section \<open>Calls that leave the program\<close>

datatype event =
    EvCreate string
  | EvGet string bool
  | EvRunDetached string "string list" "(string \<times> string) list"
  | EvRun string "string list"
  | EvWait string string "int option"
  | EvKill string string
  | EvStopVm string
  | EvExtend string int
  | EvDeleteVm string
  | EvSnapshots string
  | EvDeleteSnapshot string
  | EvListVms
  | EvProbe string "healthProbe option"
  | EvReadFile string
  | EvBlobPut string
  | EvBlobDel string
  | EvStartRun string lifecycleRun
  | EvRunStatus string runStatus
  | EvGithub string

text \<open>
  \<open>pf_\<dots> n\<close> is the answer of the \<open>n\<close>th call of the world's life. \<open>pf_get\<close> also says whether
  the SDK ran the \<open>onResume\<close> hook (it does when it really resumed a stopped VM). The health
  answer is the HTTP status and the parsed JSON body, \<open>None\<close> for a failed fetch.
\<close>

record platform =
  pf_env :: env
  pf_elapsed :: "nat \<Rightarrow> nat"
  pf_uuid :: "nat \<Rightarrow> string"
  pf_bytes :: "nat \<Rightarrow> nat list"
  pf_sha256 :: "string \<Rightarrow> string"
  pf_create :: "nat \<Rightarrow> createSandboxInput \<Rightarrow> err + handle"
  pf_get :: "nat \<Rightarrow> string \<Rightarrow> bool \<Rightarrow> err + (handle \<times> bool) option"
  pf_runDetached :: "nat \<Rightarrow> string \<Rightarrow> string list \<Rightarrow> err + string"
  pf_run :: "nat \<Rightarrow> string \<Rightarrow> string list \<Rightarrow> err + int \<times> string"
  pf_wait :: "nat \<Rightarrow> string \<Rightarrow> string \<Rightarrow> int \<Rightarrow> err + int"
  pf_kill :: "nat \<Rightarrow> string \<Rightarrow> string \<Rightarrow> err + unit"
  pf_stop :: "nat \<Rightarrow> string \<Rightarrow> err + stopResult"
  pf_extend :: "nat \<Rightarrow> string \<Rightarrow> int \<Rightarrow> err + unit"
  pf_delete :: "nat \<Rightarrow> string \<Rightarrow> err + unit"
  pf_snapshots :: "nat \<Rightarrow> string \<Rightarrow> err + string list"
  pf_deleteSnapshot :: "nat \<Rightarrow> string \<Rightarrow> err + unit"
  pf_listByTag :: "nat \<Rightarrow> string \<Rightarrow> err + (string \<times> sandboxStatus) list"
  pf_health :: "nat \<Rightarrow> string \<Rightarrow> (int \<times> json) option"
  pf_readFile :: "nat \<Rightarrow> string \<Rightarrow> string \<Rightarrow> err + bool"
  pf_blobPut :: "nat \<Rightarrow> string \<Rightarrow> err + string \<times> int"
  pf_blobDel :: "nat \<Rightarrow> string \<Rightarrow> err + unit"
  pf_start :: "nat \<Rightarrow> lifecycleRun \<Rightarrow> err + string"
  pf_runStatus :: "nat \<Rightarrow> string \<Rightarrow> runStatus option"
  pf_runReturn :: "nat \<Rightarrow> string \<Rightarrow> err option"
  pf_retries :: nat

record world =
  usersT :: "user list"
  reposT :: "repo list"
  workspacesT :: "workspace list"
  sessionsT :: "session list"
  forwardsT :: "forward list"
  docsT :: "settingsDoc list"
  kvT :: kvTable
  now :: int
  tick :: nat
  trace :: "event list"

type_synonym 'a io = "(world, err, 'a) act"

text \<open>One call: its answer, a tick, the time it took, and its entry in the log.\<close>

definition ext :: "platform \<Rightarrow> ('a \<Rightarrow> event) \<Rightarrow> (nat \<Rightarrow> 'a) \<Rightarrow> 'a io" where
  "ext pf ev f = (\<lambda>w. (Inr (f (tick w)),
     w\<lparr>tick := Suc (tick w), now := now w + int (pf_elapsed pf (tick w)),
       trace := trace w @ [ev (f (tick w))]\<rparr>))"

text \<open>A call that may reject: the error is thrown.\<close>

definition extE :: "platform \<Rightarrow> (err + 'a \<Rightarrow> event) \<Rightarrow> (nat \<Rightarrow> err + 'a) \<Rightarrow> 'a io" where
  "extE pf ev f = bindE (ext pf ev f) (\<lambda>r. case r of Inl e \<Rightarrow> throwE e | Inr x \<Rightarrow> retE x)"

text \<open>\<open>sleep("5s")\<close>: at least that long passes. Fresh random values, drawn with a tick.\<close>

definition sleepMs :: "int \<Rightarrow> unit io" where
  "sleepMs d = modE (\<lambda>w. w\<lparr>now := now w + d\<rparr>)"

definition randomUUID :: "platform \<Rightarrow> string io" where
  "randomUUID pf = (\<lambda>w. (Inr (pf_uuid pf (tick w)), w\<lparr>tick := Suc (tick w)\<rparr>))"

definition randomBytes :: "platform \<Rightarrow> nat list io" where
  "randomBytes pf = (\<lambda>w. (Inr (pf_bytes pf (tick w)), w\<lparr>tick := Suc (tick w)\<rparr>))"

section \<open>The key-value store and the lock on the world\<close>

definition kvGetE :: "string \<Rightarrow> string option io" where
  "kvGetE key = getE (\<lambda>w. kvGet (kvT w) key (now w))"

definition kvSetE :: "string \<Rightarrow> string \<Rightarrow> int option \<Rightarrow> bool \<Rightarrow> bool io" where
  "kvSetE key value exMs nx = (\<lambda>w. case kvSet (kvT w) key value exMs nx (now w) of
     (ok, kv) \<Rightarrow> (Inr ok, w\<lparr>kvT := kv\<rparr>))"

definition kvDelE :: "string \<Rightarrow> unit io" where
  "kvDelE key = modE (\<lambda>w. w\<lparr>kvT := kvDel (kvT w) key\<rparr>)"

definition kvCompareDeleteE :: "string \<Rightarrow> string \<Rightarrow> unit io" where
  "kvCompareDeleteE key value = modE (\<lambda>w. w\<lparr>kvT := kvCompareDelete (kvT w) key value\<rparr>)"

definition kvIncrE :: "string \<Rightarrow> int option \<Rightarrow> int io" where
  "kvIncrE key exMs = (\<lambda>w. case kvIncr (kvT w) key exMs (now w) of
     (n, kv) \<Rightarrow> (Inr n, w\<lparr>kvT := kv\<rparr>))"

definition withLock :: "platform \<Rightarrow> string \<Rightarrow> int \<Rightarrow> 'a io \<Rightarrow> 'a option io" where
  "withLock pf key ttlMs fn =
     bindE (randomUUID pf) (\<lambda>token.
     bindE (kvSetE key token (Some ttlMs) True) (\<lambda>acquired.
     if \<not> acquired then retE None
     else finallyE (bindE fn (\<lambda>r. retE (Some r))) (kvCompareDeleteE key token)))"

section \<open>Steps of the workflow runtime\<close>

text \<open>
  A \<open>"use step"\<close> function that throws is run again, \<open>pf_retries\<close> times at most; a
  \<open>FatalError\<close> is never retried. The last error reaches the workflow body.
\<close>

fun runStep :: "nat \<Rightarrow> 'a io \<Rightarrow> 'a io" where
  "runStep 0 m = m"
| "runStep (Suc n) m = catchE m (\<lambda>e. case e of FatalError s \<Rightarrow> throwE (FatalError s) | _ \<Rightarrow> runStep n m)"

definition step :: "platform \<Rightarrow> 'a io \<Rightarrow> 'a io" where
  "step pf m = runStep (pf_retries pf) m"

text \<open>
  A \<open>for (;;)\<close> loop of a workflow body: \<open>body\<close> is one round, which leaves the loop with a value or
  goes on. \<open>fuel\<close> bounds the rounds; every loop is shown to leave before it is used up.
\<close>

definition outOfFuel :: err where "outOfFuel = OtherError ''out of fuel''"

abbreviation loopE :: "nat \<Rightarrow> 'a option io \<Rightarrow> 'a io" where
  "loopE \<equiv> roundsE outOfFuel"

section \<open>Lemmas\<close>

lemma wp_ext [wp_simps]: "wp (ext pf ev f) Q E w =
    Q (f (tick w)) (w\<lparr>tick := Suc (tick w), now := now w + int (pf_elapsed pf (tick w)),
       trace := trace w @ [ev (f (tick w))]\<rparr>)"
  by (simp add: wp_def ext_def)

lemma wp_extE [wp_simps]: "wp (extE pf ev f) Q E w =
    (let w' = w\<lparr>tick := Suc (tick w), now := now w + int (pf_elapsed pf (tick w)),
       trace := trace w @ [ev (f (tick w))]\<rparr> in
     (case f (tick w) of Inl e \<Rightarrow> E e w' | Inr x \<Rightarrow> Q x w'))"
  by (simp add: extE_def wp_simps Let_def split: sum.splits)

lemma wp_sleep [wp_simps]: "wp (sleepMs d) Q E w = Q () (w\<lparr>now := now w + d\<rparr>)"
  by (simp add: sleepMs_def wp_simps)

lemma wp_uuid [wp_simps]: "wp (randomUUID pf) Q E w = Q (pf_uuid pf (tick w)) (w\<lparr>tick := Suc (tick w)\<rparr>)"
  by (simp add: wp_def randomUUID_def)

lemma wp_bytes [wp_simps]: "wp (randomBytes pf) Q E w = Q (pf_bytes pf (tick w)) (w\<lparr>tick := Suc (tick w)\<rparr>)"
  by (simp add: wp_def randomBytes_def)

lemma wp_kvGetE [wp_simps]: "wp (kvGetE key) Q E w = Q (kvGet (kvT w) key (now w)) w"
  by (simp add: kvGetE_def wp_simps)

lemma wp_kvSetE [wp_simps]: "wp (kvSetE key value exMs nx) Q E w =
    Q (fst (kvSet (kvT w) key value exMs nx (now w)))
      (w\<lparr>kvT := snd (kvSet (kvT w) key value exMs nx (now w))\<rparr>)"
  by (simp add: wp_def kvSetE_def split: prod.splits)

lemma wp_kvDelE [wp_simps]: "wp (kvDelE key) Q E w = Q () (w\<lparr>kvT := kvDel (kvT w) key\<rparr>)"
  by (simp add: kvDelE_def wp_simps)

lemma wp_kvCompareDeleteE [wp_simps]:
  "wp (kvCompareDeleteE key value) Q E w = Q () (w\<lparr>kvT := kvCompareDelete (kvT w) key value\<rparr>)"
  by (simp add: kvCompareDeleteE_def wp_simps)

lemma wp_kvIncrE [wp_simps]: "wp (kvIncrE key exMs) Q E w =
    Q (fst (kvIncr (kvT w) key exMs (now w))) (w\<lparr>kvT := snd (kvIncr (kvT w) key exMs (now w))\<rparr>)"
  by (simp add: wp_def kvIncrE_def split: prod.splits)

lemma keeps_runStep [intro]: "keeps m I \<Longrightarrow> keeps (runStep n m) I"
  by (induction n) (auto split: err.splits)

lemma keeps_step [intro]: "keeps m I \<Longrightarrow> keeps (step pf m) I"
  unfolding step_def by (rule keeps_runStep)

text \<open>A retried step: its postconditions hold when every attempt starts from the invariant.\<close>

lemma wp_runStep:
  assumes "I w" and "\<And>v. I v \<Longrightarrow> wp m Q (\<lambda>e v'. I v' \<and> E e v') v"
  shows "wp (runStep n m) Q (\<lambda>e v'. I v' \<and> E e v') w"
  using assms(1)
proof (induction n arbitrary: w)
  case 0
  then show ?case by (simp add: assms(2))
next
  case (Suc n)
  have "wp m Q (\<lambda>e v'. I v' \<and> E e v') w" using Suc.prems by (rule assms(2))
  then show ?case
    unfolding runStep.simps wp_catch
    by (rule wp_mono) (auto simp: wp_simps split: err.splits intro: Suc.IH)
qed

lemma wp_step:
  assumes "I w" and "\<And>v. I v \<Longrightarrow> wp m Q (\<lambda>e v'. I v' \<and> E e v') v"
  shows "wp (step pf m) Q (\<lambda>e v'. I v' \<and> E e v') w"
  unfolding step_def using assms by (rule wp_runStep)

text \<open>A step that never throws runs once.\<close>

lemma wp_step_total:
  assumes "wp m Q (\<lambda>_ _. False) w"
  shows "wp (step pf m) Q E w"
proof -
  have "wp (runStep n m) Q E w" for n
    using assms by (cases n) (auto simp: wp_simps elim: wp_mono)
  then show ?thesis by (simp add: step_def)
qed

lemma keeps_extI: "(\<And>w. I w \<Longrightarrow> I (w\<lparr>tick := Suc (tick w), now := now w + int (pf_elapsed pf (tick w)),
       trace := trace w @ [ev (f (tick w))]\<rparr>)) \<Longrightarrow> keeps (ext pf ev f) I"
  by (simp add: keeps_def wp_simps)

text \<open>The lock is exclusive: with a live holder, \<open>fn\<close> is not run and nothing is written.\<close>

lemma withLock_held:
  assumes "kvGet (kvT w) key (now w) \<noteq> None"
  shows "withLock pf key ttl fn w = (Inr None, w\<lparr>tick := Suc (tick w)\<rparr>)"
  using sqlkv.put_nx_held [OF assms]
  by (simp add: withLock_def act_defs randomUUID_def kvSetE_def)

lemma withLock_free:
  assumes "kvGet (kvT w) key (now w) = None"
  shows "withLock pf key ttl fn w =
    finallyE (bindE fn (\<lambda>r. retE (Some r))) (kvCompareDeleteE key (pf_uuid pf (tick w)))
      (w\<lparr>tick := Suc (tick w),
         kvT := snd (kvSet (kvT w) key (pf_uuid pf (tick w)) (Some ttl) True (now w))\<rparr>)"
proof -
  obtain kv' where "kvSet (kvT w) key (pf_uuid pf (tick w)) (Some ttl) True (now w) = (True, kv')"
    using sqlkv.put_nx_free [OF assms, of "pf_uuid pf (tick w)" ttl True]
    by (metis (full_types) fst_conv surj_pair)
  then show ?thesis by (simp add: withLock_def act_defs randomUUID_def kvSetE_def finallyE_def)
qed

lemma wp_withLock: "wp (withLock pf key ttl fn) Q E w =
    (if kvGet (kvT w) key (now w) \<noteq> None then Q None (w\<lparr>tick := Suc (tick w)\<rparr>)
     else wp (finallyE (bindE fn (\<lambda>r. retE (Some r))) (kvCompareDeleteE key (pf_uuid pf (tick w)))) Q E
       (w\<lparr>tick := Suc (tick w),
          kvT := snd (kvSet (kvT w) key (pf_uuid pf (tick w)) (Some ttl) True (now w))\<rparr>))"
  by (simp add: wp_def withLock_held withLock_free)

end
