(* ===== verification/JsonText.thy ===== *)
theory JsonText
  imports Config
begin

text \<open>
  \<open>JSON.stringify\<close> and \<open>JSON.parse\<close> of the lists of integers the program keeps in its
  key-value table: instants of the rate limiter, muted and listening ports. A text of another
  shape does not parse.
\<close>

fun joinWith :: "char \<Rightarrow> string list \<Rightarrow> string" where
  "joinWith d [] = []"
| "joinWith d [x] = x"
| "joinWith d (x # y # zs) = x @ d # joinWith d (y # zs)"

definition showInts :: "int list \<Rightarrow> string" where
  "showInts xs = CHR ''['' # joinWith CHR '','' (map showInt xs) @ '']''"

fun readAll :: "string list \<Rightarrow> int list option" where
  "readAll [] = Some []"
| "readAll (s # ss) = (case (readInt s, readAll ss) of (Some i, Some is) \<Rightarrow> Some (i # is) | _ \<Rightarrow> None)"

definition readInts :: "string \<Rightarrow> int list option" where
  "readInts s = (if 2 \<le> length s \<and> hd s = CHR ''['' \<and> last s = CHR '']''
     then (let inner = butlast (tl s) in
           if inner = [] then Some [] else readAll (splitOn CHR '','' inner))
     else None)"

lemma splitOn_nonempty: "splitOn d s \<noteq> []"
  by (induction s) (auto split: list.splits)

lemma splitOn_plain: "d \<notin> set s \<Longrightarrow> splitOn d s = [s]"
  by (induction s) auto

lemma splitOn_append: "d \<notin> set s \<Longrightarrow> splitOn d (s @ d # t) = s # splitOn d t"
  by (induction s) auto

lemma splitOn_join:
  "xs \<noteq> [] \<Longrightarrow> \<forall>x \<in> set xs. d \<notin> set x \<Longrightarrow> splitOn d (joinWith d xs) = xs"
  by (induction d xs rule: joinWith.induct) (simp_all add: splitOn_plain splitOn_append)

lemma comma_showInt: "CHR '','' \<notin> set (showInt i)"
proof -
  have "CHR '','' \<notin> set (showNat n)" for n
  proof
    assume "CHR '','' \<in> set (showNat n)"
    then have "isDigit CHR '',''" using showNat_digits [of n] by (metis list_all_iff)
    then show False by (simp add: isDigit_def)
  qed
  then show ?thesis by (simp add: showInt_def)
qed

lemma showInt_nonempty: "showInt i \<noteq> []"
  using showNat_digits by (simp add: showInt_def)

lemma readAll_show: "readAll (map showInt xs) = Some xs"
  by (induction xs) auto

lemma joinWith_nonempty: "xs \<noteq> [] \<Longrightarrow> \<forall>x \<in> set xs. x \<noteq> [] \<Longrightarrow> joinWith d xs \<noteq> []"
  by (induction d xs rule: joinWith.induct) auto

lemma readInts_showInts [simp]: "readInts (showInts xs) = Some xs"
proof (cases xs)
  case Nil
  then show ?thesis by (simp add: showInts_def readInts_def)
next
  case (Cons x ys)
  then have "joinWith CHR '','' (map showInt xs) \<noteq> []"
    by (intro joinWith_nonempty) (auto simp: showInt_nonempty)
  moreover have "splitOn CHR '','' (joinWith CHR '','' (map showInt xs)) = map showInt xs"
    using Cons by (intro splitOn_join) (auto simp: comma_showInt)
  ultimately show ?thesis
    by (simp add: showInts_def readInts_def readAll_show butlast_append)
qed

end
