(* ===== verification/RateLimit.thy ===== *)
theory RateLimit
  imports Platform JsonText
begin

text \<open>
  The sliding-window rate limiter (\<open>lib/ratelimit.ts\<close>): one transaction reads the instants of
  the subject's recent requests from the key-value table, refuses or appends.
\<close>

datatype limitName = LimSandboxManifest | LimSandboxPorts | LimSandboxActivity | LimSandboxLogs
  | LimSandboxClientErrors | LimSandboxExtensions | LimSandboxAuthFailures | LimUserCreate
  | LimUserConnect | LimUserKeepalive | LimUserExport | LimUserProcess | LimUserClientErrors
  | LimUserRepos

text \<open>\<open>LIMITS\<close>: tokens and window in seconds; and the name as it appears in the key.\<close>

fun LIMITS :: "limitName \<Rightarrow> nat \<times> int" where
  "LIMITS LimSandboxManifest = (60, 60)"
| "LIMITS LimSandboxPorts = (30, 60)"
| "LIMITS LimSandboxActivity = (40, 60)"
| "LIMITS LimSandboxLogs = (120, 60)"
| "LIMITS LimSandboxClientErrors = (60, 60)"
| "LIMITS LimSandboxExtensions = (30, 60)"
| "LIMITS LimSandboxAuthFailures = (20, 60)"
| "LIMITS LimUserCreate = (10, 600)"
| "LIMITS LimUserConnect = (60, 60)"
| "LIMITS LimUserKeepalive = (30, 60)"
| "LIMITS LimUserExport = (3, 60)"
| "LIMITS LimUserProcess = (12, 60)"
| "LIMITS LimUserClientErrors = (60, 60)"
| "LIMITS LimUserRepos = (30, 60)"

fun limitText :: "limitName \<Rightarrow> string" where
  "limitText LimSandboxManifest = ''sandbox.manifest''"
| "limitText LimSandboxPorts = ''sandbox.ports''"
| "limitText LimSandboxActivity = ''sandbox.activity''"
| "limitText LimSandboxLogs = ''sandbox.logs''"
| "limitText LimSandboxClientErrors = ''sandbox.client-errors''"
| "limitText LimSandboxExtensions = ''sandbox.extensions''"
| "limitText LimSandboxAuthFailures = ''sandbox.auth-failures''"
| "limitText LimUserCreate = ''user.workspaces.create''"
| "limitText LimUserConnect = ''user.connect''"
| "limitText LimUserKeepalive = ''user.keepalive''"
| "limitText LimUserExport = ''user.export''"
| "limitText LimUserProcess = ''user.process''"
| "limitText LimUserClientErrors = ''user.client-errors''"
| "limitText LimUserRepos = ''user.repos''"

definition limitKey :: "limitName \<Rightarrow> string \<Rightarrow> string" where
  "limitKey name subject = ''zs:rl:'' @ limitText name @ '':'' @ subject"

text \<open>\<open>Math.max(1, Math.ceil(ms / 1000))\<close>: the seconds of the \<open>Retry-After\<close> header.\<close>

definition ceilDiv :: "int \<Rightarrow> int \<Rightarrow> int" where
  "ceilDiv a b = - ((- a) div b)"

definition retryAfterSec :: "int \<Rightarrow> int" where
  "retryAfterSec ms = max 1 (ceilDiv ms 1000)"

definition hitsOf :: "kvTable \<Rightarrow> string \<Rightarrow> int \<Rightarrow> int \<Rightarrow> int list" where
  "hitsOf kv key t windowMs = filter (\<lambda>at. at > t - windowMs)
     (case kv key of
        Some (v, Some x) \<Rightarrow> if x > t then (case readInts v of Some xs \<Rightarrow> xs | None \<Rightarrow> []) else []
      | _ \<Rightarrow> [])"

text \<open>One call at instant \<open>t\<close>: \<open>Inl\<close> the seconds to wait, or the table with the hit recorded.\<close>

definition limitAt :: "limitName \<Rightarrow> string \<Rightarrow> kvTable \<Rightarrow> int \<Rightarrow> int + kvTable" where
  "limitAt name subject kv t =
     (let (tokens, windowSec) = LIMITS name; windowMs = windowSec * 1000;
          key = limitKey name subject; hits = hitsOf kv key t windowMs in
      if length hits \<ge> tokens then Inl (retryAfterSec (hd hits + windowMs - t))
      else Inr (kv(key \<mapsto> (showInts (hits @ [t]), Some (t + windowMs)))))"

definition limit :: "limitName \<Rightarrow> string \<Rightarrow> unit io" where
  "limit name subject = txnE (bindE (getE (\<lambda>w. limitAt name subject (kvT w) (now w))) (\<lambda>r. case r of
     Inl retry \<Rightarrow> throwE (ApiError 429 ''rate_limited'')
   | Inr kv \<Rightarrow> modE (\<lambda>w. w\<lparr>kvT := kv\<rparr>)))"

text \<open>The requests of one subject at the instants \<open>ts\<close>: those let through, and the table after.\<close>

fun limitRun :: "limitName \<Rightarrow> string \<Rightarrow> kvTable \<Rightarrow> int list \<Rightarrow> int list \<times> kvTable" where
  "limitRun name subject kv [] = ([], kv)"
| "limitRun name subject kv (t # ts) = (case limitAt name subject kv t of
      Inl _ \<Rightarrow> limitRun name subject kv ts
    | Inr kv' \<Rightarrow> (case limitRun name subject kv' ts of (acc, kv'') \<Rightarrow> (t # acc, kv'')))"

section \<open>Lemmas\<close>

lemma LIMITS_pos: "0 < fst (LIMITS name) \<and> 0 < snd (LIMITS name)"
  by (cases name) simp_all

lemma ceilDiv_bounds: "0 < b \<Longrightarrow> a \<le> b * ceilDiv a b \<and> b * ceilDiv a b < a + b"
proof -
  assume b: "0 < b"
  have "b * ((- a) div b) = - a - (- a) mod b" by (simp add: minus_mod_eq_mult_div)
  moreover have "0 \<le> (- a) mod b" "(- a) mod b < b" using b by simp_all
  ultimately show ?thesis unfolding ceilDiv_def mult_minus_right by linarith
qed

text \<open>
  The advertised wait is the right one: at least a second, never longer than the window, and
  once it has passed the oldest hit has left the window.
\<close>

lemma retryAfter_ok:
  assumes "t - windowSec * 1000 < h" and "h \<le> t" and "0 < windowSec"
  shows "1 \<le> retryAfterSec (h + windowSec * 1000 - t) \<and> retryAfterSec (h + windowSec * 1000 - t) \<le> windowSec
    \<and> h \<le> t + retryAfterSec (h + windowSec * 1000 - t) * 1000 - windowSec * 1000"
  using assms ceilDiv_bounds [of 1000 "h + windowSec * 1000 - t"] unfolding retryAfterSec_def by auto

text \<open>What the table holds for the subject: the recent accepted instants, oldest first.\<close>

definition recorded :: "limitName \<Rightarrow> string \<Rightarrow> kvTable \<Rightarrow> int list \<Rightarrow> int \<Rightarrow> bool" where
  "recorded name subject kv acc t \<longleftrightarrow>
     (\<forall>u \<ge> t. hitsOf kv (limitKey name subject) u (snd (LIMITS name) * 1000)
        = filter (\<lambda>at. at > u - snd (LIMITS name) * 1000) acc)"

lemma recorded_start: "kv (limitKey name subject) = None \<Longrightarrow> recorded name subject kv [] t"
  by (simp add: recorded_def hitsOf_def)

lemma recorded_later: "recorded name subject kv acc t \<Longrightarrow> t \<le> t' \<Longrightarrow> recorded name subject kv acc t'"
  by (auto simp: recorded_def)

lemma filter_chain: "(\<And>x. Q x \<Longrightarrow> P x) \<Longrightarrow> filter Q (filter P xs) = filter Q xs"
  by (induction xs) auto

lemma recorded_accept:
  assumes "recorded name subject kv acc t" and "limitAt name subject kv t = Inr kv'"
    and "\<forall>a \<in> set acc. a \<le> t"
  shows "recorded name subject kv' (acc @ [t]) t"
proof -
  define W where "W = snd (LIMITS name) * 1000"
  have W: "0 < W" using LIMITS_pos [of name] by (simp add: W_def)
  have kv': "kv' (limitKey name subject) =
      Some (showInts (filter (\<lambda>at. at > t - W) acc @ [t]), Some (t + W))"
    using assms(1,2) by (auto simp: limitAt_def recorded_def Let_def W_def split: if_splits prod.splits)
  have "hitsOf kv' (limitKey name subject) u W = filter (\<lambda>at. at > u - W) (acc @ [t])" if "t \<le> u" for u
  proof (cases "u < t + W")
    case True
    then show ?thesis using that by (simp add: hitsOf_def kv') (auto intro: filter_cong)
  next
    case False
    then have "filter (\<lambda>at. at > u - W) (acc @ [t]) = []"
      using assms(3) by (auto simp: filter_empty_conv)
    with False show ?thesis by (simp add: hitsOf_def kv')
  qed
  then show ?thesis by (simp add: recorded_def W_def)
qed

lemma limitRun_window:
  assumes "recorded name subject kv acc t0" and "sorted (t0 # ts)" and "\<forall>a \<in> set acc. a \<le> t0"
    and "sorted acc"
    and "\<forall>u. length (filter (\<lambda>a. u - snd (LIMITS name) * 1000 < a \<and> a \<le> u) acc) \<le> fst (LIMITS name)"
  shows "length (filter (\<lambda>a. u - snd (LIMITS name) * 1000 < a \<and> a \<le> u)
      (acc @ fst (limitRun name subject kv ts))) \<le> fst (LIMITS name)"
  using assms
proof (induction ts arbitrary: kv acc t0)
  case Nil
  then show ?case by simp
next
  case (Cons t ts)
  define W where "W = snd (LIMITS name) * 1000"
  have t: "t0 \<le> t" "sorted (t # ts)" "\<forall>a \<in> set acc. a \<le> t" using Cons.prems(2,3) by auto
  have rec: "recorded name subject kv acc t" by (rule recorded_later [OF Cons.prems(1) t(1)])
  show ?case
  proof (cases "limitAt name subject kv t")
    case (Inl r)
    then show ?thesis using Cons.IH [OF rec t(2,3) Cons.prems(4,5)] by simp
  next
    case (Inr kv')
    obtain acc' kv'' where run: "limitRun name subject kv' ts = (acc', kv'')" by fastforce
    have room: "length (filter (\<lambda>a. t - W < a) acc) < fst (LIMITS name)"
      using Inr rec by (auto simp: limitAt_def recorded_def W_def Let_def split: if_splits prod.splits)
    have "length (filter (\<lambda>a. u - W < a \<and> a \<le> u) (acc @ [t])) \<le> fst (LIMITS name)" for u
    proof (cases "u - W < t \<and> t \<le> u")
      case True
      have "filter (\<lambda>a. u - W < a \<and> a \<le> u) acc = filter (\<lambda>a. u - W < a \<and> a \<le> u) (filter (\<lambda>a. t - W < a) acc)"
        using True by (induction acc) auto
      then have "length (filter (\<lambda>a. u - W < a \<and> a \<le> u) acc) \<le> length (filter (\<lambda>a. t - W < a) acc)"
        by (metis length_filter_le)
      then show ?thesis using True room by simp
    next
      case False
      then show ?thesis using Cons.prems(5) by (auto simp: W_def)
    qed
    then have win: "\<forall>u. length (filter (\<lambda>a. u - snd (LIMITS name) * 1000 < a \<and> a \<le> u) (acc @ [t]))
        \<le> fst (LIMITS name)" by (simp add: W_def)
    have "length (filter (\<lambda>a. u - snd (LIMITS name) * 1000 < a \<and> a \<le> u)
        ((acc @ [t]) @ fst (limitRun name subject kv' ts))) \<le> fst (LIMITS name)"
      by (rule Cons.IH [OF recorded_accept [OF rec Inr t(3)] t(2) _ _ win])
        (use Cons.prems(4) t(3) in \<open>auto simp: sorted_append\<close>)
    then show ?thesis by (simp add: Inr run)
  qed
qed

text \<open>A refused request may come back after the advertised wait: it is then let through.\<close>

lemma limitAt_retry:
  assumes refused: "limitAt name subject kv t = Inl s"
    and sorted: "sorted (hitsOf kv (limitKey name subject) t (snd (LIMITS name) * 1000))"
    and past: "\<forall>h \<in> set (hitsOf kv (limitKey name subject) t (snd (LIMITS name) * 1000)). h \<le> t"
    and few: "length (hitsOf kv (limitKey name subject) t (snd (LIMITS name) * 1000)) \<le> fst (LIMITS name)"
  shows "1 \<le> s \<and> s \<le> snd (LIMITS name) \<and> (\<exists>kv'. limitAt name subject kv (t + s * 1000) = Inr kv')"
proof -
  define W where "W = snd (LIMITS name) * 1000"
  define hits where "hits = hitsOf kv (limitKey name subject) t W"
  have pos: "0 < fst (LIMITS name)" "0 < snd (LIMITS name)" using LIMITS_pos by auto
  have full: "fst (LIMITS name) \<le> length hits" and s: "s = retryAfterSec (hd hits + W - t)"
    using refused by (auto simp: limitAt_def Let_def hits_def W_def split: prod.splits if_splits)
  then obtain h rest where hits: "hits = h # rest" using pos(1) by (cases hits) auto
  have mem: "h \<in> set (hitsOf kv (limitKey name subject) t W)" using hits by (simp add: hits_def)
  then have h: "h \<le> t" using past unfolding W_def by blast
  have h': "t - W < h" using mem unfolding hitsOf_def set_filter by blast
  have wait: "1 \<le> s \<and> s \<le> snd (LIMITS name) \<and> h \<le> t + s * 1000 - W"
    using retryAfter_ok [OF h' [unfolded W_def] h pos(2)] unfolding s W_def hits by simp
  let ?u = "t + s * 1000"
  have "length (hitsOf kv (limitKey name subject) ?u W) < fst (LIMITS name)"
  proof (cases "kv (limitKey name subject)")
    case None
    then show ?thesis using pos(1) by (simp add: hitsOf_def)
  next
    case (Some e)
    obtain v x where e: "e = (v, x)" by (cases e)
    show ?thesis
    proof (cases x)
      case None
      with Some e show ?thesis using pos(1) by (simp add: hitsOf_def)
    next
      case (Some z)
      define xs where "xs = (case readInts v of Some xs \<Rightarrow> xs | None \<Rightarrow> [])"
      show ?thesis
      proof (cases "z > ?u")
        case True
        then have "z > t" using wait by linarith
        then have at_t: "hits = filter (\<lambda>a. a > t - W) xs"
          and at_u: "hitsOf kv (limitKey name subject) ?u W = filter (\<lambda>a. a > ?u - W) xs"
          using True \<open>kv (limitKey name subject) = Some e\<close> e Some by (simp_all add: hits_def hitsOf_def xs_def)
        have "filter (\<lambda>a. a > ?u - W) xs = filter (\<lambda>a. a > ?u - W) hits"
          unfolding at_t using wait by (intro filter_chain [symmetric]) linarith
        also have "\<dots> = filter (\<lambda>a. a > ?u - W) rest" using wait by (simp add: hits)
        also have "length \<dots> < length hits" by (simp add: hits le_imp_less_Suc)
        finally show ?thesis using few at_u by (simp add: hits_def W_def)
      next
        case False
        with \<open>kv (limitKey name subject) = Some e\<close> e Some show ?thesis using pos(1) by (simp add: hitsOf_def)
      qed
    qed
  qed
  then have "\<exists>kv'. limitAt name subject kv ?u = Inr kv'"
    by (auto simp: limitAt_def Let_def W_def split: prod.splits)
  then show ?thesis using wait by blast
qed

end
