(* ===== verification/Sessions.thy ===== *)
theory Sessions
  imports Platform
begin

text \<open>
  What \<open>/connect\<close> and the workflows share: the per-tab session rows, the supervisor's
  environment, the health probe and the dead-sandbox check of \<open>lib/connect.ts\<close>, and the
  sandbox bearer of \<open>lib/sandbox-auth.ts\<close>. The token minted at the end of a connect is in
  \<open>Tokens\<close>.
\<close>

section \<open>JavaScript truth of a nullable text\<close>

definition truthy :: "string option \<Rightarrow> bool" where
  "truthy s = (case s of None \<Rightarrow> False | Some t \<Rightarrow> t \<noteq> [])"

definition nullish :: "'a option \<Rightarrow> 'a \<Rightarrow> 'a" where
  "nullish x d = (case x of None \<Rightarrow> d | Some y \<Rightarrow> y)"

lemma nullish_simps [simp]: "nullish None d = d" "nullish (Some x) d = x"
  by (simp_all add: nullish_def)

lemma truthy_simps [simp]: "\<not> truthy None" "truthy (Some s) \<longleftrightarrow> s \<noteq> []"
  by (simp_all add: truthy_def)

section \<open>Sessions\<close>

record openSessionInput =
  oi_userId :: string
  oi_tabId :: string
  oi_host :: string
  oi_clientBuild :: "string option"
  oi_serverBuild :: "string option"

definition openTabSession :: "string \<Rightarrow> string \<Rightarrow> session \<Rightarrow> bool" where
  "openTabSession wid tab s \<longleftrightarrow> s_workspaceId s = wid \<and> holderTabId s = tab \<and> endedAt s = None"

text \<open>The partial unique index \<open>sessions_open_idx\<close> refuses a second open row of one tab.\<close>

definition uniqueViolation :: err where
  "uniqueViolation = OtherError ''SQLITE_CONSTRAINT_UNIQUE''"

definition isUniqueViolation :: "err \<Rightarrow> bool" where
  "isUniqueViolation e \<longleftrightarrow> e = uniqueViolation"

definition insertSession :: "platform \<Rightarrow> workspace \<Rightarrow> openSessionInput \<Rightarrow> session io" where
  "insertSession pf ws input =
     bindE (randomBytes pf) (\<lambda>bytes.
     bindE (getE now) (\<lambda>t.
     let row = \<lparr>s_id = newId PreSes bytes, s_workspaceId = ws_id ws, s_userId = oi_userId input,
        s_sandboxGeneration = sandboxGeneration ws,
        s_sandboxSessionId = currentSandboxSessionId ws, holderTabId = oi_tabId input,
        wsHost = oi_host input, s_clientBuild = oi_clientBuild input,
        s_serverBuild = oi_serverBuild input, startedAt = t, endedAt = None, endReason = None,
        tokensMinted = 0, lastConnectId = None\<rparr> in
     bindE (getE (\<lambda>w. selectOne (openTabSession (ws_id ws) (oi_tabId input)) (sessionsT w))) (\<lambda>dup.
     case dup of Some _ \<Rightarrow> throwE uniqueViolation
     | None \<Rightarrow> thenE (modE (\<lambda>w. w\<lparr>sessionsT := sessionsT w @ [row]\<rparr>)) (retE row))))"

definition refreshSession :: "workspace \<Rightarrow> openSessionInput \<Rightarrow> session \<Rightarrow> session" where
  "refreshSession ws input s = s\<lparr>wsHost := oi_host input, s_clientBuild := oi_clientBuild input,
     s_serverBuild := oi_serverBuild input, s_sandboxSessionId := currentSandboxSessionId ws\<rparr>"

definition arbitrateSession :: "platform \<Rightarrow> workspace \<Rightarrow> openSessionInput \<Rightarrow> session io" where
  "arbitrateSession pf ws input = txnE
     (bindE (getE (\<lambda>w. selectOne (openTabSession (ws_id ws) (oi_tabId input)) (sessionsT w))) (\<lambda>found.
      case found of
        None \<Rightarrow> insertSession pf ws input
      | Some s \<Rightarrow>
          if s_sandboxGeneration s = sandboxGeneration ws
          then thenE (modE (\<lambda>w. w\<lparr>sessionsT :=
                 updateWhere (\<lambda>r. s_id r = s_id s) (refreshSession ws input) (sessionsT w)\<rparr>))
               (retE (refreshSession ws input s))
          else thenE (modE (\<lambda>w. w\<lparr>sessionsT :=
                 updateWhere (\<lambda>r. s_id r = s_id s)
                   (\<lambda>r. r\<lparr>endedAt := Some (now w), endReason := Some ''generation_changed''\<rparr>)
                   (sessionsT w)\<rparr>))
               (insertSession pf ws input)))"

definition openOrReuseSession :: "platform \<Rightarrow> workspace \<Rightarrow> openSessionInput \<Rightarrow> session io" where
  "openOrReuseSession pf ws input = catchE (arbitrateSession pf ws input)
     (\<lambda>e. if \<not> isUniqueViolation e then throwE e else arbitrateSession pf ws input)"

definition closeOpenSession :: "string \<Rightarrow> string \<Rightarrow> unit io" where
  "closeOpenSession workspaceId reason = modE (\<lambda>w. w\<lparr>sessionsT :=
     updateWhere (\<lambda>s. s_workspaceId s = workspaceId \<and> endedAt s = None)
       (\<lambda>s. s\<lparr>endedAt := Some (now w), endReason := Some reason\<rparr>) (sessionsT w)\<rparr>)"

definition reloadWorkspace :: "string \<Rightarrow> workspace option io" where
  "reloadWorkspace workspaceId = getE (\<lambda>w. selectOne (\<lambda>r. ws_id r = workspaceId) (workspacesT w))"

text \<open>\<open>UPDATE workspaces SET f WHERE id = \<dots>\<close>.\<close>

definition updWs :: "string \<Rightarrow> (world \<Rightarrow> workspace \<Rightarrow> workspace) \<Rightarrow> unit io" where
  "updWs wid f = modE (\<lambda>w. w\<lparr>workspacesT := updateWhere (\<lambda>r. ws_id r = wid) (f w) (workspacesT w)\<rparr>)"

section \<open>The sandbox bearer\<close>

text \<open>
  \<open>requireSandbox\<close> on the bearer token the request carried; the principal is the row.
\<close>

definition requireSandbox :: "platform \<Rightarrow> string option \<Rightarrow> string \<Rightarrow> workspace io" where
  "requireSandbox pf token name =
     (case token of
        None \<Rightarrow> throwE (ApiError 401 ''sandbox_unauthorized'')
      | Some t \<Rightarrow>
        if take 4 t \<noteq> ''zsb_'' then throwE (ApiError 401 ''sandbox_unauthorized'')
        else if \<not> SANDBOX_NAME_RE name then throwE (ApiError 400 ''invalid_sandbox_name'')
        else bindE (getE (\<lambda>w. selectOne (\<lambda>r. sandboxName r = name) (workspacesT w))) (\<lambda>row.
          case row of
            None \<Rightarrow> throwE (ApiError 401 ''sandbox_unauthorized'')
          | Some r \<Rightarrow>
              if \<not> truthy (sandboxTokenHash r)
                 \<or> \<not> timingSafeEqualHex (pf_sha256 pf t) (nullish (sandboxTokenHash r) [])
              then throwE (ApiError 401 ''sandbox_unauthorized'')
              else if deletedAt r \<noteq> None then throwE (ApiError 410 ''sandbox_retired'')
              else retE r))"

definition rotateSandboxToken :: "platform \<Rightarrow> string \<Rightarrow> (string \<times> int) io" where
  "rotateSandboxToken pf wid =
     bindE (randomBytes pf) (\<lambda>bytes.
     let (token, hash) = newSandboxToken (pf_sha256 pf) bytes in
     thenE (updWs wid (\<lambda>w r. r\<lparr>sandboxTokenHash := Some hash,
              sandboxTokenGeneration := sandboxTokenGeneration r + 1, updatedAt := now w\<rparr>))
     (bindE (reloadWorkspace wid) (\<lambda>row. case row of
        None \<Rightarrow> throwE (ApiError 404 ''not_found'')
      | Some r \<Rightarrow> retE (token, sandboxTokenGeneration r))))"

section \<open>The supervisor's environment\<close>

definition bypassSecretEnv :: "env \<Rightarrow> (string \<times> string) list" where
  "bypassSecretEnv e = (if truthy (VERCEL_AUTOMATION_BYPASS_SECRET e) \<and> envTag e = Preview
     then [(''ZS_BYPASS_SECRET'', nullish (VERCEL_AUTOMATION_BYPASS_SECRET e) [])] else [])"

definition supervisorEnvFor :: "env \<Rightarrow> workspace \<Rightarrow> string \<Rightarrow> err + (string \<times> string) list" where
  "supervisorEnvFor e ws token = (case controlApiBase e of
      Inl er \<Rightarrow> Inl er
    | Inr base \<Rightarrow> Inr ([(''ZS_CONTROL_URL'', base), (''ZS_SANDBOX_TOKEN'', token),
        (''ZS_SANDBOX_NAME'', sandboxName ws), (''ZS_WORKSPACE_ID'', ws_id ws)] @ bypassSecretEnv e))"

section \<open>The health probe\<close>

text \<open>Property reads of a parsed body; a missing property is \<open>undefined\<close>.\<close>

definition jget :: "json option \<Rightarrow> string \<Rightarrow> json option" where
  "jget j k = (case j of Some (JObj kvs) \<Rightarrow> map_of (rev kvs) k | _ \<Rightarrow> None)"

definition jstr :: "json option \<Rightarrow> string option" where
  "jstr j = (case j of Some (JStr s) \<Rightarrow> Some s | _ \<Rightarrow> None)"

definition jbool :: "json option \<Rightarrow> bool option" where
  "jbool j = (case j of Some (JBool b) \<Rightarrow> Some b | _ \<Rightarrow> None)"

definition jnum :: "json option \<Rightarrow> int option" where
  "jnum j = (case j of Some (JNum n) \<Rightarrow> Some n | _ \<Rightarrow> None)"

definition jtrue :: "json option \<Rightarrow> bool" where
  "jtrue j \<longleftrightarrow> jbool j = Some True"

text \<open>\<open>HEALTH_STATUSES\<close> and \<open>BOOT_PHASES\<close>, each text with the value it stands for.\<close>

definition HEALTH_STATUSES :: "(string \<times> healthStatus) list" where
  "HEALTH_STATUSES = [(''booting'', HsBooting), (''ready'', HsReady), (''degraded'', HsDegraded),
     (''stopping'', HsStopping)]"

definition BOOT_PHASES :: "(string \<times> bootPhase) list" where
  "BOOT_PHASES = [(''manifest'', PhManifest), (''restore'', PhRestore), (''clone'', PhClone),
     (''server_starting'', PhServerStarting), (''dotfiles'', PhDotfiles),
     (''post_create'', PhPostCreate), (''post_start'', PhPostStart), (''ready'', PhReady)]"

definition phaseOf :: "json option \<Rightarrow> bootPhase" where
  "phaseOf j = (case jstr j of None \<Rightarrow> PhManifest
     | Some s \<Rightarrow> nullish (map_of BOOT_PHASES s) PhManifest)"

definition parseHealthBody :: "json \<Rightarrow> healthProbe option" where
  "parseHealthBody body =
     (let b = Some body; status = jstr (jget b ''status''); ok = jbool (jget b ''ok'') in
      case (status, ok) of
        (None, Some okv) \<Rightarrow>
          (let serverRunning = jtrue (jget b ''serverUp'') in
           Some \<lparr>hp_ready = (okv \<and> serverRunning), hp_status = (if okv then HsReady else HsBooting),
             hp_phase = phaseOf (jget b ''phase''), hp_build = jstr (jget b ''build''),
             hp_manifestBuild = None, hp_resumed = False, hp_busy = False,
             hp_serverRunning = serverRunning, hp_serverCrashLoop = False, hp_serverRestarts = 0,
             hp_uptimeSecs = nullish (jnum (jget b ''uptimeSec'')) 0\<rparr>)
      | _ \<Rightarrow>
          (case (case status of None \<Rightarrow> None | Some s \<Rightarrow> map_of HEALTH_STATUSES s) of
             None \<Rightarrow> None
           | Some st \<Rightarrow>
               (let server = jget b ''server''; serverRunning = jtrue (jget server ''running'') in
                Some \<lparr>hp_ready = ((st = HsReady \<or> st = HsDegraded) \<and> serverRunning), hp_status = st,
                  hp_phase = phaseOf (jget b ''phase''), hp_build = jstr (jget b ''build''),
                  hp_manifestBuild = jstr (jget b ''manifestBuild''),
                  hp_resumed = jtrue (jget b ''resumed''), hp_busy = jtrue (jget b ''busy''),
                  hp_serverRunning = serverRunning,
                  hp_serverCrashLoop = jtrue (jget server ''crashLoop''),
                  hp_serverRestarts = nullish (jnum (jget server ''restarts'')) 0,
                  hp_uptimeSecs = nullish (jnum (jget b ''uptimeSecs'')) 0\<rparr>)))"

text \<open>Only 200 and 503 carry a body; any failure of the fetch is \<open>null\<close>.\<close>

definition probeAnswer :: "(int \<times> json) option \<Rightarrow> healthProbe option" where
  "probeAnswer r = (case r of None \<Rightarrow> None
     | Some (code, body) \<Rightarrow> if code \<noteq> 200 \<and> code \<noteq> 503 then None else parseHealthBody body)"

definition probeHealth :: "platform \<Rightarrow> string \<Rightarrow> healthProbe option io" where
  "probeHealth pf host = ext pf (EvProbe host) (\<lambda>n. probeAnswer (pf_health pf n host))"

section \<open>Is anything behind a running row?\<close>

definition DEAD_SANDBOX_HEALTH_ATTEMPTS :: nat where "DEAD_SANDBOX_HEALTH_ATTEMPTS = 3"
definition DEAD_SANDBOX_HEALTH_PAUSE_MS :: int where "DEAD_SANDBOX_HEALTH_PAUSE_MS = 500"

datatype sandboxLiveness = Alive healthProbe | Unhealthy healthProbe | Dead string

definition probeReady :: "healthProbe option \<Rightarrow> bool" where
  "probeReady p = (case p of None \<Rightarrow> False | Some h \<Rightarrow> hp_ready h)"

text \<open>The loop: the probes still allowed, whether this is the first, and \<open>probe\<close>, \<open>answered\<close>.\<close>

fun probeLoop :: "platform \<Rightarrow> string \<Rightarrow> nat \<Rightarrow> bool \<Rightarrow> healthProbe option \<Rightarrow> healthProbe option
    \<Rightarrow> (healthProbe option \<times> healthProbe option) io" where
  "probeLoop pf host 0 first probe answered = retE (probe, answered)"
| "probeLoop pf host (Suc k) first probe answered =
     (if probeReady probe then retE (probe, answered)
      else bindE (whenE (\<not> first) (sleepMs DEAD_SANDBOX_HEALTH_PAUSE_MS)) (\<lambda>_.
           bindE (probeHealth pf host) (\<lambda>p.
           probeLoop pf host k False p (if p \<noteq> None then p else answered))))"

text \<open>\<open>sandboxApi().get\<close>; the result is the handle, \<open>null\<close>, or a rejection.\<close>

definition apiGet :: "platform \<Rightarrow> string \<Rightarrow> bool \<Rightarrow> (handle \<times> bool) option io" where
  "apiGet pf name resume = extE pf (\<lambda>_. EvGet name resume) (\<lambda>n. pf_get pf n name resume)"

definition detectDeadSandbox :: "platform \<Rightarrow> workspace \<Rightarrow> sandboxLiveness io" where
  "detectDeadSandbox pf ws =
     (if \<not> truthy (currentWsHost ws) \<or> \<not> truthy (currentHealthHost ws)
      then retE (Dead ''no_session'')
      else bindE (catchE (bindE (apiGet pf (sandboxName ws) False) (\<lambda>h. retE (Some h)))
                   (\<lambda>_. retE None)) (\<lambda>got.
        let status = (case got of Some (Some (h, _)) \<Rightarrow> Some (h_status h) | _ \<Rightarrow> None) in
        if status \<noteq> None \<and> status \<noteq> Some StRunning \<and> status \<noteq> Some StPending
        then retE (Dead (''sandbox_'' @ statusText (the status)))
        else bindE (probeLoop pf (nullish (currentHealthHost ws) []) DEAD_SANDBOX_HEALTH_ATTEMPTS
                      True None None) (\<lambda>(probe, answered).
          case (probeReady probe, probe, answered) of
            (True, Some p, _) \<Rightarrow> retE (Alive p)
          | (_, _, Some a) \<Rightarrow> retE (Unhealthy a)
          | _ \<Rightarrow> retE (Dead (if got = Some None then ''sandbox_missing''
                              else ''health_unreachable'')))))"

definition markWorkspaceLost :: "workspace \<Rightarrow> string \<Rightarrow> workspace io" where
  "markWorkspaceLost ws reason =
     thenE (closeOpenSession (ws_id ws) ''sandbox_lost'')
     (thenE (modE (\<lambda>w. w\<lparr>workspacesT := updateWhere (\<lambda>r. ws_id r = ws_id ws \<and> ws_state r = Running)
        (\<lambda>r. r\<lparr>ws_state := Stopped, stateReason := Some (''lost:'' @ reason),
           lastStoppedAt := Some (now w), currentWsHost := None, currentSlotHosts := None,
           currentHealthHost := None, supervisorCmdId := None, sandboxExpiresAt := None,
           updatedAt := now w\<rparr>) (workspacesT w)\<rparr>))
     (bindE (reloadWorkspace (ws_id ws)) (\<lambda>row.
        retE (case row of Some r \<Rightarrow> r | None \<Rightarrow> ws\<lparr>ws_state := Stopped\<rparr>))))"

section \<open>Invariant: one open session per tab\<close>

definition openSessionsUnique :: "session list \<Rightarrow> bool" where
  "openSessionsUnique ss \<longleftrightarrow>
     distinct (map (\<lambda>s. (s_workspaceId s, holderTabId s)) (filter (\<lambda>s. endedAt s = None) ss))"

definition sessionIdsDistinct :: "session list \<Rightarrow> bool" where
  "sessionIdsDistinct ss \<longleftrightarrow> distinct (map s_id ss)"

lemma open_update_frame:
  assumes "\<And>r. s_workspaceId (f r) = s_workspaceId r" and "\<And>r. holderTabId (f r) = holderTabId r"
    and "\<And>r. endedAt (f r) = endedAt r"
  shows "openSessionsUnique (updateWhere p f ss) = openSessionsUnique ss"
proof -
  have "map (\<lambda>s. (s_workspaceId s, holderTabId s)) (filter (\<lambda>s. endedAt s = None) (updateWhere p f ss))
      = map (\<lambda>s. (s_workspaceId s, holderTabId s)) (filter (\<lambda>s. endedAt s = None) ss)"
    by (induction ss) (auto simp: assms)
  then show ?thesis by (simp add: openSessionsUnique_def)
qed

lemma open_update_close:
  assumes "openSessionsUnique ss" and "\<And>r. endedAt (f r) \<noteq> None"
  shows "openSessionsUnique (updateWhere p f ss)"
proof -
  have "filter (\<lambda>s. endedAt s = None) (updateWhere p f ss)
      = filter (\<lambda>s. \<not> p s) (filter (\<lambda>s. endedAt s = None) ss)"
    using assms(2) by (induction ss) auto
  then show ?thesis
    using assms(1) by (simp only: openSessionsUnique_def distinct_map_filter)
qed

lemma open_append:
  assumes "openSessionsUnique ss" and "selectOne (openTabSession wid tab) ss = None"
    and "s_workspaceId r = wid" and "holderTabId r = tab"
  shows "openSessionsUnique (ss @ [r])"
  using assms
  by (auto simp: openSessionsUnique_def selectOne_None openTabSession_def)

lemma wp_insertSession:
  assumes "openSessionsUnique (sessionsT w)"
  shows "wp (insertSession pf ws input)
    (\<lambda>s w'. openSessionsUnique (sessionsT w') \<and> s \<in> set (sessionsT w')
       \<and> openTabSession (ws_id ws) (oi_tabId input) s
       \<and> s_sandboxGeneration s = sandboxGeneration ws \<and> wsHost s = oi_host input)
    (\<lambda>e w'. e = uniqueViolation \<and>
       selectOne (openTabSession (ws_id ws) (oi_tabId input)) (sessionsT w) \<noteq> None) w"
  using assms
  by (auto simp: insertSession_def wp_simps Let_def openTabSession_def [of _ _ "_\<lparr>endedAt := _\<rparr>"]
      split: option.splits intro: open_append)
    (auto simp: openTabSession_def)

lemma selectOne_closed:
  assumes "sessionIdsDistinct ss" and "openSessionsUnique ss"
    and "selectOne (openTabSession wid tab) ss = Some s" and "\<And>r. endedAt (f r) \<noteq> None"
  shows "selectOne (openTabSession wid tab) (updateWhere (\<lambda>r. s_id r = s_id s) f ss) = None"
proof -
  have s: "s \<in> set ss" "openTabSession wid tab s" using selectOne_Some [OF assms(3)] by auto
  have "\<not> openTabSession wid tab (if s_id r = s_id s then f r else r)" if r: "r \<in> set ss" for r
  proof (cases "s_id r = s_id s")
    case True
    then show ?thesis using assms(4) by (auto simp: openTabSession_def)
  next
    case False
    show ?thesis
    proof
      assume "openTabSession wid tab (if s_id r = s_id s then f r else r)"
      with False have o: "openTabSession wid tab r" by simp
      have "r = s"
        by (rule ex1_of_distinct_key [where key = "\<lambda>s. (s_workspaceId s, holderTabId s)"
              and rows = "filter (\<lambda>s. endedAt s = None) ss"])
          (use assms(2) o s r in \<open>auto simp: openSessionsUnique_def openTabSession_def\<close>)
      with False show False by simp
    qed
  qed
  then show ?thesis unfolding selectOne_None set_updateWhere by blast
qed

text \<open>
  Arbitration never leaves a tab with two open rows, and its result is the tab's open row, on
  the workspace's current generation and host. The unique index is never hit.
\<close>

lemma wp_arbitrateSession:
  assumes "openSessionsUnique (sessionsT w)" and "sessionIdsDistinct (sessionsT w)"
  shows "wp (arbitrateSession pf ws input)
    (\<lambda>s w'. openSessionsUnique (sessionsT w') \<and> s \<in> set (sessionsT w')
       \<and> openTabSession (ws_id ws) (oi_tabId input) s
       \<and> s_sandboxGeneration s = sandboxGeneration ws \<and> wsHost s = oi_host input)
    (\<lambda>_ _. False) w"
proof (cases "selectOne (openTabSession (ws_id ws) (oi_tabId input)) (sessionsT w)")
  case None
  have "wp (insertSession pf ws input)
    (\<lambda>s w'. openSessionsUnique (sessionsT w') \<and> s \<in> set (sessionsT w')
       \<and> openTabSession (ws_id ws) (oi_tabId input) s
       \<and> s_sandboxGeneration s = sandboxGeneration ws \<and> wsHost s = oi_host input)
    (\<lambda>_ _. False) w"
    by (rule wp_mono [OF wp_insertSession [OF assms(1)]]) (use None in auto)
  with None show ?thesis by (simp add: arbitrateSession_def wp_simps)
next
  case (Some s)
  note s = selectOne_Some [OF Some]
  show ?thesis
  proof (cases "s_sandboxGeneration s = sandboxGeneration ws")
    case True
    have "refreshSession ws input s \<in>
        set (updateWhere (\<lambda>r. s_id r = s_id s) (refreshSession ws input) (sessionsT w))"
      using s by (force simp: set_updateWhere)
    with True Some s assms show ?thesis
      by (simp add: arbitrateSession_def wp_simps open_update_frame refreshSession_def
          openTabSession_def)
  next
    case False
    let ?f = "\<lambda>r :: session. r\<lparr>endedAt := Some (now w), endReason := Some ''generation_changed''\<rparr>"
    let ?v = "w\<lparr>sessionsT := updateWhere (\<lambda>r. s_id r = s_id s) ?f (sessionsT w)\<rparr>"
    have u: "openSessionsUnique (sessionsT ?v)"
      using open_update_close [OF assms(1), of ?f] by simp
    have none: "selectOne (openTabSession (ws_id ws) (oi_tabId input)) (sessionsT ?v) = None"
      using selectOne_closed [OF assms(2,1) Some, of ?f] by simp
    have "wp (insertSession pf ws input)
      (\<lambda>s w'. openSessionsUnique (sessionsT w') \<and> s \<in> set (sessionsT w')
         \<and> openTabSession (ws_id ws) (oi_tabId input) s
         \<and> s_sandboxGeneration s = sandboxGeneration ws \<and> wsHost s = oi_host input)
      (\<lambda>_ _. False) ?v"
      by (rule wp_mono [OF wp_insertSession [OF u]]) (use none in auto)
    with False Some show ?thesis by (simp add: arbitrateSession_def wp_simps)
  qed
qed

section \<open>Probe lemmas\<close>

text \<open>An answered probe is ready only when its server runs and its status is ready or degraded.\<close>

lemma parseHealthBody_ready:
  "parseHealthBody body = Some p \<Longrightarrow>
    hp_ready p \<longleftrightarrow> hp_serverRunning p \<and> (hp_status p = HsReady \<or> hp_status p = HsDegraded)"
  by (auto simp: parseHealthBody_def Let_def split: option.splits bool.splits if_splits)

lemma wp_probeHealth [wp_simps]: "wp (probeHealth pf host) Q E w =
    (let p = probeAnswer (pf_health pf (tick w) host) in
     Q p (w\<lparr>tick := Suc (tick w), now := now w + int (pf_elapsed pf (tick w)),
       trace := trace w @ [EvProbe host p]\<rparr>))"
  by (simp add: probeHealth_def wp_simps Let_def)

end
