(* ===== verification/DbSteps.thy ===== *)
theory DbSteps
  imports Sessions
begin

text \<open>
  The workflow steps that only touch the database (\<open>workflows/steps/db-steps.ts\<close>). What they
  throw is always a \<open>FatalError\<close>, which the runtime does not retry, so no retry loop is
  written around them.
\<close>

definition stepLoadWorkspace :: "string \<Rightarrow> workspace io" where
  "stepLoadWorkspace workspaceId =
     bindE (reloadWorkspace workspaceId) (\<lambda>row. case row of
        None \<Rightarrow> throwE (FatalError (''workspace_missing:'' @ workspaceId))
      | Some r \<Rightarrow> if deletedAt r \<noteq> None then throwE (FatalError (''workspace_missing:'' @ workspaceId))
          else retE r)"

text \<open>\<open>WorkspacePatch\<close>: an absent key is \<open>None\<close>, a key set to \<open>null\<close> is \<open>Some None\<close>.\<close>

record workspacePatch =
  p_currentWsHost :: "string option option"
  p_currentSlotHosts :: "(string \<times> string) list option option"
  p_currentHealthHost :: "string option option"
  p_currentSandboxSessionId :: "string option option"
  p_sessionStartedAt :: "int option option"
  p_sandboxExpiresAt :: "int option option"
  p_supervisorCmdId :: "string option option"
  p_restoreKind :: "restoreKind option"
  p_restoreBlobPathname :: "string option option"
  p_previousSandboxName :: "string option option"
  p_lastStoppedAt :: "int option option"
  p_retentionUntil :: "int option option"
  p_retentionWarnedAt :: "int option option"

definition noPatch :: workspacePatch where
  "noPatch = \<lparr>p_currentWsHost = None, p_currentSlotHosts = None, p_currentHealthHost = None,
     p_currentSandboxSessionId = None, p_sessionStartedAt = None, p_sandboxExpiresAt = None,
     p_supervisorCmdId = None, p_restoreKind = None, p_restoreBlobPathname = None,
     p_previousSandboxName = None, p_lastStoppedAt = None, p_retentionUntil = None,
     p_retentionWarnedAt = None\<rparr>"

definition applyPatch :: "workspacePatch \<Rightarrow> workspace \<Rightarrow> workspace" where
  "applyPatch p r = r\<lparr>
     currentWsHost := nullish (p_currentWsHost p) (currentWsHost r),
     currentSlotHosts := nullish (p_currentSlotHosts p) (currentSlotHosts r),
     currentHealthHost := nullish (p_currentHealthHost p) (currentHealthHost r),
     currentSandboxSessionId := nullish (p_currentSandboxSessionId p) (currentSandboxSessionId r),
     sessionStartedAt := nullish (p_sessionStartedAt p) (sessionStartedAt r),
     sandboxExpiresAt := nullish (p_sandboxExpiresAt p) (sandboxExpiresAt r),
     supervisorCmdId := nullish (p_supervisorCmdId p) (supervisorCmdId r),
     restoreKind := nullish (p_restoreKind p) (restoreKind r),
     restoreBlobPathname := nullish (p_restoreBlobPathname p) (restoreBlobPathname r),
     previousSandboxName := nullish (p_previousSandboxName p) (previousSandboxName r),
     lastStoppedAt := nullish (p_lastStoppedAt p) (lastStoppedAt r),
     retentionUntil := nullish (p_retentionUntil p) (retentionUntil r),
     retentionWarnedAt := nullish (p_retentionWarnedAt p) (retentionWarnedAt r)\<rparr>"

definition stepSetState ::
  "string \<Rightarrow> workspaceState \<Rightarrow> string option option \<Rightarrow> workspacePatch \<Rightarrow> unit io" where
  "stepSetState workspaceId st reason patch = updWs workspaceId (\<lambda>w r.
     (applyPatch patch r)\<lparr>ws_state := st, stateReason := nullish reason (stateReason r),
       updatedAt := now w\<rparr>)"

text \<open>\<open>RunOutcome\<close>: ok, or the error's text and the state the row takes (\<open>error\<close> by default).\<close>

datatype runOutcome = RunOk | RunError string "workspaceState option"

definition finishRow :: "runOutcome \<Rightarrow> int \<Rightarrow> workspace \<Rightarrow> workspace" where
  "finishRow outcome t r = (case outcome of
      RunOk \<Rightarrow> r\<lparr>workflowRunId := None, workflowRunStartedAt := None, updatedAt := t\<rparr>
    | RunError e st \<Rightarrow> r\<lparr>workflowRunId := None, workflowRunStartedAt := None,
        ws_state := nullish st ErrorState, stateReason := Some (take 500 e), updatedAt := t\<rparr>)"

definition stepFinishRun :: "string \<Rightarrow> runOutcome \<Rightarrow> unit io" where
  "stepFinishRun workspaceId outcome = updWs workspaceId (\<lambda>w r. finishRow outcome (now w) r)"

definition stepPickImage :: "string \<Rightarrow> string io" where
  "stepPickImage workspaceId =
     bindE (reloadWorkspace workspaceId) (\<lambda>row. case row of
        None \<Rightarrow> throwE (FatalError (''workspace_missing:'' @ workspaceId))
      | Some r \<Rightarrow> retE (imageRef r))"

definition stepBuildCreateInput :: "platform \<Rightarrow> string \<Rightarrow> string \<Rightarrow> createSandboxInput io" where
  "stepBuildCreateInput pf workspaceId img =
     bindE (reloadWorkspace workspaceId) (\<lambda>row. case row of
        None \<Rightarrow> throwE (FatalError (''workspace_missing:'' @ workspaceId))
      | Some r \<Rightarrow> let e = pf_env pf in retE
          \<lparr>ci_name = sandboxName r, ci_region = ws_region r, ci_vcpus = vcpus (machine r),
           ci_ports = [ZS_RPC_PORT e] @ proxySlots @ [ZS_HEALTH_PORT e],
           ci_timeoutMs = ZS_SESSION_TIMEOUT_MS e, ci_image = img,
           ci_env = [(''ZS_WORKSPACE_ID'', ws_id r), (''ZS_SANDBOX_NAME'', sandboxName r),
             (''ZS_REGION'', regionText (ws_region r))],
           ci_networkPolicy = ''allow-all'',
           ci_tags = [(''zs'', envTagText (envTag e)), (''ws'', ws_id r), (''owner'', ownerUserId r)],
           ci_snapshotExpirationMs = ZS_RETENTION_DAYS e * 86400000,
           ci_keepLastSnapshots = 1\<rparr>)"

record sessionHosts =
  sh_rpcHost :: string
  sh_healthHost :: string
  sh_slotHosts :: "(string \<times> string) list"
  sh_sessionId :: string
  sh_expiresAt :: "int option"

definition stepRecordSandboxSession ::
  "string \<Rightarrow> workspaceState \<Rightarrow> string option \<Rightarrow> sessionHosts \<Rightarrow> restoreKind option
   \<Rightarrow> string option option \<Rightarrow> unit io" where
  "stepRecordSandboxSession workspaceId st reason hosts rk cmd = updWs workspaceId (\<lambda>w r. r\<lparr>
     ws_state := st, stateReason := reason, currentWsHost := Some (sh_rpcHost hosts),
     currentHealthHost := Some (sh_healthHost hosts), currentSlotHosts := Some (sh_slotHosts hosts),
     currentSandboxSessionId := Some (sh_sessionId hosts), sessionStartedAt := Some (now w),
     lastActiveAt := now w, sandboxExpiresAt := sh_expiresAt hosts,
     restoreKind := nullish rk (restoreKind r), supervisorCmdId := nullish cmd (supervisorCmdId r),
     updatedAt := now w\<rparr>)"

definition stepMarkStopped ::
  "platform \<Rightarrow> string \<Rightarrow> string \<Rightarrow> workspaceState \<Rightarrow> int option option \<Rightarrow> unit io" where
  "stepMarkStopped pf workspaceId reason st snap = updWs workspaceId (\<lambda>w r. r\<lparr>
     ws_state := st, stateReason := Some reason, lastStoppedAt := Some (now w),
     retentionUntil := Some (now w + ZS_RETENTION_DAYS (pf_env pf) * 86400000),
     retentionWarnedAt := None, currentWsHost := None, currentSlotHosts := None,
     currentHealthHost := None, supervisorCmdId := None, sandboxExpiresAt := None,
     snapshotSizeBytes := nullish snap (snapshotSizeBytes r), updatedAt := now w\<rparr>)"

definition stepRecordSessionEnd :: "string \<Rightarrow> string \<Rightarrow> unit io" where
  "stepRecordSessionEnd workspaceId reason = closeOpenSession workspaceId reason"

definition stepCurrentRelease :: "platform \<Rightarrow> editorRelease io" where
  "stepCurrentRelease pf = (case currentRelease (pf_env pf) of
      Inl e \<Rightarrow> throwE e | Inr r \<Rightarrow> retE r)"

definition setRelease :: "editorRelease \<Rightarrow> workspace \<Rightarrow> workspace" where
  "setRelease rel r = r\<lparr>imageRef := er_imageRef rel, serverBuild := er_serverBuild rel,
     clientBuild := er_clientBuild rel\<rparr>"

definition stepSetRelease :: "string \<Rightarrow> editorRelease \<Rightarrow> unit io" where
  "stepSetRelease workspaceId rel = updWs workspaceId (\<lambda>w r. (setRelease rel r)\<lparr>updatedAt := now w\<rparr>)"

record generationBump =
  gb_oldSandboxName :: string
  gb_newSandboxName :: string
  gb_generation :: int

definition bumpRow :: "string \<Rightarrow> string \<Rightarrow> editorRelease \<Rightarrow> int \<Rightarrow> workspace \<Rightarrow> workspace" where
  "bumpRow name blob rel t r = (setRelease rel r)\<lparr>
     sandboxGeneration := sandboxGeneration r + 1, sandboxName := name, audience := name,
     previousSandboxName := Some (sandboxName r), restoreKind := Tarball,
     restoreBlobPathname := Some blob, supervisorCmdId := None, currentWsHost := None,
     currentSlotHosts := None, currentHealthHost := None, currentSandboxSessionId := None,
     sandboxExpiresAt := None, snapshotSizeBytes := None, updatedAt := t\<rparr>"

definition stepBumpGeneration ::
  "platform \<Rightarrow> string \<Rightarrow> string \<Rightarrow> editorRelease \<Rightarrow> generationBump io" where
  "stepBumpGeneration pf workspaceId blob rel =
     bindE (reloadWorkspace workspaceId) (\<lambda>row. case row of
        None \<Rightarrow> throwE (FatalError (''workspace_missing:'' @ workspaceId))
      | Some r \<Rightarrow>
          (case previousSandboxName r of
             Some p \<Rightarrow> throwE (FatalError (''generation_bump_pending:'' @ p))
           | None \<Rightarrow>
               let generation = sandboxGeneration r + 1;
                   name = newSandboxName (VERCEL_ENV (pf_env pf)) (ws_id r) generation in
               thenE (updWs workspaceId (\<lambda>w _. bumpRow name blob rel (now w) r))
                 (retE \<lparr>gb_oldSandboxName = sandboxName r, gb_newSandboxName = name,
                   gb_generation = generation\<rparr>)))"

definition stepPurgeWorkspaceRows :: "string \<Rightarrow> unit io" where
  "stepPurgeWorkspaceRows workspaceId =
     thenE (modE (\<lambda>w. w\<lparr>forwardsT := filter (\<lambda>f. f_workspaceId f \<noteq> workspaceId) (forwardsT w)\<rparr>))
     (thenE (closeOpenSession workspaceId ''deleted'')
     (updWs workspaceId (\<lambda>w r. r\<lparr>deletedAt := Some (now w), ws_state := Deleting, stateReason := None,
        currentWsHost := None, currentSlotHosts := None, currentHealthHost := None,
        supervisorCmdId := None, sandboxTokenHash := None, snapshotSizeBytes := None,
        updatedAt := now w\<rparr>)))"

definition gcExpired :: "int \<Rightarrow> workspace \<Rightarrow> bool" where
  "gcExpired t r \<longleftrightarrow> ws_state r = Stopped \<and> deletedAt r = None
     \<and> (case retentionUntil r of None \<Rightarrow> False | Some u \<Rightarrow> u < t) \<and> retentionWarnedAt r \<noteq> None"

definition liveNames :: "workspace \<Rightarrow> string list" where
  "liveNames r = (if truthy (previousSandboxName r)
     then [sandboxName r, nullish (previousSandboxName r) []] else [sandboxName r])"

text \<open>\<open>expiredWorkspaces\<close> and \<open>knownSandboxNames\<close>.\<close>

definition stepGcCandidates :: "int \<Rightarrow> (string list \<times> string list) io" where
  "stepGcCandidates t = getE (\<lambda>w.
     (map ws_id (filter (gcExpired t) (workspacesT w)),
      concat (map liveNames (filter (\<lambda>r. deletedAt r = None) (workspacesT w)))))"

definition staleSession :: "workspace list \<Rightarrow> int \<Rightarrow> session \<Rightarrow> bool" where
  "staleSession wss cutoff s \<longleftrightarrow> endedAt s = None \<and> startedAt s < cutoff
     \<and> (\<exists>r \<in> set wss. ws_id r = s_workspaceId s \<and> ws_state r \<noteq> Running)"

definition stepCloseStaleSessions :: "int \<Rightarrow> int io" where
  "stepCloseStaleSessions t =
     bindE (getE (\<lambda>w. map s_id (filter (staleSession (workspacesT w) (t - 25 * 3600000)) (sessionsT w))))
     (\<lambda>stale. if stale = [] then retE 0
      else thenE (modE (\<lambda>w. w\<lparr>sessionsT := updateWhere (\<lambda>s. s_id s \<in> set stale)
             (\<lambda>s. s\<lparr>endedAt := Some t, endReason := Some ''stale''\<rparr>) (sessionsT w)\<rparr>))
           (retE (int (length stale))))"

definition retentionWarnable :: "int \<Rightarrow> workspace \<Rightarrow> bool" where
  "retentionWarnable horizon r \<longleftrightarrow> deletedAt r = None \<and> retentionWarnedAt r = None
     \<and> (case retentionUntil r of None \<Rightarrow> False | Some u \<Rightarrow> u < horizon)"

definition stepWarnRetention :: "int \<Rightarrow> int io" where
  "stepWarnRetention t =
     bindE (getE (\<lambda>w. map ws_id (filter (retentionWarnable (t + 7 * 86400000)) (workspacesT w))))
     (\<lambda>rows. if rows = [] then retE 0
      else thenE (modE (\<lambda>w. w\<lparr>workspacesT := updateWhere (\<lambda>r. ws_id r \<in> set rows)
             (\<lambda>r. r\<lparr>retentionWarnedAt := Some t\<rparr>) (workspacesT w)\<rparr>))
           (retE (int (length rows))))"

section \<open>Rows by id\<close>

text \<open>
  \<open>rowOf w wid\<close> is the row every step reads and writes. Workspace ids are a primary key.
\<close>

definition rowOf :: "world \<Rightarrow> string \<Rightarrow> workspace option" where
  "rowOf w wid = selectOne (\<lambda>r. ws_id r = wid) (workspacesT w)"

lemma rowOf_id: "rowOf w wid = Some r \<Longrightarrow> ws_id r = wid"
  unfolding rowOf_def using selectOne_Some by fastforce

lemma wp_reload [wp_simps]: "wp (reloadWorkspace wid) Q E w = Q (rowOf w wid) w"
  by (simp add: reloadWorkspace_def rowOf_def wp_simps)

lemma wp_updWs [wp_simps]: "wp (updWs wid f) Q E w =
    Q () (w\<lparr>workspacesT := updateWhere (\<lambda>r. ws_id r = wid) (f w) (workspacesT w)\<rparr>)"
  by (simp add: updWs_def wp_simps)

lemma rowOf_upd:
  assumes "\<And>r. ws_id r = wid \<Longrightarrow> ws_id (f r) = wid"
  shows "rowOf (w\<lparr>workspacesT := updateWhere (\<lambda>r. ws_id r = wid) f (workspacesT w)\<rparr>) wid
    = map_option f (rowOf w wid)"
proof -
  have "selectOne (\<lambda>r. ws_id r = wid) (updateWhere (\<lambda>r. ws_id r = wid) f rows)
      = map_option f (selectOne (\<lambda>r. ws_id r = wid) rows)" for rows
    by (induction rows) (auto simp: assms)
  then show ?thesis by (simp add: rowOf_def)
qed

lemma rowOf_upd_other:
  assumes "\<And>r. ws_id r = wid \<Longrightarrow> ws_id (f r) = wid" and "wid' \<noteq> wid"
  shows "rowOf (w\<lparr>workspacesT := updateWhere (\<lambda>r. ws_id r = wid) f (workspacesT w)\<rparr>) wid' = rowOf w wid'"
proof -
  have "selectOne (\<lambda>r. ws_id r = wid') (updateWhere (\<lambda>r. ws_id r = wid) f rows)
      = selectOne (\<lambda>r. ws_id r = wid') rows" for rows
    using assms by (induction rows) auto
  then show ?thesis by (simp add: rowOf_def)
qed

lemma rowOf_frame [simp]:
  "rowOf (w\<lparr>tick := a\<rparr>) wid = rowOf w wid"
  "rowOf (w\<lparr>now := b\<rparr>) wid = rowOf w wid"
  "rowOf (w\<lparr>trace := c\<rparr>) wid = rowOf w wid"
  "rowOf (w\<lparr>sessionsT := d\<rparr>) wid = rowOf w wid"
  "rowOf (w\<lparr>kvT := e\<rparr>) wid = rowOf w wid"
  "rowOf (w\<lparr>forwardsT := f\<rparr>) wid = rowOf w wid"
  by (simp_all add: rowOf_def)

lemma ws_id_rows [simp]:
  "ws_id (applyPatch p r) = ws_id r" "ws_id (finishRow oc t r) = ws_id r"
  "ws_id (setRelease rel r) = ws_id r" "ws_id (bumpRow n b rel t r) = ws_id r"
  by (auto simp: applyPatch_def finishRow_def setRelease_def bumpRow_def split: runOutcome.splits)

text \<open>
  What a step does to one row, as a rule: the row becomes \<open>f w r\<close>; nothing else of the
  database moves.
\<close>

lemma wp_updWs_row:
  assumes "rowOf w wid = Some r" and "\<And>r'. ws_id r' = wid \<Longrightarrow> ws_id (f w r') = wid"
    and "\<And>w'. rowOf w' wid = Some (f w r) \<Longrightarrow> sessionsT w' = sessionsT w \<Longrightarrow>
        forwardsT w' = forwardsT w \<Longrightarrow> trace w' = trace w \<Longrightarrow> now w' = now w \<Longrightarrow> tick w' = tick w
        \<Longrightarrow> kvT w' = kvT w \<Longrightarrow> (\<And>v. v \<noteq> wid \<Longrightarrow> rowOf w' v = rowOf w v) \<Longrightarrow> Q () w'"
  shows "wp (updWs wid f) Q E w"
  unfolding wp_updWs
  by (rule assms(3)) (simp_all add: rowOf_upd assms rowOf_upd_other)

text \<open>
  A finished run always clears its id, whether it succeeded or not; a failed one leaves the
  row in \<open>error\<close> with at most 500 characters of the reason.
\<close>

lemma finishRow_clears: "workflowRunId (finishRow oc t r) = None
    \<and> workflowRunStartedAt (finishRow oc t r) = None"
  by (auto simp: finishRow_def split: runOutcome.splits)

lemma finishRow_error: "ws_state (finishRow (RunError e None) t r) = ErrorState
    \<and> stateReason (finishRow (RunError e None) t r) = Some (take 500 e)"
  by (simp add: finishRow_def)

end
