(* ===== verification/SandboxSteps.thy ===== *)
theory SandboxSteps
  imports DbSteps
begin

text \<open>
  The workflow steps that talk to the sandbox platform (\<open>workflows/steps/sandbox-steps.ts\<close>).
  A step that can throw something else than a \<open>FatalError\<close> is wrapped in the runtime's retry
  loop \<open>step\<close>; \<open>fail\<close> decides which platform errors are worth a retry.
\<close>

definition hostFor :: "handle \<Rightarrow> int \<Rightarrow> string option" where
  "hostFor h port = h_domain h port"

definition hostsOf :: "env \<Rightarrow> handle \<Rightarrow> err + sessionHosts" where
  "hostsOf e h =
     (let slots = concat (map (\<lambda>slot. if truthy (hostFor h slot)
                    then [(showInt slot, nullish (hostFor h slot) [])] else []) proxySlots);
          rpc = hostFor h (ZS_RPC_PORT e); health = hostFor h (ZS_HEALTH_PORT e) in
      if \<not> truthy rpc \<or> \<not> truthy health
      then Inl (FatalError (''sandbox_missing_routes:'' @ h_name h))
      else Inr \<lparr>sh_rpcHost = nullish rpc [], sh_healthHost = nullish health [], sh_slotHosts = slots,
        sh_sessionId = nullish (h_currentSessionId h) [], sh_expiresAt = h_expiresAt h\<rparr>)"

definition ofSum :: "err + 'a \<Rightarrow> 'a io" where
  "ofSum r = (case r of Inl e \<Rightarrow> throwE e | Inr x \<Rightarrow> retE x)"

definition fail :: "err \<Rightarrow> 'a io" where
  "fail e = (case e of
      SandboxError code retryable msg \<Rightarrow>
        if retryable then throwE (RetryableError (''sandbox_'' @ sandboxCodeText code))
        else throwE (FatalError (''sandbox_'' @ sandboxCodeText code @ '': '' @ msg))
    | _ \<Rightarrow> throwE e)"

definition loadWorkspaceRow :: "string \<Rightarrow> workspace io" where
  "loadWorkspaceRow workspaceId =
     bindE (reloadWorkspace workspaceId) (\<lambda>row. case row of
        None \<Rightarrow> throwE (FatalError (''workspace_missing:'' @ workspaceId))
      | Some r \<Rightarrow> if deletedAt r \<noteq> None then throwE (FatalError (''workspace_missing:'' @ workspaceId))
          else retE r)"

text \<open>\<open>handle.runDetached\<close>, and \<open>sandboxApi().get(name, \<dots>)\<close> with its errors mapped or dropped.\<close>

definition runDetached :: "platform \<Rightarrow> string \<Rightarrow> string list \<Rightarrow> (string \<times> string) list \<Rightarrow> string io" where
  "runDetached pf name args e = extE pf (\<lambda>_. EvRunDetached name args e) (\<lambda>n. pf_runDetached pf n name args)"

definition getOrFail :: "platform \<Rightarrow> string \<Rightarrow> bool \<Rightarrow> handle option io" where
  "getOrFail pf name resume =
     bindE (catchE (apiGet pf name resume) fail) (\<lambda>r. retE (map_option fst r))"

definition getOrNull :: "platform \<Rightarrow> string \<Rightarrow> handle option io" where
  "getOrNull pf name =
     bindE (catchE (apiGet pf name False) (\<lambda>_. retE None)) (\<lambda>r. retE (map_option fst r))"

definition startSupervisor :: "platform \<Rightarrow> handle \<Rightarrow> workspace \<Rightarrow> string \<Rightarrow> (string \<times> int) io" where
  "startSupervisor pf h ws mode =
     bindE (rotateSandboxToken pf (ws_id ws)) (\<lambda>(token, generation).
     bindE (ofSum (supervisorEnvFor (pf_env pf) ws token)) (\<lambda>supervisorEnv.
     bindE (runDetached pf (h_name h) [''zs-agent'', mode] supervisorEnv) (\<lambda>cmdId.
     thenE (updWs (ws_id ws) (\<lambda>w r. r\<lparr>supervisorCmdId := Some cmdId, updatedAt := now w\<rparr>))
       (retE (cmdId, generation)))))"

record createdSandbox = sessionHosts +
  cs_name :: string
  cs_region :: string

record resumedSandbox = sessionHosts +
  rs_cmdId :: string
  rs_tokenGeneration :: int

definition stepCreateSandbox :: "platform \<Rightarrow> createSandboxInput \<Rightarrow> createdSandbox io" where
  "stepCreateSandbox pf input = step pf
     (bindE (catchE (extE pf (\<lambda>_. EvCreate (ci_name input)) (\<lambda>n. pf_create pf n input)) fail) (\<lambda>h0.
      bindE (if h_status h0 \<noteq> StRunning
             then bindE (getOrFail pf (ci_name input) True) (\<lambda>got. case got of
                    None \<Rightarrow> throwE (FatalError (''sandbox_missing:'' @ ci_name input))
                  | Some h \<Rightarrow> retE h)
             else retE h0) (\<lambda>h.
      bindE (ofSum (hostsOf (pf_env pf) h)) (\<lambda>hosts.
      retE (sessionHosts.extend hosts (createdSandbox.fields (h_name h) (h_region h)))))))"

definition waitCommand :: "platform \<Rightarrow> string \<Rightarrow> string \<Rightarrow> int \<Rightarrow> int io" where
  "waitCommand pf name cmdId timeoutMs =
     extE pf (\<lambda>r. EvWait name cmdId (case r of Inl _ \<Rightarrow> None | Inr c \<Rightarrow> Some c))
       (\<lambda>n. pf_wait pf n name cmdId timeoutMs)"

definition commandAlive :: "platform \<Rightarrow> handle \<Rightarrow> string \<Rightarrow> bool io" where
  "commandAlive pf h cmdId =
     catchE (thenE (waitCommand pf (h_name h) cmdId 1000) (retE False))
       (\<lambda>e. case e of SandboxError Not_found _ _ \<Rightarrow> retE False | _ \<Rightarrow> retE True)"

text \<open>The \<open>onResume\<close> hook runs inside \<open>get\<close>, so what it throws also goes through \<open>fail\<close>.\<close>

definition stepResumeSandbox :: "platform \<Rightarrow> string \<Rightarrow> string \<Rightarrow> resumedSandbox option io" where
  "stepResumeSandbox pf workspaceId name = step pf
     (bindE (loadWorkspaceRow workspaceId) (\<lambda>ws.
      bindE (catchE
         (bindE (apiGet pf name True) (\<lambda>got. case got of
            None \<Rightarrow> retE None
          | Some (h, resumed) \<Rightarrow>
              if resumed then bindE (startSupervisor pf h ws ''resume'') (\<lambda>s. retE (Some (h, Some s)))
              else retE (Some (h, None)))) fail) (\<lambda>got.
      case got of
        None \<Rightarrow> retE None
      | Some (h, hooked) \<Rightarrow>
          bindE (case hooked of
              Some s \<Rightarrow> retE s
            | None \<Rightarrow>
                bindE (loadWorkspaceRow workspaceId) (\<lambda>current.
                bindE (if truthy (supervisorCmdId current)
                       then commandAlive pf h (nullish (supervisorCmdId current) []) else retE False)
                (\<lambda>alive. if alive
                  then retE (nullish (supervisorCmdId current) [], sandboxTokenGeneration current)
                  else startSupervisor pf h current ''resume''))) (\<lambda>(cmdId, generation).
          bindE (ofSum (hostsOf (pf_env pf) h)) (\<lambda>hosts.
          retE (Some (sessionHosts.extend hosts (resumedSandbox.fields cmdId generation))))))))"

definition stepResumeSandboxQuiet :: "platform \<Rightarrow> string \<Rightarrow> string option io" where
  "stepResumeSandboxQuiet pf name = step pf
     (bindE (getOrFail pf name True) (\<lambda>got.
      retE (map_option (\<lambda>h. nullish (h_currentSessionId h) []) got)))"

definition stepStartSupervisor :: "platform \<Rightarrow> string \<Rightarrow> string \<Rightarrow> (string \<times> int) io" where
  "stepStartSupervisor pf workspaceId name = step pf
     (bindE (loadWorkspaceRow workspaceId) (\<lambda>ws.
      bindE (getOrFail pf name False) (\<lambda>got. case got of
        None \<Rightarrow> throwE (FatalError (''sandbox_missing:'' @ name))
      | Some h \<Rightarrow> startSupervisor pf h ws ''start'')))"

definition bootReason :: "healthProbe \<Rightarrow> string" where
  "bootReason p = ''boot:'' @ phaseText (hp_phase p)"

definition stepProbeHealth :: "platform \<Rightarrow> string \<Rightarrow> string \<Rightarrow> healthProbe option io" where
  "stepProbeHealth pf workspaceId healthHost =
     bindE (probeHealth pf healthHost) (\<lambda>probe.
     thenE (case probe of None \<Rightarrow> retE ()
       | Some p \<Rightarrow>
           bindE (reloadWorkspace workspaceId) (\<lambda>row. case row of None \<Rightarrow> retE ()
           | Some r \<Rightarrow> whenE (ws_state r \<noteq> Running \<and> stateReason r \<noteq> Some (bootReason p))
               (updWs workspaceId (\<lambda>w r. r\<lparr>stateReason := Some (bootReason p), updatedAt := now w\<rparr>))))
       (retE probe))"

definition stepSignalSupervisor :: "platform \<Rightarrow> string \<Rightarrow> string option \<Rightarrow> unit io" where
  "stepSignalSupervisor pf name cmdId =
     (if \<not> truthy cmdId then retE ()
      else bindE (getOrNull pf name) (\<lambda>got. case got of None \<Rightarrow> retE ()
        | Some h \<Rightarrow> if h_status h \<noteq> StRunning then retE ()
            else catchE (extE pf (\<lambda>_. EvKill (h_name h) (nullish cmdId []))
                   (\<lambda>n. pf_kill pf n (h_name h) (nullish cmdId []))) (\<lambda>_. retE ())))"

definition stepWaitForCommandExit :: "platform \<Rightarrow> string \<Rightarrow> string \<Rightarrow> int \<Rightarrow> int option io" where
  "stepWaitForCommandExit pf name cmdId timeoutMs =
     bindE (getOrNull pf name) (\<lambda>got. case got of None \<Rightarrow> retE None
     | Some h \<Rightarrow> if h_status h \<noteq> StRunning then retE None
         else catchE (bindE (waitCommand pf (h_name h) cmdId timeoutMs) (\<lambda>c. retE (Some c)))
                (\<lambda>_. retE None))"

definition stopVm :: "platform \<Rightarrow> handle \<Rightarrow> stopResult io" where
  "stopVm pf h = extE pf (\<lambda>_. EvStopVm (h_name h)) (\<lambda>n. pf_stop pf n (h_name h))"

definition zeroStop :: stopResult where
  "zeroStop = \<lparr>sr_snapshotId = None, sr_snapshotSizeBytes = None\<rparr>"

definition stepStopSandbox :: "platform \<Rightarrow> string \<Rightarrow> stopResult option io" where
  "stepStopSandbox pf name = step pf
     (bindE (getOrFail pf name False) (\<lambda>got. case got of None \<Rightarrow> retE None
      | Some h \<Rightarrow> if h_status h = StStopped \<or> h_status h = StFailed \<or> h_status h = StAborted
          then retE (Some zeroStop) else bindE (stopVm pf h) (\<lambda>r. retE (Some r))))"

definition stepStopSandboxDiscard :: "platform \<Rightarrow> string \<Rightarrow> unit io" where
  "stepStopSandboxDiscard pf name = step pf
     (bindE (getOrFail pf name False) (\<lambda>got. case got of None \<Rightarrow> retE ()
      | Some h \<Rightarrow> if h_status h = StStopped then retE () else thenE (stopVm pf h) (retE ())))"

definition stepPeekSandbox :: "platform \<Rightarrow> string \<Rightarrow> (sandboxStatus \<times> int option) option io" where
  "stepPeekSandbox pf name =
     bindE (getOrNull pf name) (\<lambda>got. retE (map_option (\<lambda>h. (h_status h, h_expiresAt h)) got))"

definition stepExtendTimeout :: "platform \<Rightarrow> string \<Rightarrow> int \<Rightarrow> unit io" where
  "stepExtendTimeout pf name ms = step pf
     (bindE (getOrNull pf name) (\<lambda>got. case got of None \<Rightarrow> retE ()
      | Some h \<Rightarrow> if h_status h \<noteq> StRunning then retE ()
          else extE pf (\<lambda>_. EvExtend (h_name h) ms) (\<lambda>n. pf_extend pf n (h_name h) ms)))"

definition quietly :: "'a io \<Rightarrow> unit io" where
  "quietly m = catchE (thenE m (retE ())) (\<lambda>_. retE ())"

definition stepDeleteSandbox :: "platform \<Rightarrow> string \<Rightarrow> bool \<Rightarrow> unit io" where
  "stepDeleteSandbox pf name deleteSnapshots =
     bindE (getOrNull pf name) (\<lambda>got. case got of None \<Rightarrow> retE ()
     | Some h \<Rightarrow>
         thenE (whenE (h_status h = StRunning \<or> h_status h = StPending) (quietly (stopVm pf h)))
         (thenE (whenE deleteSnapshots
             (bindE (catchE (extE pf (\<lambda>_. EvSnapshots (h_name h)) (\<lambda>n. pf_snapshots pf n (h_name h)))
                       (\<lambda>_. retE [])) (\<lambda>ids.
              forE ids (\<lambda>i. quietly (extE pf (\<lambda>_. EvDeleteSnapshot i) (\<lambda>n. pf_deleteSnapshot pf n i))))))
         (quietly (extE pf (\<lambda>_. EvDeleteVm (h_name h)) (\<lambda>n. pf_delete pf n (h_name h))))))"

definition ARCHIVE_PATHS :: "string list" where
  "ARCHIVE_PATHS = [''workspaces'', ''vercel/.local/share/zed'']"

definition ARCHIVE_TMP :: string where "ARCHIVE_TMP = ''/tmp/zs-rebuild.tgz''"

definition runCmd :: "platform \<Rightarrow> handle \<Rightarrow> string list \<Rightarrow> (int \<times> string) io" where
  "runCmd pf h args = extE pf (\<lambda>_. EvRun (h_name h) args) (\<lambda>n. pf_run pf n (h_name h) args)"

definition stepStartArchive :: "platform \<Rightarrow> string \<Rightarrow> string io" where
  "stepStartArchive pf name = step pf
     (bindE (getOrFail pf name True) (\<lambda>got. case got of
        None \<Rightarrow> throwE (FatalError (''sandbox_missing:'' @ name))
      | Some h \<Rightarrow>
          let kernels = ''vercel/.local/share/jupyter/kernels'' in
          bindE (runCmd pf h [''test'', ''-d'', ''/'' @ kernels]) (\<lambda>(exitCode, _).
          if exitCode > 1 then throwE (FatalError ''kernelspec_archive_check_failed'')
          else runDetached pf (h_name h) ([''tar'', ''czf'', ARCHIVE_TMP, ''-C'', ''/''] @ ARCHIVE_PATHS
                 @ (if exitCode = 0 then [kernels] else [])) [])))"

text \<open>\<open>/^([0-9a-f]{64})/\<close> on the trimmed output of \<open>sha256sum\<close>.\<close>

definition leadingDigest :: "string \<Rightarrow> string option" where
  "leadingDigest out = (let t = dropWhile isSpace out in
     if 64 \<le> length t \<and> list_all lowerHex (take 64 t) then Some (take 64 t) else None)"

record archiveResult =
  ar_blobPathname :: string
  ar_bytes :: int
  ar_sha256 :: "string option"

definition stepFinishArchive :: "platform \<Rightarrow> string \<Rightarrow> string \<Rightarrow> archiveResult io" where
  "stepFinishArchive pf name workspaceId = step pf
     (bindE (getOrFail pf name True) (\<lambda>got. case got of
        None \<Rightarrow> throwE (FatalError (''sandbox_missing:'' @ name))
      | Some h \<Rightarrow>
          bindE (runCmd pf h [''sha256sum'', ARCHIVE_TMP]) (\<lambda>(exitCode, stdout).
          let sha256 = (if exitCode = 0 then leadingDigest stdout else None) in
          bindE (extE pf (\<lambda>_. EvReadFile ARCHIVE_TMP) (\<lambda>n. pf_readFile pf n (h_name h) ARCHIVE_TMP)) (\<lambda>stream.
          if \<not> stream then throwE (FatalError ''archive_missing'')
          else bindE (getE now) (\<lambda>t.
            let pathname = blobPathnameFor workspaceId t sha256 in
            bindE (extE pf (\<lambda>_. EvBlobPut pathname) (\<lambda>n. pf_blobPut pf n pathname)) (\<lambda>(stored, bytes).
            retE \<lparr>ar_blobPathname = stored, ar_bytes = bytes, ar_sha256 = sha256\<rparr>))))))"

definition stepDeleteBlob :: "platform \<Rightarrow> string \<Rightarrow> unit io" where
  "stepDeleteBlob pf pathname =
     quietly (extE pf (\<lambda>_. EvBlobDel pathname) (\<lambda>n. pf_blobDel pf n pathname))"

definition stepListOrphanSandboxes :: "platform \<Rightarrow> string list \<Rightarrow> string list io" where
  "stepListOrphanSandboxes pf knownNames = step pf
     (bindE (extE pf (\<lambda>_. EvListVms) (\<lambda>n. pf_listByTag pf n (envTagText (envTag (pf_env pf))))) (\<lambda>rows.
      retE (map fst (filter (\<lambda>(name, st). name \<notin> set knownNames \<and> st \<noteq> StSnapshotting) rows))))"

section \<open>What every step leaves alone\<close>

text \<open>
  The columns of a row no platform step writes: everything but the supervisor's command, the
  bearer and the boot progress. \<open>harmless\<close> calls destroy neither a sandbox, nor a snapshot
  (which is only reached by listing its sandbox), nor an archive.
\<close>

definition rowCore :: "workspace \<Rightarrow> workspace" where
  "rowCore r = r\<lparr>supervisorCmdId := None, sandboxTokenHash := None, sandboxTokenGeneration := 0,
     stateReason := None, updatedAt := 0\<rparr>"

fun harmless :: "event \<Rightarrow> bool" where
  "harmless (EvDeleteVm s) = False"
| "harmless (EvSnapshots s) = False"
| "harmless (EvBlobDel b) = False"
| "harmless e = True"

text \<open>
  The contract between an invariant and the steps: it survives a call that \<open>P\<close> allows, a draw
  of random values, a wait, and the columns the steps do write. Every step then keeps it.
\<close>

text \<open>\<open>Sandbox.get({ name })\<close> returns the sandbox of that name: what a delete relies on.\<close>

definition handlesNamed :: "platform \<Rightarrow> bool" where
  "handlesNamed pf \<longleftrightarrow> (\<forall>n name r h b. pf_get pf n name r = Inr (Some (h, b)) \<longrightarrow> h_name h = name)"

lemma wp_apiGet [wp_simps]: "wp (apiGet pf name resume) Q E w =
    (let w' = w\<lparr>tick := Suc (tick w), now := now w + int (pf_elapsed pf (tick w)),
       trace := trace w @ [EvGet name resume]\<rparr> in
     (case pf_get pf (tick w) name resume of Inl e \<Rightarrow> E e w' | Inr x \<Rightarrow> Q x w'))"
  by (simp add: apiGet_def wp_simps)

lemma wp_getOrNull: "wp (getOrNull pf name) Q E w =
    (let w' = w\<lparr>tick := Suc (tick w), now := now w + int (pf_elapsed pf (tick w)),
       trace := trace w @ [EvGet name False]\<rparr> in
     Q (case pf_get pf (tick w) name False of Inl e \<Rightarrow> None | Inr x \<Rightarrow> map_option fst x) w')"
  by (simp add: getOrNull_def wp_simps Let_def split: sum.splits)

lemma wp_getOrNull_name: "handlesNamed pf \<Longrightarrow>
    wp (getOrNull pf name) (\<lambda>r _. \<forall>h. r = Some h \<longrightarrow> h_name h = name) (\<lambda>_ _. True) w"
  unfolding wp_getOrNull Let_def handlesNamed_def by (auto split: sum.split) blast

locale step_frame =
  fixes P :: "event \<Rightarrow> bool" and I :: "world \<Rightarrow> bool"
  assumes allows: "harmless e \<Longrightarrow> P e"
    and call: "I w \<Longrightarrow> P e \<Longrightarrow> I (w\<lparr>tick := Suc (tick w), now := now w + int d, trace := trace w @ [e]\<rparr>)"
    and draw: "I w \<Longrightarrow> I (w\<lparr>tick := Suc (tick w)\<rparr>)"
    and wait: "I w \<Longrightarrow> 0 \<le> (t::int) \<Longrightarrow> I (w\<lparr>now := now w + t\<rparr>)"
    and sup: "I w \<Longrightarrow> (\<And>r. rowCore (f r) = rowCore r) \<Longrightarrow>
      I (w\<lparr>workspacesT := updateWhere (\<lambda>r. ws_id r = wid) f (workspacesT w)\<rparr>)"
begin

lemma keeps_ext: "(\<And>x. P (ev x)) \<Longrightarrow> keeps (ext pf ev f) I"
  by (rule keepsI) (simp add: wp_simps call)

lemma keeps_extE: "(\<And>x. P (ev x)) \<Longrightarrow> keeps (extE pf ev f) I"
  unfolding extE_def by (intro keeps_shape keeps_ext)

lemma keeps_extE': "(\<And>x. harmless (ev x)) \<Longrightarrow> keeps (extE pf ev f) I"
  by (rule keeps_extE) (simp add: allows)

lemma keeps_draw: "keeps (randomBytes pf) I" "keeps (randomUUID pf) I"
  by (simp_all add: keeps_def wp_simps draw)

lemma keeps_sleep: "0 \<le> d \<Longrightarrow> keeps (sleepMs d) I"
  by (simp add: keeps_def wp_simps wait)

lemma keeps_reload: "keeps (reloadWorkspace wid) I"
  unfolding reloadWorkspace_def by (rule keeps_get)

lemma keeps_upd: "(\<And>w r. rowCore (f w r) = rowCore r) \<Longrightarrow> keeps (updWs wid f) I"
  by (simp add: keeps_def wp_simps sup)

lemmas keeps_base = keeps_shape keeps_draw keeps_reload keeps_step

lemma keeps_ofSum: "keeps (ofSum r) I"
  unfolding ofSum_def by (intro keeps_base)

lemma keeps_fail: "keeps (fail e) I"
  unfolding fail_def by (cases e) (auto intro!: keeps_if)

lemma keeps_probeHealth: "keeps (probeHealth pf host) I"
  unfolding probeHealth_def by (rule keeps_ext) (simp add: allows)

lemma keeps_apiGet: "keeps (apiGet pf name resume) I"
  unfolding apiGet_def by (rule keeps_extE') simp

lemma keeps_getOrFail: "keeps (getOrFail pf name resume) I"
  unfolding getOrFail_def by (intro keeps_base keeps_apiGet keeps_fail)

lemma keeps_getOrNull: "keeps (getOrNull pf name) I"
  unfolding getOrNull_def by (intro keeps_base keeps_apiGet)

lemma keeps_loadRow: "keeps (loadWorkspaceRow wid) I"
  unfolding loadWorkspaceRow_def by (intro keeps_base)

lemma keeps_stepLoad: "keeps (stepLoadWorkspace wid) I"
  unfolding stepLoadWorkspace_def by (intro keeps_base)

lemma keeps_rotate: "keeps (rotateSandboxToken pf wid) I"
  unfolding rotateSandboxToken_def
  by (intro keeps_base keeps_upd) (simp add: rowCore_def)

lemma keeps_runDetached: "keeps (runDetached pf name args e) I"
  unfolding runDetached_def by (rule keeps_extE') simp

lemma keeps_startSupervisor: "keeps (startSupervisor pf h ws mode) I"
  unfolding startSupervisor_def
  by (intro keeps_base keeps_rotate keeps_ofSum keeps_runDetached keeps_upd) (simp add: rowCore_def)

lemma keeps_stepCreateSandbox: "keeps (stepCreateSandbox pf input) I"
  unfolding stepCreateSandbox_def
  by (intro keeps_base keeps_ofSum keeps_fail keeps_getOrFail keeps_extE') simp

lemma keeps_waitCommand: "keeps (waitCommand pf name cmd t) I"
  unfolding waitCommand_def by (rule keeps_extE') simp

lemma keeps_commandAlive: "keeps (commandAlive pf h cmd) I"
proof -
  have "keeps (case e of SandboxError Not_found x y \<Rightarrow> retE False | _ \<Rightarrow> retE True) I" for e
    by (auto split: err.split sandboxErrorCode.split)
  then show ?thesis
    unfolding commandAlive_def by (intro keeps_base keeps_waitCommand)
qed

lemma keeps_stepResumeSandbox: "keeps (stepResumeSandbox pf wid name) I"
  unfolding stepResumeSandbox_def
  by (intro keeps_base keeps_ofSum keeps_fail keeps_loadRow keeps_apiGet keeps_startSupervisor
      keeps_commandAlive)

lemma keeps_stepResumeSandboxQuiet: "keeps (stepResumeSandboxQuiet pf name) I"
  unfolding stepResumeSandboxQuiet_def by (intro keeps_base keeps_getOrFail)

lemma keeps_stepStartSupervisor: "keeps (stepStartSupervisor pf wid name) I"
  unfolding stepStartSupervisor_def
  by (intro keeps_base keeps_loadRow keeps_getOrFail keeps_startSupervisor)

lemma keeps_stepProbeHealth: "keeps (stepProbeHealth pf wid host) I"
  unfolding stepProbeHealth_def
  by (intro keeps_base keeps_probeHealth keeps_upd) (simp add: rowCore_def)

lemma keeps_stepSignalSupervisor: "keeps (stepSignalSupervisor pf name cmd) I"
  unfolding stepSignalSupervisor_def
  by (intro keeps_base keeps_getOrNull keeps_extE') simp

lemma keeps_stepWaitForCommandExit: "keeps (stepWaitForCommandExit pf name cmd t) I"
  unfolding stepWaitForCommandExit_def by (intro keeps_base keeps_getOrNull keeps_waitCommand)

lemma keeps_stopVm: "keeps (stopVm pf h) I"
  unfolding stopVm_def by (rule keeps_extE') simp

lemma keeps_stepStopSandbox: "keeps (stepStopSandbox pf name) I"
  unfolding stepStopSandbox_def by (intro keeps_base keeps_getOrFail keeps_stopVm)

lemma keeps_stepStopSandboxDiscard: "keeps (stepStopSandboxDiscard pf name) I"
  unfolding stepStopSandboxDiscard_def by (intro keeps_base keeps_getOrFail keeps_stopVm)

lemma keeps_runCmd: "keeps (runCmd pf h args) I"
  unfolding runCmd_def by (rule keeps_extE') simp

lemma keeps_stepStartArchive: "keeps (stepStartArchive pf name) I"
  unfolding stepStartArchive_def
  by (intro keeps_base keeps_getOrFail keeps_runCmd keeps_runDetached)

lemma keeps_stepFinishArchive: "keeps (stepFinishArchive pf name wid) I"
  unfolding stepFinishArchive_def
  by (intro keeps_base keeps_getOrFail keeps_runCmd keeps_extE') simp_all

lemma keeps_quietly: "keeps m I \<Longrightarrow> keeps (quietly m) I"
  unfolding quietly_def by (intro keeps_base)

lemma keeps_stepDeleteBlob: "P (EvBlobDel b) \<Longrightarrow> keeps (stepDeleteBlob pf b) I"
  unfolding stepDeleteBlob_def by (intro keeps_quietly keeps_extE)

lemma keeps_stepDeleteSandbox:
  assumes "handlesNamed pf" and "P (EvDeleteVm name)" and "P (EvSnapshots name)"
  shows "keeps (stepDeleteSandbox pf name b) I"
proof (rule keepsI)
  fix w assume "I w"
  have got: "wp (getOrNull pf name) (\<lambda>r w'. I w' \<and> (\<forall>h. r = Some h \<longrightarrow> h_name h = name)) (\<lambda>_ w'. I w') w"
    using wp_conj [OF keepsD [OF keeps_getOrNull \<open>I w\<close>] wp_getOrNull_name [OF assms(1)]]
    by (rule wp_mono) auto
  have rest: "keeps (thenE (whenE (h_status h = StRunning \<or> h_status h = StPending) (quietly (stopVm pf h)))
         (thenE (whenE b
             (bindE (catchE (extE pf (\<lambda>_. EvSnapshots (h_name h)) (\<lambda>n. pf_snapshots pf n (h_name h)))
                       (\<lambda>_. retE [])) (\<lambda>ids.
              forE ids (\<lambda>i. quietly (extE pf (\<lambda>_. EvDeleteSnapshot i) (\<lambda>n. pf_deleteSnapshot pf n i))))))
         (quietly (extE pf (\<lambda>_. EvDeleteVm (h_name h)) (\<lambda>n. pf_delete pf n (h_name h)))))) I"
    if "h_name h = name" for h
    by (intro keeps_shape keeps_quietly keeps_stopVm keeps_extE)
      (simp_all add: that assms(2,3) allows)
  show "wp (stepDeleteSandbox pf name b) (\<lambda>_. I) (\<lambda>_. I) w"
    unfolding stepDeleteSandbox_def wp_bind
    by (rule wp_mono [OF got]) (auto split: option.split simp: wp_ret intro: keepsD [OF rest])
qed

lemma keeps_stepListOrphans: "keeps (stepListOrphanSandboxes pf names) I"
  unfolding stepListOrphanSandboxes_def by (intro keeps_base keeps_extE') simp

end


subsection \<open>The invariants\<close>

text \<open>The database but for the supervisor's columns; the clock; the log of calls.\<close>

definition frameOf :: "world \<Rightarrow> workspace list \<times> session list \<times> forward list \<times> settingsDoc list \<times> kvTable" where
  "frameOf w = (map rowCore (workspacesT w), sessionsT w, forwardsT w, docsT w, kvT w)"

definition logs :: "(event \<Rightarrow> bool) \<Rightarrow> event list \<Rightarrow> world \<Rightarrow> bool" where
  "logs P t0 w \<longleftrightarrow> (\<exists>evs. trace w = t0 @ evs \<and> list_all P evs)"

definition sparing :: "string \<Rightarrow> event \<Rightarrow> bool" where
  "sparing name e \<longleftrightarrow> e \<noteq> EvDeleteVm name \<and> e \<noteq> EvSnapshots name \<and> (\<forall>b. e \<noteq> EvBlobDel b)"

lemma logs_refl: "logs P (trace w) w"
  by (simp add: logs_def)

lemma logs_snoc: "logs P t0 w \<Longrightarrow> P e \<Longrightarrow> logs P t0 (w\<lparr>tick := a, now := b, trace := trace w @ [e]\<rparr>)"
  by (auto simp: logs_def)

lemma map_rowCore_upd: "(\<And>r. rowCore (f r) = rowCore r) \<Longrightarrow>
    map rowCore (updateWhere p f rows) = map rowCore rows"
  by (rule map_updateWhere_key)

interpretation dbFrame: step_frame "\<lambda>_. True" "\<lambda>w. frameOf w = X" for X
  by unfold_locales (auto simp: frameOf_def map_rowCore_upd)

interpretation clockFrame: step_frame "\<lambda>_. True" "\<lambda>w. t \<le> now w" for t
  by unfold_locales auto

interpretation logFrame: step_frame "sparing name" "logs (sparing name) t0" for name t0
proof
  show "sparing name e" if "harmless e" for e
    using that by (cases e) (auto simp: sparing_def)
qed (auto simp: logs_def)

text \<open>What the frame says of one row.\<close>

lemma rowCore_fields:
  assumes "rowCore r = rowCore r'"
  shows "ws_id r = ws_id r' \<and> sandboxName r = sandboxName r' \<and> ws_state r = ws_state r'
    \<and> previousSandboxName r = previousSandboxName r' \<and> workflowRunId r = workflowRunId r'
    \<and> restoreBlobPathname r = restoreBlobPathname r' \<and> deletedAt r = deletedAt r'
    \<and> restoreKind r = restoreKind r' \<and> serverBuild r = serverBuild r'
    \<and> currentHealthHost r = currentHealthHost r' \<and> sandboxGeneration r = sandboxGeneration r'"
  using arg_cong [OF assms, of ws_state] arg_cong [OF assms, of previousSandboxName]
      arg_cong [OF assms, of workflowRunId] arg_cong [OF assms, of restoreBlobPathname]
      arg_cong [OF assms, of deletedAt] arg_cong [OF assms, of restoreKind]
      arg_cong [OF assms, of serverBuild] arg_cong [OF assms, of currentHealthHost]
      arg_cong [OF assms, of sandboxGeneration] arg_cong [OF assms, of ws_id]
      arg_cong [OF assms, of sandboxName]
  by (simp add: rowCore_def)

lemma selectOne_core:
  "map rowCore xs = map rowCore ys \<Longrightarrow>
    map_option rowCore (selectOne (\<lambda>r. ws_id r = wid) xs) = map_option rowCore (selectOne (\<lambda>r. ws_id r = wid) ys)"
proof (induction xs arbitrary: ys)
  case Nil
  then show ?case by simp
next
  case (Cons x xs)
  then obtain y ys' where ys: "ys = y # ys'" "rowCore x = rowCore y" "map rowCore xs = map rowCore ys'"
    by (cases ys) auto
  have "ws_id x = ws_id y" using rowCore_fields [OF ys(2)] by blast
  with ys Cons.IH [OF ys(3)] show ?case by simp
qed

lemma frame_row:
  assumes "frameOf w = frameOf v"
  shows "map_option rowCore (rowOf w wid) = map_option rowCore (rowOf v wid)"
  unfolding rowOf_def by (rule selectOne_core) (use assms in \<open>simp add: frameOf_def\<close>)

end
