(* ===== verification/Workflows.thy ===== *)
theory Workflows
  imports SandboxSteps
begin

text \<open>
  The lifecycle workflows (\<open>workflows/*.ts\<close>) and the steps that start and observe a child run
  (\<open>workflows/steps/child-steps.ts\<close>). A workflow body is one action; its waits are \<open>loopE\<close> with
  a fuel computed from the deadline it polls against, and the lemmas below show that the
  deadline always comes first.

  A child run is executed to its end where its parent starts it: between that point and the
  result the parent only polls and sleeps, so nothing of the database is read or written by
  both. What the runtime answers to the polls stays a parameter.
\<close>

section \<open>Waiting\<close>

definition loopFuel :: "int \<Rightarrow> int \<Rightarrow> nat" where
  "loopFuel ceiling period = Suc (Suc (nat (ceiling div period)))"

definition serverUp :: "healthProbe option \<Rightarrow> bool" where
  "serverUp health = (case health of None \<Rightarrow> False
     | Some h \<Rightarrow> hp_serverRunning h \<and> (hp_status h = HsReady \<or> hp_status h = HsDegraded))"

definition phaseName :: "healthProbe option \<Rightarrow> string" where
  "phaseName health = (case health of None \<Rightarrow> ''unreachable'' | Some h \<Rightarrow> phaseText (hp_phase h))"

definition probeBuild :: "healthProbe option \<Rightarrow> string option" where
  "probeBuild health = (case health of None \<Rightarrow> None | Some h \<Rightarrow> hp_build h)"

text \<open>One round of the readiness wait of \<open>createWorkspace\<close> and \<open>connectWorkspace\<close>.\<close>

definition readyRound ::
  "platform \<Rightarrow> workspace \<Rightarrow> string \<Rightarrow> string \<Rightarrow> int \<Rightarrow> unit option io" where
  "readyRound pf ws healthHost cmdId deadline =
     bindE (stepProbeHealth pf (ws_id ws) healthHost) (\<lambda>health.
     if serverUp health
     then (if \<not> buildsCompatible (probeBuild health) (Some (serverBuild ws))
           then throwE (FatalError (''build_mismatch:'' @ nullish (probeBuild health) ''null''))
           else retE (Some ()))
     else bindE (stepWaitForCommandExit pf (sandboxName ws) cmdId 1000) (\<lambda>exit.
       case exit of
         Some c \<Rightarrow> throwE (FatalError (''supervisor_exit:'' @ showInt c @ '':'' @ phaseName health))
       | None \<Rightarrow> bindE (getE now) (\<lambda>t.
           if t > deadline then throwE (FatalError (''health_timeout:'' @ phaseName health))
           else thenE (sleepMs 5000) (retE None))))"

definition awaitReady :: "platform \<Rightarrow> workspace \<Rightarrow> string \<Rightarrow> string \<Rightarrow> int \<Rightarrow> unit io" where
  "awaitReady pf ws healthHost cmdId ceiling =
     bindE (getE now) (\<lambda>t0.
     loopE (loopFuel ceiling 5000) (readyRound pf ws healthHost cmdId (t0 + ceiling)))"

text \<open>The \<open>try \<dots> catch\<close> around a body: a failure is recorded on the row, unless a parent owns it.\<close>

definition asRun :: "string \<Rightarrow> bool \<Rightarrow> 'a io \<Rightarrow> 'a io" where
  "asRun workspaceId child body = catchE body (\<lambda>e.
     thenE (whenE (\<not> child) (stepFinishRun workspaceId (RunError (errString e) None))) (throwE e))"

section \<open>createWorkspace\<close>

definition createWorkspace :: "platform \<Rightarrow> string \<Rightarrow> bool \<Rightarrow> int option \<Rightarrow> unit io" where
  "createWorkspace pf workspaceId child readyCeilingMs = asRun workspaceId child
     (bindE (stepLoadWorkspace workspaceId) (\<lambda>ws.
      bindE (stepPickImage (ws_id ws)) (\<lambda>img.
      bindE (stepBuildCreateInput pf (ws_id ws) img) (\<lambda>createInput.
      bindE (stepCreateSandbox pf createInput) (\<lambda>created.
      thenE (stepRecordSandboxSession (ws_id ws) Creating (Some ''boot:manifest'')
               (sessionHosts.truncate created) (Some (restoreKind ws)) None)
      (bindE (stepStartSupervisor pf (ws_id ws) (sandboxName ws)) (\<lambda>(cmdId, _).
      thenE (awaitReady pf ws (sh_healthHost created) cmdId (nullish readyCeilingMs (35 * 60000)))
      (thenE (stepSetState (ws_id ws) Running (Some None)
               (if truthy (previousSandboxName ws) then noPatch
                else noPatch\<lparr>p_restoreBlobPathname := Some None\<rparr>))
      (whenE (\<not> child) (stepFinishRun (ws_id ws) RunOk))))))))))"

section \<open>connectWorkspace\<close>

definition connectWorkspace :: "platform \<Rightarrow> string \<Rightarrow> bool \<Rightarrow> int option \<Rightarrow> string io" where
  "connectWorkspace pf workspaceId child readyCeilingMs = asRun workspaceId child
     (bindE (stepLoadWorkspace workspaceId) (\<lambda>ws.
      thenE (stepSetState (ws_id ws) Stopped (Some (Some ''resuming'')) noPatch)
      (bindE (stepResumeSandbox pf (ws_id ws) (sandboxName ws)) (\<lambda>got. case got of
         None \<Rightarrow> throwE (FatalError ''sandbox_missing'')
       | Some resumed \<Rightarrow>
      thenE (stepRecordSandboxSession (ws_id ws) Stopped (Some ''boot:manifest'')
               (sessionHosts.truncate resumed) None (Some (Some (rs_cmdId resumed))))
      (thenE (awaitReady pf ws (sh_healthHost resumed) (rs_cmdId resumed)
               (nullish readyCeilingMs (3 * 60000)))
      (thenE (stepSetState (ws_id ws) Running (Some None) noPatch)
      (thenE (whenE (\<not> child) (stepFinishRun (ws_id ws) RunOk))
      (retE (sh_rpcHost resumed)))))))))"

section \<open>stopWorkspace\<close>

definition listenerGone :: "healthProbe option \<Rightarrow> bool" where
  "listenerGone health = (case health of None \<Rightarrow> True
     | Some h \<Rightarrow> hp_status h = HsStopping \<and> \<not> hp_serverRunning h)"

definition drainRound :: "platform \<Rightarrow> string \<Rightarrow> string \<Rightarrow> int \<Rightarrow> unit option io" where
  "drainRound pf workspaceId healthHost deadline =
     bindE (stepProbeHealth pf workspaceId healthHost) (\<lambda>health.
     if listenerGone health then retE (Some ())
     else bindE (getE now) (\<lambda>t. if t > deadline then retE (Some ())
       else thenE (sleepMs 2000) (retE None)))"

definition awaitDrained :: "platform \<Rightarrow> string \<Rightarrow> string \<Rightarrow> unit io" where
  "awaitDrained pf workspaceId healthHost =
     bindE (getE now) (\<lambda>t0.
     loopE (loopFuel 25000 2000) (drainRound pf workspaceId healthHost (t0 + 25000)))"

definition stopWorkspace :: "platform \<Rightarrow> string \<Rightarrow> stopReason \<Rightarrow> bool \<Rightarrow> bool io" where
  "stopWorkspace pf workspaceId reason child = asRun workspaceId child
     (bindE (stepLoadWorkspace workspaceId) (\<lambda>ws.
      if ws_state ws = Stopped
      then thenE (whenE (\<not> child) (stepFinishRun (ws_id ws) RunOk)) (retE False)
      else
        thenE (stepSetState (ws_id ws) Stopping (Some (Some (stopReasonText reason))) noPatch)
        (thenE (stepSignalSupervisor pf (sandboxName ws) (supervisorCmdId ws))
        (thenE (if truthy (supervisorCmdId ws)
                then thenE (stepWaitForCommandExit pf (sandboxName ws)
                              (nullish (supervisorCmdId ws) []) 25000) (retE ())
                else if truthy (currentHealthHost ws)
                then awaitDrained pf (ws_id ws) (nullish (currentHealthHost ws) [])
                else retE ())
        (bindE (stepStopSandbox pf (sandboxName ws)) (\<lambda>res.
         thenE (stepRecordSessionEnd (ws_id ws) (stopReasonText reason))
         (thenE (stepMarkStopped pf (ws_id ws) (stopReasonText reason)
                  (if reason = SrRebuild then Rebuilding else Stopped)
                  (Some (case res of None \<Rightarrow> None | Some r \<Rightarrow> sr_snapshotSizeBytes r)))
         (thenE (whenE (\<not> child) (stepFinishRun (ws_id ws) RunOk)) (retE True)))))))))"

section \<open>Child runs\<close>

text \<open>\<open>err.message\<close> of a thrown value, as a run's failure keeps it.\<close>

fun errMessage :: "err \<Rightarrow> string" where
  "errMessage (ApiError st code) = code"
| "errMessage (FatalError m) = m"
| "errMessage (RetryableError m) = m"
| "errMessage (SandboxError c r m) = m"
| "errMessage (EnvError ks) = concat ks"
| "errMessage (OtherError m) = m"

definition CHILD_TOKEN_TTL_MS :: int where "CHILD_TOKEN_TTL_MS = 7 * 86400000"
definition UNKNOWN_CEILING_MS :: int where "UNKNOWN_CEILING_MS = 45 * 60000"

definition startRun :: "platform \<Rightarrow> lifecycleRun \<Rightarrow> string io" where
  "startRun pf run = extE pf (\<lambda>r. EvStartRun (case r of Inl _ \<Rightarrow> [] | Inr i \<Rightarrow> i) run)
     (\<lambda>n. pf_start pf n run)"

definition runStatusOf :: "platform \<Rightarrow> string \<Rightarrow> runStatus io" where
  "runStatusOf pf runId = ext pf (EvRunStatus runId)
     (\<lambda>n. nullish (pf_runStatus pf n runId) RunUnknown)"

definition stepNewChildToken :: "platform \<Rightarrow> string io" where
  "stepNewChildToken pf = bindE (randomBytes pf) (\<lambda>bytes. retE (newJti bytes))"

text \<open>The run id, and whether this call started the run (it attaches to one already started).\<close>

definition stepStartChild :: "platform \<Rightarrow> string \<Rightarrow> lifecycleRun \<Rightarrow> (string \<times> bool) io" where
  "stepStartChild pf token run = step pf
     (bindE (kvGetE (childRunKey token)) (\<lambda>existing.
      if truthy existing then retE (nullish existing [], False)
      else bindE (startRun pf run) (\<lambda>runId.
        thenE (kvSetE (childRunKey token) runId (Some CHILD_TOKEN_TTL_MS) False)
          (retE (runId, True)))))"

definition stepChildStatus :: "platform \<Rightarrow> string \<Rightarrow> runStatus io" where
  "stepChildStatus pf runId = runStatusOf pf runId"

text \<open>\<open>outcome\<close> is what the child's body threw; the read of the value can itself fail.\<close>

definition stepChildResult ::
  "platform \<Rightarrow> lifecycleWorkflowName \<Rightarrow> string \<Rightarrow> err option \<Rightarrow> unit io" where
  "stepChildResult pf name runId outcome =
     bindE (ext pf (\<lambda>_. EvRunStatus runId RunCompleted) (\<lambda>n.
        case outcome of Some e \<Rightarrow> Some e | None \<Rightarrow> pf_runReturn pf n runId)) (\<lambda>r.
     case r of None \<Rightarrow> retE ()
     | Some e \<Rightarrow> throwE (FatalError (''child_'' @ workflowText name @ ''_failed: '' @ errMessage e)))"

definition childRound ::
  "platform \<Rightarrow> lifecycleWorkflowName \<Rightarrow> string \<Rightarrow> int \<Rightarrow> unit option io" where
  "childRound pf name runId t0 =
     bindE (stepChildStatus pf runId) (\<lambda>status.
     if status = RunCompleted \<or> status = RunFailed \<or> status = RunCancelled then retE (Some ())
     else bindE (getE now) (\<lambda>t.
       if status = RunUnknown \<and> t - t0 > UNKNOWN_CEILING_MS
       then throwE (FatalError (''child_'' @ workflowText name @ ''_lost: run '' @ runId
              @ '' could not be observed''))
       else thenE (sleepMs 5000) (retE None)))"

definition awaitChild ::
  "platform \<Rightarrow> lifecycleWorkflowName \<Rightarrow> string \<Rightarrow> err option \<Rightarrow> unit io" where
  "awaitChild pf name runId outcome =
     bindE (getE now) (\<lambda>t0.
     thenE (loopE (loopFuel UNKNOWN_CEILING_MS 5000) (childRound pf name runId t0))
       (stepChildResult pf name runId outcome))"

definition attempt :: "unit io \<Rightarrow> err option io" where
  "attempt m = catchE (thenE m (retE None)) (\<lambda>e. retE (Some e))"

definition runChild :: "platform \<Rightarrow> lifecycleRun \<Rightarrow> unit io \<Rightarrow> unit io" where
  "runChild pf run body =
     bindE (stepNewChildToken pf) (\<lambda>token.
     bindE (stepStartChild pf token run) (\<lambda>(runId, started).
     bindE (if started then attempt body else retE None) (\<lambda>outcome.
     awaitChild pf (runName run) runId outcome)))"

definition discard :: "'a io \<Rightarrow> unit io" where
  "discard m = thenE m (retE ())"

definition stopChild :: "platform \<Rightarrow> string \<Rightarrow> stopReason \<Rightarrow> unit io" where
  "stopChild pf workspaceId reason =
     runChild pf (StopWorkspaceRun workspaceId reason True)
       (discard (stopWorkspace pf workspaceId reason True))"

definition createChild :: "platform \<Rightarrow> string \<Rightarrow> string \<Rightarrow> unit io" where
  "createChild pf workspaceId userId =
     runChild pf (CreateWorkspaceRun workspaceId userId True)
       (createWorkspace pf workspaceId True None)"

definition connectChild :: "platform \<Rightarrow> string \<Rightarrow> unit io" where
  "connectChild pf workspaceId =
     runChild pf (ConnectWorkspaceRun workspaceId ''system'' True)
       (discard (connectWorkspace pf workspaceId True None))"

section \<open>deleteWorkspace and restartSession\<close>

definition deleteWorkspace :: "platform \<Rightarrow> string \<Rightarrow> bool \<Rightarrow> unit io" where
  "deleteWorkspace pf workspaceId child = asRun workspaceId child
     (bindE (stepLoadWorkspace workspaceId) (\<lambda>ws.
      thenE (whenE (ws_state ws = Running \<or> ws_state ws = Stopping) (stopChild pf (ws_id ws) SrDelete))
      (thenE (stepSetState (ws_id ws) Deleting None noPatch)
      (thenE (stepDeleteSandbox pf (sandboxName ws) True)
      (thenE (whenE (truthy (previousSandboxName ws))
                (stepDeleteSandbox pf (nullish (previousSandboxName ws) []) True))
      (thenE (whenE (truthy (restoreBlobPathname ws))
                (stepDeleteBlob pf (nullish (restoreBlobPathname ws) [])))
      (thenE (stepPurgeWorkspaceRows (ws_id ws))
      (whenE (\<not> child) (stepFinishRun (ws_id ws) RunOk)))))))))"

definition restartSession :: "platform \<Rightarrow> string \<Rightarrow> unit io" where
  "restartSession pf workspaceId = asRun workspaceId False
     (thenE (stopChild pf workspaceId SrCap)
     (thenE (connectChild pf workspaceId)
     (stepFinishRun workspaceId RunOk)))"

section \<open>rebuildWorkspace\<close>

definition ARCHIVE_CEILING_MS :: int where "ARCHIVE_CEILING_MS = 20 * 60000"

definition archiveRound :: "platform \<Rightarrow> string \<Rightarrow> string \<Rightarrow> int \<Rightarrow> unit option io" where
  "archiveRound pf name cmdId deadline =
     bindE (stepWaitForCommandExit pf name cmdId 30000) (\<lambda>exit. case exit of
       Some c \<Rightarrow> if c \<noteq> 0 then throwE (FatalError (''archive_failed:'' @ showInt c)) else retE (Some ())
     | None \<Rightarrow> bindE (getE now) (\<lambda>t.
         if t > deadline then throwE (FatalError ''archive_timeout'')
         else thenE (sleepMs 5000) (retE None)))"

definition archiveGeneration :: "platform \<Rightarrow> string \<Rightarrow> string \<Rightarrow> string io" where
  "archiveGeneration pf name workspaceId =
     bindE (stepStartArchive pf name) (\<lambda>cmdId.
     bindE (getE now) (\<lambda>t0.
     thenE (loopE (loopFuel ARCHIVE_CEILING_MS 5000) (archiveRound pf name cmdId (t0 + ARCHIVE_CEILING_MS)))
     (bindE (stepFinishArchive pf name workspaceId) (\<lambda>a. retE (ar_blobPathname a)))))"

text \<open>The two ways to the archive: the pending one of a failed rebuild, or a new one.\<close>

definition resumeBump :: "platform \<Rightarrow> workspace \<Rightarrow> editorRelease \<Rightarrow> string \<Rightarrow> (string \<times> string) io" where
  "resumeBump pf ws release previous =
     (if restoreKind ws \<noteq> Tarball \<or> \<not> truthy (restoreBlobPathname ws)
      then throwE (FatalError ''rebuild_pointers_inconsistent'')
      else
        thenE (stepSetState (ws_id ws) Rebuilding (Some (Some ''retry'')) noPatch)
        (thenE (stepDeleteSandbox pf (sandboxName ws) True)
        (thenE (stepSetRelease (ws_id ws) release)
        (retE (previous, nullish (restoreBlobPathname ws) [])))))"

definition archiveAndBump :: "platform \<Rightarrow> workspace \<Rightarrow> editorRelease \<Rightarrow> (string \<times> string) io" where
  "archiveAndBump pf ws release =
     thenE (whenE (ws_state ws \<noteq> Stopped) (stopChild pf (ws_id ws) SrRebuild))
     (thenE (stepSetState (ws_id ws) Rebuilding (Some (Some ''archive'')) noPatch)
     (bindE (stepResumeSandboxQuiet pf (sandboxName ws)) (\<lambda>resumed. case resumed of
        None \<Rightarrow> throwE (FatalError (''sandbox_missing:'' @ sandboxName ws))
      | Some _ \<Rightarrow>
     bindE (archiveGeneration pf (sandboxName ws) (ws_id ws)) (\<lambda>blob.
     thenE (stepStopSandboxDiscard pf (sandboxName ws))
     (thenE (stepRecordSessionEnd (ws_id ws) ''rebuild'')
     (bindE (stepBumpGeneration pf (ws_id ws) blob release) (\<lambda>generation.
      retE (gb_oldSandboxName generation, blob))))))))"

definition retireOld :: "platform \<Rightarrow> string \<Rightarrow> string \<Rightarrow> string \<Rightarrow> unit io" where
  "retireOld pf workspaceId previous blob =
     thenE (stepDeleteSandbox pf previous True)
     (thenE (stepSetState workspaceId Running (Some None)
              (noPatch\<lparr>p_previousSandboxName := Some None, p_restoreBlobPathname := Some None\<rparr>))
     (thenE (stepDeleteBlob pf blob)
     (stepFinishRun workspaceId RunOk)))"

definition rebuildWorkspace :: "platform \<Rightarrow> string \<Rightarrow> string \<Rightarrow> editorRelease option \<Rightarrow> unit io" where
  "rebuildWorkspace pf workspaceId userId upgrade = asRun workspaceId False
     (bindE (stepLoadWorkspace workspaceId) (\<lambda>ws.
      bindE (case upgrade of Some r \<Rightarrow> retE r | None \<Rightarrow> stepCurrentRelease pf) (\<lambda>release.
      if upgrade \<noteq> None \<and> sameRelease (releaseOf ws) release \<and> \<not> truthy (previousSandboxName ws)
      then stepFinishRun (ws_id ws) RunOk
      else
        bindE (case previousSandboxName ws of
            Some previous \<Rightarrow> resumeBump pf ws release previous
          | None \<Rightarrow> archiveAndBump pf ws release) (\<lambda>(previous, blob).
        thenE (createChild pf (ws_id ws) userId)
        (retireOld pf (ws_id ws) previous blob)))))"

section \<open>gc\<close>

record gcResult =
  gc_deletedWorkspaces :: int
  gc_orphanedSandboxes :: int
  gc_warned :: int
  gc_staleSessions :: int

definition gc :: "platform \<Rightarrow> int \<Rightarrow> gcResult io" where
  "gc pf t =
     bindE (stepWarnRetention t) (\<lambda>warned.
     bindE (stepGcCandidates t) (\<lambda>(expired, known).
     thenE (forE expired (\<lambda>i. runChild pf (DeleteWorkspaceRun i ''system'' False) (deleteWorkspace pf i False)))
     (bindE (stepListOrphanSandboxes pf known) (\<lambda>orphans.
     thenE (forE orphans (\<lambda>name. stepDeleteSandbox pf name True))
     (bindE (stepCloseStaleSessions t) (\<lambda>stale.
     retE \<lparr>gc_deletedWorkspaces = int (length expired), gc_orphanedSandboxes = int (length orphans),
       gc_warned = warned, gc_staleSessions = stale\<rparr>))))))"

end
