(* ===== verification/WorkflowFrames.thy ===== *)
theory WorkflowFrames
  imports Workflows
begin

text \<open>
  What the workflows leave alone, and that their waits end. \<open>run_frame\<close> extends the contract
  of the platform steps to the database steps a child run makes: any invariant of the pointers
  of a row (its sandbox names, its deletion, its run id), of the clock or of the log of calls
  is kept by a whole create, connect or stop child.
\<close>

definition pointers :: "workspace \<Rightarrow> string \<times> string \<times> string option \<times> int option \<times> string option" where
  "pointers r = (ws_id r, sandboxName r, previousSandboxName r, deletedAt r, workflowRunId r)"

lemma pointers_core: "rowCore r = rowCore r' \<Longrightarrow> pointers r = pointers r'"
  using rowCore_fields [of r r'] by (simp add: pointers_def)

locale run_frame = step_frame P I for P I +
  assumes kv: "I w \<Longrightarrow> I (w\<lparr>kvT := x\<rparr>)"
    and sess: "I w \<Longrightarrow> I (w\<lparr>sessionsT := y\<rparr>)"
    and row: "I w \<Longrightarrow> (\<And>r. pointers (f r) = pointers r) \<Longrightarrow>
      I (w\<lparr>workspacesT := updateWhere (\<lambda>r. ws_id r = wid) f (workspacesT w)\<rparr>)"
begin

lemma keeps_updRow: "(\<And>w r. pointers (f w r) = pointers r) \<Longrightarrow> keeps (updWs wid f) I"
  by (simp add: keeps_def wp_simps row)

lemma keeps_stepSetState: "p_previousSandboxName p = None \<Longrightarrow> keeps (stepSetState wid st reason p) I"
  unfolding stepSetState_def by (rule keeps_updRow) (simp add: pointers_def applyPatch_def)

lemma keeps_stepRecord: "keeps (stepRecordSandboxSession wid st reason hosts rk cmd) I"
  unfolding stepRecordSandboxSession_def by (rule keeps_updRow) (simp add: pointers_def)

lemma keeps_stepMarkStopped: "keeps (stepMarkStopped pf wid reason st snap) I"
  unfolding stepMarkStopped_def by (rule keeps_updRow) (simp add: pointers_def)

lemma keeps_stepSetRelease: "keeps (stepSetRelease wid rel) I"
  unfolding stepSetRelease_def by (rule keeps_updRow) (simp add: pointers_def setRelease_def)

lemma keeps_stepRecordSessionEnd: "keeps (stepRecordSessionEnd wid reason) I"
  unfolding stepRecordSessionEnd_def closeOpenSession_def by (rule keeps_mod) (rule sess)

lemma keeps_kvE: "keeps (kvGetE key) I" "keeps (kvSetE key v ex nx) I"
  by (auto simp: keeps_def wp_simps kv)

lemma keeps_pick: "keeps (stepPickImage wid) I"
  unfolding stepPickImage_def by (intro keeps_base)

lemma keeps_buildInput: "keeps (stepBuildCreateInput pf wid img) I"
  unfolding stepBuildCreateInput_def by (intro keeps_base)

lemma keeps_awaitReady: "keeps (awaitReady pf ws host cmd ceiling) I"
  unfolding awaitReady_def readyRound_def
  by (intro keeps_base keeps_loopE keeps_stepProbeHealth keeps_stepWaitForCommandExit keeps_sleep) simp

lemma keeps_awaitDrained: "keeps (awaitDrained pf wid host) I"
  unfolding awaitDrained_def drainRound_def
  by (intro keeps_base keeps_loopE keeps_stepProbeHealth keeps_sleep) simp

lemma keeps_archive: "keeps (archiveGeneration pf name wid) I"
  unfolding archiveGeneration_def archiveRound_def
  by (intro keeps_base keeps_loopE keeps_stepStartArchive keeps_stepFinishArchive
      keeps_stepWaitForCommandExit keeps_sleep) simp

text \<open>A run that is not a child also writes its own end, which the invariant has to survive.\<close>

definition finishSafe :: "bool \<Rightarrow> bool" where
  "finishSafe child \<longleftrightarrow> (\<forall>v oc. \<not> child \<longrightarrow> keeps (stepFinishRun v oc) I)"

lemma finishSafe_child [simp]: "finishSafe True"
  by (simp add: finishSafe_def)

lemma keeps_finish: "finishSafe child \<Longrightarrow> keeps (whenE (\<not> child) (stepFinishRun v oc)) I"
  by (intro keeps_when) (simp add: finishSafe_def)

lemma keeps_asRun: "finishSafe child \<Longrightarrow> keeps m I \<Longrightarrow> keeps (asRun wid child m) I"
  unfolding asRun_def by (intro keeps_catch keeps_then keeps_throw keeps_finish)

lemma keeps_createWorkspace: "finishSafe child \<Longrightarrow> keeps (createWorkspace pf wid child ceiling) I"
  unfolding createWorkspace_def
  by (intro keeps_asRun keeps_finish keeps_base keeps_stepLoad keeps_pick keeps_buildInput
      keeps_stepCreateSandbox keeps_stepRecord keeps_stepStartSupervisor keeps_awaitReady
      keeps_stepSetState) (simp_all add: noPatch_def finishSafe_def)

lemma keeps_connectWorkspace: "finishSafe child \<Longrightarrow> keeps (connectWorkspace pf wid child ceiling) I"
  unfolding connectWorkspace_def
  by (intro keeps_asRun keeps_finish keeps_base keeps_stepLoad keeps_stepResumeSandbox
      keeps_stepRecord keeps_awaitReady keeps_stepSetState) (simp_all add: noPatch_def finishSafe_def)

lemma keeps_stopWorkspace: "finishSafe child \<Longrightarrow> keeps (stopWorkspace pf wid reason child) I"
  unfolding stopWorkspace_def
  by (intro keeps_asRun keeps_finish keeps_base keeps_stepLoad keeps_stepSignalSupervisor
      keeps_stepWaitForCommandExit keeps_awaitDrained keeps_stepStopSandbox keeps_stepMarkStopped
      keeps_stepRecordSessionEnd keeps_stepSetState) (simp_all add: noPatch_def finishSafe_def)

lemma keeps_startRun: "keeps (startRun pf run) I"
  unfolding startRun_def by (rule keeps_extE') simp

lemma keeps_awaitChild: "keeps (awaitChild pf name runId outcome) I"
  unfolding awaitChild_def childRound_def stepChildStatus_def runStatusOf_def stepChildResult_def
  by (intro keeps_base keeps_loopE keeps_ext keeps_sleep allows) simp_all

lemma keeps_runChild: "keeps body I \<Longrightarrow> keeps (runChild pf run body) I"
  unfolding runChild_def stepNewChildToken_def stepStartChild_def attempt_def
  by (intro keeps_base keeps_kvE keeps_startRun keeps_awaitChild)

lemma keeps_stopChild: "keeps (stopChild pf wid reason) I"
  unfolding stopChild_def discard_def by (intro keeps_runChild keeps_base keeps_stopWorkspace finishSafe_child)

lemma keeps_createChild: "keeps (createChild pf wid user) I"
  unfolding createChild_def by (intro keeps_runChild keeps_createWorkspace finishSafe_child)

lemma keeps_connectChild: "keeps (connectChild pf wid) I"
  unfolding connectChild_def discard_def by (intro keeps_runChild keeps_base keeps_connectWorkspace finishSafe_child)

end

text \<open>The pointers of every row; the clock.\<close>

definition pointersOf :: "world \<Rightarrow> (string \<times> string \<times> string option \<times> int option \<times> string option) list" where
  "pointersOf w = map pointers (workspacesT w)"

lemma pointers_upd: "(\<And>r. pointers (f r) = pointers r) \<Longrightarrow>
    map pointers (updateWhere p f rows) = map pointers rows"
  by (rule map_updateWhere_key)

interpretation pointerFrame: run_frame "\<lambda>_. True" "\<lambda>w. pointersOf w = X" for X
  by unfold_locales
    (simp_all add: pointersOf_def pointers_upd pointers_upd [OF pointers_core])

interpretation timeFrame: run_frame "\<lambda>_. True" "\<lambda>w. t \<le> now w" for t
  by unfold_locales auto

text \<open>
  Data in safety: since the log \<open>t0\<close> no call destroyed the sandbox \<open>name\<close> or any archive, and
  the row of the workspace, not deleted, still names it.
\<close>

definition namedBy :: "string \<Rightarrow> string \<Rightarrow> world \<Rightarrow> bool" where
  "namedBy wid name w \<longleftrightarrow> (\<exists>r. rowOf w wid = Some r \<and> deletedAt r = None \<and> name \<in> set (liveNames r))"

definition dataSafe :: "string \<Rightarrow> string \<Rightarrow> event list \<Rightarrow> world \<Rightarrow> bool" where
  "dataSafe wid name t0 w \<longleftrightarrow> logs (sparing name) t0 w \<and> namedBy wid name w"

lemma namedBy_frame [simp]:
  "namedBy wid name (w\<lparr>tick := a\<rparr>) = namedBy wid name w"
  "namedBy wid name (w\<lparr>now := b\<rparr>) = namedBy wid name w"
  "namedBy wid name (w\<lparr>trace := c\<rparr>) = namedBy wid name w"
  "namedBy wid name (w\<lparr>sessionsT := d\<rparr>) = namedBy wid name w"
  "namedBy wid name (w\<lparr>kvT := e\<rparr>) = namedBy wid name w"
  by (simp_all add: namedBy_def)

lemma rowOf_upd_gen:
  assumes "\<And>r. ws_id (f r) = ws_id r"
  shows "rowOf (w\<lparr>workspacesT := updateWhere (\<lambda>r. ws_id r = v) f (workspacesT w)\<rparr>) wid
    = (if v = wid then map_option f (rowOf w wid) else rowOf w wid)"
  using rowOf_upd [of v f w] rowOf_upd_other [of v f wid w] assms by auto

lemma namedBy_upd:
  assumes "namedBy wid name w" and "\<And>r. pointers (f r) = pointers r"
  shows "namedBy wid name (w\<lparr>workspacesT := updateWhere (\<lambda>r. ws_id r = v) f (workspacesT w)\<rparr>)"
proof -
  have same: "ws_id (f r) = ws_id r \<and> deletedAt (f r) = deletedAt r \<and> liveNames (f r) = liveNames r" for r
    using assms(2) [of r] by (simp add: pointers_def liveNames_def)
  have "rowOf (w\<lparr>workspacesT := updateWhere (\<lambda>r. ws_id r = v) f (workspacesT w)\<rparr>) wid
      = (if v = wid then map_option f (rowOf w wid) else rowOf w wid)"
    by (rule rowOf_upd_gen) (simp add: same)
  with assms(1) same show ?thesis by (auto simp: namedBy_def)
qed

interpretation safeFrame: run_frame "sparing name" "dataSafe wid name t0" for wid name t0
proof
  show "sparing name e" if "harmless e" for e by (rule logFrame.allows [OF that])
  show "dataSafe wid name t0 (w\<lparr>tick := Suc (tick w), now := now w + int d, trace := trace w @ [e]\<rparr>)"
    if "dataSafe wid name t0 w" "sparing name e" for w e d
    using that by (simp add: dataSafe_def logs_snoc)
  show "dataSafe wid name t0 (w\<lparr>workspacesT := updateWhere (\<lambda>r. ws_id r = v) f (workspacesT w)\<rparr>)"
    if "dataSafe wid name t0 w" "\<And>r. rowCore (f r) = rowCore r" for w f v
    using that namedBy_upd [OF _ pointers_core, of wid name w f v] by (simp add: dataSafe_def logs_def)
  show "dataSafe wid name t0 (w\<lparr>workspacesT := updateWhere (\<lambda>r. ws_id r = v) f (workspacesT w)\<rparr>)"
    if "dataSafe wid name t0 w" "\<And>r. pointers (f r) = pointers r" for w f v
    using that namedBy_upd [of wid name w f v] by (simp add: dataSafe_def logs_def)
qed (simp_all add: dataSafe_def logs_def)

text \<open>A workspace's row never disappears.\<close>

lemma rowOf_None_upd:
  assumes "\<And>r. ws_id (f r) = ws_id r"
  shows "rowOf (w\<lparr>workspacesT := updateWhere (\<lambda>r. ws_id r = v) f (workspacesT w)\<rparr>) wid = None
    \<longleftrightarrow> rowOf w wid = None"
  using rowOf_upd_gen [where f = f and w = w and v = v and wid = wid] assms by simp

lemma pointers_id: "pointers r = pointers r' \<Longrightarrow> ws_id r = ws_id r'"
  by (simp add: pointers_def)

interpretation rowFrame: run_frame "\<lambda>_. True" "\<lambda>w. rowOf w wid \<noteq> None" for wid
  by unfold_locales
    (simp_all add: rowOf_None_upd [OF pointers_id] rowOf_None_upd [OF pointers_id [OF pointers_core]])

lemma rowFrame_finish: "rowFrame.finishSafe wid child"
  unfolding rowFrame.finishSafe_def
  by (simp add: keeps_def wp_simps stepFinishRun_def rowOf_None_upd del: not_None_eq)

end
