(* ===== verification/Lifecycle.thy ===== *)
theory Lifecycle
  imports WorkflowFrames JsonText
begin

text \<open>
  Admission of lifecycle runs (\<open>lib/lifecycle.ts\<close>, \<open>lib/workspace-budget.ts\<close>): one run per
  workspace, under a database lock, within the instance's budget of running sandboxes.
\<close>

section \<open>The budget\<close>

definition ACTIVE_WORKSPACE_STATES :: "workspaceState list" where
  "ACTIVE_WORKSPACE_STATES = [Creating, Running, Stopping, Rebuilding]"

definition countsToward :: "string option \<Rightarrow> workspace \<Rightarrow> bool" where
  "countsToward excludeId r \<longleftrightarrow> deletedAt r = None
     \<and> (truthy excludeId \<longrightarrow> excludeId \<noteq> Some (ws_id r))
     \<and> (ws_state r \<in> set ACTIVE_WORKSPACE_STATES \<or> workflowRunId r \<noteq> None)"

definition assertWorkspaceCapacity :: "platform \<Rightarrow> string option \<Rightarrow> unit io" where
  "assertWorkspaceCapacity pf excludeId =
     bindE (getE (\<lambda>w. int (length (filter (countsToward excludeId) (workspacesT w))))) (\<lambda>count.
     if count \<ge> ZS_MAX_RUNNING_WORKSPACES (pf_env pf) then throwE (ApiError 429 ''workspace_limit'')
     else retE ())"

section \<open>Runs\<close>

text \<open>\<open>runId.startsWith("admitting:")\<close>: a request is between its reservation and its start.\<close>

definition admitting :: "string \<Rightarrow> bool" where
  "admitting runId \<longleftrightarrow> prefix ''admitting:'' runId"

definition isRunActive :: "platform \<Rightarrow> string option \<Rightarrow> bool io" where
  "isRunActive pf runId =
     (if \<not> truthy runId then retE False
      else if admitting (nullish runId []) then retE True
      else bindE (runStatusOf pf (nullish runId [])) (\<lambda>status.
        retE (status = RunPending \<or> status = RunRunning)))"

definition activates :: "lifecycleWorkflowName \<Rightarrow> bool" where
  "activates name \<longleftrightarrow> name \<in> {WfConnectWorkspace, WfCreateWorkspace, WfRebuildWorkspace, WfRestartSession}"

definition setRun :: "string option \<Rightarrow> int option \<Rightarrow> workspace \<Rightarrow> workspace" where
  "setRun runId t r = r\<lparr>workflowRunId := runId, workflowRunStartedAt := t\<rparr>"

text \<open>\<open>UPDATE workspaces SET \<dots> WHERE id = wid AND workflow_run_id = pending\<close>.\<close>

definition settleRun :: "string \<Rightarrow> string \<Rightarrow> (world \<Rightarrow> workspace \<Rightarrow> workspace) \<Rightarrow> unit io" where
  "settleRun wid pending f = updWs wid (\<lambda>w r. if workflowRunId r = Some pending then f w r else r)"

definition reserveRun :: "platform \<Rightarrow> string \<Rightarrow> lifecycleRun \<Rightarrow> workspace \<Rightarrow> string \<Rightarrow> unit io" where
  "reserveRun pf wid run current pending = txnE
     (thenE (whenE (activates (runName run) \<and> ws_state current \<notin> set ACTIVE_WORKSPACE_STATES)
               (assertWorkspaceCapacity pf (Some wid)))
     (updWs wid (\<lambda>w. setRun (Some pending) (Some (now w)))))"

definition startReserved :: "platform \<Rightarrow> string \<Rightarrow> lifecycleRun \<Rightarrow> string \<Rightarrow> string io" where
  "startReserved pf wid run pending =
     bindE (catchE (startRun pf run) (\<lambda>e.
        thenE (settleRun wid pending (\<lambda>w. setRun None None)) (throwE e))) (\<lambda>runId.
     thenE (settleRun wid pending (\<lambda>w. setRun (Some runId) (Some (now w)))) (retE runId))"

definition admit :: "platform \<Rightarrow> string \<Rightarrow> lifecycleRun \<Rightarrow> string io" where
  "admit pf wid run =
     bindE (reloadWorkspace wid) (\<lambda>current.
     bindE (case current of None \<Rightarrow> retE False
        | Some r \<Rightarrow> if truthy (workflowRunId r) then isRunActive pf (workflowRunId r) else retE False) (\<lambda>active.
     if active then throwE (ApiError 423 ''workspace_busy'')
     else case current of None \<Rightarrow> throwE (ApiError 404 ''not_found'')
     | Some r \<Rightarrow>
         bindE (randomUUID pf) (\<lambda>u.
         let pending = ''admitting:'' @ u in
         thenE (reserveRun pf wid run r pending) (startReserved pf wid run pending))))"

definition lifecycleLock :: "string \<Rightarrow> string" where
  "lifecycleLock wid = lockKey (''lifecycle:'' @ wid)"

definition startLifecycle :: "platform \<Rightarrow> string \<Rightarrow> lifecycleRun \<Rightarrow> string io" where
  "startLifecycle pf wid run =
     bindE (withLock pf (lifecycleLock wid) 30000 (admit pf wid run)) (\<lambda>result. case result of
       None \<Rightarrow> throwE (ApiError 423 ''workspace_busy'')
     | Some runId \<Rightarrow> retE runId)"

definition listeningPorts :: "env \<Rightarrow> kvTable \<Rightarrow> string \<Rightarrow> int \<Rightarrow> int list" where
  "listeningPorts e kv wid t = (case kvGet kv (listeningKey wid) t of
      None \<Rightarrow> []
    | Some raw \<Rightarrow> if raw = [] then [] else
        (case readInts raw of None \<Rightarrow> [] | Some ps \<Rightarrow> filter (\<lambda>p. \<not> isInfraPort e p) ps))"

section \<open>Lemmas\<close>

lemma wp_startRun [wp_simps]: "wp (startRun pf run) Q E w =
    (let w' = w\<lparr>tick := Suc (tick w), now := now w + int (pf_elapsed pf (tick w)), trace := trace w @
       [EvStartRun (case pf_start pf (tick w) run of Inl _ \<Rightarrow> [] | Inr i \<Rightarrow> i) run]\<rparr> in
     (case pf_start pf (tick w) run of Inl e \<Rightarrow> E e w' | Inr x \<Rightarrow> Q x w'))"
  by (simp add: startRun_def wp_simps)

lemma wp_runStatusOf [wp_simps]: "wp (runStatusOf pf runId) Q E w =
    (let s = nullish (pf_runStatus pf (tick w) runId) RunUnknown in
     Q s (w\<lparr>tick := Suc (tick w), now := now w + int (pf_elapsed pf (tick w)),
       trace := trace w @ [EvRunStatus runId s]\<rparr>))"
  by (simp add: runStatusOf_def wp_simps Let_def)

text \<open>Runs started since the log \<open>past\<close>.\<close>

fun isStart :: "event \<Rightarrow> bool" where
  "isStart (EvStartRun i r) = True"
| "isStart e = False"

definition startedSince :: "event list \<Rightarrow> world \<Rightarrow> event list" where
  "startedSince past w = filter isStart (drop (length past) (trace w))"

definition grew :: "event list \<Rightarrow> world \<Rightarrow> bool" where
  "grew past w \<longleftrightarrow> (\<exists>evs. trace w = past @ evs)"

text \<open>
  Admission of an unlocked request: it either starts exactly one run and records its id, or
  refuses; a refusal before the start leaves every row as it was, and a start that fails
  releases its own reservation.
\<close>

definition admitted ::
  "string \<Rightarrow> lifecycleRun \<Rightarrow> event list \<Rightarrow> workspace list \<Rightarrow> string \<Rightarrow> world \<Rightarrow> bool" where
  "admitted wid run past rows runId w \<longleftrightarrow> startedSince past w = [EvStartRun runId run]
     \<and> workspacesT w = updateWhere (\<lambda>r. ws_id r = wid) (setRun (Some runId) (Some (now w))) rows
     \<and> (\<exists>r. rowOf w wid = Some r \<and> workflowRunId r = Some runId \<and> workflowRunStartedAt r = Some (now w))"

definition released :: "string \<Rightarrow> workspace list \<Rightarrow> world \<Rightarrow> bool" where
  "released wid rows w \<longleftrightarrow> workspacesT w = rows
     \<or> workspacesT w = updateWhere (\<lambda>r. ws_id r = wid) (setRun None None) rows"

lemma updateWhere_twice:
  "updateWhere p f (updateWhere p g rows) = updateWhere p (\<lambda>r. if p (g r) then f (g r) else g r) rows"
  by (induction rows) auto

lemma updateWhere_cong:
  "(\<And>r. r \<in> set rows \<Longrightarrow> p r \<Longrightarrow> f r = g r) \<Longrightarrow> updateWhere p f rows = updateWhere p g rows"
  by (induction rows) auto

lemma rowOf_ws:
  assumes "workspacesT u = updateWhere (\<lambda>r. ws_id r = wid) f rows" and "\<And>r. ws_id (f r) = ws_id r"
  shows "rowOf u wid = map_option f (selectOne (\<lambda>r. ws_id r = wid) rows)"
  unfolding rowOf_def assms(1) by (rule selectOne_updateWhere) (simp add: assms(2))

lemma wp_startReserved:
  assumes row: "rowOf w wid \<noteq> None"
    and res: "workspacesT w = updateWhere (\<lambda>r. ws_id r = wid) (setRun (Some pending) t) rows"
    and quiet: "startedSince past w = []" "length past \<le> length (trace w)"
  shows "wp (startReserved pf wid run pending) (\<lambda>runId. admitted wid run past rows runId)
    (\<lambda>e w'. released wid rows w' \<and> e \<in> {e. pf_start pf (tick w) run = Inl e}) w"
proof -
  have undo: "updateWhere (\<lambda>r. ws_id r = wid) (\<lambda>r. if workflowRunId r = Some pending then setRun None None r else r)
      (workspacesT w) = updateWhere (\<lambda>r. ws_id r = wid) (setRun None None) rows"
    unfolding res updateWhere_twice by (rule updateWhere_cong) (simp add: setRun_def)
  have redo: "updateWhere (\<lambda>r. ws_id r = wid) (\<lambda>r. if workflowRunId r = Some pending then setRun (Some i) s r else r)
      (workspacesT w) = updateWhere (\<lambda>r. ws_id r = wid) (setRun (Some i) s) rows" for i s
    unfolding res updateWhere_twice by (rule updateWhere_cong) (simp add: setRun_def)
  have set: "rowOf (u\<lparr>workspacesT := updateWhere (\<lambda>r. ws_id r = wid) (setRun (Some i) s) rows\<rparr>) wid
      = map_option (setRun (Some i) s) (rowOf w wid)" for u i s
  proof -
    have idf: "ws_id (setRun a b r) = ws_id r" for a b r by (simp add: setRun_def)
    let ?u = "u\<lparr>workspacesT := updateWhere (\<lambda>r. ws_id r = wid) (setRun (Some i) s) rows\<rparr>"
    have "rowOf ?u wid = map_option (setRun (Some i) s) (selectOne (\<lambda>r. ws_id r = wid) rows)"
      by (rule rowOf_ws) (simp_all add: idf)
    moreover have "rowOf w wid = map_option (setRun (Some pending) t) (selectOne (\<lambda>r. ws_id r = wid) rows)"
      by (rule rowOf_ws [OF res idf])
    moreover have "setRun (Some i) s \<circ> setRun (Some pending) t = setRun (Some i) s"
      by (simp add: fun_eq_iff setRun_def)
    ultimately show ?thesis by (simp add: option.map_comp)
  qed
  show ?thesis
    using row quiet
    by (auto simp: startReserved_def settleRun_def wp_simps Let_def released_def undo redo admitted_def set
        startedSince_def split: sum.split) (simp_all add: setRun_def)
qed

lemma wp_admit:
  "wp (admit pf wid run) (\<lambda>runId. admitted wid run (trace w) (workspacesT w) runId)
     (\<lambda>e w'. released wid (workspacesT w) w') w"
proof -
  define go where "go r = bindE (randomUUID pf) (\<lambda>u. let pending = ''admitting:'' @ u in
         thenE (reserveRun pf wid run r pending) (startReserved pf wid run pending))" for r
  have start: "wp (go r) (\<lambda>runId. admitted wid run (trace w) (workspacesT w) runId)
     (\<lambda>e w'. released wid (workspacesT w) w') v"
    if "rowOf v wid = Some r" "workspacesT v = workspacesT w" "startedSince (trace w) v = []"
      "length (trace w) \<le> length (trace v)" for v r
  proof -
    let ?u = "''admitting:'' @ pf_uuid pf (tick v)"
    let ?v = "v\<lparr>tick := Suc (tick v)\<rparr>"
    let ?r = "?v\<lparr>workspacesT := updateWhere (\<lambda>r. ws_id r = wid) (setRun (Some ?u) (Some (now v))) (workspacesT v)\<rparr>"
    have "rowOf ?r wid \<noteq> None"
      using that(1) by (subst rowOf_ws [where f = "setRun (Some ?u) (Some (now v))" and rows = "workspacesT v"])
        (simp_all add: setRun_def rowOf_def [symmetric])
    then have go: "wp (startReserved pf wid run ?u) (\<lambda>runId. admitted wid run (trace w) (workspacesT w) runId)
        (\<lambda>e w'. released wid (workspacesT w) w') ?r"
      using that by (intro wp_mono [OF wp_startReserved [where past = "trace w" and rows = "workspacesT w"]])
        (auto simp: startedSince_def)
    show ?thesis
      using go that unfolding go_def
      by (auto simp: wp_simps Let_def reserveRun_def assertWorkspaceCapacity_def released_def)
  qed
  show ?thesis
  proof (cases "rowOf w wid")
    case None
    then show ?thesis by (simp add: admit_def wp_simps released_def)
  next
    case (Some r)
    show ?thesis
      unfolding admit_def go_def [symmetric] wp_bind wp_reload Some option.case
      by (auto simp: isRunActive_def wp_simps Let_def released_def startedSince_def Some
          intro!: start)
  qed
qed

text \<open>The lock around admission: it is released whatever happens, and a held lock refuses at once.\<close>

lemma startLifecycle_busy:
  assumes "kvGet (kvT w) (lifecycleLock wid) (now w) \<noteq> None"
  shows "startLifecycle pf wid run w = (Inl (ApiError 423 ''workspace_busy''), w\<lparr>tick := Suc (tick w)\<rparr>)"
  by (simp add: startLifecycle_def bindE_def throwE_def withLock_held [OF assms])

lemma wp_startLifecycle:
  "wp (startLifecycle pf wid run) (\<lambda>runId. admitted wid run (trace w) (workspacesT w) runId)
     (\<lambda>e w'. released wid (workspacesT w) w') w"
proof -
  have fin: "wp (finallyE (bindE (admit pf wid run) (\<lambda>r. retE (Some r))) (kvCompareDeleteE key tok))
      (\<lambda>res. wp (case res of None \<Rightarrow> throwE (ApiError 423 ''workspace_busy'') | Some i \<Rightarrow> retE i)
         (\<lambda>runId. admitted wid run (trace w) (workspacesT w) runId) (\<lambda>e w'. released wid (workspacesT w) w'))
      (\<lambda>e w'. released wid (workspacesT w) w') v"
    if "workspacesT v = workspacesT w" "trace v = trace w" for v key tok
    unfolding wp_finally wp_bind
    by (rule wp_mono [OF wp_admit [of pf wid run v]])
      (simp_all add: wp_simps that admitted_def startedSince_def released_def)
  show ?thesis
    unfolding startLifecycle_def wp_bind wp_withLock
    by (split if_split, intro conjI impI, simp add: wp_throw released_def, rule fin) simp_all
qed

text \<open>A row whose run is active is never given a second one.\<close>

lemma startLifecycle_active:
  assumes "rowOf w wid = Some r" and "workflowRunId r = Some i" and "i \<noteq> []"
    and "admitting i \<or> (\<forall>n. pf_runStatus pf n i \<in> {Some RunPending, Some RunRunning})"
  shows "wp (startLifecycle pf wid run) (\<lambda>_ _. False)
     (\<lambda>e w'. e = ApiError 423 ''workspace_busy'' \<and> workspacesT w' = workspacesT w
        \<and> startedSince (trace w) w' = []) w"
proof -
  have "nullish (pf_runStatus pf n i) RunUnknown \<in> {RunPending, RunRunning}" if "\<not> admitting i" for n
    using assms(4) that by (metis insert_iff nullish_simps(2) singleton_iff)
  then show ?thesis
    using assms(1-3)
    by (auto simp: startLifecycle_def wp_simps wp_withLock admit_def isRunActive_def Let_def startedSince_def)
qed

section \<open>The budget is kept\<close>

definition inUse :: "world \<Rightarrow> int" where
  "inUse w = int (length (filter (countsToward None) (workspacesT w)))"

lemma count_less:
  "distinct (map ws_id rows) \<Longrightarrow> (\<And>r. ws_id (f r) = ws_id r) \<Longrightarrow>
    length (filter c (updateWhere (\<lambda>r. ws_id r = wid) f rows))
      \<le> Suc (length (filter (\<lambda>r. c r \<and> ws_id r \<noteq> wid) rows))"
proof (induction rows)
  case (Cons x rows)
  then show ?case
  proof (cases "ws_id x = wid")
    case True
    then have "wid \<notin> ws_id ` set rows" using Cons.prems by auto
    then have "updateWhere (\<lambda>r. ws_id r = wid) f rows = rows"
      "filter (\<lambda>r. c r \<and> ws_id r \<noteq> wid) rows = filter c rows"
      by (induction rows) auto
    then show ?thesis using True by simp
  qed auto
qed simp

lemma count_same:
  "(\<And>r. r \<in> set rows \<Longrightarrow> ws_id r = wid \<Longrightarrow> c (f r) \<Longrightarrow> c r) \<Longrightarrow>
    length (filter c (updateWhere (\<lambda>r. ws_id r = wid) f rows)) \<le> length (filter c rows)"
  by (induction rows) (auto simp: le_SucI)

lemma countsToward_Some: "wid \<noteq> [] \<Longrightarrow>
    countsToward (Some wid) = (\<lambda>r. countsToward None r \<and> ws_id r \<noteq> wid)"
  by (auto simp: countsToward_def fun_eq_iff)

lemma startLifecycle_full:
  assumes "activates (runName run)" and "rowOf w wid = Some r" and "ws_state r \<notin> set ACTIVE_WORKSPACE_STATES"
    and "ZS_MAX_RUNNING_WORKSPACES (pf_env pf) \<le> int (length (filter (countsToward (Some wid)) (workspacesT w)))"
  shows "wp (startLifecycle pf wid run) (\<lambda>_ _. False) (\<lambda>_ w'. workspacesT w' = workspacesT w \<and> startedSince (trace w) w' = []) w"
  using assms
  by (auto simp: startLifecycle_def wp_simps wp_withLock admit_def isRunActive_def Let_def startedSince_def
      reserveRun_def assertWorkspaceCapacity_def)

text \<open>
  A run that brings a sandbox up never takes the instance above its budget: the count is
  taken in the transaction that reserves the run.
\<close>

lemma startLifecycle_budget:
  assumes run: "activates (runName run)" and ids: "distinct (map ws_id (workspacesT w))" and wid: "wid \<noteq> []"
    and max: "inUse w \<le> ZS_MAX_RUNNING_WORKSPACES (pf_env pf)"
  shows "wp (startLifecycle pf wid run) (\<lambda>_ w'. inUse w' \<le> ZS_MAX_RUNNING_WORKSPACES (pf_env pf))
     (\<lambda>_ w'. inUse w' \<le> ZS_MAX_RUNNING_WORKSPACES (pf_env pf)) w"
proof (cases "\<exists>r. rowOf w wid = Some r \<and> ws_state r \<notin> set ACTIVE_WORKSPACE_STATES \<and>
    ZS_MAX_RUNNING_WORKSPACES (pf_env pf) \<le> int (length (filter (countsToward (Some wid)) (workspacesT w)))")
  case True
  then obtain r where "rowOf w wid = Some r" "ws_state r \<notin> set ACTIVE_WORKSPACE_STATES"
    "ZS_MAX_RUNNING_WORKSPACES (pf_env pf) \<le> int (length (filter (countsToward (Some wid)) (workspacesT w)))"
    by blast
  from startLifecycle_full [OF run this] show ?thesis
    by (rule wp_mono) (use max in \<open>simp_all add: inUse_def\<close>)
next
  case False
  have "inUse w' \<le> ZS_MAX_RUNNING_WORKSPACES (pf_env pf)" if adm: "admitted wid run (trace w) (workspacesT w) i w'" for i w'
  proof -
    let ?f = "setRun (Some i) (Some (now w'))"
    have rows: "workspacesT w' = updateWhere (\<lambda>r. ws_id r = wid) ?f (workspacesT w)"
      and "rowOf w' wid \<noteq> None" using adm by (auto simp: admitted_def)
    have idf: "ws_id (?f x) = ws_id x" for x by (simp add: setRun_def)
    have "rowOf w' wid = map_option ?f (rowOf w wid)"
      unfolding rowOf_def [of w] by (rule rowOf_ws [OF rows idf])
    then obtain r where r: "rowOf w wid = Some r"
      using \<open>rowOf w' wid \<noteq> None\<close> by (cases "rowOf w wid") auto
    show ?thesis
    proof (cases "ws_state r \<in> set ACTIVE_WORKSPACE_STATES")
      case True
      have "x = r" if "x \<in> set (workspacesT w)" "ws_id x = wid" for x
        using ex1_of_distinct_key [OF ids that(1)] r that rowOf_id [OF r] selectOne_Some
        unfolding rowOf_def by metis
      then have "length (filter (countsToward None) (workspacesT w')) \<le> length (filter (countsToward None) (workspacesT w))"
        unfolding rows by (intro count_same) (use True in \<open>auto simp: countsToward_def setRun_def\<close>)
      then show ?thesis using max by (simp add: inUse_def)
    next
      case free: False
      then have "int (length (filter (countsToward (Some wid)) (workspacesT w))) < ZS_MAX_RUNNING_WORKSPACES (pf_env pf)"
        using False r by auto
      then show ?thesis
        using count_less [where f = ?f and c = "countsToward None" and wid = wid, OF ids idf]
        unfolding inUse_def rows countsToward_Some [OF wid] by linarith
    qed
  qed
  moreover have "inUse w' \<le> ZS_MAX_RUNNING_WORKSPACES (pf_env pf)" if "released wid (workspacesT w) w'" for w'
  proof -
    have "length (filter (countsToward None) (updateWhere (\<lambda>r. ws_id r = wid) (setRun None None) (workspacesT w)))
        \<le> length (filter (countsToward None) (workspacesT w))"
      by (rule count_same) (auto simp: countsToward_def setRun_def)
    with that max show ?thesis by (auto simp: released_def inUse_def)
  qed
  ultimately show ?thesis by (intro wp_mono [OF wp_startLifecycle]) auto
qed

end
