(* ===== verification/Access.thy ===== *)
theory Access
  imports RateLimit Sessions Lifecycle
begin

text \<open>
  Who may do what: the signed-in viewer and workspace ownership (\<open>lib/auth.ts\<close>,
  \<open>lib/route-context.ts\<close>), the cron secret (\<open>lib/cron.ts\<close>, \<open>bearer\<close> of \<open>lib/api.ts\<close>), the
  sandbox principal with its rate budgets (\<open>lib/sandbox-request.ts\<close>) and the idempotency key of
  \<open>lib/api.ts\<close>. The account session is the login library's answer, the user id it names.
\<close>

record viewer =
  v_userId :: string
  v_flaggedAt :: "int option"

text \<open>\<open>sessionUser\<close>: the user of a valid session cookie, as the login library reports it.\<close>

definition getViewer :: "string option \<Rightarrow> viewer option io" where
  "getViewer sessionUser = getE (\<lambda>w. case sessionUser of None \<Rightarrow> None
     | Some uid \<Rightarrow> (case selectOne (\<lambda>u. u_id u = uid) (usersT w) of
         None \<Rightarrow> None
       | Some u \<Rightarrow> if u_deletedAt u \<noteq> None then None
           else Some \<lparr>v_userId = u_id u, v_flaggedAt = u_flaggedAt u\<rparr>))"

definition requireViewer :: "string option \<Rightarrow> viewer io" where
  "requireViewer sessionUser = bindE (getViewer sessionUser) (\<lambda>v. case v of
      None \<Rightarrow> throwE (ApiError 401 ''sign_in_required'')
    | Some x \<Rightarrow> retE x)"

definition assertNotFlagged :: "viewer \<Rightarrow> unit io" where
  "assertNotFlagged v = whenE (v_flaggedAt v \<noteq> None) (throwE (ApiError 403 ''account_flagged''))"

definition ensureUser :: "viewer \<Rightarrow> user io" where
  "ensureUser v = bindE (getE (\<lambda>w. selectOne (\<lambda>u. u_id u = v_userId v) (usersT w))) (\<lambda>row. case row of
      None \<Rightarrow> throwE (ApiError 401 ''sign_in_required'')
    | Some u \<Rightarrow> if u_deletedAt u \<noteq> None then throwE (ApiError 401 ''sign_in_required'') else retE u)"

definition requireWorkspaceAccess :: "viewer \<Rightarrow> string \<Rightarrow> workspaceState list option \<Rightarrow> workspace io" where
  "requireWorkspaceAccess v workspaceId allowStates =
     bindE (getE (\<lambda>w. selectOne (\<lambda>r. ws_id r = workspaceId \<and> ownerUserId r = v_userId v) (workspacesT w)))
     (\<lambda>row. case row of
        None \<Rightarrow> throwE (ApiError 404 ''not_found'')
      | Some r \<Rightarrow>
          if deletedAt r \<noteq> None then throwE (ApiError 410 ''workspace_deleted'')
          else if (case allowStates of None \<Rightarrow> False | Some ss \<Rightarrow> ws_state r \<notin> set ss)
          then throwE (ApiError 423 ''workspace_busy'')
          else retE r)"

definition requireRepoAccess :: "string \<Rightarrow> repo io" where
  "requireRepoAccess i = bindE (getE (\<lambda>w. selectOne (\<lambda>r. r_id r = i) (reposT w))) (\<lambda>row. case row of
      None \<Rightarrow> throwE (ApiError 404 ''not_found'')
    | Some r \<Rightarrow> if r_private r then throwE (ApiError 404 ''not_found'') else retE r)"

definition assertWorkspaceId :: "string \<Rightarrow> string io" where
  "assertWorkspaceId i = (if WORKSPACE_ID_RE i then retE i else throwE (ApiError 404 ''not_found''))"

definition requireWorkspaceParam ::
  "string option \<Rightarrow> string \<Rightarrow> workspaceState list option \<Rightarrow> bool \<Rightarrow> (viewer \<times> workspace) io" where
  "requireWorkspaceParam sessionUser i allowStates control =
     bindE (assertWorkspaceId i) (\<lambda>wid.
     bindE (requireViewer sessionUser) (\<lambda>v.
     thenE (whenE control (assertNotFlagged v))
     (bindE (requireWorkspaceAccess v wid allowStates) (\<lambda>ws. retE (v, ws)))))"

section \<open>Bearers\<close>

text \<open>\<open>/^Bearer\s+(.+)$/i\<close> on the trimmed header.\<close>

definition bearer :: "string option \<Rightarrow> string option" where
  "bearer header = (case header of None \<Rightarrow> None
     | Some h \<Rightarrow>
         (let t = trimBoth h; rest = drop 6 t in
          if map toLower (take 6 t) = ''bearer'' \<and> rest \<noteq> [] \<and> isSpace (hd rest)
             \<and> dropWhile isSpace rest \<noteq> [] then Some (dropWhile isSpace rest) else None))"

definition requireCronSecret :: "env \<Rightarrow> string option \<Rightarrow> unit io" where
  "requireCronSecret e header = (case CRON_SECRET e of
      None \<Rightarrow> throwE (EnvError [''CRON_SECRET''])
    | Some secret \<Rightarrow>
        if secret = [] then throwE (EnvError [''CRON_SECRET''])
        else (case bearer header of
          None \<Rightarrow> throwE (ApiError 401 ''unauthenticated'')
        | Some token \<Rightarrow> if timingSafeEqualString token secret then retE ()
            else throwE (ApiError 401 ''unauthenticated'')))"

definition assertSandboxName :: "string \<Rightarrow> string io" where
  "assertSandboxName name = (if SANDBOX_NAME_RE name then retE name
     else throwE (ApiError 400 ''invalid_sandbox_name''))"

definition requireSandboxNamed ::
  "platform \<Rightarrow> string option \<Rightarrow> string option \<Rightarrow> string \<Rightarrow> limitName \<Rightarrow> workspace io" where
  "requireSandboxNamed pf header clientIp name budget =
     bindE (catchE (requireSandbox pf (bearer header) name) (\<lambda>e.
        thenE (case e of ApiError st _ \<Rightarrow> whenE (st = 401)
                  (limit LimSandboxAuthFailures (nullish clientIp ''unknown'')) | _ \<Rightarrow> retE ())
          (throwE e))) (\<lambda>ws.
     thenE (limit budget (sandboxName ws)) (retE ws))"

definition requireSandboxParam ::
  "platform \<Rightarrow> string option \<Rightarrow> string option \<Rightarrow> string \<Rightarrow> limitName \<Rightarrow> workspace io" where
  "requireSandboxParam pf header clientIp name budget =
     bindE (assertSandboxName name) (\<lambda>n. requireSandboxNamed pf header clientIp n budget)"

section \<open>Idempotency keys\<close>

record response =
  rs_status :: int
  rs_body :: string
  rs_contentType :: "string option"

definition IDEMPOTENCY_TTL_MS :: int where "IDEMPOTENCY_TTL_MS = 24 * 3600000"
definition IDEMPOTENCY_PENDING_TTL_MS :: int where "IDEMPOTENCY_PENDING_TTL_MS = 60000"
definition PENDING :: string where "PENDING = ''__pending__''"

text \<open>
  \<open>codec\<close> is \<open>JSON.stringify\<close> and \<open>JSON.parse\<close> of the cached response, a pair of the model's
  parameters; the flag of the result is the \<open>idempotent-replayed\<close> header.
\<close>

definition idempotent ::
  "(response \<Rightarrow> string) \<Rightarrow> (string \<Rightarrow> response) \<Rightarrow> string option \<Rightarrow> string \<Rightarrow> response io \<Rightarrow> (response \<times> bool) io" where
  "idempotent enc dec header userId fn =
     (if \<not> truthy header then bindE fn (\<lambda>r. retE (r, False))
      else if length (nullish header []) > 255 then throwE (ApiError 400 ''invalid_idempotency_key'')
      else let cacheKey = idemKey userId (nullish header []) in
      bindE (kvSetE cacheKey PENDING (Some IDEMPOTENCY_PENDING_TTL_MS) True) (\<lambda>acquired.
      if \<not> acquired
      then bindE (kvGetE cacheKey) (\<lambda>cached. case cached of
             None \<Rightarrow> throwE (ApiError 409 ''idempotency_in_progress'')
           | Some c \<Rightarrow> if c = PENDING then throwE (ApiError 409 ''idempotency_in_progress'')
               else retE ((dec c)\<lparr>rs_body := if rs_status (dec c) = 204 then [] else rs_body (dec c)\<rparr>, True))
      else bindE (catchE fn (\<lambda>e. thenE (kvDelE cacheKey) (throwE e))) (\<lambda>res.
        if rs_status res < 200 \<or> rs_status res \<ge> 300
        then thenE (kvDelE cacheKey) (retE (res, False))
        else thenE (kvSetE cacheKey (enc res) (Some IDEMPOTENCY_TTL_MS) False) (retE (res, False)))))"

section \<open>Lemmas\<close>

text \<open>What the guard of a workspace route hands on: the caller's own, undeleted workspace of that id.\<close>

lemma wp_requireWorkspaceParam:
  "wp (requireWorkspaceParam sessionUser i allowStates control)
     (\<lambda>(v, ws) w'. w' = w \<and> rowOf w i \<noteq> None \<and> ws \<in> set (workspacesT w) \<and> ws_id ws = i
        \<and> sessionUser = Some (v_userId v) \<and> ownerUserId ws = v_userId v \<and> deletedAt ws = None
        \<and> (control \<longrightarrow> v_flaggedAt v = None)
        \<and> (\<forall>ss. allowStates = Some ss \<longrightarrow> ws_state ws \<in> set ss))
     (\<lambda>e w'. w' = w \<and> (\<exists>st code. e = ApiError st code)) w"
proof -
  have row: "rowOf w i \<noteq> None" if "selectOne (\<lambda>r. ws_id r = i \<and> P r) (workspacesT w) = Some r" for P r
    using selectOne_Some [OF that] by (auto simp: rowOf_def selectOne_None)
  show ?thesis
    by (auto simp: requireWorkspaceParam_def assertWorkspaceId_def requireViewer_def getViewer_def
        assertNotFlagged_def requireWorkspaceAccess_def wp_simps split: option.splits
        dest: selectOne_Some row)
qed

lemma wp_param_then:
  assumes "\<And>v ws. ws_id ws = i \<Longrightarrow> wp (k (v, ws)) Q (\<lambda>_ _. True) w"
  shows "wp (bindE (requireWorkspaceParam sessionUser i allowStates control) k) Q (\<lambda>_ _. True) w"
  unfolding wp_bind by (rule wp_mono [OF wp_requireWorkspaceParam]) (use assms in auto)

lemma rotated_row:
  assumes "\<And>x. ws_id x = wid \<Longrightarrow> sandboxName (f x) = sandboxName x"
    and "\<forall>x \<in> set rows. sandboxName x = name \<longrightarrow> ws_id x = wid"
  shows "selectOne (\<lambda>x. sandboxName x = name) (updateWhere (\<lambda>x. ws_id x = wid) f rows)
    = map_option f (selectOne (\<lambda>x. sandboxName x = name) rows)"
  using assms by (induction rows) auto

lemma timingSafe_refl: "length h = 64 \<Longrightarrow> list_all isHexChar h \<Longrightarrow> timingSafeEqualHex h h"
  by (auto simp: timingSafeEqualHex_def)

lemma timingSafe_other: "length h = 64 \<Longrightarrow> list_all isHexChar h \<Longrightarrow> length g = 64 \<Longrightarrow> list_all isHexChar g \<Longrightarrow>
    map toLower g \<noteq> map toLower h \<Longrightarrow> \<not> timingSafeEqualHex g h"
  by (auto simp: timingSafeEqualHex_def hexBytes_inj)

text \<open>With one row per sandbox name, the row found by name is the one found by id.\<close>

lemma rotate_opens:
  assumes row: "rowOf w wid = Some r" and live: "deletedAt r = None" and name: "SANDBOX_NAME_RE (sandboxName r)"
    and ids: "distinct (map ws_id (workspacesT w))"
    and uniq: "\<forall>x \<in> set (workspacesT w). sandboxName x = sandboxName r \<longrightarrow> ws_id x = wid"
    and sha: "\<And>t. length (pf_sha256 pf t) = 64 \<and> list_all isHexChar (pf_sha256 pf t)"
  shows "wp (rotateSandboxToken pf wid)
    (\<lambda>(token, generation) w'. generation = sandboxTokenGeneration r + 1 \<and>
       (\<exists>r'. requireSandbox pf (Some token) (sandboxName r) w' = (Inr r', w') \<and> ws_id r' = wid) \<and>
       (\<forall>t. map toLower (pf_sha256 pf t) \<noteq> map toLower (pf_sha256 pf token) \<longrightarrow>
          (\<exists>e. requireSandbox pf (Some t) (sandboxName r) w' = (Inl e, w'))))
    (\<lambda>_ _. False) w"
proof -
  have r: "r \<in> set (workspacesT w)" "ws_id r = wid" using row selectOne_Some by (fastforce simp: rowOf_def)+
  have "selectOne (\<lambda>x. sandboxName x = sandboxName r) (workspacesT w) \<noteq> None"
    using r(1) by (auto simp: selectOne_None)
  then obtain q where q: "selectOne (\<lambda>x. sandboxName x = sandboxName r) (workspacesT w) = Some q" by blast
  have "q = r"
    using ex1_of_distinct_key [OF ids, of q r] selectOne_Some [OF q] r uniq by auto
  with q have byName: "selectOne (\<lambda>x. sandboxName x = sandboxName r) (workspacesT w) = Some r" by simp
  define token where "token = ''zsb_'' @ base64url (pf_bytes pf (tick w))"
  define hash where "hash = pf_sha256 pf token"
  have tok: "take 4 token = ''zsb_''" by (simp add: token_def)
  define v where "v = w\<lparr>tick := Suc (tick w)\<rparr>"
  define f where "f = (\<lambda>x::workspace. x\<lparr>sandboxTokenHash := Some hash, sandboxTokenGeneration := sandboxTokenGeneration x + 1, updatedAt := now v\<rparr>)"
  define u where "u = v\<lparr>workspacesT := updateWhere (\<lambda>x. ws_id x = wid) f (workspacesT v)\<rparr>"
  have found: "selectOne (\<lambda>x. sandboxName x = sandboxName r) (workspacesT u) = Some (f r)"
    unfolding u_def using rotated_row [of wid f "workspacesT w" "sandboxName r"] uniq byName
    by (simp add: f_def v_def)
  have reload: "rowOf u wid = Some (f r)"
    unfolding u_def using rowOf_upd [of wid f v] row by (simp add: f_def v_def)
  have h: "length hash = 64" "list_all isHexChar hash" "hash \<noteq> []" using sha unfolding hash_def by (metis, metis, metis length_0_conv zero_neq_numeral)
  have yes: "requireSandbox pf (Some token) (sandboxName r) u = (Inr (f r), u)"
    using found name live h timingSafe_refl [OF h(1,2)] tok
    by (simp add: requireSandbox_def act_defs f_def hash_def [symmetric])
  have no: "\<exists>e. requireSandbox pf (Some t) (sandboxName r) u = (Inl e, u)" if "map toLower (pf_sha256 pf t) \<noteq> map toLower hash" for t
    using found name live h timingSafe_other [OF h(1,2) _ _ that] sha [of t]
    by (simp add: requireSandbox_def act_defs f_def)
  have gen: "sandboxTokenGeneration (f r) = sandboxTokenGeneration r + 1" "ws_id (f r) = wid"
    by (simp_all add: f_def r(2))
  show ?thesis
    unfolding rotateSandboxToken_def wp_bind wp_bytes newSandboxToken_def Let_def prod.case wp_then wp_updWs
      token_def [symmetric] v_def [symmetric] hash_def [symmetric] f_def [symmetric] u_def [symmetric]
      wp_reload reload option.case
    using yes no gen by (simp add: wp_ret hash_def [symmetric])
qed

end
