(* ===== verification/Forwards.thy ===== *)
theory Forwards
  imports Sessions JsonText
begin

text \<open>
  Port forwarding: the proxy slots of \<open>lib/ports.ts\<close>, the forwards of \<open>lib/forwards.ts\<close> with the
  ports a user muted, their views (\<open>lib/views.ts\<close>) and the port checks of
  \<open>lib/route-context.ts\<close>.
\<close>

section \<open>Ports and slots\<close>

definition assertForwardablePort :: "env \<Rightarrow> int \<Rightarrow> unit io" where
  "assertForwardablePort e port =
     (if port < 1 \<or> port > 65535 then throwE (ApiError 400 ''invalid_port'')
      else if isInfraPort e port then throwE (ApiError 400 ''infra_port'') else retE ())"

text \<open>\<open>assertUserPort\<close>: the path segment is a decimal number, or \<open>NaN\<close> (\<open>None\<close>).\<close>

definition assertUserPort :: "env \<Rightarrow> string \<Rightarrow> err + int" where
  "assertUserPort e raw = (case readInt raw of
      None \<Rightarrow> Inl (ApiError 400 ''invalid_port'')
    | Some port \<Rightarrow>
        if port < 1 \<or> port > 65535 then Inl (ApiError 400 ''invalid_port'')
        else if isInfraPort e port then Inl (ApiError 400 ''infra_port'') else Inr port)"

definition heldBy :: "forward list \<Rightarrow> string \<Rightarrow> forward list" where
  "heldBy fs wid = filter (\<lambda>f. f_workspaceId f = wid \<and> f_slot f \<noteq> None) fs"

definition allocateSlot :: "forward list \<Rightarrow> string \<Rightarrow> int \<Rightarrow> err + int" where
  "allocateSlot fs wid port =
     (let held = heldBy fs wid in
      case find (\<lambda>f. f_port f = port) held of
        Some f \<Rightarrow> Inr (the (f_slot f))
      | None \<Rightarrow> (case find (\<lambda>s. Some s \<notin> f_slot ` set held) proxySlots of
          None \<Rightarrow> Inl (ApiError 409 ''no_free_slot'')
        | Some s \<Rightarrow> Inr s))"

definition slotHost :: "workspace \<Rightarrow> int \<Rightarrow> string option" where
  "slotHost ws slot = (case currentSlotHosts ws of None \<Rightarrow> None | Some hosts \<Rightarrow> map_of hosts (showInt slot))"

definition slotScheme :: "env \<Rightarrow> string" where
  "slotScheme e = (if ZS_SANDBOX_BACKEND e \<noteq> Vercel then ''http'' else ''https'')"

definition publicSlotUrl :: "env \<Rightarrow> workspace \<Rightarrow> int \<Rightarrow> string option" where
  "publicSlotUrl e ws slot = (if truthy (slotHost ws slot)
     then Some (slotScheme e @ ''://'' @ nullish (slotHost ws slot) []) else None)"

definition privateForwardUrl :: "env \<Rightarrow> string \<Rightarrow> int \<Rightarrow> err + string" where
  "privateForwardUrl e wid port = (case controlApiBase e of Inl er \<Rightarrow> Inl er
     | Inr base \<Rightarrow> Inr (base @ ''/workspaces/'' @ wid @ ''/ports/'' @ showInt port @ ''/open''))"

text \<open>\<open>encodeURIComponent\<close> on bytes.\<close>

definition uriUnreserved :: "char \<Rightarrow> bool" where
  "uriUnreserved c \<longleftrightarrow> c \<in> set ''ABCDEFGHIJKLMNOPQRSTUVWXYZabcdefghijklmnopqrstuvwxyz0123456789-_.!~*()''
     \<or> c = CHR 0x27"

definition upperHexDigit :: "nat \<Rightarrow> char" where
  "upperHexDigit d = ''0123456789ABCDEF'' ! (d mod 16)"

definition encodeURIComponent :: "string \<Rightarrow> string" where
  "encodeURIComponent s = concat (map (\<lambda>c. if uriUnreserved c then [c]
     else [CHR ''%'', upperHexDigit (of_char c div 16), upperHexDigit (of_char c)]) s)"

definition authRedirect :: "env \<Rightarrow> string \<Rightarrow> string \<Rightarrow> string \<Rightarrow> string" where
  "authRedirect e slotHostname token next =
     slotScheme e @ ''://'' @ slotHostname @ ''/__zs/auth?zs_port_token='' @ encodeURIComponent token
       @ ''&next='' @ encodeURIComponent next"

section \<open>Muted ports\<close>

text \<open>A JavaScript \<open>Set\<close> of numbers: its elements in insertion order.\<close>

definition jsSet :: "int list \<Rightarrow> int list" where
  "jsSet xs = rev (remdups (rev xs))"

definition mutedPorts :: "kvTable \<Rightarrow> string \<Rightarrow> int \<Rightarrow> int list" where
  "mutedPorts kv wid t = (case kvGet kv (mutedPortsKey wid) t of
      None \<Rightarrow> []
    | Some v \<Rightarrow> (case readInts v of None \<Rightarrow> [] | Some xs \<Rightarrow> jsSet xs))"

definition saveMutedPorts :: "kvTable \<Rightarrow> string \<Rightarrow> int list \<Rightarrow> int \<Rightarrow> kvTable" where
  "saveMutedPorts kv wid ports t =
     (if ports = [] then kv(mutedPortsKey wid := None)
      else kv(mutedPortsKey wid \<mapsto> (showInts ports, Some (t + 30 * 86400000))))"

section \<open>Forwards\<close>

text \<open>\<open>INSERT \<dots> ON CONFLICT (workspaceId, port) DO UPDATE SET upd\<close>.\<close>

definition keyed :: "string \<Rightarrow> int \<Rightarrow> forward \<Rightarrow> bool" where
  "keyed wid port f \<longleftrightarrow> f_workspaceId f = wid \<and> f_port f = port"

definition upsertForward ::
  "forward list \<Rightarrow> string \<Rightarrow> int \<Rightarrow> forward \<Rightarrow> (forward \<Rightarrow> forward) \<Rightarrow> forward list" where
  "upsertForward fs wid port row upd =
     (if \<exists>f \<in> set fs. keyed wid port f then updateWhere (keyed wid port) upd fs else fs @ [row])"

record createForwardRequest =
  cf_port :: int
  cf_visibility :: portVisibility
  cf_label :: "string option"

definition createForward :: "platform \<Rightarrow> workspace \<Rightarrow> createForwardRequest \<Rightarrow> forward io" where
  "createForward pf ws req =
     thenE (assertForwardablePort (pf_env pf) (cf_port req)) (txnE
     (bindE (getE (\<lambda>w. mutedPorts (kvT w) (ws_id ws) (now w))) (\<lambda>muted.
      thenE (whenE (cf_port req \<in> set muted) (modE (\<lambda>w. w\<lparr>kvT :=
               saveMutedPorts (kvT w) (ws_id ws) (filter (\<lambda>p. p \<noteq> cf_port req) muted) (now w)\<rparr>)))
      (bindE (getE (\<lambda>w. allocateSlot (forwardsT w) (ws_id ws) (cf_port req))) (\<lambda>got. case got of
         Inl e \<Rightarrow> throwE e
       | Inr slot \<Rightarrow>
      bindE (case (if cf_visibility req = Private
                   then privateForwardUrl (pf_env pf) (ws_id ws) (cf_port req) else Inr [])
             of Inl e \<Rightarrow> throwE e
              | Inr u \<Rightarrow> retE (if cf_visibility req = Private then Some u
                   else publicSlotUrl (pf_env pf) ws slot)) (\<lambda>url.
      let row = \<lparr>f_workspaceId = ws_id ws, f_port = cf_port req, f_visibility = cf_visibility req,
            f_label = cf_label req, f_url = url, f_slot = Some slot\<rparr> in
      thenE (modE (\<lambda>w. w\<lparr>forwardsT := upsertForward (forwardsT w) (ws_id ws) (cf_port req) row
               (\<lambda>f. f\<lparr>f_visibility := cf_visibility req, f_label := cf_label req, f_url := url,
                  f_slot := Some slot\<rparr>)\<rparr>))
        (retE row)))))))"

text \<open>
  The loop over the listening ports: \<open>available\<close> shrinks as slots are handed out, \<open>kept\<close> are
  the rows as selected before it.
\<close>

definition syncPort ::
  "env \<Rightarrow> workspace \<Rightarrow> forward option \<Rightarrow> int \<Rightarrow> int \<Rightarrow> forward list \<Rightarrow> forward list" where
  "syncPort e ws existing port slot fs =
     (let url = publicSlotUrl e ws slot in
      if url = None \<or> (case existing of None \<Rightarrow> False | Some f \<Rightarrow> f_url f = url \<and> f_slot f = Some slot) then fs
      else upsertForward fs (ws_id ws) port
        \<lparr>f_workspaceId = ws_id ws, f_port = port, f_visibility = Public, f_label = None,
         f_url = url, f_slot = Some slot\<rparr>
        (\<lambda>f. f\<lparr>f_slot := Some slot, f_url := url\<rparr>))"

text \<open>\<open>existing?.slot ?? available.shift()\<close>, with what is left available.\<close>

definition pickSlot :: "forward option \<Rightarrow> int list \<Rightarrow> int option \<times> int list" where
  "pickSlot existing available = (case existing of
      Some f \<Rightarrow> (case f_slot f of Some s \<Rightarrow> (Some s, available)
         | None \<Rightarrow> (case available of [] \<Rightarrow> (None, []) | s # rest \<Rightarrow> (Some s, rest)))
    | None \<Rightarrow> (case available of [] \<Rightarrow> (None, []) | s # rest \<Rightarrow> (Some s, rest)))"

definition privateRow :: "forward option \<Rightarrow> bool" where
  "privateRow existing \<longleftrightarrow> (case existing of None \<Rightarrow> False | Some f \<Rightarrow> f_visibility f = Private)"

fun syncLoop ::
  "env \<Rightarrow> workspace \<Rightarrow> int list \<Rightarrow> forward list \<Rightarrow> int list \<Rightarrow> int list \<Rightarrow> forward list \<Rightarrow> forward list" where
  "syncLoop e ws muted kept available [] fs = fs"
| "syncLoop e ws muted kept available (port # ports) fs =
     (let existing = find (\<lambda>f. f_port f = port) kept in
      if port \<in> set muted \<or> privateRow existing then syncLoop e ws muted kept available ports fs
      else case pickSlot existing available of
          (None, av) \<Rightarrow> syncLoop e ws muted kept av ports fs
        | (Some slot, av) \<Rightarrow> syncLoop e ws muted kept av ports (syncPort e ws existing port slot fs))"

definition syncForwards ::
  "env \<Rightarrow> workspace \<Rightarrow> int list \<Rightarrow> kvTable \<Rightarrow> forward list \<Rightarrow> int \<Rightarrow> kvTable \<times> forward list" where
  "syncForwards e ws ports kv fs t =
     (let muted = mutedPorts kv (ws_id ws) t;
          still = filter (\<lambda>p. p \<in> set ports) muted;
          kv' = (if length muted \<noteq> length still then saveMutedPorts kv (ws_id ws) still t else kv);
          rows = filter (\<lambda>f. f_workspaceId f = ws_id ws) fs;
          closed = map f_port (filter (\<lambda>f. f_visibility f = Public \<and> f_port f \<notin> set ports) rows);
          fs' = filter (\<lambda>f. \<not> (f_workspaceId f = ws_id ws \<and> f_port f \<in> set closed)) fs;
          kept = filter (\<lambda>f. \<not> (f_visibility f = Public \<and> f_port f \<notin> set ports)) rows;
          available = filter (\<lambda>s. Some s \<notin> f_slot ` set kept) proxySlots in
      (kv', syncLoop e ws still kept available (sort ports) fs'))"

text \<open>\<open>listening\<close> is absent (\<open>None\<close>) when the report did not carry it.\<close>

definition syncListeningForwards :: "platform \<Rightarrow> workspace \<Rightarrow> int list option \<Rightarrow> unit io" where
  "syncListeningForwards pf ws listening =
     (case listening of None \<Rightarrow> retE ()
      | Some ls \<Rightarrow>
          if ws_state ws \<noteq> Running \<or> ZS_SANDBOX_BACKEND (pf_env pf) = Local then retE ()
          else let ports = jsSet (filter (\<lambda>p. \<not> isInfraPort (pf_env pf) p) ls) in
            txnE (modE (\<lambda>w. case syncForwards (pf_env pf) ws ports (kvT w) (forwardsT w) (now w) of
              (kv, fs) \<Rightarrow> w\<lparr>kvT := kv, forwardsT := fs\<rparr>)))"

definition removeForward :: "platform \<Rightarrow> string \<Rightarrow> int \<Rightarrow> unit io" where
  "removeForward pf wid port =
     thenE (assertForwardablePort (pf_env pf) port) (txnE
     (bindE (getE (\<lambda>w. mutedPorts (kvT w) wid (now w))) (\<lambda>muted.
      modE (\<lambda>w. w\<lparr>kvT := saveMutedPorts (kvT w) wid (if port \<in> set muted then muted else muted @ [port]) (now w),
        forwardsT := filter (\<lambda>f. \<not> keyed wid port f) (forwardsT w)\<rparr>))))"

text \<open>\<open>forwardViews\<close>: a workspace's forwards by port (the view drops only the workspace id).\<close>

definition forwardViews :: "forward list \<Rightarrow> string \<Rightarrow> forward list" where
  "forwardViews fs wid = sort_key f_port (filter (\<lambda>f. f_workspaceId f = wid) fs)"

section \<open>Invariants\<close>

text \<open>The unique index \<open>forwards_slot_idx\<close>: two forwards of a workspace never share a slot.\<close>

definition slotsUnique :: "forward list \<Rightarrow> bool" where
  "slotsUnique fs \<longleftrightarrow> (\<forall>f \<in> set fs. \<forall>g \<in> set fs. f_workspaceId f = f_workspaceId g \<longrightarrow>
     f_slot f = f_slot g \<longrightarrow> f_slot f \<noteq> None \<longrightarrow> f_port f = f_port g)"

definition slotsValid :: "forward list \<Rightarrow> bool" where
  "slotsValid fs \<longleftrightarrow> (\<forall>f \<in> set fs. \<forall>s. f_slot f = Some s \<longrightarrow> s \<in> set proxySlots)"

definition slotFree :: "forward list \<Rightarrow> string \<Rightarrow> int \<Rightarrow> int \<Rightarrow> bool" where
  "slotFree fs wid port slot \<longleftrightarrow> (\<forall>f \<in> set fs. f_workspaceId f = wid \<longrightarrow> f_slot f = Some slot \<longrightarrow> f_port f = port)"

lemma upsert_mem:
  assumes "f \<in> set (upsertForward fs wid port row upd)" and "keyed wid port row"
    and "\<And>f. keyed wid port f \<Longrightarrow> keyed wid port (upd f)"
  shows "(f \<in> set fs \<and> \<not> keyed wid port f)
    \<or> (keyed wid port f \<and> (f = row \<or> (\<exists>g \<in> set fs. keyed wid port g \<and> f = upd g)))"
  using assms by (auto simp: upsertForward_def set_updateWhere split: if_splits)

lemma upsert_slots:
  assumes "slotsUnique fs" and "slotFree fs wid port slot"
    and "keyed wid port row" "f_slot row = Some slot"
    and "\<And>f. keyed wid port f \<Longrightarrow> keyed wid port (upd f) \<and> f_slot (upd f) = Some slot"
  shows "slotsUnique (upsertForward fs wid port row upd)"
proof -
  have mem: "(f \<in> set fs \<and> \<not> keyed wid port f) \<or> (keyed wid port f \<and> f_slot f = Some slot)"
    if "f \<in> set (upsertForward fs wid port row upd)" for f
    using upsert_mem [OF that assms(3)] assms(4,5) by blast
  show ?thesis
    unfolding slotsUnique_def
  proof (intro ballI impI)
    fix f g assume fg: "f \<in> set (upsertForward fs wid port row upd)" "g \<in> set (upsertForward fs wid port row upd)"
      "f_workspaceId f = f_workspaceId g" "f_slot f = f_slot g" "f_slot f \<noteq> None"
    show "f_port f = f_port g"
      using mem [OF fg(1)] mem [OF fg(2)] fg(3-5) assms(1,2)
      unfolding slotsUnique_def slotFree_def keyed_def by metis
  qed
qed

lemma upsert_valid:
  assumes "slotsValid fs" and "slot \<in> set proxySlots"
    and "keyed wid port row" "f_slot row = Some slot"
    and "\<And>f. keyed wid port f \<Longrightarrow> keyed wid port (upd f) \<and> f_slot (upd f) = Some slot"
  shows "slotsValid (upsertForward fs wid port row upd)"
  using assms by (auto simp: slotsValid_def dest!: upsert_mem [OF _ assms(3)])

lemma find_SomeD: "find P xs = Some x \<Longrightarrow> x \<in> set xs \<and> P x"
  by (induction xs) (auto split: if_splits)

lemma heldBy_iff: "f \<in> set (heldBy fs wid) \<longleftrightarrow> f \<in> set fs \<and> f_workspaceId f = wid \<and> f_slot f \<noteq> None"
  by (simp add: heldBy_def)

lemma allocateSlot_Inr:
  assumes "slotsUnique fs" and "slotsValid fs" and "allocateSlot fs wid port = Inr slot"
  shows "slot \<in> set proxySlots \<and> slotFree fs wid port slot"
proof (cases "find (\<lambda>f. f_port f = port) (heldBy fs wid)")
  case None
  then have "find (\<lambda>s. Some s \<notin> f_slot ` set (heldBy fs wid)) proxySlots = Some slot"
    using assms(3) by (simp add: allocateSlot_def Let_def split: option.splits)
  from find_SomeD [OF this] have s: "slot \<in> set proxySlots" "Some slot \<notin> f_slot ` set (heldBy fs wid)"
    by blast+
  have "f_slot f \<noteq> Some slot" if "f \<in> set fs" "f_workspaceId f = wid" for f
    using s(2) that heldBy_iff [of f fs wid] by (metis image_eqI option.discI)
  with s(1) show ?thesis unfolding slotFree_def by blast
next
  case (Some f)
  from find_SomeD [OF this] have f: "f \<in> set fs" "f_workspaceId f = wid" "f_slot f \<noteq> None" "f_port f = port"
    unfolding heldBy_iff by blast+
  moreover have slot: "f_slot f = Some slot"
    using assms(3) Some f(3) by (cases "f_slot f") (simp_all add: allocateSlot_def)
  moreover have "slot \<in> set proxySlots" using assms(2) f(1) slot unfolding slotsValid_def by blast
  moreover have "slotFree fs wid port slot"
    using assms(1) f slot unfolding slotsUnique_def slotFree_def by metis
  ultimately show ?thesis by blast
qed

text \<open>\<open>no_free_slot\<close> exactly when the port has no slot and all twelve are held.\<close>

lemma allocateSlot_Inl:
  "(\<exists>e. allocateSlot fs wid port = Inl e) \<longleftrightarrow>
    (\<forall>f \<in> set fs. keyed wid port f \<longrightarrow> f_slot f = None)
    \<and> (\<forall>s \<in> set proxySlots. \<exists>f \<in> set fs. f_workspaceId f = wid \<and> f_slot f = Some s)"
proof -
  have "(\<exists>e. allocateSlot fs wid port = Inl e) \<longleftrightarrow>
      find (\<lambda>f. f_port f = port) (heldBy fs wid) = None
      \<and> find (\<lambda>s. Some s \<notin> f_slot ` set (heldBy fs wid)) proxySlots = None"
    by (simp add: allocateSlot_def Let_def split: option.split)
  also have "\<dots> \<longleftrightarrow> (\<forall>f \<in> set (heldBy fs wid). f_port f \<noteq> port)
      \<and> (\<forall>s \<in> set proxySlots. Some s \<in> f_slot ` set (heldBy fs wid))"
    by (simp add: find_None_iff Ball_def)
  also have "(\<forall>f \<in> set (heldBy fs wid). f_port f \<noteq> port)
      \<longleftrightarrow> (\<forall>f \<in> set fs. keyed wid port f \<longrightarrow> f_slot f = None)"
    by (auto simp: heldBy_iff keyed_def)
  also have "(\<forall>s \<in> set proxySlots. Some s \<in> f_slot ` set (heldBy fs wid))
      \<longleftrightarrow> (\<forall>s \<in> set proxySlots. \<exists>f \<in> set fs. f_workspaceId f = wid \<and> f_slot f = Some s)"
    unfolding image_iff Bex_def heldBy_iff by (metis option.discI)
  finally show ?thesis .
qed

text \<open>\<open>createForward\<close> keeps the index; so does \<open>removeForward\<close>, which only deletes.\<close>

definition slotsOk :: "forward list \<Rightarrow> bool" where
  "slotsOk fs \<longleftrightarrow> slotsUnique fs \<and> slotsValid fs"

lemma slotsOk_subset: "slotsOk fs \<Longrightarrow> set fs' \<subseteq> set fs \<Longrightarrow> slotsOk fs'"
  unfolding slotsOk_def slotsUnique_def slotsValid_def by blast

lemma slotsOk_upsert:
  assumes "slotsOk fs" and "slot \<in> set proxySlots" and "slotFree fs wid port slot"
    and "keyed wid port row" "f_slot row = Some slot"
    and "\<And>f. keyed wid port f \<Longrightarrow> keyed wid port (upd f) \<and> f_slot (upd f) = Some slot"
  shows "slotsOk (upsertForward fs wid port row upd)"
proof -
  have fs: "slotsUnique fs" "slotsValid fs" using assms(1) by (simp_all add: slotsOk_def)
  show ?thesis
    unfolding slotsOk_def
    by (rule conjI, rule upsert_slots [OF fs(1) assms(3-5)], erule assms(6),
      rule upsert_valid [OF fs(2) assms(2,4,5)], erule assms(6))
qed

lemma wp_assertForwardable: "wp (assertForwardablePort e port) Q E w =
    (if port < 1 \<or> port > 65535 then E (ApiError 400 ''invalid_port'') w
     else if isInfraPort e port then E (ApiError 400 ''infra_port'') w else Q () w)"
  by (simp add: assertForwardablePort_def wp_simps)

lemma createForward_ok:
  assumes "slotsOk (forwardsT w)"
  shows "wp (createForward pf ws req)
     (\<lambda>f w'. slotsOk (forwardsT w') \<and> \<not> isInfraPort (pf_env pf) (f_port f) \<and> f_port f = cf_port req
        \<and> (\<exists>s. f_slot f = Some s \<and> s \<in> set proxySlots))
     (\<lambda>_ w'. forwardsT w' = forwardsT w \<and> kvT w' = kvT w) w"
proof -
  have ok: "slotsOk (upsertForward (forwardsT w) (ws_id ws) (cf_port req)
      \<lparr>f_workspaceId = ws_id ws, f_port = cf_port req, f_visibility = cf_visibility req,
            f_label = cf_label req, f_url = url, f_slot = Some slot\<rparr>
      (\<lambda>f. f\<lparr>f_visibility := cf_visibility req, f_label := cf_label req, f_url := url, f_slot := Some slot\<rparr>))
      \<and> slot \<in> set proxySlots"
    if "allocateSlot (forwardsT w) (ws_id ws) (cf_port req) = Inr slot" for slot url
  proof -
    have "slot \<in> set proxySlots" "slotFree (forwardsT w) (ws_id ws) (cf_port req) slot"
      using allocateSlot_Inr [OF _ _ that] assms unfolding slotsOk_def by blast+
    note s = this
    show ?thesis
      by (rule conjI [OF slotsOk_upsert [OF assms s] s(1)]) (simp_all add: keyed_def)
  qed
  then show ?thesis
    by (auto simp: createForward_def wp_simps wp_assertForwardable Let_def split: sum.split)
qed

lemma wp_removeForward:
  "wp (removeForward pf wid port)
     (\<lambda>_ w'. forwardsT w' = filter (\<lambda>f. \<not> keyed wid port f) (forwardsT w)
        \<and> kvT w' = saveMutedPorts (kvT w) wid (let m = mutedPorts (kvT w) wid (now w) in
            if port \<in> set m then m else m @ [port]) (now w))
     (\<lambda>_ w'. w' = w) w"
  by (simp add: removeForward_def wp_simps wp_assertForwardable Let_def)

section \<open>Discovery\<close>

lemma syncPort_keep: "f \<in> set fs \<Longrightarrow> \<not> keyed (ws_id ws) port f \<Longrightarrow> f \<in> set (syncPort e ws ex port slot fs)"
  by (auto simp: syncPort_def Let_def upsertForward_def set_updateWhere)

lemma syncPort_mem: "f \<in> set (syncPort e ws ex port slot fs) \<Longrightarrow> f \<in> set fs \<or>
    (keyed (ws_id ws) port f \<and> f_slot f = Some slot)"
  by (auto simp: syncPort_def Let_def upsertForward_def set_updateWhere keyed_def split: if_splits)

lemma syncPort_ok:
  assumes "slotsOk fs" and "slot \<in> set proxySlots" and "slotFree fs (ws_id ws) port slot"
  shows "slotsOk (syncPort e ws ex port slot fs)"
proof -
  have "slotsOk (upsertForward fs (ws_id ws) port
      \<lparr>f_workspaceId = ws_id ws, f_port = port, f_visibility = Public, f_label = None, f_url = url,
       f_slot = Some slot\<rparr> (\<lambda>f. f\<lparr>f_slot := Some slot, f_url := url\<rparr>))" for url
    by (rule slotsOk_upsert [OF assms]) (simp_all add: keyed_def)
  then show ?thesis using assms(1) by (simp add: syncPort_def Let_def)
qed

text \<open>What the loop relies on: free slots are really free, and a selected row is still there.\<close>

definition syncInv :: "string \<Rightarrow> forward list \<Rightarrow> int list \<Rightarrow> int list \<Rightarrow> forward list \<Rightarrow> bool" where
  "syncInv wid kept available ports fs \<longleftrightarrow> slotsOk fs \<and> distinct available
     \<and> set available \<subseteq> set proxySlots \<and> distinct ports
     \<and> (\<forall>s \<in> set available. \<forall>f \<in> set fs. f_workspaceId f = wid \<longrightarrow> f_slot f \<noteq> Some s)
     \<and> (\<forall>port \<in> set ports. \<forall>f. find (\<lambda>f. f_port f = port) kept = Some f \<longrightarrow> f \<in> set fs \<and> keyed wid port f)"

lemma syncInv_skip: "syncInv wid kept av (p # ps) fs \<Longrightarrow> syncInv wid kept av ps fs"
  by (simp add: syncInv_def)

lemma syncInv_port:
  assumes inv: "syncInv (ws_id ws) kept av (p # ps) fs"
    and slot: "slot \<in> set proxySlots" "slotFree fs (ws_id ws) p slot"
    and av': "set av' \<subseteq> set av" "distinct av'" "slot \<notin> set av'"
  shows "syncInv (ws_id ws) kept av' ps (syncPort e ws ex p slot fs)"
proof -
  have ok: "slotsOk (syncPort e ws ex p slot fs)"
    by (rule syncPort_ok [OF _ slot]) (use inv in \<open>simp add: syncInv_def\<close>)
  have free: "f_slot f \<noteq> Some s" if "s \<in> set av'" "f \<in> set (syncPort e ws ex p slot fs)" "f_workspaceId f = ws_id ws" for s f
  proof -
    have old: "\<forall>s \<in> set av. \<forall>f \<in> set fs. f_workspaceId f = ws_id ws \<longrightarrow> f_slot f \<noteq> Some s"
      using inv by (simp add: syncInv_def)
    show ?thesis
    proof (cases "f \<in> set fs")
      case True
      then show ?thesis using old that(1,3) av'(1) by blast
    next
      case False
      then have "f_slot f = Some slot" using syncPort_mem [OF that(2)] by blast
      then show ?thesis using that(1) av'(3) by auto
    qed
  qed
  have here: "f \<in> set (syncPort e ws ex p slot fs) \<and> keyed (ws_id ws) q f"
    if "q \<in> set ps" "find (\<lambda>f. f_port f = q) kept = Some f" for q f
  proof -
    have f: "f \<in> set fs" "keyed (ws_id ws) q f" "q \<noteq> p"
      using inv that unfolding syncInv_def by auto
    then have "\<not> keyed (ws_id ws) p f" by (auto simp: keyed_def)
    with f syncPort_keep show ?thesis by blast
  qed
  show ?thesis
    unfolding syncInv_def
  proof (intro conjI)
    show "set av' \<subseteq> set proxySlots"
      using av'(1) inv unfolding syncInv_def by (meson order_trans)
    show "distinct ps" using inv by (simp add: syncInv_def)
  qed (use ok av' free here in blast)+
qed

lemma syncInv_pick:
  assumes inv: "syncInv (ws_id ws) kept av (p # ps) fs"
    and pick: "pickSlot (find (\<lambda>f. f_port f = p) kept) av = (Some slot, av')"
  shows "slot \<in> set proxySlots \<and> slotFree fs (ws_id ws) p slot \<and> set av' \<subseteq> set av \<and> distinct av'
    \<and> slot \<notin> set av'"
proof (cases "\<exists>f. find (\<lambda>f. f_port f = p) kept = Some f \<and> f_slot f = Some slot \<and> av' = av")
  case True
  then obtain f where f: "f \<in> set fs" "keyed (ws_id ws) p f" "f_slot f = Some slot" "av' = av"
    using inv unfolding syncInv_def by auto
  have ok: "slotsUnique fs" "slotsValid fs" using inv unfolding syncInv_def slotsOk_def by blast+
  have "f_port g = p" if "g \<in> set fs" "f_workspaceId g = ws_id ws" "f_slot g = Some slot" for g
    using ok(1) that f unfolding slotsUnique_def keyed_def by (metis option.discI)
  moreover have "slot \<in> set proxySlots" using ok(2) f unfolding slotsValid_def by blast
  moreover have "slot \<notin> set av" using inv f unfolding syncInv_def keyed_def by blast
  ultimately show ?thesis using f(4) inv unfolding slotFree_def syncInv_def by blast
next
  case False
  then have "av = slot # av'"
    using pick by (auto simp: pickSlot_def split: option.splits list.splits)
  then show ?thesis using inv unfolding syncInv_def slotFree_def by auto
qed

lemma pickSlot_None: "pickSlot ex av = (None, av') \<Longrightarrow> av' = av"
  by (auto simp: pickSlot_def split: option.splits list.splits)

lemma syncLoop_ok: "syncInv (ws_id ws) kept av ps fs \<Longrightarrow> slotsOk (syncLoop e ws muted kept av ps fs)"
proof (induction ps arbitrary: av fs)
  case Nil
  then show ?case by (simp add: syncInv_def)
next
  case (Cons p ps)
  note skip = Cons.IH [OF syncInv_skip [OF Cons.prems]]
  obtain got av' where pick: "pickSlot (find (\<lambda>f. f_port f = p) kept) av = (got, av')"
    by (cases "pickSlot (find (\<lambda>f. f_port f = p) kept) av")
  show ?case
  proof (cases got)
    case None
    with pick pickSlot_None have "av' = av" by blast
    with None pick skip show ?thesis by (simp add: Let_def)
  next
    case (Some slot)
    from syncInv_pick [OF Cons.prems pick [unfolded Some]]
    have "syncInv (ws_id ws) kept av' ps (syncPort e ws ex p slot fs)" for ex
      by (intro syncInv_port [OF Cons.prems]) blast+
    from Cons.IH [OF this] Some pick skip show ?thesis by (simp add: Let_def)
  qed
qed

text \<open>A row the loop writes is a listening, unmuted port of the workspace.\<close>

lemma syncLoop_mem: "f \<in> set (syncLoop e ws muted kept av ps fs) \<Longrightarrow> f \<in> set fs \<or>
    (f_workspaceId f = ws_id ws \<and> f_port f \<in> set ps \<and> f_port f \<notin> set muted)"
proof (induction ps arbitrary: av fs)
  case (Cons p ps)
  obtain got av' where pick: "pickSlot (find (\<lambda>f. f_port f = p) kept) av = (got, av')"
    by (cases "pickSlot (find (\<lambda>f. f_port f = p) kept) av")
  have "f \<in> set (syncLoop e ws muted kept av ps fs) \<or> f \<in> set (syncLoop e ws muted kept av' ps fs)
      \<or> (\<exists>slot ex. p \<notin> set muted \<and> f \<in> set (syncLoop e ws muted kept av' ps (syncPort e ws ex p slot fs)))"
    using Cons.prems pick by (cases got) (auto simp: Let_def split: if_splits)
  then show ?case
    using Cons.IH syncPort_mem [of f e ws _ p _ fs] by (fastforce simp: keyed_def)
qed simp

text \<open>A private row of the workspace is never touched.\<close>

lemma syncLoop_private:
  assumes "f_visibility f = Private" and "f_workspaceId f = ws_id ws"
    and "find (\<lambda>g. f_port g = f_port f) kept = Some f"
  shows "f \<in> set fs \<Longrightarrow> f \<in> set (syncLoop e ws muted kept av ps fs)"
proof (induction ps arbitrary: av fs)
  case (Cons p ps)
  obtain got av' where pick: "pickSlot (find (\<lambda>f. f_port f = p) kept) av = (got, av')"
    by (cases "pickSlot (find (\<lambda>f. f_port f = p) kept) av")
  show ?case
  proof (cases "p = f_port f")
    case True
    with assms Cons show ?thesis by (simp add: Let_def privateRow_def)
  next
    case False
    then have "\<not> keyed (ws_id ws) p f" by (auto simp: keyed_def)
    then have "f \<in> set (syncPort e ws ex p slot fs)" for ex slot
      using syncPort_keep [OF Cons.prems] by blast
    with Cons pick show ?thesis by (cases got) (auto simp: Let_def)
  qed
qed simp

definition keysDistinct :: "forward list \<Rightarrow> bool" where
  "keysDistinct fs \<longleftrightarrow> distinct (map (\<lambda>f. (f_workspaceId f, f_port f)) fs)"

lemma find_distinct_key:
  "distinct (map f_port fs) \<Longrightarrow> f \<in> set fs \<Longrightarrow> find (\<lambda>g. f_port g = f_port f) fs = Some f"
  by (induction fs) (auto simp: image_iff)

lemma ports_distinct:
  "keysDistinct fs \<Longrightarrow> distinct (map f_port (filter (\<lambda>f. f_workspaceId f = wid \<and> P f) fs))"
proof (induction fs)
  case (Cons a fs)
  have "f_port a \<noteq> f_port x" if "f_workspaceId a = wid" "x \<in> set fs" "f_workspaceId x = wid" for x
    using Cons.prems that by (auto simp: keysDistinct_def image_iff)
  with Cons show ?case by (auto simp: keysDistinct_def)
qed simp

text \<open>The rows the reconciliation starts from: everything but the closed public ports.\<close>

definition keptRows :: "workspace \<Rightarrow> int list \<Rightarrow> forward list \<Rightarrow> forward list" where
  "keptRows ws ports fs = filter (\<lambda>f. f_workspaceId f = ws_id ws
     \<and> \<not> (f_visibility f = Public \<and> f_port f \<notin> set ports)) fs"

lemma syncForwards_eq:
  assumes "keysDistinct fs"
  shows "snd (syncForwards e ws ports kv fs t) =
    syncLoop e ws (filter (\<lambda>p. p \<in> set ports) (mutedPorts kv (ws_id ws) t)) (keptRows ws ports fs)
      (filter (\<lambda>s. Some s \<notin> f_slot ` set (keptRows ws ports fs)) proxySlots) (sort ports)
      (filter (\<lambda>f. f_workspaceId f \<noteq> ws_id ws \<or> f \<in> set (keptRows ws ports fs)) fs)"
proof -
  let ?closed = "map f_port (filter (\<lambda>f. f_visibility f = Public \<and> f_port f \<notin> set ports)
      (filter (\<lambda>f. f_workspaceId f = ws_id ws) fs))"
  have "\<not> (f_workspaceId f = ws_id ws \<and> f_port f \<in> set ?closed)
      \<longleftrightarrow> f_workspaceId f \<noteq> ws_id ws \<or> f \<in> set (keptRows ws ports fs)" if "f \<in> set fs" for f
  proof -
    have "g = f" if "g \<in> set fs" "f_workspaceId g = ws_id ws" "f_workspaceId f = ws_id ws" "f_port g = f_port f" for g
      using ex1_of_distinct_key [OF assms [unfolded keysDistinct_def] that(1) \<open>f \<in> set fs\<close>] that by simp
    then show ?thesis using that by (auto simp: keptRows_def)
  qed
  then have "filter (\<lambda>f. \<not> (f_workspaceId f = ws_id ws \<and> f_port f \<in> set ?closed)) fs
      = filter (\<lambda>f. f_workspaceId f \<noteq> ws_id ws \<or> f \<in> set (keptRows ws ports fs)) fs"
    by (intro filter_cong) auto
  then show ?thesis by (simp add: syncForwards_def Let_def keptRows_def filter_filter conj_commute)
qed

lemma syncForwards_inv:
  assumes "slotsOk fs" and "keysDistinct fs" and "distinct ports"
  shows "syncInv (ws_id ws) (keptRows ws ports fs)
      (filter (\<lambda>s. Some s \<notin> f_slot ` set (keptRows ws ports fs)) proxySlots) (sort ports)
      (filter (\<lambda>f. f_workspaceId f \<noteq> ws_id ws \<or> f \<in> set (keptRows ws ports fs)) fs)"
  unfolding syncInv_def
proof (intro conjI)
  show "slotsOk (filter (\<lambda>f. f_workspaceId f \<noteq> ws_id ws \<or> f \<in> set (keptRows ws ports fs)) fs)"
    by (rule slotsOk_subset [OF assms(1)]) auto
  show "\<forall>s \<in> set (filter (\<lambda>s. Some s \<notin> f_slot ` set (keptRows ws ports fs)) proxySlots).
      \<forall>f \<in> set (filter (\<lambda>f. f_workspaceId f \<noteq> ws_id ws \<or> f \<in> set (keptRows ws ports fs)) fs).
        f_workspaceId f = ws_id ws \<longrightarrow> f_slot f \<noteq> Some s"
    unfolding set_filter by (intro ballI impI notI) (metis (mono_tags, lifting) image_eqI mem_Collect_eq)
  show "\<forall>port \<in> set (sort ports). \<forall>f. find (\<lambda>f. f_port f = port) (keptRows ws ports fs) = Some f \<longrightarrow>
      f \<in> set (filter (\<lambda>f. f_workspaceId f \<noteq> ws_id ws \<or> f \<in> set (keptRows ws ports fs)) fs) \<and> keyed (ws_id ws) port f"
    by (auto simp: keyed_def keptRows_def dest!: find_SomeD)
qed (use assms in auto)

text \<open>
  The reconciliation keeps the slots unique; its rows are the private ones it found and the
  listening ports; private rows and other workspaces are untouched; no muted port comes back.
\<close>

lemma syncForwards_ok:
  assumes "slotsOk fs" and "keysDistinct fs" and "distinct ports"
  shows "slotsOk (snd (syncForwards e ws ports kv fs t))"
  unfolding syncForwards_eq [OF assms(2)]
  by (rule syncLoop_ok [OF syncForwards_inv [OF assms]])

lemma syncForwards_rows:
  assumes "keysDistinct fs" and "f \<in> set (snd (syncForwards e ws ports kv fs t))"
  shows "f \<in> set fs \<and> (f_workspaceId f = ws_id ws \<longrightarrow> f_visibility f = Private \<or> f_port f \<in> set ports)
    \<or> f_workspaceId f = ws_id ws \<and> f_port f \<in> set ports \<and> f_port f \<notin> set (mutedPorts kv (ws_id ws) t)"
proof -
  from syncLoop_mem [OF assms(2) [unfolded syncForwards_eq [OF assms(1)]]] show ?thesis
    by (auto simp: keptRows_def intro: portVisibility.exhaust)
qed

lemma syncForwards_private:
  assumes "keysDistinct fs" and "f \<in> set fs" and "f_visibility f = Private" and "f_workspaceId f = ws_id ws"
  shows "f \<in> set (snd (syncForwards e ws ports kv fs t))"
proof -
  have kept: "f \<in> set (keptRows ws ports fs)" using assms(2-4) by (simp add: keptRows_def)
  have "find (\<lambda>g. f_port g = f_port f) (keptRows ws ports fs) = Some f"
    by (rule find_distinct_key [OF _ kept]) (unfold keptRows_def, rule ports_distinct [OF assms(1)])
  then show ?thesis
    unfolding syncForwards_eq [OF assms(1)]
    by (rule syncLoop_private [OF assms(3,4)]) (use kept assms(2) in simp)
qed

text \<open>A port the user removed does not come back while it keeps listening.\<close>

lemma mutedPorts_saved: "t \<le> u \<Longrightarrow> u < t + 30 * 86400000 \<Longrightarrow> ps \<noteq> [] \<Longrightarrow>
    mutedPorts (saveMutedPorts kv wid ps t) wid u = jsSet ps"
  by (simp add: mutedPorts_def saveMutedPorts_def kvGet_def kvLive_def)

lemma set_jsSet [simp]: "set (jsSet xs) = set xs"
  by (simp add: jsSet_def)

lemma distinct_jsSet [simp]: "distinct (jsSet xs)"
  by (simp add: jsSet_def)

lemma removed_stays_removed:
  assumes "keysDistinct (forwardsT w)" and "t \<ge> now w" and "t < now w + 30 * 86400000"
  shows "wp (removeForward pf (ws_id ws) port)
     (\<lambda>_ w'. \<forall>f \<in> set (snd (syncForwards e ws ports (kvT w') (forwardsT w') t)). \<not> keyed (ws_id ws) port f)
     (\<lambda>_ w'. w' = w) w"
proof (rule wp_mono [OF wp_removeForward], elim conjE, intro ballI)
  fix w' f
  let ?m = "mutedPorts (kvT w) (ws_id ws) (now w)"
  let ?ps = "if port \<in> set ?m then ?m else ?m @ [port]"
  assume fs: "forwardsT w' = filter (\<lambda>f. \<not> keyed (ws_id ws) port f) (forwardsT w)"
    and kv: "kvT w' = saveMutedPorts (kvT w) (ws_id ws) (let m = ?m in if port \<in> set m then m else m @ [port]) (now w)"
    and f: "f \<in> set (snd (syncForwards e ws ports (kvT w') (forwardsT w') t))"
  have "keysDistinct (forwardsT w')"
    using assms(1) unfolding fs keysDistinct_def by (simp add: distinct_map_filter)
  from syncForwards_rows [OF this f]
  have "keyed (ws_id ws) port f \<Longrightarrow> port \<notin> set (mutedPorts (kvT w') (ws_id ws) t)"
    by (auto simp: keyed_def fs)
  moreover have "mutedPorts (kvT w') (ws_id ws) t = jsSet ?ps"
    using assms unfolding kv Let_def by (intro mutedPorts_saved) auto
  ultimately show "\<not> keyed (ws_id ws) port f" by (auto split: if_splits)
qed simp

end
