(* ===== verification/Activity.thy ===== *)
theory Activity
  imports Access Forwards
begin

text \<open>
  The supervisor's activity ping (\<open>app/api/sandboxes/[name]/activity/route.ts\<close>): every field is
  self-reported by the tenant's VM and bounded here; the answer is the directive the
  supervisor shows its user.
\<close>

definition PING_TTL_MS :: int where "PING_TTL_MS = 120000"
definition LAST_ACTIVE_WRITE_MS :: int where "LAST_ACTIVE_WRITE_MS = 60000"
definition CPU_STRIKE_TTL_MS :: int where "CPU_STRIKE_TTL_MS = 20 * 60000"
definition CLOCK_SKEW_MS :: int where "CLOCK_SKEW_MS = 30000"
definition BUSY_EXTENDS_MS :: int where "BUSY_EXTENDS_MS = 60 * 60000"

text \<open>The fields of the report the route reads.\<close>

record activityReport =
  ac_lastInputAt :: "int option"
  ac_busy :: bool
  ac_phase :: string
  ac_listening :: "int list option"
  ac_cpuBusyPct :: "int option"

record activityDirective =
  ad_idleStopAt :: int
  ad_sessionCapAt :: "int option"
  ad_stop :: bool
  ad_forwards :: "forward list"
  ad_serverTime :: int

definition attached :: "session list \<Rightarrow> string \<Rightarrow> bool" where
  "attached ss wid \<longleftrightarrow> (\<exists>s \<in> set ss. s_workspaceId s = wid \<and> endedAt s = None)"

definition isBusy :: "workspace \<Rightarrow> activityReport \<Rightarrow> int \<Rightarrow> bool" where
  "isBusy ws report t \<longleftrightarrow> (ac_busy report \<or> ac_phase report \<noteq> ''ready'')
     \<and> t - nullish (sessionStartedAt ws) t \<le> BUSY_EXTENDS_MS"

text \<open>\<open>Number(text ?? 0)\<close> of an instant the program stored.\<close>

definition instantOf :: "string option \<Rightarrow> int" where
  "instantOf v = (case v of None \<Rightarrow> 0 | Some s \<Rightarrow> nullish (readInt s) 0)"

definition activityInstant ::
  "workspace \<Rightarrow> activityReport \<Rightarrow> bool \<Rightarrow> kvTable \<Rightarrow> int \<Rightarrow> int" where
  "activityInstant ws report att kv t =
     (if isBusy ws report t then t
      else let floor = nullish (sessionStartedAt ws) 0 in
      (case (ac_lastInputAt report, att) of
         (Some inp, True) \<Rightarrow> min (max inp floor) (t + CLOCK_SKEW_MS)
       | _ \<Rightarrow> max (max (instantOf (kvGet kv (activityKey (ws_id ws)) t)) floor) (lastActiveAt ws)))"

definition writeActivityKeys ::
  "workspace \<Rightarrow> activityReport \<Rightarrow> bool \<Rightarrow> int \<Rightarrow> int \<Rightarrow> unit io" where
  "writeActivityKeys ws report att t activityAt =
     (let ttl = max PING_TTL_MS (2 * idleMinutes ws * 60000); busy = isBusy ws report t; wid = ws_id ws in
      bindE (kvSetE (activityKey wid) (showInt activityAt) (Some ttl) False) (\<lambda>_.
      bindE (if busy then bindE (kvSetE (busyKey wid) (ac_phase report) (Some PING_TTL_MS) False) (\<lambda>_. retE ())
             else kvDelE (busyKey wid)) (\<lambda>_.
      bindE (kvSetE (healthKey wid) (showInt t) (Some PING_TTL_MS) False) (\<lambda>_.
      bindE (case ac_listening report of None \<Rightarrow> retE ()
             | Some ports \<Rightarrow> bindE (kvSetE (listeningKey wid) (showInts (sort (jsSet ports))) (Some PING_TTL_MS) False)
                 (\<lambda>_. retE ())) (\<lambda>_.
      case ac_cpuBusyPct report of None \<Rightarrow> retE ()
      | Some cpu \<Rightarrow>
          if \<not> att \<and> \<not> busy \<and> cpu > 80
          then bindE (kvIncrE (cpuKey wid) (Some CPU_STRIKE_TTL_MS)) (\<lambda>_. retE ())
          else kvDelE (cpuKey wid))))))"

definition syncWorkspaceRow :: "workspace \<Rightarrow> activityReport \<Rightarrow> int \<Rightarrow> int \<Rightarrow> unit io" where
  "syncWorkspaceRow ws report t activityAt =
     (let reason = (if isBusy ws report t then Some (''boot:'' @ ac_phase report) else None);
          setReason = (ws_state ws = Running \<and> stateReason ws \<noteq> reason);
          setActive = (activityAt - lastActiveAt ws > LAST_ACTIVE_WRITE_MS) in
      if \<not> setReason \<and> \<not> setActive then retE ()
      else updWs (ws_id ws) (\<lambda>w r. r\<lparr>stateReason := (if setReason then reason else stateReason r),
        lastActiveAt := (if setActive then min activityAt (t + CLOCK_SKEW_MS) else lastActiveAt r),
        updatedAt := t\<rparr>))"

definition directiveFor ::
  "env \<Rightarrow> workspace \<Rightarrow> activityReport \<Rightarrow> int \<Rightarrow> int \<Rightarrow> int \<Rightarrow> forward list \<Rightarrow> activityDirective" where
  "directiveFor e ws report t activityAt keepaliveAt fs =
     (let lastActive = Max (set [activityAt, keepaliveAt, nullish (sessionStartedAt ws) 0,
            if isBusy ws report t then t else 0, lastActiveAt ws]) in
      \<lparr>ad_idleStopAt = lastActive + idleMinutes ws * 60000,
       ad_sessionCapAt = map_option (\<lambda>s. s + ZS_SESSION_CAP_MS e) (sessionStartedAt ws),
       ad_stop = (ws_state ws = Stopping), ad_forwards = fs, ad_serverTime = t\<rparr>)"

definition activityPost ::
  "platform \<Rightarrow> string option \<Rightarrow> string option \<Rightarrow> string \<Rightarrow> activityReport \<Rightarrow> activityDirective io" where
  "activityPost pf header clientIp name report =
     bindE (requireSandboxParam pf header clientIp name LimSandboxActivity) (\<lambda>ws.
     bindE (getE now) (\<lambda>t.
     bindE (getE (\<lambda>w. attached (sessionsT w) (ws_id ws))) (\<lambda>att.
     bindE (getE (\<lambda>w. activityInstant ws report att (kvT w) t)) (\<lambda>activityAt.
     thenE (writeActivityKeys ws report att t activityAt)
     (thenE (syncWorkspaceRow ws report t activityAt)
     (bindE (getE (\<lambda>w. instantOf (kvGet (kvT w) (keepaliveKey (ws_id ws)) (now w)))) (\<lambda>keepaliveAt.
     thenE (syncListeningForwards pf ws (ac_listening report))
     (bindE (getE (\<lambda>w. forwardViews (forwardsT w) (ws_id ws))) (\<lambda>fs.
     retE (directiveFor (pf_env pf) ws report t activityAt keepaliveAt fs))))))))))"

text \<open>\<open>POST /api/workspaces/{id}/keepalive\<close>: the instant until which the workspace is kept.\<close>

definition keepalivePost :: "string option \<Rightarrow> string \<Rightarrow> int io" where
  "keepalivePost sessionUser i =
     bindE (requireWorkspaceParam sessionUser i None True) (\<lambda>(v, ws).
     thenE (limit LimUserKeepalive (v_userId v))
     (bindE (getE now) (\<lambda>t.
      let ttl = idleMinutes ws * 60000 in
      bindE (kvSetE (keepaliveKey (ws_id ws)) (showInt t) (Some ttl) False) (\<lambda>_. retE (t + ttl)))))"

section \<open>Lemmas\<close>

text \<open>
  The reported instant is never trusted: at most 30 s ahead of the clock, never before the
  session, and without an attached editor it only repeats what was known.
\<close>

lemma activityInstant_bounds:
  assumes "nullish (sessionStartedAt ws) 0 \<le> t" and "lastActiveAt ws \<le> t + CLOCK_SKEW_MS"
    and "instantOf (kvGet kv (activityKey (ws_id ws)) t) \<le> t + CLOCK_SKEW_MS"
  shows "nullish (sessionStartedAt ws) 0 \<le> activityInstant ws report att kv t
    \<and> activityInstant ws report att kv t \<le> t + CLOCK_SKEW_MS"
  using assms
  by (auto simp: activityInstant_def Let_def CLOCK_SKEW_MS_def split: option.split bool.split)

lemma activityInstant_detached:
  assumes "\<not> isBusy ws report t"
  shows "activityInstant ws report False kv t
    = max (max (instantOf (kvGet kv (activityKey (ws_id ws)) t)) (nullish (sessionStartedAt ws) 0)) (lastActiveAt ws)"
  using assms by (simp add: activityInstant_def Let_def split: option.split)

lemma instantOf_show [simp]: "instantOf (Some (showInt i)) = i"
  by (simp add: instantOf_def)

text \<open>A busy report stops counting an hour after the VM session started.\<close>

lemma busy_bounded: "isBusy ws report t \<Longrightarrow> sessionStartedAt ws = Some s \<Longrightarrow> t \<le> s + 3600000"
  by (simp add: isBusy_def BUSY_EXTENDS_MS_def)

lemma directive_idle: "ad_idleStopAt (directiveFor e ws report t a k fs) \<ge> a + idleMinutes ws * 60000
    \<and> ad_idleStopAt (directiveFor e ws report t a k fs) \<ge> k + idleMinutes ws * 60000"
  by (simp add: directiveFor_def Let_def)

end
