(* ===== verification/Concurrency.thy ===== *)
theory Concurrency
  imports Platform
begin

text \<open>
  \<open>mapConcurrent\<close> (\<open>lib/concurrency.ts\<close>) as a state machine. JavaScript runs one piece of
  code at a time: a worker takes the next index without yielding, then awaits \<open>fn\<close>; which
  pending \<open>fn\<close> settles first is the schedule, a list of moves. \<open>pooled\<close> is the relation of
  the reachable states; \<open>settleEach\<close> is the schedule with one worker, on the world.
\<close>

section \<open>The pool\<close>

text \<open>
  A worker between items, awaiting the item of an index, or returned. A settled item is
  \<open>fulfilled\<close> (\<open>Inr\<close>) or \<open>rejected\<close> (\<open>Inl\<close>).
\<close>

datatype workerState = Ready | Awaiting nat | Returned

record ('e, 'r) pool =
  pl_next :: nat
  pl_workers :: "workerState list"
  pl_results :: "('e + 'r) option list"

text \<open>\<open>limit = Math.max(1, Math.floor(n))\<close>, and the workers it starts.\<close>

definition poolLimit :: "int \<Rightarrow> nat" where
  "poolLimit n = nat (max 1 n)"

definition poolStart :: "nat \<Rightarrow> int \<Rightarrow> ('e, 'r) pool" where
  "poolStart len n = \<lparr>pl_next = 0, pl_workers = replicate (min (poolLimit n) len) Ready,
     pl_results = replicate len None\<rparr>"

text \<open>
  \<open>Take k\<close>: worker \<open>k\<close> tests the loop's condition and takes an index or returns. \<open>Settle k r\<close>:
  the item worker \<open>k\<close> awaits settles with \<open>r\<close>.
\<close>

datatype ('e, 'r) move = Take nat | Settle nat "'e + 'r"

fun poolStep :: "('e, 'r) move \<Rightarrow> ('e, 'r) pool \<Rightarrow> ('e, 'r) pool option" where
  "poolStep (Take k) p =
     (if k < length (pl_workers p) \<and> pl_workers p ! k = Ready
      then if pl_next p < length (pl_results p)
        then Some (p\<lparr>pl_next := Suc (pl_next p), pl_workers := (pl_workers p)[k := Awaiting (pl_next p)]\<rparr>)
        else Some (p\<lparr>pl_workers := (pl_workers p)[k := Returned]\<rparr>)
      else None)"
| "poolStep (Settle k r) p =
     (if k < length (pl_workers p) then
        (case pl_workers p ! k of
           Awaiting i \<Rightarrow> Some (p\<lparr>pl_workers := (pl_workers p)[k := Ready], pl_results := (pl_results p)[i := Some r]\<rparr>)
         | _ \<Rightarrow> None)
      else None)"

fun poolRun :: "('e, 'r) move list \<Rightarrow> ('e, 'r) pool \<Rightarrow> ('e, 'r) pool option" where
  "poolRun [] p = Some p"
| "poolRun (m # ms) p = (case poolStep m p of None \<Rightarrow> None | Some q \<Rightarrow> poolRun ms q)"

text \<open>\<open>await Promise.all(workers)\<close>: every worker has returned.\<close>

definition poolDone :: "('e, 'r) pool \<Rightarrow> bool" where
  "poolDone p \<longleftrightarrow> (\<forall>s \<in> set (pl_workers p). s = Returned)"

text \<open>The reachable states; \<open>ok i r\<close> says what \<open>fn\<close> may settle item \<open>i\<close> with.\<close>

inductive pooled :: "(nat \<Rightarrow> 'e + 'r \<Rightarrow> bool) \<Rightarrow> nat \<Rightarrow> int \<Rightarrow> ('e, 'r) pool \<Rightarrow> bool"
  for ok :: "nat \<Rightarrow> 'e + 'r \<Rightarrow> bool" and len :: nat and n :: int where
  start: "pooled ok len n (poolStart len n)"
| take: "pooled ok len n p \<Longrightarrow> poolStep (Take k) p = Some q \<Longrightarrow> pooled ok len n q"
| settle: "pooled ok len n p \<Longrightarrow> pl_workers p ! k = Awaiting i \<Longrightarrow> ok i r \<Longrightarrow>
    poolStep (Settle k r) p = Some q \<Longrightarrow> pooled ok len n q"

inductive_cases pooledE: "pooled ok len n p"

section \<open>One item after the other, on the world\<close>

fun settleEach :: "('a \<Rightarrow> 'b io) \<Rightarrow> 'a list \<Rightarrow> (err + 'b) list io" where
  "settleEach f [] = retE []"
| "settleEach f (x # xs) =
     bindE (catchE (bindE (f x) (\<lambda>y. retE (Inr y))) (\<lambda>e. retE (Inl e))) (\<lambda>r.
     bindE (settleEach f xs) (\<lambda>rs. retE (r # rs)))"

section \<open>Lemmas\<close>

text \<open>
  The invariant: an index below \<open>next\<close> is awaited by exactly one worker or has its result;
  none above has been touched.
\<close>

definition awaited :: "('e, 'r) pool \<Rightarrow> nat set" where
  "awaited p = {i. Awaiting i \<in> set (pl_workers p)}"

definition soleWorker :: "('e, 'r) pool \<Rightarrow> bool" where
  "soleWorker p \<longleftrightarrow> (\<forall>j k i. j < length (pl_workers p) \<longrightarrow> k < length (pl_workers p) \<longrightarrow>
     pl_workers p ! j = Awaiting i \<longrightarrow> pl_workers p ! k = Awaiting i \<longrightarrow> j = k)"

definition settledOk :: "(nat \<Rightarrow> 'e + 'r \<Rightarrow> bool) \<Rightarrow> ('e, 'r) pool \<Rightarrow> bool" where
  "settledOk ok p \<longleftrightarrow> (\<forall>i < length (pl_results p).
     (case pl_results p ! i of None \<Rightarrow> i \<ge> pl_next p \<or> i \<in> awaited p
      | Some r \<Rightarrow> ok i r \<and> i < pl_next p \<and> i \<notin> awaited p))"

definition poolOk :: "(nat \<Rightarrow> 'e + 'r \<Rightarrow> bool) \<Rightarrow> nat \<Rightarrow> int \<Rightarrow> ('e, 'r) pool \<Rightarrow> bool" where
  "poolOk ok len n p \<longleftrightarrow> length (pl_results p) = len \<and> length (pl_workers p) = min (poolLimit n) len
     \<and> pl_next p \<le> len \<and> awaited p \<subseteq> {..<pl_next p} \<and> soleWorker p \<and> settledOk ok p
     \<and> (Returned \<in> set (pl_workers p) \<longrightarrow> pl_next p = len)"

lemma awaited_Take: "k < length ws \<Longrightarrow> ws ! k = Ready \<Longrightarrow>
    Awaiting i \<in> set (ws[k := Awaiting n]) \<longleftrightarrow> Awaiting i \<in> set ws \<or> i = n"
  by (auto simp: in_set_conv_nth nth_list_update) (metis length_list_update nth_list_update_eq workerState.distinct(1) nth_list_update_neq)+

lemma awaited_Drop: "k < length ws \<Longrightarrow> s = Ready \<or> s = Returned \<Longrightarrow>
    Awaiting i \<in> set (ws[k := s]) \<longleftrightarrow> (\<exists>j < length ws. j \<noteq> k \<and> ws ! j = Awaiting i)"
  by (auto simp: in_set_conv_nth nth_list_update split: if_splits)

lemma poolOk_start: "poolOk ok len n (poolStart len n)"
  by (auto simp: poolOk_def poolStart_def awaited_def soleWorker_def settledOk_def)

lemma poolOk_take:
  assumes ok: "poolOk ok len n p" and k: "k < length (pl_workers p)" "pl_workers p ! k = Ready"
    and more: "pl_next p < len"
  shows "poolOk ok len n (p\<lparr>pl_next := Suc (pl_next p), pl_workers := (pl_workers p)[k := Awaiting (pl_next p)]\<rparr>)"
proof -
  let ?q = "p\<lparr>pl_next := Suc (pl_next p), pl_workers := (pl_workers p)[k := Awaiting (pl_next p)]\<rparr>"
  have aw: "awaited ?q = insert (pl_next p) (awaited p)"
    using awaited_Take [OF k] by (auto simp: awaited_def)
  have fresh: "j < length (pl_workers p) \<Longrightarrow> pl_workers p ! j \<noteq> Awaiting (pl_next p)" for j
    using ok nth_mem [of j "pl_workers p"] by (fastforce simp: poolOk_def awaited_def)
  have "soleWorker ?q"
    using ok fresh unfolding poolOk_def soleWorker_def
    by (simp add: nth_list_update [OF k(1)] split: if_splits) blast
  moreover have "settledOk ok ?q"
    using ok unfolding poolOk_def settledOk_def aw
    by (auto split: option.splits)
  moreover have "Returned \<notin> set ((pl_workers p)[k := Awaiting (pl_next p)])"
  proof
    assume "Returned \<in> set ((pl_workers p)[k := Awaiting (pl_next p)])"
    then have "Returned \<in> set (pl_workers p)"
      using set_update_subset_insert [of "pl_workers p" k "Awaiting (pl_next p)"] by auto
    then show False using ok more by (simp add: poolOk_def)
  qed
  ultimately show ?thesis
    using ok more by (auto simp: poolOk_def aw)
qed

lemma poolOk_return:
  assumes ok: "poolOk ok len n p" and k: "k < length (pl_workers p)" "pl_workers p ! k = Ready"
    and "\<not> pl_next p < len"
  shows "poolOk ok len n (p\<lparr>pl_workers := (pl_workers p)[k := Returned]\<rparr>)"
proof -
  let ?q = "p\<lparr>pl_workers := (pl_workers p)[k := Returned]\<rparr>"
  have aw: "awaited ?q = awaited p"
  proof -
    have "Awaiting x \<in> set ((pl_workers p)[k := Returned]) \<longleftrightarrow> Awaiting x \<in> set (pl_workers p)" for x
      unfolding awaited_Drop [OF k(1) disjI2 [OF refl]] in_set_conv_nth [of _ "pl_workers p"] using k(2)
      by (metis workerState.distinct(1))
    then show ?thesis by (simp add: awaited_def)
  qed
  have "soleWorker ?q"
    using ok unfolding poolOk_def soleWorker_def by (simp add: nth_list_update [OF k(1)] split: if_splits)
  moreover have "settledOk ok ?q"
    using ok unfolding poolOk_def settledOk_def aw by (auto split: option.splits)
  ultimately show ?thesis using assms(1,4) by (auto simp: poolOk_def aw)
qed

lemma poolOk_settle:
  assumes ok: "poolOk ok len n p" and k: "k < length (pl_workers p)" "pl_workers p ! k = Awaiting i"
    and r: "ok i r"
  shows "poolOk ok len n (p\<lparr>pl_workers := (pl_workers p)[k := Ready], pl_results := (pl_results p)[i := Some r]\<rparr>)"
proof -
  let ?q = "p\<lparr>pl_workers := (pl_workers p)[k := Ready], pl_results := (pl_results p)[i := Some r]\<rparr>"
  have sole: "\<And>j. j < length (pl_workers p) \<Longrightarrow> pl_workers p ! j = Awaiting i \<Longrightarrow> j = k"
    using ok k unfolding poolOk_def soleWorker_def by blast
  have mem: "i \<in> awaited p" using k by (auto simp: awaited_def in_set_conv_nth)
  then have i: "i < pl_next p" using ok by (auto simp: poolOk_def)
  have aw: "awaited ?q = awaited p - {i}"
  proof -
    have "Awaiting x \<in> set ((pl_workers p)[k := Ready]) \<longleftrightarrow> Awaiting x \<in> set (pl_workers p) \<and> x \<noteq> i" for x
      unfolding awaited_Drop [OF k(1) disjI1 [OF refl]] in_set_conv_nth [of _ "pl_workers p"] using k(2) sole
      by (metis workerState.inject)
    then show ?thesis by (auto simp: awaited_def)
  qed
  have "soleWorker ?q"
    using ok unfolding poolOk_def soleWorker_def by (simp add: nth_list_update [OF k(1)] split: if_splits)
  moreover have "settledOk ok ?q"
    using ok r i unfolding poolOk_def settledOk_def aw
    by (auto simp: nth_list_update split: option.splits)
  moreover have "Returned \<in> set ((pl_workers p)[k := Ready]) \<Longrightarrow> Returned \<in> set (pl_workers p)"
    using set_update_subset_insert [of "pl_workers p" k Ready] by auto
  ultimately show ?thesis using ok by (auto simp: poolOk_def aw)
qed

lemma pooled_ok: "pooled ok len n p \<Longrightarrow> poolOk ok len n p"
proof (induction rule: pooled.induct)
  case start
  show ?case by (rule poolOk_start)
next
  case (take p k q)
  then have "length (pl_results p) = len" by (simp add: poolOk_def)
  then show ?case using take poolOk_take poolOk_return
    by (auto split: if_splits)
next
  case (settle p k i r q)
  then show ?case using poolOk_settle by (fastforce split: if_splits)
qed

text \<open>
  At most \<open>limit\<close> items are in flight, the pool never blocks, every move makes progress, and
  when it is done every item has settled, its result at its own index.
\<close>

lemma inFlight_card: "card (awaited p) \<le> length (pl_workers p)"
proof -
  have "awaited p \<subseteq> (\<lambda>s. case s of Awaiting i \<Rightarrow> i | _ \<Rightarrow> 0) ` set (pl_workers p)"
    by (auto simp: awaited_def image_iff intro!: bexI [where x = "Awaiting _"])
  then have "card (awaited p) \<le> card ((\<lambda>s. case s of Awaiting i \<Rightarrow> i | _ \<Rightarrow> 0) ` set (pl_workers p))"
    by (rule card_mono [rotated]) simp
  also have "\<dots> \<le> length (pl_workers p)"
    using card_image_le [of "set (pl_workers p)"] card_length [of "pl_workers p"] by (meson List.finite_set le_trans)
  finally show ?thesis .
qed

lemma pooled_done:
  assumes "pooled ok len n p" and "poolDone p" and "i < len"
  shows "\<exists>r. pl_results p ! i = Some r \<and> ok i r"
proof -
  have ok: "poolOk ok len n p" using assms(1) by (rule pooled_ok)
  have none: "awaited p = {}" using assms(2) by (auto simp: awaited_def poolDone_def)
  have "pl_workers p \<noteq> []" using ok assms(3) by (auto simp: poolOk_def poolLimit_def)
  then have "Returned \<in> set (pl_workers p)"
    using assms(2) hd_in_set unfolding poolDone_def by metis
  then have "pl_next p = len" and "length (pl_results p) = len" and "settledOk ok p"
    using ok by (auto simp: poolOk_def)
  then show ?thesis using assms(3) none by (auto simp: settledOk_def split: option.splits)
qed

text \<open>Two moves per item, one per worker: the schedule ends.\<close>

fun workLeft :: "workerState \<Rightarrow> nat" where
  "workLeft Ready = 1"
| "workLeft (Awaiting i) = 2"
| "workLeft Returned = 0"

definition poolWork :: "('e, 'r) pool \<Rightarrow> nat" where
  "poolWork p = 2 * (length (pl_results p) - pl_next p) + sum_list (map workLeft (pl_workers p))"

lemma sum_list_update_nat: "k < length ws \<Longrightarrow> sum_list (map f (ws[k := x])) + f (ws ! k) = sum_list (map f ws) + (f x :: nat)"
  by (induction ws arbitrary: k) (auto split: nat.splits)

lemma poolStep_work: "poolStep m p = Some q \<Longrightarrow> poolWork q < poolWork p"
proof (cases m)
  case (Take k)
  assume "poolStep m p = Some q"
  then show ?thesis
    using Take sum_list_update_nat [of k "pl_workers p" workLeft "Awaiting (pl_next p)"]
      sum_list_update_nat [of k "pl_workers p" workLeft Returned]
    by (auto simp: poolWork_def split: if_splits)
next
  case (Settle k r)
  assume "poolStep m p = Some q"
  then show ?thesis
    using Settle sum_list_update_nat [of k "pl_workers p" workLeft Ready]
    by (auto simp: poolWork_def split: if_splits workerState.splits)
qed

lemma poolStep_live:
  assumes "\<not> poolDone p"
  shows "\<exists>m q. poolStep m p = Some q"
proof -
  obtain k where k: "k < length (pl_workers p)" "pl_workers p ! k \<noteq> Returned"
    using assms by (auto simp: poolDone_def in_set_conv_nth)
  then show ?thesis
    by (cases "pl_workers p ! k") (intro exI [where x = "Take k"] exI [where x = "Settle k undefined"]; auto)+
qed

lemma wp_settleEach_inv:
  fixes f :: "'a \<Rightarrow> 'b io"
  assumes "I w" and "\<And>x. x \<in> set xs \<Longrightarrow> keeps (f x) I"
  shows "wp (settleEach f xs) (\<lambda>rs v. I v \<and> length rs = length xs) (\<lambda>_ _. False) w"
  using assms
proof (induction xs arbitrary: w)
  case Nil
  then show ?case by (simp add: wp_simps)
next
  case (Cons x xs)
  have head: "wp (f x) (\<lambda>_. I) (\<lambda>_. I) w" using Cons.prems by (simp add: keepsD)
  have tail: "wp (settleEach f xs) (\<lambda>rs v. I v \<and> length rs = length xs) (\<lambda>_ _. False) v" if "I v" for v
    using that Cons.prems(2) by (intro Cons.IH) auto
  have rest: "wp (settleEach f xs) (\<lambda>rs v. I v \<and> length ((r :: err + 'b) # rs) = length (x # xs)) (\<lambda>_ _. False) v"
    if "I v" for v r
    by (rule wp_mono [OF tail [OF that]]) simp_all
  show ?case
    unfolding settleEach.simps wp_bind wp_catch wp_ret
    by (rule wp_mono [OF head]) (use rest in blast)+
qed

text \<open>
  One item brings \<open>J\<close> about, the others keep it: \<open>J\<close> holds after the pass.
\<close>

lemma wp_settleEach_hit:
  fixes f :: "'a \<Rightarrow> 'b io"
  assumes "I w" and "item \<in> set xs" and "\<And>x. x \<in> set xs \<Longrightarrow> keeps (f x) I" and "\<And>x. x \<in> set xs \<Longrightarrow> keeps (f x) J"
    and hit: "\<And>v. I v \<Longrightarrow> wp (f item) (\<lambda>_. J) (\<lambda>_. J) v"
  shows "wp (settleEach f xs) (\<lambda>_. J) (\<lambda>_ _. False) w"
  using assms(1-4)
proof (induction xs arbitrary: w)
  case Nil
  then show ?case by simp
next
  case (Cons x xs)
  show ?case
  proof (cases "x = item")
    case True
    have "wp (settleEach f xs) (\<lambda>_. J) (\<lambda>_ _. False) v" if "J v" for v
      by (rule wp_mono [OF wp_settleEach_inv [where I = J]]) (use that Cons.prems(4) in auto)
    moreover have "wp (f x) (\<lambda>_. J) (\<lambda>_. J) w" using True hit Cons.prems(1) by simp
    ultimately show ?thesis
      unfolding settleEach.simps wp_bind wp_catch wp_ret by (blast intro: wp_mono)
  next
    case False
    then have "wp (settleEach f xs) (\<lambda>_. J) (\<lambda>_ _. False) v" if "I v" for v
      using that Cons.prems(2-4) by (intro Cons.IH) auto
    moreover have "wp (f x) (\<lambda>_. I) (\<lambda>_. I) w" using Cons.prems(1,3) by (simp add: keepsD)
    ultimately show ?thesis
      unfolding settleEach.simps wp_bind wp_catch wp_ret by (blast intro: wp_mono)
  qed
qed

end
