(* ===== verification/Sweep.thy ===== *)
theory Sweep
  imports Activity Concurrency
begin

text \<open>
  The every-minute sweep (\<open>app/api/cron/sweep/route.ts\<close>): runs the store calls finished are
  released, lost VMs, abuse, idle workspaces and sessions near the platform's cap are stopped,
  the rolling platform timeout is extended. \<open>mapConcurrent\<close> is taken one row after the other
  (\<open>settleEach\<close>); the rows it works on are distinct. The audit table and the login library's
  tables are not kept.
\<close>

definition BUDGET_MS :: int where "BUDGET_MS = 50000"
definition LOCK_MS :: int where "LOCK_MS = 55000"
definition RUN_UNKNOWN_STALE_MS :: int where "RUN_UNKNOWN_STALE_MS = 60 * 60000"
definition PING_LOST_MS :: int where "PING_LOST_MS = 5 * 60000"
definition CPU_STRIKES :: int where "CPU_STRIKES = 30"
definition EXTEND_HORIZON_MS :: int where "EXTEND_HORIZON_MS = 12600000"
definition EXTEND_MIN_GAIN_MS :: int where "EXTEND_MIN_GAIN_MS = 30 * 60000"
definition CAP_LEAD_MS :: int where "CAP_LEAD_MS = 30 * 60000"
definition CAP_RESTART_RECENT_MS :: int where "CAP_RESTART_RECENT_MS = 2 * 3600000"

section \<open>Runs\<close>

definition releaseRun :: "runStatus \<Rightarrow> int \<Rightarrow> workspace \<Rightarrow> workspace" where
  "releaseRun status t r = (let freed = r\<lparr>workflowRunId := None, workflowRunStartedAt := None, updatedAt := t\<rparr> in
     if status = RunCompleted then freed
     else freed\<lparr>ws_state := ErrorState, stateReason := Some (''run_'' @ runStatusText status)\<rparr>)"

definition runLost :: "runStatus \<Rightarrow> workspace \<Rightarrow> int \<Rightarrow> bool" where
  "runLost status row t \<longleftrightarrow> status \<noteq> RunPending \<and> status \<noteq> RunRunning
     \<and> (status = RunUnknown \<longrightarrow> t - nullish (workflowRunStartedAt row) 0 > RUN_UNKNOWN_STALE_MS)"

definition reconcileRun :: "platform \<Rightarrow> int \<Rightarrow> workspace \<Rightarrow> bool io" where
  "reconcileRun pf t row =
     (if \<not> truthy (workflowRunId row) then retE False
      else let runId = nullish (workflowRunId row) [] in
      bindE (runStatusOf pf runId) (\<lambda>status.
      if \<not> runLost status row t then retE False
      else thenE (settleRun (ws_id row) runId (\<lambda>_. releaseRun status t)) (retE True)))"

definition succeeded :: "(err + bool) list \<Rightarrow> int" where
  "succeeded rs = int (length (filter (\<lambda>r. case r of Inl _ \<Rightarrow> False | Inr b \<Rightarrow> b) rs))"

definition reconcileRuns :: "platform \<Rightarrow> int \<Rightarrow> int io" where
  "reconcileRuns pf t =
     bindE (getE (\<lambda>w. filter (\<lambda>r. workflowRunId r \<noteq> None \<and> deletedAt r = None) (workspacesT w))) (\<lambda>stuck.
     bindE (settleEach (reconcileRun pf t) stuck) (\<lambda>rs. retE (succeeded rs)))"

section \<open>One running workspace\<close>

text \<open>Which counter of \<open>SweepResult\<close> an item adds to: each adds to one at most, as its last act.\<close>

datatype sweepOutcome = SwNone | SwStopped | SwExtended | SwCapped | SwLost | SwAbuse | SwSkipped

text \<open>What the sweep reads of a workspace before the pass: the values of its keys, its session.\<close>

record sweepFacts =
  sf_activity :: "string option"
  sf_keepalive :: "string option"
  sf_health :: "string option"
  sf_cpu :: "string option"
  sf_busy :: "string option"
  sf_attached :: bool

definition stopFor :: "platform \<Rightarrow> workspace \<Rightarrow> stopReason \<Rightarrow> unit io" where
  "stopFor pf row reason =
     thenE (startLifecycle pf (ws_id row) (StopWorkspaceRun (ws_id row) reason False)) (retE ())"

definition reconcileVm :: "platform \<Rightarrow> workspace \<Rightarrow> int \<Rightarrow> bool io" where
  "reconcileVm pf row t =
     (if t - updatedAt row \<le> PING_LOST_MS then retE False
      else bindE (apiGet pf (sandboxName row) False) (\<lambda>peek.
        if (case peek of None \<Rightarrow> True | Some (h, _) \<Rightarrow> h_status h \<in> {StStopped, StFailed, StAborted})
        then thenE (stopFor pf row SrLost) (retE True)
        else retE False))"

definition extendTimeout :: "platform \<Rightarrow> workspace \<Rightarrow> int \<Rightarrow> sweepOutcome io" where
  "extendTimeout pf row t =
     (let e = pf_env pf;
          capAt = nullish (sessionStartedAt row) t + ZS_SESSION_CAP_MS e;
          desired = min (t + ZS_SESSION_TIMEOUT_MS e) capAt;
          expiresAt = nullish (sandboxExpiresAt row) 0 in
      if expiresAt - t \<ge> EXTEND_HORIZON_MS then retE SwNone
      else if desired - expiresAt \<le> EXTEND_MIN_GAIN_MS then retE SwNone
      else bindE (apiGet pf (sandboxName row) False) (\<lambda>peek. case peek of
        None \<Rightarrow> retE SwNone
      | Some (h, _) \<Rightarrow>
          if h_status h \<noteq> StRunning then retE SwNone
          else let ms = desired - nullish (h_expiresAt h) t in
            thenE (extE pf (\<lambda>_. EvExtend (h_name h) ms) (\<lambda>n. pf_extend pf n (h_name h) ms))
            (thenE (updWs (ws_id row) (\<lambda>_ r. r\<lparr>sandboxExpiresAt := Some desired\<rparr>))
            (retE SwExtended))))"

definition lastActiveOf :: "workspace \<Rightarrow> sweepFacts \<Rightarrow> int \<Rightarrow> int" where
  "lastActiveOf row facts t = Max (set [instantOf (sf_activity facts), instantOf (sf_keepalive facts),
     nullish (sessionStartedAt row) t, lastActiveAt row])"

definition idleDue :: "workspace \<Rightarrow> sweepFacts \<Rightarrow> int \<Rightarrow> bool" where
  "idleDue row facts t \<longleftrightarrow> t - lastActiveOf row facts t \<ge> idleMinutes row * 60000 \<and> sf_busy facts = None"

definition capDue :: "env \<Rightarrow> workspace \<Rightarrow> int \<Rightarrow> bool" where
  "capDue e row t \<longleftrightarrow> t - nullish (sessionStartedAt row) t \<ge> ZS_SESSION_CAP_MS e - CAP_LEAD_MS"

definition recentlyUsed :: "sweepFacts \<Rightarrow> int \<Rightarrow> bool" where
  "recentlyUsed facts t \<longleftrightarrow> sf_attached facts
     \<or> t - max (instantOf (sf_keepalive facts)) (instantOf (sf_activity facts)) \<le> CAP_RESTART_RECENT_MS"

definition flagUser :: "string \<Rightarrow> int \<Rightarrow> unit io" where
  "flagUser uid t = modE (\<lambda>w. w\<lparr>usersT := updateWhere (\<lambda>u. u_id u = uid)
     (\<lambda>u. u\<lparr>u_flaggedAt := Some t, u_flagReason := Some ''sustained_cpu_no_session'', u_updatedAt := t\<rparr>)
     (usersT w)\<rparr>)"

definition sweepRow :: "platform \<Rightarrow> int \<Rightarrow> workspace \<Rightarrow> sweepFacts \<Rightarrow> sweepOutcome io" where
  "sweepRow pf t row facts =
     bindE (if sf_health facts = None then reconcileVm pf row t else retE False) (\<lambda>lost.
     if lost then retE SwLost
     else if instantOf (sf_cpu facts) \<ge> CPU_STRIKES
     then thenE (stopFor pf row SrAbuse) (thenE (flagUser (ownerUserId row) t) (retE SwAbuse))
     else if idleDue row facts t then thenE (stopFor pf row SrIdle) (retE SwStopped)
     else if capDue (pf_env pf) row t
     then if recentlyUsed facts t
       then thenE (startLifecycle pf (ws_id row) (RestartSessionRun (ws_id row))) (retE SwCapped)
       else thenE (stopFor pf row SrCap) (retE SwStopped)
     else extendTimeout pf row t)"

definition sweepItem :: "platform \<Rightarrow> int \<Rightarrow> int \<Rightarrow> workspace \<times> sweepFacts \<Rightarrow> sweepOutcome io" where
  "sweepItem pf t budgetEnd rf =
     bindE (getE now) (\<lambda>date. if date > budgetEnd then retE SwSkipped else sweepRow pf t (fst rf) (snd rf))"

section \<open>The pass\<close>

record sweepResult =
  sw_stopped :: int
  sw_extended :: int
  sw_capped :: int
  sw_reconciledRuns :: int
  sw_reconciledVms :: int
  sw_abuse :: int
  sw_skipped :: int

definition countOf :: "sweepOutcome \<Rightarrow> (err + sweepOutcome) list \<Rightarrow> int" where
  "countOf c rs = int (length (filter (\<lambda>r. r = Inr c) rs))"

definition openSessionWorkspaces :: "session list \<Rightarrow> string list \<Rightarrow> string list" where
  "openSessionWorkspaces ss ids =
     (if ids = [] then [] else map s_workspaceId (filter (\<lambda>s. s_workspaceId s \<in> set ids \<and> endedAt s = None) ss))"

definition sweepable :: "workspace \<Rightarrow> bool" where
  "sweepable r \<longleftrightarrow> ws_state r = Running \<and> workflowRunId r = None \<and> deletedAt r = None"

text \<open>The five \<open>mget\<close>s and the open sessions, one \<open>sweepFacts\<close> per row.\<close>

definition factsOf :: "workspace list \<Rightarrow> world \<Rightarrow> (workspace \<times> sweepFacts) list" where
  "factsOf rows w =
     (let vals = (\<lambda>key. kvMget (kvT w) (map (\<lambda>r. key (ws_id r)) rows) (now w));
          open = openSessionWorkspaces (sessionsT w) (map ws_id rows) in
      map (\<lambda>i. (rows ! i, \<lparr>sf_activity = vals activityKey ! i, sf_keepalive = vals keepaliveKey ! i,
             sf_health = vals healthKey ! i, sf_cpu = vals cpuKey ! i, sf_busy = vals busyKey ! i,
             sf_attached = ws_id (rows ! i) \<in> set open\<rparr>)) [0..<length rows])"

definition sweep :: "platform \<Rightarrow> int \<Rightarrow> sweepResult io" where
  "sweep pf t =
     bindE (reconcileRuns pf t) (\<lambda>reconciled.
     bindE (getE (\<lambda>w. filter sweepable (workspacesT w))) (\<lambda>running.
     bindE (if running = [] then retE []
            else bindE (getE (factsOf running)) (\<lambda>rows. settleEach (sweepItem pf t (t + BUDGET_MS)) rows)) (\<lambda>rs.
     retE \<lparr>sw_stopped = countOf SwStopped rs, sw_extended = countOf SwExtended rs,
       sw_capped = countOf SwCapped rs, sw_reconciledRuns = reconciled,
       sw_reconciledVms = countOf SwLost rs, sw_abuse = countOf SwAbuse rs,
       sw_skipped = countOf SwSkipped rs\<rparr>)))"

definition sweepGet :: "platform \<Rightarrow> string option \<Rightarrow> sweepResult option io" where
  "sweepGet pf header =
     thenE (requireCronSecret (pf_env pf) header)
     (thenE (modE (\<lambda>w. w\<lparr>kvT := sweepExpiredKv (kvT w) (now w)\<rparr>))
     (withLock pf (lockKey ''sweep'') LOCK_MS (bindE (getE now) (\<lambda>t. sweep pf t))))"

section \<open>Lemmas\<close>

subsection \<open>Runs\<close>

definition hasRun :: "string \<Rightarrow> (workspace \<Rightarrow> bool) \<Rightarrow> world \<Rightarrow> bool" where
  "hasRun wid P w \<longleftrightarrow> (\<exists>r. rowOf w wid = Some r \<and> P r)"

lemma hasRun_frame [simp]: "hasRun wid P (w\<lparr>tick := a, now := b, trace := c\<rparr>) = hasRun wid P w"
  by (simp add: hasRun_def)

lemma releaseRun_id [simp]: "ws_id (releaseRun status t r) = ws_id r"
  "workflowRunId (releaseRun status t r) = None"
  by (simp_all add: releaseRun_def Let_def)

lemma hasRun_settle:
  assumes "hasRun wid P w"
    and "\<And>r. P r \<Longrightarrow> v = wid \<Longrightarrow> workflowRunId r = Some i \<Longrightarrow> Q (f r)"
    and "\<And>r. P r \<Longrightarrow> v \<noteq> wid \<or> workflowRunId r \<noteq> Some i \<Longrightarrow> Q r"
    and "\<And>r. ws_id (f r) = ws_id r"
  shows "hasRun wid Q (w\<lparr>tick := a, now := b, trace := c, workspacesT := updateWhere (\<lambda>r. ws_id r = v)
    (\<lambda>r. if workflowRunId r = Some i then f r else r) (workspacesT w)\<rparr>)"
proof -
  let ?u = "w\<lparr>tick := a, now := b, trace := c\<rparr>"
  let ?g = "\<lambda>r. if workflowRunId r = Some i then f r else r"
  have "rowOf (?u\<lparr>workspacesT := updateWhere (\<lambda>r. ws_id r = v) ?g (workspacesT ?u)\<rparr>) wid
      = (if v = wid then map_option ?g (rowOf ?u wid) else rowOf ?u wid)"
    by (rule rowOf_upd_gen) (simp add: assms(4))
  moreover obtain r where "rowOf w wid = Some r" "P r" using assms(1) by (auto simp: hasRun_def)
  moreover have "v = wid \<Longrightarrow> Q (?g r)" "v \<noteq> wid \<Longrightarrow> Q r" using assms(2,3) \<open>P r\<close> by auto
  ultimately show ?thesis by (cases "v = wid") (simp_all add: hasRun_def)
qed

lemma keeps_reconcileRun:
  assumes "\<And>i status n r. workflowRunId x = Some i \<Longrightarrow> i \<noteq> [] \<Longrightarrow> ws_id x = wid \<Longrightarrow> workflowRunId r = Some i \<Longrightarrow>
      runLost (nullish (pf_runStatus pf n i) RunUnknown) x t \<Longrightarrow> P r \<Longrightarrow> P (releaseRun status t r)"
  shows "keeps (reconcileRun pf t x) (hasRun wid P)"
proof (cases "workflowRunId x")
  case None
  then show ?thesis by (simp add: reconcileRun_def keeps_ret)
next
  case (Some i)
  show ?thesis
  proof (rule keepsI)
    fix w assume "hasRun wid P w"
    then show "wp (reconcileRun pf t x) (\<lambda>_. hasRun wid P) (\<lambda>_. hasRun wid P) w"
      using assms [of i] Some
      by (auto simp: reconcileRun_def wp_simps Let_def settleRun_def intro!: hasRun_settle [where P = P])
  qed
qed

text \<open>
  A run the store reports as pending or running is left alone; one it reports as ended is
  released by the next pass, whatever the other rows do.
\<close>

lemma wp_reconcileRuns:
  assumes "wp (settleEach (reconcileRun pf t)
      (filter (\<lambda>r. workflowRunId r \<noteq> None \<and> deletedAt r = None) (workspacesT w))) (\<lambda>_. J) (\<lambda>_ _. False) w"
  shows "wp (reconcileRuns pf t) (\<lambda>_. J) (\<lambda>_ _. False) w"
proof -
  have ret: "wp (retE x) Q E = Q x" for x :: int and Q and E :: "err \<Rightarrow> world \<Rightarrow> bool"
    by (simp add: fun_eq_iff wp_ret)
  show ?thesis using assms by (simp add: reconcileRuns_def wp_bind wp_get ret)
qed

lemma reconcileRuns_live:
  assumes row: "rowOf w wid = Some r" and run: "workflowRunId r = Some i"
    and live: "\<And>n. pf_runStatus pf n i \<in> {Some RunPending, Some RunRunning}"
  shows "wp (reconcileRuns pf t) (\<lambda>_ w'. rowOf w' wid = Some r) (\<lambda>_ _. False) w"
proof -
  have notLost: "\<not> runLost (nullish (pf_runStatus pf n i) RunUnknown) x t" for n x
    using live [of n] by (auto simp: runLost_def)
  have "keeps (reconcileRun pf t x) (hasRun wid (\<lambda>r'. r' = r))" for x
    by (rule keeps_reconcileRun) (use notLost run in auto)
  then have "wp (reconcileRuns pf t) (\<lambda>_ w'. hasRun wid (\<lambda>r'. r' = r) w') (\<lambda>_ _. False) w"
    by (intro wp_reconcileRuns wp_mono [OF wp_settleEach_inv [where I = "hasRun wid (\<lambda>r'. r' = r)"]])
      (auto simp: hasRun_def row)
  then show ?thesis by (simp add: hasRun_def)
qed

lemma reconcileRuns_ended:
  assumes row: "rowOf w wid = Some r" and run: "workflowRunId r = Some i" "i \<noteq> []" and "deletedAt r = None"
    and ended: "\<And>n. pf_runStatus pf n i \<in> {Some RunCompleted, Some RunFailed, Some RunCancelled}"
  shows "wp (reconcileRuns pf t) (\<lambda>_ w'. \<exists>r'. rowOf w' wid = Some r' \<and> workflowRunId r' = None) (\<lambda>_ _. False) w"
proof -
  let ?J = "hasRun wid (\<lambda>r'. workflowRunId r' = None)"
  let ?I = "hasRun wid (\<lambda>r'. workflowRunId r' \<in> {Some i, None})"
  have lost: "runLost (nullish (pf_runStatus pf n i) RunUnknown) r t" for n
    using ended [of n] by (auto simp: runLost_def)
  have "r \<in> set (workspacesT w)" and "ws_id r = wid"
    using row rowOf_id [OF row] selectOne_Some [of "\<lambda>r. ws_id r = wid" "workspacesT w" r] by (simp_all add: rowOf_def)
  moreover have "wp (reconcileRun pf t r) (\<lambda>_. ?J) (\<lambda>_. ?J) v" if "?I v" for v
    using that run lost [of "tick v"] assms(3) \<open>ws_id r = wid\<close>
    by (auto simp: reconcileRun_def wp_simps Let_def settleRun_def intro!: hasRun_settle [where P = "\<lambda>r. workflowRunId r \<in> {Some i, None}"])
  moreover have "keeps (reconcileRun pf t x) ?J" for x by (rule keeps_reconcileRun) simp
  moreover have "keeps (reconcileRun pf t x) ?I" for x by (rule keeps_reconcileRun) simp
  ultimately have "wp (reconcileRuns pf t) (\<lambda>_. ?J) (\<lambda>_ _. False) w"
    using assms(1,2,4)
    by (intro wp_reconcileRuns wp_settleEach_hit [where I = ?I and item = r]) (auto simp: hasRun_def)
  then show ?thesis by (rule wp_mono) (simp_all add: hasRun_def)
qed

subsection \<open>What one item starts\<close>

definition starts :: "world \<Rightarrow> event list" where
  "starts w = filter isStart (trace w)"

lemma starts_frame [simp]: "starts (w\<lparr>workspacesT := a\<rparr>) = starts w" "starts (w\<lparr>kvT := b\<rparr>) = starts w"
  "starts (w\<lparr>usersT := c\<rparr>) = starts w" "starts (w\<lparr>tick := d\<rparr>) = starts w"
  "starts (w\<lparr>tick := d, now := e, trace := trace w @ evs\<rparr>) = starts w @ filter isStart evs"
  by (simp_all add: starts_def)

definition mayStart :: "event list \<Rightarrow> lifecycleRun list \<Rightarrow> world \<Rightarrow> bool" where
  "mayStart evs runs w \<longleftrightarrow> starts w = evs \<or> (\<exists>i. \<exists>run \<in> set runs. starts w = evs @ [EvStartRun i run])"

lemma mayStart_none: "starts w = evs \<Longrightarrow> mayStart evs runs w"
  by (simp add: mayStart_def)

lemma mayStart_mono: "mayStart evs runs w \<Longrightarrow> set runs \<subseteq> set runs' \<Longrightarrow> mayStart evs runs' w"
  by (auto simp: mayStart_def)

lemma wp_startLifecycle_starts:
  "wp (startLifecycle pf wid run) (\<lambda>i w'. starts w' = starts w @ [EvStartRun i run])
     (\<lambda>_ w'. mayStart (starts w) [run] w') w"
  by (auto simp: startLifecycle_def wp_simps wp_withLock admit_def isRunActive_def Let_def startReserved_def
      settleRun_def reserveRun_def assertWorkspaceCapacity_def mayStart_def starts_def
      split: option.split sum.split)

lemma wp_stopFor:
  "wp (stopFor pf row reason)
     (\<lambda>_ w'. \<exists>i. starts w' = starts w @ [EvStartRun i (StopWorkspaceRun (ws_id row) reason False)])
     (\<lambda>_ w'. mayStart (starts w) [StopWorkspaceRun (ws_id row) reason False] w') w"
  unfolding stopFor_def wp_then wp_ret by (rule wp_mono [OF wp_startLifecycle_starts]) auto

text \<open>
  The run an item starts, by its outcome: exactly one for a stop or a restart, none otherwise,
  and the reason the code gives it holds.
\<close>

definition sweepRuns :: "platform \<Rightarrow> int \<Rightarrow> workspace \<Rightarrow> sweepFacts \<Rightarrow> sweepOutcome \<Rightarrow> lifecycleRun list" where
  "sweepRuns pf t row facts c = (let stop = (\<lambda>reason. StopWorkspaceRun (ws_id row) reason False) in case c of
      SwLost \<Rightarrow> [stop SrLost]
    | SwAbuse \<Rightarrow> [stop SrAbuse]
    | SwStopped \<Rightarrow> [stop (if idleDue row facts t then SrIdle else SrCap)]
    | SwCapped \<Rightarrow> [RestartSessionRun (ws_id row)]
    | _ \<Rightarrow> [])"

definition sweepWhy :: "platform \<Rightarrow> int \<Rightarrow> workspace \<Rightarrow> sweepFacts \<Rightarrow> sweepOutcome \<Rightarrow> bool" where
  "sweepWhy pf t row facts c = (case c of
      SwLost \<Rightarrow> sf_health facts = None \<and> t - updatedAt row > PING_LOST_MS
    | SwAbuse \<Rightarrow> instantOf (sf_cpu facts) \<ge> CPU_STRIKES
    | SwStopped \<Rightarrow> idleDue row facts t \<or> (capDue (pf_env pf) row t \<and> \<not> recentlyUsed facts t)
    | SwCapped \<Rightarrow> \<not> idleDue row facts t \<and> capDue (pf_env pf) row t \<and> recentlyUsed facts t
    | SwSkipped \<Rightarrow> False
    | _ \<Rightarrow> \<not> idleDue row facts t \<and> \<not> capDue (pf_env pf) row t)"

definition sweepSpec :: "platform \<Rightarrow> int \<Rightarrow> workspace \<Rightarrow> sweepFacts \<Rightarrow> event list \<Rightarrow> sweepOutcome \<Rightarrow> world \<Rightarrow> bool" where
  "sweepSpec pf t row facts evs c w' \<longleftrightarrow> sweepWhy pf t row facts c
     \<and> (case sweepRuns pf t row facts c of [] \<Rightarrow> starts w' = evs
        | run # _ \<Rightarrow> \<exists>i. starts w' = evs @ [EvStartRun i run])"

definition sweepErr :: "workspace \<Rightarrow> sweepFacts \<Rightarrow> int \<Rightarrow> event list \<Rightarrow> world \<Rightarrow> bool" where
  "sweepErr row facts t evs w' \<longleftrightarrow> starts w' = evs \<or> (\<exists>i run. starts w' = evs @ [EvStartRun i run]
     \<and> (run = StopWorkspaceRun (ws_id row) SrIdle False \<longrightarrow> idleDue row facts t))"

lemma sweepErr_may: "mayStart evs [run] w' \<Longrightarrow>
    (run = StopWorkspaceRun (ws_id row) SrIdle False \<longrightarrow> idleDue row facts t) \<Longrightarrow> sweepErr row facts t evs w'"
  by (auto simp: mayStart_def sweepErr_def)

definition lostPost :: "workspace \<Rightarrow> int \<Rightarrow> event list \<Rightarrow> bool \<Rightarrow> world \<Rightarrow> bool" where
  "lostPost row t evs lost w' \<longleftrightarrow> (if lost then t - updatedAt row > PING_LOST_MS \<and>
      (\<exists>i. starts w' = evs @ [EvStartRun i (StopWorkspaceRun (ws_id row) SrLost False)]) else starts w' = evs)"

lemma wp_reconcileVm:
  "wp (reconcileVm pf row t) (lostPost row t (starts w)) (\<lambda>_. sweepErr row facts t (starts w)) w"
proof -
  have stop: "wp (stopFor pf row SrLost) (\<lambda>_. lostPost row t (starts w) True)
      (\<lambda>_. sweepErr row facts t (starts w)) v"
    if "starts v = starts w" "\<not> t - updatedAt row \<le> PING_LOST_MS" for v
    by (rule wp_mono [OF wp_stopFor]) (use that in \<open>auto simp: lostPost_def intro: sweepErr_may\<close>)
  have no: "lostPost row t (starts w) False v" "sweepErr row facts t (starts w) v" if "starts v = starts w" for v
    using that by (simp_all add: lostPost_def sweepErr_def)
  show ?thesis
    unfolding reconcileVm_def
    by (auto simp: wp_bind wp_then wp_if wp_ret' wp_apiGet Let_def fun_eq_iff intro!: stop no split: sum.split)
qed

lemma wp_extendTimeout:
  "wp (extendTimeout pf row t) (\<lambda>c w'. c \<in> {SwNone, SwExtended} \<and> starts w' = starts w)
     (\<lambda>_ w'. starts w' = starts w) w"
  by (auto simp: extendTimeout_def wp_simps Let_def starts_def split: sum.split option.split)

lemma wp_sweepRow:
  "wp (sweepRow pf t row facts) (sweepSpec pf t row facts (starts w)) (\<lambda>_. sweepErr row facts t (starts w)) w"
proof -
  have stop: "wp (stopFor pf row reason) (\<lambda>_. sweepSpec pf t row facts (starts w) c)
      (\<lambda>_. sweepErr row facts t (starts w)) v"
    if "starts v = starts w" "sweepWhy pf t row facts c"
      "sweepRuns pf t row facts c = [StopWorkspaceRun (ws_id row) reason False]" "reason = SrIdle \<longrightarrow> idleDue row facts t"
    for v reason c
    by (rule wp_mono [OF wp_stopFor]) (use that in \<open>auto simp: sweepSpec_def intro: sweepErr_may\<close>)
  have restart: "wp (startLifecycle pf (ws_id row) (RestartSessionRun (ws_id row)))
      (\<lambda>_. sweepSpec pf t row facts (starts w) SwCapped) (\<lambda>_. sweepErr row facts t (starts w)) v"
    if "starts v = starts w" "sweepWhy pf t row facts SwCapped" for v
    by (rule wp_mono [OF wp_startLifecycle_starts])
      (use that in \<open>auto simp: sweepSpec_def sweepRuns_def Let_def intro: sweepErr_may\<close>)
  have flag: "wp (stopFor pf row SrAbuse) (\<lambda>_. wp (flagUser u t) (\<lambda>_. sweepSpec pf t row facts (starts w) SwAbuse)
        (\<lambda>_. sweepErr row facts t (starts w))) (\<lambda>_. sweepErr row facts t (starts w)) v"
    if "starts v = starts w" "instantOf (sf_cpu facts) \<ge> CPU_STRIKES" for v u
    by (rule wp_mono [OF wp_stopFor])
      (use that in \<open>auto simp: flagUser_def wp_mod sweepSpec_def sweepWhy_def sweepRuns_def Let_def intro: sweepErr_may\<close>)
  have extend: "wp (extendTimeout pf row t) (sweepSpec pf t row facts (starts w)) (\<lambda>_. sweepErr row facts t (starts w)) v"
    if "starts v = starts w" "\<not> idleDue row facts t" "\<not> capDue (pf_env pf) row t" for v
    by (rule wp_mono [OF wp_extendTimeout])
      (use that in \<open>auto simp: sweepSpec_def sweepWhy_def sweepRuns_def Let_def sweepErr_def\<close>)
  have lost: "lostPost row t (starts w) True v \<Longrightarrow> sf_health facts = None \<Longrightarrow> sweepSpec pf t row facts (starts w) SwLost v" for v
    by (auto simp: lostPost_def sweepSpec_def sweepWhy_def sweepRuns_def Let_def)
  have rest: "wp (if lost then retE SwLost
     else if instantOf (sf_cpu facts) \<ge> CPU_STRIKES
     then thenE (stopFor pf row SrAbuse) (thenE (flagUser (ownerUserId row) t) (retE SwAbuse))
     else if idleDue row facts t then thenE (stopFor pf row SrIdle) (retE SwStopped)
     else if capDue (pf_env pf) row t
     then if recentlyUsed facts t
       then thenE (startLifecycle pf (ws_id row) (RestartSessionRun (ws_id row))) (retE SwCapped)
       else thenE (stopFor pf row SrCap) (retE SwStopped)
     else extendTimeout pf row t) (sweepSpec pf t row facts (starts w)) (\<lambda>_. sweepErr row facts t (starts w)) v"
    if "lostPost row t (starts w) lost v" "lost \<longrightarrow> sf_health facts = None" for v lost
  proof (cases lost)
    case True
    then show ?thesis using that lost by (simp add: wp_ret)
  next
    case False
    then have "starts v = starts w" using that by (simp add: lostPost_def)
    with False show ?thesis
      by (auto simp: wp_then' wp_ret' intro!: flag stop restart extend)
        (auto simp: sweepWhy_def sweepRuns_def Let_def)
  qed
  have first: "wp (if sf_health facts = None then reconcileVm pf row t else retE False)
      (\<lambda>lost v. lostPost row t (starts w) lost v \<and> (lost \<longrightarrow> sf_health facts = None))
      (\<lambda>_. sweepErr row facts t (starts w)) w"
    using wp_mono [OF wp_reconcileVm] by (auto simp: wp_ret lostPost_def)
  show ?thesis
    unfolding sweepRow_def wp_bind by (rule wp_mono [OF first], rule rest, simp_all)
qed

text \<open>
  The idle stop and the instant the supervisor was shown agree: the sweep finds the workspace
  idle exactly from the directive's \<open>idleStopAt\<close> on, unless its supervisor is busy.
\<close>

lemma idleDue_directive:
  assumes "sessionStartedAt ws = Some s" and "isBusy ws report t1 \<longrightarrow> t1 \<le> a"
    and "sf_activity facts = Some (showInt a)" and "instantOf (sf_keepalive facts) = k" and "0 \<le> a"
    and row: "sessionStartedAt row = Some s" "idleMinutes row = idleMinutes ws"
      "lastActiveAt row = lastActiveAt ws \<or> lastActiveAt ws \<le> lastActiveAt row \<and> lastActiveAt row \<le> a"
  shows "idleDue row facts t \<longleftrightarrow> ad_idleStopAt (directiveFor e ws report t1 a k fs) \<le> t \<and> sf_busy facts = None"
proof -
  define b where "b = (if isBusy ws report t1 then t1 else 0)"
  have b: "b \<le> a" using assms(2,5) by (simp add: b_def)
  have dir: "ad_idleStopAt (directiveFor e ws report t1 a k fs)
      = max a (max k (max s (max b (lastActiveAt ws)))) + idleMinutes ws * 60000"
    using assms(1) by (simp add: directiveFor_def Let_def b_def)
  have "lastActiveOf row facts t = max a (max k (max s (lastActiveAt row)))"
    using assms(3,4) row(1) by (simp add: lastActiveOf_def)
  also have "\<dots> = max a (max k (max s (max b (lastActiveAt ws))))"
    using b row(3) by linarith
  finally show ?thesis unfolding dir idleDue_def row(2) by auto
qed

end
