(* ===== verification/Json.thy ===== *)
theory Json
  imports JsonText Platform
begin

text \<open>
  \<open>JSON.parse\<close> and \<open>JSON.stringify\<close> of any document, on texts as UTF-8 bytes. A number
  literal keeps its exact decimal value; an escaped surrogate keeps its own three bytes. The
  reader takes fuel, twice the length of the text and two more, which \<open>parse_enough\<close> shows never
  runs out.
\<close>

section \<open>Reading\<close>

definition isBlank :: "char \<Rightarrow> bool" where
  "isBlank c \<longleftrightarrow> c = CHR '' '' \<or> c = CHR 0x0A \<or> c = CHR 0x0D \<or> c = CHR 0x09"

definition skipBlanks :: "string \<Rightarrow> string" where
  "skipBlanks s = dropWhile isBlank s"

definition hexDigitVal :: "char \<Rightarrow> nat option" where
  "hexDigitVal c = (let n = of_char c :: nat in
     if 48 \<le> n \<and> n \<le> 57 then Some (n - 48)
     else if 97 \<le> n \<and> n \<le> 102 then Some (n - 87)
     else if 65 \<le> n \<and> n \<le> 70 then Some (n - 55) else None)"

fun hex4 :: "string \<Rightarrow> nat option" where
  "hex4 (a # b # c # d # _) = (case (hexDigitVal a, hexDigitVal b, hexDigitVal c, hexDigitVal d) of
     (Some w, Some x, Some y, Some z) \<Rightarrow> Some (((w * 16 + x) * 16 + y) * 16 + z) | _ \<Rightarrow> None)"
| "hex4 _ = None"

definition utf8 :: "nat \<Rightarrow> string" where
  "utf8 n = (if n < 128 then [char_of n]
     else if n < 2048 then [char_of (192 + n div 64), char_of (128 + n mod 64)]
     else [char_of (224 + n div 4096), char_of (128 + n div 64 mod 64), char_of (128 + n mod 64)])"

definition unescape :: "char \<Rightarrow> char option" where
  "unescape c = (if c = CHR 0x22 \<or> c = CHR 0x5C \<or> c = CHR ''/'' then Some c
     else if c = CHR ''b'' then Some (CHR 0x08) else if c = CHR ''f'' then Some (CHR 0x0C)
     else if c = CHR ''n'' then Some (CHR 0x0A) else if c = CHR ''r'' then Some (CHR 0x0D)
     else if c = CHR ''t'' then Some (CHR 0x09) else None)"

definition glue :: "string \<Rightarrow> (string \<times> string) option \<Rightarrow> (string \<times> string) option" where
  "glue s r = map_option (\<lambda>(t, rest). (s @ t, rest)) r"

text \<open>The characters of a string literal after its opening quote, and what follows its closing one.\<close>

function strBody :: "string \<Rightarrow> (string \<times> string) option" where
  "strBody s = (case s of [] \<Rightarrow> None | c # cs \<Rightarrow>
     if c = CHR 0x22 then Some ([], cs)
     else if (of_char c :: nat) < 32 then None
     else if c \<noteq> CHR 0x5C then glue [c] (strBody cs)
     else (case cs of [] \<Rightarrow> None | e # ds \<Rightarrow>
       if e = CHR ''u'' then (case hex4 ds of None \<Rightarrow> None | Some n \<Rightarrow> glue (utf8 n) (strBody (drop 4 ds)))
       else (case unescape e of None \<Rightarrow> None | Some x \<Rightarrow> glue [x] (strBody ds))))"
  by pat_completeness auto
termination by (relation "measure length") auto

declare strBody.simps [simp del]

text \<open>A number literal: its text up to the first character that cannot continue it.\<close>

definition spanDigits :: "string \<Rightarrow> string \<times> string" where
  "spanDigits s = (takeWhile isDigit s, dropWhile isDigit s)"

definition fracPart :: "string \<Rightarrow> (string \<times> string) option" where
  "fracPart s = (case s of c # cs \<Rightarrow>
       if c = CHR ''.'' then (case spanDigits cs of (ds, rest) \<Rightarrow> if ds = [] then None else Some (ds, rest))
       else Some ([], s)
     | [] \<Rightarrow> Some ([], []))"

definition expPart :: "string \<Rightarrow> (int \<times> string) option" where
  "expPart s = (case s of c # cs \<Rightarrow>
       if c = CHR ''e'' \<or> c = CHR ''E'' then
         (let neg = (cs \<noteq> [] \<and> hd cs = CHR ''-'');
              body = (if cs \<noteq> [] \<and> (hd cs = CHR ''-'' \<or> hd cs = CHR ''+'') then tl cs else cs) in
          case spanDigits body of (ds, rest) \<Rightarrow>
            if ds = [] then None
            else Some ((if neg then - int (readDigits 0 ds) else int (readDigits 0 ds)), rest))
       else Some (0, s)
     | [] \<Rightarrow> Some (0, []))"

text \<open>\<open>m * 10 ^ e\<close> in lowest terms.\<close>

fun shrink :: "int \<Rightarrow> nat \<Rightarrow> json" where
  "shrink m 0 = JNum m"
| "shrink m (Suc k) = (if 10 dvd m then shrink (m div 10) k else JDec m (Suc k))"

definition decimal :: "int \<Rightarrow> int \<Rightarrow> json" where
  "decimal m e = (if 0 \<le> e then JNum (m * 10 ^ nat e) else shrink m (nat (- e)))"

definition parseNumber :: "string \<Rightarrow> (json \<times> string) option" where
  "parseNumber s =
     (let neg = (s \<noteq> [] \<and> hd s = CHR ''-''); body = (if neg then tl s else s) in
      case spanDigits body of (ip, r1) \<Rightarrow>
      if ip = [] \<or> (hd ip = CHR ''0'' \<and> length ip > 1) then None
      else (case fracPart r1 of None \<Rightarrow> None | Some (fp, r2) \<Rightarrow>
        (case expPart r2 of None \<Rightarrow> None | Some (e, r3) \<Rightarrow>
          let m = int (readDigits 0 (ip @ fp)) in
          Some (decimal (if neg then - m else m) (e - int (length fp)), r3))))"

definition keyword :: "string \<Rightarrow> json \<Rightarrow> string \<Rightarrow> (json \<times> string) option" where
  "keyword k j s = (if prefix k s then Some (j, drop (length k) s) else None)"

text \<open>
  A value, with the blanks before it; the elements of an array or the members of an object after
  the opening bracket, \<open>first\<close> where an empty one may close.
\<close>

fun parseValue :: "nat \<Rightarrow> string \<Rightarrow> (json \<times> string) option"
  and parseElems :: "nat \<Rightarrow> bool \<Rightarrow> string \<Rightarrow> (json list \<times> string) option"
  and parseMembers :: "nat \<Rightarrow> bool \<Rightarrow> string \<Rightarrow> ((string \<times> json) list \<times> string) option" where
  "parseValue 0 s = None"
| "parseValue (Suc n) s = (case skipBlanks s of [] \<Rightarrow> None | c # cs \<Rightarrow>
     if c = CHR 0x22 then map_option (\<lambda>(t, rest). (JStr t, rest)) (strBody cs)
     else if c = CHR ''['' then map_option (\<lambda>(xs, rest). (JArr xs, rest)) (parseElems n True cs)
     else if c = CHR ''{'' then map_option (\<lambda>(xs, rest). (JObj xs, rest)) (parseMembers n True cs)
     else if c = CHR ''t'' then keyword ''true'' (JBool True) (c # cs)
     else if c = CHR ''f'' then keyword ''false'' (JBool False) (c # cs)
     else if c = CHR ''n'' then keyword ''null'' JNull (c # cs)
     else parseNumber (c # cs))"
| "parseElems 0 first s = None"
| "parseElems (Suc n) first s =
     (let t = skipBlanks s in
      if first \<and> t \<noteq> [] \<and> hd t = CHR '']'' then Some ([], tl t)
      else (case parseValue n s of None \<Rightarrow> None | Some (x, r) \<Rightarrow>
        (case skipBlanks r of [] \<Rightarrow> None | c # cs \<Rightarrow>
          if c = CHR '']'' then Some ([x], cs)
          else if c = CHR '','' then map_option (\<lambda>(xs, rest). (x # xs, rest)) (parseElems n False cs)
          else None)))"
| "parseMembers 0 first s = None"
| "parseMembers (Suc n) first s = (case skipBlanks s of [] \<Rightarrow> None | q # qs \<Rightarrow>
     if first \<and> q = CHR ''}'' then Some ([], qs)
     else if q \<noteq> CHR 0x22 then None
     else (case strBody qs of None \<Rightarrow> None | Some (k, r) \<Rightarrow>
       (case skipBlanks r of [] \<Rightarrow> None | d # ds \<Rightarrow>
         if d \<noteq> CHR '':'' then None
         else (case parseValue n ds of None \<Rightarrow> None | Some (x, r2) \<Rightarrow>
           (case skipBlanks r2 of [] \<Rightarrow> None | c # cs \<Rightarrow>
             if c = CHR ''}'' then Some ([(k, x)], cs)
             else if c = CHR '','' then map_option (\<lambda>(xs, rest). ((k, x) # xs, rest)) (parseMembers n False cs)
             else None)))))"

definition jsonParse :: "string \<Rightarrow> json option" where
  "jsonParse s = (case parseValue (2 * length s + 2) s of
     Some (j, rest) \<Rightarrow> if skipBlanks rest = [] then Some j else None | None \<Rightarrow> None)"

section \<open>Writing\<close>

definition hexLower :: "nat \<Rightarrow> char" where
  "hexLower d = ''0123456789abcdef'' ! (d mod 16)"

definition escapeChar :: "char \<Rightarrow> string" where
  "escapeChar c = (if c = CHR 0x22 \<or> c = CHR 0x5C then [CHR 0x5C, c]
     else if c = CHR 0x08 then [CHR 0x5C, CHR ''b''] else if c = CHR 0x0C then [CHR 0x5C, CHR ''f'']
     else if c = CHR 0x0A then [CHR 0x5C, CHR ''n''] else if c = CHR 0x0D then [CHR 0x5C, CHR ''r'']
     else if c = CHR 0x09 then [CHR 0x5C, CHR ''t'']
     else if (of_char c :: nat) < 32
       then [CHR 0x5C, CHR ''u'', CHR ''0'', CHR ''0'', hexLower (of_char c div 16), hexLower (of_char c)]
     else [c])"

definition quoteJson :: "string \<Rightarrow> string" where
  "quoteJson s = CHR 0x22 # concat (map escapeChar s) @ [CHR 0x22]"

text \<open>A decimal in positional notation, \<open>k\<close> digits after the point.\<close>

definition showDec :: "int \<Rightarrow> nat \<Rightarrow> string" where
  "showDec m k = (let ds = showNat (nat \<bar>m\<bar>); padded = replicate (Suc k - length ds) CHR ''0'' @ ds;
      cut = length padded - k in
      (if m < 0 then [CHR ''-''] else []) @ take cut padded @ CHR ''.'' # drop cut padded)"

fun stringify :: "json \<Rightarrow> string" where
  "stringify JNull = ''null''"
| "stringify (JBool b) = (if b then ''true'' else ''false'')"
| "stringify (JNum n) = showInt n"
| "stringify (JDec m k) = showDec m k"
| "stringify (JStr s) = quoteJson s"
| "stringify (JArr xs) = CHR ''['' # joinWith CHR '','' (map stringify xs) @ '']''"
| "stringify (JObj kvs) = CHR ''{'' # joinWith CHR '',''
     (map (\<lambda>kv. quoteJson (fst kv) @ CHR '':'' # stringify (snd kv)) kvs) @ ''}''"

section \<open>Lemmas\<close>

subsection \<open>The reader consumes its text\<close>

lemma skipBlanks_length: "length (skipBlanks s) \<le> length s"
  by (simp add: skipBlanks_def length_dropWhile_le)

lemma skipBlanks_Cons: "skipBlanks s = c # cs \<Longrightarrow> length cs < length s"
  using skipBlanks_length [of s] by simp

lemma glue_Some: "glue s r = Some (t, rest) \<Longrightarrow> \<exists>t'. r = Some (t', rest) \<and> t = s @ t'"
  by (auto simp: glue_def)

lemma strBody_Cons: "strBody (c # cs) = (if c = CHR 0x22 then Some ([], cs)
     else if (of_char c :: nat) < 32 then None
     else if c \<noteq> CHR 0x5C then glue [c] (strBody cs)
     else (case cs of [] \<Rightarrow> None | e # ds \<Rightarrow>
       if e = CHR ''u'' then (case hex4 ds of None \<Rightarrow> None | Some n \<Rightarrow> glue (utf8 n) (strBody (drop 4 ds)))
       else (case unescape e of None \<Rightarrow> None | Some x \<Rightarrow> glue [x] (strBody ds))))"
  and strBody_Nil: "strBody [] = None"
  by (subst strBody.simps, simp)+

lemma glue_shorter:
  assumes "glue x (strBody ds) = Some (t, rest)" and "\<And>t r. strBody ds = Some (t, r) \<Longrightarrow> length r < length ds"
  shows "length rest < length ds"
  using assms by (auto dest: glue_Some)

lemma strBody_shorter: "strBody s = Some (t, rest) \<Longrightarrow> length rest < length s"
proof (induction "length s" arbitrary: s t rest rule: less_induct)
  case less
  have IH: "length r < length ds" if "strBody ds = Some (u, r)" "length ds < length s" for ds u r
    using less.hyps [OF that(2,1)] .
  show ?case
  proof (cases s)
    case Nil
    then show ?thesis using less.prems by (simp add: strBody_Nil)
  next
    case (Cons c cs)
    note run = less.prems [unfolded Cons strBody_Cons]
    consider "c = CHR 0x22" | "glue [c] (strBody cs) = Some (t, rest)"
      | e ds n where "cs = e # ds" "glue (utf8 n) (strBody (drop 4 ds)) = Some (t, rest)"
      | e ds x where "cs = e # ds" "glue [x] (strBody ds) = Some (t, rest)"
      using run by (auto split: if_splits list.splits option.splits)
    then show ?thesis
    proof cases
      case 1
      then show ?thesis using run Cons by simp
    next
      case 2
      then show ?thesis using glue_shorter [OF 2 IH] Cons by fastforce
    next
      case 3
      have "length rest < length (drop 4 ds)"
        by (rule glue_shorter [OF 3(2) IH]) (simp_all add: Cons 3(1))
      then show ?thesis using Cons 3(1) by simp
    next
      case 4
      have "length rest < length ds"
        by (rule glue_shorter [OF 4(2) IH]) (simp_all add: Cons 4(1))
      then show ?thesis using Cons 4(1) by simp
    qed
  qed
qed

lemma spanDigits_shorter: "spanDigits s = (ds, rest) \<Longrightarrow> length rest \<le> length s \<and> (ds \<noteq> [] \<longrightarrow> length rest < length s)"
  by (cases s) (auto simp: spanDigits_def length_dropWhile_le less_Suc_eq_le le_SucI split: if_splits)

lemma fracPart_shorter: "fracPart s = Some (ds, rest) \<Longrightarrow> length rest \<le> length s"
  by (auto simp: fracPart_def split: list.splits if_splits prod.splits dest: spanDigits_shorter)

lemma expPart_shorter: "expPart s = Some (e, rest) \<Longrightarrow> length rest \<le> length s"
  by (auto simp: expPart_def Let_def neq_Nil_conv split: list.splits if_splits prod.splits
      dest!: spanDigits_shorter)

lemma parseNumber_shorter: "parseNumber s = Some (j, rest) \<Longrightarrow> length rest < length s"
  by (auto simp: parseNumber_def Let_def neq_Nil_conv split: if_splits prod.splits option.splits
      dest!: spanDigits_shorter fracPart_shorter expPart_shorter)

lemma keyword_shorter: "keyword k j s = Some (x, rest) \<Longrightarrow> k \<noteq> [] \<Longrightarrow> length rest < length s"
  by (auto simp: keyword_def prefix_def split: if_splits)

lemma parse_shorter:
  "parseValue n s = Some (j, rest) \<Longrightarrow> length rest < length s"
  "parseElems n b s = Some (xs, rest) \<Longrightarrow> length rest < length s"
  "parseMembers n b s = Some (ms, rest) \<Longrightarrow> length rest < length s"
proof (induction n s and n b s and n b s arbitrary: j rest and xs rest and ms rest
    rule: parseValue_parseElems_parseMembers.induct)
  case (2 n s)
  then show ?case
    by (fastforce dest!: strBody_shorter parseNumber_shorter keyword_shorter skipBlanks_Cons
        split: list.splits if_splits option.splits)
next
  case (4 n first s)
  then show ?case
    by (fastforce simp: Let_def neq_Nil_conv dest!: skipBlanks_Cons
        split: list.splits if_splits option.splits)
next
  case (6 n first s)
  then show ?case
    by (fastforce dest!: strBody_shorter skipBlanks_Cons split: list.splits if_splits option.splits)
qed simp_all

subsection \<open>The fuel is enough\<close>

declare parseValue.simps [simp del] parseElems.simps [simp del] parseMembers.simps [simp del]

text \<open>One unfolding of the members of an object, its two recursive calls replaced alike.\<close>

lemma parseMembers_fuel:
  assumes val: "\<And>t. length t < length s \<Longrightarrow> parseValue (Suc n) t = parseValue n t"
    and members: "\<And>t. length t < length s \<Longrightarrow> parseMembers (Suc n) False t = parseMembers n False t"
  shows "parseMembers (Suc (Suc n)) b s = parseMembers (Suc n) b s"
proof (cases "skipBlanks s")
  case Nil
  then show ?thesis by (simp add: parseMembers.simps(2))
next
  case q: (Cons q qs)
  show ?thesis
  proof (cases "strBody qs")
    case None
    with q show ?thesis by (simp add: parseMembers.simps(2))
  next
    case k: (Some kr)
    show ?thesis
    proof (cases "skipBlanks (snd kr)")
      case Nil
      with q k show ?thesis by (cases kr) (simp add: parseMembers.simps(2))
    next
      case d: (Cons d ds)
      have "length (snd kr) < length qs" using strBody_shorter [of qs "fst kr" "snd kr"] k by simp
      then have less: "length ds < length s"
        using skipBlanks_Cons [OF q] skipBlanks_Cons [OF d] by simp
      note v = val [OF less]
      show ?thesis
      proof (cases "parseValue n ds")
        case None
        with q k d v show ?thesis by (cases kr) (simp add: parseMembers.simps(2))
      next
        case x: (Some xr)
        have "parseMembers (Suc n) False cs = parseMembers n False cs" if "skipBlanks (snd xr) = c # cs" for c cs
          using members skipBlanks_Cons [OF that] parse_shorter(1) [of n ds "fst xr" "snd xr"] x less by simp
        with q k d v x show ?thesis
          by (cases kr; cases xr; cases "skipBlanks (snd xr)") (simp_all add: parseMembers.simps(2))
      qed
    qed
  qed
qed

lemma parse_enough_Suc:
  "2 * length s < n \<Longrightarrow> parseValue (Suc n) s = parseValue n s \<and>
     (2 * length s + 1 < n \<longrightarrow> parseElems (Suc n) b s = parseElems n b s
        \<and> parseMembers (Suc n) b s = parseMembers n b s)"
proof (induction n arbitrary: s b)
  case 0
  then show ?case by simp
next
  case (Suc n)
  have E: "parseElems (Suc n) True cs = parseElems n True cs \<and> parseMembers (Suc n) True cs = parseMembers n True cs"
    if "skipBlanks s = c # cs" for c cs
  proof -
    have "2 * length cs < n \<and> 2 * length cs + 1 < n" using skipBlanks_Cons [OF that] Suc.prems by simp
    then show ?thesis using Suc.IH by blast
  qed
  have v: "parseValue (Suc (Suc n)) s = parseValue (Suc n) s"
    unfolding parseValue.simps(2) by (simp add: E split: list.splits)
  moreover have "parseElems (Suc (Suc n)) b s = parseElems (Suc n) b s
      \<and> parseMembers (Suc (Suc n)) b s = parseMembers (Suc n) b s" if big: "2 * length s + 1 < Suc n"
  proof -
    have V: "parseValue (Suc n) t = parseValue n t" if "length t \<le> length s" for t
      using that big Suc.IH by simp
    have R: "parseElems (Suc n) False t = parseElems n False t \<and> parseMembers (Suc n) False t = parseMembers n False t"
      if "length t < length s" for t
      using that big Suc.IH by simp
    have "parseElems (Suc (Suc n)) b s = parseElems (Suc n) b s"
    proof -
      have "parseElems (Suc n) False cs = parseElems n False cs"
        if "parseValue n s = Some (x, r)" "skipBlanks r = c # cs" for x r c cs
        using R skipBlanks_Cons [OF that(2)] parse_shorter(1) [OF that(1)] by simp
      then show ?thesis
        unfolding parseElems.simps(2) V [OF order_refl]
        by (simp add: Let_def split: option.splits list.splits prod.splits)
    qed
    moreover have "parseMembers (Suc (Suc n)) b s = parseMembers (Suc n) b s"
      using big by (intro parseMembers_fuel) (simp_all add: Suc.IH)
    ultimately show ?thesis by blast
  qed
  ultimately show ?case by blast
qed

text \<open>More fuel than twice the length of the text changes nothing.\<close>

lemma parse_enough:
  assumes "2 * length s < n" shows "parseValue n s = parseValue (2 * length s + 2) s"
proof -
  have "parseValue (2 * length s + 1 + k) s = parseValue (2 * length s + 1) s" for k
  proof (induction k)
    case (Suc k)
    have "parseValue (Suc (2 * length s + 1 + k)) s = parseValue (2 * length s + 1 + k) s"
      using parse_enough_Suc [of s "2 * length s + 1 + k"] by simp
    then show ?case using Suc by simp
  qed simp
  from this [of "n - (2 * length s + 1)"] this [of 1] show ?thesis using assms by simp
qed

subsection \<open>Reading what was written\<close>

fun noDec :: "json \<Rightarrow> bool" where
  "noDec (JDec m k) = False"
| "noDec (JArr xs) = list_all noDec xs"
| "noDec (JObj kvs) = list_all (\<lambda>kv. noDec (snd kv)) kvs"
| "noDec _ = True"

lemma hexLower_val: "d < 16 \<Longrightarrow> hexDigitVal (hexLower d) = Some d"
proof -
  assume "d < 16"
  moreover have "\<forall>d \<in> set [0..<16]. hexDigitVal (hexLower d) = Some d"
    by (simp add: upt_rec hexLower_def hexDigitVal_def)
  ultimately show ?thesis by simp
qed

lemma strBody_escape: "strBody (escapeChar c @ s) = glue [c] (strBody s)"
proof (cases "c \<in> {CHR 0x22, CHR 0x5C, CHR 0x08, CHR 0x0C, CHR 0x0A, CHR 0x0D, CHR 0x09}")
  case True
  then show ?thesis
    by (elim insertE emptyE) (simp_all add: escapeChar_def strBody_Cons unescape_def)
next
  case False
  show ?thesis
  proof (cases "(of_char c :: nat) < 32")
    case True
    have h0: "hexDigitVal CHR ''0'' = Some 0" by (simp add: hexDigitVal_def)
    have h1: "hexDigitVal (hexLower (of_char c div 16)) = Some (of_char c div 16)"
      by (rule hexLower_val) (use True in simp)
    have "hexLower (of_char c) = hexLower (of_char c mod 16)" by (simp add: hexLower_def)
    then have h2: "hexDigitVal (hexLower (of_char c)) = Some (of_char c mod 16)"
      by (simp add: hexLower_val)
    have "utf8 (of_char c) = [c]" using True by (simp add: utf8_def)
    moreover have "of_char c div 16 * 16 + of_char c mod 16 = (of_char c :: nat)" by simp
    ultimately show ?thesis
      using False True by (simp add: escapeChar_def strBody_Cons h0 h1 h2)
  next
    case big: False
    then show ?thesis using False by (simp add: escapeChar_def strBody_Cons)
  qed
qed

lemma glue_glue: "glue a (Some (b, r)) = Some (a @ b, r)"
  by (simp add: glue_def)

lemma strBody_quoted: "strBody (concat (map escapeChar s) @ CHR 0x22 # rest) = Some (s, rest)"
  by (induction s) (simp_all add: strBody_Cons strBody_escape glue_glue)

definition numEnd :: "string \<Rightarrow> bool" where
  "numEnd s \<longleftrightarrow> s = [] \<or> (\<not> isDigit (hd s) \<and> hd s \<noteq> CHR ''.'' \<and> hd s \<noteq> CHR ''e'' \<and> hd s \<noteq> CHR ''E'')"

lemma numEnd_Cons [simp]: "numEnd (CHR '','' # s)" "numEnd (CHR '']'' # s)" "numEnd (CHR ''}'' # s)" "numEnd []"
  by (simp_all add: numEnd_def isDigit_def)

lemma takeWhile_digits: "list_all isDigit ds \<Longrightarrow> numEnd rest \<Longrightarrow> spanDigits (ds @ rest) = (ds, rest)"
  by (induction ds) (cases rest, auto simp: spanDigits_def numEnd_def)

lemma frac_exp_end: "numEnd rest \<Longrightarrow> fracPart rest = Some ([], rest) \<and> expPart rest = Some (0, rest)"
  by (cases rest) (auto simp: fracPart_def expPart_def numEnd_def)

lemma digitChar_zero: "digitChar d = CHR ''0'' \<Longrightarrow> d < 10 \<Longrightarrow> d = 0"
  using less_10_cases [of d] by (auto simp: digitChar_def)

lemma showNat_lead: "hd (showNat n) = CHR ''0'' \<Longrightarrow> n = 0"
proof (induction n rule: showNat.induct)
  case (1 n)
  show ?case
  proof (cases "n < 10")
    case True
    with 1(2) show ?thesis by (simp add: showNat.simps [of n] digitChar_zero)
  next
    case False
    have "hd (showNat n) = hd (showNat (n div 10))"
      using False showNat_digits by (subst showNat.simps) simp
    then have "n div 10 = 0" using 1 False by simp
    then show ?thesis using False by simp
  qed
qed

lemma showNat_zero: "showNat 0 = ''0''"
  by (simp add: showNat.simps digitChar_def)

lemma parseNumber_showNat:
  assumes "numEnd rest"
  shows "parseNumber (showNat n @ rest) = Some (JNum (int n), rest)"
    and "parseNumber (CHR ''-'' # showNat n @ rest) = Some (JNum (- int n), rest)"
proof -
  have ds: "spanDigits (showNat n @ rest) = (showNat n, rest)"
    using takeWhile_digits showNat_digits assms by blast
  have ne: "showNat n \<noteq> []" using showNat_digits by blast
  have lead: "\<not> (hd (showNat n) = CHR ''0'' \<and> Suc 0 < length (showNat n))"
    using showNat_lead [of n] by (auto simp: showNat_zero)
  have minus: "hd (showNat n) \<noteq> CHR ''-''"
    using ne showNat_Cons_digit [of n] not_isDigit_minus by (cases "showNat n") auto
  show "parseNumber (CHR ''-'' # showNat n @ rest) = Some (JNum (- int n), rest)"
    using ds ne lead frac_exp_end [OF assms] by (auto simp: parseNumber_def decimal_def readDigits_showNat)
  show "parseNumber (showNat n @ rest) = Some (JNum (int n), rest)"
    using ds ne lead minus frac_exp_end [OF assms] by (auto simp: parseNumber_def decimal_def readDigits_showNat Let_def)
qed

lemma parseNumber_showInt: "numEnd rest \<Longrightarrow> parseNumber (showInt i @ rest) = Some (JNum i, rest)"
  using parseNumber_showNat [of rest "nat i"] parseNumber_showNat [of rest "nat (- i)"]
  by (simp add: showInt_def)

definition numStart :: "char \<Rightarrow> bool" where
  "numStart c \<longleftrightarrow> isDigit c \<or> c = CHR ''-''"

lemma showInt_start: "\<exists>c cs. showInt i = c # cs \<and> numStart c"
  using showNat_digits showNat_Cons_digit
  by (auto simp: showInt_def numStart_def) (metis list.exhaust)

lemma numStart_not: "numStart c \<Longrightarrow> c \<noteq> CHR 0x22 \<and> c \<noteq> CHR ''['' \<and> c \<noteq> CHR ''{'' \<and> c \<noteq> CHR ''t''
   \<and> c \<noteq> CHR ''f'' \<and> c \<noteq> CHR ''n'' \<and> c \<noteq> CHR '']'' \<and> \<not> isBlank c"
  by (auto simp: numStart_def isDigit_def isBlank_def)

lemma skipBlanks_no [simp]: "\<not> isBlank c \<Longrightarrow> skipBlanks (c # cs) = c # cs"
  by (simp add: skipBlanks_def)

lemma parseValue_number:
  "numEnd rest \<Longrightarrow> parseValue (Suc n) (showInt i @ rest) = Some (JNum i, rest)"
  using showInt_start [of i] parseNumber_showInt [of rest i]
  by (auto simp: parseValue.simps(2) dest!: numStart_not)

lemma parseValue_quoted: "parseValue (Suc n) (quoteJson s @ rest) = Some (JStr s, rest)"
  by (simp add: quoteJson_def parseValue.simps(2) strBody_quoted isBlank_def)

lemma stringify_start:
  assumes "noDec j"
  shows "\<exists>c cs. stringify j = c # cs \<and> c \<noteq> CHR '']'' \<and> \<not> isBlank c"
proof (cases j)
  case (JNum i)
  then show ?thesis using showInt_start [of i] numStart_not by fastforce
qed (use assms in \<open>auto simp: quoteJson_def isBlank_def\<close>)

definition reads :: "json \<Rightarrow> bool" where
  "reads j \<longleftrightarrow> (\<forall>n rest. numEnd rest \<longrightarrow> 2 * length (stringify j @ rest) < n \<longrightarrow>
     parseValue n (stringify j @ rest) = Some (j, rest))"

lemma readsD: "reads j \<Longrightarrow> numEnd rest \<Longrightarrow> 2 * length (stringify j @ rest) < n \<Longrightarrow>
    parseValue n (stringify j @ rest) = Some (j, rest)"
  by (simp add: reads_def)

lemma reads_elems:
  assumes "xs \<noteq> []" and "list_all noDec xs" and "list_all reads xs"
    and "2 * length (joinWith CHR '','' (map stringify xs) @ CHR '']'' # rest) + 1 < n"
  shows "parseElems n b (joinWith CHR '','' (map stringify xs) @ CHR '']'' # rest) = Some (xs, rest)"
  using assms
proof (induction xs arbitrary: n b)
  case Nil
  then show ?case by simp
next
  case (Cons x xs)
  obtain m where n: "n = Suc m" using Cons.prems(4) by (cases n) auto
  obtain tl where tl: "joinWith CHR '','' (map stringify (x # xs)) @ CHR '']'' # rest = stringify x @ tl"
    "tl = (if xs = [] then CHR '']'' # rest else CHR '','' # joinWith CHR '','' (map stringify xs) @ CHR '']'' # rest)"
    by (cases xs) auto
  have room: "2 * length (stringify x @ tl) + 1 < n"
    using Cons.prems(4) unfolding tl(1) .
  obtain c cs where c: "stringify x = c # cs" "c \<noteq> CHR '']''" "\<not> isBlank c"
    using stringify_start Cons.prems(2) by fastforce
  have head: "parseValue m (stringify x @ tl) = Some (x, tl)"
    by (rule readsD) (use Cons.prems(3) room in \<open>auto simp: n tl(2)\<close>)
  show ?case
  proof (cases "xs = []")
    case True
    then show ?thesis using head c
      unfolding n tl(1) by (simp add: parseElems.simps(2) Let_def tl(2) isBlank_def)
  next
    case False
    have "parseElems m False (joinWith CHR '','' (map stringify xs) @ CHR '']'' # rest) = Some (xs, rest)"
      by (rule Cons.IH) (use Cons.prems(2,3) room False in \<open>auto simp: n tl(2)\<close>)
    with False head c show ?thesis
      unfolding n tl(1) by (simp add: parseElems.simps(2) Let_def tl(2) isBlank_def)
  qed
qed

abbreviation member :: "string \<times> json \<Rightarrow> string" where
  "member kv \<equiv> quoteJson (fst kv) @ CHR '':'' # stringify (snd kv)"

lemma reads_members:
  assumes "kvs \<noteq> []" and "list_all (\<lambda>kv. reads (snd kv)) kvs"
    and "2 * length (joinWith CHR '','' (map member kvs) @ CHR ''}'' # rest) + 1 < n"
  shows "parseMembers n b (joinWith CHR '','' (map member kvs) @ CHR ''}'' # rest) = Some (kvs, rest)"
  using assms
proof (induction kvs arbitrary: n b)
  case Nil
  then show ?case by simp
next
  case (Cons kv kvs)
  obtain m where n: "n = Suc m" using Cons.prems(3) by (cases n) auto
  obtain k x where kv: "kv = (k, x)" by (cases kv)
  obtain tl where tl: "joinWith CHR '','' (map member (kv # kvs)) @ CHR ''}'' # rest
      = CHR 0x22 # concat (map escapeChar k) @ CHR 0x22 # CHR '':'' # stringify x @ tl"
    "tl = (if kvs = [] then CHR ''}'' # rest else CHR '','' # joinWith CHR '','' (map member kvs) @ CHR ''}'' # rest)"
    by (cases kvs) (auto simp: kv quoteJson_def)
  have room: "2 * length (stringify x @ tl) + 4 < n"
    using Cons.prems(3) unfolding tl(1) by simp
  have head: "parseValue m (stringify x @ tl) = Some (x, tl)"
    by (rule readsD) (use Cons.prems(2) room in \<open>auto simp: n tl(2) kv\<close>)
  show ?case
  proof (cases "kvs = []")
    case True
    then show ?thesis using head
      unfolding n tl(1) by (simp add: parseMembers.simps(2) strBody_quoted tl(2) isBlank_def kv)
  next
    case False
    have "parseMembers m False (joinWith CHR '','' (map member kvs) @ CHR ''}'' # rest) = Some (kvs, rest)"
      by (rule Cons.IH) (use Cons.prems(2,3) room False in \<open>auto simp: n tl(2)\<close>)
    with False head show ?thesis
      unfolding n tl(1) by (simp add: parseMembers.simps(2) strBody_quoted tl(2) isBlank_def kv)
  qed
qed

lemma reads_atom:
  assumes "\<And>n rest. numEnd rest \<Longrightarrow> parseValue (Suc n) (stringify j @ rest) = Some (j, rest)"
  shows "reads j"
  unfolding reads_def
proof (intro allI impI)
  fix n rest
  assume "numEnd rest" and "2 * length (stringify j @ rest) < n"
  then show "parseValue n (stringify j @ rest) = Some (j, rest)" using assms by (cases n) auto
qed

lemma reads_json: "noDec j \<Longrightarrow> reads j"
proof (induction j rule: stringify.induct)
  case (6 xs)
  have all: "list_all noDec xs" "list_all reads xs"
    using 6 by (auto simp: list_all_iff)
  show ?case
    unfolding reads_def
  proof (intro allI impI)
    fix n :: nat and rest
    assume n: "2 * length (stringify (JArr xs) @ rest) < n"
    then obtain m where m: "n = Suc m" by (cases n) auto
    show "parseValue n (stringify (JArr xs) @ rest) = Some (JArr xs, rest)"
    proof (cases "xs = []")
      case True
      then obtain l where "m = Suc l" using n m by (cases m) auto
      with True show ?thesis
        by (simp add: m parseValue.simps(2) parseElems.simps(2) isBlank_def Let_def)
    next
      case False
      have "parseElems m True (joinWith CHR '','' (map stringify xs) @ CHR '']'' # rest) = Some (xs, rest)"
        by (rule reads_elems [OF False all]) (use n m in simp)
      then show ?thesis by (simp add: m parseValue.simps(2) isBlank_def)
    qed
  qed
next
  case (7 kvs)
  have all: "list_all (\<lambda>kv. reads (snd kv)) kvs"
    using 7 by (auto simp: list_all_iff)
  show ?case
    unfolding reads_def
  proof (intro allI impI)
    fix n :: nat and rest
    assume n: "2 * length (stringify (JObj kvs) @ rest) < n"
    then obtain m where m: "n = Suc m" by (cases n) auto
    show "parseValue n (stringify (JObj kvs) @ rest) = Some (JObj kvs, rest)"
    proof (cases "kvs = []")
      case True
      then obtain l where "m = Suc l" using n m by (cases m) auto
      with True show ?thesis
        by (simp add: m parseValue.simps(2) parseMembers.simps(2) isBlank_def)
    next
      case False
      have "parseMembers m True (joinWith CHR '','' (map member kvs) @ CHR ''}'' # rest) = Some (kvs, rest)"
        by (rule reads_members [OF False all]) (use n m in simp)
      then show ?thesis by (simp add: m parseValue.simps(2) isBlank_def)
    qed
  qed
next
  case (3 i)
  show ?case by (rule reads_atom) (simp add: parseValue_number)
next
  case (4 m k)
  then show ?case by simp
next
  case (5 s)
  show ?case by (rule reads_atom) (simp add: parseValue_quoted)
qed (rule reads_atom, simp add: parseValue.simps(2) keyword_def isBlank_def)+

lemma jsonParse_stringify: "noDec j \<Longrightarrow> jsonParse (stringify j) = Some j"
  using readsD [OF reads_json, of j "[]"] by (simp add: jsonParse_def skipBlanks_def)

end
