(* ===== verification/Api.thy ===== *)
theory Api
  imports Access Json
begin

text \<open>
  The frame of every route handler (\<open>lib/api.ts\<close>): responses and their error bodies, the bounded
  reader of a request body, the parse of a validated JSON body, the wrapper that turns a thrown
  value into an answer, and the cached response behind an \<open>Idempotency-Key\<close> as the JSON text it
  really is.
\<close>

section \<open>Responses\<close>

definition JSON_CONTENT_TYPE :: string where
  "JSON_CONTENT_TYPE = ''application/json; charset=utf-8''"

definition jsonResponse :: "int \<Rightarrow> json \<Rightarrow> response" where
  "jsonResponse status body = \<lparr>rs_status = status, rs_body = stringify body,
     rs_contentType = Some JSON_CONTENT_TYPE\<rparr>"

definition accepted :: "json \<Rightarrow> response" where
  "accepted body = jsonResponse 202 body"

definition noContent :: response where
  "noContent = \<lparr>rs_status = 204, rs_body = [], rs_contentType = None\<rparr>"

definition errorBody :: "string \<Rightarrow> string option \<Rightarrow> json option \<Rightarrow> json" where
  "errorBody code message details = JObj [(''error'',
     JObj ([(''code'', JStr code), (''message'', JStr (nullish message code))]
       @ (case details of None \<Rightarrow> [] | Some d \<Rightarrow> [(''details'', d)])))]"

definition errorAnswer :: "int \<Rightarrow> string \<Rightarrow> string option \<Rightarrow> json option \<Rightarrow> response" where
  "errorAnswer status code message details = jsonResponse status (errorBody code message details)"

section \<open>Request bodies\<close>

text \<open>
  Header names are lower case; the body arrives as chunks of bytes, or there is none. A
  \<open>Content-Length\<close> that is not a decimal integer is \<open>NaN\<close> and does not refuse the body.
\<close>

record request =
  rq_header :: "string \<Rightarrow> string option"
  rq_body :: "string list option"

definition declaredLength :: "request \<Rightarrow> int option" where
  "declaredLength req = (let s = trimBoth (nullish (rq_header req ''content-length'') []) in
     if s = [] then Some 0 else readInt s)"

definition payloadTooLarge :: err where
  "payloadTooLarge = ApiError 413 ''payload_too_large''"

fun readChunks :: "int \<Rightarrow> string list \<Rightarrow> int \<Rightarrow> string list \<Rightarrow> err + string" where
  "readChunks maxBytes chunks seen [] = Inr (concat chunks)"
| "readChunks maxBytes chunks seen (c # cs) =
     (if seen + int (length c) > maxBytes then Inl payloadTooLarge
      else readChunks maxBytes (chunks @ [c]) (seen + int (length c)) cs)"

definition readBodyText :: "request \<Rightarrow> int \<Rightarrow> err + string" where
  "readBodyText req maxBytes =
     (if (case declaredLength req of None \<Rightarrow> False | Some d \<Rightarrow> d > maxBytes) then Inl payloadTooLarge
      else case rq_body req of None \<Rightarrow> Inr [] | Some cs \<Rightarrow> readChunks maxBytes [] 0 cs)"

definition DEFAULT_MAX_BODY_BYTES :: int where "DEFAULT_MAX_BODY_BYTES = 1024 * 1024"

text \<open>\<open>schema\<close> is \<open>safeParse\<close>: the validated value, or \<open>None\<close> where it has issues.\<close>

definition parseBody :: "request \<Rightarrow> (json \<Rightarrow> 'a option) \<Rightarrow> int option \<Rightarrow> err + 'a" where
  "parseBody req schema maxBytes = (case readBodyText req (nullish maxBytes DEFAULT_MAX_BODY_BYTES) of
      Inl e \<Rightarrow> Inl e
    | Inr t \<Rightarrow> (case (if trimBoth t = [] then Some (JObj []) else jsonParse t) of
        None \<Rightarrow> Inl (ApiError 400 ''invalid_body'')
      | Some raw \<Rightarrow> (case schema raw of
          None \<Rightarrow> Inl (ApiError 400 ''invalid_body'')
        | Some x \<Rightarrow> Inr x)))"

section \<open>The handler\<close>

text \<open>
  What leaves a route that threw: status and code of its error. A \<open>ZodError\<close> thrown by \<open>parse\<close> is
  \<open>zodError\<close>. Messages, details and the request id of a 500 are left out.
\<close>

definition zodError :: err where "zodError = OtherError ''ZodError''"

definition errorOf :: "err \<Rightarrow> int \<times> string" where
  "errorOf e = (case e of ApiError status code \<Rightarrow> (status, code)
     | _ \<Rightarrow> if e = zodError then (400, ''invalid_body'') else (500, ''internal''))"

definition handler :: "'a io \<Rightarrow> ((int \<times> string) + 'a) io" where
  "handler fn = catchE (bindE fn (\<lambda>x. retE (Inr x))) (\<lambda>e. retE (Inl (errorOf e)))"

section \<open>Cached responses\<close>

definition encCached :: "response \<Rightarrow> string" where
  "encCached r = stringify (JObj [(''status'', JNum (rs_status r)), (''body'', JStr (rs_body r)),
     (''contentType'', case rs_contentType r of None \<Rightarrow> JNull | Some c \<Rightarrow> JStr c)])"

text \<open>\<open>JSON.parse(cached) as CachedResponse\<close>, with the content type only when it is truthy.\<close>

definition decCached :: "string \<Rightarrow> response" where
  "decCached s = (let j = jsonParse s; ct = jstr (jget j ''contentType'') in
     \<lparr>rs_status = nullish (jnum (jget j ''status'')) 0, rs_body = nullish (jstr (jget j ''body'')) [],
      rs_contentType = (if truthy ct then ct else None)\<rparr>)"

section \<open>Lemmas\<close>

lemma readChunks_eq:
  assumes "seen \<le> maxBytes"
  shows "readChunks maxBytes chunks seen cs =
    (if seen + int (length (concat cs)) \<le> maxBytes then Inr (concat chunks @ concat cs) else Inl payloadTooLarge)"
  using assms by (induction cs arbitrary: chunks seen) auto

text \<open>A body is read exactly when neither its declared nor its real length passes the limit.\<close>

lemma readBodyText_eq:
  assumes "0 \<le> maxBytes"
  shows "readBodyText req maxBytes =
    (if (\<forall>d. declaredLength req = Some d \<longrightarrow> d \<le> maxBytes)
        \<and> int (length (concat (nullish (rq_body req) []))) \<le> maxBytes
     then Inr (concat (nullish (rq_body req) [])) else Inl payloadTooLarge)"
proof -
  have chunks: "readChunks maxBytes [] 0 cs =
      (if int (length (concat cs)) \<le> maxBytes then Inr (concat cs) else Inl payloadTooLarge)" for cs
    using readChunks_eq [of 0 maxBytes "[]" cs] assms by simp
  show ?thesis
    using assms unfolding readBodyText_def chunks
    by (cases "declaredLength req"; cases "rq_body req") (simp_all add: nullish_def not_less del: length_concat)
qed

lemma parseBody_valid:
  "parseBody req schema m = Inr x \<Longrightarrow> \<exists>raw. schema raw = Some x"
  by (auto simp: parseBody_def split: sum.splits option.splits if_splits)

lemma parseBody_error:
  "parseBody req schema m = Inl e \<Longrightarrow> e = payloadTooLarge \<or> e = ApiError 400 ''invalid_body''"
proof -
  have "readBodyText req n = Inl e' \<Longrightarrow> e' = payloadTooLarge" for n e'
  proof -
    have "readChunks n chunks t cs = Inl e' \<Longrightarrow> e' = payloadTooLarge" for chunks t cs
      by (induction cs arbitrary: chunks t) (auto split: if_splits)
    then show "readBodyText req n = Inl e' \<Longrightarrow> ?thesis"
      by (auto simp: readBodyText_def split: if_splits option.splits)
  qed
  then show "parseBody req schema m = Inl e \<Longrightarrow> ?thesis"
    by (auto simp: parseBody_def split: sum.splits option.splits if_splits)
qed

lemma wp_handler: "wp (handler fn) Q E w = wp fn (\<lambda>x. Q (Inr x)) (\<lambda>e. Q (Inl (errorOf e))) w"
  by (simp add: handler_def wp_simps wp_ret')

lemma decCached_enc:
  assumes "rs_contentType r \<noteq> Some []"
  shows "decCached (encCached r) = r"
proof -
  have "jsonParse (encCached r) = Some (JObj [(''status'', JNum (rs_status r)), (''body'', JStr (rs_body r)),
     (''contentType'', case rs_contentType r of None \<Rightarrow> JNull | Some c \<Rightarrow> JStr c)])"
    unfolding encCached_def by (rule jsonParse_stringify) (simp split: option.splits)
  then show ?thesis
    using assms by (cases r)
      (auto simp: decCached_def jget_def jstr_def jnum_def nullish_def truthy_def Let_def split: option.splits)
qed

lemma encCached_not_pending: "encCached r \<noteq> PENDING"
  by (simp add: encCached_def PENDING_def)

text \<open>The first call of a key that answers with success leaves the answer cached.\<close>

lemma idempotent_cached:
  assumes key: "k \<noteq> []" "length k \<le> 255"
    and run: "idempotent encCached decCached (Some k) uid fn w = (Inr (res, False), w1)"
    and ok: "200 \<le> rs_status res" "rs_status res < 300"
  shows "kvT w1 (idemKey uid k) = Some (encCached res, Some (now w1 + IDEMPOTENCY_TTL_MS))"
proof -
  have set: "snd (kvSet kv key v (Some d) False t) key = Some (v, Some (t + d))" for kv key v d t
    by (auto simp: kvSet_def Let_def split: option.splits)
  let ?key = "idemKey uid k"
  let ?Q = "\<lambda>(r, replayed) v. \<not> replayed \<longrightarrow> 200 \<le> rs_status r \<longrightarrow> rs_status r < 300 \<longrightarrow>
     kvT v ?key = Some (encCached r, Some (now v + IDEMPOTENCY_TTL_MS))"
  let ?tail = "\<lambda>r. if rs_status r < 200 \<or> rs_status r \<ge> 300 then thenE (kvDelE ?key) (retE (r, False))
     else thenE (kvSetE ?key (encCached r) (Some IDEMPOTENCY_TTL_MS) False) (retE (r, False))"
  have same: "nullish (Some k) [] = k" by (simp add: nullish_def)
  have tail: "wp (?tail r) ?Q (\<lambda>_ _. True) v" for r v
    by (simp add: wp_simps set)
  have err: "wp (thenE (kvDelE ?key) (throwE e)) (\<lambda>r. wp (?tail r) ?Q (\<lambda>_ _. True)) (\<lambda>_ _. True) v" for e v
    by (simp add: wp_simps)
  have body: "wp (bindE (catchE fn (\<lambda>e. thenE (kvDelE ?key) (throwE e))) ?tail) ?Q (\<lambda>_ _. True) v" for v
    unfolding wp_bind wp_catch by (rule wp_mono [OF wp_TrueI]) (rule tail err)+
  have "wp (idempotent encCached decCached (Some k) uid fn) ?Q (\<lambda>_ _. True) w"
    using key unfolding idempotent_def Let_def same
    by (simp add: wp_bind [of "kvSetE ?key PENDING (Some IDEMPOTENCY_PENDING_TTL_MS) True"] truthy_def nullish_def
        body wp_kvSetE wp_kvGetE wp_throw wp_ret wp_bind [of "kvGetE ?key"] split: option.splits)
  from wp_run [OF this run] ok show ?thesis by simp
qed

lemma idempotent_hit:
  assumes key: "k \<noteq> []" "length k \<le> 255"
    and cached: "kvGet (kvT v) (idemKey uid k) (now v) = Some c" "c \<noteq> PENDING"
  shows "idempotent enc dec (Some k) uid other v =
    (Inr ((dec c)\<lparr>rs_body := if rs_status (dec c) = 204 then [] else rs_body (dec c)\<rparr>, True), v)"
proof -
  have "kvSet (kvT v) (idemKey uid k) PENDING (Some IDEMPOTENCY_PENDING_TTL_MS) True (now v) = (False, kvT v)"
    using cached(1) by (intro sqlkv.put_nx_held) simp
  then show ?thesis
    using key cached by (simp add: idempotent_def truthy_def nullish_def Let_def act_defs kvSetE_def kvGetE_def)
qed

end
