(* ===== verification/Tokens.thy ===== *)
theory Tokens
  imports Sessions
begin

text \<open>
  Session tokens and port bootstrap tokens (\<open>lib/tokens.ts\<close>, \<open>lib/port-token.ts\<close>) and the
  \<open>ConnectInfo\<close> a connect returns (\<open>mintConnectInfo\<close> of \<open>lib/connect.ts\<close>). The JWT library is
  a parameter, the record \<open>jose\<close>; the locale \<open>jwt_library\<close> states the documented behaviour the
  code relies on, and the concrete library of the witnesses is an interpretation of it.
\<close>

section \<open>Errors and keys\<close>

datatype tokenErrorCode = TeAudience | TeIssuer | TeWorkspace | TeExpired | TeNotYetValid
  | TeSignature | TeAlgorithm | TeMalformed | TeMissingClaim | TeUnknownKid | TePort | TeConfig

text \<open>A key pair is named by its two halves; \<open>k_pem\<close> is the public half as SPKI PEM.\<close>

record activeKey =
  ak_kid :: string
  ak_privateKey :: string
  ak_publicKey :: string
  ak_publicSpkiPem :: string

record previousKey =
  pk_kid :: string
  pk_publicKey :: string
  pk_publicSpkiPem :: string

record signingKeys =
  sk_active :: activeKey
  sk_previous :: "previousKey option"
  sk_issuer :: string

text \<open>The variables \<open>loadSigningKeys\<close> reads, which are also the fingerprint of its memo.\<close>

record jwtEnv =
  je_privateKey :: "string option"
  je_kid :: string
  je_previousPublicKey :: "string option"
  je_previousKid :: "string option"
  je_issuer :: string

text \<open>What jose rejects with: the branches \<open>mapJoseError\<close> tells apart.\<close>

datatype joseError = JoseExpired | JoseClaim string bool | JoseAlgNotAllowed | JoseNotSupported
  | JoseSignature | JoseOther | JoseThrown tokenErrorCode | JoseForeign

type_synonym payload = "(string \<times> json) list"

text \<open>
  \<open>SignJWT(\<dots>).sign(key)\<close>, \<open>jwtVerify\<close> at an instant in seconds, and the key importers
  (\<open>None\<close> where they throw).
\<close>

record 'tok jose =
  jz_sign :: "string \<Rightarrow> string \<Rightarrow> payload \<Rightarrow> 'tok"
  jz_verify :: "'tok \<Rightarrow> (string option \<Rightarrow> tokenErrorCode + string) \<Rightarrow> string \<Rightarrow> string \<Rightarrow> string list
     \<Rightarrow> int \<Rightarrow> int \<Rightarrow> joseError + payload"
  jz_importPKCS8 :: "string \<Rightarrow> string option"
  jz_publicSpkiPemOf :: "string \<Rightarrow> string option"
  jz_importSPKI :: "string \<Rightarrow> string option"

definition SESSION_TOKEN_TTL_SECS :: int where "SESSION_TOKEN_TTL_SECS = 3600"

text \<open>\<open>raw.replace(/\\n/g, "\n").trim()\<close>.\<close>

fun unescapeNewlines :: "string \<Rightarrow> string" where
  "unescapeNewlines (a # b # rest) = (if a = CHR 0x5C \<and> b = CHR ''n''
     then CHR 0x0A # unescapeNewlines rest else a # unescapeNewlines (b # rest))"
| "unescapeNewlines s = s"

definition normalizePem :: "string \<Rightarrow> string" where
  "normalizePem raw = trimBoth (unescapeNewlines raw)"

definition loadKeys :: "'tok jose \<Rightarrow> jwtEnv \<Rightarrow> tokenErrorCode + signingKeys" where
  "loadKeys jz e =
     (if \<not> truthy (je_privateKey e) then Inl TeConfig
      else let pem = normalizePem (nullish (je_privateKey e) []) in
      (case (jz_importPKCS8 jz pem, jz_publicSpkiPemOf jz pem) of
         (Some priv, Some spki) \<Rightarrow>
           (case jz_importSPKI jz spki of
              None \<Rightarrow> Inl TeConfig
            | Some pub \<Rightarrow>
                let active = \<lparr>ak_kid = je_kid e, ak_privateKey = priv, ak_publicKey = pub,
                      ak_publicSpkiPem = spki\<rparr> in
                if truthy (je_previousPublicKey e)
                then (if \<not> truthy (je_previousKid e) then Inl TeConfig
                  else let prevPem = normalizePem (nullish (je_previousPublicKey e) []) in
                  (case jz_importSPKI jz prevPem of
                     None \<Rightarrow> Inl TeConfig
                   | Some prev \<Rightarrow> Inr \<lparr>sk_active = active,
                       sk_previous = Some \<lparr>pk_kid = nullish (je_previousKid e) [], pk_publicKey = prev,
                         pk_publicSpkiPem = prevPem\<rparr>, sk_issuer = je_issuer e\<rparr>))
                else Inr \<lparr>sk_active = active, sk_previous = None, sk_issuer = je_issuer e\<rparr>)
       | _ \<Rightarrow> Inl TeConfig))"

text \<open>\<open>loadSigningKeys\<close> with its module-level memo: a rejected load empties it.\<close>

type_synonym keyCache = "(jwtEnv \<times> (tokenErrorCode + signingKeys)) option"

definition loadSigningKeys ::
  "'tok jose \<Rightarrow> jwtEnv \<Rightarrow> keyCache \<Rightarrow> (tokenErrorCode + signingKeys) \<times> keyCache" where
  "loadSigningKeys jz e cache =
     (case cache of
        Some (fp, keys) \<Rightarrow> if fp = e then (keys, cache)
          else (let r = loadKeys jz e in (r, case r of Inl _ \<Rightarrow> None | Inr _ \<Rightarrow> Some (e, r)))
      | None \<Rightarrow> (let r = loadKeys jz e in (r, case r of Inl _ \<Rightarrow> None | Inr _ \<Rightarrow> Some (e, r))))"

definition publicKeyPems :: "signingKeys \<Rightarrow> string list" where
  "publicKeyPems keys = ak_publicSpkiPem (sk_active keys)
     # (case sk_previous keys of None \<Rightarrow> [] | Some p \<Rightarrow> [pk_publicSpkiPem p])"

section \<open>Minting\<close>

record mintInput =
  mi_userId :: string
  mi_workspaceId :: string
  mi_sessionId :: string
  mi_participantId :: "string option"
  mi_audience :: string
  mi_ttlSeconds :: "int option"

record 'tok mintedToken =
  mt_token :: 'tok
  mt_jti :: string
  mt_expiresAt :: int
  mt_kid :: string

definition sessionTtl :: "int option \<Rightarrow> int" where
  "sessionTtl t = min SESSION_TOKEN_TTL_SECS (max 1 (nullish t SESSION_TOKEN_TTL_SECS))"

text \<open>The claims \<open>SignJWT\<close> was given; \<open>now\<close> is in milliseconds.\<close>

definition mintSessionToken ::
  "'tok jose \<Rightarrow> signingKeys \<Rightarrow> nat list \<Rightarrow> int \<Rightarrow> mintInput \<Rightarrow> 'tok mintedToken" where
  "mintSessionToken jz keys bytes t input =
     (let iat = t div 1000; exp = iat + sessionTtl (mi_ttlSeconds input); jti = newJti bytes;
          claims = [(''ws'', JStr (mi_workspaceId input)), (''sid'', JStr (mi_sessionId input))]
            @ (if truthy (mi_participantId input)
               then [(''pid'', JStr (nullish (mi_participantId input) []))] else [])
            @ [(''iss'', JStr (sk_issuer keys)), (''sub'', JStr (mi_userId input)),
               (''aud'', JStr (mi_audience input)), (''iat'', JNum iat), (''exp'', JNum exp),
               (''jti'', JStr jti)] in
      \<lparr>mt_token = jz_sign jz (ak_privateKey (sk_active keys)) (ak_kid (sk_active keys)) claims,
       mt_jti = jti, mt_expiresAt = exp * 1000, mt_kid = ak_kid (sk_active keys)\<rparr>)"

section \<open>Verifying\<close>

definition keyResolver :: "signingKeys \<Rightarrow> string option \<Rightarrow> tokenErrorCode + string" where
  "keyResolver keys kid =
     (if kid = None \<or> kid = Some (ak_kid (sk_active keys)) then Inr (ak_publicKey (sk_active keys))
      else (case sk_previous keys of
        Some p \<Rightarrow> if kid = Some (pk_kid p) then Inr (pk_publicKey p) else Inl TeUnknownKid
      | None \<Rightarrow> Inl TeUnknownKid))"

fun mapJoseError :: "joseError \<Rightarrow> tokenErrorCode" where
  "mapJoseError (JoseThrown c) = c"
| "mapJoseError JoseExpired = TeExpired"
| "mapJoseError (JoseClaim claim missing) =
     (if missing then TeMissingClaim else if claim = ''aud'' then TeAudience
      else if claim = ''iss'' then TeIssuer
      else if claim = ''nbf'' \<or> claim = ''iat'' then TeNotYetValid else TeMalformed)"
| "mapJoseError JoseAlgNotAllowed = TeAlgorithm"
| "mapJoseError JoseNotSupported = TeAlgorithm"
| "mapJoseError JoseSignature = TeSignature"
| "mapJoseError JoseOther = TeMalformed"
| "mapJoseError JoseForeign = TeMalformed"

definition REQUIRED_SESSION_CLAIMS :: "string list" where
  "REQUIRED_SESSION_CLAIMS = [''exp'', ''aud'', ''iss'', ''sub'', ''ws'', ''sid'', ''jti'', ''iat'']"

record sessionClaims =
  sc_iss :: string
  sc_sub :: string
  sc_ws :: string
  sc_sid :: string
  sc_aud :: string
  sc_iat :: int
  sc_exp :: int
  sc_jti :: string

definition claim :: "payload \<Rightarrow> string \<Rightarrow> json option" where
  "claim p k = map_of p k"

definition audienceOf :: "payload \<Rightarrow> string option" where
  "audienceOf p = (case claim p ''aud'' of
      Some (JArr (x # xs)) \<Rightarrow> jstr (Some x)
    | a \<Rightarrow> jstr a)"

definition asSessionClaims :: "payload \<Rightarrow> tokenErrorCode + sessionClaims" where
  "asSessionClaims p =
     (case (jstr (claim p ''iss''), jstr (claim p ''sub''), jstr (claim p ''ws''), jstr (claim p ''sid''),
            jstr (claim p ''jti''), jnum (claim p ''iat''), jnum (claim p ''exp'')) of
        (Some iss, Some sub, Some ws, Some sid, Some jti, Some iat, Some exp) \<Rightarrow>
          (case audienceOf p of
             None \<Rightarrow> Inl TeMalformed
           | Some aud \<Rightarrow> Inr \<lparr>sc_iss = iss, sc_sub = sub, sc_ws = ws, sc_sid = sid, sc_aud = aud,
               sc_iat = iat, sc_exp = exp, sc_jti = jti\<rparr>)
      | _ \<Rightarrow> Inl TeMalformed)"

definition CLOCK_TOLERANCE :: int where "CLOCK_TOLERANCE = 30"

definition verifySessionToken ::
  "'tok jose \<Rightarrow> signingKeys \<Rightarrow> int \<Rightarrow> string \<Rightarrow> string \<Rightarrow> 'tok \<Rightarrow> tokenErrorCode + sessionClaims" where
  "verifySessionToken jz keys t aud workspaceId token =
     (case jz_verify jz token (keyResolver keys) (sk_issuer keys) aud REQUIRED_SESSION_CLAIMS
            CLOCK_TOLERANCE (t div 1000) of
        Inl e \<Rightarrow> Inl (mapJoseError e)
      | Inr p \<Rightarrow> (case asSessionClaims p of
          Inl e \<Rightarrow> Inl e
        | Inr claims \<Rightarrow>
            if \<not> timingSafeEqualString (sc_ws claims) workspaceId then Inl TeWorkspace
            else Inr claims))"

section \<open>Port bootstrap tokens\<close>

definition PORT_BOOTSTRAP_TTL_SECS :: int where "PORT_BOOTSTRAP_TTL_SECS = 600"

definition portAudience :: "string \<Rightarrow> string" where
  "portAudience aud = aud @ ''/ports''"

definition mintPortBootstrapToken ::
  "'tok jose \<Rightarrow> env \<Rightarrow> signingKeys \<Rightarrow> nat list \<Rightarrow> int \<Rightarrow> string \<Rightarrow> string \<Rightarrow> string \<Rightarrow> int
   \<Rightarrow> tokenErrorCode + 'tok \<times> string \<times> int" where
  "mintPortBootstrapToken jz e keys bytes t userId workspaceId aud port =
     (if port < 1 \<or> port > 65535 \<or> port \<in> set (infraPorts e) then Inl TePort
      else let iat = t div 1000; exp = iat + PORT_BOOTSTRAP_TTL_SECS; jti = newJti bytes;
          claims = [(''ws'', JStr workspaceId), (''sid'', JStr (''port:'' @ showInt port)),
            (''iss'', JStr (sk_issuer keys)), (''sub'', JStr userId),
            (''aud'', JStr (portAudience aud)), (''iat'', JNum iat), (''exp'', JNum exp),
            (''jti'', JStr jti)] in
      Inr (jz_sign jz (ak_privateKey (sk_active keys)) (ak_kid (sk_active keys)) claims, jti, exp * 1000))"

section \<open>The contract of the JWT library\<close>

text \<open>
  \<open>jwtVerify\<close> on a token the same library signed, under a resolver that returns the matching
  public key: the registered claims decide, in jose's order.
\<close>

definition claimVerdict :: "payload \<Rightarrow> string \<Rightarrow> string \<Rightarrow> string list \<Rightarrow> int \<Rightarrow> int \<Rightarrow> joseError + payload" where
  "claimVerdict p iss aud required tolerance t =
     (case find (\<lambda>k. claim p k = None) required of
        Some k \<Rightarrow> Inl (JoseClaim k True)
      | None \<Rightarrow>
          if claim p ''iss'' \<noteq> Some (JStr iss) then Inl (JoseClaim ''iss'' False)
          else if claim p ''aud'' \<noteq> Some (JStr aud) then Inl (JoseClaim ''aud'' False)
          else (case claim p ''exp'' of
             Some (JNum exp) \<Rightarrow> if exp \<le> t - tolerance then Inl JoseExpired else Inr p
           | _ \<Rightarrow> Inl (JoseClaim ''exp'' False)))"

locale jwt_library =
  fixes jz :: "'tok jose" and publicOf :: "string \<Rightarrow> string"
  assumes verify_signed: "resolve (Some kid) = Inr (publicOf priv) \<Longrightarrow>
      jz_verify jz (jz_sign jz priv kid p) resolve iss aud required tolerance t
        = claimVerdict p iss aud required tolerance t"
begin

definition matching :: "signingKeys \<Rightarrow> bool" where
  "matching keys \<longleftrightarrow> ak_publicKey (sk_active keys) = publicOf (ak_privateKey (sk_active keys))"

lemma resolve_active: "matching keys \<Longrightarrow>
    keyResolver keys (Some (ak_kid (sk_active keys))) = Inr (publicOf (ak_privateKey (sk_active keys)))"
  by (simp add: keyResolver_def matching_def)

lemma verify_active: "matching keys \<Longrightarrow>
    jz_verify jz (jz_sign jz (ak_privateKey (sk_active keys)) (ak_kid (sk_active keys)) p)
      (keyResolver keys) iss aud required tolerance t = claimVerdict p iss aud required tolerance t"
  by (rule verify_signed) (rule resolve_active)

text \<open>A minted token is accepted by its workspace until it expires, with the claims it was minted for.\<close>

lemma verify_minted:
  assumes "matching keys" and "t' div 1000 < t div 1000 + sessionTtl (mi_ttlSeconds input) + CLOCK_TOLERANCE"
  shows "\<exists>c. verifySessionToken jz keys t' (mi_audience input) (mi_workspaceId input)
        (mt_token (mintSessionToken jz keys bytes t input)) = Inr c
     \<and> sc_ws c = mi_workspaceId input \<and> sc_sid c = mi_sessionId input \<and> sc_sub c = mi_userId input
     \<and> sc_aud c = mi_audience input \<and> sc_jti c = mt_jti (mintSessionToken jz keys bytes t input)
     \<and> sc_exp c * 1000 = mt_expiresAt (mintSessionToken jz keys bytes t input)"
  using assms
  by (simp add: verifySessionToken_def mintSessionToken_def Let_def
      verify_active [OF assms(1)] claimVerdict_def claim_def
      REQUIRED_SESSION_CLAIMS_def asSessionClaims_def audienceOf_def jstr_def jnum_def
      timingSafeEqualString_def)

lemma verify_expired:
  assumes "matching keys" and "t div 1000 + sessionTtl (mi_ttlSeconds input) + CLOCK_TOLERANCE \<le> t' div 1000"
  shows "verifySessionToken jz keys t' (mi_audience input) (mi_workspaceId input)
        (mt_token (mintSessionToken jz keys bytes t input)) = Inl TeExpired"
  using assms
  by (simp add: verifySessionToken_def mintSessionToken_def Let_def
      verify_active [OF assms(1)] claimVerdict_def claim_def
      REQUIRED_SESSION_CLAIMS_def)

lemma verify_other_audience:
  assumes "matching keys" and "aud \<noteq> mi_audience input"
  shows "verifySessionToken jz keys t' aud workspaceId
        (mt_token (mintSessionToken jz keys bytes t input)) = Inl TeAudience"
  using assms
  by (simp add: verifySessionToken_def mintSessionToken_def Let_def
      verify_active [OF assms(1)] claimVerdict_def claim_def
      REQUIRED_SESSION_CLAIMS_def)

lemma portAudience_differs: "portAudience aud \<noteq> aud"
  by (simp add: portAudience_def)

text \<open>A port bootstrap token never opens an RPC session of its workspace.\<close>

lemma bootstrap_rejected:
  assumes "matching keys"
    and "mintPortBootstrapToken jz e keys bytes t userId workspaceId aud port = Inr (token, jti, expiresAt)"
  shows "verifySessionToken jz keys t' aud other token = Inl TeAudience"
  using assms(2) portAudience_differs [of aud]
  by (auto simp: mintPortBootstrapToken_def Let_def verifySessionToken_def
      verify_active [OF assms(1)] claimVerdict_def claim_def
      REQUIRED_SESSION_CLAIMS_def split: if_splits)

end

text \<open>A library that keeps key, key id and claims in the token: it meets the contract.\<close>

definition plainJose :: "(string \<times> string \<times> payload) jose" where
  "plainJose = \<lparr>jz_sign = (\<lambda>priv kid p. (priv, kid, p)),
     jz_verify = (\<lambda>(priv, kid, p) resolve iss aud required tolerance t.
        case resolve (Some kid) of
          Inl c \<Rightarrow> Inl (JoseThrown c)
        | Inr pub \<Rightarrow> if pub \<noteq> ''pub-'' @ priv then Inl JoseSignature
            else claimVerdict p iss aud required tolerance t),
     jz_importPKCS8 = (\<lambda>s. if s = [] then None else Some s),
     jz_publicSpkiPemOf = (\<lambda>s. Some (''PUBLIC KEY '' @ s)),
     jz_importSPKI = (\<lambda>s. if prefix ''PUBLIC KEY '' s then Some (''pub-'' @ drop 11 s) else None)\<rparr>"

interpretation plainLib: jwt_library plainJose "\<lambda>priv. ''pub-'' @ priv"
  by unfold_locales (simp add: plainJose_def)

lemma sessionTtl_bounds: "1 \<le> sessionTtl t \<and> sessionTtl t \<le> 3600"
  by (simp add: sessionTtl_def SESSION_TOKEN_TTL_SECS_def)

text \<open>The memo is transparent: with a cache only this function filled, the answer is a fresh load.\<close>

definition cacheOk :: "'tok jose \<Rightarrow> keyCache \<Rightarrow> bool" where
  "cacheOk jz cache \<longleftrightarrow> (case cache of None \<Rightarrow> True | Some (e, r) \<Rightarrow> r = loadKeys jz e \<and> (\<exists>k. r = Inr k))"

lemma loadSigningKeys_memo:
  assumes "cacheOk jz cache"
  shows "fst (loadSigningKeys jz e cache) = loadKeys jz e \<and> cacheOk jz (snd (loadSigningKeys jz e cache))"
  using assms by (auto simp: cacheOk_def loadSigningKeys_def Let_def split: option.splits sum.splits)

end
