(* ===== verification/WorkflowResults.thy ===== *)
theory WorkflowResults
  imports WorkflowFrames
begin

text \<open>
  What the workflows establish: their waits end before the fuel does and only on a ready
  supervisor, every run ends with \<open>workflow_run_id\<close> cleared, and a rebuild that fails has
  destroyed nothing that holds the user's files.
\<close>

section \<open>The steps, as rules\<close>

lemma wp_any: "(\<And>a v. wp (k a) Q (\<lambda>_ _. True) v) \<Longrightarrow> wp (bindE m k) Q (\<lambda>_ _. True) w"
  unfolding wp_bind by (rule wp_mono [OF wp_TrueI])

lemma wp_anyT: "(\<And>v. wp k Q (\<lambda>_ _. True) v) \<Longrightarrow> wp (thenE m k) Q (\<lambda>_ _. True) w"
  unfolding thenE_def by (rule wp_any)

lemma wp_optionI: "(x = None \<Longrightarrow> wp a Q E w) \<Longrightarrow> (\<And>y. x = Some y \<Longrightarrow> wp (b y) Q E w) \<Longrightarrow>
    wp (case x of None \<Rightarrow> a | Some y \<Rightarrow> b y) Q E w"
  by (cases x) auto

lemma wp_prodI: "(\<And>a b. x = (a, b) \<Longrightarrow> wp (f a b) Q E w) \<Longrightarrow> wp (case x of (a, b) \<Rightarrow> f a b) Q E w"
  by (cases x) auto

lemma wp_throwTrue: "wp (throwE e) Q (\<lambda>_ _. True) w"
  by (simp add: wp_throw)

lemma wp_ifI: "(b \<Longrightarrow> wp m Q E w) \<Longrightarrow> (\<not> b \<Longrightarrow> wp n Q E w) \<Longrightarrow> wp (if b then m else n) Q E w"
  by simp

lemma wp_stepLoad [wp_simps]: "wp (stepLoadWorkspace wid) Q E w =
    (case rowOf w wid of
       Some r \<Rightarrow> if deletedAt r = None then Q r w else E (FatalError (''workspace_missing:'' @ wid)) w
     | None \<Rightarrow> E (FatalError (''workspace_missing:'' @ wid)) w)"
  by (cases "rowOf w wid"; cases "deletedAt (the (rowOf w wid))")
    (simp_all add: stepLoadWorkspace_def wp_simps)

lemma wp_load_any:
  assumes "\<And>ws. ws_id ws = wid \<Longrightarrow> wp (k ws) Q (\<lambda>_ _. True) w"
  shows "wp (bindE (stepLoadWorkspace wid) k) Q (\<lambda>_ _. True) w"
  unfolding wp_bind wp_stepLoad using assms rowOf_id by (auto split: option.split)

lemma wp_stepProbe:
  "wp (stepProbeHealth pf wid host)
     (\<lambda>p w'. trace w' = trace w @ [EvProbe host p] \<and> now w \<le> now w') (\<lambda>_ _. False) w"
  by (simp add: stepProbeHealth_def probeHealth_def wp_simps split: option.split)

lemma wp_stepWait: "wp (stepWaitForCommandExit pf name cmd t) (\<lambda>_ w'. now w \<le> now w') (\<lambda>_ _. False) w"
  by (simp add: stepWaitForCommandExit_def wp_simps wp_getOrNull waitCommand_def Let_def
      split: option.split sum.split)

section \<open>Waits end\<close>

definition roundsLeft :: "int \<Rightarrow> int \<Rightarrow> world \<Rightarrow> nat" where
  "roundsLeft period deadline w = (if now w \<le> deadline then Suc (nat ((deadline - now w) div period)) else 0)"

lemma roundsLeft_less:
  assumes "0 < period" and "now v \<le> deadline" and "now v + period \<le> now v'"
  shows "roundsLeft period deadline v' < roundsLeft period deadline v"
proof -
  have "(deadline - now v') div period \<le> (deadline - now v - period) div period"
    using assms by (intro zdiv_mono1) auto
  also have "deadline - now v - period = (deadline - now v) + (- 1) * period" by simp
  also have "\<dots> div period = (deadline - now v) div period - 1"
    using assms(1) by (subst div_mult_self1) simp_all
  finally have le: "(deadline - now v') div period \<le> (deadline - now v) div period - 1" .
  have "0 \<le> (deadline - now v) div period" using assms by (simp add: pos_imp_zdiv_nonneg_iff)
  moreover have "0 \<le> (deadline - now v') div period" if "now v' \<le> deadline"
    using assms(1) that by (simp add: pos_imp_zdiv_nonneg_iff)
  ultimately show ?thesis using le assms(2) unfolding roundsLeft_def by auto
qed

lemma roundsLeft_fuel: "roundsLeft period (now w + ceiling) w < loopFuel ceiling period"
  by (simp add: roundsLeft_def loopFuel_def)

definition readyProbe :: "string \<Rightarrow> string \<Rightarrow> world \<Rightarrow> bool" where
  "readyProbe host build w \<longleftrightarrow> (\<exists>t0 h. trace w = t0 @ [EvProbe host (Some h)]
     \<and> hp_serverRunning h \<and> (hp_status h = HsReady \<or> hp_status h = HsDegraded)
     \<and> buildsCompatible (hp_build h) (Some build))"

definition fatal :: "err \<Rightarrow> bool" where
  "fatal e \<longleftrightarrow> (\<exists>m. e = FatalError m)"

lemma wp_readyRound:
  "wp (readyRound pf ws host cmd deadline)
     (\<lambda>r v'. case r of Some x \<Rightarrow> readyProbe host (serverBuild ws) v'
        | None \<Rightarrow> True \<and> roundsLeft 5000 deadline v' < roundsLeft 5000 deadline v)
     (\<lambda>e _. fatal e) v"
  unfolding readyRound_def wp_bind
proof (rule wp_mono [OF wp_stepProbe], goal_cases)
  case (1 p u)
  show ?case
  proof (cases "serverUp p")
    case True
    then show ?thesis
      using 1 by (auto simp: wp_simps fatal_def readyProbe_def serverUp_def probeBuild_def split: option.splits)
  next
    case False
    have "wp (stepWaitForCommandExit pf (sandboxName ws) cmd 1000)
       (\<lambda>exit. wp (case exit of
            Some c \<Rightarrow> throwE (FatalError (''supervisor_exit:'' @ showInt c @ '':'' @ phaseName p))
          | None \<Rightarrow> bindE (getE now) (\<lambda>t.
              if t > deadline then throwE (FatalError (''health_timeout:'' @ phaseName p))
              else thenE (sleepMs 5000) (retE None)))
         (\<lambda>r v'. case r of Some x \<Rightarrow> readyProbe host (serverBuild ws) v'
            | None \<Rightarrow> True \<and> roundsLeft 5000 deadline v' < roundsLeft 5000 deadline v) (\<lambda>e _. fatal e))
       (\<lambda>e _. fatal e) u"
      by (rule wp_mono [OF wp_stepWait])
        (use 1 in \<open>auto simp: wp_simps fatal_def intro!: roundsLeft_less split: option.split\<close>)
    then show ?thesis unfolding if_not_P [OF False] wp_bind .
  qed
qed simp

text \<open>
  The readiness wait ends, within its fuel, on a supervisor that answered ready with a build
  compatible with the row's; everything it throws is a \<open>FatalError\<close>, so running out of fuel
  (which would throw another error) does not happen.
\<close>

lemma wp_awaitReady:
  "wp (awaitReady pf ws host cmd ceiling) (\<lambda>_. readyProbe host (serverBuild ws)) (\<lambda>e _. fatal e) w"
  unfolding awaitReady_def wp_bind wp_get
  by (rule wp_loopE [where I = "\<lambda>_. True" and \<mu> = "roundsLeft 5000 (now w + ceiling)"])
    (simp_all add: roundsLeft_fuel wp_readyRound)

lemma wp_drainRound:
  "wp (drainRound pf wid host deadline)
     (\<lambda>r v'. case r of Some x \<Rightarrow> True | None \<Rightarrow> True \<and> roundsLeft 2000 deadline v' < roundsLeft 2000 deadline v)
     (\<lambda>_ _. False) v"
  unfolding drainRound_def wp_bind
  by (rule wp_mono [OF wp_stepProbe]) (auto simp: wp_simps intro!: roundsLeft_less)

text \<open>The wait for the listener to go never fails: it stops polling after 25 s at the latest.\<close>

lemma wp_awaitDrained: "wp (awaitDrained pf wid host) (\<lambda>_ _. True) (\<lambda>_ _. False) w"
  unfolding awaitDrained_def wp_bind wp_get
  by (rule wp_loopE [where I = "\<lambda>_. True" and \<mu> = "roundsLeft 2000 (now w + 25000)"])
    (simp_all add: roundsLeft_fuel wp_drainRound)

lemma wp_archiveRound:
  "wp (archiveRound pf name cmd deadline)
     (\<lambda>r v'. case r of Some x \<Rightarrow> True | None \<Rightarrow> True \<and> roundsLeft 5000 deadline v' < roundsLeft 5000 deadline v)
     (\<lambda>e _. fatal e) v"
  unfolding archiveRound_def wp_bind
  by (rule wp_mono [OF wp_stepWait])
    (auto simp: wp_simps fatal_def intro!: roundsLeft_less split: option.split)

lemma wp_archiveLoop:
  "wp (loopE (loopFuel ARCHIVE_CEILING_MS 5000) (archiveRound pf name cmd (now w + ARCHIVE_CEILING_MS)))
     (\<lambda>_ _. True) (\<lambda>e _. fatal e) w"
  by (rule wp_loopE [where I = "\<lambda>_. True" and \<mu> = "roundsLeft 5000 (now w + ARCHIVE_CEILING_MS)"])
    (simp_all add: roundsLeft_fuel wp_archiveRound)

text \<open>
  The wait for a child has no ceiling while the run store says it is still going; once the
  child has ended, a readable store says so, and an unreadable one is given 45 minutes.
\<close>

definition settledSeen :: "platform \<Rightarrow> bool" where
  "settledSeen pf \<longleftrightarrow> (\<forall>n r. pf_runStatus pf n r \<noteq> Some RunPending \<and> pf_runStatus pf n r \<noteq> Some RunRunning)"

lemma wp_childRound:
  assumes "settledSeen pf"
  shows "wp (childRound pf name runId t0)
     (\<lambda>r v'. case r of Some x \<Rightarrow> True | None \<Rightarrow> True \<and>
        roundsLeft 5000 (t0 + UNKNOWN_CEILING_MS) v' < roundsLeft 5000 (t0 + UNKNOWN_CEILING_MS) v)
     (\<lambda>e _. fatal e) v"
proof -
  have "nullish (pf_runStatus pf n runId) RunUnknown \<in> {RunCompleted, RunFailed, RunCancelled, RunUnknown}" for n
    using assms unfolding settledSeen_def
    by (cases "pf_runStatus pf n runId") (auto, metis runStatus.exhaust)
  from this [of "tick v"] show ?thesis
    unfolding childRound_def stepChildStatus_def runStatusOf_def
    by (auto simp: wp_simps fatal_def intro!: roundsLeft_less)
qed

lemma wp_awaitChild:
  assumes "settledSeen pf"
  shows "wp (awaitChild pf name runId outcome) (\<lambda>_ _. outcome = None) (\<lambda>e _. fatal e) w"
proof -
  have loop: "wp (loopE (loopFuel UNKNOWN_CEILING_MS 5000) (childRound pf name runId (now w)))
     (\<lambda>_ _. True) (\<lambda>e _. fatal e) w"
    by (rule wp_loopE [where I = "\<lambda>_. True" and \<mu> = "roundsLeft 5000 (now w + UNKNOWN_CEILING_MS)"])
      (simp_all add: roundsLeft_fuel wp_childRound [OF assms])
  show ?thesis
    unfolding awaitChild_def wp_bind wp_get wp_then
    by (rule wp_mono [OF loop]) (auto simp: stepChildResult_def wp_simps fatal_def split: option.split)
qed

section \<open>How a run ends\<close>

definition rowIs :: "string \<Rightarrow> (workspace \<Rightarrow> bool) \<Rightarrow> world \<Rightarrow> bool" where
  "rowIs wid p w \<longleftrightarrow> (\<forall>r. rowOf w wid = Some r \<longrightarrow> p r)"

lemma wp_upd_rowIs:
  assumes "\<And>r. ws_id r = wid \<Longrightarrow> ws_id (f w r) = wid \<and> p (f w r)"
  shows "wp (updWs wid f) (\<lambda>_. rowIs wid p) E w"
  unfolding wp_updWs rowIs_def
  using rowOf_upd [of wid "f w" w] assms rowOf_id by auto

lemma wp_upd_rowIs':
  assumes "rowIs wid q w" and "\<And>r. ws_id r = wid \<Longrightarrow> ws_id (f w r) = wid" and "\<And>r. q r \<Longrightarrow> p (f w r)"
  shows "wp (updWs wid f) (\<lambda>_. rowIs wid p) E w"
  unfolding wp_updWs rowIs_def
  using rowOf_upd [of wid "f w" w] assms rowOf_id by (auto simp: rowIs_def)

definition failedRow :: "err \<Rightarrow> workspace \<Rightarrow> bool" where
  "failedRow e r \<longleftrightarrow> workflowRunId r = None \<and> workflowRunStartedAt r = None \<and> ws_state r = ErrorState
     \<and> stateReason r = Some (take 500 (errString e))"

definition endedRow :: "workspace \<Rightarrow> bool" where
  "endedRow r \<longleftrightarrow> workflowRunId r = None \<and> workflowRunStartedAt r = None"

lemma wp_finish_error: "wp (stepFinishRun wid (RunError (errString e) None)) (\<lambda>_. rowIs wid (failedRow e)) E w"
  unfolding stepFinishRun_def
  by (rule wp_upd_rowIs) (simp add: finishRow_def failedRow_def)

lemma wp_finish_ok: "wp (stepFinishRun wid RunOk) (\<lambda>_. rowIs wid endedRow) E w"
  unfolding stepFinishRun_def
  by (rule wp_upd_rowIs) (simp add: finishRow_def endedRow_def)

text \<open>The shared \<open>catch\<close>: whatever the body threw, the row is left in \<open>error\<close> with the run cleared.\<close>

lemma wp_asRun:
  assumes "wp body Q (\<lambda>_ _. True) w"
  shows "wp (asRun wid False body) Q (\<lambda>e. rowIs wid (failedRow e)) w"
  unfolding asRun_def wp_catch
proof (rule wp_mono [OF assms])
  fix e u
  have "wp (stepFinishRun wid (RunError (errString e) None))
      (\<lambda>_. wp (throwE e) Q (\<lambda>e. rowIs wid (failedRow e))) (\<lambda>e. rowIs wid (failedRow e)) u"
    by (rule wp_mono [OF wp_finish_error [where E = "\<lambda>_ _. False"]]) (simp_all add: wp_throw)
  then show "wp (thenE (whenE (\<not> False) (stepFinishRun wid (RunError (errString e) None))) (throwE e)) Q
      (\<lambda>e. rowIs wid (failedRow e)) u"
    by (simp add: wp_then wp_when)
qed

lemma wp_asRun_child:
  assumes "wp body Q (\<lambda>_ _. True) w"
  shows "wp (asRun wid child body) Q (\<lambda>_ _. True) w"
  unfolding asRun_def wp_catch
  by (rule wp_mono [OF assms]) (auto intro!: wp_anyT simp: wp_throw)

definition runningRow :: "bool \<Rightarrow> workspace \<Rightarrow> bool" where
  "runningRow child r \<longleftrightarrow> ws_state r = Running \<and> stateReason r = None
     \<and> (\<not> child \<longrightarrow> workflowRunId r = None \<and> workflowRunStartedAt r = None)"

lemma wp_finishRunning:
  "wp (thenE (stepSetState wid Running (Some None) p) (whenE (\<not> child) (stepFinishRun wid RunOk)))
     (\<lambda>_. rowIs wid (runningRow child)) (\<lambda>_ _. True) w"
proof (cases child)
  case True
  then show ?thesis
    unfolding stepSetState_def wp_then wp_when
    by (simp add: wp_ret)
      (rule wp_upd_rowIs, simp add: applyPatch_def runningRow_def)
next
  case False
  have "wp (updWs wid (\<lambda>w r. (applyPatch p r)\<lparr>ws_state := Running, stateReason := nullish (Some None) (stateReason r),
       updatedAt := now w\<rparr>)) (\<lambda>_. rowIs wid (\<lambda>r. ws_state r = Running \<and> stateReason r = None)) (\<lambda>_ _. True) w"
    by (rule wp_upd_rowIs) (simp add: applyPatch_def)
  then show ?thesis
    unfolding stepSetState_def wp_then
  proof (rule wp_mono)
    fix u assume running: "rowIs wid (\<lambda>r. ws_state r = Running \<and> stateReason r = None) u"
    show "wp (whenE (\<not> child) (stepFinishRun wid RunOk)) (\<lambda>_. rowIs wid (runningRow child)) (\<lambda>_ _. True) u"
      unfolding wp_when stepFinishRun_def if_P [OF False]
      by (rule wp_upd_rowIs' [OF running]) (simp_all add: finishRow_def runningRow_def)
  qed simp
qed

lemma wp_createWorkspace_done:
  "wp (createWorkspace pf wid child c) (\<lambda>_. rowIs wid (runningRow child)) (\<lambda>_ _. True) w"
proof -
  have "wp (case x of (cmdId, _) \<Rightarrow> thenE (awaitReady pf ws host cmdId t)
      (thenE (stepSetState wid Running (Some None) p) (whenE (\<not> child) (stepFinishRun wid RunOk))))
    (\<lambda>_. rowIs wid (runningRow child)) (\<lambda>_ _. True) v" for x ws host t p v
    by (cases x) (simp, rule wp_anyT, rule wp_finishRunning)
  then show ?thesis
    unfolding createWorkspace_def
    by (intro wp_asRun_child wp_load_any) (simp only:, rule wp_any, rule wp_any, rule wp_any,
      rule wp_anyT, rule wp_any)
qed

lemma wp_thenRet: "wp m (\<lambda>_. Q) E w \<Longrightarrow> wp (thenE m (retE x)) (\<lambda>_. Q) E w"
  by (simp add: wp_then wp_def act_defs split: prod.splits sum.splits)

lemma thenE_assoc: "thenE (thenE a b) c = thenE a (thenE b c)"
  by (simp add: act_defs fun_eq_iff split: prod.split sum.split)

lemma wp_connectWorkspace_done:
  "wp (connectWorkspace pf wid child c) (\<lambda>_. rowIs wid (runningRow child)) (\<lambda>_ _. True) w"
proof -
  have "wp (case got of None \<Rightarrow> throwE e | Some resumed \<Rightarrow>
      thenE (a resumed) (thenE (b resumed) (thenE (stepSetState wid Running (Some None) p)
        (thenE (whenE (\<not> child) (stepFinishRun wid RunOk)) (retE (f resumed))))))
    (\<lambda>_. rowIs wid (runningRow child)) (\<lambda>_ _. True) v" for got e a b f p v
  proof (cases got)
    case (Some resumed)
    have "wp (thenE (stepSetState wid Running (Some None) p)
        (thenE (whenE (\<not> child) (stepFinishRun wid RunOk)) (retE (f resumed))))
      (\<lambda>_. rowIs wid (runningRow child)) (\<lambda>_ _. True) u" for u
      unfolding thenE_assoc [symmetric] by (intro wp_thenRet wp_finishRunning)
    then show ?thesis unfolding Some option.case by - (rule wp_anyT, rule wp_anyT)
  qed (simp add: wp_throw)
  then show ?thesis
    unfolding connectWorkspace_def
    by (intro wp_asRun_child wp_load_any) (simp only:, rule wp_anyT, rule wp_any)
qed

text \<open>A stop that does something leaves the row stopped (or handed over to the rebuild) and detached.\<close>

definition stoppedRow :: "stopReason \<Rightarrow> bool \<Rightarrow> workspace \<Rightarrow> bool" where
  "stoppedRow reason child r \<longleftrightarrow> ws_state r = (if reason = SrRebuild then Rebuilding else Stopped)
     \<and> stateReason r = Some (stopReasonText reason) \<and> supervisorCmdId r = None
     \<and> currentWsHost r = None \<and> currentHealthHost r = None \<and> retentionUntil r \<noteq> None
     \<and> retentionWarnedAt r = None
     \<and> (\<not> child \<longrightarrow> workflowRunId r = None \<and> workflowRunStartedAt r = None)"

lemma wp_finishStopped:
  "wp (thenE (stepMarkStopped pf wid (stopReasonText reason) (if reason = SrRebuild then Rebuilding else Stopped) snap)
        (whenE (\<not> child) (stepFinishRun wid RunOk)))
     (\<lambda>_. rowIs wid (stoppedRow reason child)) (\<lambda>_ _. True) w"
  unfolding wp_then
proof (rule wp_mono)
  show "wp (stepMarkStopped pf wid (stopReasonText reason) (if reason = SrRebuild then Rebuilding else Stopped) snap)
      (\<lambda>_. rowIs wid (stoppedRow reason True)) (\<lambda>_ _. True) w"
    unfolding stepMarkStopped_def by (rule wp_upd_rowIs) (simp add: stoppedRow_def)
  fix u assume stopped: "rowIs wid (stoppedRow reason True) u"
  show "wp (whenE (\<not> child) (stepFinishRun wid RunOk)) (\<lambda>_. rowIs wid (stoppedRow reason child)) (\<lambda>_ _. True) u"
  proof (cases child)
    case True
    then show ?thesis using stopped by (simp add: wp_when)
  next
    case False
    then show ?thesis
      unfolding wp_when stepFinishRun_def if_P [OF False]
      by (intro wp_upd_rowIs' [OF stopped]) (simp_all add: finishRow_def stoppedRow_def)
  qed
qed simp

definition stopDone :: "string \<Rightarrow> stopReason \<Rightarrow> bool \<Rightarrow> bool \<Rightarrow> world \<Rightarrow> bool" where
  "stopDone wid reason child stopped w \<longleftrightarrow> (if stopped then rowIs wid (stoppedRow reason child) w
     else child \<or> rowIs wid endedRow w)"

lemma wp_stopWorkspace_done:
  "wp (stopWorkspace pf wid reason child) (stopDone wid reason child) (\<lambda>_ _. True) w"
proof -
  have tail: "wp (thenE (stepMarkStopped pf wid (stopReasonText reason) (if reason = SrRebuild then Rebuilding else Stopped) snap)
        (thenE (whenE (\<not> child) (stepFinishRun wid RunOk)) (retE True)))
     (stopDone wid reason child) (\<lambda>_ _. True) v" for snap v
    unfolding thenE_assoc [symmetric] wp_then [where k = "retE True"] wp_ret
    by (rule wp_mono [OF wp_finishStopped]) (simp_all add: stopDone_def)
  have idle: "wp (thenE (whenE (\<not> child) (stepFinishRun wid RunOk)) (retE False))
     (stopDone wid reason child) (\<lambda>_ _. True) v" for v
    unfolding wp_then wp_ret
    by (cases child) (auto simp: wp_when stopDone_def intro: wp_mono [OF wp_finish_ok])
  show ?thesis
    unfolding stopWorkspace_def
    by (intro wp_asRun_child wp_load_any)
      (simp only:, rule wp_ifI, rule idle, rule wp_anyT, rule wp_anyT, rule wp_anyT, rule wp_any,
        rule wp_anyT, rule tail)
qed

text \<open>A run of its own that throws has recorded its failure on the row.\<close>

lemma asRun_error:
  assumes "wp (asRun wid False body) Q (\<lambda>_ _. True) w"
  shows "wp (asRun wid False body) Q (\<lambda>e. rowIs wid (failedRow e)) w"
  using assms unfolding asRun_def wp_catch
  by (intro wp_asRun [unfolded asRun_def wp_catch]) (rule wp_mono, auto)

section \<open>A rebuild that fails\<close>

definition holdsFiles :: "workspace \<Rightarrow> string" where
  "holdsFiles r = nullish (previousSandboxName r) (sandboxName r)"

text \<open>The bump hands the files over by name: the old generation becomes \<open>previousSandboxName\<close>.\<close>

lemma safe_bump:
  assumes "name \<noteq> []"
  shows "keeps (stepBumpGeneration pf wid blob rel) (dataSafe wid name t0)"
proof (rule keepsI)
  fix w assume safe: "dataSafe wid name t0 w"
  then obtain r where r: "rowOf w wid = Some r" "deletedAt r = None" "name \<in> set (liveNames r)"
    by (auto simp: dataSafe_def namedBy_def)
  show "wp (stepBumpGeneration pf wid blob rel) (\<lambda>_. dataSafe wid name t0) (\<lambda>_. dataSafe wid name t0) w"
  proof (cases "previousSandboxName r")
    case None
    with r(3) have "sandboxName r = name" by (simp add: liveNames_def)
    moreover have "rowOf (w\<lparr>workspacesT := updateWhere (\<lambda>r. ws_id r = wid) (\<lambda>_. bumpRow n blob rel (now w) r)
        (workspacesT w)\<rparr>) wid = Some (bumpRow n blob rel (now w) r)" for n
      using rowOf_upd [of wid "\<lambda>_. bumpRow n blob rel (now w) r" w] r(1) rowOf_id [OF r(1)] by simp
    ultimately show ?thesis
      using None r safe assms
      by (simp add: stepBumpGeneration_def wp_simps Let_def dataSafe_def namedBy_def logs_def bumpRow_def
          setRelease_def liveNames_def)
  next
    case (Some p)
    then show ?thesis using r safe by (simp add: stepBumpGeneration_def wp_simps)
  qed
qed

lemma namedBy_upd':
  assumes "namedBy wid name w"
    and "\<And>r. ws_id (f r) = ws_id r \<and> deletedAt (f r) = deletedAt r \<and> liveNames (f r) = liveNames r"
  shows "namedBy wid name (w\<lparr>workspacesT := updateWhere (\<lambda>r. ws_id r = v) f (workspacesT w)\<rparr>)"
  using assms rowOf_upd_gen [where f = f and w = w and v = v and wid = wid] by (auto simp: namedBy_def)

lemma safe_finish: "keeps (stepFinishRun v oc) (dataSafe wid name t0)"
proof (rule keepsI)
  fix w assume safe: "dataSafe wid name t0 w"
  have "ws_id (finishRow oc (now w) r) = ws_id r \<and> deletedAt (finishRow oc (now w) r) = deletedAt r
      \<and> liveNames (finishRow oc (now w) r) = liveNames r" for r
    by (auto simp: finishRow_def liveNames_def split: runOutcome.splits)
  from namedBy_upd' [OF _ this, of wid name w v] safe
  show "wp (stepFinishRun v oc) (\<lambda>_. dataSafe wid name t0) (\<lambda>_. dataSafe wid name t0) w"
    by (simp add: stepFinishRun_def wp_simps dataSafe_def logs_def)
qed

lemma safe_resumeBump:
  assumes "handlesNamed pf" and "sandboxName ws \<noteq> name"
  shows "keeps (resumeBump pf ws rel prev) (dataSafe wid name t0)"
  unfolding resumeBump_def
  by (intro keeps_shape safeFrame.keeps_stepSetState safeFrame.keeps_stepSetRelease
      safeFrame.keeps_stepDeleteSandbox assms(1))
    (use assms(2) in \<open>auto simp: sparing_def noPatch_def\<close>)

lemma safe_archiveAndBump:
  assumes "name \<noteq> []"
  shows "keeps (archiveAndBump pf ws rel) (dataSafe (ws_id ws) name t0)"
  unfolding archiveAndBump_def
  by (intro keeps_shape safeFrame.keeps_stopChild safeFrame.keeps_stepSetState
      safeFrame.keeps_stepResumeSandboxQuiet safeFrame.keeps_archive safeFrame.keeps_stepStopSandboxDiscard
      safeFrame.keeps_stepRecordSessionEnd safe_bump assms) (simp add: noPatch_def)

lemma wp_quietly: "wp (quietly m) (\<lambda>_ _. True) (\<lambda>_ _. False) w"
  by (simp add: quietly_def act_defs wp_def split: prod.split sum.split)

lemma wp_thenTotal: "(\<And>v. wp m (\<lambda>_ _. True) (\<lambda>_ _. False) v) \<Longrightarrow> (\<And>v. wp k Q E v) \<Longrightarrow> wp (thenE m k) Q E w"
  unfolding wp_then by (rule wp_mono, assumption) auto

lemma wp_deleteSandbox_total: "wp (stepDeleteSandbox pf name b) (\<lambda>_ _. True) (\<lambda>_ _. False) w"
proof -
  have snaps: "wp (bindE (catchE (extE pf ev f) (\<lambda>_. retE [])) (\<lambda>ids. forE ids (\<lambda>i. quietly (g i))))
      (\<lambda>_ _. True) (\<lambda>_ _. False) v" for ev :: "err + string list \<Rightarrow> event" and f and g :: "string \<Rightarrow> unit io" and v
    by (simp add: wp_simps Let_def split: sum.split)
      (auto intro!: wp_forE_inv [where I = "\<lambda>_. True"] wp_quietly)
  show ?thesis
    unfolding stepDeleteSandbox_def wp_bind wp_getOrNull Let_def
    by (auto split: option.split intro!: wp_thenTotal wp_quietly simp: wp_ret wp_when snaps)
qed

lemma wp_updWs_total: "wp (updWs wid f) (\<lambda>_ _. True) (\<lambda>_ _. False) w"
  by (simp add: wp_updWs)

lemma wp_retireOld:
  "wp (retireOld pf wid prev blob)
     (\<lambda>_. rowIs wid (\<lambda>r. runningRow False r \<and> previousSandboxName r = None \<and> restoreBlobPathname r = None))
     (\<lambda>_ _. False) w"
proof -
  let ?open = "\<lambda>r. ws_state r = Running \<and> stateReason r = None \<and> previousSandboxName r = None
     \<and> restoreBlobPathname r = None"
  have set: "wp (stepSetState wid Running (Some None)
        (noPatch\<lparr>p_previousSandboxName := Some None, p_restoreBlobPathname := Some None\<rparr>))
      (\<lambda>_. rowIs wid ?open) (\<lambda>_ _. False) v" for v
    unfolding stepSetState_def by (rule wp_upd_rowIs) (simp add: applyPatch_def noPatch_def)
  have blob: "wp (stepDeleteBlob pf blob) (\<lambda>_. rowIs wid ?open) (\<lambda>_ _. False) v" if "rowIs wid ?open v" for v
    using that by (simp add: stepDeleteBlob_def quietly_def wp_simps Let_def rowIs_def split: sum.split)
  have fin: "wp (stepFinishRun wid RunOk)
      (\<lambda>_. rowIs wid (\<lambda>r. runningRow False r \<and> previousSandboxName r = None \<and> restoreBlobPathname r = None))
      (\<lambda>_ _. False) v" if "rowIs wid ?open v" for v
    unfolding stepFinishRun_def
    by (rule wp_upd_rowIs' [OF that]) (simp_all add: finishRow_def runningRow_def)
  show ?thesis
    unfolding retireOld_def
    by (rule wp_thenTotal [OF wp_deleteSandbox_total], unfold wp_then, rule wp_mono [OF set])
      (auto intro!: wp_mono [OF blob] fin)
qed

text \<open>
  Crash safety. If a rebuild throws, anywhere, then the generation that holds the files has
  not been deleted, its snapshots have not even been listed and no archive was deleted; the
  row still names it, so the next rebuild finds it and the orphan scan spares it.
\<close>

lemma rebuild_safe:
  assumes named: "handlesNamed pf" and row: "rowOf w wid = Some r" "deletedAt r = None"
    and names: "sandboxName r \<noteq> []" "previousSandboxName r \<noteq> Some []"
      "previousSandboxName r \<noteq> Some (sandboxName r)"
  shows "wp (rebuildWorkspace pf wid user upgrade)
     (\<lambda>_. rowIs wid (\<lambda>r'. endedRow r' \<and> previousSandboxName r' = None))
     (\<lambda>e w'. dataSafe wid (holdsFiles r) (trace w) w' \<and> rowIs wid (failedRow e) w') w"
proof -
  let ?safe = "dataSafe wid (holdsFiles r) (trace w)"
  let ?done = "rowIs wid (\<lambda>r'. endedRow r' \<and> previousSandboxName r' = None)"
  let ?get = "\<lambda>rel. case previousSandboxName r of Some p \<Rightarrow> resumeBump pf r rel p | None \<Rightarrow> archiveAndBump pf r rel"
  have wid: "ws_id r = wid" using rowOf_id [OF row(1)] .
  have live: "holdsFiles r \<in> set (liveNames r)" "holdsFiles r \<noteq> []"
    using names by (auto simp: holdsFiles_def liveNames_def split: option.splits)
      (cases "previousSandboxName r"; simp)+
  have safe0: "?safe w"
    using row live by (auto simp: dataSafe_def namedBy_def logs_refl)
  have get: "keeps (?get rel) ?safe" for rel
  proof (cases "previousSandboxName r")
    case None
    with safe_archiveAndBump [OF live(2), of pf r] show ?thesis by (simp add: wid)
  next
    case (Some p)
    then have "sandboxName r \<noteq> holdsFiles r" using names(3) by (auto simp: holdsFiles_def)
    with Some safe_resumeBump [OF named] show ?thesis by simp
  qed
  have tail: "wp (case x of (prev, blob) \<Rightarrow> thenE (createChild pf wid user) (retireOld pf wid prev blob))
      (\<lambda>_. ?done) (\<lambda>_. ?safe) v" if "?safe v" for x v
  proof -
    obtain prev blob where x: "x = (prev, blob)" by (cases x)
    show ?thesis
      unfolding x prod.case wp_then
      by (rule wp_mono [OF keepsD [OF safeFrame.keeps_createChild that]])
        (auto intro!: wp_mono [OF wp_retireOld] simp: rowIs_def runningRow_def endedRow_def)
  qed
  have noop: "wp (stepFinishRun wid RunOk) (\<lambda>_. ?done) (\<lambda>_. ?safe) w" if "\<not> truthy (previousSandboxName r)"
  proof -
    have "previousSandboxName r = None" using that names(2) by (cases "previousSandboxName r") auto
    then have "rowIs wid (\<lambda>r'. previousSandboxName r' = None) w" using row by (simp add: rowIs_def)
    then show ?thesis
      unfolding stepFinishRun_def by (rule wp_upd_rowIs') (simp_all add: finishRow_def endedRow_def)
  qed
  have work: "wp (if upgrade \<noteq> None \<and> sameRelease (releaseOf r) rel \<and> \<not> truthy (previousSandboxName r)
      then stepFinishRun wid RunOk
      else bindE (?get rel) (\<lambda>(prev, blob). thenE (createChild pf wid user) (retireOld pf wid prev blob)))
      (\<lambda>_. ?done) (\<lambda>_. ?safe) w" for rel
    by (rule wp_ifI) (auto intro: noop wp_mono [OF keepsD [OF get safe0]] tail simp: wp_bind)
  have body: "wp (bindE (stepLoadWorkspace wid) (\<lambda>ws.
      bindE (case upgrade of Some r \<Rightarrow> retE r | None \<Rightarrow> stepCurrentRelease pf) (\<lambda>release.
      if upgrade \<noteq> None \<and> sameRelease (releaseOf ws) release \<and> \<not> truthy (previousSandboxName ws)
      then stepFinishRun (ws_id ws) RunOk
      else bindE (case previousSandboxName ws of
            Some previous \<Rightarrow> resumeBump pf ws release previous
          | None \<Rightarrow> archiveAndBump pf ws release) (\<lambda>(previous, blob).
        thenE (createChild pf (ws_id ws) user) (retireOld pf (ws_id ws) previous blob)))))
      (\<lambda>_. ?done) (\<lambda>_. ?safe) w"
    unfolding wp_bind [where m = "stepLoadWorkspace wid"] wp_stepLoad row(1) option.case if_P [OF row(2)] wid
    by (cases upgrade)
      (use work safe0 in \<open>auto simp: wp_bind wp_ret stepCurrentRelease_def wp_throw split: sum.split\<close>)
  show ?thesis
    unfolding rebuildWorkspace_def asRun_def wp_catch
  proof (rule wp_mono [OF body])
    fix e u assume safe: "?safe u"
    have "wp (stepFinishRun wid (RunError (errString e) None))
        (\<lambda>_ w'. ?safe w' \<and> rowIs wid (failedRow e) w') (\<lambda>e w'. ?safe w' \<and> False) u"
      by (rule wp_conj [OF keepsD [OF safe_finish safe] wp_finish_error])
    then show "wp (thenE (whenE (\<not> False) (stepFinishRun wid (RunError (errString e) None))) (throwE e))
        (\<lambda>_. ?done) (\<lambda>e w'. ?safe w' \<and> rowIs wid (failedRow e) w') u"
      unfolding wp_then wp_when by simp (erule wp_mono; simp add: wp_throw)
  qed simp
qed

end
