(* ===== verification/ConnectRoute.thy ===== *)
theory ConnectRoute
  imports Access Tokens WorkflowResults
begin

text \<open>
  \<open>POST /api/workspaces/{id}/connect\<close> (\<open>app/api/workspaces/[id]/connect/route.ts\<close>), the one
  route that mints an RPC token, with \<open>mintConnectInfo\<close> of \<open>lib/connect.ts\<close>. Other requests
  and the started run change the world while the route sleeps: that interference is the
  parameter \<open>env\<close>, any function of the world.
\<close>

datatype connectReason = OpenReason | ReconnectReason | ResumeReason

record connectInput =
  cn_clientBuild :: "string option"
  cn_reason :: connectReason
  cn_tabId :: string

record 'tok connectInfo =
  ct_wsUrl :: string
  ct_token :: 'tok
  ct_sessionId :: string
  ct_workspaceId :: string
  ct_serverBuild :: string
  ct_clientBuild :: string
  ct_sessionExpiresAt :: int
  ct_sessionCapAt :: int
  ct_audience :: string

definition BUSY_STATES :: "workspaceState list" where
  "BUSY_STATES = [Creating, Stopping, Rebuilding, Deleting]"

definition RESUME_WAIT_MS :: int where "RESUME_WAIT_MS = 45000"
definition RESUME_POLL_MS :: int where "RESUME_POLL_MS = 1500"

section \<open>Minting\<close>

definition sandboxWsScheme :: "env \<Rightarrow> string" where
  "sandboxWsScheme e = (if ZS_SANDBOX_BACKEND e = Vercel then ''wss'' else ''ws'')"

definition participantId :: "platform \<Rightarrow> session \<Rightarrow> string" where
  "participantId pf s = ''p_'' @ take 32 (pf_sha256 pf (s_userId s @ ''/'' @ holderTabId s))"

definition mintConnectInfo ::
  "platform \<Rightarrow> 'tok jose \<Rightarrow> signingKeys \<Rightarrow> workspace \<Rightarrow> session \<Rightarrow> 'tok connectInfo io" where
  "mintConnectInfo pf jz keys ws s =
     (if \<not> truthy (currentWsHost ws) then throwE (ApiError 500 ''sandbox_unhealthy'')
      else bindE (randomBytes pf) (\<lambda>idBytes. bindE (randomBytes pf) (\<lambda>jtiBytes. bindE (getE now) (\<lambda>t.
        let sessionId = newConnectId idBytes;
            minted = mintSessionToken jz keys jtiBytes t \<lparr>mi_userId = s_userId s,
              mi_workspaceId = ws_id ws, mi_sessionId = sessionId,
              mi_participantId = Some (participantId pf s), mi_audience = audience ws,
              mi_ttlSeconds = None\<rparr> in
        thenE (modE (\<lambda>w. w\<lparr>sessionsT := updateWhere (\<lambda>r. s_id r = s_id s)
            (\<lambda>r. r\<lparr>tokensMinted := tokensMinted s + 1, lastConnectId := Some sessionId\<rparr>) (sessionsT w)\<rparr>))
        (retE \<lparr>ct_wsUrl = sandboxWsScheme (pf_env pf) @ ''://'' @ nullish (currentWsHost ws) [] @ ''/rpc'',
           ct_token = mt_token minted, ct_sessionId = sessionId, ct_workspaceId = ws_id ws,
           ct_serverBuild = serverBuild ws, ct_clientBuild = clientBuild ws,
           ct_sessionExpiresAt = mt_expiresAt minted,
           ct_sessionCapAt = nullish (sessionStartedAt ws) (startedAt s) + ZS_SESSION_CAP_MS (pf_env pf),
           ct_audience = audience ws\<rparr>)))))"

section \<open>The route\<close>

datatype 'tok connectAnswer = Connected "'tok connectInfo" | Resuming string | Upgrading string

definition unhealthy :: err where
  "unhealthy = ApiError 500 ''sandbox_unhealthy''"

definition assertOwnerNotFlagged :: "workspace \<Rightarrow> unit io" where
  "assertOwnerNotFlagged ws =
     bindE (getE (\<lambda>w. selectOne (\<lambda>u. u_id u = ownerUserId ws) (usersT w))) (\<lambda>owner.
     whenE (case owner of None \<Rightarrow> False | Some u \<Rightarrow> u_flaggedAt u \<noteq> None)
       (throwE (ApiError 403 ''account_flagged'')))"

definition isUp :: "workspace option \<Rightarrow> bool" where
  "isUp current = (case current of None \<Rightarrow> False
     | Some r \<Rightarrow> ws_state r = Running \<and> \<not> truthy (workflowRunId r))"

text \<open>One poll of \<open>resume\<close>; \<open>env\<close> acts while the route sleeps.\<close>

definition resumeRound :: "(world \<Rightarrow> world) \<Rightarrow> string \<Rightarrow> int \<Rightarrow> workspace option option io" where
  "resumeRound env wid deadline =
     bindE (reloadWorkspace wid) (\<lambda>current.
     if isUp current then retE (Some current)
     else bindE (getE now) (\<lambda>t. if t \<ge> deadline then retE (Some None)
       else thenE (modE (\<lambda>w. (env w)\<lparr>now := now w + RESUME_POLL_MS\<rparr>)) (retE None)))"

definition resume ::
  "platform \<Rightarrow> (world \<Rightarrow> world) \<Rightarrow> workspace \<Rightarrow> string \<Rightarrow> (string \<times> workspace option) io" where
  "resume pf env ws userId =
     bindE (startLifecycle pf (ws_id ws) (ConnectWorkspaceRun (ws_id ws) userId False)) (\<lambda>runId.
     bindE (getE now) (\<lambda>t0.
     bindE (loopE (loopFuel RESUME_WAIT_MS RESUME_POLL_MS)
              (resumeRound env (ws_id ws) (t0 + RESUME_WAIT_MS))) (\<lambda>row.
     retE (runId, row))))"

definition connectRunning ::
  "platform \<Rightarrow> 'tok jose \<Rightarrow> signingKeys \<Rightarrow> workspace \<Rightarrow> healthProbe option \<Rightarrow> string \<Rightarrow> string
   \<Rightarrow> string option \<Rightarrow> 'tok connectInfo io" where
  "connectRunning pf jz keys ws probe userId tabId build =
     (if \<not> truthy (currentWsHost ws) \<or> \<not> probeReady probe then throwE unhealthy
      else bindE (openOrReuseSession pf ws \<lparr>oi_userId = userId, oi_tabId = tabId,
          oi_host = nullish (currentWsHost ws) [], oi_clientBuild = build,
          oi_serverBuild = Some (case probe of Some h \<Rightarrow> nullish (hp_build h) (serverBuild ws)
             | None \<Rightarrow> serverBuild ws)\<rparr>) (\<lambda>s.
        mintConnectInfo pf jz keys ws s))"

text \<open>Lines 66-80: the blocking upgrade of an explicit open; \<open>Some\<close> is the answer.\<close>

definition upgradeOnOpen ::
  "platform \<Rightarrow> viewer \<Rightarrow> workspace \<Rightarrow> connectInput \<Rightarrow> string option io" where
  "upgradeOnOpen pf v ws input =
     (if cn_reason input \<noteq> ReconnectReason
         \<and> (\<not> canDeferUpgrade (pf_env pf) (clientBuild ws) \<or> truthy (previousSandboxName ws))
      then bindE (ofSum (currentRelease (pf_env pf))) (\<lambda>release.
        if truthy (cn_clientBuild input)
           \<and> \<not> buildsCompatible (cn_clientBuild input) (Some (er_clientBuild release))
        then throwE (ApiError 409 ''client_build_mismatch'')
        else if \<not> sameRelease (releaseOf ws) release \<or> truthy (previousSandboxName ws)
        then thenE (assertOwnerNotFlagged ws)
          (bindE (startLifecycle pf (ws_id ws)
              (RebuildWorkspaceRun (ws_id ws) (v_userId v) (Some release))) (\<lambda>runId. retE (Some runId)))
        else retE None)
      else retE None)"

definition liveness ::
  "platform \<Rightarrow> workspace \<Rightarrow> (workspace \<times> healthProbe option) io" where
  "liveness pf ws =
     (if ws_state ws = Running
      then bindE (detectDeadSandbox pf ws) (\<lambda>l. case l of
          Alive p \<Rightarrow> retE (ws, Some p)
        | Unhealthy p \<Rightarrow> throwE unhealthy
        | Dead reason \<Rightarrow> bindE (markWorkspaceLost ws reason) (\<lambda>r. retE (r, None)))
      else retE (ws, None))"

definition connectPost ::
  "platform \<Rightarrow> 'tok jose \<Rightarrow> signingKeys \<Rightarrow> (world \<Rightarrow> world) \<Rightarrow> string option \<Rightarrow> string \<Rightarrow> connectInput
   \<Rightarrow> 'tok connectAnswer io" where
  "connectPost pf jz keys env sessionUser i input =
     bindE (requireWorkspaceParam sessionUser i None True) (\<lambda>(v, ws).
     thenE (limit LimUserConnect (v_userId v))
     (bindE (isRunActive pf (workflowRunId ws)) (\<lambda>active.
      if active then throwE (ApiError 423 ''workspace_busy'')
      else if ws_state ws \<in> set BUSY_STATES then throwE (ApiError 423 ''workspace_busy'')
      else bindE (upgradeOnOpen pf v ws input) (\<lambda>upgrading. case upgrading of
        Some runId \<Rightarrow> retE (Upgrading runId)
      | None \<Rightarrow>
        if truthy (cn_clientBuild input) \<and> \<not> buildsCompatible (cn_clientBuild input) (Some (clientBuild ws))
        then throwE (ApiError 409 ''client_build_mismatch'')
        else bindE (liveness pf ws) (\<lambda>(live, probe).
          if ws_state live \<noteq> Running
          then (if cn_reason input = ReconnectReason then throwE (ApiError 409 ''workspace_stopped'')
            else thenE (assertOwnerNotFlagged live)
              (bindE (resume pf env live (v_userId v)) (\<lambda>(runId, got). case got of
                 None \<Rightarrow> retE (Resuming runId)
               | Some up \<Rightarrow> bindE (detectDeadSandbox pf up) (\<lambda>l. case l of
                    Unhealthy p \<Rightarrow> throwE unhealthy
                  | Dead reason \<Rightarrow> throwE unhealthy
                  | Alive p \<Rightarrow> bindE (connectRunning pf jz keys up (Some p) (v_userId v) (cn_tabId input)
                        (cn_clientBuild input)) (\<lambda>info. retE (Connected info))))))
          else bindE (connectRunning pf jz keys live probe (v_userId v) (cn_tabId input)
                 (cn_clientBuild input)) (\<lambda>info. retE (Connected info)))))))"

section \<open>A reconnecting tab wakes nothing\<close>

definition wakesNothing :: "event \<Rightarrow> bool" where
  "wakesNothing e \<longleftrightarrow> (\<forall>i r. e \<noteq> EvStartRun i r) \<and> (\<forall>n. e \<noteq> EvGet n True)"

lemma logs_mod: "(\<And>w. trace (f w) = trace w) \<Longrightarrow> keeps (modE f) (logs P past)"
  by (rule keeps_mod) (simp add: logs_def)

lemma logs_ext: "(\<And>x. P (ev x)) \<Longrightarrow> keeps (ext pf ev f) (logs P past)"
  by (rule keepsI) (simp add: wp_simps logs_snoc)

lemma logs_draw: "keeps (randomBytes pf) (logs P past)" "keeps (randomUUID pf) (logs P past)"
  "keeps (sleepMs d) (logs P past)" "keeps (kvGetE k) (logs P past)"
  by (simp_all add: keeps_def wp_simps logs_def)

lemmas logs_rules = keeps_shape logs_mod logs_ext logs_draw

lemma logs_limit: "keeps (limit name subject) (logs P past)"
  unfolding limit_def by (intro logs_rules) simp

lemma logs_requireWorkspaceParam: "keeps (requireWorkspaceParam u i ss c) (logs P past)"
  unfolding requireWorkspaceParam_def assertWorkspaceId_def requireViewer_def getViewer_def
    assertNotFlagged_def requireWorkspaceAccess_def
  by (intro logs_rules)

lemma logs_isRunActive: "(\<And>i s. P (EvRunStatus i s)) \<Longrightarrow> keeps (isRunActive pf i) (logs P past)"
  unfolding isRunActive_def runStatusOf_def by (intro logs_rules)

lemma logs_probeLoop: "(\<And>h p. P (EvProbe h p)) \<Longrightarrow> keeps (probeLoop pf host n first a b) (logs P past)"
  by (induction n arbitrary: first a b) (auto simp: probeHealth_def intro!: logs_rules)

lemma logs_detect:
  assumes "\<And>h p. P (EvProbe h p)" and "\<And>n. P (EvGet n False)"
  shows "keeps (detectDeadSandbox pf ws) (logs P past)"
proof -
  have alive: "keeps (case (x, p, a) of (True, Some p, _) \<Rightarrow> retE (Alive p)
      | (_, _, Some a) \<Rightarrow> retE (Unhealthy a) | _ \<Rightarrow> retE (Dead d)) (logs P past)" for x p a d
    by (auto split: bool.split option.split)
  show ?thesis
    unfolding detectDeadSandbox_def apiGet_def extE_def
    by (intro logs_rules logs_probeLoop assms alive)
qed

lemma logs_markLost: "keeps (markWorkspaceLost ws reason) (logs P past)"
  unfolding markWorkspaceLost_def closeOpenSession_def reloadWorkspace_def
  by (intro logs_rules) simp_all

lemma logs_session: "keeps (openOrReuseSession pf ws input) (logs P past)"
  unfolding openOrReuseSession_def arbitrateSession_def insertSession_def
  by (intro logs_rules) simp_all

lemma logs_mint: "keeps (mintConnectInfo pf jz keys ws s) (logs P past)"
  unfolding mintConnectInfo_def by (intro logs_rules) simp

lemma logs_connectRunning: "keeps (connectRunning pf jz keys ws p u t b) (logs P past)"
  unfolding connectRunning_def by (intro logs_rules logs_session logs_mint)

lemma connect_reconnect_quiet:
  assumes "cn_reason input = ReconnectReason"
  shows "keeps (connectPost pf jz keys env sessionUser i input) (logs wakesNothing past)"
proof -
  have quiet: "wakesNothing (EvProbe h p)" "wakesNothing (EvGet n False)" "wakesNothing (EvRunStatus r s)"
    for h p n r s by (simp_all add: wakesNothing_def)
  have live: "keeps (liveness pf ws) (logs wakesNothing past)" for ws
  proof -
    have "keeps (case l of Alive p \<Rightarrow> retE (ws, Some p) | Unhealthy p \<Rightarrow> throwE unhealthy
        | Dead reason \<Rightarrow> bindE (markWorkspaceLost ws reason) (\<lambda>r. retE (r, None))) (logs wakesNothing past)" for l
      by (cases l) (auto intro: logs_markLost)
    then show ?thesis
      unfolding liveness_def by (intro logs_rules logs_detect quiet)
  qed
  have "upgradeOnOpen pf v ws input = retE None" for v ws
    by (simp add: upgradeOnOpen_def assms)
  then show ?thesis
    unfolding connectPost_def
    by (intro logs_rules logs_requireWorkspaceParam logs_limit logs_isRunActive live
        logs_connectRunning quiet) (simp_all add: assms keeps_ret)
qed

section \<open>The token that comes back\<close>

text \<open>What a \<open>ConnectInfo\<close> promises: its token opens exactly the workspace and session it names.\<close>

definition infoOk :: "'tok jose \<Rightarrow> signingKeys \<Rightarrow> int \<Rightarrow> string \<Rightarrow> 'tok connectInfo \<Rightarrow> bool" where
  "infoOk jz keys t userId info \<longleftrightarrow>
     (\<exists>c. verifySessionToken jz keys t (ct_audience info) (ct_workspaceId info) (ct_token info) = Inr c
        \<and> sc_ws c = ct_workspaceId info \<and> sc_sid c = ct_sessionId info \<and> sc_aud c = ct_audience info
        \<and> sc_sub c = userId \<and> sc_exp c * 1000 = ct_sessionExpiresAt info)"

lemma wp_mintConnectInfo:
  assumes "jwt_library jz publicOf" and "jwt_library.matching publicOf keys"
  shows "wp (mintConnectInfo pf jz keys ws s)
     (\<lambda>info w'. infoOk jz keys (now w') (s_userId s) info \<and> ct_workspaceId info = ws_id ws) (\<lambda>_ _. True) w"
proof -
  have "infoOk jz keys (now w) (s_userId s)
      \<lparr>ct_wsUrl = u, ct_token = mt_token (mintSessionToken jz keys b (now w) input), ct_sessionId = mi_sessionId input,
       ct_workspaceId = mi_workspaceId input, ct_serverBuild = sb, ct_clientBuild = cb,
       ct_sessionExpiresAt = mt_expiresAt (mintSessionToken jz keys b (now w) input), ct_sessionCapAt = cap,
       ct_audience = mi_audience input\<rparr>"
    if "mi_userId input = s_userId s" for u b input sb cb cap
    using jwt_library.verify_minted [OF assms, of "now w" "now w" input b] that
      sessionTtl_bounds [of "mi_ttlSeconds input"]
    by (auto simp: infoOk_def CLOCK_TOLERANCE_def)
  note ok = this [where input = "\<lparr>mi_userId = s_userId s, mi_workspaceId = ws_id ws, mi_sessionId = i,
      mi_participantId = p, mi_audience = a, mi_ttlSeconds = None\<rparr>" for i p a, simplified]
  show ?thesis
    by (simp add: mintConnectInfo_def wp_simps Let_def ok)
qed

lemma wp_connectRunning:
  assumes "jwt_library jz publicOf" and "jwt_library.matching publicOf keys"
  shows "wp (connectRunning pf jz keys ws p u t b)
     (\<lambda>info w'. probeReady p \<and> ct_workspaceId info = ws_id ws \<and> (\<exists>user. infoOk jz keys (now w') user info)) (\<lambda>_ _. True) w"
  unfolding connectRunning_def
  by (rule wp_ifI, simp add: wp_throw, rule wp_any)
    (rule wp_mono [OF wp_mintConnectInfo [OF assms]], auto)

lemma wp_markLost: "wp (markWorkspaceLost ws reason) (\<lambda>r _. ws_id r = ws_id ws) (\<lambda>_ _. False) w"
proof -
  have "ws_id (case rowOf v (ws_id ws) of Some r \<Rightarrow> r | None \<Rightarrow> ws\<lparr>ws_state := Stopped\<rparr>) = ws_id ws" for v
    using rowOf_id by (auto split: option.split)
  then show ?thesis by (simp add: markWorkspaceLost_def closeOpenSession_def wp_simps)
qed

lemma wp_liveness_then:
  assumes "\<And>l p v. ws_id l = ws_id ws \<Longrightarrow> wp (k (l, p)) Q (\<lambda>_ _. True) v"
  shows "wp (bindE (liveness pf ws) k) Q (\<lambda>_ _. True) w"
proof -
  have "wp (case l of Alive p \<Rightarrow> retE (ws, Some p) | Unhealthy p \<Rightarrow> throwE unhealthy
      | Dead reason \<Rightarrow> bindE (markWorkspaceLost ws reason) (\<lambda>r. retE (r, None)))
      (\<lambda>a. wp (k a) Q (\<lambda>_ _. True)) (\<lambda>_ _. True) v" for l v
    using assms by (cases l) (auto simp: wp_simps wp_ret' intro: wp_mono [OF wp_markLost])
  then have "wp (liveness pf ws) (\<lambda>a. wp (k a) Q (\<lambda>_ _. True)) (\<lambda>_ _. True) w"
    unfolding liveness_def using assms by (auto intro!: wp_ifI wp_any simp: wp_ret)
  then show ?thesis by (simp add: wp_bind)
qed

lemma wp_loop_result:
  assumes "\<And>v. wp body (\<lambda>r _. \<forall>x. r = Some x \<longrightarrow> Q x) (\<lambda>_ _. True) v"
  shows "wp (loopE n body) (\<lambda>x _. Q x) (\<lambda>_ _. True) w"
proof (induction n arbitrary: w)
  case (Suc n)
  show ?case
    unfolding roundsE.simps wp_bind
    by (rule wp_mono [OF assms]) (auto simp: wp_ret Suc split: option.split)
qed (simp add: wp_throw)

lemma wp_resume_then:
  assumes "\<And>runId got v. (\<forall>up. got = Some up \<longrightarrow> ws_id up = ws_id ws) \<Longrightarrow> wp (k (runId, got)) Q (\<lambda>_ _. True) v"
  shows "wp (bindE (resume pf env ws userId) k) Q (\<lambda>_ _. True) w"
proof -
  have round: "wp (resumeRound env (ws_id ws) deadline)
      (\<lambda>r _. \<forall>x. r = Some x \<longrightarrow> (\<forall>up. x = Some up \<longrightarrow> ws_id up = ws_id ws)) (\<lambda>_ _. True) v" for v deadline
    using rowOf_id by (auto simp: resumeRound_def wp_simps)
  have "wp (resume pf env ws userId) (\<lambda>a. wp (k a) Q (\<lambda>_ _. True)) (\<lambda>_ _. True) w"
    unfolding resume_def
  proof (rule wp_any, rule wp_any)
    fix runId t0 v
    show "wp (bindE (loopE (loopFuel RESUME_WAIT_MS RESUME_POLL_MS) (resumeRound env (ws_id ws) (t0 + RESUME_WAIT_MS)))
        (\<lambda>row. retE (runId, row))) (\<lambda>a. wp (k a) Q (\<lambda>_ _. True)) (\<lambda>_ _. True) v"
      unfolding wp_bind by (rule wp_mono [OF wp_loop_result [OF round]], unfold wp_ret, rule assms, assumption, rule TrueI)
  qed
  then show ?thesis by (simp add: wp_bind)
qed

text \<open>
  The only answers that carry a token come after a probe that was ready, for the workspace of
  the request.
\<close>

lemma wp_connectPost:
  assumes "jwt_library jz publicOf" and "jwt_library.matching publicOf keys"
  shows "wp (connectPost pf jz keys env sessionUser i input)
     (\<lambda>ans w'. \<forall>info. ans = Connected info \<longrightarrow> ct_workspaceId info = i \<and> (\<exists>user. infoOk jz keys (now w') user info))
     (\<lambda>_ _. True) w"
proof -
  let ?Q = "\<lambda>ans w'. \<forall>info. ans = Connected info \<longrightarrow> ct_workspaceId info = i \<and> (\<exists>user. infoOk jz keys (now w') user info)"
  have conn: "wp (bindE (connectRunning pf jz keys ws p u t b) (\<lambda>info. retE (Connected info))) ?Q (\<lambda>_ _. True) v"
    if "ws_id ws = i" for ws p u t b v
    unfolding wp_bind by (rule wp_mono [OF wp_connectRunning [OF assms]]) (use that in \<open>auto simp: wp_ret\<close>)
  have alive: "wp (case l of Unhealthy p \<Rightarrow> throwE unhealthy | Dead reason \<Rightarrow> throwE unhealthy
      | Alive p \<Rightarrow> bindE (connectRunning pf jz keys ws (Some p) u t b) (\<lambda>info. retE (Connected info)))
      ?Q (\<lambda>_ _. True) v" if "ws_id ws = i" for l ws u t b v
    using that by (cases l) (simp_all add: wp_throw conn)
  have woken: "wp (case got of None \<Rightarrow> retE (Resuming runId)
      | Some up \<Rightarrow> bindE (detectDeadSandbox pf up) (\<lambda>l. case l of Unhealthy p \<Rightarrow> throwE unhealthy
        | Dead reason \<Rightarrow> throwE unhealthy
        | Alive p \<Rightarrow> bindE (connectRunning pf jz keys up (Some p) u t b) (\<lambda>info. retE (Connected info))))
      ?Q (\<lambda>_ _. True) v" if "\<forall>up. got = Some up \<longrightarrow> ws_id up = i" for got runId u t b v
  proof (cases got)
    case (Some up)
    then have up: "ws_id up = i" using that by simp
    show ?thesis unfolding Some option.case by (rule wp_any, rule alive [OF up])
  qed (simp add: wp_ret)
  have last: "wp (if ws_state live \<noteq> Running
        then (if cn_reason input = ReconnectReason then throwE e
          else thenE (assertOwnerNotFlagged live) (bindE (resume pf env live u) (\<lambda>(runId, got). case got of
               None \<Rightarrow> retE (Resuming runId)
             | Some up \<Rightarrow> bindE (detectDeadSandbox pf up) (\<lambda>l. case l of Unhealthy p \<Rightarrow> throwE unhealthy
                | Dead reason \<Rightarrow> throwE unhealthy
                | Alive p \<Rightarrow> bindE (connectRunning pf jz keys up (Some p) u t b) (\<lambda>info. retE (Connected info))))))
        else bindE (connectRunning pf jz keys live p u t b) (\<lambda>info. retE (Connected info))) ?Q (\<lambda>_ _. True) v"
    if "ws_id live = i" for live e u t b p v
  proof (intro wp_ifI)
    show "wp (thenE (assertOwnerNotFlagged live) (bindE (resume pf env live u) (\<lambda>(runId, got). case got of
               None \<Rightarrow> retE (Resuming runId)
             | Some up \<Rightarrow> bindE (detectDeadSandbox pf up) (\<lambda>l. case l of Unhealthy p \<Rightarrow> throwE unhealthy
                | Dead reason \<Rightarrow> throwE unhealthy
                | Alive p \<Rightarrow> bindE (connectRunning pf jz keys up (Some p) u t b) (\<lambda>info. retE (Connected info))))))
      ?Q (\<lambda>_ _. True) v"
      by (rule wp_anyT, rule wp_resume_then, unfold prod.case, rule woken) (simp add: that)
  qed (rule wp_throwTrue, rule conn [OF that])
  show ?thesis
    unfolding connectPost_def
  proof (rule wp_param_then, unfold prod.case, rule wp_anyT, rule wp_any, rule wp_ifI, rule wp_throwTrue,
      rule wp_ifI, rule wp_throwTrue, rule wp_any, rule wp_optionI, rule wp_ifI, rule wp_throwTrue,
      rule wp_liveness_then, unfold prod.case, rule last)
  qed (simp_all add: wp_ret)
qed

end
