(* ===== verification/Inputs.thy ===== *)
theory Inputs
  imports Api ConnectRoute Activity
begin

text \<open>
  The request bodies the routes accept: the zod schemas of \<open>lib/types.ts\<close>, \<open>lib/github-repo.ts\<close>
  and \<open>lib/workshop.ts\<close> as functions from a JSON document to the validated value, \<open>None\<close> where
  \<open>safeParse\<close> reports issues. Lengths are those of ASCII texts.
\<close>

section \<open>Schemas\<close>

definition zString :: "nat \<Rightarrow> nat \<Rightarrow> json \<Rightarrow> string option" where
  "zString lo hi j = (case j of JStr s \<Rightarrow> if lo \<le> length s \<and> length s \<le> hi then Some s else None | _ \<Rightarrow> None)"

definition zAnyString :: "json \<Rightarrow> string option" where
  "zAnyString j = (case j of JStr s \<Rightarrow> Some s | _ \<Rightarrow> None)"

definition zMatch :: "(string \<Rightarrow> bool) \<Rightarrow> json \<Rightarrow> string option" where
  "zMatch p j = (case j of JStr s \<Rightarrow> if p s then Some s else None | _ \<Rightarrow> None)"

definition zBool :: "json \<Rightarrow> bool option" where
  "zBool j = (case j of JBool b \<Rightarrow> Some b | _ \<Rightarrow> None)"

text \<open>\<open>z.number().int()\<close> takes safe integers only.\<close>

definition MAX_SAFE_INTEGER :: int where "MAX_SAFE_INTEGER = 9007199254740991"

definition zInt :: "json \<Rightarrow> int option" where
  "zInt j = (case j of JNum n \<Rightarrow> if \<bar>n\<bar> \<le> MAX_SAFE_INTEGER then Some n else None | _ \<Rightarrow> None)"

definition zIntIn :: "int \<Rightarrow> int \<Rightarrow> json \<Rightarrow> int option" where
  "zIntIn lo hi j = (case zInt j of Some n \<Rightarrow> if lo \<le> n \<and> n \<le> hi then Some n else None | None \<Rightarrow> None)"

definition zNumber :: "json \<Rightarrow> json option" where
  "zNumber j = (case j of JNum n \<Rightarrow> Some j | JDec m k \<Rightarrow> Some j | _ \<Rightarrow> None)"

definition zEnum :: "(string \<times> 'a) list \<Rightarrow> json \<Rightarrow> 'a option" where
  "zEnum table j = (case j of JStr s \<Rightarrow> map_of table s | _ \<Rightarrow> None)"

definition zNullable :: "(json \<Rightarrow> 'a option) \<Rightarrow> json \<Rightarrow> 'a option option" where
  "zNullable z j = (case j of JNull \<Rightarrow> Some None | _ \<Rightarrow> map_option Some (z j))"

fun zAll :: "(json \<Rightarrow> 'a option) \<Rightarrow> json list \<Rightarrow> 'a list option" where
  "zAll z [] = Some []"
| "zAll z (x # xs) = (case (z x, zAll z xs) of (Some y, Some ys) \<Rightarrow> Some (y # ys) | _ \<Rightarrow> None)"

definition zArray :: "nat \<Rightarrow> (json \<Rightarrow> 'a option) \<Rightarrow> json \<Rightarrow> 'a list option" where
  "zArray hi z j = (case j of JArr xs \<Rightarrow> if length xs \<le> hi then zAll z xs else None | _ \<Rightarrow> None)"

definition zRecord :: "(json \<Rightarrow> 'a option) \<Rightarrow> json \<Rightarrow> (string \<times> 'a) list option" where
  "zRecord z j = (case j of JObj kvs \<Rightarrow> (case zAll z (map snd kvs) of
     Some ys \<Rightarrow> Some (zip (map fst kvs) ys) | None \<Rightarrow> None) | _ \<Rightarrow> None)"

text \<open>A required key, an optional one, and the keys a \<open>strict\<close> object may have.\<close>

definition zKey :: "string \<Rightarrow> (json \<Rightarrow> 'a option) \<Rightarrow> json \<Rightarrow> 'a option" where
  "zKey k z j = (case jget (Some j) k of None \<Rightarrow> None | Some v \<Rightarrow> z v)"

definition zOpt :: "string \<Rightarrow> (json \<Rightarrow> 'a option) \<Rightarrow> json \<Rightarrow> 'a option option" where
  "zOpt k z j = (case jget (Some j) k of None \<Rightarrow> Some None | Some v \<Rightarrow> map_option Some (z v))"

definition isObject :: "json \<Rightarrow> bool" where
  "isObject j = (case j of JObj _ \<Rightarrow> True | _ \<Rightarrow> False)"

definition onlyKeys :: "string list \<Rightarrow> json \<Rightarrow> bool" where
  "onlyKeys ks j = (case j of JObj kvs \<Rightarrow> list_all (\<lambda>kv. fst kv \<in> set ks) kvs | _ \<Rightarrow> False)"

definition flat :: "'a option option \<Rightarrow> 'a option" where
  "flat x = (case x of Some (Some y) \<Rightarrow> Some y | _ \<Rightarrow> None)"

section \<open>Names\<close>

definition hasPart :: "string \<Rightarrow> string \<Rightarrow> bool" where
  "hasPart s p \<longleftrightarrow> list_ex (prefix p) (suffixes s)"

definition isLetter :: "char \<Rightarrow> bool" where
  "isLetter c \<longleftrightarrow> c \<in> set ''ABCDEFGHIJKLMNOPQRSTUVWXYZabcdefghijklmnopqrstuvwxyz''"

text \<open>\<open>/^[a-zA-Z0-9][a-zA-Z0-9-]{0,38}$/\<close> and \<open>/^[a-zA-Z0-9_.-]+$/\<close>.\<close>

definition githubOwner :: "string \<Rightarrow> bool" where
  "githubOwner s \<longleftrightarrow> s \<noteq> [] \<and> length s \<le> 39 \<and> (isLetter (hd s) \<or> isDigit (hd s))
     \<and> list_all (\<lambda>c. isLetter c \<or> isDigit c \<or> c = CHR ''-'') s"

definition githubName :: "string \<Rightarrow> bool" where
  "githubName s \<longleftrightarrow> s \<noteq> [] \<and> length s \<le> 100
     \<and> list_all (\<lambda>c. isLetter c \<or> isDigit c \<or> c = CHR ''_'' \<or> c = CHR ''.'' \<or> c = CHR ''-'') s
     \<and> s \<noteq> ''.'' \<and> s \<noteq> ''..''"

definition branchChar :: "char \<Rightarrow> bool" where
  "branchChar c \<longleftrightarrow> \<not> ((of_char c :: nat) \<le> 32 \<or> (of_char c :: nat) = 127 \<or> c \<in> set ''~^:?*['' \<or> c = CHR 0x5C)"

definition githubBranch :: "string \<Rightarrow> bool" where
  "githubBranch s \<longleftrightarrow> s \<noteq> [] \<and> length s \<le> 255 \<and> s \<noteq> ''HEAD'' \<and> \<not> prefix ''-'' s \<and> \<not> suffix ''.'' s
     \<and> \<not> hasPart s ''..'' \<and> \<not> hasPart s [CHR ''@'', CHR 0x7B] \<and> list_all branchChar s
     \<and> list_all (\<lambda>p. p \<noteq> [] \<and> \<not> prefix ''.'' p \<and> \<not> suffix ''.lock'' p) (splitOn CHR ''/'' s)"

section \<open>Enums\<close>

definition machineTypeSchema :: "json \<Rightarrow> machineType option" where
  "machineTypeSchema = zEnum [(''vcpu2'', Vcpu2), (''vcpu4'', Vcpu4), (''vcpu8'', Vcpu8), (''vcpu32'', Vcpu32)]"

definition regionSchema :: "json \<Rightarrow> region option" where
  "regionSchema = zEnum [(''iad1'', Iad1), (''sfo1'', Sfo1), (''cle1'', Cle1), (''cdg1'', Cdg1)]"

definition portVisibilitySchema :: "json \<Rightarrow> portVisibility option" where
  "portVisibilitySchema = zEnum [(''private'', Private), (''public'', Public)]"

definition userPortSchema :: "json \<Rightarrow> int option" where
  "userPortSchema = zIntIn 1 65535"

section \<open>Bodies of the user's routes\<close>

datatype repoInput = RepoById string | RepoNamed "int option" string string

datatype refInput = RefBranch string | RefPullRequest int | RefRevision string

text \<open>\<open>/^[0-9a-f]{7,40}$/\<close>.\<close>

definition revisionText :: "string \<Rightarrow> bool" where
  "revisionText s \<longleftrightarrow> 7 \<le> length s \<and> length s \<le> 40 \<and> list_all lowerHex s"

definition repoInputSchema :: "json \<Rightarrow> repoInput option" where
  "repoInputSchema j = (if \<not> isObject j then None
     else case zKey ''repoId'' zAnyString j of Some i \<Rightarrow> Some (RepoById i)
     | None \<Rightarrow> (case (zOpt ''installationId'' zInt j, zKey ''owner'' (zMatch githubOwner) j,
                     zKey ''name'' (zMatch githubName) j) of
         (Some inst, Some own, Some nm) \<Rightarrow> Some (RepoNamed inst own nm) | _ \<Rightarrow> None))"

definition refInputSchema :: "json \<Rightarrow> refInput option" where
  "refInputSchema j = (if \<not> isObject j then None
     else case zKey ''branch'' (zMatch githubBranch) j of Some b \<Rightarrow> Some (RefBranch b)
     | None \<Rightarrow> (case zKey ''pullRequest'' (zIntIn 1 MAX_SAFE_INTEGER) j of Some n \<Rightarrow> Some (RefPullRequest n)
     | None \<Rightarrow> (case zKey ''revision'' (zMatch revisionText) j of Some r \<Rightarrow> Some (RefRevision r)
     | None \<Rightarrow> None)))"

record createWorkspaceInput =
  cw_repo :: repoInput
  cw_ref :: "refInput option"
  cw_machine :: "machineType option"
  cw_region :: "region option"
  cw_idleMinutes :: "int option"
  cw_name :: "string option"

definition createWorkspaceSchema :: "json \<Rightarrow> createWorkspaceInput option" where
  "createWorkspaceSchema j = (case (zKey ''repo'' repoInputSchema j, zOpt ''ref'' refInputSchema j,
      zOpt ''machine'' machineTypeSchema j, zOpt ''region'' regionSchema j,
      zOpt ''idleMinutes'' (zIntIn 5 240) j, zOpt ''name'' (zString 1 64) j) of
      (Some rp, Some rf, Some m, Some rg, Some im, Some nm) \<Rightarrow>
        Some \<lparr>cw_repo = rp, cw_ref = rf, cw_machine = m, cw_region = rg, cw_idleMinutes = im, cw_name = nm\<rparr>
    | _ \<Rightarrow> None)"

record patchWorkspaceInput =
  pw_name :: "string option"
  pw_idleMinutes :: "int option"

definition patchWorkspaceSchema :: "json \<Rightarrow> patchWorkspaceInput option" where
  "patchWorkspaceSchema j = (if \<not> isObject j then None
     else case (zOpt ''name'' (zString 1 64) j, zOpt ''idleMinutes'' (zIntIn 5 240) j) of
      (Some nm, Some im) \<Rightarrow> Some \<lparr>pw_name = nm, pw_idleMinutes = im\<rparr> | _ \<Rightarrow> None)"

definition connectSchema :: "json \<Rightarrow> connectInput option" where
  "connectSchema j = (case (zOpt ''clientBuild'' zAnyString j,
      zOpt ''reason'' (zEnum [(''open'', OpenReason), (''reconnect'', ReconnectReason), (''resume'', ResumeReason)]) j,
      zKey ''tabId'' (zString 8 64) j) of
      (Some cb, Some rs, Some tab) \<Rightarrow>
        Some \<lparr>cn_clientBuild = cb, cn_reason = nullish rs OpenReason, cn_tabId = tab\<rparr>
    | _ \<Rightarrow> None)"

definition rebuildSchema :: "json \<Rightarrow> unit option" where
  "rebuildSchema j = (if isObject j then Some () else None)"

text \<open>The strict \<open>updateInput\<close> of the update route.\<close>

definition updateSchema :: "json \<Rightarrow> editorRelease option" where
  "updateSchema j = (if \<not> onlyKeys [''imageRef'', ''serverBuild'', ''clientBuild''] j then None
     else case (zKey ''imageRef'' zAnyString j, zKey ''serverBuild'' zAnyString j, zKey ''clientBuild'' zAnyString j) of
      (Some i, Some s, Some c) \<Rightarrow> Some \<lparr>er_imageRef = i, er_serverBuild = s, er_clientBuild = c\<rparr> | _ \<Rightarrow> None)"

definition createForwardSchema :: "json \<Rightarrow> createForwardRequest option" where
  "createForwardSchema j = (case (zKey ''port'' userPortSchema j, zKey ''visibility'' portVisibilitySchema j,
      zOpt ''label'' (zNullable (zString 0 64)) j) of
      (Some p, Some v, Some l) \<Rightarrow> Some \<lparr>cf_port = p, cf_visibility = v, cf_label = flat l\<rparr> | _ \<Rightarrow> None)"

record clientErrorInput =
  ce_build :: string
  ce_kind :: string
  ce_message :: string
  ce_stack :: "string option"
  ce_marks :: "(string \<times> json) list option"

definition errorReportSchema :: "string list \<Rightarrow> json \<Rightarrow> clientErrorInput option" where
  "errorReportSchema kinds j = (case (zKey ''build'' (zString 0 128) j, zKey ''kind'' (zMatch (\<lambda>k. k \<in> set kinds)) j,
      zKey ''message'' (zString 0 4096) j, zOpt ''stack'' (zString 0 65536) j, zOpt ''marks'' (zRecord zNumber) j) of
      (Some b, Some k, Some m, Some s, Some mk) \<Rightarrow>
        Some \<lparr>ce_build = b, ce_kind = k, ce_message = m, ce_stack = s, ce_marks = mk\<rparr>
    | _ \<Rightarrow> None)"

definition clientErrorSchema :: "json \<Rightarrow> clientErrorInput option" where
  "clientErrorSchema = errorReportSchema [''panic'', ''boot'', ''error'', ''perf'', ''close'']"

record putSettingsDocInput =
  ps_content :: string
  ps_version :: "int option"

definition putSettingsDocSchema :: "json \<Rightarrow> putSettingsDocInput option" where
  "putSettingsDocSchema j = (case (zKey ''content'' (zString 0 (512 * 1024)) j, zOpt ''version'' zInt j) of
      (Some c, Some v) \<Rightarrow> Some \<lparr>ps_content = c, ps_version = v\<rparr> | _ \<Rightarrow> None)"

text \<open>\<open>isUrl\<close> is what \<open>new URL\<close> accepts.\<close>

record dotfilesView =
  df_repoUrl :: "string option"
  df_installCommand :: "string option"

definition putDotfilesSchema :: "(string \<Rightarrow> bool) \<Rightarrow> json \<Rightarrow> dotfilesView option" where
  "putDotfilesSchema isUrl j = (case (zKey ''repoUrl'' (zNullable (zMatch isUrl)) j,
      zKey ''installCommand'' (zNullable (zString 0 1024)) j) of
      (Some u, Some c) \<Rightarrow> Some \<lparr>df_repoUrl = u, df_installCommand = c\<rparr> | _ \<Rightarrow> None)"

section \<open>Bodies of the sandbox's routes\<close>

definition bootPhaseSchema :: "json \<Rightarrow> bootPhase option" where
  "bootPhaseSchema = zEnum (map (\<lambda>p. (phaseText p, p)) [PhManifest, PhRestore, PhClone, PhServerStarting,
     PhServices, PhDotfiles, PhPostCreate, PhPostStart, PhReady])"

text \<open>A percentage between 0 and 100, rounded up: the route only asks whether it is above 80.\<close>

definition percent :: "json \<Rightarrow> int option" where
  "percent j = (case j of JNum n \<Rightarrow> if 0 \<le> n \<and> n \<le> 100 then Some n else None
     | JDec m k \<Rightarrow> if 0 \<le> m \<and> m \<le> 100 * 10 ^ k then Some (ceilDiv m (10 ^ k)) else None | _ \<Rightarrow> None)"

definition listeningEntry :: "json \<Rightarrow> int option" where
  "listeningEntry j = (case (zKey ''port'' zInt j, zOpt ''pid'' zInt j, zOpt ''process'' zAnyString j) of
     (Some p, Some _, Some _) \<Rightarrow> Some p | _ \<Rightarrow> None)"

definition optionalInts :: "string list \<Rightarrow> json \<Rightarrow> bool" where
  "optionalInts ks j \<longleftrightarrow> list_all (\<lambda>k. zOpt k zInt j \<noteq> None) ks"

definition activitySchema :: "json \<Rightarrow> activityReport option" where
  "activitySchema j = (case (zOpt ''lastInputAt'' (zNullable zInt) j, zKey ''sessionActive'' zBool j, zKey ''busy'' zBool j,
      zKey ''phase'' bootPhaseSchema j, zOpt ''cpuBusyPct'' (zNullable percent) j,
      zOpt ''listening'' (zArray 256 listeningEntry) j) of
      (Some inp, Some _, Some b, Some ph, Some cpu, Some ls) \<Rightarrow>
        if zOpt ''sid'' (zNullable zAnyString) j \<noteq> None \<and> zOpt ''serverBuild'' zAnyString j \<noteq> None
           \<and> zOpt ''supervisorBuild'' zAnyString j \<noteq> None
           \<and> optionalInts [''uptimeSeconds'', ''serverUptimeSecs'', ''agentUptimeSecs''] j
           \<and> zOpt ''status'' (zEnum HEALTH_STATUSES) j \<noteq> None
        then Some \<lparr>ac_lastInputAt = flat inp, ac_busy = b, ac_phase = phaseText ph, ac_listening = ls,
          ac_cpuBusyPct = flat cpu\<rparr>
        else None
    | _ \<Rightarrow> None)"

datatype portAction = ForwardAction | UnforwardAction

definition sandboxPortSchema :: "json \<Rightarrow> (createForwardRequest \<times> portAction option) option" where
  "sandboxPortSchema j = (case (createForwardSchema j,
      zOpt ''action'' (zEnum [(''forward'', ForwardAction), (''unforward'', UnforwardAction)]) j) of
      (Some r, Some a) \<Rightarrow> Some (r, a) | _ \<Rightarrow> None)"

record logEntry =
  le_ts :: json
  le_level :: string
  le_source :: string
  le_msg :: string
  le_sid :: "string option"
  le_fields :: "(string \<times> json) list option"

text \<open>\<open>sourceKey\<close> is \<open>source\<close> in a batch and \<open>target\<close> in an NDJSON line.\<close>

definition logEntrySchema :: "string \<Rightarrow> json \<Rightarrow> logEntry option" where
  "logEntrySchema sourceKey j = (case (zKey ''ts'' zNumber j, zKey ''level'' zAnyString j,
      zKey sourceKey zAnyString j, zKey ''msg'' zAnyString j, zOpt ''sid'' zAnyString j, zOpt ''fields'' (zRecord Some) j) of
      (Some ts, Some lv, Some src, Some m, Some sid, Some fs) \<Rightarrow>
        Some \<lparr>le_ts = ts, le_level = lv, le_source = src, le_msg = m, le_sid = sid, le_fields = fs\<rparr>
    | _ \<Rightarrow> None)"

definition logBatchSchema :: "json \<Rightarrow> logEntry list option" where
  "logBatchSchema j = (if zOpt ''workspaceId'' zAnyString j = None \<or> zOpt ''sandboxName'' zAnyString j = None
       \<or> zOpt ''sessionId'' zAnyString j = None \<or> zOpt ''build'' zAnyString j = None then None
     else zKey ''entries'' (zArray 200 (logEntrySchema ''source'')) j)"

text \<open>\<open>/^[a-z0-9][a-z0-9_-]{0,63}$/\<close>.\<close>

definition lowerChar :: "char \<Rightarrow> bool" where
  "lowerChar c \<longleftrightarrow> c \<in> set ''abcdefghijklmnopqrstuvwxyz'' \<or> isDigit c"

definition extensionId :: "string \<Rightarrow> bool" where
  "extensionId s \<longleftrightarrow> s \<noteq> [] \<and> length s \<le> 64 \<and> lowerChar (hd s)
     \<and> list_all (\<lambda>c. lowerChar c \<or> c = CHR ''_'' \<or> c = CHR ''-'') s"

definition installedExtensionsSchema :: "json \<Rightarrow> string list option" where
  "installedExtensionsSchema j = zKey ''installed'' (zArray 200 (zMatch extensionId)) j"

definition SUPERVISOR_LOG_SOURCES :: "string list" where
  "SUPERVISOR_LOG_SOURCES = [''server'', ''agent'', ''post_create'', ''post_start'', ''post_attach'',
     ''dotfiles'', ''proxy'', ''services'']"

definition logSourceAllowed :: "string \<Rightarrow> bool" where
  "logSourceAllowed src \<longleftrightarrow> prefix ''server:'' src \<or> src \<in> set SUPERVISOR_LOG_SOURCES"

definition sandboxClientErrorSchema :: "json \<Rightarrow> clientErrorInput option" where
  "sandboxClientErrorSchema = errorReportSchema [''server_crash'', ''boot'']"

section \<open>Workshops\<close>

record workshop =
  wk_owner :: string
  wk_repo :: string
  wk_branch :: "string option"

definition workshopSchema :: "json \<Rightarrow> workshop option" where
  "workshopSchema j = (case (zKey ''owner'' (zMatch githubOwner) j, zKey ''repo'' (zMatch githubName) j,
      zOpt ''branch'' (zMatch githubBranch) j) of
      (Some own, Some r, Some b) \<Rightarrow> Some \<lparr>wk_owner = own, wk_repo = r, wk_branch = b\<rparr> | _ \<Rightarrow> None)"

definition workshopPath :: "workshop \<Rightarrow> string" where
  "workshopPath w = ''/new/'' @ encodeURIComponent (wk_owner w) @ ''/'' @ encodeURIComponent (wk_repo w)
     @ (if truthy (wk_branch w) then ''?branch='' @ encodeURIComponent (nullish (wk_branch w) []) else [])"

definition workspaceInput :: "workshop \<Rightarrow> createWorkspaceInput" where
  "workspaceInput w = \<lparr>cw_repo = RepoNamed None (wk_owner w) (wk_repo w),
     cw_ref = (if truthy (wk_branch w) then map_option RefBranch (wk_branch w) else None),
     cw_machine = None, cw_region = None, cw_idleMinutes = None, cw_name = None\<rparr>"

definition workshopKeyOf :: "workshop \<Rightarrow> string" where
  "workshopKeyOf w = stringify (JArr [JStr (map toLower (wk_owner w)), JStr (map toLower (wk_repo w)),
     case wk_branch w of None \<Rightarrow> JNull | Some b \<Rightarrow> JStr b])"

end
