(* ===== verification/SettingsDocs.thy ===== *)
theory SettingsDocs
  imports Inputs
begin

text \<open>
  Per-user documents (\<open>lib/settings-docs.ts\<close>): \<open>settings.json\<close> and \<open>keymap.json\<close>, JSON with
  comments (\<open>lib/jsonc.ts\<close>), and the dotfiles configuration; with the routes under \<open>/api/me\<close> and
  \<open>/api/workspaces/{id}\<close> that read and write them.
\<close>

section \<open>JSON with comments\<close>

text \<open>The literal from its opening quote: up to the closing one, a backslash taking the next character along.\<close>

fun stringLit :: "string \<Rightarrow> string \<times> string" where
  "stringLit [] = ([], [])"
| "stringLit [c] = ([c], [])"
| "stringLit (c # d # cs) =
     (if c = CHR 0x5C then (case stringLit cs of (s, r) \<Rightarrow> (c # d # s, r))
      else if c = CHR 0x22 then ([c], d # cs)
      else (case stringLit (d # cs) of (s, r) \<Rightarrow> (c # s, r)))"

text \<open>What follows a block comment.\<close>

fun afterBlock :: "string \<Rightarrow> string" where
  "afterBlock (c # d # cs) = (if c = CHR ''*'' \<and> d = CHR ''/'' then cs else afterBlock (d # cs))"
| "afterBlock _ = []"

definition trailingComma :: "string \<Rightarrow> bool" where
  "trailingComma cs \<longleftrightarrow> (case dropWhile isSpace cs of [] \<Rightarrow> False | c # _ \<Rightarrow> c = CHR ''}'' \<or> c = CHR '']'')"

lemma stringLit_rest: "length (snd (stringLit s)) \<le> length s"
  by (induction s rule: stringLit.induct) (auto split: prod.splits)

lemma afterBlock_rest: "length (afterBlock s) \<le> length s"
  by (induction s rule: afterBlock.induct) auto

function stripJsonc :: "string \<Rightarrow> string" where
  "stripJsonc s = (case s of [] \<Rightarrow> [] | c # cs \<Rightarrow>
     if c = CHR 0x22 then c # fst (stringLit cs) @ stripJsonc (snd (stringLit cs))
     else if c = CHR ''/'' \<and> cs \<noteq> [] \<and> hd cs = CHR ''/'' then stripJsonc (dropWhile (\<lambda>d. d \<noteq> CHR 0x0A) cs)
     else if c = CHR ''/'' \<and> cs \<noteq> [] \<and> hd cs = CHR ''*'' then stripJsonc (afterBlock (tl cs))
     else if c = CHR '','' \<and> trailingComma cs then stripJsonc cs
     else c # stripJsonc cs)"
  by pat_completeness auto
termination
proof (relation "measure length", goal_cases)
  case (2 s c cs)
  then show ?case using stringLit_rest [of cs] by simp
next
  case (3 s c cs)
  then show ?case by (simp add: less_Suc_eq_le length_dropWhile_le)
next
  case (4 s c cs)
  then show ?case using afterBlock_rest [of "tl cs"] by (cases cs) auto
qed auto

declare stripJsonc.simps [simp del]

text \<open>\<open>Some None\<close> is \<open>undefined\<close>, \<open>None\<close> a \<open>SyntaxError\<close>.\<close>

definition parseJsonc :: "string \<Rightarrow> json option option" where
  "parseJsonc input = (let stripped = trimBoth (stripJsonc input) in
     if stripped = [] then Some None else map_option Some (jsonParse stripped))"

definition isJsonc :: "string \<Rightarrow> bool" where
  "isJsonc input \<longleftrightarrow> parseJsonc input \<noteq> None"

section \<open>Documents\<close>

definition MAX_DOC_BYTES :: int where "MAX_DOC_BYTES = 512 * 1024"

definition DEFAULT_SETTINGS :: string where
  "DEFAULT_SETTINGS = [CHR ''{'', CHR 0x0A, CHR ''}'', CHR 0x0A]"

definition DEFAULT_KEYMAP :: string where
  "DEFAULT_KEYMAP = [CHR ''['', CHR 0x0A, CHR '']'', CHR 0x0A]"

record settingsDocView =
  sv_content :: string
  sv_version :: int

definition dotfilesJson :: "dotfilesView \<Rightarrow> string" where
  "dotfilesJson v = stringify (JObj
     [(''repoUrl'', case df_repoUrl v of None \<Rightarrow> JNull | Some u \<Rightarrow> JStr u),
      (''installCommand'', case df_installCommand v of None \<Rightarrow> JNull | Some c \<Rightarrow> JStr c)])"

definition defaultFor :: "settingsKind \<Rightarrow> string" where
  "defaultFor kind = (case kind of SettingsDoc \<Rightarrow> DEFAULT_SETTINGS | KeymapDoc \<Rightarrow> DEFAULT_KEYMAP
     | DotfilesDoc \<Rightarrow> dotfilesJson \<lparr>df_repoUrl = None, df_installCommand = None\<rparr>)"

definition docKey :: "string \<Rightarrow> settingsKind \<Rightarrow> settingsDoc \<Rightarrow> bool" where
  "docKey uid kind d \<longleftrightarrow> d_userId d = uid \<and> d_kind d = kind"

definition docView :: "settingsKind \<Rightarrow> settingsDoc option \<Rightarrow> settingsDocView" where
  "docView kind row = (case row of Some d \<Rightarrow> \<lparr>sv_content = d_content d, sv_version = d_version d\<rparr>
     | None \<Rightarrow> \<lparr>sv_content = defaultFor kind, sv_version = 0\<rparr>)"

definition readDoc :: "string \<Rightarrow> settingsKind \<Rightarrow> settingsDocView io" where
  "readDoc uid kind = getE (\<lambda>w. docView kind (selectOne (docKey uid kind) (docsT w)))"

text \<open>\<open>INSERT \<dots> ON CONFLICT (user_id, kind) DO UPDATE\<close>.\<close>

definition upsertDoc :: "settingsDoc \<Rightarrow> settingsDoc list \<Rightarrow> settingsDoc list" where
  "upsertDoc d ds = (if list_ex (docKey (d_userId d) (d_kind d)) ds
     then updateWhere (docKey (d_userId d) (d_kind d)) (\<lambda>r. r\<lparr>d_content := d_content d, d_version := d_version d\<rparr>) ds
     else ds @ [d])"

definition versionConflict :: err where
  "versionConflict = ApiError 409 ''version_conflict''"

definition writeDoc :: "string \<Rightarrow> settingsKind \<Rightarrow> string \<Rightarrow> int option \<Rightarrow> settingsDocView io" where
  "writeDoc uid kind content expectedVersion =
     (if int (length content) > MAX_DOC_BYTES then throwE (ApiError 413 ''payload_too_large'')
      else if kind \<noteq> DotfilesDoc \<and> \<not> isJsonc content then throwE (ApiError 400 ''invalid_body'')
      else txnE
        (bindE (getE (\<lambda>w. selectOne (docKey uid kind) (docsT w))) (\<lambda>current.
         let version = (case current of Some d \<Rightarrow> d_version d | None \<Rightarrow> 0) in
         if expectedVersion \<noteq> None \<and> expectedVersion \<noteq> Some version then throwE versionConflict
         else thenE (modE (\<lambda>w. w\<lparr>docsT := upsertDoc \<lparr>d_userId = uid, d_kind = kind, d_content = content,
                d_version = version + 1\<rparr> (docsT w)\<rparr>))
           (retE \<lparr>sv_content = content, sv_version = version + 1\<rparr>))))"

definition parseDotfiles :: "string \<Rightarrow> dotfilesView" where
  "parseDotfiles content = (let j = jsonParse content in
     \<lparr>df_repoUrl = jstr (jget j ''repoUrl''), df_installCommand = jstr (jget j ''installCommand'')\<rparr>)"

definition readDotfiles :: "string \<Rightarrow> dotfilesView io" where
  "readDotfiles uid = bindE (readDoc uid DotfilesDoc) (\<lambda>d. retE (parseDotfiles (sv_content d)))"

definition writeDotfiles :: "string \<Rightarrow> dotfilesView \<Rightarrow> dotfilesView io" where
  "writeDotfiles uid v = thenE (writeDoc uid DotfilesDoc (dotfilesJson v) None) (retE v)"

section \<open>Routes\<close>

text \<open>
  \<open>GET\<close> and \<open>PUT /api/me/settings\<close> and \<open>/api/me/keymap\<close>; the same two under a workspace, where
  the guard also checks the workspace.
\<close>

definition meDocGet :: "string option \<Rightarrow> settingsKind \<Rightarrow> settingsDocView io" where
  "meDocGet sessionUser kind = bindE (requireViewer sessionUser) (\<lambda>v. readDoc (v_userId v) kind)"

definition putDocFor :: "viewer \<Rightarrow> request \<Rightarrow> settingsKind \<Rightarrow> settingsDocView io" where
  "putDocFor v req kind =
     bindE (ensureUser v) (\<lambda>_.
     bindE (ofSum (parseBody req putSettingsDocSchema (Some (MAX_DOC_BYTES + 4096)))) (\<lambda>input.
     writeDoc (v_userId v) kind (ps_content input) (ps_version input)))"

definition meDocPut :: "string option \<Rightarrow> request \<Rightarrow> settingsKind \<Rightarrow> settingsDocView io" where
  "meDocPut sessionUser req kind = bindE (requireViewer sessionUser) (\<lambda>v. putDocFor v req kind)"

definition workspaceDocGet :: "string option \<Rightarrow> string \<Rightarrow> settingsKind \<Rightarrow> settingsDocView io" where
  "workspaceDocGet sessionUser i kind =
     bindE (requireWorkspaceParam sessionUser i None False) (\<lambda>(v, ws). readDoc (v_userId v) kind)"

definition workspaceDocPut :: "string option \<Rightarrow> string \<Rightarrow> request \<Rightarrow> settingsKind \<Rightarrow> settingsDocView io" where
  "workspaceDocPut sessionUser i req kind =
     bindE (requireWorkspaceParam sessionUser i None False) (\<lambda>(v, ws). putDocFor v req kind)"

text \<open>\<open>protocol\<close> is that of \<open>new URL\<close>, \<open>None\<close> where the constructor throws.\<close>

definition assertHttpsRepoUrl :: "(string \<Rightarrow> string option) \<Rightarrow> string \<Rightarrow> unit io" where
  "assertHttpsRepoUrl protocol raw = (case protocol raw of
      None \<Rightarrow> throwE (ApiError 400 ''invalid_body'')
    | Some p \<Rightarrow> whenE (p \<noteq> ''https:'') (throwE (ApiError 400 ''invalid_body'')))"

definition dotfilesGet :: "string option \<Rightarrow> dotfilesView io" where
  "dotfilesGet sessionUser = bindE (requireViewer sessionUser) (\<lambda>v. readDotfiles (v_userId v))"

definition dotfilesPut :: "(string \<Rightarrow> string option) \<Rightarrow> string option \<Rightarrow> request \<Rightarrow> dotfilesView io" where
  "dotfilesPut protocol sessionUser req =
     bindE (requireViewer sessionUser) (\<lambda>v.
     bindE (ensureUser v) (\<lambda>_.
     bindE (ofSum (parseBody req (putDotfilesSchema (\<lambda>u. protocol u \<noteq> None)) None)) (\<lambda>input.
     thenE (case df_repoUrl input of None \<Rightarrow> retE () | Some u \<Rightarrow> assertHttpsRepoUrl protocol u)
     (writeDotfiles (v_userId v) input))))"

section \<open>Lemmas\<close>

subsection \<open>A document is a map entry\<close>

lemma docKey_self [simp]: "docKey (d_userId d) (d_kind d) d"
  by (simp add: docKey_def)

lemma selectOne_upsertDoc: "selectOne (docKey uid kind) (upsertDoc d ds) =
    (if docKey uid kind d
     then (case selectOne (docKey uid kind) ds of None \<Rightarrow> Some d
           | Some r \<Rightarrow> Some (r\<lparr>d_content := d_content d, d_version := d_version d\<rparr>))
     else selectOne (docKey uid kind) ds)"
proof (cases "docKey uid kind d")
  case True
  then have k: "docKey (d_userId d) (d_kind d) = docKey uid kind" by (simp add: docKey_def)
  have app: "\<not> list_ex (docKey uid kind) ds \<Longrightarrow> selectOne (docKey uid kind) (ds @ [d]) = Some d"
    using True by (induction ds) auto
  have none: "\<not> list_ex (docKey uid kind) ds \<longleftrightarrow> selectOne (docKey uid kind) ds = None"
    by (simp add: selectOne_None list_ex_iff)
  have upd: "selectOne (docKey uid kind) (updateWhere (docKey uid kind) f ds) = map_option f (selectOne (docKey uid kind) ds)"
    if "\<And>r. docKey uid kind (f r) = docKey uid kind r" for f
    using that by (rule selectOne_updateWhere)
  show ?thesis
    using True app none upd [of "\<lambda>r. r\<lparr>d_content := d_content d, d_version := d_version d\<rparr>"]
    by (auto simp: upsertDoc_def k docKey_def split: option.splits)
next
  case False
  have app: "selectOne (docKey uid kind) (ds @ [d]) = selectOne (docKey uid kind) ds"
    using False by (induction ds) auto
  have upd: "selectOne (docKey uid kind) (updateWhere (docKey (d_userId d) (d_kind d)) f ds) = selectOne (docKey uid kind) ds"
    if "\<And>r. docKey uid kind (f r) = docKey uid kind r" for f
    using that by (rule selectOne_updateWhere_other) (use False in \<open>auto simp: docKey_def\<close>)
  have "selectOne (docKey uid kind) (updateWhere (docKey (d_userId d) (d_kind d))
      (\<lambda>r. r\<lparr>d_content := d_content d, d_version := d_version d\<rparr>) ds) = selectOne (docKey uid kind) ds"
    by (rule upd) (simp add: docKey_def)
  with False app show ?thesis by (simp add: upsertDoc_def)
qed

definition docVersion :: "string \<Rightarrow> settingsKind \<Rightarrow> world \<Rightarrow> int" where
  "docVersion uid kind w = sv_version (docView kind (selectOne (docKey uid kind) (docsT w)))"

definition docAt :: "string \<Rightarrow> settingsKind \<Rightarrow> world \<Rightarrow> settingsDocView" where
  "docAt uid kind w = docView kind (selectOne (docKey uid kind) (docsT w))"

lemma readDoc_at: "readDoc uid kind w = (Inr (docAt uid kind w), w)"
  by (simp add: readDoc_def act_defs docAt_def)

lemma writeDoc_outcome:
  "writeDoc uid kind content expected w =
     (if int (length content) > MAX_DOC_BYTES then (Inl (ApiError 413 ''payload_too_large''), w)
      else if kind \<noteq> DotfilesDoc \<and> \<not> isJsonc content then (Inl (ApiError 400 ''invalid_body''), w)
      else if expected \<noteq> None \<and> expected \<noteq> Some (docVersion uid kind w) then (Inl versionConflict, w)
      else (Inr \<lparr>sv_content = content, sv_version = docVersion uid kind w + 1\<rparr>,
        w\<lparr>docsT := upsertDoc \<lparr>d_userId = uid, d_kind = kind, d_content = content,
           d_version = docVersion uid kind w + 1\<rparr> (docsT w)\<rparr>))"
proof -
  define current where "current = selectOne (docKey uid kind) (docsT w)"
  have ver: "docVersion uid kind w = (case current of Some d \<Rightarrow> d_version d | None \<Rightarrow> 0)"
    by (simp add: docVersion_def docView_def current_def split: option.splits)
  show ?thesis
  proof (cases "int (length content) > MAX_DOC_BYTES")
    case True
    then show ?thesis by (simp add: writeDoc_def throwE_def)
  next
    case size: False
    show ?thesis
    proof (cases "kind \<noteq> DotfilesDoc \<and> \<not> isJsonc content")
      case True
      with size show ?thesis by (simp add: writeDoc_def throwE_def)
    next
      case doc: False
      show ?thesis
        by (cases "expected \<noteq> None \<and> expected \<noteq> Some (docVersion uid kind w)")
          (simp_all only: writeDoc_def size doc if_True if_False ver act_defs Let_def current_def [symmetric]
            prod.case sum.case not_False_eq_True simp_thms)
    qed
  qed
qed

lemma writeDoc_stored:
  assumes "writeDoc uid kind content expected w = (Inr d, w')"
  shows "docAt uid kind w' = d" and "d = \<lparr>sv_content = content, sv_version = docVersion uid kind w + 1\<rparr>"
    and "(uid', kind') \<noteq> (uid, kind) \<Longrightarrow> docAt uid' kind' w' = docAt uid' kind' w"
    and "expected \<noteq> None \<Longrightarrow> expected = Some (docVersion uid kind w)"
proof -
  have w': "w' = w\<lparr>docsT := upsertDoc \<lparr>d_userId = uid, d_kind = kind, d_content = content,
           d_version = docVersion uid kind w + 1\<rparr> (docsT w)\<rparr>"
    and d: "d = \<lparr>sv_content = content, sv_version = docVersion uid kind w + 1\<rparr>"
    and e: "expected = None \<or> expected = Some (docVersion uid kind w)"
    using assms by (auto simp: writeDoc_outcome split: if_splits)
  show "docAt uid kind w' = d"
    by (simp add: docAt_def w' d selectOne_upsertDoc docKey_def docView_def split: option.splits)
  show "d = \<lparr>sv_content = content, sv_version = docVersion uid kind w + 1\<rparr>" by (rule d)
  show "(uid', kind') \<noteq> (uid, kind) \<Longrightarrow> docAt uid' kind' w' = docAt uid' kind' w"
    by (auto simp: docAt_def w' selectOne_upsertDoc docKey_def [of uid' kind' "\<lparr>d_userId = uid, d_kind = kind, d_content = content,
           d_version = docVersion uid kind w + 1\<rparr>"])
  show "expected \<noteq> None \<Longrightarrow> expected = Some (docVersion uid kind w)" using e by blast
qed

lemma docVersion_at: "docVersion uid kind w = sv_version (docAt uid kind w)"
  by (simp add: docVersion_def docAt_def)

lemma parseDotfiles_json: "parseDotfiles (dotfilesJson v) = v"
proof -
  have "jsonParse (dotfilesJson v) = Some (JObj
     [(''repoUrl'', case df_repoUrl v of None \<Rightarrow> JNull | Some u \<Rightarrow> JStr u),
      (''installCommand'', case df_installCommand v of None \<Rightarrow> JNull | Some c \<Rightarrow> JStr c)])"
    unfolding dotfilesJson_def by (rule jsonParse_stringify) (simp split: option.splits)
  then show ?thesis
    by (cases v) (simp add: parseDotfiles_def jget_def jstr_def Let_def split: option.splits)
qed

subsection \<open>JSON is JSON with comments\<close>

lemma stripJsonc_Cons: "stripJsonc (c # cs) =
    (if c = CHR 0x22 then c # fst (stringLit cs) @ stripJsonc (snd (stringLit cs))
     else if c = CHR ''/'' \<and> cs \<noteq> [] \<and> hd cs = CHR ''/'' then stripJsonc (dropWhile (\<lambda>d. d \<noteq> CHR 0x0A) cs)
     else if c = CHR ''/'' \<and> cs \<noteq> [] \<and> hd cs = CHR ''*'' then stripJsonc (afterBlock (tl cs))
     else if c = CHR '','' \<and> trailingComma cs then stripJsonc cs
     else c # stripJsonc cs)"
  and stripJsonc_Nil [simp]: "stripJsonc [] = []"
  by (subst stripJsonc.simps, simp)+

definition plainChar :: "char \<Rightarrow> bool" where
  "plainChar c \<longleftrightarrow> c \<noteq> CHR 0x22 \<and> c \<noteq> CHR ''/'' \<and> c \<noteq> CHR '',''"

lemma stripJsonc_plain: "list_all plainChar s \<Longrightarrow> stripJsonc (s @ rest) = s @ stripJsonc rest"
  by (induction s) (auto simp: stripJsonc_Cons plainChar_def)

lemma hexLower_not: "hexLower d \<noteq> CHR 0x5C \<and> hexLower d \<noteq> CHR 0x22"
proof -
  have "hexLower d \<in> set ''0123456789abcdef''" unfolding hexLower_def by (rule nth_mem) simp
  then show ?thesis by auto
qed

lemma stringLit_char: "c \<noteq> CHR 0x5C \<Longrightarrow> c \<noteq> CHR 0x22 \<Longrightarrow>
    stringLit (c # d # s) = (c # fst (stringLit (d # s)), snd (stringLit (d # s)))"
  by (simp split: prod.splits)

lemma stringLit_pair: "stringLit (CHR 0x5C # d # s) = (CHR 0x5C # d # fst (stringLit s), snd (stringLit s))"
  by (simp split: prod.splits)

lemma stringLit_escape: "stringLit (escapeChar c @ d # s) =
    (escapeChar c @ fst (stringLit (d # s)), snd (stringLit (d # s)))"
  by (simp add: escapeChar_def hexLower_not stringLit_char stringLit_pair del: stringLit.simps)

lemma stringLit_quoted: "stringLit (concat (map escapeChar s) @ CHR 0x22 # rest) =
    (concat (map escapeChar s) @ [CHR 0x22], rest)"
proof (induction s)
  case Nil
  show ?case by (cases rest) simp_all
next
  case (Cons c s)
  obtain d t where tail: "concat (map escapeChar s) @ CHR 0x22 # rest = d # t"
    by (cases "concat (map escapeChar s)") auto
  have "stringLit (escapeChar c @ d # t) =
      (escapeChar c @ concat (map escapeChar s) @ [CHR 0x22], rest)"
    unfolding stringLit_escape using Cons unfolding tail by simp
  then show ?case by (simp add: tail)
qed

lemma stripJsonc_quoted: "stripJsonc (quoteJson s @ rest) = quoteJson s @ stripJsonc rest"
  by (simp add: quoteJson_def stripJsonc_Cons stringLit_quoted)

lemma plain_showInt: "list_all plainChar (showInt i)"
proof -
  have d: "isDigit c \<Longrightarrow> plainChar c" for c by (auto simp: isDigit_def plainChar_def)
  have n: "list_all plainChar (showNat n)" for n
    using showNat_digits [of n] d by (auto simp: list_all_iff)
  have m: "plainChar CHR ''-''" by (simp add: plainChar_def)
  show ?thesis using n m by (simp add: showInt_def)
qed

text \<open>A comma before a value or a member is no trailing comma.\<close>

definition opens :: "string \<Rightarrow> bool" where
  "opens s \<longleftrightarrow> s \<noteq> [] \<and> hd s \<noteq> CHR '']'' \<and> hd s \<noteq> CHR ''}'' \<and> \<not> isSpace (hd s)"

lemma opens_append: "opens s \<Longrightarrow> opens (s @ t)"
  by (cases s) (auto simp: opens_def)

lemma opens_comma: "opens s \<Longrightarrow> stripJsonc (CHR '','' # s) = CHR '','' # stripJsonc s"
  by (cases s) (auto simp: opens_def stripJsonc_Cons trailingComma_def)

lemma opens_stringify: assumes "noDec j" shows "opens (stringify j)"
proof (cases j)
  case (JNum i)
  have "numStart c \<Longrightarrow> c \<noteq> CHR ''}'' \<and> \<not> isSpace c" for c
    by (auto simp: numStart_def isDigit_def isSpace_def)
  then show ?thesis using JNum showInt_start [of i] numStart_not by (fastforce simp: opens_def)
qed (use assms in \<open>auto simp: opens_def quoteJson_def isSpace_def\<close>)

definition kept :: "string \<Rightarrow> bool" where
  "kept s \<longleftrightarrow> (\<forall>rest. stripJsonc (s @ rest) = s @ stripJsonc rest)"

lemma kept_append: "kept s \<Longrightarrow> kept t \<Longrightarrow> kept (s @ t)"
  by (simp add: kept_def)

lemma kept_plain: "list_all plainChar s \<Longrightarrow> kept s"
  by (simp add: kept_def stripJsonc_plain)

lemma kept_join:
  assumes "list_all kept xs" and "list_all opens xs"
  shows "kept (joinWith CHR '','' xs)"
  using assms
proof (induction xs rule: induct_list012)
  case 1
  then show ?case by (simp add: kept_def)
next
  case (2 x)
  then show ?case by simp
next
  case (3 x y zs)
  have "kept (CHR '','' # joinWith CHR '','' (y # zs))"
  proof -
    have "opens (joinWith CHR '','' (y # zs) @ rest)" for rest
      using "3.prems" by (cases zs) (auto intro: opens_append)
    moreover have "kept (joinWith CHR '','' (y # zs))" using 3 by simp
    ultimately show ?thesis by (simp add: kept_def opens_comma)
  qed
  then show ?case using "3.prems" by (simp add: kept_append)
qed

lemma kept_stringify: "noDec j \<Longrightarrow> kept (stringify j)"
proof (induction j rule: stringify.induct)
  case (3 n)
  show ?case by (simp add: kept_plain plain_showInt)
next
  case (5 s)
  show ?case by (simp add: kept_def stripJsonc_quoted)
next
  case (6 xs)
  have "kept (joinWith CHR '','' (map stringify xs))"
    using 6 by (intro kept_join) (auto simp: list_all_iff opens_stringify)
  moreover have "kept [CHR ''['']" "kept [CHR '']'']" by (simp_all add: kept_plain plainChar_def)
  ultimately have "kept ([CHR ''[''] @ joinWith CHR '','' (map stringify xs) @ [CHR '']''])"
    by (intro kept_append)
  then show ?case by simp
next
  case (7 kvs)
  have colon: "kept [CHR '':'']" by (simp add: kept_plain plainChar_def)
  have member: "kept (quoteJson k @ [CHR '':''] @ stringify v)" if "(k, v) \<in> set kvs" for k v
    using that 7 colon by (intro kept_append) (auto simp: kept_def stripJsonc_quoted list_all_iff)
  have "kept (joinWith CHR '','' (map (\<lambda>kv. quoteJson (fst kv) @ CHR '':'' # stringify (snd kv)) kvs))"
    using member by (intro kept_join) (auto simp: list_all_iff opens_def quoteJson_def isSpace_def)
  moreover have "kept [CHR ''{'']" "kept [CHR ''}'']" by (simp_all add: kept_plain plainChar_def)
  ultimately have "kept ([CHR ''{''] @ joinWith CHR '','' (map (\<lambda>kv. quoteJson (fst kv) @ CHR '':'' # stringify (snd kv)) kvs) @ [CHR ''}''])"
    by (intro kept_append)
  then show ?case by simp
qed (auto intro!: kept_plain simp: plainChar_def)

lemma stripJsonc_json: "noDec j \<Longrightarrow> stripJsonc (stringify j) = stringify j"
  using kept_stringify [of j] by (simp add: kept_def) (metis append_Nil2 stripJsonc_Nil)

lemma last_showInt: "isDigit (last (showInt i))"
proof -
  have "isDigit (last (showNat n))" for n
    using showNat_digits [of n] by (simp add: list_all_iff)
  then show ?thesis using showNat_digits by (simp add: showInt_def)
qed

lemma trimBoth_id: "s \<noteq> [] \<Longrightarrow> \<not> isSpace (hd s) \<Longrightarrow> \<not> isSpace (last s) \<Longrightarrow> trimBoth s = s"
proof -
  assume s: "s \<noteq> []" "\<not> isSpace (hd s)" "\<not> isSpace (last s)"
  then have "dropWhile isSpace s = s" by (cases s) auto
  moreover have "dropWhile isSpace (rev s) = rev s"
    using s by (cases "rev s") (auto simp: last_rev hd_rev [symmetric])
  ultimately show "trimBoth s = s" by (simp add: trimBoth_def)
qed

lemma last_stringify: "noDec j \<Longrightarrow> \<not> isSpace (last (stringify j))"
proof (cases j)
  case (JNum i)
  have "isDigit c \<Longrightarrow> \<not> isSpace c" for c by (auto simp: isDigit_def isSpace_def)
  then show ?thesis using last_showInt [of i] JNum by simp
qed (auto simp: quoteJson_def isSpace_def)

lemma parseJsonc_json:
  assumes "noDec j" shows "parseJsonc (stringify j) = Some (Some j)"
proof -
  have "stringify j \<noteq> []" "\<not> isSpace (hd (stringify j))"
    using opens_stringify [OF assms] by (auto simp: opens_def)
  then show ?thesis
    using last_stringify [OF assms] assms
    by (simp add: parseJsonc_def stripJsonc_json trimBoth_id jsonParse_stringify)
qed

end
