(* ===== verification/Views.thy ===== *)
theory Views
  imports Inputs "HOL-Library.Char_ord" "HOL-Library.List_Lexorder" "HOL-Library.Product_Lexorder"
begin

text \<open>
  What the API shows of the rows (\<open>lib/views.ts\<close>) and the summary the editor page gets
  (\<open>lib/shell.ts\<close>). Instants stay numbers; the ISO text is their serialisation.
\<close>

record forwardView =
  fv_port :: int
  fv_visibility :: portVisibility
  fv_label :: "string option"
  fv_url :: "string option"
  fv_slot :: "int option"

definition toForwardView :: "forward \<Rightarrow> forwardView" where
  "toForwardView f = \<lparr>fv_port = f_port f, fv_visibility = f_visibility f, fv_label = f_label f,
     fv_url = f_url f, fv_slot = f_slot f\<rparr>"

record repoView =
  rv_id :: string
  rv_installationId :: int
  rv_githubRepoId :: int
  rv_owner :: string
  rv_name :: string
  rv_defaultBranch :: string
  rv_private :: bool
  rv_defaultMachine :: machineType
  rv_idleMinutes :: "int option"

definition toRepoView :: "repo \<Rightarrow> repoView" where
  "toRepoView r = \<lparr>rv_id = r_id r, rv_installationId = r_installationId r, rv_githubRepoId = r_githubRepoId r,
     rv_owner = r_owner r, rv_name = r_name r, rv_defaultBranch = r_defaultBranch r, rv_private = r_private r,
     rv_defaultMachine = r_defaultMachine r, rv_idleMinutes = r_idleMinutes r\<rparr>"

record repoRef =
  rf_id :: string
  rf_owner :: string
  rf_name :: string
  rf_defaultBranch :: string

record workspaceView =
  wv_id :: string
  wv_name :: string
  wv_repo :: repoRef
  wv_branch :: "string option"
  wv_revision :: "string option"
  wv_pullRequest :: "int option"
  wv_machine :: machineType
  wv_region :: region
  wv_state :: workspaceState
  wv_stateReason :: "string option"
  wv_workflowRunId :: "string option"
  wv_idleMinutes :: int
  wv_serverBuild :: string
  wv_clientBuild :: string
  wv_lastActiveAt :: int
  wv_createdAt :: int
  wv_lastStoppedAt :: "int option"
  wv_retentionUntil :: "int option"
  wv_forwards :: "forwardView list"
  wv_imageRef :: string
  wv_imageServerBuild :: string
  wv_stale :: bool

definition repoRefOf :: "repo option \<Rightarrow> string \<Rightarrow> repoRef" where
  "repoRefOf r i = \<lparr>rf_id = i, rf_owner = (case r of None \<Rightarrow> [] | Some x \<Rightarrow> r_owner x),
     rf_name = (case r of None \<Rightarrow> [] | Some x \<Rightarrow> r_name x),
     rf_defaultBranch = (case r of None \<Rightarrow> ''main'' | Some x \<Rightarrow> r_defaultBranch x)\<rparr>"

definition workspaceViewOf :: "repo list \<Rightarrow> forward list \<Rightarrow> editorRelease \<Rightarrow> workspace \<Rightarrow> workspaceView" where
  "workspaceViewOf rs fs release row =
     \<lparr>wv_id = ws_id row, wv_name = ws_name row,
      wv_repo = repoRefOf (selectOne (\<lambda>r. r_id r = repoId row) rs) (repoId row),
      wv_branch = branch row, wv_revision = revision row, wv_pullRequest = pullRequest row,
      wv_machine = machine row, wv_region = ws_region row, wv_state = ws_state row,
      wv_stateReason = stateReason row, wv_workflowRunId = workflowRunId row,
      wv_idleMinutes = idleMinutes row, wv_serverBuild = serverBuild row, wv_clientBuild = clientBuild row,
      wv_lastActiveAt = lastActiveAt row, wv_createdAt = createdAt row,
      wv_lastStoppedAt = lastStoppedAt row, wv_retentionUntil = retentionUntil row,
      wv_forwards = map toForwardView (sort_key f_port (filter (\<lambda>f. f_workspaceId f = ws_id row) fs)),
      wv_imageRef = imageRef row, wv_imageServerBuild = serverBuild row,
      wv_stale = (\<not> sameRelease (releaseOf row) release)\<rparr>"

definition workspaceViews :: "platform \<Rightarrow> workspace list \<Rightarrow> workspaceView list io" where
  "workspaceViews pf rows =
     (if rows = [] then retE []
      else bindE (getE (\<lambda>w. filter (\<lambda>r. r_id r \<in> repoId ` set rows) (reposT w))) (\<lambda>rs.
      bindE (getE (\<lambda>w. filter (\<lambda>f. f_workspaceId f \<in> ws_id ` set rows) (forwardsT w))) (\<lambda>fs.
      bindE (ofSum (currentRelease (pf_env pf))) (\<lambda>release.
      retE (map (workspaceViewOf rs fs release) rows)))))"

definition workspaceViewE :: "platform \<Rightarrow> workspace \<Rightarrow> workspaceView io" where
  "workspaceViewE pf row = bindE (workspaceViews pf [row]) (\<lambda>vs. retE (hd vs))"

text \<open>\<open>ORDER BY last_active_at DESC\<close>; SQL leaves the order of ties open.\<close>

definition visibleWorkspaces :: "string \<Rightarrow> world \<Rightarrow> workspace list" where
  "visibleWorkspaces uid w = sort_key (\<lambda>r. - lastActiveAt r)
     (filter (\<lambda>r. ownerUserId r = uid \<and> deletedAt r = None) (workspacesT w))"

definition visibleRepos :: "string \<Rightarrow> world \<Rightarrow> repoView list" where
  "visibleRepos uid w = map toRepoView (sort_key (\<lambda>r. (r_owner r, r_name r)) (remdups
     (filter (\<lambda>r. \<not> r_private r \<and> list_ex (\<lambda>x. repoId x = r_id r \<and> ownerUserId x = uid \<and> deletedAt x = None)
        (workspacesT w)) (reposT w))))"

section \<open>The editor page\<close>

definition workspaceDir :: "repo \<Rightarrow> string" where
  "workspaceDir r = ''/workspaces/'' @ r_name r"

definition workspacePaths :: "repo \<Rightarrow> string list" where
  "workspacePaths r = [workspaceDir r]"

text \<open>\<open>relocated\<close>: the canonical path of the clone of a local sandbox, known to the file system.\<close>

definition workspacePathsFor :: "env \<Rightarrow> (string \<Rightarrow> string \<Rightarrow> string) \<Rightarrow> workspace \<Rightarrow> repo \<Rightarrow> string list" where
  "workspacePathsFor e relocated ws r =
     (if ZS_SANDBOX_BACKEND e = Local then [relocated (sandboxName ws) (r_name r)] else workspacePaths r)"

record shellWorkspace =
  sw_id :: string
  sw_name :: string
  sw_repo :: string
  sw_branch :: "string option"
  sw_machine :: machineType
  sw_region :: region
  sw_state :: workspaceState
  sw_stateReason :: "string option"
  sw_idleMinutes :: int
  sw_serverBuild :: string
  sw_clientBuild :: string

definition toShellWorkspace :: "workspace \<Rightarrow> repo option \<Rightarrow> shellWorkspace" where
  "toShellWorkspace ws r = \<lparr>sw_id = ws_id ws, sw_name = ws_name ws,
     sw_repo = (case r of Some x \<Rightarrow> r_owner x @ ''/'' @ r_name x | None \<Rightarrow> ws_name ws),
     sw_branch = branch ws, sw_machine = machine ws, sw_region = ws_region ws, sw_state = ws_state ws,
     sw_stateReason = stateReason ws, sw_idleMinutes = idleMinutes ws, sw_serverBuild = serverBuild ws,
     sw_clientBuild = clientBuild ws\<rparr>"

definition repoOf :: "workspace \<Rightarrow> repo option io" where
  "repoOf ws = getE (\<lambda>w. selectOne (\<lambda>r. r_id r = repoId ws) (reposT w))"

section \<open>Lemmas\<close>

lemma visible_own: "r \<in> set (visibleWorkspaces uid w) \<longleftrightarrow>
    r \<in> set (workspacesT w) \<and> ownerUserId r = uid \<and> deletedAt r = None"
  by (auto simp: visibleWorkspaces_def)

lemma visible_sorted: "sorted (map (\<lambda>r. - lastActiveAt r) (visibleWorkspaces uid w))"
  by (simp add: visibleWorkspaces_def)

lemma wp_ofSum [wp_simps]: "wp (ofSum r) Q E w = (case r of Inl e \<Rightarrow> E e w | Inr x \<Rightarrow> Q x w)"
  by (simp add: ofSum_def wp_simps split: sum.splits)

lemma workspaceViews_frame: "wp (workspaceViews pf rows) (\<lambda>vs v. v = w \<and> map wv_id vs = map ws_id rows)
    (\<lambda>_ v. v = w) w"
  by (simp add: workspaceViews_def wp_simps workspaceViewOf_def comp_def split: sum.splits)

end
