(* ===== verification/GitHub.thy ===== *)
theory GitHub
  imports Inputs WorkflowResults
begin

text \<open>
  Public repository metadata (\<open>lib/github.ts\<close>, \<open>lib/github-api-error.ts\<close>): one unauthenticated
  lookup per minute and identity, shared by concurrent requests through the key-value table and a
  lock. The four REST answers are parameters, a failed request with its status, the error it
  throws and the headers it carried; so are the local repositories of a development backend.
\<close>

record installationRepo =
  ir_id :: int
  ir_owner :: string
  ir_name :: string
  ir_defaultBranch :: string
  ir_private :: bool

record resolvedRef =
  rr_branch :: "string option"
  rr_sha :: string
  rr_gitRef :: "string option"

record requestError =
  re_status :: int
  re_headers :: "string \<Rightarrow> string option"
  re_error :: err

record github =
  gh_repo :: "nat \<Rightarrow> string \<Rightarrow> string \<Rightarrow> requestError + installationRepo"
  gh_pull :: "nat \<Rightarrow> string \<Rightarrow> string \<Rightarrow> int \<Rightarrow> requestError + string \<times> string"
  gh_commit :: "nat \<Rightarrow> string \<Rightarrow> string \<Rightarrow> string \<Rightarrow> requestError + string"
  gh_branch :: "nat \<Rightarrow> string \<Rightarrow> string \<Rightarrow> string \<Rightarrow> requestError + string"
  gh_localRepo :: "string \<Rightarrow> err + installationRepo option"
  gh_localRef :: "string \<Rightarrow> refInput \<Rightarrow> err + resolvedRef"
  gh_localCloneUrl :: "string \<Rightarrow> err + string"

section \<open>Errors\<close>

text \<open>
  The hook of every request: an exhausted quota is a 503. The status a caught error still shows
  (\<open>error.status\<close>) is that of the \<open>ApiError\<close> then.
\<close>

definition quotaExhausted :: "requestError \<Rightarrow> bool" where
  "quotaExhausted e \<longleftrightarrow> re_status e = 429 \<or> (re_status e = 403
     \<and> (re_headers e ''x-ratelimit-remaining'' = Some ''0'' \<or> truthy (re_headers e ''retry-after'')))"

definition publicGithubError :: "requestError \<Rightarrow> int \<times> err" where
  "publicGithubError e = (if quotaExhausted e then (503, ApiError 503 ''github_rate_limited'')
     else (re_status e, re_error e))"

section \<open>Lookups\<close>

definition ghCall :: "string \<Rightarrow> platform \<Rightarrow> (nat \<Rightarrow> requestError + 'a) \<Rightarrow> ((int \<times> err) + 'a) io" where
  "ghCall what pf f = ext pf (\<lambda>_. EvGithub what)
     (\<lambda>n. case f n of Inl e \<Rightarrow> Inl (publicGithubError e) | Inr x \<Rightarrow> Inr x)"

definition ghOrThrow :: "((int \<times> err) + 'a) io \<Rightarrow> 'a io" where
  "ghOrThrow m = bindE m (\<lambda>r. case r of Inl e \<Rightarrow> throwE (snd e) | Inr x \<Rightarrow> retE x)"

definition loadRepo :: "platform \<Rightarrow> github \<Rightarrow> string \<Rightarrow> string \<Rightarrow> installationRepo option io" where
  "loadRepo pf gh own name = bindE (ghCall ''repo'' pf (\<lambda>n. gh_repo gh n own name)) (\<lambda>r. case r of
      Inl (status, e) \<Rightarrow> if status = 404 then retE None else throwE e
    | Inr data \<Rightarrow> retE (if ir_private data then None else Some (data\<lparr>ir_private := False\<rparr>)))"

definition loadRef :: "platform \<Rightarrow> github \<Rightarrow> string \<Rightarrow> string \<Rightarrow> refInput \<Rightarrow> resolvedRef io" where
  "loadRef pf gh own name ref = (case ref of
      RefPullRequest n \<Rightarrow>
        bindE (ghOrThrow (ghCall ''pull'' pf (\<lambda>k. gh_pull gh k own name n))) (\<lambda>(headRef, sha).
        retE \<lparr>rr_branch = Some headRef, rr_sha = sha, rr_gitRef = Some (''refs/pull/'' @ showInt n @ ''/head'')\<rparr>)
    | RefRevision r \<Rightarrow>
        bindE (ghOrThrow (ghCall ''commit'' pf (\<lambda>k. gh_commit gh k own name r))) (\<lambda>sha.
        retE \<lparr>rr_branch = None, rr_sha = sha, rr_gitRef = None\<rparr>)
    | RefBranch b \<Rightarrow>
        bindE (ghOrThrow (ghCall ''branch'' pf (\<lambda>k. gh_branch gh k own name b))) (\<lambda>sha.
        retE \<lparr>rr_branch = Some b, rr_sha = sha, rr_gitRef = None\<rparr>))"

section \<open>The shared cache\<close>

text \<open>What is cached, as the JSON document of the value and back.\<close>

definition repoJson :: "installationRepo option \<Rightarrow> json" where
  "repoJson r = (case r of None \<Rightarrow> JNull | Some x \<Rightarrow> JObj [(''id'', JNum (ir_id x)), (''owner'', JStr (ir_owner x)),
     (''name'', JStr (ir_name x)), (''defaultBranch'', JStr (ir_defaultBranch x)), (''private'', JBool (ir_private x))])"

definition repoOfJson :: "json option \<Rightarrow> installationRepo option" where
  "repoOfJson j = (if jnum (jget j ''id'') = None then None else
     Some \<lparr>ir_id = nullish (jnum (jget j ''id'')) 0, ir_owner = nullish (jstr (jget j ''owner'')) [],
       ir_name = nullish (jstr (jget j ''name'')) [], ir_defaultBranch = nullish (jstr (jget j ''defaultBranch'')) [],
       ir_private = jtrue (jget j ''private'')\<rparr>)"

definition optionJson :: "string option \<Rightarrow> json" where
  "optionJson s = (case s of None \<Rightarrow> JNull | Some t \<Rightarrow> JStr t)"

definition refJson :: "resolvedRef \<Rightarrow> json" where
  "refJson r = JObj [(''branch'', optionJson (rr_branch r)), (''sha'', JStr (rr_sha r)), (''gitRef'', optionJson (rr_gitRef r))]"

definition refOfJson :: "json option \<Rightarrow> resolvedRef" where
  "refOfJson j = \<lparr>rr_branch = jstr (jget j ''branch''), rr_sha = nullish (jstr (jget j ''sha'')) [],
     rr_gitRef = jstr (jget j ''gitRef'')\<rparr>"

definition LOOKUP_WAIT_MS :: int where "LOOKUP_WAIT_MS = 18000"
definition LOOKUP_POLL_MS :: int where "LOOKUP_POLL_MS = 500"

definition repositoryBusy :: err where
  "repositoryBusy = ApiError 503 ''repository_busy''"

text \<open>The holder of the lock: it looks again, else fetches and stores.\<close>

definition fetchOnce ::
  "('a \<Rightarrow> json) \<Rightarrow> (json option \<Rightarrow> 'a) \<Rightarrow> string \<Rightarrow> 'a io \<Rightarrow> 'a io" where
  "fetchOnce enc dec key fetch =
     bindE (kvGetE key) (\<lambda>cached. case cached of
        Some c \<Rightarrow> retE (dec (jsonParse c))
      | None \<Rightarrow> bindE fetch (\<lambda>x. thenE (kvSetE key (stringify (enc x)) (Some 60000) False) (retE x)))"

text \<open>
  One round of the \<open>do \<dots> while\<close>: \<open>env\<close> is what other requests do while this one sleeps, and
  \<open>None\<close> goes on.
\<close>

definition lookupRound ::
  "platform \<Rightarrow> (world \<Rightarrow> world) \<Rightarrow> ('a \<Rightarrow> json) \<Rightarrow> (json option \<Rightarrow> 'a) \<Rightarrow> string \<Rightarrow> 'a io \<Rightarrow> int \<Rightarrow> 'a option io" where
  "lookupRound pf env enc dec key fetch deadline =
     bindE (kvGetE key) (\<lambda>cached. case cached of
        Some c \<Rightarrow> retE (Some (dec (jsonParse c)))
      | None \<Rightarrow>
        bindE (withLock pf (key @ '':lock'') 35000 (fetchOnce enc dec key fetch)) (\<lambda>result. case result of
          Some x \<Rightarrow> retE (Some x)
        | None \<Rightarrow>
            thenE (modE (\<lambda>w. (env w)\<lparr>now := now w + LOOKUP_POLL_MS\<rparr>))
            (bindE (getE now) (\<lambda>t. if t < deadline then retE None else throwE repositoryBusy))))"

definition lookupKey :: "json list \<Rightarrow> string" where
  "lookupKey identity = ''zs:github:'' @ stringify (JArr identity)"

definition cachedLookup ::
  "platform \<Rightarrow> (world \<Rightarrow> world) \<Rightarrow> ('a \<Rightarrow> json) \<Rightarrow> (json option \<Rightarrow> 'a) \<Rightarrow> json list \<Rightarrow> 'a io \<Rightarrow> 'a io" where
  "cachedLookup pf env enc dec identity fetch =
     bindE (getE now) (\<lambda>t0.
     loopE (loopFuel LOOKUP_WAIT_MS LOOKUP_POLL_MS)
       (lookupRound pf env enc dec (lookupKey identity) fetch (t0 + LOOKUP_WAIT_MS)))"

section \<open>What the routes ask\<close>

definition isLocalRepo :: "env \<Rightarrow> string \<Rightarrow> bool" where
  "isLocalRepo e own \<longleftrightarrow> own = ''local'' \<and> ZS_SANDBOX_BACKEND e = Local"

definition cloneUrl :: "env \<Rightarrow> github \<Rightarrow> string \<Rightarrow> string \<Rightarrow> err + string" where
  "cloneUrl e gh own name = (if isLocalRepo e own then gh_localCloneUrl gh name
     else Inr (''https://github.com/'' @ own @ ''/'' @ name @ ''.git''))"

definition lowerText :: "string \<Rightarrow> string" where
  "lowerText s = map toLower s"

definition refRequestJson :: "refInput \<Rightarrow> json" where
  "refRequestJson ref = (case ref of RefBranch b \<Rightarrow> JObj [(''branch'', JStr b)]
     | RefPullRequest n \<Rightarrow> JObj [(''pullRequest'', JNum n)] | RefRevision r \<Rightarrow> JObj [(''revision'', JStr r)])"

definition fetchRepo ::
  "platform \<Rightarrow> (world \<Rightarrow> world) \<Rightarrow> github \<Rightarrow> string \<Rightarrow> string \<Rightarrow> installationRepo option io" where
  "fetchRepo pf env gh own name =
     (if isLocalRepo (pf_env pf) own then ofSum (gh_localRepo gh name)
      else cachedLookup pf env repoJson repoOfJson [JStr ''repo'', JStr (lowerText own), JStr (lowerText name)]
        (loadRepo pf gh own name))"

definition resolveRef ::
  "platform \<Rightarrow> (world \<Rightarrow> world) \<Rightarrow> github \<Rightarrow> string \<Rightarrow> string \<Rightarrow> refInput \<Rightarrow> resolvedRef io" where
  "resolveRef pf env gh own name ref =
     (if isLocalRepo (pf_env pf) own then ofSum (gh_localRef gh name ref)
      else cachedLookup pf env refJson refOfJson
        [JStr ''ref'', JStr (lowerText own), JStr (lowerText name), refRequestJson ref]
        (loadRef pf gh own name ref))"

section \<open>Lemmas\<close>

lemma wp_fetchOnce:
  assumes "\<And>v. wp fetch (\<lambda>_ _. True) (\<lambda>e _. E e) v"
  shows "wp (fetchOnce enc dec key fetch) (\<lambda>_ _. True) (\<lambda>e _. E e) w"
proof -
  have "wp (bindE fetch (\<lambda>x. thenE (kvSetE key (stringify (enc x)) (Some 60000) False) (retE x)))
      (\<lambda>_ _. True) (\<lambda>e _. E e) w"
    unfolding wp_bind by (rule wp_mono [OF assms]) (simp_all add: wp_simps)
  then show ?thesis by (simp add: fetchOnce_def wp_kvGetE wp_bind [of "kvGetE key"] wp_ret split: option.splits)
qed

lemma wp_withLock_total:
  assumes "\<And>v. wp fn (\<lambda>_ _. True) (\<lambda>e _. E e) v" and "Q None (w\<lparr>tick := Suc (tick w)\<rparr>)"
    and "\<And>x v. Q (Some x) v"
  shows "wp (withLock pf key ttl fn) Q (\<lambda>e _. E e) w"
proof -
  have "wp (finallyE (bindE fn (\<lambda>r. retE (Some r))) (kvCompareDeleteE key tok)) Q (\<lambda>e _. E e) v" for tok v
    unfolding wp_finally wp_bind by (rule wp_mono [OF assms(1)]) (simp_all add: wp_simps assms(3))
  then show ?thesis unfolding wp_withLock using assms(2) by simp
qed

text \<open>
  A lookup ends: it answers, throws what the fetch throws, or says after eighteen seconds that the
  repository is being checked. It never runs out of the rounds the model gives it.
\<close>

lemma wp_lookupRound:
  assumes "\<And>v. wp fetch (\<lambda>_ _. True) (\<lambda>e _. E e) v"
  shows "wp (lookupRound pf env enc dec key fetch deadline)
     (\<lambda>r v'. case r of Some x \<Rightarrow> True | None \<Rightarrow> True \<and> roundsLeft LOOKUP_POLL_MS deadline v' < roundsLeft LOOKUP_POLL_MS deadline v)
     (\<lambda>e _. E e \<or> e = repositoryBusy) v"
proof (cases "kvGet (kvT v) key (now v)")
  case None
  have lock: "wp (withLock pf (key @ '':lock'') 35000 (fetchOnce enc dec key fetch))
      (\<lambda>r u. r = None \<longrightarrow> now u = now v) (\<lambda>e _. E e) v"
    by (rule wp_withLock_total [OF wp_fetchOnce [OF assms]]) simp_all
  show ?thesis
    unfolding lookupRound_def wp_bind wp_kvGetE None option.case
    by (rule wp_mono [OF lock])
      (auto simp: wp_simps LOOKUP_POLL_MS_def intro!: roundsLeft_less split: option.split)
next
  case (Some c)
  then show ?thesis by (simp add: lookupRound_def wp_simps)
qed

lemma wp_cachedLookup:
  assumes "\<And>v. wp fetch (\<lambda>_ _. True) (\<lambda>e _. E e) v"
  shows "wp (cachedLookup pf env enc dec identity fetch) (\<lambda>_ _. True) (\<lambda>e _. E e \<or> e = repositoryBusy) w"
  unfolding cachedLookup_def wp_bind wp_get
  by (rule wp_loopE [where I = "\<lambda>_. True" and \<mu> = "roundsLeft LOOKUP_POLL_MS (now w + LOOKUP_WAIT_MS)"])
    (simp_all add: roundsLeft_fuel wp_lookupRound [OF assms])

text \<open>The cached document reads back as the value it was made of.\<close>

lemma repoOfJson_json: "ir_private r = False \<Longrightarrow> repoOfJson (jsonParse (stringify (repoJson (Some r)))) = Some r"
  and repoOfJson_none: "repoOfJson (jsonParse (stringify (repoJson None))) = None"
  and refOfJson_json: "refOfJson (jsonParse (stringify (refJson rr))) = rr"
proof -
  have parse: "jsonParse (stringify (repoJson x)) = Some (repoJson x)"
    "jsonParse (stringify (refJson rr)) = Some (refJson rr)" for x
    by (rule jsonParse_stringify, simp add: repoJson_def refJson_def optionJson_def split: option.splits)+
  show "ir_private r = False \<Longrightarrow> repoOfJson (jsonParse (stringify (repoJson (Some r)))) = Some r"
    unfolding parse by (cases r) (simp add: repoOfJson_def repoJson_def jget_def jnum_def jstr_def jtrue_def jbool_def)
  show "repoOfJson (jsonParse (stringify (repoJson None))) = None"
    unfolding parse by (simp add: repoOfJson_def repoJson_def jget_def jnum_def)
  show "refOfJson (jsonParse (stringify (refJson rr))) = rr"
    unfolding parse by (cases rr) (simp add: refOfJson_def refJson_def optionJson_def jget_def jstr_def split: option.splits)
qed

text \<open>While an answer is cached, GitHub is not asked.\<close>

lemma cachedLookup_hit:
  assumes "kvGet (kvT w) (lookupKey identity) (now w) = Some c"
  shows "cachedLookup pf env enc dec identity fetch w = (Inr (dec (jsonParse c)), w)"
  using assms by (simp add: cachedLookup_def act_defs loopFuel_def lookupRound_def kvGetE_def)

text \<open>An answer nobody had is kept for a minute, under its key.\<close>

lemma wp_cachedLookup_stored:
  assumes "kvGet (kvT w) (lookupKey identity) (now w) = None"
    and "kvGet (kvT w) (lookupKey identity @ '':lock'') (now w) = None"
    and "\<And>u. wp fetch (\<lambda>x _. P x) (\<lambda>_ _. True) u"
  shows "wp (cachedLookup pf env enc dec identity fetch)
     (\<lambda>x v. P x \<and> kvT v (lookupKey identity) = Some (stringify (enc x), Some (now v + 60000))) (\<lambda>_ _. True) w"
proof -
  let ?key = "lookupKey identity" and ?tok = "pf_uuid pf (tick w)"
  let ?Q = "\<lambda>x v. P x \<and> kvT v ?key = Some (stringify (enc x), Some (now v + 60000))"
  let ?w = "w\<lparr>tick := Suc (tick w), kvT := snd (kvSet (kvT w) (?key @ '':lock'') ?tok (Some 35000) True (now w))\<rparr>"
  have set: "snd (kvSet kv key v (Some d) False t) key = Some (v, Some (t + d))" for kv key v d t
    by (auto simp: kvSet_def Let_def split: option.splits)
  have del: "kvCompareDelete kv (k @ '':lock'') x k = kv k" for kv k x
    by (auto simp: kvCompareDelete_def split: option.splits)
  have miss: "kvGet (kvT ?w) ?key (now ?w) = None"
    using assms(1) sqlkv.put_frame [OF surjective_pairing, of "?key" "?key @ '':lock''"] by simp
  have fetch: "wp (fetchOnce enc dec ?key fetch) ?Q (\<lambda>_ _. True) ?w"
    unfolding fetchOnce_def wp_bind wp_kvGetE miss option.case
    by (rule wp_mono [OF assms(3)]) (simp_all add: wp_simps set)
  have "wp (withLock pf (?key @ '':lock'') 35000 (fetchOnce enc dec ?key fetch))
      (\<lambda>r v. case r of None \<Rightarrow> False | Some x \<Rightarrow> ?Q x v) (\<lambda>_ _. True) w"
    unfolding wp_withLock
    using assms(2) by (simp add: wp_simps) (rule wp_mono [OF fetch]; simp add: wp_simps del)
  then have "wp (lookupRound pf env enc dec ?key fetch d) (\<lambda>r v. case r of None \<Rightarrow> False | Some x \<Rightarrow> ?Q x v) (\<lambda>_ _. True) w" for d
    unfolding lookupRound_def wp_bind wp_kvGetE assms(1) option.case
    by (rule wp_mono) (auto simp: wp_simps split: option.splits)
  then show ?thesis
    unfolding cachedLookup_def loopFuel_def wp_bind wp_get roundsE.simps
    by (rule wp_mono) (auto simp: wp_simps split: option.splits)
qed

text \<open>What a repository lookup can throw, and that it answers public repositories only.\<close>

lemma wp_loadRepo: "wp (loadRepo pf gh own name) (\<lambda>r _. \<forall>x. r = Some x \<longrightarrow> \<not> ir_private x)
   (\<lambda>e _. e = ApiError 503 ''github_rate_limited''
     \<or> (\<exists>n x. gh_repo gh n own name = Inl x \<and> re_status x \<noteq> 404 \<and> e = re_error x)) w"
  by (auto simp: loadRepo_def ghCall_def publicGithubError_def wp_simps split: sum.splits prod.splits if_splits)

lemma wp_loadRepo': "wp (loadRepo pf gh own name) (\<lambda>_ _. True)
   (\<lambda>e _. e = ApiError 503 ''github_rate_limited''
     \<or> (\<exists>n x. gh_repo gh n own name = Inl x \<and> re_status x \<noteq> 404 \<and> e = re_error x)) w"
  by (rule wp_mono [OF wp_loadRepo]) auto

end
