(* ===== verification/Manifest.thy ===== *)
theory Manifest
  imports SettingsDocs Views GitHub
begin

text \<open>
  The document the supervisor fetches at boot (\<open>lib/manifest.ts\<close>), as the JSON it is sent as, and
  the schema of its contract (\<open>sandboxManifestSchema\<close> of \<open>lib/types.ts\<close>). The presigned URL of an
  archive, the origin of a URL and whether a text is a URL are parameters.
\<close>

section \<open>The document\<close>

definition jOpt :: "('a \<Rightarrow> json) \<Rightarrow> 'a option \<Rightarrow> json" where
  "jOpt f x = (case x of None \<Rightarrow> JNull | Some y \<Rightarrow> f y)"

definition jStrs :: "string list \<Rightarrow> json" where
  "jStrs xs = JArr (map JStr xs)"

fun visibilityText :: "portVisibility \<Rightarrow> string" where
  "visibilityText Private = ''private''"
| "visibilityText Public = ''public''"

definition forwardJson :: "forwardView \<Rightarrow> json" where
  "forwardJson f = JObj [(''port'', JNum (fv_port f)), (''visibility'', JStr (visibilityText (fv_visibility f))),
     (''label'', jOpt JStr (fv_label f)), (''url'', jOpt JStr (fv_url f)), (''slot'', jOpt JNum (fv_slot f))]"

definition LOGS :: json where
  "LOGS = JObj [(''flushIntervalSecs'', JNum 5), (''maxBatch'', JNum 200), (''maxBatchBytes'', JNum 262144)]"

definition ACTIVITY :: json where
  "ACTIVITY = JObj [(''intervalSecs'', JNum 30)]"

definition storedDoc :: "settingsDoc list \<Rightarrow> string \<Rightarrow> settingsKind \<Rightarrow> string option" where
  "storedDoc ds uid kind = map_option d_content (selectOne (docKey uid kind) ds)"

definition dotfilesBlock :: "string option \<Rightarrow> json" where
  "dotfilesBlock raw = (if \<not> truthy raw then JNull
     else let j = jsonParse (nullish raw []); url = jstr (jget j ''repoUrl'') in
       if truthy url then JObj [(''repoUrl'', JStr (nullish url [])),
         (''installCommand'', jOpt JStr (jstr (jget j ''installCommand'')))]
       else JNull)"

definition settingsBlock :: "string option \<Rightarrow> string option \<Rightarrow> json" where
  "settingsBlock settings keymap = (if settings = None \<and> keymap = None then JNull
     else JObj [(''settings'', JStr (nullish settings ''{}'')), (''keymap'', JStr (nullish keymap ''[]''))])"

definition jwtBlock :: "env \<Rightarrow> signingKeys \<Rightarrow> string \<Rightarrow> json" where
  "jwtBlock e keys aud = JObj [(''issuer'', JStr (ZS_JWT_ISSUER e)), (''audience'', JStr aud),
     (''portAudience'', JStr (portAudience aud)), (''publicKeys'', jStrs (publicKeyPems keys))]"

text \<open>\<open>presign\<close>: the store's time-limited URL of a pathname.\<close>

definition RESTORE_URL_TTL_MS :: int where "RESTORE_URL_TTL_MS = 3600000"

definition restoreBlock :: "(string \<Rightarrow> int \<Rightarrow> err + string) \<Rightarrow> workspace \<Rightarrow> err + json" where
  "restoreBlock presign ws =
     (if restoreKind ws \<noteq> Tarball \<or> \<not> truthy (restoreBlobPathname ws) then Inr JNull
      else let p = nullish (restoreBlobPathname ws) [] in
        (case presign p RESTORE_URL_TTL_MS of Inl e \<Rightarrow> Inl e
         | Inr url \<Rightarrow> Inr (JObj [(''tarballUrl'', JStr url), (''sha256'', jOpt JStr (sha256FromBlobPathname p))])))"

text \<open>The commit a revision or pull-request workspace is pinned to, else its branch.\<close>

definition manifestRevision :: "workspace \<Rightarrow> repo \<Rightarrow> string" where
  "manifestRevision ws r = (if gitRef ws \<noteq> None \<or> branch ws = None
     then nullish (revision ws) (r_defaultBranch r) else nullish (branch ws) (r_defaultBranch r))"

definition repoBlock :: "workspace \<Rightarrow> repo \<Rightarrow> string \<Rightarrow> json" where
  "repoBlock ws r url = JObj ([(''owner'', JStr (r_owner r)), (''name'', JStr (r_name r)), (''cloneUrl'', JStr url),
     (''defaultBranch'', JStr (r_defaultBranch r)), (''revision'', JStr (manifestRevision ws r)), (''depth'', JNum 0)]
     @ (if truthy (revision ws) then [(''commit'', JStr (nullish (revision ws) []))] else [])
     @ (if truthy (gitRef ws) then [(''ref'', JStr (nullish (gitRef ws) []))] else []))"

definition sessionBlock :: "env \<Rightarrow> workspace \<Rightarrow> json" where
  "sessionBlock e ws = (let startedAt = nullish (sessionStartedAt ws) (createdAt ws) in
     JObj [(''id'', JStr (nullish (currentSandboxSessionId ws) [])), (''startedAt'', JNum startedAt),
       (''capAt'', JNum (startedAt + ZS_SESSION_CAP_MS e)),
       (''resumed'', JBool (lastStoppedAt ws \<noteq> None \<and> restoreKind ws \<noteq> Tarball))])"

definition identityFields :: "workspace \<Rightarrow> (string \<times> json) list" where
  "identityFields ws =
     [(''version'', JNum 1), (''workspaceId'', JStr (ws_id ws)), (''sandboxName'', JStr (sandboxName ws)),
      (''sandboxGeneration'', JNum (sandboxGeneration ws)), (''userId'', JStr (ownerUserId ws)),
      (''build'', JStr (serverBuild ws)), (''clientBuild'', JStr (clientBuild ws)),
      (''region'', JStr (regionText (ws_region ws)))]"

definition projectFields :: "workspace \<Rightarrow> repo \<Rightarrow> string \<Rightarrow> json \<Rightarrow> settingsDoc list \<Rightarrow> (string \<times> json) list" where
  "projectFields ws r url restore ds =
     [(''repo'', repoBlock ws r url), (''workspaceDir'', JStr (workspaceDir r)), (''restore'', restore),
      (''dotfiles'', dotfilesBlock (storedDoc ds (ownerUserId ws) DotfilesDoc)),
      (''env'', JObj [(''ZS_WORKSPACE_ID'', JStr (ws_id ws)), (''ZS_REGION'', JStr (regionText (ws_region ws)))]),
      (''secretNames'', JArr [])]"

definition serviceFields :: "env \<Rightarrow> signingKeys \<Rightarrow> workspace \<Rightarrow> forward list \<Rightarrow> (string \<times> json) list" where
  "serviceFields e keys ws fs =
     [(''jwt'', jwtBlock e keys (audience ws)),
      (''forwards'', JArr (map (\<lambda>f. forwardJson (toForwardView f)) (forwardViews fs (ws_id ws)))),
      (''proxySlots'', JArr (map JNum proxySlots)), (''idle'', JObj [(''minutes'', JNum (idleMinutes ws))]),
      (''session'', sessionBlock e ws), (''devcontainer'', JNull)]"

definition shippedFields :: "workspace \<Rightarrow> settingsDoc list \<Rightarrow> string \<Rightarrow> (string \<times> json) list" where
  "shippedFields ws ds orig =
     [(''settings'', settingsBlock (storedDoc ds (ownerUserId ws) SettingsDoc) (storedDoc ds (ownerUserId ws) KeymapDoc)),
      (''logs'', LOGS), (''activity'', ACTIVITY), (''allowedOrigins'', jStrs [orig]),
      (''extensions'', jStrs (installedExtensions ws))]"

definition manifestJson ::
  "env \<Rightarrow> signingKeys \<Rightarrow> workspace \<Rightarrow> repo \<Rightarrow> string \<Rightarrow> json \<Rightarrow> string \<Rightarrow> settingsDoc list \<Rightarrow> forward list \<Rightarrow> json" where
  "manifestJson e keys ws r url restore orig ds fs = JObj (identityFields ws
     @ projectFields ws r url restore ds @ serviceFields e keys ws fs @ shippedFields ws ds orig)"

text \<open>\<open>new URL(controlApiBase()).origin\<close>; \<open>origin\<close> is \<open>None\<close> where the constructor throws.\<close>

definition controlPlaneUrl :: "(string \<Rightarrow> string option) \<Rightarrow> env \<Rightarrow> err + string" where
  "controlPlaneUrl origin e = (case controlApiBase e of Inl er \<Rightarrow> Inl er
     | Inr base \<Rightarrow> (case origin base of None \<Rightarrow> Inl (OtherError ''TypeError: Invalid URL'') | Some u \<Rightarrow> Inr u))"

definition workspaceManifest ::
  "platform \<Rightarrow> github \<Rightarrow> signingKeys \<Rightarrow> (string \<Rightarrow> int \<Rightarrow> err + string) \<Rightarrow> (string \<Rightarrow> string option) \<Rightarrow> workspace \<Rightarrow> json io" where
  "workspaceManifest pf gh keys presign origin ws =
     bindE (repoOf ws) (\<lambda>found. case found of
        None \<Rightarrow> throwE (OtherError (''Error: manifest: repo '' @ repoId ws @ '' is missing''))
      | Some r \<Rightarrow>
          bindE (getE docsT) (\<lambda>ds.
          bindE (getE forwardsT) (\<lambda>fs.
          bindE (ofSum (restoreBlock presign ws)) (\<lambda>restore.
          bindE (ofSum (cloneUrl (pf_env pf) gh (r_owner r) (r_name r))) (\<lambda>url.
          bindE (ofSum (controlPlaneUrl origin (pf_env pf))) (\<lambda>orig.
          retE (manifestJson (pf_env pf) keys ws r url restore orig ds fs)))))))"

text \<open>\<open>GET /api/sandboxes/{name}/manifest\<close>.\<close>

definition manifestGet ::
  "platform \<Rightarrow> github \<Rightarrow> signingKeys \<Rightarrow> (string \<Rightarrow> int \<Rightarrow> err + string) \<Rightarrow> (string \<Rightarrow> string option)
   \<Rightarrow> string option \<Rightarrow> string option \<Rightarrow> string \<Rightarrow> json io" where
  "manifestGet pf gh keys presign origin header clientIp name =
     bindE (requireSandboxParam pf header clientIp name LimSandboxManifest)
       (workspaceManifest pf gh keys presign origin)"

section \<open>Its contract\<close>

definition zLit :: "json \<Rightarrow> json \<Rightarrow> bool" where
  "zLit x j \<longleftrightarrow> j = x"

definition has :: "string \<Rightarrow> (json \<Rightarrow> bool) \<Rightarrow> json \<Rightarrow> bool" where
  "has k p j \<longleftrightarrow> (case jget (Some j) k of None \<Rightarrow> False | Some v \<Rightarrow> p v)"

definition mayHave :: "string \<Rightarrow> (json \<Rightarrow> bool) \<Rightarrow> json \<Rightarrow> bool" where
  "mayHave k p j \<longleftrightarrow> (case jget (Some j) k of None \<Rightarrow> True | Some v \<Rightarrow> p v)"

definition isStr :: "(string \<Rightarrow> bool) \<Rightarrow> json \<Rightarrow> bool" where
  "isStr p j \<longleftrightarrow> (case j of JStr s \<Rightarrow> p s | _ \<Rightarrow> False)"

definition isInt :: "(int \<Rightarrow> bool) \<Rightarrow> json \<Rightarrow> bool" where
  "isInt p j \<longleftrightarrow> (case zInt j of Some n \<Rightarrow> p n | None \<Rightarrow> False)"

definition orNull :: "(json \<Rightarrow> bool) \<Rightarrow> json \<Rightarrow> bool" where
  "orNull p j \<longleftrightarrow> j = JNull \<or> p j"

definition isArr :: "(json list \<Rightarrow> bool) \<Rightarrow> (json \<Rightarrow> bool) \<Rightarrow> json \<Rightarrow> bool" where
  "isArr c p j \<longleftrightarrow> (case j of JArr xs \<Rightarrow> c xs \<and> list_all p xs | _ \<Rightarrow> False)"

definition isNumber :: "json \<Rightarrow> bool" where
  "isNumber j \<longleftrightarrow> zNumber j \<noteq> None"

abbreviation "anyStr \<equiv> isStr (\<lambda>_. True)"
abbreviation "someStr \<equiv> isStr (\<lambda>s. s \<noteq> [])"
abbreviation "anyList \<equiv> (\<lambda>xs :: json list. True)"

definition forwardViewSchema :: "json \<Rightarrow> bool" where
  "forwardViewSchema j \<longleftrightarrow> has ''port'' (isInt (\<lambda>n. 1 \<le> n \<and> n \<le> 65535)) j
     \<and> has ''visibility'' (\<lambda>v. portVisibilitySchema v \<noteq> None) j \<and> has ''label'' (orNull anyStr) j
     \<and> has ''url'' (orNull anyStr) j \<and> has ''slot'' (orNull (isInt (\<lambda>_. True))) j"

definition repoSchema :: "(string \<Rightarrow> bool) \<Rightarrow> json \<Rightarrow> bool" where
  "repoSchema isUrl j \<longleftrightarrow> has ''owner'' someStr j \<and> has ''name'' someStr j \<and> has ''cloneUrl'' (isStr isUrl) j
     \<and> has ''defaultBranch'' someStr j \<and> has ''revision'' someStr j \<and> has ''depth'' (isInt (\<lambda>n. 0 \<le> n)) j
     \<and> mayHave ''commit'' (orNull (isStr (\<lambda>s. length s = 40 \<and> list_all lowerHex s))) j
     \<and> mayHave ''ref'' (orNull anyStr) j"

definition workspaceDirText :: "string \<Rightarrow> bool" where
  "workspaceDirText s \<longleftrightarrow> take 12 s = ''/workspaces/'' \<and> drop 12 s \<noteq> [] \<and> CHR ''/'' \<notin> set (drop 12 s)"

definition jwtSchema :: "json \<Rightarrow> bool" where
  "jwtSchema j \<longleftrightarrow> has ''issuer'' someStr j \<and> has ''audience'' someStr j \<and> has ''portAudience'' someStr j
     \<and> has ''publicKeys'' (isArr (\<lambda>xs. xs \<noteq> []) (isStr (\<lambda>s. hasPart s ''PUBLIC KEY''))) j"

definition sessionSchema :: "json \<Rightarrow> bool" where
  "sessionSchema j \<longleftrightarrow> has ''id'' anyStr j \<and> has ''startedAt'' isNumber j \<and> has ''capAt'' isNumber j
     \<and> has ''resumed'' (\<lambda>b. zBool b \<noteq> None) j"

definition envSchema :: "json \<Rightarrow> bool" where
  "envSchema j \<longleftrightarrow> (case j of JObj kvs \<Rightarrow> list_all (\<lambda>kv. anyStr (snd kv)) kvs | _ \<Rightarrow> False)"

definition logsSchema :: "json \<Rightarrow> bool" where
  "logsSchema j \<longleftrightarrow> has ''flushIntervalSecs'' (zLit (JNum 5)) j \<and> has ''maxBatch'' (zLit (JNum 200)) j
     \<and> has ''maxBatchBytes'' (zLit (JNum 262144)) j"

definition identitySchema :: "json \<Rightarrow> bool" where
  "identitySchema j \<longleftrightarrow> has ''version'' (zLit (JNum 1)) j \<and> has ''workspaceId'' someStr j
     \<and> has ''sandboxName'' (isStr SANDBOX_NAME_RE) j \<and> has ''sandboxGeneration'' (isInt (\<lambda>n. 1 \<le> n)) j
     \<and> has ''userId'' someStr j \<and> has ''build'' someStr j \<and> mayHave ''clientBuild'' someStr j
     \<and> has ''region'' (\<lambda>r. regionSchema r \<noteq> None) j"

definition contentSchema :: "(string \<Rightarrow> bool) \<Rightarrow> json \<Rightarrow> bool" where
  "contentSchema isUrl j \<longleftrightarrow> has ''repo'' (repoSchema isUrl) j \<and> has ''workspaceDir'' (isStr workspaceDirText) j
     \<and> has ''restore'' (orNull (\<lambda>r. has ''tarballUrl'' (isStr isUrl) r \<and> has ''sha256'' (orNull anyStr) r)) j
     \<and> has ''dotfiles'' (orNull (\<lambda>d. has ''repoUrl'' (isStr isUrl) d \<and> has ''installCommand'' (orNull anyStr) d)) j
     \<and> has ''env'' envSchema j \<and> has ''secretNames'' (isArr anyList anyStr) j
     \<and> has ''settings'' (orNull (\<lambda>d. has ''settings'' anyStr d \<and> has ''keymap'' anyStr d)) j
     \<and> has ''extensions'' (isArr anyList anyStr) j"

definition serviceSchema :: "(string \<Rightarrow> bool) \<Rightarrow> json \<Rightarrow> bool" where
  "serviceSchema isUrl j \<longleftrightarrow> has ''jwt'' jwtSchema j \<and> has ''forwards'' (isArr anyList forwardViewSchema) j
     \<and> has ''proxySlots'' (isArr (\<lambda>xs. length xs = 12) (isInt (\<lambda>_. True))) j
     \<and> has ''idle'' (has ''minutes'' (isInt (\<lambda>n. 0 \<le> n))) j \<and> has ''session'' sessionSchema j
     \<and> has ''devcontainer'' (zLit JNull) j \<and> has ''logs'' logsSchema j
     \<and> has ''activity'' (has ''intervalSecs'' (zLit (JNum 30))) j \<and> has ''allowedOrigins'' (isArr anyList (isStr isUrl)) j"

definition sandboxManifestSchema :: "(string \<Rightarrow> bool) \<Rightarrow> json \<Rightarrow> bool" where
  "sandboxManifestSchema isUrl j \<longleftrightarrow> identitySchema j \<and> contentSchema isUrl j \<and> serviceSchema isUrl j"

section \<open>Lemmas\<close>

named_theorems contract_simps \<open>reading a key of a document\<close>

lemma jget_obj [contract_simps]: "distinct (map fst kvs) \<Longrightarrow> jget (Some (JObj kvs)) k = map_of kvs k"
  using map_of_inject_set [of "rev kvs" kvs] by (simp add: jget_def rev_map [symmetric])

lemmas contract_defs = has_def mayHave_def isStr_def isInt_def orNull_def isArr_def isNumber_def zLit_def jOpt_def
  zInt_def zNumber_def

lemma regionSchema_text: "regionSchema (JStr (regionText r)) \<noteq> None"
  by (cases r) (simp_all add: regionSchema_def zEnum_def)

lemma forwardJson_ok:
  assumes "1 \<le> f_port f" and "f_port f \<le> 65535" and "\<And>s. f_slot f = Some s \<Longrightarrow> \<bar>s\<bar> \<le> MAX_SAFE_INTEGER"
  shows "forwardViewSchema (forwardJson (toForwardView f))"
  using assms
  by (cases "f_visibility f"; cases "f_label f"; cases "f_url f"; cases "f_slot f")
    (simp_all add: forwardViewSchema_def forwardJson_def toForwardView_def contract_simps contract_defs
      portVisibilitySchema_def zEnum_def MAX_SAFE_INTEGER_def)

text \<open>What a row the program wrote guarantees the manifest.\<close>

definition manifestRow :: "workspace \<Rightarrow> repo \<Rightarrow> bool" where
  "manifestRow ws r \<longleftrightarrow> ws_id ws \<noteq> [] \<and> SANDBOX_NAME_RE (sandboxName ws) \<and> 1 \<le> sandboxGeneration ws
     \<and> sandboxGeneration ws \<le> MAX_SAFE_INTEGER \<and> ownerUserId ws \<noteq> [] \<and> serverBuild ws \<noteq> [] \<and> clientBuild ws \<noteq> []
     \<and> audience ws \<noteq> [] \<and> 0 \<le> idleMinutes ws \<and> idleMinutes ws \<le> 240
     \<and> r_owner r \<noteq> [] \<and> githubName (r_name r) \<and> r_defaultBranch r \<noteq> [] \<and> branch ws \<noteq> Some []
     \<and> (\<forall>s. revision ws = Some s \<longrightarrow> length s = 40 \<and> list_all lowerHex s)"

lemma manifest_keys: "distinct (map fst (identityFields ws @ projectFields ws r url restore ds
     @ serviceFields e keys ws fs @ shippedFields ws ds orig))"
  by (simp add: identityFields_def projectFields_def serviceFields_def shippedFields_def)

lemma manifest_get: "(k, v) \<in> set (identityFields ws) \<union> set (projectFields ws r url restore ds)
      \<union> set (serviceFields e keys ws fs) \<union> set (shippedFields ws ds orig) \<Longrightarrow>
    jget (Some (manifestJson e keys ws r url restore orig ds fs)) k = Some v"
  unfolding manifestJson_def jget_obj [OF manifest_keys] by (rule map_of_is_SomeI [OF manifest_keys]) simp

lemma has_jget: "jget (Some j) k = Some v \<Longrightarrow> has k p j = p v"
  and mayHave_jget: "jget (Some j) k = Some v \<Longrightarrow> mayHave k p j = p v"
  by (simp_all add: has_def mayHave_def)

text \<open>Each field of the document.\<close>

lemma manifest_identity:
  shows "jget (Some (manifestJson e keys ws r url restore orig ds fs)) ''version'' = Some (JNum 1)"
  and "jget (Some (manifestJson e keys ws r url restore orig ds fs)) ''workspaceId'' = Some (JStr (ws_id ws))"
  and "jget (Some (manifestJson e keys ws r url restore orig ds fs)) ''sandboxName'' = Some (JStr (sandboxName ws))"
  and "jget (Some (manifestJson e keys ws r url restore orig ds fs)) ''sandboxGeneration'' = Some (JNum (sandboxGeneration ws))"
  and "jget (Some (manifestJson e keys ws r url restore orig ds fs)) ''userId'' = Some (JStr (ownerUserId ws))"
  and "jget (Some (manifestJson e keys ws r url restore orig ds fs)) ''build'' = Some (JStr (serverBuild ws))"
  and "jget (Some (manifestJson e keys ws r url restore orig ds fs)) ''clientBuild'' = Some (JStr (clientBuild ws))"
  and "jget (Some (manifestJson e keys ws r url restore orig ds fs)) ''region'' = Some (JStr (regionText (ws_region ws)))"
  by (rule manifest_get, simp add: identityFields_def)+

lemma manifest_project:
  shows "jget (Some (manifestJson e keys ws r url restore orig ds fs)) ''repo'' = Some (repoBlock ws r url)"
  and "jget (Some (manifestJson e keys ws r url restore orig ds fs)) ''workspaceDir'' = Some (JStr (workspaceDir r))"
  and "jget (Some (manifestJson e keys ws r url restore orig ds fs)) ''restore'' = Some (restore)"
  and "jget (Some (manifestJson e keys ws r url restore orig ds fs)) ''dotfiles'' = Some (dotfilesBlock (storedDoc ds (ownerUserId ws) DotfilesDoc))"
  and "jget (Some (manifestJson e keys ws r url restore orig ds fs)) ''env'' = Some (JObj [(''ZS_WORKSPACE_ID'', JStr (ws_id ws)), (''ZS_REGION'', JStr (regionText (ws_region ws)))])"
  and "jget (Some (manifestJson e keys ws r url restore orig ds fs)) ''secretNames'' = Some (JArr [])"
  by (rule manifest_get, simp add: projectFields_def)+

lemma manifest_service:
  shows "jget (Some (manifestJson e keys ws r url restore orig ds fs)) ''jwt'' = Some (jwtBlock e keys (audience ws))"
  and "jget (Some (manifestJson e keys ws r url restore orig ds fs)) ''forwards'' = Some (JArr (map (\<lambda>f. forwardJson (toForwardView f)) (forwardViews fs (ws_id ws))))"
  and "jget (Some (manifestJson e keys ws r url restore orig ds fs)) ''proxySlots'' = Some (JArr (map JNum proxySlots))"
  and "jget (Some (manifestJson e keys ws r url restore orig ds fs)) ''idle'' = Some (JObj [(''minutes'', JNum (idleMinutes ws))])"
  and "jget (Some (manifestJson e keys ws r url restore orig ds fs)) ''session'' = Some (sessionBlock e ws)"
  and "jget (Some (manifestJson e keys ws r url restore orig ds fs)) ''devcontainer'' = Some (JNull)"
  by (rule manifest_get, simp add: serviceFields_def)+

lemma manifest_shipped:
  shows "jget (Some (manifestJson e keys ws r url restore orig ds fs)) ''settings'' = Some (settingsBlock (storedDoc ds (ownerUserId ws) SettingsDoc) (storedDoc ds (ownerUserId ws) KeymapDoc))"
  and "jget (Some (manifestJson e keys ws r url restore orig ds fs)) ''logs'' = Some (LOGS)"
  and "jget (Some (manifestJson e keys ws r url restore orig ds fs)) ''activity'' = Some (ACTIVITY)"
  and "jget (Some (manifestJson e keys ws r url restore orig ds fs)) ''allowedOrigins'' = Some (jStrs [orig])"
  and "jget (Some (manifestJson e keys ws r url restore orig ds fs)) ''extensions'' = Some (jStrs (installedExtensions ws))"
  by (rule manifest_get, simp add: shippedFields_def)+

lemmas manifest_fields = manifest_identity manifest_project manifest_service manifest_shipped

lemmas manifest_has = manifest_fields [THEN has_jget] manifest_fields [THEN mayHave_jget]

lemma identity_ok: "manifestRow ws r \<Longrightarrow> identitySchema (manifestJson e keys ws r url restore orig ds fs)"
  using regionSchema_text [of "ws_region ws"]
  unfolding identitySchema_def manifest_has
  by (simp add: zLit_def isStr_def isInt_def zInt_def manifestRow_def)

lemma noSlash_name: "githubName s \<Longrightarrow> s \<noteq> [] \<and> CHR ''/'' \<notin> set s"
proof -
  assume s: "githubName s"
  have no: "\<not> (isLetter CHR ''/'' \<or> isDigit CHR ''/'' \<or> CHR ''/'' = CHR ''_'' \<or> CHR ''/'' = CHR ''.'' \<or> CHR ''/'' = CHR ''-'')"
    by (simp add: isLetter_def isDigit_def)
  have "list_all (\<lambda>c. isLetter c \<or> isDigit c \<or> c = CHR ''_'' \<or> c = CHR ''.'' \<or> c = CHR ''-'') s"
    using s unfolding githubName_def by blast
  then have "CHR ''/'' \<notin> set s" using no unfolding list_all_iff by blast
  then show ?thesis using s unfolding githubName_def by blast
qed

lemma repoBlock_ok:
  assumes "manifestRow ws r" and "isUrl url"
  shows "repoSchema isUrl (repoBlock ws r url)"
proof -
  have rev: "manifestRevision ws r \<noteq> []"
    using assms by (auto simp: manifestRevision_def manifestRow_def nullish_def split: option.splits)
  have name: "r_name r \<noteq> []" using assms noSlash_name by (auto simp: manifestRow_def)
  show ?thesis
    using assms rev name
    by (cases "truthy (revision ws)"; cases "truthy (gitRef ws)"; cases "revision ws")
      (simp_all add: repoSchema_def repoBlock_def contract_simps contract_defs manifestRow_def MAX_SAFE_INTEGER_def)
qed

definition restoreShape :: "(string \<Rightarrow> bool) \<Rightarrow> json \<Rightarrow> bool" where
  "restoreShape isUrl j \<longleftrightarrow> orNull (\<lambda>r. has ''tarballUrl'' (isStr isUrl) r \<and> has ''sha256'' (orNull anyStr) r) j"

lemma restoreBlock_ok:
  assumes "\<And>p t url. presign p t = Inr url \<Longrightarrow> isUrl url" and "restoreBlock presign ws = Inr j"
  shows "restoreShape isUrl j"
  using assms
  by (auto simp: restoreBlock_def restoreShape_def Let_def contract_simps contract_defs split: if_splits sum.splits option.splits)

lemma dotfilesBlock_ok:
  assumes "\<And>u. jstr (jget (jsonParse (nullish raw [])) ''repoUrl'') = Some u \<Longrightarrow> u \<noteq> [] \<Longrightarrow> isUrl u"
  shows "orNull (\<lambda>d. has ''repoUrl'' (isStr isUrl) d \<and> has ''installCommand'' (orNull anyStr) d) (dotfilesBlock raw)"
  using assms
  by (auto simp: dotfilesBlock_def Let_def contract_simps contract_defs truthy_def nullish_def split: option.splits)

lemma settingsBlock_ok:
  "orNull (\<lambda>d. has ''settings'' anyStr d \<and> has ''keymap'' anyStr d) (settingsBlock s k)"
  by (simp add: settingsBlock_def contract_simps contract_defs)

lemma content_ok:
  assumes "manifestRow ws r" and "isUrl url" and "restoreShape isUrl restore"
    and "\<And>u. jstr (jget (jsonParse (nullish (storedDoc ds (ownerUserId ws) DotfilesDoc) [])) ''repoUrl'') = Some u
      \<Longrightarrow> u \<noteq> [] \<Longrightarrow> isUrl u"
  shows "contentSchema isUrl (manifestJson e keys ws r url restore orig ds fs)"
proof -
  have dir: "workspaceDirText (workspaceDir r)"
    using assms(1) noSlash_name by (auto simp: workspaceDirText_def workspaceDir_def manifestRow_def)
  have ext: "list_all anyStr (map JStr xs)" for xs by (simp add: list_all_iff isStr_def)
  show ?thesis
    using repoBlock_ok [where isUrl = isUrl, OF assms(1,2)] assms(3) dotfilesBlock_ok [OF assms(4)] settingsBlock_ok dir ext
    unfolding restoreShape_def
    unfolding contentSchema_def manifest_has isStr_def [of workspaceDirText]
    by (simp add: envSchema_def isArr_def jStrs_def) (simp add: isStr_def)
qed

lemma service_ok:
  assumes "manifestRow ws r" and "isUrl orig" and "ZS_JWT_ISSUER e \<noteq> []"
    and "\<And>k. k \<in> set (publicKeyPems keys) \<Longrightarrow> hasPart k ''PUBLIC KEY''"
    and "\<And>f. f \<in> set fs \<Longrightarrow> 1 \<le> f_port f \<and> f_port f \<le> 65535 \<and> (\<forall>s. f_slot f = Some s \<longrightarrow> \<bar>s\<bar> \<le> MAX_SAFE_INTEGER)"
  shows "serviceSchema isUrl (manifestJson e keys ws r url restore orig ds fs)"
proof -
  have keys: "publicKeyPems keys \<noteq> []" by (simp add: publicKeyPems_def)
  have pem: "list_all (isStr (\<lambda>s. hasPart s ''PUBLIC KEY'')) (map JStr (publicKeyPems keys))"
    using assms(4) by (simp add: list_all_iff isStr_def)
  have aud: "portAudience (audience ws) \<noteq> []" by (simp add: portAudience_def)
  have jwt: "jwtSchema (jwtBlock e keys (audience ws))"
    using assms(1,3) keys pem aud
    by (simp add: jwtSchema_def jwtBlock_def contract_simps has_def isArr_def jStrs_def) (simp add: isStr_def manifestRow_def)
  have fwd: "list_all forwardViewSchema (map (\<lambda>f. forwardJson (toForwardView f)) (forwardViews fs (ws_id ws)))"
    using assms(5) by (auto simp: list_all_iff forwardViews_def intro!: forwardJson_ok)
  have slots: "list_all (isInt (\<lambda>_. True)) (map JNum proxySlots)"
    by (simp add: proxySlots_def contract_defs MAX_SAFE_INTEGER_def)
  have session: "sessionSchema (sessionBlock e ws)"
    by (simp add: sessionSchema_def sessionBlock_def Let_def contract_simps contract_defs zBool_def)
  have logs: "logsSchema LOGS" by (simp add: logsSchema_def LOGS_def contract_simps contract_defs)
  show ?thesis
    using jwt fwd slots session logs assms(1,2)
    unfolding serviceSchema_def manifest_has
    by (simp add: isArr_def jStrs_def zLit_def ACTIVITY_def has_def contract_simps)
      (simp add: isStr_def isInt_def zInt_def manifestRow_def MAX_SAFE_INTEGER_def)
qed

text \<open>What the manifest takes from outside the row: URLs, keys, the user's dotfiles and the forwards.\<close>

definition manifestSources ::
  "(string \<Rightarrow> bool) \<Rightarrow> platform \<Rightarrow> github \<Rightarrow> signingKeys \<Rightarrow> (string \<Rightarrow> int \<Rightarrow> err + string) \<Rightarrow> (string \<Rightarrow> string option)
   \<Rightarrow> workspace \<Rightarrow> repo \<Rightarrow> world \<Rightarrow> bool" where
  "manifestSources isUrl pf gh keys presign origin ws r w \<longleftrightarrow>
     (\<forall>p t u. presign p t = Inr u \<longrightarrow> isUrl u) \<and> (\<forall>b u. origin b = Some u \<longrightarrow> isUrl u)
     \<and> (\<forall>u. cloneUrl (pf_env pf) gh (r_owner r) (r_name r) = Inr u \<longrightarrow> isUrl u)
     \<and> ZS_JWT_ISSUER (pf_env pf) \<noteq> [] \<and> (\<forall>k \<in> set (publicKeyPems keys). hasPart k ''PUBLIC KEY'')
     \<and> (\<forall>u. df_repoUrl (parseDotfiles (nullish (storedDoc (docsT w) (ownerUserId ws) DotfilesDoc) [])) = Some u
          \<longrightarrow> u \<noteq> [] \<longrightarrow> isUrl u)
     \<and> (\<forall>f \<in> set (forwardsT w). 1 \<le> f_port f \<and> f_port f \<le> 65535 \<and> (\<forall>s. f_slot f = Some s \<longrightarrow> \<bar>s\<bar> \<le> MAX_SAFE_INTEGER))"

lemma wp_workspaceManifest:
  assumes found: "selectOne (\<lambda>r. r_id r = repoId ws) (reposT w) = Some r" and row: "manifestRow ws r"
    and src: "manifestSources isUrl pf gh keys presign origin ws r w"
  shows "wp (workspaceManifest pf gh keys presign origin ws)
     (\<lambda>j v. v = w \<and> sandboxManifestSchema isUrl j) (\<lambda>_ v. v = w) w"
proof -
  have ok: "sandboxManifestSchema isUrl (manifestJson (pf_env pf) keys ws r url restore orig (docsT w) (forwardsT w))"
    if "restoreBlock presign ws = Inr restore" "cloneUrl (pf_env pf) gh (r_owner r) (r_name r) = Inr url" "isUrl orig"
    for restore url orig
    unfolding sandboxManifestSchema_def
  proof (intro conjI)
    show "identitySchema (manifestJson (pf_env pf) keys ws r url restore orig (docsT w) (forwardsT w))"
      by (rule identity_ok [OF row])
    show "contentSchema isUrl (manifestJson (pf_env pf) keys ws r url restore orig (docsT w) (forwardsT w))"
    proof (rule content_ok [where isUrl = isUrl, OF row])
      show "isUrl url" using src that(2) unfolding manifestSources_def by blast
      show "restoreShape isUrl restore"
        by (rule restoreBlock_ok [where isUrl = isUrl, OF _ that(1)]) (use src in \<open>unfold manifestSources_def, blast\<close>)
    qed (use src in \<open>simp add: manifestSources_def parseDotfiles_def Let_def\<close>)
    show "serviceSchema isUrl (manifestJson (pf_env pf) keys ws r url restore orig (docsT w) (forwardsT w))"
      using src unfolding manifestSources_def by (intro service_ok [where isUrl = isUrl, OF row that(3)]) blast+
  qed
  have orig: "isUrl o'" if "controlPlaneUrl origin (pf_env pf) = Inr o'" for o'
    using that src unfolding controlPlaneUrl_def manifestSources_def
    by (auto split: sum.splits option.splits)
  show ?thesis
    unfolding workspaceManifest_def repoOf_def wp_bind wp_get found option.case wp_ofSum
    by (auto simp: wp_ret ok orig split: sum.splits)
qed

end
