(* ===== verification/CreateWorkspace.thy ===== *)
theory CreateWorkspace
  imports Views GitHub
begin

text \<open>
  Creating a workspace (\<open>lib/create-workspace.ts\<close>) from a public repository (\<open>lib/repos.ts\<close>), and
  the routes that do so: \<open>/api/workspaces\<close>, \<open>/api/workshops\<close>, \<open>/api/repos\<close>. The region nearest
  to the caller is a parameter; the row of the GitHub installation, a foreign-key anchor nothing
  reads, is not kept, nor are the audit rows.
\<close>

section \<open>Repositories\<close>

definition PUBLIC_INSTALLATION_ID :: int where "PUBLIC_INSTALLATION_ID = 0"

text \<open>\<open>INSERT INTO repos \<dots> ON CONFLICT (github_repo_id) DO UPDATE SET fields\<close>.\<close>

definition setRepo :: "int \<Rightarrow> installationRepo \<Rightarrow> repo \<Rightarrow> repo" where
  "setRepo src meta r = r\<lparr>r_installationId := src, r_githubRepoId := ir_id meta, r_owner := ir_owner meta,
     r_name := ir_name meta, r_defaultBranch := ir_defaultBranch meta, r_private := False\<rparr>"

definition newRepo :: "string \<Rightarrow> repo" where
  "newRepo i = \<lparr>r_id = i, r_installationId = 0, r_githubRepoId = 0, r_owner = [], r_name = [],
     r_defaultBranch = [], r_private = True, r_defaultMachine = Vcpu2, r_idleMinutes = None\<rparr>"

definition upsertRepo :: "string \<Rightarrow> int \<Rightarrow> installationRepo \<Rightarrow> repo list \<Rightarrow> repo list" where
  "upsertRepo i src meta rs =
     (if list_ex (\<lambda>r. r_githubRepoId r = ir_id meta) rs
      then updateWhere (\<lambda>r. r_githubRepoId r = ir_id meta) (setRepo src meta) rs
      else rs @ [setRepo src meta (newRepo i)])"

text \<open>The unique index on owner and name, against another repository of that name.\<close>

definition repoClashes :: "installationRepo \<Rightarrow> repo \<Rightarrow> bool" where
  "repoClashes meta r \<longleftrightarrow> r_githubRepoId r \<noteq> ir_id meta \<and> r_owner r = ir_owner meta \<and> r_name r = ir_name meta"

definition storeRepo :: "platform \<Rightarrow> int \<Rightarrow> installationRepo \<Rightarrow> repo io" where
  "storeRepo pf src m =
     bindE (randomBytes pf) (\<lambda>bytes.
     bindE (getE (\<lambda>w. list_ex (repoClashes m) (reposT w))) (\<lambda>clash.
     if clash then throwE uniqueViolation
     else thenE (modE (\<lambda>w. w\<lparr>reposT := upsertRepo (newId PreRepo bytes) src m (reposT w)\<rparr>))
       (bindE (getE (\<lambda>w. selectOne (\<lambda>r. r_githubRepoId r = ir_id m) (reposT w))) (\<lambda>row. case row of
          None \<Rightarrow> throwE (OtherError ''no row'')
        | Some r \<Rightarrow> retE r))))"

definition registerRepo ::
  "platform \<Rightarrow> (world \<Rightarrow> world) \<Rightarrow> github \<Rightarrow> int option \<Rightarrow> string \<Rightarrow> string \<Rightarrow> repo io" where
  "registerRepo pf env gh installationId own name =
     (let src = (if own = ''local'' then nullish installationId 1 else PUBLIC_INSTALLATION_ID) in
      bindE (fetchRepo pf env gh own name) (\<lambda>meta. case meta of
        None \<Rightarrow> throwE (ApiError 404 ''repo_not_found'')
      | Some m \<Rightarrow>
          if ir_private m then throwE (ApiError 404 ''repo_not_found'')
          else storeRepo pf src m))"

section \<open>Workspaces\<close>

text \<open>A live workspace the viewer already has for this prepared link.\<close>

definition workshopMatch :: "string \<Rightarrow> string \<Rightarrow> workspace \<Rightarrow> bool" where
  "workshopMatch uid key r \<longleftrightarrow> ownerUserId r = uid \<and> workshopKey r = Some key \<and> deletedAt r = None"

text \<open>
  The unique indexes an inserted row can violate: its id, its sandbox name, and one live
  workspace per owner and workshop key.
\<close>

definition insertClashes :: "workspace \<Rightarrow> workspace \<Rightarrow> bool" where
  "insertClashes row r \<longleftrightarrow> ws_id r = ws_id row \<or> sandboxName r = sandboxName row
     \<or> (workshopKey row \<noteq> None \<and> workshopKey r = workshopKey row \<and> ownerUserId r = ownerUserId row
        \<and> deletedAt r = None)"

definition insertWorkspace :: "workspace \<Rightarrow> unit io" where
  "insertWorkspace row = bindE (getE workspacesT) (\<lambda>rows.
     if list_ex (insertClashes row) rows then throwE uniqueViolation
     else modE (\<lambda>w. w\<lparr>workspacesT := workspacesT w @ [row]\<rparr>))"

text \<open>The row as the columns given and the defaults of the table make it.\<close>

definition newWorkspaceRow ::
  "string \<Rightarrow> string \<Rightarrow> user \<Rightarrow> repo \<Rightarrow> createWorkspaceInput \<Rightarrow> string option \<Rightarrow> resolvedRef \<Rightarrow> machineType
   \<Rightarrow> region \<Rightarrow> editorRelease \<Rightarrow> int \<Rightarrow> int \<Rightarrow> workspace" where
  "newWorkspaceRow i sandbox u rp input key ref mach near release idle t =
     \<lparr>ws_id = i, ownerUserId = u_id u, repoId = r_id rp, ws_name = nullish (cw_name input) (r_name rp),
      branch = rr_branch ref, workshopKey = key, revision = Some (rr_sha ref), gitRef = rr_gitRef ref,
      pullRequest = (case cw_ref input of Some (RefPullRequest n) \<Rightarrow> Some n | _ \<Rightarrow> None),
      machine = mach, ws_region = nullish (cw_region input) near, sandboxName = sandbox,
      previousSandboxName = None, sandboxGeneration = 1, imageRef = er_imageRef release,
      serverBuild = er_serverBuild release, clientBuild = er_clientBuild release, restoreKind = Fresh,
      restoreBlobPathname = None, ws_state = Creating, stateReason = Some ''boot:manifest'',
      audience = sandbox, sandboxTokenHash = None, sandboxTokenGeneration = 0, supervisorCmdId = None,
      currentWsHost = None, currentSlotHosts = None, currentHealthHost = None,
      currentSandboxSessionId = None, sessionStartedAt = None, sandboxExpiresAt = None,
      snapshotSizeBytes = None, workflowRunId = None, workflowRunStartedAt = None, lastActiveAt = t,
      idleMinutes = idle, installedExtensions = [], retentionUntil = None, retentionWarnedAt = None,
      createdAt = t, updatedAt = t, lastStoppedAt = None, deletedAt = None\<rparr>"

text \<open>The transaction: the existing workspace again, the budget, the insert.\<close>

definition insertOrExisting :: "platform \<Rightarrow> string \<Rightarrow> string option \<Rightarrow> (int \<Rightarrow> workspace) \<Rightarrow> workspace io" where
  "insertOrExisting pf uid key mk = txnE
     (bindE (getE (\<lambda>w. case key of None \<Rightarrow> None | Some k \<Rightarrow>
        if k = [] then None else selectOne (workshopMatch uid k) (workspacesT w))) (\<lambda>existing. case existing of
        Some r \<Rightarrow> retE r
      | None \<Rightarrow>
          thenE (assertWorkspaceCapacity pf None)
          (bindE (getE now) (\<lambda>t. thenE (insertWorkspace (mk t)) (retE (mk t))))))"

definition createOutcome :: "platform \<Rightarrow> workspace \<Rightarrow> string option \<Rightarrow> (workspaceView \<times> string option) io" where
  "createOutcome pf ws runId = bindE (workspaceViewE pf ws) (\<lambda>view. retE (view, runId))"

definition insertAndStart ::
  "platform \<Rightarrow> viewer \<Rightarrow> user \<Rightarrow> repo \<Rightarrow> createWorkspaceInput \<Rightarrow> string option \<Rightarrow> resolvedRef \<Rightarrow> machineType
   \<Rightarrow> region \<Rightarrow> (workspaceView \<times> string option) io" where
  "insertAndStart pf v u rp input key ref mach near =
     bindE (ofSum (currentRelease (pf_env pf))) (\<lambda>release.
     bindE (randomBytes pf) (\<lambda>bytes.
     let i = newId PreWs bytes; sandbox = newSandboxName (VERCEL_ENV (pf_env pf)) i 1;
         asked = (case cw_idleMinutes input of Some m \<Rightarrow> m | None \<Rightarrow> nullish (r_idleMinutes rp) (u_idleMinutesDefault u));
         idle = idleMinutesFor (pf_env pf) (Some asked) in
     bindE (insertOrExisting pf (u_id u) key (newWorkspaceRow i sandbox u rp input key ref mach near release idle)) (\<lambda>ws.
     if ws_id ws \<noteq> i then createOutcome pf ws (workflowRunId ws)
     else bindE (startLifecycle pf i (CreateWorkspaceRun i (v_userId v) False)) (\<lambda>runId.
       createOutcome pf ws (Some runId)))))"

definition repoFor ::
  "platform \<Rightarrow> (world \<Rightarrow> world) \<Rightarrow> github \<Rightarrow> repoInput \<Rightarrow> repo option io" where
  "repoFor pf env gh rp = (case rp of
      RepoById i \<Rightarrow> getE (\<lambda>w. selectOne (\<lambda>r. r_id r = i) (reposT w))
    | RepoNamed inst own name \<Rightarrow> bindE (registerRepo pf env gh inst own name) (\<lambda>r. retE (Some r)))"

definition createFresh ::
  "platform \<Rightarrow> (world \<Rightarrow> world) \<Rightarrow> github \<Rightarrow> region \<Rightarrow> viewer \<Rightarrow> user \<Rightarrow> createWorkspaceInput \<Rightarrow> string option
   \<Rightarrow> (workspaceView \<times> string option) io" where
  "createFresh pf env gh near v u input key =
     bindE (repoFor pf env gh (cw_repo input)) (\<lambda>found. case found of
        None \<Rightarrow> throwE (ApiError 404 ''repo_not_found'')
      | Some rp \<Rightarrow>
          if r_private rp then throwE (ApiError 404 ''repo_not_found'')
          else let mach = nullish (cw_machine input) (r_defaultMachine rp) in
          if mach = Vcpu32 then throwE (ApiError 400 ''invalid_machine'')
          else bindE (resolveRef pf env gh (r_owner rp) (r_name rp)
                  (nullish (cw_ref input) (RefBranch (r_defaultBranch rp)))) (\<lambda>ref.
            insertAndStart pf v u rp input key ref mach near))"

definition createPublicWorkspace ::
  "platform \<Rightarrow> (world \<Rightarrow> world) \<Rightarrow> github \<Rightarrow> region \<Rightarrow> viewer \<Rightarrow> createWorkspaceInput \<Rightarrow> string option
   \<Rightarrow> (workspaceView \<times> string option) io" where
  "createPublicWorkspace pf env gh near v input key =
     thenE (assertNotFlagged v)
     (thenE (limit LimUserCreate (v_userId v))
     (bindE (ensureUser v) (\<lambda>u.
      bindE (getE (\<lambda>w. case key of None \<Rightarrow> None | Some k \<Rightarrow>
        if k = [] then None else selectOne (workshopMatch (u_id u) k) (workspacesT w))) (\<lambda>existing. case existing of
        Some r \<Rightarrow> createOutcome pf r (workflowRunId r)
      | None \<Rightarrow> createFresh pf env gh near v u input key))))"

section \<open>Routes\<close>

definition workspacesGet :: "platform \<Rightarrow> string option \<Rightarrow> workspaceView list io" where
  "workspacesGet pf sessionUser =
     bindE (requireViewer sessionUser) (\<lambda>v.
     bindE (getE (visibleWorkspaces (v_userId v))) (\<lambda>rows. workspaceViews pf rows))"

text \<open>\<open>reply\<close> is \<open>accepted\<close> of the JSON the outcome serialises to.\<close>

definition workspacesPost ::
  "platform \<Rightarrow> (world \<Rightarrow> world) \<Rightarrow> github \<Rightarrow> region \<Rightarrow> (workspaceView \<times> string option \<Rightarrow> json) \<Rightarrow> string option
   \<Rightarrow> request \<Rightarrow> (response \<times> bool) io" where
  "workspacesPost pf env gh near toJson sessionUser req =
     bindE (requireViewer sessionUser) (\<lambda>v.
     idempotent encCached decCached (rq_header req ''idempotency-key'') (v_userId v)
       (bindE (ofSum (parseBody req createWorkspaceSchema None)) (\<lambda>input.
        bindE (createPublicWorkspace pf env gh near v input None) (\<lambda>out. retE (accepted (toJson out))))))"

definition workshopsPost ::
  "platform \<Rightarrow> (world \<Rightarrow> world) \<Rightarrow> github \<Rightarrow> region \<Rightarrow> string option \<Rightarrow> request
   \<Rightarrow> (workspaceView \<times> string option) io" where
  "workshopsPost pf env gh near sessionUser req =
     bindE (requireViewer sessionUser) (\<lambda>v.
     bindE (ofSum (parseBody req workshopSchema None)) (\<lambda>ws.
     createPublicWorkspace pf env gh near v (workspaceInput ws) (Some (workshopKeyOf ws))))"

definition reposGet :: "string option \<Rightarrow> repoView list io" where
  "reposGet sessionUser =
     bindE (requireViewer sessionUser) (\<lambda>v.
     thenE (limit LimUserRepos (v_userId v)) (getE (visibleRepos (v_userId v))))"

definition repoBodySchema :: "json \<Rightarrow> (string \<times> string) option" where
  "repoBodySchema j = (case (zKey ''owner'' (zMatch githubOwner) j, zKey ''name'' (zMatch githubName) j) of
     (Some own, Some nm) \<Rightarrow> Some (own, nm) | _ \<Rightarrow> None)"

definition reposPost ::
  "platform \<Rightarrow> (world \<Rightarrow> world) \<Rightarrow> github \<Rightarrow> string option \<Rightarrow> request \<Rightarrow> repoView io" where
  "reposPost pf env gh sessionUser req =
     bindE (requireViewer sessionUser) (\<lambda>v.
     thenE (assertNotFlagged v)
     (thenE (limit LimUserRepos (v_userId v))
     (bindE (ofSum (parseBody req repoBodySchema None)) (\<lambda>(own, nm).
      bindE (registerRepo pf env gh None own nm) (\<lambda>r. retE (toRepoView r))))))"

section \<open>Lemmas\<close>

subsection \<open>The instance stays within its budget\<close>

text \<open>The rows the program may run at once, with ids that are their keys.\<close>

definition budgeted :: "platform \<Rightarrow> world \<Rightarrow> bool" where
  "budgeted pf w \<longleftrightarrow> inUse w \<le> ZS_MAX_RUNNING_WORKSPACES (pf_env pf) \<and> distinct (map ws_id (workspacesT w))"

text \<open>A property of the world that only reads the workspaces.\<close>

definition ofRows :: "(world \<Rightarrow> bool) \<Rightarrow> bool" where
  "ofRows I \<longleftrightarrow> (\<forall>w v. workspacesT v = workspacesT w \<longrightarrow> I w \<longrightarrow> I v)"

lemma ofRowsD: "ofRows I \<Longrightarrow> I w \<Longrightarrow> workspacesT v = workspacesT w \<Longrightarrow> I v"
  by (simp add: ofRows_def)

lemma ofRows_budgeted: "ofRows (budgeted pf)"
  by (simp add: ofRows_def budgeted_def inUse_def)

text \<open>
  Everything a creation does beside its insert and the start of its run leaves the workspaces
  alone, so it keeps every such property; what other requests do meanwhile has to keep it too.
\<close>

locale row_invariant =
  fixes I :: "world \<Rightarrow> bool"
  assumes rows: "ofRows I"
begin

lemma keeps_still: "(\<And>w. workspacesT (snd (m w)) = workspacesT w) \<Longrightarrow> keeps m I"
  using ofRowsD [OF rows] unfolding keeps_def wp_def by (auto split: prod.splits sum.splits) (metis snd_conv)+

lemma keeps_kvGet: "keeps (kvGetE k) I"
  and keeps_kvSet: "keeps (kvSetE k v ex nx) I"
  and keeps_kvDel: "keeps (kvDelE k) I"
  and keeps_kvCompareDelete: "keeps (kvCompareDeleteE k v) I"
  and keeps_bytes: "keeps (randomBytes pf) I"
  and keeps_uuid: "keeps (randomUUID pf) I"
  and keeps_outside: "keeps (ext pf ev f) I"
  by (rule keeps_still, simp add: kvGetE_def kvSetE_def kvDelE_def kvCompareDeleteE_def randomBytes_def
      randomUUID_def ext_def act_defs split: prod.splits)+

lemma keeps_limit: "keeps (limit name subj) I"
  unfolding limit_def by (intro keeps_shape keeps_mod) (erule ofRowsD [OF rows], simp)

lemma keeps_finally: "keeps m I \<Longrightarrow> keeps f I \<Longrightarrow> keeps (finallyE m f) I"
  unfolding keeps_def wp_finally by (blast intro: wp_mono)

lemma keeps_withLock: "keeps fn I \<Longrightarrow> keeps (withLock pf key ttl fn) I"
  unfolding withLock_def
  by (intro keeps_bind keeps_uuid keeps_kvSet keeps_if keeps_ret keeps_finally keeps_kvCompareDelete)

lemma keeps_ofSum: "keeps (ofSum r) I"
  by (cases r) (auto simp: ofSum_def)

lemma keeps_cachedLookup:
  assumes "\<And>w. I w \<Longrightarrow> I (env w)" and "keeps fetch I"
  shows "keeps (cachedLookup pf env enc dec identity fetch) I"
proof -
  have "I (w\<lparr>now := t\<rparr>)" if "I w" for w t
    using that by (rule ofRowsD [OF rows]) simp
  then show ?thesis
    using assms unfolding cachedLookup_def lookupRound_def fetchOnce_def
    by (intro keeps_shape keeps_loopE keeps_kvGet keeps_kvSet keeps_withLock keeps_mod) auto
qed

lemma keeps_ghCall: "keeps (ghCall what pf f) I"
  by (simp add: ghCall_def keeps_outside)

lemma keeps_fetchRepo: "(\<And>w. I w \<Longrightarrow> I (env w)) \<Longrightarrow> keeps (fetchRepo pf env gh own name) I"
  unfolding fetchRepo_def loadRepo_def
  by (intro keeps_if keeps_ofSum keeps_cachedLookup keeps_bind keeps_ghCall keeps_sum keeps_prod keeps_ret keeps_throw)
    assumption

lemma keeps_resolveRef:
  assumes "\<And>w. I w \<Longrightarrow> I (env w)"
  shows "keeps (resolveRef pf env gh own name ref) I"
proof -
  have "keeps (loadRef pf gh own name ref) I"
    unfolding loadRef_def ghOrThrow_def
    by (cases ref) (auto intro!: keeps_shape keeps_ghCall)
  then show ?thesis
    unfolding resolveRef_def using assms by (intro keeps_if keeps_ofSum keeps_cachedLookup)
qed

lemma keeps_repoFor:
  assumes "\<And>w. I w \<Longrightarrow> I (env w)"
  shows "keeps (repoFor pf env gh rp) I"
proof -
  have "keeps (storeRepo pf src m) I" for src m
    unfolding storeRepo_def
    by (intro keeps_shape keeps_bytes keeps_mod) (erule ofRowsD [OF rows], simp)
  then have "keeps (registerRepo pf env gh inst own name) I" for inst own name
    unfolding registerRepo_def Let_def by (intro keeps_shape keeps_fetchRepo assms)
  then show ?thesis
    by (cases rp) (auto simp: repoFor_def intro!: keeps_bind)
qed

lemma keeps_outcome: "keeps (createOutcome pf ws runId) I"
  unfolding createOutcome_def workspaceViewE_def workspaceViews_def
  by (intro keeps_shape keeps_ofSum)

end

interpretation budget_rows: row_invariant "budgeted pf" for pf
  by unfold_locales (rule ofRows_budgeted)

lemma budgeted_start:
  assumes "i \<noteq> []" and "budgeted pf w"
  shows "wp (startLifecycle pf i (CreateWorkspaceRun i u c)) (\<lambda>_. budgeted pf) (\<lambda>_. budgeted pf) w"
proof -
  have ids: "map ws_id (updateWhere p (setRun a b) rs) = map ws_id rs" for p a b rs
    by (rule map_updateWhere_key) (simp add: setRun_def)
  have "wp (startLifecycle pf i (CreateWorkspaceRun i u c))
      (\<lambda>_ v. distinct (map ws_id (workspacesT v))) (\<lambda>_ v. distinct (map ws_id (workspacesT v))) w"
    using assms(2) by (intro wp_mono [OF wp_startLifecycle]) (auto simp: admitted_def released_def ids budgeted_def)
  moreover have "wp (startLifecycle pf i (CreateWorkspaceRun i u c))
      (\<lambda>_ v. inUse v \<le> ZS_MAX_RUNNING_WORKSPACES (pf_env pf)) (\<lambda>_ v. inUse v \<le> ZS_MAX_RUNNING_WORKSPACES (pf_env pf)) w"
    using assms by (intro startLifecycle_budget) (auto simp: budgeted_def activates_def)
  ultimately show ?thesis unfolding budgeted_def by (rule wp_mono [OF wp_conj]) simp_all
qed

lemma keeps_insertOrExisting:
  assumes "\<And>t. ws_id (mk t) = i"
  shows "keeps (insertOrExisting pf uid key mk) (budgeted pf)"
proof (rule keepsI)
  fix w assume w: "budgeted pf w"
  have count: "inUse (v\<lparr>workspacesT := workspacesT w @ [r]\<rparr>) \<le> inUse w + 1" for v r
    by (simp add: inUse_def)
  have "wp (thenE (assertWorkspaceCapacity pf None)
          (bindE (getE now) (\<lambda>t. thenE (insertWorkspace (mk t)) (retE (mk t)))))
      (\<lambda>_. budgeted pf) (\<lambda>_ _. True) w"
    using w count [where v = w] assms
    by (force simp: wp_simps assertWorkspaceCapacity_def insertWorkspace_def budgeted_def inUse_def
        insertClashes_def list_ex_iff)
  then show "wp (insertOrExisting pf uid key mk) (\<lambda>_. budgeted pf) (\<lambda>_. budgeted pf) w"
    using w unfolding insertOrExisting_def wp_txn wp_bind wp_get
    by (auto simp: wp_ret split: option.splits if_splits elim!: wp_mono)
qed

text \<open>
  A creation keeps every invariant of the rows that its insert and the start of its run keep, if
  what other requests do while it waits keeps it.
\<close>

locale creation_invariant = row_invariant I for I :: "world \<Rightarrow> bool" +
  fixes pf :: platform
  assumes starts: "i \<noteq> [] \<Longrightarrow> keeps (startLifecycle pf i (CreateWorkspaceRun i u c)) I"
    and inserts: "(\<And>t. ws_id (mk t) = i \<and> ownerUserId (mk t) = uid \<and> workshopKey (mk t) = key \<and> deletedAt (mk t) = None)
      \<Longrightarrow> keeps (insertOrExisting pf uid key mk) I"
begin

lemma keeps_insertAndStart: "keeps (insertAndStart pf v u rp input key ref mach near) I"
proof -
  have start: "keeps (startLifecycle pf (newId p bytes) (CreateWorkspaceRun (newId p bytes) x c)) I" for p bytes x c
    by (rule starts) (simp add: newId_def)
  show ?thesis
    unfolding insertAndStart_def Let_def
    by (intro keeps_bind keeps_if keeps_ofSum keeps_bytes keeps_outcome start
        inserts [where i = "newId PreWs bytes" for bytes]) (simp add: newWorkspaceRow_def)
qed

lemma keeps_create:
  assumes "\<And>w. I w \<Longrightarrow> I (env w)"
  shows "keeps (createPublicWorkspace pf env gh near v input key) I"
proof -
  have user: "keeps (ensureUser v) I" "keeps (assertNotFlagged v) I"
    unfolding ensureUser_def assertNotFlagged_def by (intro keeps_shape)+
  have "keeps (createFresh pf env gh near v u input key) I" for u
    unfolding createFresh_def Let_def
    by (intro keeps_shape keeps_repoFor keeps_resolveRef keeps_insertAndStart assms)
  then show ?thesis
    unfolding createPublicWorkspace_def
    by (intro keeps_bind keeps_then keeps_option keeps_get keeps_limit keeps_outcome user)
qed

end

interpretation budget_creation: creation_invariant "budgeted pf" pf for pf
  by unfold_locales
    (auto intro: keepsI budgeted_start keeps_insertOrExisting)

subsection \<open>One live workspace per workshop\<close>

definition workshopOf :: "workspace \<Rightarrow> string \<times> string option" where
  "workshopOf r = (ownerUserId r, workshopKey r)"

definition inWorkshop :: "workspace \<Rightarrow> bool" where
  "inWorkshop r \<longleftrightarrow> workshopKey r \<noteq> None \<and> deletedAt r = None"

definition workshopsUnique :: "world \<Rightarrow> bool" where
  "workshopsUnique w \<longleftrightarrow> distinct (map workshopOf (filter inWorkshop (workspacesT w)))"

lemma workshops_setRun:
  "map workshopOf (filter inWorkshop (updateWhere p (setRun a b) rs)) = map workshopOf (filter inWorkshop rs)"
  by (induction rs) (auto simp: updateWhere_def setRun_def inWorkshop_def workshopOf_def)

lemma workshops_start: "keeps (startLifecycle pf i run) workshopsUnique"
  by (rule keepsI, rule wp_mono [OF wp_startLifecycle])
    (auto simp: workshopsUnique_def admitted_def released_def workshops_setRun)

lemma workshops_insert:
  assumes "\<And>t. ownerUserId (mk t) = uid \<and> workshopKey (mk t) = key \<and> deletedAt (mk t) = None"
  shows "keeps (insertOrExisting pf uid key mk) workshopsUnique"
proof -
  have fresh: "workshopOf (mk t) \<notin> workshopOf ` {r \<in> set rows. inWorkshop r}"
    if "\<not> list_ex (insertClashes (mk t)) rows" "inWorkshop (mk t)" for t rows
    using that by (auto simp: list_ex_iff insertClashes_def workshopOf_def inWorkshop_def)
  have "keeps (insertWorkspace (mk t)) workshopsUnique" for t
    unfolding insertWorkspace_def keeps_def
    using fresh [where t = t] by (auto simp: wp_simps workshopsUnique_def)
  then show ?thesis
    unfolding insertOrExisting_def assertWorkspaceCapacity_def
    by (intro keeps_shape) 
qed

interpretation workshop_rows: creation_invariant workshopsUnique pf for pf
  by unfold_locales (auto simp: ofRows_def workshopsUnique_def intro: workshops_start workshops_insert)

text \<open>The same workshop again is its workspace again, with nothing started and no row changed.\<close>

lemma createPublic_existing:
  assumes "selectOne (workshopMatch (v_userId v) k) (workspacesT w) = Some r" and "k \<noteq> []"
  shows "wp (createPublicWorkspace pf env gh near v input (Some k))
     (\<lambda>(view, runId) w'. wv_id view = ws_id r \<and> runId = workflowRunId r
        \<and> workspacesT w' = workspacesT w \<and> trace w' = trace w)
     (\<lambda>_ w'. workspacesT w' = workspacesT w \<and> trace w' = trace w) w"
proof -
  have out: "wp (createOutcome pf r i) (\<lambda>(view, runId) w'. wv_id view = ws_id r \<and> runId = i
        \<and> workspacesT w' = workspacesT w \<and> trace w' = trace w)
     (\<lambda>_ w'. workspacesT w' = workspacesT w \<and> trace w' = trace w) v'"
    if "workspacesT v' = workspacesT w" "trace v' = trace w" for i v'
    using that by (simp add: createOutcome_def workspaceViewE_def wp_simps)
      (rule wp_mono [OF workspaceViews_frame], auto simp: wp_simps)
  have user: "wp (ensureUser v) (\<lambda>u v'. u_id u = v_userId v \<and> v' = x) (\<lambda>_ v'. v' = x) x" for x
  proof (cases "selectOne (\<lambda>u. u_id u = v_userId v) (usersT x)")
    case (Some u)
    then have "u_id u = v_userId v" by (auto dest: selectOne_Some)
    then show ?thesis using Some by (simp add: ensureUser_def wp_simps)
  qed (simp add: ensureUser_def wp_simps)
  have key: "(case Some k of None \<Rightarrow> None | Some k \<Rightarrow> if k = [] then None else f k) = f k" for f :: "string \<Rightarrow> workspace option"
    using assms(2) by simp
  have main: "wp (bindE (ensureUser v) (\<lambda>u. bindE (getE (\<lambda>w. case Some k of None \<Rightarrow> None | Some k \<Rightarrow>
        if k = [] then None else selectOne (workshopMatch (u_id u) k) (workspacesT w))) (\<lambda>existing. case existing of
        Some r \<Rightarrow> createOutcome pf r (workflowRunId r)
      | None \<Rightarrow> createFresh pf env gh near v u input (Some k))))
     (\<lambda>(view, runId) w'. wv_id view = ws_id r \<and> runId = workflowRunId r
        \<and> workspacesT w' = workspacesT w \<and> trace w' = trace w)
     (\<lambda>_ w'. workspacesT w' = workspacesT w \<and> trace w' = trace w) x"
    if "workspacesT x = workspacesT w" "trace x = trace w" for x
    unfolding wp_bind key wp_get
    by (rule wp_mono [OF user]) (use that assms(1) out in simp_all)
  show ?thesis
    unfolding createPublicWorkspace_def assertNotFlagged_def limit_def wp_then wp_when
    using main by (simp add: wp_simps split: sum.split)
qed

end
