(* ===== verification/Routes.thy ===== *)
theory Routes
  imports Manifest CreateWorkspace
begin

text \<open>
  The remaining routes: a workspace's view, settings, stop, update, rebuild, delete and forwards
  (\<open>app/api/workspaces/[id]\<close>), what a sandbox reports (\<open>app/api/sandboxes/[name]\<close>) and the
  garbage collection trigger. A report is handed on as the record the log sink gets; the sink
  itself and the audit rows are not kept.
\<close>

section \<open>A user's workspace\<close>

definition workspaceGet :: "platform \<Rightarrow> string option \<Rightarrow> string \<Rightarrow> workspaceView io" where
  "workspaceGet pf sessionUser i =
     bindE (requireWorkspaceParam sessionUser i None False) (\<lambda>(v, ws). workspaceViewE pf ws)"

definition patchRow :: "patchWorkspaceInput \<Rightarrow> int \<Rightarrow> workspace \<Rightarrow> workspace" where
  "patchRow input t r = r\<lparr>ws_name := nullish (pw_name input) (ws_name r),
     idleMinutes := nullish (pw_idleMinutes input) (idleMinutes r), updatedAt := t\<rparr>"

definition workspacePatchRoute :: "platform \<Rightarrow> string option \<Rightarrow> string \<Rightarrow> request \<Rightarrow> workspaceView io" where
  "workspacePatchRoute pf sessionUser i req =
     bindE (requireWorkspaceParam sessionUser i None True) (\<lambda>(v, ws).
     bindE (ofSum (parseBody req patchWorkspaceSchema None)) (\<lambda>input.
     thenE (updWs (ws_id ws) (\<lambda>w. patchRow input (now w)))
     (bindE (reloadWorkspace (ws_id ws)) (\<lambda>row. case row of
        None \<Rightarrow> throwE (OtherError ''TypeError'') | Some r \<Rightarrow> workspaceViewE pf r))))"

text \<open>A run in flight refuses with 409; otherwise the run is started.\<close>

definition startUnlessActive :: "platform \<Rightarrow> workspace \<Rightarrow> lifecycleRun \<Rightarrow> string io" where
  "startUnlessActive pf ws run =
     bindE (isRunActive pf (workflowRunId ws)) (\<lambda>active.
     if active then throwE (ApiError 409 ''workspace_busy'') else startLifecycle pf (ws_id ws) run)"

definition workspaceDelete :: "platform \<Rightarrow> string option \<Rightarrow> string \<Rightarrow> string io" where
  "workspaceDelete pf sessionUser i =
     bindE (requireWorkspaceParam sessionUser i None True) (\<lambda>(v, ws).
     startUnlessActive pf ws (DeleteWorkspaceRun (ws_id ws) (v_userId v) False))"

definition rebuildPost :: "platform \<Rightarrow> string option \<Rightarrow> string \<Rightarrow> request \<Rightarrow> string io" where
  "rebuildPost pf sessionUser i req =
     bindE (requireWorkspaceParam sessionUser i None True) (\<lambda>(v, ws).
     bindE (ofSum (parseBody req rebuildSchema None)) (\<lambda>_.
     startUnlessActive pf ws (RebuildWorkspaceRun (ws_id ws) (v_userId v) None)))"

text \<open>\<open>None\<close> is \<open>200 { state: "stopped" }\<close>, there was nothing to stop.\<close>

definition stopPost :: "platform \<Rightarrow> string option \<Rightarrow> string \<Rightarrow> string option io" where
  "stopPost pf sessionUser i =
     bindE (requireWorkspaceParam sessionUser i None True) (\<lambda>(v, ws).
     bindE (if ws_state ws = Stopped
            then bindE (isRunActive pf (workflowRunId ws)) (\<lambda>active. retE (\<not> active)) else retE False) (\<lambda>nothing.
     if nothing then retE None
     else bindE (startLifecycle pf (ws_id ws) (StopWorkspaceRun (ws_id ws) SrUser False)) (\<lambda>runId.
       retE (Some runId))))"

definition updateGet :: "platform \<Rightarrow> string option \<Rightarrow> string \<Rightarrow> (editorRelease \<times> bool) io" where
  "updateGet pf sessionUser i =
     bindE (requireWorkspaceParam sessionUser i None False) (\<lambda>(v, ws).
     bindE (ofSum (currentRelease (pf_env pf))) (\<lambda>release.
     retE (release, \<not> sameRelease (releaseOf ws) release)))"

text \<open>\<open>None\<close> is \<open>{ status: "updated" }\<close>.\<close>

definition updatePost :: "platform \<Rightarrow> string option \<Rightarrow> string \<Rightarrow> request \<Rightarrow> string option io" where
  "updatePost pf sessionUser i req =
     bindE (requireWorkspaceParam sessionUser i None True) (\<lambda>(v, ws).
     bindE (ofSum (parseBody req updateSchema None)) (\<lambda>target.
     bindE (ofSum (currentRelease (pf_env pf))) (\<lambda>release.
     if \<not> sameRelease target release then throwE (ApiError 409 ''release_changed'')
     else if sameRelease (releaseOf ws) release \<and> \<not> truthy (previousSandboxName ws) then retE None
     else bindE (startLifecycle pf (ws_id ws) (RebuildWorkspaceRun (ws_id ws) (v_userId v) (Some release))) (\<lambda>runId.
       retE (Some runId)))))"

section \<open>Its forwards\<close>

record portsView =
  pv_ports :: "forwardView list"
  pv_listening :: "int list"
  pv_slotsFree :: int

definition portsGet :: "platform \<Rightarrow> string option \<Rightarrow> string \<Rightarrow> portsView io" where
  "portsGet pf sessionUser i =
     bindE (requireWorkspaceParam sessionUser i None False) (\<lambda>(v, ws).
     bindE (getE (\<lambda>w. forwardViews (forwardsT w) (ws_id ws))) (\<lambda>fs.
     bindE (getE (\<lambda>w. listeningPorts (pf_env pf) (kvT w) (ws_id ws) (now w))) (\<lambda>ls.
     retE \<lparr>pv_ports = map toForwardView fs, pv_listening = ls,
       pv_slotsFree = max 0 (int (length proxySlots) - int (length (filter (\<lambda>f. f_slot f \<noteq> None) fs)))\<rparr>)))"

definition portsPost :: "platform \<Rightarrow> string option \<Rightarrow> string \<Rightarrow> request \<Rightarrow> forwardView io" where
  "portsPost pf sessionUser i req =
     bindE (requireWorkspaceParam sessionUser i None True) (\<lambda>(v, ws).
     bindE (ofSum (parseBody req createForwardSchema None)) (\<lambda>input.
     bindE (createForward pf ws input) (\<lambda>f. retE (toForwardView f))))"

text \<open>\<open>Number(raw)\<close> of a query parameter or path segment that is a decimal integer; else \<open>NaN\<close>.\<close>

definition portParam :: "string option \<Rightarrow> err + int" where
  "portParam raw = (case raw of None \<Rightarrow> Inl (ApiError 400 ''invalid_port'')
     | Some s \<Rightarrow> (case readInt s of None \<Rightarrow> Inl (ApiError 400 ''invalid_port'')
        | Some p \<Rightarrow> if p < 1 \<or> p > 65535 then Inl (ApiError 400 ''invalid_port'') else Inr p))"

definition portsDelete :: "platform \<Rightarrow> string option \<Rightarrow> string \<Rightarrow> string option \<Rightarrow> unit io" where
  "portsDelete pf sessionUser i raw =
     bindE (requireWorkspaceParam sessionUser i None True) (\<lambda>(v, ws).
     bindE (ofSum (portParam raw)) (\<lambda>port. removeForward pf (ws_id ws) port))"

text \<open>
  The redirect that opens a private forward. \<open>tokText\<close> is the token as the library serialises
  it.
\<close>

definition portOpenGet ::
  "platform \<Rightarrow> 'tok jose \<Rightarrow> signingKeys \<Rightarrow> ('tok \<Rightarrow> string) \<Rightarrow> string option \<Rightarrow> string \<Rightarrow> string \<Rightarrow> (string \<times> 'tok) io" where
  "portOpenGet pf jz keys tokText sessionUser i rawPort =
     bindE (assertWorkspaceId i) (\<lambda>wid.
     bindE (ofSum (assertUserPort (pf_env pf) rawPort)) (\<lambda>port.
     bindE (requireViewer sessionUser) (\<lambda>v.
     bindE (requireWorkspaceAccess v wid None) (\<lambda>ws.
     bindE (getE (\<lambda>w. selectOne (keyed wid port) (forwardsT w))) (\<lambda>found.
     case (case found of None \<Rightarrow> None | Some f \<Rightarrow> if f_visibility f = Private then f_slot f else None) of
       None \<Rightarrow> throwE (ApiError 404 ''not_found'')
     | Some slot \<Rightarrow>
         if \<not> truthy (slotHost ws slot) \<or> ws_state ws \<noteq> Running then throwE (ApiError 409 ''workspace_not_running'')
         else bindE (randomBytes pf) (\<lambda>jti. bindE (getE now) (\<lambda>t.
           case mintPortBootstrapToken jz (pf_env pf) keys jti t (v_userId v) wid (audience ws) port of
             Inl _ \<Rightarrow> throwE (OtherError ''TokenError'')
           | Inr (tok, _, _) \<Rightarrow>
               retE (authRedirect (pf_env pf) (nullish (slotHost ws slot) []) (tokText tok) ''/'', tok))))))))"

section \<open>Reports\<close>

datatype sinkKind = LogRecord | ClientErrorRecord

record sinkRecord =
  sk_kind :: sinkKind
  sk_workspaceId :: string
  sk_sandboxName :: string
  sk_build :: "string option"
  sk_payload :: json

definition errorPayload :: "clientErrorInput \<Rightarrow> (string \<times> json) list" where
  "errorPayload c = [(''build'', JStr (ce_build c)), (''kind'', JStr (ce_kind c)), (''message'', JStr (ce_message c))]
     @ (case ce_stack c of None \<Rightarrow> [] | Some s \<Rightarrow> [(''stack'', JStr s)])
     @ (case ce_marks c of None \<Rightarrow> [] | Some m \<Rightarrow> [(''marks'', JObj m)])"

definition clientErrorsPost :: "string option \<Rightarrow> string \<Rightarrow> request \<Rightarrow> sinkRecord io" where
  "clientErrorsPost sessionUser i req =
     bindE (requireWorkspaceParam sessionUser i None False) (\<lambda>(v, ws).
     thenE (limit LimUserClientErrors (v_userId v))
     (bindE (ofSum (parseBody req clientErrorSchema (Some (128 * 1024)))) (\<lambda>input.
      bindE (getE now) (\<lambda>t.
      retE \<lparr>sk_kind = ClientErrorRecord, sk_workspaceId = ws_id ws, sk_sandboxName = sandboxName ws,
        sk_build = Some (ce_build input), sk_payload = JObj (errorPayload input
          @ [(''source'', JStr ''shell''), (''userId'', JStr (v_userId v)), (''ts'', JNum t)])\<rparr>))))"

definition sandboxErrorsPost ::
  "platform \<Rightarrow> string option \<Rightarrow> string option \<Rightarrow> string \<Rightarrow> request \<Rightarrow> sinkRecord io" where
  "sandboxErrorsPost pf header clientIp name req =
     bindE (requireSandboxParam pf header clientIp name LimSandboxClientErrors) (\<lambda>ws.
     bindE (ofSum (parseBody req sandboxClientErrorSchema (Some (128 * 1024)))) (\<lambda>body.
     retE \<lparr>sk_kind = ClientErrorRecord, sk_workspaceId = ws_id ws, sk_sandboxName = sandboxName ws,
       sk_build = Some (ce_build body), sk_payload = JObj (errorPayload body)\<rparr>))"

definition extensionsPost ::
  "platform \<Rightarrow> string option \<Rightarrow> string option \<Rightarrow> string \<Rightarrow> request \<Rightarrow> unit io" where
  "extensionsPost pf header clientIp name req =
     bindE (requireSandboxParam pf header clientIp name LimSandboxExtensions) (\<lambda>ws.
     bindE (ofSum (parseBody req installedExtensionsSchema (Some (32 * 1024)))) (\<lambda>installed.
     updWs (ws_id ws) (\<lambda>w r. r\<lparr>installedExtensions := sort (remdups installed), updatedAt := now w\<rparr>)))"

text \<open>\<open>MAX_BATCH_BYTES\<close>, \<open>MAX_ENTRIES\<close>: the limits of a log batch.\<close>

definition MAX_BATCH_BYTES :: int where "MAX_BATCH_BYTES = 256 * 1024"
definition MAX_ENTRIES :: nat where "MAX_ENTRIES = 200"

fun ndjsonLines :: "string list \<Rightarrow> err + logEntry list" where
  "ndjsonLines [] = Inr []"
| "ndjsonLines (l # ls) = (case jsonParse l of
      None \<Rightarrow> Inl (ApiError 400 ''invalid_body'')
    | Some raw \<Rightarrow> (case logEntrySchema ''target'' raw of
        None \<Rightarrow> Inl (ApiError 400 ''invalid_body'')
      | Some x \<Rightarrow> (case ndjsonLines ls of Inl e \<Rightarrow> Inl e | Inr xs \<Rightarrow> Inr (x # xs))))"

definition parseNdjson :: "string \<Rightarrow> err + logEntry list" where
  "parseNdjson t = (let ls = filter (\<lambda>l. trimBoth l \<noteq> []) (splitOn CHR 0x0A t) in
     if length ls > MAX_ENTRIES then Inl payloadTooLarge else ndjsonLines ls)"

definition parseJsonBatch :: "string \<Rightarrow> err + logEntry list" where
  "parseJsonBatch t = (case (if trimBoth t = [] then Some (JObj [(''entries'', JArr [])]) else jsonParse t) of
      None \<Rightarrow> Inl (ApiError 400 ''invalid_body'')
    | Some raw \<Rightarrow> (case logBatchSchema raw of None \<Rightarrow> Inl (ApiError 400 ''invalid_body'') | Some b \<Rightarrow> Inr b))"

text \<open>The accepted entries of a request, before they are shipped.\<close>

definition logEntries :: "request \<Rightarrow> err + logEntry list" where
  "logEntries req = (case readBodyText req MAX_BATCH_BYTES of
      Inl e \<Rightarrow> Inl e
    | Inr t \<Rightarrow>
        (case (if hasPart (lowerText (nullish (rq_header req ''content-type'') [])) ''ndjson''
               then parseNdjson t else parseJsonBatch t) of
           Inl e \<Rightarrow> Inl e
         | Inr entries \<Rightarrow>
             if length entries > MAX_ENTRIES then Inl payloadTooLarge
             else if list_ex (\<lambda>x. \<not> logSourceAllowed (le_source x)) entries then Inl (ApiError 400 ''invalid_body'')
             else Inr entries))"

definition logsPost ::
  "platform \<Rightarrow> string option \<Rightarrow> string option \<Rightarrow> string \<Rightarrow> request \<Rightarrow> (workspace \<times> logEntry list) io" where
  "logsPost pf header clientIp name req =
     bindE (requireSandboxParam pf header clientIp name LimSandboxLogs) (\<lambda>ws.
     bindE (ofSum (logEntries req)) (\<lambda>entries. retE (ws, entries)))"

text \<open>\<open>None\<close> is the 204 of an \<open>unforward\<close>.\<close>

definition sandboxPortsPost ::
  "platform \<Rightarrow> string option \<Rightarrow> string option \<Rightarrow> string \<Rightarrow> request \<Rightarrow> forwardView option io" where
  "sandboxPortsPost pf header clientIp name req =
     bindE (requireSandboxParam pf header clientIp name LimSandboxPorts) (\<lambda>ws.
     bindE (ofSum (parseBody req sandboxPortSchema (Some (8 * 1024)))) (\<lambda>(body, act).
     if act = Some UnforwardAction
     then thenE (removeForward pf (ws_id ws) (cf_port body)) (retE None)
     else bindE (createForward pf ws body) (\<lambda>f. retE (Some (toForwardView f)))))"

definition sandboxPortDelete ::
  "platform \<Rightarrow> string option \<Rightarrow> string option \<Rightarrow> string \<Rightarrow> string \<Rightarrow> unit io" where
  "sandboxPortDelete pf header clientIp name rawPort =
     bindE (assertSandboxName name) (\<lambda>n.
     bindE (requireSandboxNamed pf header clientIp n LimSandboxPorts) (\<lambda>ws.
     bindE (ofSum (portParam (Some rawPort))) (\<lambda>port. removeForward pf (ws_id ws) port)))"

section \<open>Garbage collection\<close>

definition GC_LOCK_MS :: int where "GC_LOCK_MS = 60000"

text \<open>\<open>None\<close> is \<open>{ ran: false, reason: "locked" }\<close>.\<close>

definition gcGet :: "platform \<Rightarrow> string option \<Rightarrow> string option io" where
  "gcGet pf header =
     thenE (requireCronSecret (pf_env pf) header)
     (withLock pf (lockKey ''gc'') GC_LOCK_MS (bindE (getE now) (\<lambda>t. startRun pf (GcRun t))))"

end
