(* ===== verification/Export.thy ===== *)
theory Export
  imports Manifest
begin

text \<open>
  Downloading a folder of the project (\<open>app/api/workspaces/[id]/export/route.ts\<close>,
  \<open>lib/origin.ts\<close>): the check that the folder lies inside the project, the archive the sandbox
  prepares under a lock, and the stream that delivers it, as a state machine over every order of
  its callbacks. Python's answer is a parameter, as is what \<open>new URL\<close> makes of an origin.
\<close>

section \<open>Paths\<close>

text \<open>The segments \<open>path.resolve\<close> leaves of an absolute path.\<close>

fun popDots :: "string list \<Rightarrow> string list \<Rightarrow> string list" where
  "popDots acc [] = rev acc"
| "popDots acc (s # ss) = (if s = [] \<or> s = ''.'' then popDots acc ss
     else if s = ''..'' then popDots (tl acc) ss else popDots (s # acc) ss)"

definition segments :: "string \<Rightarrow> string list" where
  "segments p = popDots [] (splitOn CHR ''/'' p)"

definition isAbsolute :: "string \<Rightarrow> bool" where
  "isAbsolute p \<longleftrightarrow> p \<noteq> [] \<and> hd p = CHR ''/''"

fun dropCommon :: "'a list \<Rightarrow> 'a list \<Rightarrow> 'a list \<times> 'a list" where
  "dropCommon (x # xs) (y # ys) = (if x = y then dropCommon xs ys else (x # xs, y # ys))"
| "dropCommon xs ys = (xs, ys)"

text \<open>\<open>path.relative\<close> of two absolute paths.\<close>

definition relativePath :: "string \<Rightarrow> string \<Rightarrow> string" where
  "relativePath base target = (case dropCommon (segments base) (segments target) of
     (ups, rest) \<Rightarrow> joinWith CHR ''/'' (map (\<lambda>_. ''..'') ups @ rest))"

definition folderRefused :: "string \<Rightarrow> string \<Rightarrow> bool" where
  "folderRefused base p \<longleftrightarrow> (let folder = relativePath base p in
     \<not> isAbsolute p \<or> folder = ''..'' \<or> prefix ''../'' folder \<or> isAbsolute folder
       \<or> ''.git'' \<in> set (splitOn CHR ''/'' folder))"

definition basename :: "string \<Rightarrow> string" where
  "basename p = (case filter (\<lambda>s. s \<noteq> []) (splitOn CHR ''/'' p) of [] \<Rightarrow> [] | ss \<Rightarrow> last ss)"

section \<open>The request\<close>

text \<open>\<open>originOf\<close>: protocol and host of a URL, \<open>None\<close> where the constructor throws.\<close>

definition originMatchesHost :: "(string \<Rightarrow> (string \<times> string) option) \<Rightarrow> (string \<Rightarrow> string option) \<Rightarrow> bool" where
  "originMatchesHost originOf header = (if \<not> truthy (header ''origin'') then True
     else case originOf (nullish (header ''origin'') []) of None \<Rightarrow> False
     | Some (protocol, host) \<Rightarrow> protocol \<in> {''http:'', ''https:''} \<and> header ''host'' = Some host)"

definition exportSchema :: "json \<Rightarrow> (string \<times> bool) option" where
  "exportSchema j = (case (zKey ''path'' (zString 1 4096) j, zOpt ''includeIgnored'' zBool j) of
     (Some p, Some inc) \<Rightarrow> if CHR 0x00 \<in> set p \<or> CHR 0x5C \<in> set p then None else Some (p, nullish inc False)
   | _ \<Rightarrow> None)"

record archive =
  ar_directory :: string
  ar_bytes :: int
  ar_files :: int
  ar_skippedFiles :: int

definition exportDirectory :: "string \<Rightarrow> bool" where
  "exportDirectory s \<longleftrightarrow> length s = 25 \<and> prefix ''zedspaces-export-'' s
     \<and> list_all (\<lambda>c. lowerChar c \<or> c = CHR ''_'') (drop 17 s)"

definition archiveSchema :: "json \<Rightarrow> archive option" where
  "archiveSchema j = (case (zKey ''directory'' (zMatch exportDirectory) j, zKey ''bytes'' (zIntIn 0 (272 * 1024 * 1024)) j,
      zKey ''files'' (zIntIn 0 20000) j, zKey ''skippedFiles'' (zIntIn 0 MAX_SAFE_INTEGER) j) of
      (Some d, Some b, Some f, Some s) \<Rightarrow> Some \<lparr>ar_directory = d, ar_bytes = b, ar_files = f, ar_skippedFiles = s\<rparr>
    | _ \<Rightarrow> None)"

section \<open>Preparing the archive\<close>

text \<open>The cleanup never fails: it only warns.\<close>

definition exportCleanup :: "platform \<Rightarrow> handle \<Rightarrow> string \<Rightarrow> string \<Rightarrow> unit io" where
  "exportCleanup pf h script file = quietly (runCmd pf h [''python3'', script, ''--cleanup'', file])"

text \<open>The body under the lock; the texts of the error messages are left out.\<close>

definition prepareArchive :: "platform \<Rightarrow> handle \<Rightarrow> string \<Rightarrow> repo \<Rightarrow> string \<Rightarrow> bool \<Rightarrow> archive io" where
  "prepareArchive pf h script rp folder includeIgnored =
     bindE (runCmd pf h ([''python3'', script, ''--root'', workspaceDir rp, ''--folder'', folder]
              @ (if includeIgnored then [''--include-ignored''] else []))) (\<lambda>(exitCode, stdout).
     case jsonParse stdout of
       None \<Rightarrow> throwE (ApiError 502 ''export_failed'')
     | Some parsed \<Rightarrow>
         if exitCode \<noteq> 0 then throwE (ApiError 422 ''export_failed'')
         else (case archiveSchema parsed of None \<Rightarrow> throwE zodError | Some a \<Rightarrow> retE a))"

text \<open>
  The route up to the response: the archive, the file it streams, and the folder's name.
  \<open>aborted n\<close> says whether the browser had gone after \<open>n\<close> calls.
\<close>

definition openArchive :: "platform \<Rightarrow> (nat \<Rightarrow> bool) \<Rightarrow> handle \<Rightarrow> string \<Rightarrow> string \<Rightarrow> unit io" where
  "openArchive pf aborted h script file =
     catchE
       (bindE (getE tick) (\<lambda>n.
        if aborted n then throwE (OtherError ''Error: Download canceled'')
        else bindE (extE pf (\<lambda>_. EvReadFile file) (\<lambda>k. pf_readFile pf k (h_name h) file)) (\<lambda>stream.
          if stream then retE () else throwE (ApiError 502 ''export_missing''))))
       (\<lambda>e. thenE (exportCleanup pf h script file) (throwE e))"

definition exportPost ::
  "platform \<Rightarrow> (string \<Rightarrow> (string \<times> string) option) \<Rightarrow> (string \<Rightarrow> string \<Rightarrow> string) \<Rightarrow> string \<Rightarrow> (nat \<Rightarrow> bool)
   \<Rightarrow> string option \<Rightarrow> string \<Rightarrow> request \<Rightarrow> (archive \<times> string \<times> string) io" where
  "exportPost pf originOf relocated localScript aborted sessionUser i req =
     (if \<not> originMatchesHost originOf (rq_header req) \<or> rq_header req ''sec-fetch-site'' = Some ''cross-site''
      then throwE (ApiError 403 ''cross_origin'')
      else
     bindE (requireWorkspaceParam sessionUser i (Some [Running]) True) (\<lambda>(v, ws).
     thenE (limit LimUserExport (v_userId v))
     (bindE (ofSum (parseBody req exportSchema (Some 8192))) (\<lambda>(p, includeIgnored).
     bindE (repoOf ws) (\<lambda>found. case found of None \<Rightarrow> throwE (ApiError 404 ''not_found'') | Some rp \<Rightarrow>
     let root = hd (workspacePathsFor (pf_env pf) relocated ws rp); folder = relativePath root p;
         script = (if ZS_SANDBOX_BACKEND (pf_env pf) = Local then localScript
           else ''/usr/local/lib/zedspaces/export-project.py'') in
     if folderRefused root p then throwE (ApiError 400 ''invalid_folder'')
     else bindE (apiGet pf (sandboxName ws) False) (\<lambda>got. case got of
       None \<Rightarrow> throwE (ApiError 409 ''not_running'')
     | Some (h, _) \<Rightarrow>
         if h_status h \<noteq> StRunning then throwE (ApiError 409 ''not_running'')
         else bindE (withLock pf (lockKey (''export:'' @ ws_id ws)) 120000
                 (prepareArchive pf h script rp folder includeIgnored)) (\<lambda>prepared. case prepared of
            None \<Rightarrow> throwE (ApiError 409 ''export_busy'')
          | Some a \<Rightarrow>
              let file = ''/tmp/'' @ ar_directory a @ ''/project.zip'' in
              thenE (openArchive pf aborted h script file) (retE (a, file, p)))))))))"

section \<open>The response\<close>

text \<open>\<open>encodeURIComponent\<close>, and the four characters a header parameter may not hold.\<close>

definition headerName :: "string \<Rightarrow> string" where
  "headerName s = concat (map (\<lambda>c. if c = CHR 0x27 \<or> c \<in> set ''()*''
     then [CHR ''%'', hexLower (of_char c div 16), hexLower (of_char c)] else [c]) s)"

definition exportHeaders :: "archive \<Rightarrow> string \<Rightarrow> (string \<times> string) list" where
  "exportHeaders a p =
     [(''Content-Type'', ''application/zip''),
      (''Content-Disposition'', ''attachment; filename='' @ [CHR 0x22] @ ''project.zip'' @ [CHR 0x22]
         @ ''; filename*=UTF-8'' @ [CHR 0x27, CHR 0x27] @ headerName (encodeURIComponent (basename p @ ''.zip''))),
      (''Cache-Control'', ''private, no-store''), (''X-Content-Type-Options'', ''nosniff''),
      (''X-Zedspaces-Export-Bytes'', showInt (ar_bytes a)), (''X-Zedspaces-Export-Files'', showInt (ar_files a)),
      (''X-Zedspaces-Export-Skipped'', showInt (ar_skippedFiles a))]"

text \<open>
  The stream. A pull is one read of the sandbox's file: the platform has one under way at most, and
  the browser can go (\<open>abort\<close>, \<open>cancel\<close>) while it waits. \<open>es_sent\<close> are the bytes handed to the
  browser, \<open>es_cleanups\<close> how often the archive was removed.
\<close>

datatype streamState = Streaming | Delivered | Broken | Gone

record exportStream =
  es_state :: streamState
  es_pulling :: bool
  es_delivered :: int
  es_sent :: int
  es_released :: bool
  es_cleanups :: nat

definition exportStart :: exportStream where
  "exportStart = \<lparr>es_state = Streaming, es_pulling = False, es_delivered = 0, es_sent = 0, es_released = False,
     es_cleanups = 0\<rparr>"

definition release :: "exportStream \<Rightarrow> exportStream" where
  "release s = (if es_released s then s else s\<lparr>es_released := True, es_cleanups := Suc (es_cleanups s)\<rparr>)"

text \<open>\<open>controller.error\<close> and \<open>close\<close> change a stream that is still open only.\<close>

definition settle :: "streamState \<Rightarrow> exportStream \<Rightarrow> exportStream" where
  "settle st s = (if es_state s = Streaming then s\<lparr>es_state := st\<rparr> else s)"

definition breakStream :: "exportStream \<Rightarrow> exportStream" where
  "breakStream s = settle Broken (release s)"

datatype readResult = ReadDone | ReadChunk nat | ReadFailed

definition afterRead :: "int \<Rightarrow> readResult \<Rightarrow> exportStream \<Rightarrow> exportStream" where
  "afterRead expected r s0 = (let s = s0\<lparr>es_pulling := False\<rparr> in case r of
      ReadFailed \<Rightarrow> breakStream s
    | ReadDone \<Rightarrow> if es_delivered s \<noteq> expected then breakStream s else settle Delivered (release s)
    | ReadChunk n \<Rightarrow>
        let s' = s\<lparr>es_delivered := es_delivered s + int n\<rparr> in
        if es_delivered s' > expected then breakStream s'
        else if es_state s' = Streaming then s'\<lparr>es_sent := es_sent s' + int n\<rparr> else breakStream s')"

inductive streamStep :: "int \<Rightarrow> exportStream \<Rightarrow> exportStream \<Rightarrow> bool" for expected where
  Pull: "es_state s = Streaming \<Longrightarrow> \<not> es_pulling s \<Longrightarrow> streamStep expected s (s\<lparr>es_pulling := True\<rparr>)"
| Read: "es_pulling s \<Longrightarrow> streamStep expected s (afterRead expected r s)"
| Cancel: "es_state s = Streaming \<Longrightarrow> streamStep expected s (release (s\<lparr>es_state := Gone\<rparr>))"
| Abort: "\<not> es_released s \<Longrightarrow> streamStep expected s (release s)"

abbreviation streamRun :: "int \<Rightarrow> exportStream \<Rightarrow> bool" where
  "streamRun expected \<equiv> (streamStep expected)\<^sup>*\<^sup>* exportStart"

section \<open>Lemmas\<close>

subsection \<open>Folders\<close>

definition plainSegment :: "string \<Rightarrow> bool" where
  "plainSegment s \<longleftrightarrow> s \<noteq> [] \<and> s \<noteq> ''..'' \<and> CHR ''/'' \<notin> set s"

lemma popDots_segments:
  "list_all plainSegment acc \<Longrightarrow> list_all (\<lambda>s. CHR ''/'' \<notin> set s) ss \<Longrightarrow> list_all plainSegment (popDots acc ss)"
proof (induction ss arbitrary: acc)
  case Nil
  then show ?case by (simp add: list_all_iff)
next
  case (Cons s ss)
  have "list_all plainSegment (tl acc)" using Cons.prems(1) by (cases acc) simp_all
  moreover have "plainSegment s" if "s \<noteq> []" "s \<noteq> ''..''" using Cons.prems(2) that by (simp add: plainSegment_def)
  moreover have "list_all (\<lambda>s. CHR ''/'' \<notin> set s) ss" using Cons.prems(2) by simp
  ultimately show ?case
    using Cons.IH [of acc] Cons.IH [of "tl acc"] Cons.IH [of "s # acc"] Cons.prems(1)
    unfolding popDots.simps by (simp only: list.pred_inject split: if_split) blast
qed

lemma splitOn_parts: "\<forall>s \<in> set (splitOn d p). d \<notin> set s"
  by (induction p) (auto split: list.splits)

lemma segments_ok: "\<forall>s \<in> set (segments p). s \<noteq> [] \<and> s \<noteq> ''..'' \<and> CHR ''/'' \<notin> set s"
  using popDots_segments [of "[]" "splitOn CHR ''/'' p"] splitOn_parts [of "CHR ''/''" p]
  by (simp add: segments_def list_all_iff plainSegment_def)

lemma dropCommon_split: "dropCommon xs ys = (us, vs) \<Longrightarrow> \<exists>cs. xs = cs @ us \<and> ys = cs @ vs"
proof (induction xs ys rule: dropCommon.induct)
  case (1 x xs y ys)
  then show ?case
    by (cases "x = y") (auto intro: exI [where x = "[]"] exI [where x = "y # cs" for cs])
qed auto

lemma dropCommon_heads: "dropCommon xs ys = (us, vs) \<Longrightarrow> us = [] \<or> vs = [] \<or> hd us \<noteq> hd vs"
  by (induction xs ys rule: dropCommon.induct) (auto split: if_splits)

text \<open>The text of a relative path is \<open>..\<close> or starts with \<open>../\<close> exactly where it leaves the base.\<close>

lemma joined_hd:
  assumes "\<forall>s \<in> set xs. s \<noteq> [] \<and> CHR ''/'' \<notin> set s" and "joinWith CHR ''/'' xs = ''..'' \<or> prefix ''../'' (joinWith CHR ''/'' xs)"
  shows "xs \<noteq> [] \<and> hd xs = ''..''"
proof (cases xs)
  case (Cons x ys)
  have split: "splitOn CHR ''/'' (joinWith CHR ''/'' xs) = xs"
    using assms(1) Cons by (intro splitOn_join) auto
  from assms(2) have "hd (splitOn CHR ''/'' (joinWith CHR ''/'' xs)) = ''..''"
  proof
    assume "prefix ''../'' (joinWith CHR ''/'' xs)"
    then obtain t where "joinWith CHR ''/'' xs = ''..'' @ CHR ''/'' # t" by (auto simp: prefix_def)
    then show ?thesis using splitOn_append [of "CHR ''/''" "''..''" t] by simp
  qed simp
  with split have "hd xs = ''..''" by simp
  then show ?thesis using Cons by simp
qed (use assms(2) in simp)

lemma folder_accepted:
  "\<not> folderRefused base p \<longleftrightarrow> isAbsolute p
     \<and> (\<exists>rest. segments p = segments base @ rest \<and> ''.git'' \<notin> set rest)"
proof -
  obtain ups rest where common: "dropCommon (segments base) (segments p) = (ups, rest)" by fastforce
  then obtain cs where split: "segments base = cs @ ups" "segments p = cs @ rest"
    using dropCommon_split by blast
  let ?xs = "map (\<lambda>_. ''..'') ups @ rest"
  have rel: "relativePath base p = joinWith CHR ''/'' ?xs" by (simp add: relativePath_def common)
  have ok: "\<forall>s \<in> set ?xs. s \<noteq> [] \<and> CHR ''/'' \<notin> set s" "\<forall>s \<in> set rest. s \<noteq> ''..''"
    using segments_ok [of p] by (auto simp: split)
  have parts: "set (splitOn CHR ''/'' (relativePath base p)) = (if ?xs = [] then {[]} else set ?xs)"
    unfolding rel using ok(1) splitOn_join [of ?xs "CHR ''/''"] by (cases "?xs = []") auto
  have slash: "a \<noteq> [] \<Longrightarrow> CHR ''/'' \<notin> set a \<Longrightarrow> hd a \<noteq> CHR ''/''" for a by (metis hd_in_set)
  have abs: "\<not> isAbsolute (relativePath base p)"
    unfolding rel isAbsolute_def using ok(1) by (cases ?xs; cases "tl ?xs") (auto simp: hd_append slash)
  have leaves: "relativePath base p = ''..'' \<or> prefix ''../'' (relativePath base p) \<longleftrightarrow> ups \<noteq> []"
  proof (cases ups)
    case Nil
    then show ?thesis using joined_hd [OF ok(1)] ok(2) unfolding rel by (cases rest) auto
  next
    case (Cons u us)
    then show ?thesis unfolding rel by (cases "map (\<lambda>_. ''..'') us @ rest") (auto simp: prefix_def)
  qed
  have "(\<exists>r. segments p = segments base @ r \<and> ''.git'' \<notin> set r) \<longleftrightarrow> ups = [] \<and> ''.git'' \<notin> set rest"
    using dropCommon_heads [OF common] by (cases ups) (auto simp: split)
  then show ?thesis
    using leaves parts abs unfolding folderRefused_def Let_def by auto
qed

subsection \<open>The stream\<close>

definition streamOk :: "int \<Rightarrow> exportStream \<Rightarrow> bool" where
  "streamOk expected s \<longleftrightarrow> es_cleanups s = (if es_released s then 1 else 0) \<and> 0 \<le> es_sent s \<and> es_sent s \<le> expected
     \<and> es_sent s \<le> es_delivered s \<and> (es_state s = Streaming \<longrightarrow> es_sent s = es_delivered s)
     \<and> (es_state s \<noteq> Streaming \<longrightarrow> es_released s) \<and> (es_state s = Delivered \<longrightarrow> es_sent s = expected)"

inductive_cases streamStepE: "streamStep expected s s'"

lemma streamOk_release: "streamOk expected s \<Longrightarrow> streamOk expected (release s)"
  by (simp add: streamOk_def release_def)

lemma streamOk_break: "streamOk expected s \<Longrightarrow> streamOk expected (breakStream s)"
  by (auto simp: streamOk_def breakStream_def settle_def release_def)

lemma streamOk_read:
  assumes "streamOk expected s" shows "streamOk expected (afterRead expected r s)"
proof -
  have base: "streamOk expected (s\<lparr>es_pulling := False\<rparr>)"
    using assms by (simp add: streamOk_def)
  show ?thesis
  proof (cases r)
    case ReadDone
    then show ?thesis using streamOk_break [OF base] base
      by (auto simp: afterRead_def Let_def settle_def release_def streamOk_def)
  next
    case (ReadChunk n)
    have "streamOk expected (s\<lparr>es_pulling := False, es_delivered := es_delivered s + int n\<rparr>)" if "es_state s \<noteq> Streaming"
      using base that by (auto simp: streamOk_def)
    then show ?thesis using base ReadChunk
      by (auto simp: afterRead_def Let_def settle_def release_def breakStream_def streamOk_def)
  qed (use streamOk_break [OF base] in \<open>simp add: afterRead_def\<close>)
qed

lemma streamOk_step:
  assumes "streamStep expected s s'" and "streamOk expected s"
  shows "streamOk expected s'"
  using assms
  by (cases rule: streamStep.cases)
    (auto simp: streamOk_read streamOk_release, auto simp: streamOk_def release_def)

lemma streamRun_ok:
  assumes "0 \<le> expected" and "streamRun expected s" shows "streamOk expected s"
  using assms(2)
proof (induction rule: rtranclp_induct)
  case base
  then show ?case using assms(1) by (simp add: streamOk_def exportStart_def)
qed (rule streamOk_step)

end
