(* ===== verification/EditorConnect.thy ===== *)
theory EditorConnect
  imports Inputs
begin

text \<open>
  The editor page's side of connecting (\<open>app/(editor)/w/[id]/connect-client.ts\<close> and the parts of
  \<open>api-client.ts\<close> it uses). Its world is the page's clock and what it saw; the network is a
  parameter: what the \<open>n\<close>th \<open>fetch\<close> answers and how long it takes. Error messages are left out, as is
  the ellipsis of a progress text.
\<close>

section \<open>The page and its network\<close>

text \<open>A response: status, status text, and the JSON of its body, \<open>None\<close> where \<open>json()\<close> throws.\<close>

record netResponse =
  nr_status :: int
  nr_statusText :: string
  nr_json :: "json option"

datatype connectErrorCode = CeStopped | CeUnauthorized | CeBuildMismatch | CePlanLimit | CeForbidden
  | CeDeleted | CeUnavailable

text \<open>
  What is thrown: a \<open>ConnectError\<close> with code and status, what \<open>fetch\<close> or a body rejected with, and
  the error of a loop without rounds left, which the program does not have.
\<close>

datatype pageError = ConnectError connectErrorCode "int option" | Rejected string | NoRoundsLeft

datatype call = CallConnect | CallStatus | CallSession

record network =
  nw_answer :: "nat \<Rightarrow> call \<Rightarrow> string + netResponse"
  nw_elapsed :: "nat \<Rightarrow> nat"
  nw_late :: "nat \<Rightarrow> nat"
  nw_abort :: "nat \<Rightarrow> (nat \<times> string) option"

record page =
  pg_now :: int
  pg_calls :: nat
  pg_seen :: "(call \<times> netResponse) list"
  pg_progress :: "string list"

type_synonym 'a pageAct = "(page, pageError, 'a) act"

text \<open>
  \<open>fetch\<close> under \<open>AbortSignal.timeout(ms)\<close>: an answer that takes longer is a rejection after \<open>ms\<close>.
\<close>

definition fetchWithin :: "network \<Rightarrow> call \<Rightarrow> int \<Rightarrow> netResponse pageAct" where
  "fetchWithin nw c ms = (\<lambda>p.
     let n = pg_calls p; p' = p\<lparr>pg_calls := Suc n\<rparr>; d = int (nw_elapsed nw n) in
     if d > ms then (Inl (Rejected ''TimeoutError''), p'\<lparr>pg_now := pg_now p + ms\<rparr>)
     else case nw_answer nw n c of
         Inl e \<Rightarrow> (Inl (Rejected e), p'\<lparr>pg_now := pg_now p + d\<rparr>)
       | Inr r \<Rightarrow> (Inr r, p'\<lparr>pg_now := pg_now p + d, pg_seen := pg_seen p @ [(c, r)]\<rparr>))"

definition onProgress :: "string \<Rightarrow> unit pageAct" where
  "onProgress detail = modE (\<lambda>p. p\<lparr>pg_progress := pg_progress p @ [detail]\<rparr>)"

definition CONNECT_POLL_MS :: int where "CONNECT_POLL_MS = 1500"
definition CONNECT_DEADLINE_MS :: int where "CONNECT_DEADLINE_MS = 60 * 60000"

definition jsonOrReject :: "netResponse \<Rightarrow> json pageAct" where
  "jsonOrReject r = (case nr_json r of None \<Rightarrow> throwE (Rejected ''SyntaxError'') | Some j \<Rightarrow> retE j)"

text \<open>\<open>apiErrorBody\<close>: the code of the envelope; its message is left out.\<close>

definition apiErrorCode :: "netResponse \<Rightarrow> string" where
  "apiErrorCode r = (case jstr (jget (jget (nr_json r) ''error'') ''code'') of
     Some c \<Rightarrow> c | None \<Rightarrow> ''http_'' @ showInt (nr_status r))"

definition responseOk :: "netResponse \<Rightarrow> bool" where
  "responseOk r \<longleftrightarrow> 200 \<le> nr_status r \<and> nr_status r < 300"

text \<open>\<open>refreshEditorSession\<close>: whether the session was renewed; it never throws.\<close>

definition refreshEditorSession :: "network \<Rightarrow> bool pageAct" where
  "refreshEditorSession nw =
     catchE (bindE (fetchWithin nw CallSession 15000) (\<lambda>r. retE (responseOk r))) (\<lambda>_. retE False)"

section \<open>A connection\<close>

record clientInfo =
  ci_wsUrl :: string
  ci_token :: string
  ci_sessionId :: string
  ci_workspaceId :: string
  ci_serverBuild :: string
  ci_clientBuild :: string
  ci_sessionExpiresAt :: string
  ci_sessionCapAt :: string
  ci_audience :: string

text \<open>\<open>isWsUrl\<close> and \<open>isDatetime\<close>: what \<open>z.url()\<close> with the WebSocket check and \<open>z.iso.datetime\<close> take.\<close>

definition connectInfoSchema :: "(string \<Rightarrow> bool) \<Rightarrow> (string \<Rightarrow> bool) \<Rightarrow> json \<Rightarrow> clientInfo option" where
  "connectInfoSchema isWsUrl isDatetime j = (case (zKey ''wsUrl'' (zMatch isWsUrl) j, zKey ''token'' (zString 1 16384) j,
      zKey ''sessionId'' (zString 1 128) j, zKey ''workspaceId'' (zMatch WORKSPACE_ID_RE) j,
      zKey ''serverBuild'' (zString 1 128) j, zKey ''clientBuild'' (zString 1 128) j,
      zKey ''sessionExpiresAt'' (zMatch isDatetime) j, zKey ''sessionCapAt'' (zMatch isDatetime) j,
      zKey ''audience'' (zString 1 256) j) of
      (Some u, Some t, Some s, Some w, Some sb, Some cb, Some ex, Some cap, Some aud) \<Rightarrow>
        Some \<lparr>ci_wsUrl = u, ci_token = t, ci_sessionId = s, ci_workspaceId = w, ci_serverBuild = sb,
          ci_clientBuild = cb, ci_sessionExpiresAt = ex, ci_sessionCapAt = cap, ci_audience = aud\<rparr>
    | _ \<Rightarrow> None)"

record connectRequest =
  cr_workspaceId :: string
  cr_build :: string
  cr_deadlineMs :: int

definition parseConnectInfo ::
  "(string \<Rightarrow> bool) \<Rightarrow> (string \<Rightarrow> bool) \<Rightarrow> connectRequest \<Rightarrow> json \<Rightarrow> pageError + clientInfo" where
  "parseConnectInfo isWsUrl isDatetime req body = (case connectInfoSchema isWsUrl isDatetime body of
     None \<Rightarrow> Inl (ConnectError CeUnavailable None)
   | Some info \<Rightarrow>
       if ci_workspaceId info \<noteq> cr_workspaceId req then Inl (ConnectError CeUnavailable None)
       else if ci_clientBuild info \<noteq> cr_build req \<or> \<not> buildsCompatible (Some (ci_serverBuild info)) (Some (cr_build req))
       then Inl (ConnectError CeBuildMismatch None) else Inr info)"

text \<open>\<open>requestSignal\<close>: the time a request may take before the deadline.\<close>

definition requestSignal :: "int \<Rightarrow> int \<Rightarrow> int pageAct" where
  "requestSignal deadline timeoutMs = bindE (getE pg_now) (\<lambda>t.
     if deadline - t \<le> 0 then throwE (ConnectError CeUnavailable None) else retE (min timeoutMs (deadline - t)))"

definition fetchBefore :: "network \<Rightarrow> call \<Rightarrow> int \<Rightarrow> int \<Rightarrow> netResponse pageAct" where
  "fetchBefore nw c deadline timeoutMs = bindE (requestSignal deadline timeoutMs) (fetchWithin nw c)"

section \<open>Waiting for a run\<close>

text \<open>
  The sleep between polls. \<open>setTimeout\<close> can fire late, and the page can abort the wait some time into
  it (at once when it already had).
\<close>

definition sleepTo :: "int \<Rightarrow> unit pageAct" where
  "sleepTo t = modE (\<lambda>p. p\<lparr>pg_now := t\<rparr>)"

definition waitOrGiveUp :: "network \<Rightarrow> int \<Rightarrow> unit pageAct" where
  "waitOrGiveUp nw deadline = bindE (getE pg_now) (\<lambda>t. bindE (getE pg_calls) (\<lambda>n.
     let wakes = t + min CONNECT_POLL_MS (deadline - t) + int (nw_late nw n) in
     case nw_abort nw n of
       Some (0, reason) \<Rightarrow> throwE (Rejected reason)
     | abort \<Rightarrow>
         if t \<ge> deadline then throwE (ConnectError CeUnavailable None)
         else (case abort of
             Some (d, reason) \<Rightarrow> if t + int d < wakes then thenE (sleepTo (t + int d)) (throwE (Rejected reason))
               else thenE (sleepTo wakes) (if wakes > deadline then throwE (ConnectError CeUnavailable None) else retE ())
           | None \<Rightarrow> thenE (sleepTo wakes) (if wakes > deadline then throwE (ConnectError CeUnavailable None) else retE ()))))"

text \<open>The fields of the workspace a poll reads; a body that is not JSON reads as none.\<close>

record polled =
  po_state :: "string option"
  po_stateReason :: "string option"
  po_runId :: "string option"

definition polledOf :: "netResponse \<Rightarrow> polled" where
  "polledOf r = (let w = jget (nr_json r) ''workspace'' in
     \<lparr>po_state = jstr (jget w ''state''), po_stateReason = jstr (jget w ''stateReason''),
      po_runId = jstr (jget w ''workflowRunId'')\<rparr>)"

definition lifecycleSeen :: "polled \<Rightarrow> bool" where
  "lifecycleSeen w \<longleftrightarrow> truthy (po_runId w) \<or> (truthy (po_state w) \<and> po_state w \<noteq> Some ''running'')"

definition settledIn :: "string \<Rightarrow> polled \<Rightarrow> bool" where
  "settledIn state w \<longleftrightarrow> po_state w = Some state \<and> \<not> truthy (po_runId w)"

definition reportPoll :: "polled \<Rightarrow> unit pageAct" where
  "reportPoll w = (if po_state w = Some ''rebuilding'' \<or> po_stateReason w = Some ''rebuild''
     then onProgress ''Upgrading the editor; keeping your files and editor state''
     else whenE (truthy (po_stateReason w)) (onProgress (nullish (po_stateReason w) [])))"

text \<open>What one answer means: the wait is over, or goes on having seen a lifecycle transition or not.\<close>

definition pollVerdict :: "bool \<Rightarrow> netResponse \<Rightarrow> (unit + bool) pageAct" where
  "pollVerdict observed r =
     (if nr_status r = 404 \<or> nr_status r = 410 then throwE (ConnectError CeDeleted (Some (nr_status r)))
      else if nr_status r = 401 then throwE (ConnectError CeUnauthorized (Some 401))
      else if nr_status r = 403 then throwE (ConnectError CeForbidden (Some 403))
      else if \<not> responseOk r then retE (Inr observed)
      else if nr_json r = Some JNull then throwE (Rejected ''TypeError'')
      else let w = polledOf r; seen = observed \<or> lifecycleSeen w in
        thenE (reportPoll w)
        (if settledIn ''running'' w then (if seen then retE (Inl ()) else throwE (ConnectError CeStopped (Some 409)))
         else if settledIn ''stopped'' w then throwE (ConnectError CeStopped (Some 409))
         else if settledIn ''error'' w then throwE (ConnectError CeUnavailable None)
         else retE (Inr seen)))"

definition waitRound :: "network \<Rightarrow> int \<Rightarrow> bool \<Rightarrow> (unit + bool) pageAct" where
  "waitRound nw deadline observed =
     bindE (fetchBefore nw CallStatus deadline 15000) (\<lambda>r.
     bindE (pollVerdict observed r) (\<lambda>v. case v of
        Inl u \<Rightarrow> retE (Inl u)
      | Inr seen \<Rightarrow> thenE (waitOrGiveUp nw deadline) (retE (Inr seen))))"

text \<open>A round that goes on takes a poll interval, or reaches the deadline.\<close>

definition waitRounds :: "int \<Rightarrow> nat" where
  "waitRounds left = Suc (Suc (nat (left div CONNECT_POLL_MS)))"

definition waitForRunning :: "network \<Rightarrow> bool \<Rightarrow> int \<Rightarrow> unit pageAct" where
  "waitForRunning nw afterStopping deadline = bindE (getE pg_now) (\<lambda>t.
     iterE NoRoundsLeft (waitRounds (deadline - t)) (waitRound nw deadline) (\<not> afterStopping))"

section \<open>Connecting\<close>

text \<open>One attempt: the connection, or another attempt, after the session was renewed or not.\<close>

definition connectReply ::
  "network \<Rightarrow> (string \<Rightarrow> bool) \<Rightarrow> (string \<Rightarrow> bool) \<Rightarrow> connectRequest \<Rightarrow> int \<Rightarrow> bool \<Rightarrow> netResponse
   \<Rightarrow> (clientInfo + bool) pageAct" where
  "connectReply nw isWsUrl isDatetime req deadline reminted res = (
     if nr_status res = 200 then
       bindE (jsonOrReject res) (\<lambda>body. case parseConnectInfo isWsUrl isDatetime req body of
         Inl e \<Rightarrow> throwE e | Inr info \<Rightarrow> retE (Inl info))
     else if nr_status res = 202 then
       bindE (jsonOrReject res) (\<lambda>body.
         if body = JNull then throwE (Rejected ''TypeError'')
         else let upgrading = jget (Some body) ''status'' = Some (JStr ''upgrading'') in
           thenE (onProgress (if upgrading then ''Upgrading the editor; keeping your files and editor state''
             else ''boot:resuming''))
           (thenE (waitForRunning nw False deadline)
           (if upgrading then throwE (ConnectError CeBuildMismatch None) else retE (Inr reminted))))
     else if nr_status res = 401 then
       (if reminted then throwE (ConnectError CeUnauthorized (Some 401))
        else bindE (refreshEditorSession nw) (\<lambda>ok.
          if ok then retE (Inr True) else throwE (ConnectError CeUnauthorized (Some 401))))
     else if nr_status res = 402 then throwE (ConnectError CePlanLimit (Some 402))
     else if nr_status res = 403 then throwE (ConnectError CeForbidden (Some 403))
     else if nr_status res = 410 then throwE (ConnectError CeDeleted (Some 410))
     else if nr_status res = 409 then
       (if apiErrorCode res = ''workspace_stopped'' then throwE (ConnectError CeStopped (Some 409))
        else if apiErrorCode res = ''client_build_mismatch'' then throwE (ConnectError CeBuildMismatch (Some 409))
        else throwE (ConnectError CeUnavailable (Some 409)))
     else if nr_status res = 423 then
       thenE (onProgress ''boot:starting'')
       (thenE (waitForRunning nw False deadline) (throwE (ConnectError CeBuildMismatch None)))
     else throwE (ConnectError CeUnavailable (Some (nr_status res))))"

definition connectRound ::
  "network \<Rightarrow> (string \<Rightarrow> bool) \<Rightarrow> (string \<Rightarrow> bool) \<Rightarrow> connectRequest \<Rightarrow> int \<Rightarrow> bool \<Rightarrow> (clientInfo + bool) pageAct" where
  "connectRound nw isWsUrl isDatetime req deadline reminted =
     bindE (fetchBefore nw CallConnect deadline 75000) (connectReply nw isWsUrl isDatetime req deadline reminted)"

text \<open>An attempt that goes on takes a millisecond at least.\<close>

definition connectWorkspacePage ::
  "network \<Rightarrow> (string \<Rightarrow> bool) \<Rightarrow> (string \<Rightarrow> bool) \<Rightarrow> connectRequest \<Rightarrow> clientInfo pageAct" where
  "connectWorkspacePage nw isWsUrl isDatetime req = bindE (getE pg_now) (\<lambda>t.
     let deadline = t + cr_deadlineMs req in
     iterE NoRoundsLeft (Suc (nat (cr_deadlineMs req))) (connectRound nw isWsUrl isDatetime req deadline) False)"

section \<open>Lemmas\<close>

subsection \<open>Time and what was seen\<close>

text \<open>The page at \<open>p\<close> after more calls: time has not gone back, \<open>new\<close> are the answers it got.\<close>

definition sawMore :: "page \<Rightarrow> (call \<times> netResponse) list \<Rightarrow> page \<Rightarrow> bool" where
  "sawMore p new p' \<longleftrightarrow> pg_seen p' = pg_seen p @ new \<and> pg_now p \<le> pg_now p'"

lemma sawMore_refl [simp]: "sawMore p [] p"
  by (simp add: sawMore_def)

lemma sawMore_trans: "sawMore p a q \<Longrightarrow> sawMore q b r \<Longrightarrow> sawMore p (a @ b) r"
  by (simp add: sawMore_def)

lemma wp_fetchWithin:
  assumes "\<And>r q. sawMore p [(c, r)] q \<Longrightarrow> pg_now p + int (nw_elapsed nw (pg_calls p)) \<le> pg_now q
      \<Longrightarrow> pg_now q \<le> pg_now p + ms \<Longrightarrow> Q r q"
    and "\<And>e q. sawMore p [] q \<Longrightarrow> E (Rejected e) q" and "0 \<le> ms"
  shows "wp (fetchWithin nw c ms) Q E p"
proof (cases "int (nw_elapsed nw (pg_calls p)) > ms")
  case True
  then show ?thesis using assms(2,3) by (simp add: wp_def fetchWithin_def Let_def sawMore_def)
next
  case False
  then show ?thesis
    using assms by (cases "nw_answer nw (pg_calls p) c") (simp_all add: wp_def fetchWithin_def Let_def sawMore_def)
qed

lemma wp_fetchBefore:
  assumes "\<And>r q. sawMore p [(c, r)] q \<Longrightarrow> pg_now p + int (nw_elapsed nw (pg_calls p)) \<le> pg_now q
      \<Longrightarrow> pg_now p < deadline \<Longrightarrow> pg_now q \<le> deadline \<Longrightarrow> Q r q"
    and "\<And>e q. sawMore p [] q \<Longrightarrow> e \<noteq> NoRoundsLeft \<Longrightarrow> E e q" and "0 \<le> ms"
  shows "wp (fetchBefore nw c deadline ms) Q E p"
proof (cases "deadline - pg_now p \<le> 0")
  case True
  then show ?thesis using assms(2) [of p] by (simp add: fetchBefore_def requestSignal_def wp_simps)
next
  case False
  have "wp (fetchWithin nw c (min ms (deadline - pg_now p))) Q E p"
    by (rule wp_fetchWithin) (use False assms in auto)
  with False show ?thesis by (simp add: fetchBefore_def requestSignal_def wp_simps)
qed

lemma wp_refreshEditorSession:
  assumes "\<And>b q new. sawMore p new q \<Longrightarrow> length new \<le> 1 \<Longrightarrow> Q b q"
  shows "wp (refreshEditorSession nw) Q E p"
proof -
  have "wp (fetchWithin nw CallSession 15000) (\<lambda>r q. \<exists>new. sawMore p new q \<and> length new \<le> 1)
      (\<lambda>_ q. \<exists>new. sawMore p new q \<and> length new \<le> 1) p"
    by (rule wp_fetchWithin) (auto intro: exI [where x = "[]"] exI [where x = "[x]" for x])
  then show ?thesis
    unfolding refreshEditorSession_def wp_catch wp_bind
    by (rule wp_mono) (use assms in \<open>auto simp: wp_simps\<close>)
qed

subsection \<open>The wait\<close>

definition waitMeasure :: "int \<Rightarrow> page \<Rightarrow> nat" where
  "waitMeasure deadline p = (if pg_now p \<ge> deadline then 0 else Suc (nat ((deadline - pg_now p) div CONNECT_POLL_MS)))"

lemma waitMeasure_less:
  assumes "pg_now p < deadline" and "pg_now q \<ge> deadline \<or> pg_now q \<ge> pg_now p + CONNECT_POLL_MS"
  shows "waitMeasure deadline q < waitMeasure deadline p"
proof (cases "pg_now q \<ge> deadline")
  case False
  with assms have "(deadline - pg_now q) div CONNECT_POLL_MS \<le> (deadline - pg_now p - CONNECT_POLL_MS) div CONNECT_POLL_MS"
    by (intro zdiv_mono1) (simp_all add: CONNECT_POLL_MS_def)
  also have "\<dots> = (deadline - pg_now p) div CONNECT_POLL_MS - 1" by (simp add: CONNECT_POLL_MS_def)
  moreover have "0 \<le> (deadline - pg_now q) div CONNECT_POLL_MS"
    using False by (simp add: CONNECT_POLL_MS_def pos_imp_zdiv_nonneg_iff)
  ultimately show ?thesis using False assms(1) by (simp add: waitMeasure_def)
qed (use assms(1) in \<open>simp add: waitMeasure_def\<close>)

lemma waitMeasure_rounds: "waitMeasure deadline p < waitRounds (deadline - pg_now p)"
  by (simp add: waitMeasure_def waitRounds_def)

lemma wp_waitOrGiveUp:
  "wp (waitOrGiveUp nw deadline) (\<lambda>_ q. sawMore p [] q \<and> waitMeasure deadline q < waitMeasure deadline p)
     (\<lambda>e q. sawMore p [] q \<and> e \<noteq> NoRoundsLeft) p"
proof -
  have go: "waitMeasure deadline (p\<lparr>pg_now := pg_now p + min CONNECT_POLL_MS (deadline - pg_now p) + int k\<rparr>)
      < waitMeasure deadline p" if "pg_now p < deadline" for k
    by (rule waitMeasure_less [OF that]) (auto simp: min_def)
  have poll: "0 \<le> CONNECT_POLL_MS" by (simp add: CONNECT_POLL_MS_def)
  show ?thesis
    using go go [of 0] poll
    by (auto simp: waitOrGiveUp_def wp_simps Let_def sleepTo_def sawMore_def min_def split: option.split nat.split)
qed

definition polls :: "(call \<times> netResponse) list \<Rightarrow> bool" where
  "polls new \<longleftrightarrow> list_all (\<lambda>x. fst x = CallStatus) new"

lemma polls_simps [simp]: "polls []" "polls (x # xs) \<longleftrightarrow> fst x = CallStatus \<and> polls xs"
  "polls (xs @ ys) \<longleftrightarrow> polls xs \<and> polls ys"
  by (simp_all add: polls_def)

text \<open>The transition a wait that starts from STOPPING has to have seen.\<close>

definition lifecycleAmong :: "(call \<times> netResponse) list \<Rightarrow> bool" where
  "lifecycleAmong new \<longleftrightarrow> (\<exists>(c, r) \<in> set new. responseOk r \<and> lifecycleSeen (polledOf r))"

definition cameUp :: "netResponse \<Rightarrow> bool" where
  "cameUp r \<longleftrightarrow> responseOk r \<and> settledIn ''running'' (polledOf r)"

lemma wp_pollVerdict:
  "wp (pollVerdict observed r)
     (\<lambda>v q. sawMore p [] q \<and> pg_now q = pg_now p \<and> pg_calls q = pg_calls p
        \<and> (case v of Inl _ \<Rightarrow> cameUp r \<and> (observed \<or> lifecycleSeen (polledOf r))
           | Inr seen \<Rightarrow> seen \<longrightarrow> observed \<or> (responseOk r \<and> lifecycleSeen (polledOf r))))
     (\<lambda>e q. sawMore p [] q \<and> e \<noteq> NoRoundsLeft) p"
  by (simp add: pollVerdict_def reportPoll_def onProgress_def wp_simps Let_def sawMore_def cameUp_def)

lemma settled_not_lifecycle: "settledIn ''running'' w \<Longrightarrow> \<not> lifecycleSeen w"
  by (simp add: settledIn_def lifecycleSeen_def)

definition waitInv :: "bool \<Rightarrow> page \<Rightarrow> bool \<Rightarrow> page \<Rightarrow> bool" where
  "waitInv afterStopping p observed q \<longleftrightarrow>
     (\<exists>new. sawMore p new q \<and> polls new \<and> (observed \<longrightarrow> \<not> afterStopping \<or> lifecycleAmong new))"

definition waitDone :: "bool \<Rightarrow> int \<Rightarrow> page \<Rightarrow> page \<Rightarrow> bool" where
  "waitDone afterStopping deadline p q \<longleftrightarrow> pg_now q \<le> deadline \<and>
     (\<exists>new r. sawMore p (new @ [(CallStatus, r)]) q \<and> polls new \<and> cameUp r
        \<and> (afterStopping \<longrightarrow> lifecycleAmong new))"

definition waitFailed :: "page \<Rightarrow> pageError \<Rightarrow> page \<Rightarrow> bool" where
  "waitFailed p e q \<longleftrightarrow> e \<noteq> NoRoundsLeft \<and> (\<exists>new. sawMore p new q \<and> polls new)"

lemma wp_waitRound:
  assumes "waitInv afterStopping p observed v"
  shows "wp (waitRound nw deadline observed)
     (\<lambda>r v'. case r of Inl x \<Rightarrow> waitDone afterStopping deadline p v'
        | Inr t \<Rightarrow> waitInv afterStopping p t v' \<and> waitMeasure deadline v' < waitMeasure deadline v)
     (waitFailed p) v"
proof -
  from assms obtain new where new: "sawMore p new v" "polls new"
    "observed \<longrightarrow> \<not> afterStopping \<or> lifecycleAmong new" by (auto simp: waitInv_def)
  have fails: "waitFailed p e q" if "e \<noteq> NoRoundsLeft" "sawMore v xs q" "polls xs" for e q xs
    using sawMore_trans [OF new(1) that(2)] new(2) that by (auto simp: waitFailed_def intro!: exI [where x = "new @ xs"])
  show ?thesis
    unfolding waitRound_def wp_bind
  proof (rule wp_fetchBefore)
    fix r q assume q: "sawMore v [(CallStatus, r)] q" "pg_now v < deadline" "pg_now q \<le> deadline"
    note q' = sawMore_trans [OF new(1) q(1)]
    show "wp (pollVerdict observed r) (\<lambda>a. wp (case a of Inl u \<Rightarrow> retE (Inl u)
        | Inr seen \<Rightarrow> thenE (waitOrGiveUp nw deadline) (retE (Inr seen)))
       (\<lambda>r v'. case r of Inl x \<Rightarrow> waitDone afterStopping deadline p v'
        | Inr t \<Rightarrow> waitInv afterStopping p t v' \<and> waitMeasure deadline v' < waitMeasure deadline v) (waitFailed p))
      (waitFailed p) q"
    proof (rule wp_mono [OF wp_pollVerdict [where p = q]])
      fix e u assume "sawMore q [] u \<and> e \<noteq> NoRoundsLeft"
      then show "waitFailed p e u" using fails sawMore_trans [OF q(1), of "[]" u] by auto
    next
      fix a u assume u: "sawMore q [] u \<and> pg_now u = pg_now q \<and> pg_calls u = pg_calls q
        \<and> (case a of Inl _ \<Rightarrow> cameUp r \<and> (observed \<or> lifecycleSeen (polledOf r))
           | Inr seen \<Rightarrow> seen \<longrightarrow> observed \<or> (responseOk r \<and> lifecycleSeen (polledOf r)))"
      show "wp (case a of Inl u \<Rightarrow> retE (Inl u)
        | Inr seen \<Rightarrow> thenE (waitOrGiveUp nw deadline) (retE (Inr seen)))
       (\<lambda>r v'. case r of Inl x \<Rightarrow> waitDone afterStopping deadline p v'
        | Inr t \<Rightarrow> waitInv afterStopping p t v' \<and> waitMeasure deadline v' < waitMeasure deadline v) (waitFailed p) u"
      proof (cases a)
        case (Inl x)
        have "sawMore p (new @ [(CallStatus, r)]) u" using sawMore_trans [OF q' u [THEN conjunct1]] by simp
        moreover have "cameUp r" "observed" using u Inl settled_not_lifecycle by (auto simp: cameUp_def)
        ultimately show ?thesis
          using Inl new q(3) u by (auto simp: wp_simps waitDone_def)
      next
        case (Inr seen)
        have saw: "sawMore p (new @ [(CallStatus, r)]) w" if "sawMore u [] w" for w
          using sawMore_trans [OF sawMore_trans [OF q' u [THEN conjunct1]] that] by simp
        have among: "lifecycleAmong (new @ [(CallStatus, r)])" if "lifecycleAmong new \<or> (responseOk r \<and> lifecycleSeen (polledOf r))"
          using that by (auto simp: lifecycleAmong_def)
        have inv: "waitInv afterStopping p seen w" if "sawMore u [] w" for w
          using saw [OF that] new(2,3) u Inr among unfolding waitInv_def
          by (intro exI [where x = "new @ [(CallStatus, r)]"]) auto
        have "waitMeasure deadline u \<le> waitMeasure deadline v"
          using u q(1) unfolding waitMeasure_def sawMore_def
          by (auto intro!: nat_mono zdiv_mono1 simp: CONNECT_POLL_MS_def)
        then show ?thesis
          unfolding Inr sum.case wp_then
          by (intro wp_mono [OF wp_waitOrGiveUp [where p = u]])
            (auto simp: wp_simps inv intro!: fails [where xs = "[(CallStatus, r)]"]
               dest: sawMore_trans [OF sawMore_trans [OF q(1) u [THEN conjunct1]]])
      qed
    qed
  qed (use fails [where xs = "[]"] in auto)
qed

lemma wp_waitForRunning:
  "wp (waitForRunning nw afterStopping deadline) (\<lambda>_. waitDone afterStopping deadline p) (waitFailed p) p"
  unfolding waitForRunning_def wp_bind wp_get
proof (rule wp_iterE [where I = "waitInv afterStopping p" and \<mu> = "\<lambda>_. waitMeasure deadline"])
  show "waitInv afterStopping p (\<not> afterStopping) p"
    unfolding waitInv_def by (intro exI [where x = "[]"]) simp
qed (simp_all add: waitMeasure_rounds wp_waitRound)

subsection \<open>The connection\<close>

definition renewals :: "(call \<times> netResponse) list \<Rightarrow> nat" where
  "renewals new = length (filter (\<lambda>x. fst x = CallSession) new)"

lemma renewals_simps [simp]: "renewals [] = 0" "renewals (xs @ ys) = renewals xs + renewals ys"
  "renewals (x # xs) = (if fst x = CallSession then Suc (renewals xs) else renewals xs)"
  by (simp_all add: renewals_def)

lemma renewals_polls [simp]: "polls xs \<Longrightarrow> renewals xs = 0"
  by (induction xs) simp_all

lemma renewals_length: "renewals xs \<le> length xs"
  by (simp add: renewals_def)

text \<open>After \<open>p\<close>, with as many renewals of the session as \<open>k\<close> at most.\<close>

definition connecting :: "page \<Rightarrow> nat \<Rightarrow> page \<Rightarrow> bool" where
  "connecting p k q \<longleftrightarrow> (\<exists>new. sawMore p new q \<and> renewals new \<le> k)"

lemma connecting_trans: "connecting p k q \<Longrightarrow> connecting q l r \<Longrightarrow> connecting p (k + l) r"
  unfolding connecting_def by (metis add_mono renewals_simps(2) sawMore_trans)

lemma connecting_mono: "connecting p k q \<Longrightarrow> k \<le> l \<Longrightarrow> connecting p l q"
  unfolding connecting_def by (meson le_trans)

lemma connecting_wait:
  "waitDone a deadline q r \<Longrightarrow> connecting q 0 r" "waitFailed q e r \<Longrightarrow> connecting q 0 r \<and> e \<noteq> NoRoundsLeft"
  unfolding connecting_def waitDone_def waitFailed_def by (fastforce intro: exI [where x = "[]"])+

text \<open>What a page that connected has: the workspace it asked for, on its own build, in time.\<close>

definition connected ::
  "(string \<Rightarrow> bool) \<Rightarrow> (string \<Rightarrow> bool) \<Rightarrow> connectRequest \<Rightarrow> page \<Rightarrow> clientInfo \<Rightarrow> page \<Rightarrow> bool" where
  "connected isWsUrl isDatetime req p info q \<longleftrightarrow>
     ci_workspaceId info = cr_workspaceId req \<and> ci_clientBuild info = cr_build req
     \<and> buildsCompatible (Some (ci_serverBuild info)) (Some (cr_build req))
     \<and> pg_now q \<le> pg_now p + cr_deadlineMs req \<and> connecting p 1 q
     \<and> (\<exists>r j. last (pg_seen q) = (CallConnect, r) \<and> nr_status r = 200 \<and> nr_json r = Some j
          \<and> connectInfoSchema isWsUrl isDatetime j = Some info)"

lemma parseConnectInfo_ok:
  "parseConnectInfo isWsUrl isDatetime req j = Inr info \<Longrightarrow> ci_workspaceId info = cr_workspaceId req
     \<and> ci_clientBuild info = cr_build req \<and> buildsCompatible (Some (ci_serverBuild info)) (Some (cr_build req))
     \<and> connectInfoSchema isWsUrl isDatetime j = Some info"
  by (simp add: parseConnectInfo_def split: option.splits if_splits)

lemma parseConnectInfo_error: "parseConnectInfo isWsUrl isDatetime req j = Inl e \<Longrightarrow> e \<noteq> NoRoundsLeft"
  by (auto simp: parseConnectInfo_def split: option.splits if_splits)

text \<open>What a reply leads to: a connection, an error, a wait or a renewed session.\<close>

lemma wp_connectReply:
  assumes opened: "\<And>j info. nr_status res = 200 \<Longrightarrow> nr_json res = Some j
      \<Longrightarrow> parseConnectInfo isWsUrl isDatetime req j = Inr info \<Longrightarrow> Q (Inl info) q"
    and ends: "\<And>e. e \<noteq> NoRoundsLeft \<Longrightarrow> E e q"
    and waits: "\<And>x. wp (waitForRunning nw False deadline)
      (\<lambda>_ u. Q (Inr reminted) u \<and> E (ConnectError CeBuildMismatch None) u) E (q\<lparr>pg_progress := x\<rparr>)"
    and renews: "\<not> reminted \<Longrightarrow> wp (refreshEditorSession nw)
      (\<lambda>ok u. if ok then Q (Inr True) u else E (ConnectError CeUnauthorized (Some 401)) u) E q"
  shows "wp (connectReply nw isWsUrl isDatetime req deadline reminted res) Q E q"
proof -
  have wait: "wp (waitForRunning nw False deadline) (\<lambda>_ u. wp (if up then throwE (ConnectError CeBuildMismatch None)
      else retE (Inr reminted)) Q E u) E (q\<lparr>pg_progress := x\<rparr>)" for up x
    by (rule wp_mono [OF waits]) (simp_all add: wp_simps)
  have give: "wp (waitForRunning nw False deadline) (\<lambda>_ u. E (ConnectError CeBuildMismatch None) u) E
      (q\<lparr>pg_progress := x\<rparr>)" for x
    by (rule wp_mono [OF waits]) simp_all
  have renew: "wp (refreshEditorSession nw) (\<lambda>ok u. wp (if ok then retE (Inr True)
      else throwE (ConnectError CeUnauthorized (Some 401))) Q E u) E q" if "\<not> reminted"
    by (rule wp_mono [OF renews [OF that]]) (simp_all add: wp_simps)
  have progress: "wp (onProgress t) Q' E q = Q' () (q\<lparr>pg_progress := pg_progress q @ [t]\<rparr>)" for t Q'
    by (simp add: onProgress_def wp_mod)
  have throw: "wp (throwE e) Q E = E e" for e by (simp add: fun_eq_iff wp_throw)
  consider "nr_status res = 200" | "nr_status res = 202" | "nr_status res = 401" | "nr_status res = 423"
    | "nr_status res \<notin> {200, 202, 401, 423}" by blast
  then show ?thesis
  proof cases
    case 1
    then show ?thesis using opened ends parseConnectInfo_error
      by (cases "nr_json res"; cases "parseConnectInfo isWsUrl isDatetime req (the (nr_json res))")
        (auto simp: connectReply_def jsonOrReject_def wp_simps)
  next
    case 2
    then show ?thesis using ends wait [where up = True] wait [where up = False]
      by (cases "nr_json res") (auto simp: connectReply_def jsonOrReject_def wp_bind wp_ret' wp_ret throw wp_throw wp_then Let_def progress)
  next
    case 3
    then show ?thesis using renew ends by (simp add: connectReply_def wp_bind wp_throw)
  next
    case 4
    then show ?thesis using give by (simp add: connectReply_def wp_then throw progress)
  qed (use ends in \<open>simp add: connectReply_def wp_simps\<close>)
qed

lemma wp_connectRound:
  assumes slow: "\<And>n. 0 < nw_elapsed nw n" and inv: "connecting p (if reminted then 1 else 0) v"
    and deadline: "deadline = pg_now p + cr_deadlineMs req"
  shows "wp (connectRound nw isWsUrl isDatetime req deadline reminted)
     (\<lambda>r v'. case r of Inl info \<Rightarrow> connected isWsUrl isDatetime req p info v'
        | Inr t \<Rightarrow> connecting p (if t then 1 else 0) v' \<and> nat (deadline - pg_now v') < nat (deadline - pg_now v))
     (\<lambda>e v'. e \<noteq> NoRoundsLeft \<and> connecting p 1 v') v"
    (is "wp _ ?Q ?E v")
  unfolding connectRound_def wp_bind
proof (rule wp_fetchBefore)
  fix res q
  assume q: "sawMore v [(CallConnect, res)] q" "pg_now v + int (nw_elapsed nw (pg_calls v)) \<le> pg_now q"
    "pg_now v < deadline" "pg_now q \<le> deadline"
  have "connecting v 0 q" using q(1) unfolding connecting_def by (intro exI [where x = "[(CallConnect, res)]"]) simp
  from connecting_trans [OF inv this] have at_q: "connecting p (if reminted then 1 else 0) q" by (simp only: add_0_right)
  have one: "connecting p 1 u" if "connecting q 0 u" for u
    by (rule connecting_mono [OF connecting_trans [OF at_q that]]) simp
  have onward: "connecting p (if reminted then 1 else 0) u \<and> nat (deadline - pg_now u) < nat (deadline - pg_now v)"
    if "waitDone False deadline q u" for u
    using connecting_trans [OF at_q connecting_wait(1) [OF that], unfolded add_0_right] that q(2,3) slow [of "pg_calls v"]
    by (auto simp: waitDone_def sawMore_def)
  have here: "connecting q 0 (q\<lparr>pg_progress := x\<rparr>)" for x
    by (simp add: connecting_def sawMore_def exI [where x = "[]"])
  have seen: "last (pg_seen q) = (CallConnect, res)" using q(1) by (simp add: sawMore_def)
  have refresh: "wp (refreshEditorSession nw) (\<lambda>ok u. connecting q 1 u \<and> pg_now q \<le> pg_now u) ?E q"
    using renewals_length by (intro wp_refreshEditorSession) (fastforce simp: connecting_def sawMore_def intro: le_trans)
  have q1: "connecting p 1 q" by (rule one) (simp add: connecting_def exI [where x = "[]"])
  show "wp (connectReply nw isWsUrl isDatetime req deadline reminted res) ?Q ?E q"
  proof (rule wp_connectReply)
    show "?Q (Inl info) q"
      if "nr_status res = 200" "nr_json res = Some j" "parseConnectInfo isWsUrl isDatetime req j = Inr info" for info j
      using parseConnectInfo_ok [OF that(3)] that q(4) q1 seen deadline by (simp add: connected_def)
    show "?E e q" if "e \<noteq> NoRoundsLeft" for e using that q1 by simp
    show "wp (waitForRunning nw False deadline)
      (\<lambda>_ u. ?Q (Inr reminted) u \<and> ?E (ConnectError CeBuildMismatch None) u) ?E (q\<lparr>pg_progress := x\<rparr>)" for x
    proof (rule wp_mono [OF wp_waitForRunning [where p = "q\<lparr>pg_progress := x\<rparr>"]])
      fix a u assume "waitDone False deadline (q\<lparr>pg_progress := x\<rparr>) u"
      then have "waitDone False deadline q u" by (simp add: waitDone_def sawMore_def)
      then show "?Q (Inr reminted) u \<and> ?E (ConnectError CeBuildMismatch None) u"
        using onward one [OF connecting_wait(1)] by simp
    next
      fix e u assume "waitFailed (q\<lparr>pg_progress := x\<rparr>) e u"
      then show "?E e u" using connecting_wait(2) one connecting_trans [OF here] by fastforce
    qed
    show "wp (refreshEditorSession nw)
      (\<lambda>ok u. if ok then ?Q (Inr True) u else ?E (ConnectError CeUnauthorized (Some 401)) u) ?E q" if "\<not> reminted"
    proof (rule wp_mono [OF refresh])
      fix ok u assume u: "connecting q 1 u \<and> pg_now q \<le> pg_now u"
      have "connecting p 1 u" using connecting_trans [OF at_q u [THEN conjunct1]] that by simp
      then show "if ok then ?Q (Inr True) u else ?E (ConnectError CeUnauthorized (Some 401)) u"
        using u q(2,3) slow [of "pg_calls v"] by simp
    qed simp
  qed
next
  fix e q assume "sawMore v [] q" and e: "e \<noteq> NoRoundsLeft"
  then have "connecting v 0 q" unfolding connecting_def by (intro exI [where x = "[]"]) simp
  from connecting_mono [OF connecting_trans [OF inv this], of 1] e show "?E e q" by simp
qed simp

lemma wp_connectWorkspacePage:
  assumes "\<And>n. 0 < nw_elapsed nw n"
  shows "wp (connectWorkspacePage nw isWsUrl isDatetime req) (connected isWsUrl isDatetime req p)
     (\<lambda>e q. e \<noteq> NoRoundsLeft \<and> connecting p 1 q) p"
  unfolding connectWorkspacePage_def wp_bind wp_get Let_def
proof (rule wp_iterE [where I = "\<lambda>t. connecting p (if t then 1 else 0)"
      and \<mu> = "\<lambda>_ q. nat (pg_now p + cr_deadlineMs req - pg_now q)"])
  show "connecting p (if False then 1 else 0) p" by (simp add: connecting_def exI [where x = "[]"])
  show "wp (connectRound nw isWsUrl isDatetime req (pg_now p + cr_deadlineMs req) t)
     (\<lambda>r v'. case r of Inl info \<Rightarrow> connected isWsUrl isDatetime req p info v'
        | Inr t' \<Rightarrow> connecting p (if t' then 1 else 0) v'
            \<and> nat (pg_now p + cr_deadlineMs req - pg_now v') < nat (pg_now p + cr_deadlineMs req - pg_now v))
     (\<lambda>e q. e \<noteq> NoRoundsLeft \<and> connecting p 1 q) v" if "connecting p (if t then 1 else 0) v" for t v
    by (rule wp_connectRound [OF assms that refl])
qed simp

end
