(* ===== verification/ShellPhase.thy ===== *)
theory ShellPhase
  imports EditorConnect
begin

text \<open>
  What the editor page shows (\<open>app/(editor)/w/[id]/shell-phase.ts\<close>, the error mapping of
  \<open>editor-shell.tsx\<close> and \<open>zs-host.ts\<close>, and the stages of \<open>lib/zed-web.ts\<close>): pure maps from what the
  editor and the control plane report to a phase, with the effect the page has to run.
\<close>

section \<open>Stages\<close>

datatype bootStage = BsBooting | BsAssets | BsSettings | BsConnecting | BsDatabase | BsLanguages
  | BsWindow | BsReady | BsReconnecting | BsStopped | BsFailed

definition ZS_BOOT_STAGES :: "bootStage list" where
  "ZS_BOOT_STAGES = [BsBooting, BsAssets, BsSettings, BsConnecting, BsDatabase, BsLanguages, BsWindow, BsReady]"

fun bootStageText :: "bootStage \<Rightarrow> string" where
  "bootStageText BsBooting = ''booting''"
| "bootStageText BsAssets = ''assets''"
| "bootStageText BsSettings = ''settings''"
| "bootStageText BsConnecting = ''connecting''"
| "bootStageText BsDatabase = ''database''"
| "bootStageText BsLanguages = ''languages''"
| "bootStageText BsWindow = ''window''"
| "bootStageText BsReady = ''ready''"
| "bootStageText BsReconnecting = ''reconnecting''"
| "bootStageText BsStopped = ''stopped''"
| "bootStageText BsFailed = ''failed''"

fun BOOT_STAGE_LABELS :: "bootStage \<Rightarrow> string" where
  "BOOT_STAGE_LABELS BsBooting = ''Starting the editor''"
| "BOOT_STAGE_LABELS BsAssets = ''Loading fonts and themes''"
| "BOOT_STAGE_LABELS BsSettings = ''Applying your settings''"
| "BOOT_STAGE_LABELS BsConnecting = ''Connecting to your workspace''"
| "BOOT_STAGE_LABELS BsDatabase = ''Restoring your layout''"
| "BOOT_STAGE_LABELS BsLanguages = ''Loading languages''"
| "BOOT_STAGE_LABELS BsWindow = ''Opening the window''"
| "BOOT_STAGE_LABELS BsReady = ''Ready''"
| "BOOT_STAGE_LABELS BsReconnecting = ''Reconnecting''"
| "BOOT_STAGE_LABELS BsStopped = ''Stopped''"
| "BOOT_STAGE_LABELS BsFailed = ''Failed''"

text \<open>\<open>xs.indexOf(x)\<close>: \<open>-1\<close> where it does not occur.\<close>

fun jsIndexOf :: "'a list \<Rightarrow> 'a \<Rightarrow> int" where
  "jsIndexOf [] x = -1"
| "jsIndexOf (y # ys) x = (if x = y then 0 else let i = jsIndexOf ys x in if i < 0 then -1 else i + 1)"

text \<open>The fraction as its numerator and denominator.\<close>

definition bootProgressRatio :: "bootStage \<Rightarrow> int \<times> int" where
  "bootProgressRatio stage = (let index = jsIndexOf ZS_BOOT_STAGES stage in
     if index < 0 then (0, 1) else (index + 1, int (length ZS_BOOT_STAGES)))"

text \<open>The stages in the order they occur, the terminal ones last.\<close>

definition stageRank :: "bootStage \<Rightarrow> int" where
  "stageRank s = jsIndexOf (ZS_BOOT_STAGES @ [BsReconnecting, BsStopped, BsFailed]) s"

lemma stageRank_inj: "stageRank a = stageRank b \<longleftrightarrow> a = b"
  by (cases a; cases b) (simp_all add: stageRank_def ZS_BOOT_STAGES_def)

instantiation bootStage :: linorder
begin

definition less_eq_bootStage :: "bootStage \<Rightarrow> bootStage \<Rightarrow> bool" where
  "less_eq_bootStage a b \<longleftrightarrow> stageRank a \<le> stageRank b"

definition less_bootStage :: "bootStage \<Rightarrow> bootStage \<Rightarrow> bool" where
  "less_bootStage a b \<longleftrightarrow> stageRank a < stageRank b"

instance
  by standard (auto simp: less_eq_bootStage_def less_bootStage_def stageRank_inj)

end

section \<open>Phases\<close>

datatype shellStopReason = WhyIdle | WhyUser | WhyCap | WhyError | WhyUnknown

text \<open>A text of the page, or the message of the error that was thrown, which is left out.\<close>

datatype shellMessage = Fixed string | OfError

datatype shellPhase = SpBooting bootStage "string option" | SpReady | SpGraphics bool | SpReconnecting int
  | SpStopped shellStopReason | SpRestarting int | SpUnsupported
  | SpError shellMessage bool "string option"

datatype phaseEffect = Reload | Reauthenticate

record shellTransition =
  tr_phase :: shellPhase
  tr_effect :: "phaseEffect option"

definition showing :: "shellPhase \<Rightarrow> shellTransition" where
  "showing ph = \<lparr>tr_phase = ph, tr_effect = None\<rparr>"

definition TERMINAL_BOOT_CODES :: "string list" where
  "TERMINAL_BOOT_CODES = [''bad_config'', ''bad_host'', ''bad_assets'', ''runtime_missing'', ''ctors_missing'',
     ''settings'', ''database'', ''window'', ''bundle_missing'', ''bundle_invalid'']"

definition BOOT_ERROR_MESSAGES :: "(string \<times> string) list" where
  "BOOT_ERROR_MESSAGES =
    [(''bad_config'', ''The editor rejected its boot configuration.''),
     (''bad_host'', ''The editor rejected the page's host bridge.''),
     (''bad_assets'', ''The editor asset bundle could not be read.''),
     (''runtime_missing'', ''The editor bundle is incomplete.''),
     (''ctors_missing'', ''The editor bundle is incomplete.''),
     (''settings'', ''Your settings could not be applied.''),
     (''database'', ''Your saved layout could not be restored.''),
     (''window'', ''The editor window could not be opened.''),
     (''connect_failed'', ''Could not reach the workspace.''),
     (''reconnect_exhausted'', ''Lost the connection to your workspace.''),
     (''boot_timeout'', ''The editor took too long to start.''),
     (''cancelled'', ''The editor start was cancelled.''),
     (''bundle_missing'', ''The editor bundle is missing from this deployment.''),
     (''bundle_invalid'', ''This deployment contains an invalid or mismatched editor bundle.'')]"

definition bootMessage :: "string \<Rightarrow> string \<Rightarrow> shellMessage" where
  "bootMessage code fallback = Fixed (nullish (map_of BOOT_ERROR_MESSAGES code) fallback)"

definition bootRetryable :: "string \<Rightarrow> bool" where
  "bootRetryable code \<longleftrightarrow> code \<notin> set TERMINAL_BOOT_CODES"

definition errorPhase :: "string \<Rightarrow> string \<Rightarrow> shellPhase" where
  "errorPhase code fallback = SpError (bootMessage code fallback) (bootRetryable code) (Some code)"

definition expiredSession :: "string \<Rightarrow> shellTransition" where
  "expiredSession code = \<lparr>tr_phase = SpError (Fixed ''Your session expired.'') False (Some code),
     tr_effect = Some Reauthenticate\<rparr>"

definition transitionForBootFailure :: "string \<Rightarrow> shellStopReason option \<Rightarrow> shellTransition" where
  "transitionForBootFailure code hint =
    (if code = ''rejoin_required'' then showing (SpError
        (Fixed ''This connection needs a fresh snapshot. Copy any unsynced edits before reloading.'') False (Some code))
     else if code = ''connection_replaced'' then showing (SpError
        (Fixed ''This tab reconnected elsewhere. Reload to join again.'') False (Some code))
     else if code \<in> set [''incompatible_server'', ''build_mismatch'', ''bad_hello''] then
       \<lparr>tr_phase = errorPhase code ''This tab is running an older editor build.'', tr_effect = Some Reload\<rparr>
     else if code = ''unauthorized'' then expiredSession code
     else if code \<in> set [''workspace_stopped'', ''server_stopping'', ''going_away''] then
       showing (SpStopped (nullish hint WhyUnknown))
     else if code = ''quit'' then showing (SpStopped WhyUser)
     else showing (errorPhase code ''The editor stopped unexpectedly.''))"

text \<open>
  \<open>Number.parseInt(s, 10)\<close>: a sign and the digits it starts with, \<open>None\<close> for \<open>NaN\<close>. Integers are exact,
  which a JavaScript number is up to \<open>2^53\<close>.
\<close>

definition parseDecimal :: "string \<Rightarrow> int option" where
  "parseDecimal s = (case dropWhile isSpace s of
      [] \<Rightarrow> None
    | c # cs \<Rightarrow> let body = (if c = CHR ''-'' \<or> c = CHR ''+'' then cs else c # cs); ds = takeWhile isDigit body in
        if ds = [] then None
        else map_option (\<lambda>n. if c = CHR ''-'' then - int n else int n) (readNat ds))"

definition reconnectAttempt :: "string \<Rightarrow> int" where
  "reconnectAttempt detail = (case parseDecimal detail of Some n \<Rightarrow> if n > 0 then n else 1 | None \<Rightarrow> 1)"

text \<open>\<open>detail || undefined\<close>.\<close>

definition orNothing :: "string \<Rightarrow> string option" where
  "orNothing s = (if s = [] then None else Some s)"

definition transitionForBootProgress :: "bootStage \<Rightarrow> string \<Rightarrow> shellStopReason option \<Rightarrow> shellTransition" where
  "transitionForBootProgress stage detail hint = (case stage of
      BsReady \<Rightarrow> showing SpReady
    | BsReconnecting \<Rightarrow> showing (SpReconnecting (reconnectAttempt detail))
    | BsStopped \<Rightarrow> transitionForBootFailure detail hint
    | BsFailed \<Rightarrow> showing (SpError (bootMessage detail ''The editor failed to start.'') (bootRetryable detail)
        (Some (if detail = [] then ''failed'' else detail)))
    | _ \<Rightarrow> showing (SpBooting stage (orNothing detail)))"

definition coversCanvas :: "shellPhase \<Rightarrow> bool" where
  "coversCanvas ph \<longleftrightarrow> ph \<noteq> SpReady"

section \<open>Errors of a connection\<close>

datatype bundleErrorCode = BundleMissing | BundleInvalid

fun bundleCodeText :: "bundleErrorCode \<Rightarrow> string" where
  "bundleCodeText BundleMissing = ''bundle_missing''"
| "bundleCodeText BundleInvalid = ''bundle_invalid''"

text \<open>
  What the page catches: a \<open>BundleError\<close>, a \<open>ConnectError\<close>, a trap of the WASM instance
  (\<open>WebAssembly.RuntimeError\<close>), or anything else with the string code it carries.
\<close>

datatype shellError = FromBundle bundleErrorCode | FromConnect connectErrorCode | Trapped | OtherThrown "string option"

fun connectCodeText :: "connectErrorCode \<Rightarrow> string" where
  "connectCodeText CeStopped = ''stopped''"
| "connectCodeText CeUnauthorized = ''unauthorized''"
| "connectCodeText CeBuildMismatch = ''build_mismatch''"
| "connectCodeText CePlanLimit = ''plan_limit''"
| "connectCodeText CeForbidden = ''forbidden''"
| "connectCodeText CeDeleted = ''deleted''"
| "connectCodeText CeUnavailable = ''unavailable''"

definition thrownBy :: "pageError \<Rightarrow> shellError" where
  "thrownBy e = (case e of ConnectError c st \<Rightarrow> FromConnect c | _ \<Rightarrow> OtherThrown None)"

text \<open>\<open>asBootFailure(err).code\<close>.\<close>

definition asBootFailure :: "shellError \<Rightarrow> string" where
  "asBootFailure e = (case e of FromBundle c \<Rightarrow> bundleCodeText c | FromConnect c \<Rightarrow> connectCodeText c
     | Trapped \<Rightarrow> ''failed'' | OtherThrown c \<Rightarrow> nullish c ''failed'')"

definition transitionForConnectError :: "shellError \<Rightarrow> shellTransition" where
  "transitionForConnectError e = (case e of
      FromBundle c \<Rightarrow> transitionForBootFailure (bundleCodeText c) None
    | Trapped \<Rightarrow> showing (SpError OfError True (Some ''connect_failed''))
    | OtherThrown _ \<Rightarrow> showing (SpError OfError True (Some ''connect_failed''))
    | FromConnect c \<Rightarrow> (case c of
        CeStopped \<Rightarrow> showing (SpStopped WhyUnknown)
      | CeBuildMismatch \<Rightarrow> \<lparr>tr_phase = SpError (Fixed ''This tab is running an older editor build.'') True
          (Some (connectCodeText c)), tr_effect = Some Reload\<rparr>
      | CeUnauthorized \<Rightarrow> expiredSession (connectCodeText c)
      | CePlanLimit \<Rightarrow> showing (SpError OfError False (Some (connectCodeText c)))
      | CeForbidden \<Rightarrow> showing (SpError OfError False (Some (connectCodeText c)))
      | CeDeleted \<Rightarrow> showing (SpError OfError False (Some (connectCodeText c)))
      | CeUnavailable \<Rightarrow> showing (SpError OfError True (Some (connectCodeText c)))))"

text \<open>The three codes the transport branches on: it redials only an unavailable workspace.\<close>

datatype refreshFailure = RfStopped | RfUnauthorized | RfUnavailable

definition refreshFailureFor :: "shellError \<Rightarrow> refreshFailure" where
  "refreshFailureFor e = (case e of
      FromConnect c \<Rightarrow>
        (if c = CeStopped \<or> c = CeDeleted \<or> c = CeBuildMismatch then RfStopped
         else if c = CeUnauthorized \<or> c = CeForbidden \<or> c = CePlanLimit then RfUnauthorized
         else RfUnavailable)
    | _ \<Rightarrow> RfUnavailable)"

section \<open>Lemmas\<close>

lemma transition_simps [simp]: "tr_phase (showing ph) = ph" "tr_effect (showing ph) = None"
  by (simp_all add: showing_def)

text \<open>The overlay's bar only grows through the boot, and is full when the editor is ready.\<close>

lemma progress_mono:
  assumes "a \<in> set ZS_BOOT_STAGES" and "b \<in> set ZS_BOOT_STAGES" and "a \<le> b"
  shows "0 < fst (bootProgressRatio a) \<and> fst (bootProgressRatio a) \<le> fst (bootProgressRatio b)
    \<and> fst (bootProgressRatio b) \<le> 8 \<and> snd (bootProgressRatio a) = 8 \<and> snd (bootProgressRatio b) = 8"
proof -
  have ratio: "bootProgressRatio s = (stageRank s + 1, 8) \<and> 0 \<le> stageRank s \<and> stageRank s < 8"
    if "s \<in> set ZS_BOOT_STAGES" for s
    using that by (cases s) (auto simp: ZS_BOOT_STAGES_def bootProgressRatio_def stageRank_def)
  show ?thesis using ratio [OF assms(1)] ratio [OF assms(2)] assms(3) by (simp add: less_eq_bootStage_def)
qed

lemma reconnectAttempt_pos: "1 \<le> reconnectAttempt detail"
  by (auto simp: reconnectAttempt_def split: option.splits)

text \<open>A phase with the replaced code comes from no connection error.\<close>

definition replacedPhase :: "shellPhase \<Rightarrow> bool" where
  "replacedPhase ph = (case ph of SpError m r (Some c) \<Rightarrow> c = ''connection_replaced'' | _ \<Rightarrow> False)"

text \<open>
  Where the shell offers a retry and where the transport redials: a failure the transport redials is
  one the shell calls retryable, and one it gives up on is not, but for a mismatch, which reloads.
\<close>

lemma refresh_agrees:
  assumes "e \<noteq> FromConnect CeBuildMismatch" and "\<And>c. e \<noteq> FromBundle c"
  shows "refreshFailureFor e = RfUnavailable \<longleftrightarrow>
    (\<exists>m c. tr_phase (transitionForConnectError e) = SpError m True c)"
  using assms
  by (cases e)
    (auto simp: refreshFailureFor_def transitionForConnectError_def expiredSession_def split: connectErrorCode.splits)

end
