(* ===== verification/EditorShell.thy ===== *)
theory EditorShell
  imports ShellPhase
begin

text \<open>
  The editor page as a state machine (\<open>app/(editor)/w/[id]/editor-shell.tsx\<close>): one handler per callback
  of the component, what each promise does when it settles, and the step relation over them. The
  browser is the source of the events. What the page does to the outside (reloads, flushes of the
  client state, reports) is a log; a promise in flight is a task. Timings, measures and the
  texts of diagnostics are left out.
\<close>

section \<open>Session storage\<close>

text \<open>\<open>None\<close> where the browser refuses \<open>sessionStorage\<close>.\<close>

type_synonym tabStore = "(string \<rightharpoonup> string) option"

definition NEXT_BOOT_KEY :: string where "NEXT_BOOT_KEY = ''zsNext''"
definition TAB_ID_KEY :: string where "TAB_ID_KEY = ''zsTabId''"

definition readSessionValue :: "tabStore \<Rightarrow> string \<Rightarrow> string option" where
  "readSessionValue st key = (case st of None \<Rightarrow> None | Some m \<Rightarrow> m key)"

definition writeSessionValue :: "string \<Rightarrow> string option \<Rightarrow> tabStore \<Rightarrow> tabStore" where
  "writeSessionValue key v st = map_option (\<lambda>m. m(key := v)) st"

fun truthyJson :: "json option \<Rightarrow> bool" where
  "truthyJson None = False"
| "truthyJson (Some JNull) = False"
| "truthyJson (Some (JBool b)) = b"
| "truthyJson (Some (JNum n)) = (n \<noteq> 0)"
| "truthyJson (Some (JStr s)) = (s \<noteq> [])"
| "truthyJson (Some _) = True"

text \<open>The intent the last page left: whether it asked for a resume, \<open>None\<close> for no intent.\<close>

definition takeNextBoot :: "tabStore \<Rightarrow> bool option \<times> tabStore" where
  "takeNextBoot st = (let raw = readSessionValue st NEXT_BOOT_KEY; st' = writeSessionValue NEXT_BOOT_KEY None st in
     if \<not> truthy raw then (None, st')
     else (case jsonParse (nullish raw []) of
         Some (JObj kvs) \<Rightarrow> (Some (truthyJson (jget (Some (JObj kvs)) ''again'')), st')
       | Some (JArr js) \<Rightarrow> (Some False, st')
       | _ \<Rightarrow> (None, st')))"

text \<open>\<open>minted\<close> is the fresh identity, a random UUID.\<close>

definition tabId :: "string \<Rightarrow> tabStore \<Rightarrow> string \<times> tabStore" where
  "tabId minted st = (case readSessionValue st TAB_ID_KEY of
      Some i \<Rightarrow> if length i \<ge> 8 then (i, st) else (minted, writeSessionValue TAB_ID_KEY (Some minted) st)
    | None \<Rightarrow> (minted, writeSessionValue TAB_ID_KEY (Some minted) st))"

definition nextBootJson :: "bool \<Rightarrow> string" where
  "nextBootJson again = stringify (JObj (if again then [(''resume'', JBool True)] else []))"

definition sessionReloadUrl :: "string \<Rightarrow> string" where
  "sessionReloadUrl returnTo = ''/login?next='' @ encodeURIComponent
     (if prefix ''/w/'' returnTo \<and> CHR 0x5C \<notin> set returnTo then returnTo else ''/workspaces'')"

section \<open>State\<close>

datatype graphicsState = GfxReady | GfxRecovering | GfxFailed

datatype lifecycleKind = LkIdleStopIn | LkSessionCapIn | LkStopping | LkResumed

text \<open>A toast, with the seconds its text shows.\<close>

datatype shellToast = IdleToast int | CapToast int

fun toastId :: "shellToast \<Rightarrow> string" where
  "toastId (IdleToast n) = ''idle''"
| "toastId (CapToast n) = ''cap''"

datatype reportKind = ReportPanic | ReportBoot | ReportClose | ReportError

text \<open>What the page does: \<open>DoInteractive\<close> tells the updater, \<open>DoAssign\<close> navigates.\<close>

datatype shellEffect = DoReload | DoAssign string | DoFlush | DoHidden bool | DoReport reportKind
  | DoInteractive bool

text \<open>
  Promises in flight: the re-authentication, a keepalive, the wait after STOPPING, the connection and
  documents of the boot, the loading of the bundle, the run of the editor, and a redial.
\<close>

datatype shellTask = TkSession | TkKeepAlive | TkStopWait | TkBoot connectReason | TkLoad | TkStarted | TkRedial

text \<open>
  The refs and states of the component. \<open>sh_runtime\<close>: whether the loaded runtime is still valid;
  \<open>sh_updater\<close>: whether the updater is live; \<open>sh_abort\<close>: whether the controller of the connection is
  aborted; \<open>sh_mounted\<close>: whether the runtime reached the component's state. \<open>sh_reports\<close> is the
  module's count of reports sent.
\<close>

record shell =
  sh_phase :: shellPhase
  sh_toasts :: "shellToast list"
  sh_graphics :: graphicsState
  sh_runtime :: "bool option"
  sh_mounted :: bool
  sh_updater :: "bool option"
  sh_flushAllowed :: bool
  sh_stopReason :: shellStopReason
  sh_versions :: "settingsKind \<Rightarrow> int option"
  sh_crashed :: bool
  sh_abort :: "bool option"
  sh_waiting :: bool
  sh_storage :: tabStore
  sh_reports :: nat
  sh_pending :: "shellTask list"
  sh_log :: "shellEffect list"

definition shellStart :: "tabStore \<Rightarrow> shell" where
  "shellStart st = \<lparr>sh_phase = SpBooting BsBooting None, sh_toasts = [], sh_graphics = GfxReady, sh_runtime = None,
     sh_mounted = False, sh_updater = None, sh_flushAllowed = True, sh_stopReason = WhyUnknown,
     sh_versions = (\<lambda>_. None), sh_crashed = False, sh_abort = None, sh_waiting = False, sh_storage = st,
     sh_reports = 0, sh_pending = [], sh_log = []\<rparr>"

definition doing :: "shellEffect \<Rightarrow> shell \<Rightarrow> shell" where
  "doing e s = s\<lparr>sh_log := sh_log s @ [e]\<rparr>"

definition awaiting :: "shellTask \<Rightarrow> shell \<Rightarrow> shell" where
  "awaiting t s = s\<lparr>sh_pending := t # sh_pending s\<rparr>"

definition settled :: "shellTask \<Rightarrow> shell \<Rightarrow> shell" where
  "settled t s = s\<lparr>sh_pending := remove1 t (sh_pending s)\<rparr>"

section \<open>Handlers\<close>

definition crashPhase :: shellPhase where
  "crashPhase = SpError (Fixed ''The editor crashed. Saved files remain in the sandbox, but unsaved edits may be lost on reload. Download diagnostics before reconnecting.'')
     True (Some ''runtime_crashed'')"

definition runtimeFailed :: "shell \<Rightarrow> shell" where
  "runtimeFailed s = (if sh_crashed s then s
     else s\<lparr>sh_crashed := True, sh_flushAllowed := False, sh_runtime := map_option (\<lambda>_. False) (sh_runtime s),
       sh_updater := map_option (\<lambda>_. False) (sh_updater s), sh_abort := map_option (\<lambda>_. True) (sh_abort s),
       sh_phase := crashPhase\<rparr>)"

text \<open>An automatic report, of which a page sends twenty.\<close>

definition reportClientError :: "reportKind \<Rightarrow> shell \<Rightarrow> shell" where
  "reportClientError kind s = (if sh_reports s \<ge> 20 then s
     else doing (DoReport kind) (s\<lparr>sh_reports := Suc (sh_reports s)\<rparr>))"

definition graphicsChanged :: "graphicsState \<Rightarrow> shell \<Rightarrow> shell" where
  "graphicsChanged g s = s\<lparr>sh_graphics := g\<rparr>"

definition reconnect :: "bool \<Rightarrow> shell \<Rightarrow> shell" where
  "reconnect again s = doing DoReload
     (s\<lparr>sh_storage := writeSessionValue NEXT_BOOT_KEY (Some (nextBootJson again)) (sh_storage s)\<rparr>)"

definition applyTransition :: "shellTransition \<Rightarrow> shell \<Rightarrow> shell" where
  "applyTransition tr s = (if sh_crashed s then s
     else let s1 = s\<lparr>sh_phase := tr_phase tr\<rparr>;
       s2 = (if replacedPhase (tr_phase tr) then s1\<lparr>sh_flushAllowed := False\<rparr> else s1) in
     case tr_effect tr of
       Some Reload \<Rightarrow> doing DoReload s2
     | Some Reauthenticate \<Rightarrow> awaiting TkSession s2
     | None \<Rightarrow> s2)"

definition sessionRefreshed :: "string \<Rightarrow> bool \<Rightarrow> shell \<Rightarrow> shell" where
  "sessionRefreshed wid ok s = (if \<not> ok \<and> \<not> sh_crashed s
     then doing (DoAssign (sessionReloadUrl (''/w/'' @ wid))) s else s)"

definition keptAlive :: "bool \<Rightarrow> shell \<Rightarrow> shell" where
  "keptAlive ok s = (if ok then s\<lparr>sh_toasts := filter (\<lambda>t. toastId t \<noteq> ''idle'') (sh_toasts s)\<rparr>
     else reportClientError ReportError s)"

definition toastFor :: "lifecycleKind \<Rightarrow> int \<Rightarrow> shellToast option" where
  "toastFor kind seconds = (case kind of LkIdleStopIn \<Rightarrow> Some (IdleToast seconds)
     | LkSessionCapIn \<Rightarrow> Some (CapToast seconds) | _ \<Rightarrow> None)"

definition addToast :: "shellToast \<Rightarrow> shellToast list \<Rightarrow> shellToast list" where
  "addToast t ts = filter (\<lambda>e. toastId e \<noteq> toastId t) ts @ [t]"

definition noteStopReason :: "lifecycleKind \<Rightarrow> shell \<Rightarrow> shell" where
  "noteStopReason kind s = (case kind of LkIdleStopIn \<Rightarrow> s\<lparr>sh_stopReason := WhyIdle\<rparr>
     | LkSessionCapIn \<Rightarrow> s\<lparr>sh_stopReason := WhyCap\<rparr> | _ \<Rightarrow> s)"

definition lifecycleNotice :: "lifecycleKind \<Rightarrow> int \<Rightarrow> shell \<Rightarrow> shell" where
  "lifecycleNotice kind seconds s0 = (if sh_crashed s0 then s0
     else let s = noteStopReason kind s0 in
     if kind = LkStopping then
       (if sh_waiting s then s
        else awaiting TkStopWait (s\<lparr>sh_waiting := True, sh_toasts := [],
          sh_phase := SpStopped (if sh_stopReason s = WhyUnknown then WhyUser else sh_stopReason s)\<rparr>))
     else if kind = LkResumed then s\<lparr>sh_stopReason := WhyUnknown, sh_toasts := [],
       sh_phase := (case sh_phase s of SpStopped r \<Rightarrow> SpBooting BsConnecting None
         | SpRestarting n \<Rightarrow> SpBooting BsConnecting None | ph \<Rightarrow> ph)\<rparr>
     else let s1 = (case toastFor kind seconds of Some t \<Rightarrow> s\<lparr>sh_toasts := addToast t (sh_toasts s)\<rparr> | None \<Rightarrow> s) in
       if kind = LkSessionCapIn \<and> seconds \<le> 30 then s1\<lparr>sh_phase := SpRestarting seconds\<rparr> else s1)"

text \<open>The wait after STOPPING: it saw the workspace come back, or it failed.\<close>

definition stopWaitDone :: "shell \<Rightarrow> shell" where
  "stopWaitDone s = (if sh_crashed s then s else doing DoReload (s\<lparr>sh_flushAllowed := False\<rparr>))\<lparr>sh_waiting := False\<rparr>"

definition stopWaitFailed :: "shellError \<Rightarrow> shell \<Rightarrow> shell" where
  "stopWaitFailed e s = (if sh_crashed s then s
     else if e = FromConnect CeStopped then s\<lparr>sh_phase := SpStopped (sh_stopReason s)\<rparr>
     else applyTransition (transitionForConnectError e) s)\<lparr>sh_waiting := False\<rparr>"

text \<open>\<open>onProgress\<close> of a connection or of that wait, and \<open>onStage\<close> of the loader.\<close>

definition bootDetail :: "bootStage \<Rightarrow> string option \<Rightarrow> shell \<Rightarrow> shell" where
  "bootDetail stage detail s = (if sh_crashed s then s else s\<lparr>sh_phase := SpBooting stage detail\<rparr>)"

text \<open>\<open>connect(reason)\<close>, up to its request: a crashed page is refused.\<close>

definition startConnect :: "string \<Rightarrow> shell \<Rightarrow> shell option" where
  "startConnect minted s = (if sh_crashed s then None
     else Some (s\<lparr>sh_abort := Some (nullish (sh_abort s) False),
       sh_storage := snd (tabId minted (sh_storage s))\<rparr>))"

definition bootProgress :: "bootStage \<Rightarrow> string \<Rightarrow> shell \<Rightarrow> shell" where
  "bootProgress stage detail s = applyTransition (transitionForBootProgress stage detail (Some (sh_stopReason s))) s"

definition refreshConnectInfo :: "string \<Rightarrow> shell \<Rightarrow> shell" where
  "refreshConnectInfo minted s = (case startConnect minted s of
      None \<Rightarrow> applyTransition (transitionForConnectError (FromConnect CeUnavailable)) s
    | Some s' \<Rightarrow> awaiting TkRedial s')"

definition redialFailed :: "shellError \<Rightarrow> shell \<Rightarrow> shell" where
  "redialFailed e s = applyTransition (transitionForConnectError e) s"

definition reportError :: "reportKind \<Rightarrow> shell \<Rightarrow> shell" where
  "reportError kind s = reportClientError kind (if kind = ReportPanic then runtimeFailed s else s)"

definition setDocumentVersion :: "settingsKind \<Rightarrow> int option \<Rightarrow> shell \<Rightarrow> shell" where
  "setDocumentVersion kind v s = s\<lparr>sh_versions := (sh_versions s)(kind := v)\<rparr>"

subsection \<open>The boot\<close>

text \<open>\<open>boot()\<close> up to its first \<open>await\<close>.\<close>

definition boot :: "bool \<Rightarrow> string \<Rightarrow> shell \<Rightarrow> shell" where
  "boot isolated minted s = (if \<not> isolated then s\<lparr>sh_phase := SpUnsupported\<rparr>
     else case takeNextBoot (sh_storage s) of (nextBoot, st) \<Rightarrow>
       let s1 = s\<lparr>sh_storage := st, sh_phase := SpBooting BsConnecting None\<rparr> in
       case startConnect minted s1 of None \<Rightarrow> s1
       | Some s2 \<Rightarrow> awaiting (TkBoot (if nextBoot = Some True then ResumeReason else OpenReason)) s2)"

definition bootFetched :: "int option \<Rightarrow> int option \<Rightarrow> shell \<Rightarrow> shell" where
  "bootFetched settings keymap s = (if sh_crashed s then s
     else awaiting TkLoad (s\<lparr>sh_versions := (\<lambda>k. if k = SettingsDoc then settings else if k = KeymapDoc then keymap else None)\<rparr>))"

definition bootLoaded :: "shell \<Rightarrow> shell" where
  "bootLoaded s = awaiting TkStarted (if sh_crashed s then s\<lparr>sh_runtime := Some False\<rparr>
     else s\<lparr>sh_runtime := Some True, sh_mounted := True\<rparr>)"

definition startFailed :: "shellError \<Rightarrow> shell \<Rightarrow> shell" where
  "startFailed e s = (let s1 = (if e = Trapped then runtimeFailed s else s) in
     reportClientError ReportBoot
       (applyTransition (transitionForBootFailure (asBootFailure e) (Some (sh_stopReason s1))) s1))"

definition bootFailed :: "shellError \<Rightarrow> shell \<Rightarrow> shell" where
  "bootFailed e s = (let s1 = s\<lparr>sh_abort := map_option (\<lambda>_. True) (sh_abort s)\<rparr>;
     s2 = (if e = Trapped then runtimeFailed s1 else s1);
     s3 = applyTransition (transitionForConnectError e) s2 in
     if e = FromConnect CeBuildMismatch then s3 else reportClientError ReportBoot s3)"

subsection \<open>The updater, visibility and unload\<close>

definition updaterCreated :: "shell \<Rightarrow> shell" where
  "updaterCreated s = (if \<not> sh_mounted s \<or> sh_crashed s then s else s\<lparr>sh_updater := Some True\<rparr>)"

definition updaterReload :: "shell \<Rightarrow> shell" where
  "updaterReload s = (if sh_crashed s then s else doing DoReload (s\<lparr>sh_flushAllowed := False\<rparr>))"

definition tellInteractive :: "shell \<Rightarrow> shell" where
  "tellInteractive s = (if sh_updater s = None then s
     else doing (DoInteractive (sh_phase s = SpReady \<and> sh_graphics s = GfxReady)) s)"

definition flush :: "shell \<Rightarrow> shell" where
  "flush s = (if \<not> sh_flushAllowed s \<or> sh_runtime s = None then s else doing DoFlush s)"

definition onVisibility :: "bool \<Rightarrow> shell \<Rightarrow> shell" where
  "onVisibility hidden s = (if sh_runtime s = None \<or> sh_crashed s then s
     else let s1 = doing (DoHidden hidden) s in if hidden then flush s1 else s1)"

text \<open>
  Whether leaving the page asks first. \<open>unsaved\<close> is what a valid runtime answers; an invalid one
  answers that there are changes.
\<close>

definition onBeforeUnload :: "bool \<Rightarrow> shell \<Rightarrow> bool" where
  "onBeforeUnload unsaved s \<longleftrightarrow> sh_crashed s \<or> (sh_flushAllowed s \<and>
     (case sh_runtime s of None \<Rightarrow> False | Some valid \<Rightarrow> valid \<longrightarrow> unsaved))"

text \<open>What the overlay renders.\<close>

definition shownPhase :: "shell \<Rightarrow> shellPhase" where
  "shownPhase s = (if sh_phase s = SpReady \<and> sh_graphics s \<noteq> GfxReady then SpGraphics (sh_graphics s = GfxFailed)
     else sh_phase s)"

section \<open>Steps\<close>

text \<open>What happens to a page; only \<open>UserReconnect\<close> is the user asking for a reload.\<close>

datatype shellEvent = Trap | Graphics graphicsState | Progressed bootStage string | Notice lifecycleKind int
  | ConnectDetail string | LoadStage bootStage string | Reported reportKind | KeepAliveClicked | Redial string
  | Effects | UpdaterAsks | Visibility bool | PageHide | UserReconnect bool | SavedVersion settingsKind "int option"
  | SessionSettled bool | KeepAliveSettled bool | StopWaitDone | StopWaitFailed shellError
  | BootFetched "int option" "int option" | BootFailed shellError | Loaded | StartFailed shellError
  | EditorExited | RedialDone | RedialFailed shellError

inductive shellStep :: "string \<Rightarrow> shellEvent \<Rightarrow> shell \<Rightarrow> shell \<Rightarrow> bool" for wid where
  trap: "shellStep wid Trap s (runtimeFailed s)"
| graphics: "shellStep wid (Graphics g) s (graphicsChanged g s)"
| progressed: "sh_runtime s \<noteq> None \<or> TkLoad \<in> set (sh_pending s) \<Longrightarrow>
    shellStep wid (Progressed stage detail) s (bootProgress stage detail s)"
| notice: "sh_runtime s \<noteq> None \<or> TkLoad \<in> set (sh_pending s) \<Longrightarrow>
    shellStep wid (Notice kind n) s (lifecycleNotice kind n s)"
| connectDetail: "sh_abort s \<noteq> None \<Longrightarrow>
    shellStep wid (ConnectDetail d) s (bootDetail BsConnecting (Some d) s)"
| loadStage: "TkLoad \<in> set (sh_pending s) \<Longrightarrow>
    shellStep wid (LoadStage stage d) s (bootDetail stage (orNothing d) s)"
| reported: "shellStep wid (Reported kind) s (reportError kind s)"
| keepAlive: "shellStep wid KeepAliveClicked s (awaiting TkKeepAlive s)"
| redial: "shellStep wid (Redial minted) s (refreshConnectInfo minted s)"
| rendered: "shellStep wid Effects s (tellInteractive (updaterCreated s))"
| updaterAsks: "sh_updater s \<noteq> None \<Longrightarrow> shellStep wid UpdaterAsks s (updaterReload s)"
| visibility: "shellStep wid (Visibility hidden) s (onVisibility hidden s)"
| pageHide: "shellStep wid PageHide s (flush s)"
| userReconnect: "shellStep wid (UserReconnect again) s (reconnect again s)"
| savedVersion: "shellStep wid (SavedVersion kind v) s (setDocumentVersion kind v s)"
| sessionSettled: "TkSession \<in> set (sh_pending s) \<Longrightarrow>
    shellStep wid (SessionSettled ok) s (sessionRefreshed wid ok (settled TkSession s))"
| keepAliveSettled: "TkKeepAlive \<in> set (sh_pending s) \<Longrightarrow>
    shellStep wid (KeepAliveSettled ok) s (keptAlive ok (settled TkKeepAlive s))"
| stopDone: "TkStopWait \<in> set (sh_pending s) \<Longrightarrow>
    shellStep wid StopWaitDone s (stopWaitDone (settled TkStopWait s))"
| stopFailed: "TkStopWait \<in> set (sh_pending s) \<Longrightarrow>
    shellStep wid (StopWaitFailed e) s (stopWaitFailed e (settled TkStopWait s))"
| bootFetched: "TkBoot why \<in> set (sh_pending s) \<Longrightarrow>
    shellStep wid (BootFetched v1 v2) s (bootFetched v1 v2 (settled (TkBoot why) s))"
| bootFailed: "t \<in> set (sh_pending s) \<Longrightarrow> t = TkBoot why \<or> t = TkLoad \<Longrightarrow>
    shellStep wid (BootFailed e) s (bootFailed e (settled t s))"
| loaded: "TkLoad \<in> set (sh_pending s) \<Longrightarrow> shellStep wid Loaded s (bootLoaded (settled TkLoad s))"
| startFailed: "TkStarted \<in> set (sh_pending s) \<Longrightarrow>
    shellStep wid (StartFailed e) s (startFailed e (settled TkStarted s))"
| editorExited: "TkStarted \<in> set (sh_pending s) \<Longrightarrow> shellStep wid EditorExited s (settled TkStarted s)"
| redialDone: "TkRedial \<in> set (sh_pending s) \<Longrightarrow> shellStep wid RedialDone s (settled TkRedial s)"
| redialFailed: "TkRedial \<in> set (sh_pending s) \<Longrightarrow>
    shellStep wid (RedialFailed e) s (redialFailed e (settled TkRedial s))"

inductive_cases shellStepE: "shellStep wid e s s'"

inductive shellRun :: "string \<Rightarrow> shellEvent list \<Rightarrow> shell \<Rightarrow> shell \<Rightarrow> bool" for wid where
  stay: "shellRun wid [] s s"
| go: "shellRun wid es s s' \<Longrightarrow> shellStep wid e s' s'' \<Longrightarrow> shellRun wid (es @ [e]) s s''"

section \<open>Lemmas\<close>

subsection \<open>What every state satisfies\<close>

definition isReport :: "shellEffect \<Rightarrow> bool" where
  "isReport e \<longleftrightarrow> (case e of DoReport k \<Rightarrow> True | _ \<Rightarrow> False)"

text \<open>A crash is final and has let go of everything.\<close>

definition crashedOk :: "shell \<Rightarrow> bool" where
  "crashedOk s \<longleftrightarrow> sh_crashed s \<longrightarrow> sh_phase s = crashPhase \<and> \<not> sh_flushAllowed s \<and> sh_runtime s \<noteq> Some True
     \<and> sh_updater s \<noteq> Some True \<and> sh_abort s \<noteq> Some False"

definition replacedOk :: "shell \<Rightarrow> bool" where
  "replacedOk s \<longleftrightarrow> replacedPhase (sh_phase s) \<longrightarrow> \<not> sh_flushAllowed s"

text \<open>One wait after STOPPING at a time.\<close>

definition waitOk :: "shell \<Rightarrow> bool" where
  "waitOk s \<longleftrightarrow> count_list (sh_pending s) TkStopWait = (if sh_waiting s then 1 else 0)"

definition reportsOk :: "shell \<Rightarrow> bool" where
  "reportsOk s \<longleftrightarrow> length (filter isReport (sh_log s)) = sh_reports s \<and> sh_reports s \<le> 20"

definition shellOk :: "shell \<Rightarrow> bool" where
  "shellOk s \<longleftrightarrow> crashedOk s \<and> replacedOk s \<and> waitOk s \<and> reportsOk s"

lemmas ok_defs = crashedOk_def replacedOk_def waitOk_def reportsOk_def isReport_def

lemmas task_defs = doing_def awaiting_def settled_def

lemma crashPhase_not_replaced [simp]: "\<not> replacedPhase crashPhase"
  by (simp add: crashPhase_def replacedPhase_def)

lemma replaced_simps [simp]:
  "\<not> replacedPhase (SpBooting st d)" "\<not> replacedPhase (SpStopped r)" "\<not> replacedPhase (SpRestarting n)"
  "\<not> replacedPhase SpUnsupported" "\<not> replacedPhase SpReady" "\<not> replacedPhase (SpGraphics g)"
  "\<not> replacedPhase (SpReconnecting n)"
  by (simp_all add: replacedPhase_def)

lemma count_remove1: "count_list (remove1 y xs) x = count_list xs x - (if x = y \<and> y \<in> set xs then 1 else 0)"
  by (induction xs) (auto simp: count_list_0_iff)

lemma ok_failed: "shellOk s \<Longrightarrow> shellOk (runtimeFailed s)"
  by (auto simp: shellOk_def ok_defs runtimeFailed_def)

lemma ok_report: "shellOk s \<Longrightarrow> shellOk (reportClientError k s)"
  by (auto simp: shellOk_def ok_defs reportClientError_def task_defs)

lemma ok_doing: "shellOk s \<Longrightarrow> \<not> isReport e \<Longrightarrow> shellOk (doing e s)"
  by (auto simp: shellOk_def ok_defs task_defs)

lemma ok_awaiting: "shellOk s \<Longrightarrow> t \<noteq> TkStopWait \<Longrightarrow> shellOk (awaiting t s)"
  by (auto simp: shellOk_def ok_defs task_defs)

lemma ok_settled: "shellOk s \<Longrightarrow> t \<noteq> TkStopWait \<Longrightarrow> shellOk (settled t s)"
  by (auto simp: shellOk_def ok_defs task_defs count_remove1)

lemma ok_phase: "shellOk s \<Longrightarrow> \<not> sh_crashed s \<Longrightarrow> \<not> replacedPhase ph \<or> \<not> sh_flushAllowed s \<Longrightarrow>
    shellOk (s\<lparr>sh_phase := ph\<rparr>)"
  by (auto simp: shellOk_def ok_defs)

lemma ok_shut: "shellOk s \<Longrightarrow> \<not> sh_crashed s \<Longrightarrow> shellOk (s\<lparr>sh_phase := ph, sh_flushAllowed := False\<rparr>)"
  by (auto simp: shellOk_def ok_defs)

lemma ok_noflush: "shellOk s \<Longrightarrow> shellOk (s\<lparr>sh_flushAllowed := False\<rparr>)"
  by (auto simp: shellOk_def ok_defs)

lemma ok_same: "shellOk s \<Longrightarrow> replacedPhase (sh_phase s) \<Longrightarrow> \<not> sh_flushAllowed s"
  by (simp add: shellOk_def replacedOk_def)

lemma ok_update [simp]:
  "shellOk (s\<lparr>sh_toasts := ts\<rparr>) = shellOk s" "shellOk (s\<lparr>sh_graphics := g\<rparr>) = shellOk s"
  "shellOk (s\<lparr>sh_stopReason := r\<rparr>) = shellOk s" "shellOk (s\<lparr>sh_versions := v\<rparr>) = shellOk s"
  "shellOk (s\<lparr>sh_storage := st\<rparr>) = shellOk s"
  by (simp_all add: shellOk_def ok_defs)

lemma ok_apply: "shellOk s \<Longrightarrow> shellOk (applyTransition tr s)"
  by (auto simp: applyTransition_def Let_def isReport_def intro!: ok_doing ok_awaiting ok_phase ok_shut
      split: option.splits phaseEffect.splits)

lemma ok_note: "shellOk s \<Longrightarrow> shellOk (noteStopReason kind s)"
  by (simp add: noteStopReason_def split: lifecycleKind.split)

lemma note_same [simp]: "sh_crashed (noteStopReason kind s) = sh_crashed s"
  by (simp add: noteStopReason_def split: lifecycleKind.split)

lemma ok_stopping:
  assumes "shellOk s" and "\<not> sh_crashed s" and "\<not> sh_waiting s"
  shows "shellOk (awaiting TkStopWait (s\<lparr>sh_waiting := True, sh_toasts := [], sh_phase := SpStopped r\<rparr>))"
  using assms by (auto simp: shellOk_def ok_defs task_defs)

lemma ok_notice:
  assumes "shellOk s" shows "shellOk (lifecycleNotice kind n s)"
  using ok_note [OF assms, of kind] ok_same [OF ok_note [OF assms, of kind]] assms
  by (auto simp: lifecycleNotice_def Let_def toastFor_def intro!: ok_stopping ok_phase
      split: lifecycleKind.splits shellPhase.splits)

lemma ok_stopDone: "shellOk s \<Longrightarrow> TkStopWait \<in> set (sh_pending s) \<Longrightarrow> shellOk (stopWaitDone (settled TkStopWait s))"
  by (auto simp: shellOk_def ok_defs stopWaitDone_def task_defs count_remove1 split: if_splits)

definition pageOk :: "shell \<Rightarrow> bool" where
  "pageOk s \<longleftrightarrow> crashedOk s \<and> replacedOk s \<and> reportsOk s \<and> TkStopWait \<notin> set (sh_pending s)"

lemma pageOk_apply: "pageOk s \<Longrightarrow> pageOk (applyTransition tr s)"
  by (cases "tr_effect tr"; cases "the (tr_effect tr)")
    (simp_all add: applyTransition_def Let_def pageOk_def ok_defs task_defs)

lemma ok_stopFailed:
  assumes "shellOk s" and "TkStopWait \<in> set (sh_pending s)"
  shows "shellOk (stopWaitFailed e (settled TkStopWait s))"
proof -
  have one: "count_list (sh_pending s) TkStopWait = 1"
    using assms by (auto simp: shellOk_def waitOk_def count_list_0_iff split: if_splits)
  have free: "shellOk (u\<lparr>sh_waiting := False\<rparr>)" if "pageOk u" for u
    using that by (simp add: pageOk_def shellOk_def ok_defs count_list_0_iff)
  have "TkStopWait \<notin> set (remove1 TkStopWait (sh_pending s))"
    unfolding count_list_0_iff [symmetric] using one assms(2) by (simp add: count_remove1)
  then have base: "pageOk (settled TkStopWait s)"
    using assms(1) by (simp add: pageOk_def shellOk_def ok_defs settled_def)
  have plain: "pageOk (settled TkStopWait s\<lparr>sh_phase := SpStopped r\<rparr>)" if "\<not> sh_crashed s" for r
    using base that by (simp add: pageOk_def ok_defs settled_def)
  show ?thesis
    using free [OF base] free [OF plain] free [OF pageOk_apply [OF base]]
    by (simp add: stopWaitFailed_def settled_def)
qed

lemma ok_detail: "shellOk s \<Longrightarrow> shellOk (bootDetail stage d s)"
  by (auto simp: bootDetail_def intro!: ok_phase)

lemma ok_connect: "shellOk s \<Longrightarrow> startConnect minted s = Some s' \<Longrightarrow> shellOk s'"
  by (auto simp: startConnect_def shellOk_def ok_defs split: if_splits)

lemma ok_redial: "shellOk s \<Longrightarrow> shellOk (refreshConnectInfo minted s)"
  by (auto simp: refreshConnectInfo_def intro!: ok_apply ok_awaiting intro: ok_connect split: option.splits)

lemma ok_start: "shellOk (shellStart st)"
  by (simp add: shellStart_def shellOk_def ok_defs)

lemma ok_boot: "shellOk (boot isolated minted (shellStart st))"
  by (auto simp: boot_def Let_def shellStart_def startConnect_def shellOk_def ok_defs task_defs
      split: prod.splits option.splits)

lemma ok_fetched: "shellOk s \<Longrightarrow> shellOk (bootFetched v1 v2 s)"
  by (auto simp: bootFetched_def intro!: ok_awaiting)

lemma ok_loaded: "shellOk s \<Longrightarrow> shellOk (bootLoaded s)"
  by (auto simp: bootLoaded_def shellOk_def ok_defs task_defs)

lemma ok_aborted: "shellOk s \<Longrightarrow> shellOk (s\<lparr>sh_abort := map_option (\<lambda>_. True) (sh_abort s)\<rparr>)"
  by (auto simp: shellOk_def ok_defs)

lemma ok_startFailed: "shellOk s \<Longrightarrow> shellOk (startFailed e s)"
  by (auto simp: startFailed_def Let_def intro!: ok_report ok_apply ok_failed)

lemma ok_bootFailed: "shellOk s \<Longrightarrow> shellOk (bootFailed e s)"
  by (auto simp: bootFailed_def Let_def intro!: ok_report ok_apply ok_failed ok_aborted)

lemma ok_updater: "shellOk s \<Longrightarrow> shellOk (updaterCreated s)"
  by (auto simp: updaterCreated_def shellOk_def ok_defs)

lemma ok_reload: "shellOk s \<Longrightarrow> shellOk (updaterReload s)"
  by (auto simp: updaterReload_def isReport_def intro!: ok_doing ok_noflush)

lemma ok_interactive: "shellOk s \<Longrightarrow> shellOk (tellInteractive s)"
  by (auto simp: tellInteractive_def isReport_def intro!: ok_doing)

lemma ok_flush: "shellOk s \<Longrightarrow> shellOk (flush s)"
  by (auto simp: flush_def isReport_def intro!: ok_doing)

lemma ok_visibility: "shellOk s \<Longrightarrow> shellOk (onVisibility hidden s)"
  by (auto simp: onVisibility_def Let_def isReport_def intro!: ok_doing ok_flush)

lemma ok_reconnect: "shellOk s \<Longrightarrow> shellOk (reconnect again s)"
  by (auto simp: reconnect_def isReport_def intro!: ok_doing)

lemma ok_reportError: "shellOk s \<Longrightarrow> shellOk (reportError kind s)"
  by (auto simp: reportError_def intro!: ok_report ok_failed)

lemma ok_kept: "shellOk s \<Longrightarrow> shellOk (keptAlive ok s)"
  by (auto simp: keptAlive_def intro!: ok_report)

lemma ok_session: "shellOk s \<Longrightarrow> shellOk (sessionRefreshed wid ok s)"
  by (auto simp: sessionRefreshed_def isReport_def intro!: ok_doing)

lemmas ok_rules = ok_failed ok_apply ok_notice ok_stopDone ok_stopFailed ok_detail ok_redial ok_fetched ok_loaded
  ok_startFailed ok_bootFailed ok_updater ok_reload ok_interactive ok_visibility ok_flush ok_reconnect
  ok_reportError ok_kept ok_session ok_settled ok_awaiting

lemma shellStep_ok: "shellStep wid e s s' \<Longrightarrow> shellOk s \<Longrightarrow> shellOk s'"
  by (induction rule: shellStep.induct)
    (auto simp: bootProgress_def graphicsChanged_def setDocumentVersion_def redialFailed_def intro!: ok_rules)

lemma shellRun_ok: "shellRun wid es s s' \<Longrightarrow> shellOk s \<Longrightarrow> shellOk s'"
  by (induction rule: shellRun.induct) (auto intro: shellStep_ok)

subsection \<open>What a state that has given up still does\<close>

text \<open>A crashed page sends reports and tells its updater that it is not interactive.\<close>

definition afterCrash :: "shellEffect \<Rightarrow> bool" where
  "afterCrash e \<longleftrightarrow> (case e of DoReport k \<Rightarrow> True | DoInteractive b \<Rightarrow> \<not> b | _ \<Rightarrow> False)"

definition later :: "bool \<Rightarrow> shell \<Rightarrow> shell \<Rightarrow> bool" where
  "later user s s' \<longleftrightarrow> (\<exists>new. sh_log s' = sh_log s @ new
     \<and> (\<not> sh_flushAllowed s \<longrightarrow> \<not> sh_flushAllowed s' \<and> DoFlush \<notin> set new)
     \<and> (sh_crashed s \<longrightarrow> sh_crashed s' \<and> sh_phase s' = sh_phase s
         \<and> list_all (\<lambda>e. afterCrash e \<or> user \<and> e = DoReload) new))"

lemma later_trans: "later user s s' \<Longrightarrow> later user s' s'' \<Longrightarrow> later user s s''"
  unfolding later_def by (elim exE conjE) (rule exI, auto)

lemma later_refl [simp]: "later user s s"
  by (simp add: later_def)

lemma later_emit: "sh_log s' = sh_log s @ [e] \<Longrightarrow> sh_flushAllowed s' = sh_flushAllowed s \<Longrightarrow>
    sh_crashed s' = sh_crashed s \<Longrightarrow> sh_phase s' = sh_phase s \<Longrightarrow> (sh_flushAllowed s \<or> e \<noteq> DoFlush) \<Longrightarrow>
    (\<not> sh_crashed s \<or> afterCrash e \<or> user \<and> e = DoReload) \<Longrightarrow> later user s s'"
  by (auto simp: later_def)

lemma later_quiet: "sh_log s' = sh_log s \<Longrightarrow> (sh_flushAllowed s' \<longrightarrow> sh_flushAllowed s) \<Longrightarrow>
    (sh_crashed s \<longrightarrow> sh_crashed s' \<and> sh_phase s' = sh_phase s) \<Longrightarrow> later user s s'"
  by (auto simp: later_def)

text \<open>An uncrashed page may do anything but flush.\<close>

lemma later_free: "\<not> sh_crashed s \<Longrightarrow> sh_log s' = sh_log s @ new \<Longrightarrow> (sh_flushAllowed s' \<longrightarrow> sh_flushAllowed s) \<Longrightarrow>
    DoFlush \<notin> set new \<Longrightarrow> later user s s'"
  by (auto simp: later_def)

lemma later_failed: "later user s (runtimeFailed s)"
  by (rule later_quiet) (simp_all add: runtimeFailed_def)

lemma later_report: "later user s (reportClientError k s)"
  by (cases "sh_reports s \<ge> 20") (auto simp: reportClientError_def doing_def afterCrash_def intro: later_emit)

lemma later_apply: "later user s (applyTransition tr s)"
proof (cases "sh_crashed s")
  case False
  show ?thesis
  proof (cases "tr_effect tr = Some Reload")
    case True
    with False show ?thesis
      by (intro later_free [where new = "[DoReload]"]) (simp_all add: applyTransition_def Let_def task_defs)
  next
    case other: False
    with False show ?thesis
      by (intro later_free [where new = "[]"])
        (auto simp: applyTransition_def Let_def task_defs split: option.splits phaseEffect.splits)
  qed
qed (simp add: applyTransition_def)

lemma later_tasks: "later user s (awaiting t s)" "later user s (settled t s)"
  by (simp_all add: later_quiet task_defs)

lemma later_flush: "shellOk s \<Longrightarrow> later user s (flush s)"
  by (auto simp: flush_def doing_def shellOk_def crashedOk_def intro: later_emit)

lemma later_notice: "later user s (lifecycleNotice kind n s)"
proof (cases "sh_crashed s")
  case False
  have same: "sh_log (noteStopReason k s) = sh_log s" "sh_flushAllowed (noteStopReason k s) = sh_flushAllowed s" for k
    by (simp_all add: noteStopReason_def split: lifecycleKind.split)
  from False show ?thesis
    by (intro later_free [where new = "[]"])
      (simp_all add: lifecycleNotice_def Let_def task_defs toastFor_def same split: lifecycleKind.split)
qed (simp add: lifecycleNotice_def)

lemma later_stopDone: "later user s (stopWaitDone (settled TkStopWait s))"
  by (cases "sh_crashed s")
    (auto simp: stopWaitDone_def task_defs intro: later_quiet later_free [where new = "[DoReload]"])

lemma later_stopFailed: "later user s (stopWaitFailed e (settled TkStopWait s))"
proof -
  have wait: "later user u (v\<lparr>sh_waiting := False\<rparr>) = later user u v" for u v
    by (simp add: later_def)
  have "later user (settled TkStopWait s) (stopWaitFailed e (settled TkStopWait s))"
    by (simp add: stopWaitFailed_def wait later_apply later_quiet)
  with later_tasks(2) show ?thesis by (rule later_trans)
qed

lemma later_detail: "later user s (bootDetail stage d s)"
  by (rule later_quiet) (simp_all add: bootDetail_def)

lemma later_redial: "later user s (refreshConnectInfo minted s)"
  by (cases "sh_crashed s")
    (auto simp: refreshConnectInfo_def startConnect_def task_defs later_apply intro: later_quiet)

lemma later_fetched: "later user s (bootFetched v1 v2 s)"
  by (rule later_quiet) (simp_all add: bootFetched_def task_defs)

lemma later_loaded: "later user s (bootLoaded s)"
  by (rule later_quiet) (simp_all add: bootLoaded_def task_defs)

lemma later_startFailed: "later user s (startFailed e s)"
  unfolding startFailed_def Let_def
  by (cases "e = Trapped")
    (auto intro: later_trans [OF later_failed later_trans [OF later_apply later_report]] later_trans [OF later_apply later_report])

lemma later_bootFailed: "later user s (bootFailed e s)"
proof -
  let ?a = "s\<lparr>sh_abort := map_option (\<lambda>_. True) (sh_abort s)\<rparr>"
  have a: "later user s ?a" by (rule later_quiet) simp_all
  have b: "later user s (if e = Trapped then runtimeFailed ?a else ?a)"
    using later_trans [OF a later_failed] a by simp
  have c: "later user s (applyTransition (transitionForConnectError e) (if e = Trapped then runtimeFailed ?a else ?a))"
    by (rule later_trans [OF b later_apply])
  show ?thesis
  proof (cases "e = FromConnect CeBuildMismatch")
    case True
    show ?thesis unfolding bootFailed_def Let_def if_P [OF True] by (rule c)
  next
    case False
    show ?thesis unfolding bootFailed_def Let_def if_not_P [OF False] by (rule later_trans [OF c later_report])
  qed
qed

lemma later_updater: "later user s (updaterCreated s)"
  by (rule later_quiet) (simp_all add: updaterCreated_def)

lemma later_reload: "later user s (updaterReload s)"
  by (cases "sh_crashed s") (auto simp: updaterReload_def task_defs intro: later_free [where new = "[DoReload]"])

lemma later_interactive: "shellOk s \<Longrightarrow> later user s (tellInteractive s)"
  by (auto simp: tellInteractive_def doing_def afterCrash_def shellOk_def crashedOk_def crashPhase_def intro!: later_emit)

lemma later_visibility: "shellOk s \<Longrightarrow> later user s (onVisibility hidden s)"
proof -
  assume ok: "shellOk s"
  have h: "later user s (doing (DoHidden hidden) s)" if "\<not> sh_crashed s"
    using that by (intro later_free [where new = "[DoHidden hidden]"]) (simp_all add: doing_def)
  have "shellOk (doing (DoHidden hidden) s)" using ok by (simp add: ok_doing isReport_def)
  with h show ?thesis
    by (auto simp: onVisibility_def Let_def dest: h intro: later_trans [OF _ later_flush])
qed

lemma later_reportError: "later user s (reportError kind s)"
  by (auto simp: reportError_def later_report intro: later_trans [OF later_failed later_report])

lemma later_kept: "later user s (keptAlive ok s)"
  by (auto simp: keptAlive_def later_report intro: later_quiet)

lemma later_session: "later user s (sessionRefreshed wid ok s)"
  by (cases "sh_crashed s")
    (auto simp: sessionRefreshed_def doing_def intro: later_free)

lemma later_reconnect: "later True s (reconnect again s)"
  by (auto simp: reconnect_def doing_def intro: later_emit)

lemmas later_rules = later_failed later_apply later_notice later_stopDone later_stopFailed later_detail later_redial
  later_updater later_reload later_interactive later_visibility later_flush later_reportError later_tasks
  later_trans [OF later_tasks(2) later_fetched] later_trans [OF later_tasks(2) later_loaded]
  later_trans [OF later_tasks(2) later_startFailed] later_trans [OF later_tasks(2) later_bootFailed]
  later_trans [OF later_tasks(2) later_kept] later_trans [OF later_tasks(2) later_session]
  later_trans [OF later_tasks(2) later_apply]

lemma shellStep_later:
  assumes "shellStep wid e s s'" and "shellOk s" and "user \<or> (\<forall>r. e \<noteq> UserReconnect r)"
  shows "later user s s'"
  using assms
proof (induction rule: shellStep.induct)
  case (rendered s)
  then show ?case by (intro later_trans [OF later_updater later_interactive] ok_updater)
next
  case (userReconnect again s)
  then show ?case using later_reconnect by (cases user) auto
next
  case (graphics g s)
  show ?case by (rule later_quiet) (simp_all add: graphicsChanged_def)
next
  case (savedVersion kind v s)
  show ?case by (rule later_quiet) (simp_all add: setDocumentVersion_def)
qed (simp_all add: later_rules bootProgress_def redialFailed_def)

definition userAsks :: "shellEvent \<Rightarrow> bool" where
  "userAsks e \<longleftrightarrow> (case e of UserReconnect r \<Rightarrow> True | _ \<Rightarrow> False)"

lemma shellRun_later:
  "shellRun wid es s s' \<Longrightarrow> shellOk s \<Longrightarrow> user \<or> \<not> list_ex userAsks es \<Longrightarrow> later user s s'"
proof (induction rule: shellRun.induct)
  case (go es s s' e s'')
  then have "later user s s'" by auto
  moreover have "later user s' s''"
    by (rule shellStep_later [OF go.hyps(2) shellRun_ok [OF go.hyps(1) go.prems(1)]])
      (use go.prems in \<open>auto simp: userAsks_def\<close>)
  ultimately show ?case by (rule later_trans)
qed simp

text \<open>A page is what its events made of a fresh mount.\<close>

abbreviation pageAfter :: "string \<Rightarrow> bool \<Rightarrow> string \<Rightarrow> tabStore \<Rightarrow> shellEvent list \<Rightarrow> shell \<Rightarrow> bool" where
  "pageAfter wid isolated minted st es \<equiv> shellRun wid es (boot isolated minted (shellStart st))"

lemma pageAfter_ok: "pageAfter wid isolated minted st es s \<Longrightarrow> shellOk s"
  by (erule shellRun_ok) (rule ok_boot)

end
