(* ===== verification/HostDocs.thy ===== *)
theory HostDocs
  imports EditorShell SettingsDocs
begin

text \<open>
  The editor saving a document (\<open>saveDocument\<close> of \<open>zs-host.ts\<close> with \<open>putSettingsDocument\<close> and
  \<open>fetchSettingsDocument\<close> of \<open>api-client.ts\<close>) against the route that stores it. A tab writes one
  document at a time, each write over the version the last one was answered with. A request and its
  answer may be lost, and a lost request may still be served later.
\<close>

section \<open>Requests\<close>

definition putBody :: "string \<Rightarrow> int option \<Rightarrow> string" where
  "putBody content version = stringify (JObj ((''content'', JStr content)
     # (case version of None \<Rightarrow> [] | Some v \<Rightarrow> [(''version'', JNum v)])))"

definition putRequest :: "string \<Rightarrow> int option \<Rightarrow> request" where
  "putRequest content version = (let body = putBody content version in
     \<lparr>rq_header = [''content-type'' \<mapsto> ''application/json'', ''content-length'' \<mapsto> showNat (length body)],
      rq_body = Some [body]\<rparr>)"

text \<open>What \<open>fetchSettingsDocument\<close> makes of an answer: content and version, \<open>None\<close> where it throws.\<close>

definition fetchedDoc :: "netResponse \<Rightarrow> (string \<times> int option) option" where
  "fetchedDoc r =
     (if nr_status r = 404 then Some ([], None)
      else if \<not> responseOk r then None
      else case (jstr (jget (nr_json r) ''content''), jget (nr_json r) ''version'') of
          (Some c, Some JNull) \<Rightarrow> Some (c, None)
        | (Some c, Some (JNum v)) \<Rightarrow> if 0 \<le> v \<and> v \<le> MAX_SAFE_INTEGER then Some (c, Some v) else None
        | _ \<Rightarrow> None)"

section \<open>A tab\<close>

text \<open>
  \<open>dt_version\<close> is \<open>documentVersion(kind)\<close>; \<open>dt_flight\<close> the request that was sent, \<open>dt_reply\<close> what the
  server made of it, \<open>dt_queue\<close> the writes behind it; \<open>dt_stray\<close> requests the tab gave up on that
  were not served. \<open>dt_acked\<close> and \<open>dt_failed\<close> are the saves that resolved and that rejected.
\<close>

record docTab =
  dt_version :: "int option"
  dt_flight :: "(string \<times> int option) option"
  dt_reply :: "(err + settingsDocView) option"
  dt_queue :: "string list"
  dt_stray :: "(string \<times> int option) list"
  dt_acked :: "string list"
  dt_failed :: "string list"

definition docTabStart :: "int option \<Rightarrow> docTab" where
  "docTabStart v = \<lparr>dt_version = v, dt_flight = None, dt_reply = None, dt_queue = [], dt_stray = [],
     dt_acked = [], dt_failed = []\<rparr>"

text \<open>The next write goes out with the version of now.\<close>

definition dispatch :: "docTab \<Rightarrow> docTab" where
  "dispatch t = (case dt_queue t of
      [] \<Rightarrow> t\<lparr>dt_flight := None, dt_reply := None\<rparr>
    | c # cs \<Rightarrow> t\<lparr>dt_flight := Some (c, dt_version t), dt_reply := None, dt_queue := cs\<rparr>)"

definition saveDocument :: "string \<Rightarrow> docTab \<Rightarrow> docTab" where
  "saveDocument c t = (if dt_flight t = None then t\<lparr>dt_flight := Some (c, dt_version t)\<rparr>
     else t\<lparr>dt_queue := dt_queue t @ [c]\<rparr>)"

definition sentContent :: "docTab \<Rightarrow> string list" where
  "sentContent t = (case dt_flight t of None \<Rightarrow> [] | Some (c, v) \<Rightarrow> [c])"

definition answered :: "(err + settingsDocView) \<Rightarrow> docTab \<Rightarrow> docTab" where
  "answered r t = dispatch (case r of
      Inl e \<Rightarrow> t\<lparr>dt_failed := dt_failed t @ sentContent t\<rparr>
    | Inr d \<Rightarrow> t\<lparr>dt_version := Some (sv_version d), dt_acked := dt_acked t @ sentContent t\<rparr>)"

definition gaveUp :: "docTab \<Rightarrow> docTab" where
  "gaveUp t = dispatch (t\<lparr>dt_failed := dt_failed t @ sentContent t,
     dt_stray := dt_stray t @ (if dt_reply t = None then (case dt_flight t of None \<Rightarrow> [] | Some q \<Rightarrow> [q]) else [])\<rparr>)"

datatype docEvent = Saves string | Served | Answered | GivenUp | StrayServed

inductive docStep :: "string option \<Rightarrow> string \<Rightarrow> settingsKind \<Rightarrow> docEvent \<Rightarrow> docTab \<times> world \<Rightarrow> docTab \<times> world \<Rightarrow> bool"
  for su i kind where
  saves: "docStep su i kind (Saves c) (t, w) (saveDocument c t, w)"
| served: "dt_flight t = Some (c, v) \<Longrightarrow> dt_reply t = None \<Longrightarrow>
    workspaceDocPut su i (putRequest c v) kind w = (r, w') \<Longrightarrow>
    docStep su i kind Served (t, w) (t\<lparr>dt_reply := Some r\<rparr>, w')"
| answered: "dt_reply t = Some r \<Longrightarrow> docStep su i kind Answered (t, w) (answered r t, w)"
| givenUp: "dt_flight t \<noteq> None \<Longrightarrow> docStep su i kind GivenUp (t, w) (gaveUp t, w)"
| strayServed: "(c, v) \<in> set (dt_stray t) \<Longrightarrow>
    workspaceDocPut su i (putRequest c v) kind w = (r, w') \<Longrightarrow>
    docStep su i kind StrayServed (t, w) (t\<lparr>dt_stray := remove1 (c, v) (dt_stray t)\<rparr>, w')"

inductive docRun :: "string option \<Rightarrow> string \<Rightarrow> settingsKind \<Rightarrow> docEvent list \<Rightarrow> docTab \<times> world \<Rightarrow> docTab \<times> world \<Rightarrow> bool"
  for su i kind where
  none: "docRun su i kind [] s s"
| more: "docRun su i kind es s s' \<Longrightarrow> docStep su i kind e s' s'' \<Longrightarrow> docRun su i kind (es @ [e]) s s''"

text \<open>The contents a run saves, in order.\<close>

definition savedBy :: "docEvent list \<Rightarrow> string list" where
  "savedBy es = concat (map (\<lambda>e. case e of Saves c \<Rightarrow> [c] | _ \<Rightarrow> []) es)"

text \<open>A document the route takes: JSON with comments, within the limit, also once it is quoted.\<close>

definition acceptable :: "string \<Rightarrow> bool" where
  "acceptable c \<longleftrightarrow> isJsonc c \<and> int (length c) \<le> MAX_DOC_BYTES \<and> int (length (stringify (JStr c))) \<le> MAX_DOC_BYTES + 4000"

section \<open>Lemmas\<close>

subsection \<open>What the route makes of a request\<close>

lemma length_showNat: "n < 10 ^ k \<Longrightarrow> 0 < k \<Longrightarrow> length (showNat n) \<le> k"
proof (induction k arbitrary: n)
  case (Suc k)
  show ?case
  proof (cases "n < 10")
    case True
    then show ?thesis by (simp add: showNat.simps [of n])
  next
    case False
    then have "0 < k" using Suc.prems(1) by (cases k) auto
    moreover have "n div 10 < 10 ^ k" using Suc.prems(1) by (simp add: less_mult_imp_div_less mult.commute)
    ultimately have "length (showNat (n div 10)) \<le> k" by (rule Suc.IH [rotated])
    with False show ?thesis by (simp add: showNat.simps [of n])
  qed
qed simp

lemma length_showInt:
  assumes "0 \<le> v" and "v \<le> MAX_SAFE_INTEGER" shows "length (showInt v) \<le> 16"
proof -
  have "nat v < 10 ^ 16" using assms by (simp add: MAX_SAFE_INTEGER_def)
  from length_showNat [OF this] assms(1) show ?thesis by (simp add: showInt_def)
qed

lemma putBody_length: "length (putBody c (Some v)) = length (stringify (JStr c)) + length (showInt v) + 23"
  by (simp add: putBody_def quoteJson_def escapeChar_def)

text \<open>The request of an acceptable document is read back as that document.\<close>

lemma put_parsed:
  assumes "acceptable c" and "0 \<le> v" and "v \<le> MAX_SAFE_INTEGER"
  shows "parseBody (putRequest c (Some v)) putSettingsDocSchema (Some (MAX_DOC_BYTES + 4096))
    = Inr \<lparr>ps_content = c, ps_version = Some v\<rparr>"
proof -
  let ?b = "putBody c (Some v)"
  have len: "int (length ?b) \<le> MAX_DOC_BYTES + 4096"
    using assms(1) length_showInt [OF assms(2,3)] unfolding putBody_length by (simp add: acceptable_def)
  have declared: "declaredLength (putRequest c (Some v)) = Some (int (length ?b))"
  proof -
    have trim: "trimBoth (showNat n) = showNat n" for n
    proof -
      obtain x xs where n: "showNat n = x # xs" using showNat_digits [of n] by (cases "showNat n") auto
      then have "isDigit x" "isDigit (last (showNat n))"
        using showNat_digits [of n] by (auto simp: list_all_iff)
      moreover have "isDigit d \<Longrightarrow> \<not> isSpace d" for d by (auto simp: isDigit_def isSpace_def)
      ultimately show ?thesis using n by (intro trimBoth_id) auto
    qed
    have "readInt (showNat n) = Some (int n)" for n by (rule readInt_showNat)
    then show ?thesis
      using showNat_digits [of "length ?b"] by (simp add: declaredLength_def putRequest_def Let_def trim)
  qed
  have body: "readBodyText (putRequest c (Some v)) (MAX_DOC_BYTES + 4096) = Inr ?b"
    using len declared by (subst readBodyText_eq) (simp_all add: MAX_DOC_BYTES_def putRequest_def Let_def)
  have "?b \<noteq> [] \<and> \<not> isSpace (hd ?b) \<and> \<not> isSpace (last ?b)"
    by (simp add: putBody_def isSpace_def)
  then have blank: "trimBoth ?b \<noteq> []" by (simp add: trimBoth_id)
  have parsed: "jsonParse ?b = Some (JObj [(''content'', JStr c), (''version'', JNum v)])"
    unfolding putBody_def by (simp only: option.case) (rule jsonParse_stringify, simp)
  show ?thesis
    using assms body blank parsed
    by (simp add: parseBody_def putSettingsDocSchema_def zKey_def zOpt_def jget_def zString_def zInt_def
        acceptable_def MAX_DOC_BYTES_def)
qed

subsection \<open>Who may save\<close>

definition entitled :: "string option \<Rightarrow> string \<Rightarrow> string \<Rightarrow> world \<Rightarrow> bool" where
  "entitled su i uid w \<longleftrightarrow> WORKSPACE_ID_RE i \<and> su = Some uid
     \<and> (case selectOne (\<lambda>u. u_id u = uid) (usersT w) of None \<Rightarrow> False | Some u \<Rightarrow> u_deletedAt u = None)
     \<and> (case selectOne (\<lambda>r. ws_id r = i \<and> ownerUserId r = uid) (workspacesT w) of None \<Rightarrow> False
        | Some r \<Rightarrow> deletedAt r = None)"

lemma entitled_docs [simp]: "entitled su i uid (w\<lparr>docsT := ds\<rparr>) = entitled su i uid w"
  by (simp add: entitled_def)

lemma entitled_put:
  assumes "entitled su i uid w" and "acceptable c" and "0 \<le> v" and "v \<le> MAX_SAFE_INTEGER"
  shows "workspaceDocPut su i (putRequest c (Some v)) kind w = writeDoc uid kind c (Some v) w"
proof -
  obtain u where u: "selectOne (\<lambda>u. u_id u = uid) (usersT w) = Some u" "u_deletedAt u = None" and su: "su = Some uid"
    and i: "WORKSPACE_ID_RE i"
    using assms(1) by (auto simp: entitled_def split: option.splits)
  obtain r where r: "selectOne (\<lambda>r. ws_id r = i \<and> ownerUserId r = uid) (workspacesT w) = Some r" "deletedAt r = None"
    using assms(1) by (auto simp: entitled_def split: option.splits)
  have uid: "u_id u = uid" using u(1) by (auto dest: selectOne_Some)
  show ?thesis
    by (simp add: workspaceDocPut_def putDocFor_def requireWorkspaceParam_def assertWorkspaceId_def requireViewer_def
        getViewer_def requireWorkspaceAccess_def ensureUser_def act_defs ofSum_def put_parsed [OF assms(2-4)]
        u r su i uid)
qed

lemma entitled_get:
  assumes "entitled su i uid w" shows "workspaceDocGet su i kind w = (Inr (docAt uid kind w), w)"
proof -
  obtain u where u: "selectOne (\<lambda>u. u_id u = uid) (usersT w) = Some u" "u_deletedAt u = None" and su: "su = Some uid"
    and i: "WORKSPACE_ID_RE i"
    using assms by (auto simp: entitled_def split: option.splits)
  obtain r where r: "selectOne (\<lambda>r. ws_id r = i \<and> ownerUserId r = uid) (workspacesT w) = Some r" "deletedAt r = None"
    using assms by (auto simp: entitled_def split: option.splits)
  have uid: "u_id u = uid" using u(1) by (auto dest: selectOne_Some)
  show ?thesis
    by (simp add: workspaceDocGet_def requireWorkspaceParam_def assertWorkspaceId_def requireViewer_def
        getViewer_def requireWorkspaceAccess_def act_defs readDoc_at u r su i uid)
qed

subsection \<open>A tab that loses no request\<close>

text \<open>Nothing failed, and what is in flight goes out over the version the server has.\<close>

definition flightOk :: "string \<Rightarrow> settingsKind \<Rightarrow> docTab \<Rightarrow> world \<Rightarrow> bool" where
  "flightOk uid kind t w \<longleftrightarrow> (case (dt_flight t, dt_reply t) of
      (None, None) \<Rightarrow> dt_queue t = [] \<and> dt_version t = Some (docVersion uid kind w)
    | (Some (c, v), None) \<Rightarrow> v = Some (docVersion uid kind w) \<and> dt_version t = v
    | (Some (c, v), Some r) \<Rightarrow> r = Inr (docAt uid kind w) \<and> sv_content (docAt uid kind w) = c
    | _ \<Rightarrow> False)"

definition storedOk :: "string \<Rightarrow> settingsKind \<Rightarrow> docTab \<Rightarrow> world \<Rightarrow> bool" where
  "storedOk uid kind t w \<longleftrightarrow> (dt_acked t \<noteq> [] \<and> dt_reply t = None
      \<longrightarrow> sv_content (docAt uid kind w) = last (dt_acked t))"

definition unserved :: "docTab \<Rightarrow> nat" where
  "unserved t = length (dt_queue t) + (if dt_flight t \<noteq> None \<and> dt_reply t = None then 1 else 0)"

definition inSync :: "string option \<Rightarrow> string \<Rightarrow> string \<Rightarrow> settingsKind \<Rightarrow> string list \<Rightarrow> docTab \<times> world \<Rightarrow> bool" where
  "inSync su i uid kind cs s \<longleftrightarrow> (case s of (t, w) \<Rightarrow> entitled su i uid w \<and> list_all acceptable cs
     \<and> dt_acked t @ sentContent t @ dt_queue t = cs \<and> dt_failed t = [] \<and> dt_stray t = []
     \<and> flightOk uid kind t w \<and> storedOk uid kind t w \<and> 0 \<le> docVersion uid kind w)"

text \<open>Versions stay within what a JavaScript number keeps exact.\<close>

definition roomFor :: "string \<Rightarrow> settingsKind \<Rightarrow> nat \<Rightarrow> docTab \<times> world \<Rightarrow> bool" where
  "roomFor uid kind n s \<longleftrightarrow> docVersion uid kind (snd s) + int (unserved (fst s) + n) \<le> MAX_SAFE_INTEGER"

lemma inSync_save:
  assumes "inSync su i uid kind cs (t, w)" and "acceptable c" and "roomFor uid kind (Suc n) (t, w)"
  shows "inSync su i uid kind (cs @ [c]) (saveDocument c t, w) \<and> roomFor uid kind n (saveDocument c t, w)"
  using assms
  by (auto simp: inSync_def saveDocument_def flightOk_def storedOk_def roomFor_def unserved_def sentContent_def
      split: option.splits prod.splits)

lemma inSync_served:
  assumes "inSync su i uid kind cs (t, w)" and "dt_flight t = Some (c, v)" and "dt_reply t = None"
    and "workspaceDocPut su i (putRequest c v) kind w = (r, w')" and "roomFor uid kind n (t, w)"
  shows "inSync su i uid kind cs (t\<lparr>dt_reply := Some r\<rparr>, w') \<and> roomFor uid kind n (t\<lparr>dt_reply := Some r\<rparr>, w')"
proof -
  have ver: "v = Some (docVersion uid kind w)" and c: "acceptable c" and e: "entitled su i uid w"
    and pos: "0 \<le> docVersion uid kind w"
    using assms(1-3) by (auto simp: inSync_def flightOk_def sentContent_def)
  have room: "docVersion uid kind w \<le> MAX_SAFE_INTEGER"
    using assms(2,3,5) by (simp add: roomFor_def)
  have "(r, w') = writeDoc uid kind c (Some (docVersion uid kind w)) w"
    using assms(4) entitled_put [OF e c pos room] by (simp add: ver)
  then have r: "r = Inr \<lparr>sv_content = c, sv_version = docVersion uid kind w + 1\<rparr>" and w': "entitled su i uid w'"
    using c e by (auto simp: writeDoc_outcome acceptable_def split: if_splits)
  have run: "writeDoc uid kind c (Some (docVersion uid kind w)) w
      = (Inr \<lparr>sv_content = c, sv_version = docVersion uid kind w + 1\<rparr>, w')"
    using \<open>(r, w') = _\<close> r by simp
  note at = writeDoc_stored(1) [OF run]
  show ?thesis
    using assms w' at
    by (auto simp: inSync_def flightOk_def storedOk_def roomFor_def unserved_def sentContent_def r docVersion_at)
qed

lemma inSync_answered:
  assumes "inSync su i uid kind cs (t, w)" and "dt_reply t = Some r" and "roomFor uid kind n (t, w)"
  shows "inSync su i uid kind cs (answered r t, w) \<and> roomFor uid kind n (answered r t, w)"
  using assms
  by (cases "dt_queue t")
    (auto simp: inSync_def flightOk_def storedOk_def roomFor_def unserved_def sentContent_def answered_def dispatch_def
      docVersion_at split: option.splits prod.splits)

lemma docRun_sync:
  assumes "docRun su i kind es s s'" and "inSync su i uid kind cs s" and "GivenUp \<notin> set es"
    and "list_all acceptable (savedBy es)" and "roomFor uid kind (length (savedBy es) + n) s"
  shows "inSync su i uid kind (cs @ savedBy es) s' \<and> roomFor uid kind n s'"
  using assms
proof (induction arbitrary: n rule: docRun.induct)
  case (none s)
  then show ?case by (simp add: savedBy_def)
next
  case (more es s s' e s'')
  have saved: "savedBy (es @ [e]) = savedBy es @ savedBy [e]" by (simp add: savedBy_def)
  have "inSync su i uid kind (cs @ savedBy es) s' \<and> roomFor uid kind (length (savedBy [e]) + n) s'"
    using more.prems by (intro more.IH) (simp_all add: saved add.assoc)
  then have sync: "inSync su i uid kind (cs @ savedBy es) s'" and room: "roomFor uid kind (length (savedBy [e]) + n) s'"
    by simp_all
  from more.hyps(2) show ?case
  proof cases
    case (saves c t w)
    then show ?thesis
      using inSync_save [OF sync [unfolded saves(2)], of c n] room more.prems by (simp add: saved savedBy_def)
  next
    case (served t c v w r w')
    then show ?thesis using inSync_served [of su i uid kind _ t w c v r w' n] sync room by (simp add: saved savedBy_def)
  next
    case (answered t r w)
    then show ?thesis using inSync_answered [of su i uid kind _ t w r n] sync room by (simp add: saved savedBy_def)
  next
    case (givenUp t w)
    with more.prems show ?thesis by simp
  next
    case (strayServed c v t w r w')
    with sync show ?thesis by (simp add: inSync_def)
  qed
qed

lemma inSync_start: "entitled su i uid w \<Longrightarrow> 0 \<le> docVersion uid kind w \<Longrightarrow>
    inSync su i uid kind [] (docTabStart (Some (docVersion uid kind w)), w)"
  by (simp add: inSync_def docTabStart_def flightOk_def storedOk_def sentContent_def)

subsection \<open>A document that is too long once quoted\<close>

text \<open>
  The limit of the body leaves 4096 bytes for the envelope, and quoting may take more: a document within
  \<open>MAX_DOC_BYTES\<close> is refused when its quotes and line ends are many.
\<close>

lemma escaped_refused:
  assumes "int (length (stringify (JStr c))) > MAX_DOC_BYTES + 4096"
  shows "parseBody (putRequest c v) putSettingsDocSchema (Some (MAX_DOC_BYTES + 4096)) = Inl payloadTooLarge"
proof -
  have "int (length (putBody c v)) > MAX_DOC_BYTES + 4096"
    using assms by (auto simp: putBody_def split: option.splits)
  then show ?thesis
    by (simp add: parseBody_def readBodyText_eq MAX_DOC_BYTES_def putRequest_def Let_def)
qed

lemma long_lines_refused:
  "isJsonc (replicate 300000 (CHR 0x0A)) \<and> int (length (replicate 300000 (CHR 0x0A))) \<le> MAX_DOC_BYTES
   \<and> parseBody (putRequest (replicate 300000 (CHR 0x0A)) v) putSettingsDocSchema (Some (MAX_DOC_BYTES + 4096))
     = Inl payloadTooLarge"
proof -
  have quoted: "length (concat (map escapeChar (replicate n (CHR 0x0A)))) = 2 * n" for n
    by (induction n) (simp_all add: escapeChar_def)
  have blank: "dropWhile isSpace (replicate n (CHR 0x0A)) = []" for n
    by (induction n) (simp_all add: isSpace_def)
  have strip: "stripJsonc (replicate n (CHR 0x0A)) = replicate n (CHR 0x0A)" for n
    by (induction n) (simp_all add: stripJsonc_Cons)
  have "isJsonc (replicate n (CHR 0x0A))" for n
    by (simp add: isJsonc_def parseJsonc_def strip trimBoth_def blank [unfolded isSpace_def] isSpace_def Let_def)
  moreover have "int (length (stringify (JStr (replicate 300000 (CHR 0x0A))))) > MAX_DOC_BYTES + 4096"
    unfolding stringify.simps quoteJson_def length_Cons length_append quoted by (simp add: MAX_DOC_BYTES_def)
  ultimately show ?thesis using escaped_refused by (simp add: MAX_DOC_BYTES_def)
qed

end
