(* ===== verification/EditorUpdater.thy ===== *)
theory EditorUpdater
  imports EditorShell
begin

text \<open>
  Updating the editor in place (\<open>app/(editor)/w/[id]/editor-updater.ts\<close>): staging a bundle in the
  browser's cache, and the updater as a state machine: at most one check and one installation, the
  controller of the check, disposal. The network is a parameter of each staging; what is shown to the editor
  and done to the page is a log.
\<close>

section \<open>Staging a bundle\<close>

text \<open>
  What a staging meets: the answer to \<open>build.json\<close>, the answers for the files (chunks of the body, \<open>None\<close>
  without one) and at which check of its signal it finds it aborted. A file in the cache is the chunks its
  body is read in.
\<close>

record staging =
  sg_meta :: netResponse
  sg_file :: "string \<Rightarrow> int \<times> string list option"
  sg_aborts :: "nat \<Rightarrow> bool"

type_synonym bundleCache = "string \<rightharpoonup> string list"

datatype stagingError = MetaUnavailable int | InvalidBundle | InvalidSizes | SignalAborted
  | DownloadFailed string int | TooLong string | Incomplete string

text \<open>Files read so far: how often the signal was looked at, the bytes of all files, the last percentage.\<close>

record progress =
  pr_checks :: nat
  pr_loaded :: int
  pr_percent :: int
  pr_shown :: "(int \<times> int) list"

definition bundleFiles :: "json option \<Rightarrow> (string \<times> json option) list" where
  "bundleFiles m = [(''zed_web.js'', jget m ''js_bytes''), (''zed_web_bg.wasm'', jget m ''wasm_bytes''),
     (''zed-assets.tar'', jget m ''assets_bytes'')]"

definition validSize :: "json option \<Rightarrow> int option" where
  "validSize j = (case j of Some (JNum n) \<Rightarrow> if 0 < n \<and> n \<le> MAX_SAFE_INTEGER then Some n else None | _ \<Rightarrow> None)"

fun fileSizes :: "(string \<times> json option) list \<Rightarrow> (string \<times> int) list option" where
  "fileSizes [] = Some []"
| "fileSizes ((f, j) # fs) = (case (validSize j, fileSizes fs) of (Some n, Some ns) \<Rightarrow> Some ((f, n) # ns) | _ \<Rightarrow> None)"

definition validMeta :: "string \<Rightarrow> json option \<Rightarrow> bool" where
  "validMeta build m \<longleftrightarrow> jget m ''build_id'' = Some (JStr build) \<and> jget m ''test_hooks'' = Some (JBool False)
     \<and> jget m ''web_updates'' = Some (JBool True)"

definition checkSignal :: "staging \<Rightarrow> progress \<Rightarrow> (stagingError + unit) \<times> progress" where
  "checkSignal sg p = (if sg_aborts sg (pr_checks p) then Inl SignalAborted else Inr (),
     p\<lparr>pr_checks := Suc (pr_checks p)\<rparr>)"

text \<open>The transform: each chunk counted, the percentage shown when it changes; and \<open>flush\<close> at the end.\<close>

fun pumpChunks :: "staging \<Rightarrow> string \<Rightarrow> int \<Rightarrow> int \<Rightarrow> int \<Rightarrow> string list \<Rightarrow> progress
   \<Rightarrow> (stagingError + unit) \<times> progress" where
  "pumpChunks sg file expected whole bytes [] p =
     (if bytes \<noteq> expected then Inl (Incomplete file) else Inr (), p)"
| "pumpChunks sg file expected whole bytes (c # cs) p =
     (case checkSignal sg p of
        (Inl e, p1) \<Rightarrow> (Inl e, p1)
      | (Inr _, p1) \<Rightarrow>
          let n = int (length c); p2 = p1\<lparr>pr_loaded := pr_loaded p1 + n\<rparr> in
          if bytes + n > expected then (Inl (TooLong file), p2)
          else let percent = pr_loaded p2 * 100 div whole;
             p3 = (if percent \<noteq> pr_percent p2 then p2\<lparr>pr_percent := percent,
                pr_shown := pr_shown p2 @ [(pr_loaded p2, whole)]\<rparr> else p2) in
            pumpChunks sg file expected whole (bytes + n) cs p3)"

text \<open>
  One file: from the cache, else from the network; a copy that does not fit is evicted, unless the
  staging was aborted.
\<close>

definition stageFile :: "staging \<Rightarrow> string \<Rightarrow> int \<Rightarrow> int \<Rightarrow> bundleCache \<Rightarrow> progress
   \<Rightarrow> (stagingError + unit) \<times> bundleCache \<times> progress" where
  "stageFile sg file expected whole cache p = (case checkSignal sg p of
      (Inl e, p1) \<Rightarrow> (Inl e, cache, p1)
    | (Inr _, p1) \<Rightarrow>
        (case (case cache file of Some cs \<Rightarrow> (200, Some cs) | None \<Rightarrow> sg_file sg file) of
           (status, None) \<Rightarrow> (Inl (DownloadFailed file status), cache, p1)
         | (status, Some cs) \<Rightarrow>
             if status < 200 \<or> status \<ge> 300 then (Inl (DownloadFailed file status), cache, p1)
             else (case pumpChunks sg file expected whole 0 cs p1 of
                 (Inr _, p2) \<Rightarrow> (Inr (), cache(file \<mapsto> cs), p2)
               | (Inl e, p2) \<Rightarrow> (Inl e,
                   if e \<noteq> SignalAborted \<and> \<not> sg_aborts sg (pr_checks p2) \<and> cache file \<noteq> None then cache(file := None) else cache, p2))))"

fun stageFiles :: "staging \<Rightarrow> int \<Rightarrow> (string \<times> int) list \<Rightarrow> bundleCache \<Rightarrow> progress
   \<Rightarrow> (stagingError + unit) \<times> bundleCache \<times> progress" where
  "stageFiles sg whole [] cache p = (Inr (), cache, p)"
| "stageFiles sg whole ((f, n) # fs) cache p = (case stageFile sg f n whole cache p of
      (Inl e, cache', p') \<Rightarrow> (Inl e, cache', p')
    | (Inr _, cache', p') \<Rightarrow> stageFiles sg whole fs cache' p')"

definition noProgress :: progress where
  "noProgress = \<lparr>pr_checks = 0, pr_loaded = 0, pr_percent = -1, pr_shown = []\<rparr>"

definition prepareBundle :: "staging \<Rightarrow> string \<Rightarrow> bundleCache \<Rightarrow> (stagingError + unit) \<times> bundleCache \<times> progress" where
  "prepareBundle sg build cache =
     (if \<not> responseOk (sg_meta sg) then (Inl (MetaUnavailable (nr_status (sg_meta sg))), cache, noProgress)
      else if \<not> validMeta build (nr_json (sg_meta sg)) then (Inl InvalidBundle, cache, noProgress)
      else case fileSizes (bundleFiles (nr_json (sg_meta sg))) of
          None \<Rightarrow> (Inl InvalidSizes, cache, noProgress)
        | Some files \<Rightarrow> stageFiles sg (sum_list (map snd files)) files cache noProgress)"

section \<open>The updater\<close>

datatype updateStatus = UsIdle | UsChecking | UsDownloading string "int \<times> int" | UsReady string
  | UsInstalling string | UsError

text \<open>What an updater did: a bundle staged (and what the cache then held), state flushed, release posted, page reloaded.\<close>

datatype updateAct = Staged editorRelease staging bundleCache | Flushed editorRelease | Posted editorRelease
  | Reloaded editorRelease

datatype checkStage = Asking | Staging editorRelease

datatype installStage = Flushing | Posting | AwaitingRun

text \<open>
  \<open>up_pending\<close> is the controller of the check in flight, whether it is aborted; \<open>up_check\<close> that check,
  whether the user asked for it and how far it is; \<open>up_install\<close> the installation and its release.
\<close>

record updater =
  up_prepared :: "editorRelease option"
  up_pending :: "bool option"
  up_check :: "(bool \<times> checkStage) option"
  up_installing :: bool
  up_install :: "(editorRelease \<times> installStage) option"
  up_interactive :: bool
  up_disposed :: bool
  up_cache :: "string \<Rightarrow> bundleCache"
  up_status :: "updateStatus list"
  up_log :: "updateAct list"

definition updaterStart :: "(string \<Rightarrow> bundleCache) \<Rightarrow> updater" where
  "updaterStart caches = \<lparr>up_prepared = None, up_pending = None, up_check = None, up_installing = False,
     up_install = None, up_interactive = False, up_disposed = False, up_cache = caches, up_status = [], up_log = []\<rparr>"

definition telling :: "updateStatus \<Rightarrow> updater \<Rightarrow> updater" where
  "telling st u = u\<lparr>up_status := up_status u @ [st]\<rparr>"

definition acting :: "updateAct \<Rightarrow> updater \<Rightarrow> updater" where
  "acting a u = u\<lparr>up_log := up_log u @ [a]\<rparr>"

definition startCheck :: "bool \<Rightarrow> updater \<Rightarrow> updater" where
  "startCheck manual u = (if \<not> up_interactive u \<or> up_pending u \<noteq> None \<or> up_installing u then u
     else let u1 = u\<lparr>up_pending := Some False, up_check := Some (manual, Asking)\<rparr> in
       if manual then telling UsChecking u1 else u1)"

definition abortPending :: "updater \<Rightarrow> updater" where
  "abortPending u = u\<lparr>up_pending := map_option (\<lambda>_. True) (up_pending u)\<rparr>"

definition setInteractive :: "bool \<Rightarrow> updater \<Rightarrow> updater" where
  "setInteractive v u = (if up_disposed u then u
     else let u1 = u\<lparr>up_interactive := v\<rparr> in if v then startCheck False u1 else abortPending u1)"

definition dispose :: "updater \<Rightarrow> updater" where
  "dispose u = (abortPending u)\<lparr>up_disposed := True, up_interactive := False\<rparr>"

text \<open>The \<open>finally\<close> of a check, and its \<open>catch\<close>.\<close>

definition endCheck :: "updater \<Rightarrow> updater" where
  "endCheck u = u\<lparr>up_pending := None, up_check := None\<rparr>"

definition checkFailed :: "updater \<Rightarrow> updater" where
  "checkFailed u = endCheck (if up_pending u = Some True then u else telling UsError u)"

definition checkAnswered :: "bool \<Rightarrow> editorRelease \<Rightarrow> bool \<Rightarrow> updater \<Rightarrow> updater" where
  "checkAnswered manual rel available u =
     (if up_pending u = Some True then checkFailed u
      else if \<not> available then endCheck (telling UsIdle (u\<lparr>up_prepared := None\<rparr>))
      else if (case up_prepared u of None \<Rightarrow> False | Some p \<Rightarrow> sameRelease p rel)
      then endCheck (if manual then telling (UsReady (er_clientBuild rel)) u else u)
      else telling (UsDownloading (er_clientBuild rel) (0, 1))
        (u\<lparr>up_prepared := None, up_check := Some (manual, Staging rel)\<rparr>))"

text \<open>The staging of a check, to its end.\<close>

definition stagingEnded :: "staging \<Rightarrow> editorRelease \<Rightarrow> updater \<Rightarrow> updater" where
  "stagingEnded sg rel u = (case prepareBundle sg (er_clientBuild rel) (up_cache u (er_clientBuild rel)) of
     (res, cache, p) \<Rightarrow>
       let u1 = u\<lparr>up_cache := (up_cache u)(er_clientBuild rel := cache),
             up_status := up_status u @ map (UsDownloading (er_clientBuild rel)) (pr_shown p)\<rparr> in
       case res of
         Inl e \<Rightarrow> checkFailed u1
       | Inr _ \<Rightarrow> if up_pending u = Some True then checkFailed (acting (Staged rel sg cache) u1)
           else endCheck (telling (UsReady (er_clientBuild rel))
             (acting (Staged rel sg cache) (u1\<lparr>up_prepared := Some rel\<rparr>))))"

definition startInstall :: "updater \<Rightarrow> updater" where
  "startInstall u = (case up_prepared u of
      None \<Rightarrow> u
    | Some rel \<Rightarrow> if up_installing u then u
        else telling (UsInstalling (er_clientBuild rel))
          (u\<lparr>up_installing := True, up_install := Some (rel, Flushing)\<rparr>))"

definition action :: "bool \<Rightarrow> updater \<Rightarrow> updater" where
  "action isInstall u = (if \<not> up_interactive u then u else if isInstall then startInstall u else startCheck True u)"

definition installFailed :: "updater \<Rightarrow> updater" where
  "installFailed u = (let u1 = u\<lparr>up_prepared := None\<rparr>;
       u2 = (if up_disposed u then u1 else telling UsError u1) in u2\<lparr>up_installing := False, up_install := None\<rparr>)"

definition installReload :: "editorRelease \<Rightarrow> updater \<Rightarrow> updater" where
  "installReload rel u = (if up_disposed u then installFailed u
     else (acting (Reloaded rel) u)\<lparr>up_installing := False, up_install := None\<rparr>)"

definition flushEnded :: "bool \<Rightarrow> editorRelease \<Rightarrow> updater \<Rightarrow> updater" where
  "flushEnded ok rel u = (if \<not> ok then installFailed u
     else let u1 = acting (Flushed rel) u in
       if up_disposed u then installFailed u1
       else (acting (Posted rel) u1)\<lparr>up_install := Some (rel, Posting)\<rparr>)"

text \<open>\<open>status\<close> is that of the answer, \<open>None\<close> for a rejection.\<close>

definition postEnded :: "int option \<Rightarrow> editorRelease \<Rightarrow> updater \<Rightarrow> updater" where
  "postEnded status rel u = (case status of
      None \<Rightarrow> installFailed u
    | Some st \<Rightarrow> if (st < 200 \<or> st \<ge> 300) \<and> st \<noteq> 423 then installFailed u
        else if st \<noteq> 200 then u\<lparr>up_install := Some (rel, AwaitingRun)\<rparr>
        else installReload rel u)"

definition waitEnded :: "bool \<Rightarrow> editorRelease \<Rightarrow> updater \<Rightarrow> updater" where
  "waitEnded ok rel u = (if ok then installReload rel u else installFailed u)"

section \<open>Steps\<close>

inductive updaterStep :: "updater \<Rightarrow> updater \<Rightarrow> bool" where
  tick: "\<not> up_disposed u \<Longrightarrow> updaterStep u (startCheck False u)"
| interactive: "updaterStep u (setInteractive v u)"
| disposed: "updaterStep u (dispose u)"
| action: "updaterStep u (action isInstall u)"
| asked: "up_check u = Some (manual, Asking) \<Longrightarrow> updaterStep u (checkAnswered manual rel available u)"
| unanswered: "up_check u = Some (manual, Asking) \<Longrightarrow> updaterStep u (checkFailed u)"
| staged: "up_check u = Some (manual, Staging rel) \<Longrightarrow> updaterStep u (stagingEnded sg rel u)"
| flushed: "up_install u = Some (rel, Flushing) \<Longrightarrow> updaterStep u (flushEnded ok rel u)"
| posted: "up_install u = Some (rel, Posting) \<Longrightarrow> updaterStep u (postEnded status rel u)"
| awaited: "up_install u = Some (rel, AwaitingRun) \<Longrightarrow> updaterStep u (waitEnded ok rel u)"
| otherTab: "updaterStep u (u\<lparr>up_cache := caches\<rparr>)"

section \<open>Lemmas\<close>

subsection \<open>A staged bundle is whole\<close>

definition byteLength :: "string list \<Rightarrow> int" where
  "byteLength cs = int (length (concat cs))"

lemma pumpChunks_length:
  "pumpChunks sg file expected whole bytes cs p = (Inr (), p') \<Longrightarrow> bytes + byteLength cs = expected"
proof (induction cs arbitrary: bytes p)
  case (Cons c cs)
  from Cons.prems obtain p1 where "pumpChunks sg file expected whole (bytes + int (length c)) cs p1 = (Inr (), p')"
    by (auto simp: checkSignal_def Let_def split: if_splits)
  from Cons.IH [OF this] show ?case by (simp add: byteLength_def)
qed (auto simp: byteLength_def split: if_splits)

text \<open>A file of the cache has the declared size after its staging, and no other file changed.\<close>

lemma stageFile_whole:
  assumes "stageFile sg f n whole cache p = (Inr (), cache', p')"
  shows "\<exists>cs. cache' = cache(f \<mapsto> cs) \<and> byteLength cs = n"
  using assms
  by (auto simp: stageFile_def split: sum.splits prod.splits option.splits if_splits dest!: pumpChunks_length)

definition wholeIn :: "bundleCache \<Rightarrow> (string \<times> int) list \<Rightarrow> bool" where
  "wholeIn cache fs \<longleftrightarrow> list_all (\<lambda>(f, n). case cache f of None \<Rightarrow> False | Some cs \<Rightarrow> byteLength cs = n) fs"

lemma stageFiles_whole:
  "stageFiles sg whole fs cache p = (Inr (), cache', p') \<Longrightarrow> distinct (map fst fs) \<Longrightarrow>
    wholeIn cache' fs \<and> (\<forall>f. f \<notin> fst ` set fs \<longrightarrow> cache' f = cache f)"
proof (induction fs arbitrary: cache p)
  case (Cons fn fs)
  obtain f n where fn: "fn = (f, n)" by (cases fn)
  obtain cache1 p1 where one: "stageFile sg f n whole cache p = (Inr (), cache1, p1)"
    and rest: "stageFiles sg whole fs cache1 p1 = (Inr (), cache', p')"
    using Cons.prems(1) by (auto simp: fn split: prod.splits sum.splits)
  from stageFile_whole [OF one] obtain cs where cs: "cache1 = cache(f \<mapsto> cs)" "byteLength cs = n" by auto
  have f: "f \<notin> fst ` set fs" and d: "distinct (map fst fs)" using Cons.prems(2) by (auto simp: fn)
  from Cons.IH [OF rest d]
  have ih: "wholeIn cache' fs" "\<forall>g. g \<notin> fst ` set fs \<longrightarrow> cache' g = cache1 g" by auto
  with f cs show ?case by (auto simp: wholeIn_def fn)
qed (simp add: wholeIn_def)

lemma fileSizes_names: "fileSizes js = Some fs \<Longrightarrow> map fst fs = map fst js"
  by (induction js arbitrary: fs) (auto split: option.splits)

text \<open>What a staging that returned has put in the cache of a build.\<close>

definition stagedWhole :: "string \<Rightarrow> staging \<Rightarrow> bundleCache \<Rightarrow> bool" where
  "stagedWhole build sg cache \<longleftrightarrow> validMeta build (nr_json (sg_meta sg))
     \<and> (case fileSizes (bundleFiles (nr_json (sg_meta sg))) of None \<Rightarrow> False | Some fs \<Rightarrow> wholeIn cache fs)"

lemma prepareBundle_whole:
  assumes "prepareBundle sg build cache = (Inr u, cache', p')" shows "stagedWhole build sg cache'"
proof -
  obtain fs where fs: "fileSizes (bundleFiles (nr_json (sg_meta sg))) = Some fs" and m: "validMeta build (nr_json (sg_meta sg))"
    and run: "stageFiles sg (sum_list (map snd fs)) fs cache noProgress = (Inr (), cache', p')"
    using assms by (auto simp: prepareBundle_def split: if_splits option.splits)
  have "distinct (map fst fs)"
    unfolding fileSizes_names [OF fs] by (simp add: bundleFiles_def)
  from stageFiles_whole [OF run this] fs m show ?thesis by (simp add: stagedWhole_def)
qed

subsection \<open>What every updater satisfies\<close>

text \<open>A release reloaded to was staged, the state flushed and the release posted before, in this order.\<close>

definition stagedFor :: "editorRelease \<Rightarrow> updateAct \<Rightarrow> bool" where
  "stagedFor rel a \<longleftrightarrow> (case a of Staged r sg cache \<Rightarrow> r = rel \<and> stagedWhole (er_clientBuild rel) sg cache | _ \<Rightarrow> False)"

definition stagedIn :: "editorRelease \<Rightarrow> updateAct list \<Rightarrow> bool" where
  "stagedIn rel as \<longleftrightarrow> list_ex (stagedFor rel) as"

definition flushedIn :: "editorRelease \<Rightarrow> updateAct list \<Rightarrow> bool" where
  "flushedIn rel as \<longleftrightarrow> (\<exists>xs ys. as = xs @ Flushed rel # ys \<and> stagedIn rel xs)"

definition postedIn :: "editorRelease \<Rightarrow> updateAct list \<Rightarrow> bool" where
  "postedIn rel as \<longleftrightarrow> (\<exists>xs ys. as = xs @ Posted rel # ys \<and> flushedIn rel xs)"

definition reloadsEarned :: "updateAct list \<Rightarrow> bool" where
  "reloadsEarned as \<longleftrightarrow> (\<forall>xs ys rel. as = xs @ Reloaded rel # ys \<longrightarrow> postedIn rel xs)"

lemma stagedIn_snoc: "stagedIn rel (as @ [a]) \<longleftrightarrow> stagedIn rel as \<or> stagedFor rel a"
  by (auto simp: stagedIn_def)

lemma flushedIn_more: "flushedIn rel as \<Longrightarrow> flushedIn rel (as @ bs)"
  unfolding flushedIn_def by fastforce

lemma flushedIn_snoc: "stagedIn rel as \<Longrightarrow> flushedIn rel (as @ [Flushed rel])"
  unfolding flushedIn_def by blast

lemma postedIn_more: "postedIn rel as \<Longrightarrow> postedIn rel (as @ bs)"
  unfolding postedIn_def by fastforce

lemma postedIn_snoc: "flushedIn rel as \<Longrightarrow> postedIn rel (as @ [Posted rel])"
  unfolding postedIn_def by blast

lemma reloadsEarned_snoc:
  "reloadsEarned (as @ [a]) \<longleftrightarrow> reloadsEarned as \<and> (\<forall>rel. a = Reloaded rel \<longrightarrow> postedIn rel as)"
proof
  assume r: "reloadsEarned (as @ [a])"
  have "postedIn rel xs" if "as = xs @ Reloaded rel # ys" for xs ys rel
    using r that unfolding reloadsEarned_def by (metis append.assoc append_Cons)
  moreover have "postedIn rel as" if "a = Reloaded rel" for rel
    using r that unfolding reloadsEarned_def by blast
  ultimately show "reloadsEarned as \<and> (\<forall>rel. a = Reloaded rel \<longrightarrow> postedIn rel as)"
    unfolding reloadsEarned_def by blast
next
  assume r: "reloadsEarned as \<and> (\<forall>rel. a = Reloaded rel \<longrightarrow> postedIn rel as)"
  show "reloadsEarned (as @ [a])"
    unfolding reloadsEarned_def
  proof (intro allI impI)
    fix xs ys rel assume eq: "as @ [a] = xs @ Reloaded rel # ys"
    show "postedIn rel xs"
    proof (cases ys rule: rev_cases)
      case Nil
      with eq r show ?thesis by simp
    next
      case (snoc ys' y)
      with eq have "as = xs @ Reloaded rel # ys'" by simp
      with r show ?thesis unfolding reloadsEarned_def by blast
    qed
  qed
qed

definition updaterOk :: "updater \<Rightarrow> bool" where
  "updaterOk u \<longleftrightarrow> (up_disposed u \<longrightarrow> \<not> up_interactive u \<and> up_pending u \<noteq> Some False)
     \<and> (up_check u = None \<longleftrightarrow> up_pending u = None) \<and> (up_installing u \<longleftrightarrow> up_install u \<noteq> None)
     \<and> (\<forall>rel. up_prepared u = Some rel \<longrightarrow> stagedIn rel (up_log u))
     \<and> (\<forall>rel st. up_install u = Some (rel, st) \<longrightarrow> stagedIn rel (up_log u) \<and> (st \<noteq> Flushing \<longrightarrow> postedIn rel (up_log u)))
     \<and> reloadsEarned (up_log u)"

lemmas up_defs = telling_def acting_def abortPending_def endCheck_def

lemma updaterOk_start: "updaterOk (updaterStart caches)"
  by (simp add: updaterOk_def updaterStart_def reloadsEarned_def)

lemma updaterOk_check: "updaterOk u \<Longrightarrow> updaterOk (startCheck manual u)"
  by (auto simp: startCheck_def Let_def updaterOk_def up_defs)

lemma updaterOk_abort: "updaterOk u \<Longrightarrow> updaterOk (abortPending u)"
  by (auto simp: updaterOk_def up_defs)

lemma updaterOk_failed: "updaterOk u \<Longrightarrow> updaterOk (checkFailed u)"
  by (auto simp: checkFailed_def updaterOk_def up_defs)

lemma updaterOk_interactive: "updaterOk u \<Longrightarrow> updaterOk (setInteractive v u)"
  by (auto simp: setInteractive_def Let_def updaterOk_def up_defs startCheck_def)

lemma updaterOk_dispose: "updaterOk u \<Longrightarrow> updaterOk (dispose u)"
  by (auto simp: dispose_def updaterOk_def up_defs)

lemma updaterOk_install: "updaterOk u \<Longrightarrow> updaterOk (startInstall u)"
  by (auto simp: startInstall_def updaterOk_def up_defs split: option.splits)

lemma updaterOk_action: "updaterOk u \<Longrightarrow> updaterOk (action isInstall u)"
  by (simp add: action_def updaterOk_install updaterOk_check)

lemma updaterOk_answered:
  "updaterOk u \<Longrightarrow> up_check u = Some (manual, Asking) \<Longrightarrow> updaterOk (checkAnswered manual rel available u)"
  unfolding checkAnswered_def
  by (auto simp: updaterOk_failed) (auto simp: updaterOk_def up_defs)

lemma updaterOk_staged:
  assumes "updaterOk u" and "up_check u = Some (manual, Staging rel)"
  shows "updaterOk (stagingEnded sg rel u)"
proof -
  obtain res cache p where run: "prepareBundle sg (er_clientBuild rel) (up_cache u (er_clientBuild rel)) = (res, cache, p)"
    by (metis prod_cases3)
  show ?thesis
  proof (cases res)
    case (Inl e)
    with assms run show ?thesis
      by (auto simp: stagingEnded_def Let_def updaterOk_def up_defs checkFailed_def)
  next
    case (Inr x)
    then have "stagedFor rel (Staged rel sg cache)"
      using prepareBundle_whole [of sg "er_clientBuild rel"] run by (simp add: stagedFor_def)
    with assms run Inr show ?thesis
      by (auto simp: stagingEnded_def Let_def updaterOk_def up_defs checkFailed_def stagedIn_snoc postedIn_more
          reloadsEarned_snoc)
  qed
qed

lemma updaterOk_installFailed: "updaterOk u \<Longrightarrow> updaterOk (installFailed u)"
  by (auto simp: installFailed_def Let_def updaterOk_def up_defs)

lemma updaterOk_reload: "updaterOk u \<Longrightarrow> postedIn rel (up_log u) \<Longrightarrow> updaterOk (installReload rel u)"
  by (auto simp: installReload_def updaterOk_installFailed)
    (auto simp: updaterOk_def up_defs stagedIn_snoc reloadsEarned_snoc)

lemma updaterOk_act: "updaterOk u \<Longrightarrow> (\<forall>r. a \<noteq> Reloaded r) \<Longrightarrow> updaterOk (acting a u)"
  by (auto simp: updaterOk_def up_defs stagedIn_snoc postedIn_more reloadsEarned_snoc)

lemma updaterOk_stage: "updaterOk u \<Longrightarrow> up_installing u \<Longrightarrow> stagedIn rel (up_log u) \<Longrightarrow> postedIn rel (up_log u) \<Longrightarrow>
    updaterOk (u\<lparr>up_install := Some (rel, st)\<rparr>)"
  by (simp add: updaterOk_def)

lemma updaterOk_flushed:
  assumes "updaterOk u" and "up_install u = Some (rel, Flushing)"
  shows "updaterOk (flushEnded ok rel u)"
proof -
  let ?v = "acting (Posted rel) (acting (Flushed rel) u)"
  have s: "stagedIn rel (up_log u)" and i: "up_installing u" using assms by (simp_all add: updaterOk_def)
  have log: "up_log ?v = (up_log u @ [Flushed rel]) @ [Posted rel]" by (simp add: acting_def)
  have "stagedIn rel (up_log ?v)" unfolding log using s by (simp only: stagedIn_snoc simp_thms)
  moreover have "postedIn rel (up_log ?v)" unfolding log by (intro postedIn_snoc flushedIn_snoc s)
  moreover have "updaterOk ?v" using assms(1) by (simp add: updaterOk_act)
  ultimately have "updaterOk (?v\<lparr>up_install := Some (rel, Posting)\<rparr>)"
    using i by (intro updaterOk_stage) (simp_all add: acting_def)
  with assms(1) show ?thesis
    by (simp add: flushEnded_def Let_def updaterOk_installFailed updaterOk_act)
qed

lemma updaterOk_posted:
  "updaterOk u \<Longrightarrow> up_install u = Some (rel, Posting) \<Longrightarrow> updaterOk (postEnded status rel u)"
  by (auto simp: postEnded_def updaterOk_installFailed intro!: updaterOk_reload updaterOk_stage split: option.splits)
    (auto simp: updaterOk_def)

lemma updaterOk_awaited:
  "updaterOk u \<Longrightarrow> up_install u = Some (rel, AwaitingRun) \<Longrightarrow> updaterOk (waitEnded ok rel u)"
  by (auto simp: waitEnded_def updaterOk_installFailed intro!: updaterOk_reload) (simp add: updaterOk_def)

lemma updaterOk_cache: "updaterOk u \<Longrightarrow> updaterOk (u\<lparr>up_cache := caches\<rparr>)"
  by (simp add: updaterOk_def)

lemma updaterStep_ok: "updaterStep u u' \<Longrightarrow> updaterOk u \<Longrightarrow> updaterOk u'"
  by (induction rule: updaterStep.induct)
    (simp_all add: updaterOk_check updaterOk_interactive updaterOk_dispose updaterOk_action updaterOk_answered
      updaterOk_failed updaterOk_staged updaterOk_flushed updaterOk_posted updaterOk_awaited updaterOk_cache)

lemma updaterRun_ok: "updaterStep\<^sup>*\<^sup>* u u' \<Longrightarrow> updaterOk u \<Longrightarrow> updaterOk u'"
  by (induction rule: rtranclp_induct) (auto intro: updaterStep_ok)

text \<open>A disposed updater posts and reloads nothing any more.\<close>

definition quietAct :: "updateAct \<Rightarrow> bool" where
  "quietAct a \<longleftrightarrow> (case a of Posted r \<Rightarrow> False | Reloaded r \<Rightarrow> False | _ \<Rightarrow> True)"

definition wound :: "updater \<Rightarrow> updater \<Rightarrow> bool" where
  "wound u u' \<longleftrightarrow> up_disposed u' \<and> (\<exists>new. up_log u' = up_log u @ new \<and> list_all quietAct new)"

lemma wound_same: "up_disposed u' \<Longrightarrow> up_log u' = up_log u \<Longrightarrow> wound u u'"
  by (simp add: wound_def)

lemma wound_act: "up_disposed u' \<Longrightarrow> up_log u' = up_log u @ [a] \<Longrightarrow> quietAct a \<Longrightarrow> wound u u'"
  by (simp add: wound_def)

lemma wound_staged: "up_disposed u \<Longrightarrow> wound u (stagingEnded sg rel u)"
  by (auto simp: stagingEnded_def Let_def checkFailed_def up_defs quietAct_def intro: wound_same wound_act
      split: prod.splits sum.splits)

lemma wound_failed: "up_disposed u \<Longrightarrow> wound u (installFailed u)"
  by (rule wound_same) (simp_all add: installFailed_def Let_def up_defs)

lemma wound_flushed: "up_disposed u \<Longrightarrow> wound u (flushEnded ok rel u)"
  by (cases ok) (auto simp: flushEnded_def Let_def installFailed_def up_defs quietAct_def intro: wound_same wound_act)

lemma updaterStep_wound: "updaterStep u u' \<Longrightarrow> up_disposed u \<Longrightarrow> wound u u'"
proof (induction rule: updaterStep.induct)
  case (interactive u v)
  then show ?case by (simp add: setInteractive_def wound_same)
next
  case (disposed u)
  then show ?case by (simp add: dispose_def up_defs wound_same)
next
  case (action u isInstall)
  then show ?case
    by (intro wound_same)
      (simp_all add: action_def startInstall_def startCheck_def Let_def up_defs split: option.splits)
next
  case (asked u manual rel available)
  then show ?case by (intro wound_same) (simp_all add: checkAnswered_def checkFailed_def up_defs)
next
  case (unanswered u manual)
  then show ?case by (intro wound_same) (simp_all add: checkFailed_def up_defs)
next
  case (posted u rel status)
  then show ?case
    by (cases status) (simp_all add: postEnded_def installReload_def wound_failed wound_same)
next
  case (awaited u rel ok)
  then show ?case by (simp add: waitEnded_def installReload_def wound_failed)
qed (simp_all add: wound_staged wound_flushed wound_same)

lemma updaterRun_wound: "updaterStep\<^sup>*\<^sup>* u u' \<Longrightarrow> up_disposed u \<Longrightarrow> wound u u'"
proof (induction rule: rtranclp_induct)
  case (step v v')
  then have uv: "wound u v" by simp
  then have "wound v v'" using step.hyps(2) by (intro updaterStep_wound) (auto simp: wound_def)
  with uv show ?case by (auto simp: wound_def)
qed (simp add: wound_same)

end
