(* ===== verification/VercelSandbox.thy ===== *)
theory VercelSandbox
  imports SandboxSteps
begin

text \<open>
  The Vercel adapter behind the platform interface (\<open>RealSandboxHandle\<close> and \<open>RealSandboxApi\<close> of
  \<open>lib/sandbox.ts\<close>): how an SDK failure becomes a \<open>SandboxError\<close>, and each call on what the SDK
  answers. The SDK is a parameter; \<open>vercelPlatform\<close> is the platform of the workflows over it.
\<close>

section \<open>Failures\<close>

text \<open>\<open>APIError\<close>: the status of its response, the code of its JSON body, its message.\<close>

record apiFailure =
  af_status :: "int option"
  af_code :: "string option"
  af_message :: string

text \<open>What the SDK throws; a \<open>SandboxError\<close> is the one an \<open>onResume\<close> hook threw.\<close>

datatype sdkThrown = SdkSandboxError sandboxErrorCode bool string | SdkApiError apiFailure | SdkOther string

definition failureMessage :: "apiFailure \<Rightarrow> string" where
  "failureMessage f = (if af_message f \<noteq> [] then af_message f
     else if truthy (af_code f) then nullish (af_code f) []
     else ''sandbox api error '' @ (case af_status f of None \<Rightarrow> ''undefined'' | Some n \<Rightarrow> showInt n))"

definition apiSandboxError :: "apiFailure \<Rightarrow> sandboxErrorCode \<times> bool" where
  "apiSandboxError f =
     (if af_code f = Some ''image_not_ready'' \<or> af_code f = Some ''image_pending'' then (Image_not_ready, True)
      else if af_code f = Some ''snapshot_not_found'' \<or> af_status f = Some 410 then (Snapshot_expired, False)
      else if af_code f = Some ''snapshot_region_mismatch'' then (Snapshot_region_mismatch, False)
      else if af_code f = Some ''not_found'' \<or> af_status f = Some 404 then (Not_found, False)
      else if af_status f = Some 402 \<or> af_status f = Some 429 \<or> af_code f = Some ''quota_exceeded'' then (Quota, False)
      else (Unknown_code, case af_status f of None \<Rightarrow> False | Some n \<Rightarrow> n \<ge> 500))"

definition toSandboxError :: "sdkThrown \<Rightarrow> err" where
  "toSandboxError e = (case e of
      SdkSandboxError c r m \<Rightarrow> SandboxError c r m
    | SdkApiError f \<Rightarrow> SandboxError (fst (apiSandboxError f)) (snd (apiSandboxError f)) (failureMessage f)
    | SdkOther m \<Rightarrow> SandboxError Unknown_code False m)"

definition callSdk :: "sdkThrown + 'a \<Rightarrow> err + 'a" where
  "callSdk r = (case r of Inl e \<Rightarrow> Inl (toSandboxError e) | Inr x \<Rightarrow> Inr x)"

section \<open>The SDK\<close>

text \<open>A \<open>Sandbox\<close>; its current session and its domains may throw.\<close>

record sdkSandbox =
  sb_name :: string
  sb_status :: sandboxStatus
  sb_region :: string
  sb_expiresAt :: "int option"
  sb_session :: "sdkThrown + string"
  sb_domain :: "int \<Rightarrow> sdkThrown + string"

record sdkCreate =
  sc_name :: string
  sc_resume :: bool
  sc_persistent :: bool
  sc_ports :: "int list"
  sc_timeout :: int
  sc_region :: region
  sc_vcpus :: int
  sc_env :: "(string \<times> string) list"
  sc_networkPolicy :: string
  sc_tags :: "(string \<times> string) list"
  sc_snapshotExpiration :: int
  sc_keepLastSnapshots :: int
  sc_image :: string

record sdkRun =
  sx_args :: "string list"
  sx_detached :: bool

record sdkStopped =
  st_snapshotId :: "string option"
  st_sizeBytes :: "int option"
  st_activeCpuMs :: "int option"
  st_ingress :: "int option"
  st_egress :: "int option"

text \<open>
  The answer of the \<open>n\<close>th call. \<open>sdk_get\<close> also says whether the SDK ran \<open>onResume\<close>. A command is
  looked up (\<open>sdk_getCommand\<close>, its exit code) before it is waited for or killed; a list is read to its end.
\<close>

record sdk =
  sdk_getOrCreate :: "nat \<Rightarrow> sdkCreate \<Rightarrow> sdkThrown + sdkSandbox"
  sdk_get :: "nat \<Rightarrow> string \<Rightarrow> bool \<Rightarrow> sdkThrown + (sdkSandbox \<times> bool)"
  sdk_runCommand :: "nat \<Rightarrow> string \<Rightarrow> sdkRun \<Rightarrow> sdkThrown + (string \<times> int option \<times> string)"
  sdk_getCommand :: "nat \<Rightarrow> string \<Rightarrow> string \<Rightarrow> sdkThrown + int option"
  sdk_wait :: "nat \<Rightarrow> string \<Rightarrow> string \<Rightarrow> int \<Rightarrow> sdkThrown + int option"
  sdk_kill :: "nat \<Rightarrow> string \<Rightarrow> string \<Rightarrow> sdkThrown + unit"
  sdk_extendTimeout :: "nat \<Rightarrow> string \<Rightarrow> int \<Rightarrow> sdkThrown + unit"
  sdk_stop :: "nat \<Rightarrow> string \<Rightarrow> sdkThrown + sdkStopped"
  sdk_delete :: "nat \<Rightarrow> string \<Rightarrow> sdkThrown + unit"
  sdk_readFile :: "nat \<Rightarrow> string \<Rightarrow> string \<Rightarrow> sdkThrown + bool"
  sdk_listSnapshots :: "nat \<Rightarrow> string \<Rightarrow> sdkThrown + string list"
  sdk_list :: "nat \<Rightarrow> string \<Rightarrow> sdkThrown + (string \<times> sandboxStatus) list"
  sdk_getSnapshot :: "nat \<Rightarrow> string \<Rightarrow> sdkThrown + unit"
  sdk_deleteSnapshot :: "nat \<Rightarrow> string \<Rightarrow> sdkThrown + unit"

section \<open>The handle\<close>

text \<open>\<open>hostOf\<close>: the host of an \<open>https\<close> URL without a port or a path is what follows the scheme.\<close>

definition sdkHost :: "string \<Rightarrow> string" where
  "sdkHost domain = takeWhile (\<lambda>c. c \<noteq> CHR ''/'') (if prefix ''https://'' domain then drop 8 domain else domain)"

definition currentSessionId :: "sdkSandbox \<Rightarrow> string option" where
  "currentSessionId sb = (case sb_session sb of Inl e \<Rightarrow> None | Inr i \<Rightarrow> Some i)"

definition realHandle :: "sdkSandbox \<Rightarrow> handle" where
  "realHandle sb = \<lparr>h_name = sb_name sb, h_status = sb_status sb, h_region = sb_region sb,
     h_expiresAt = sb_expiresAt sb, h_currentSessionId = currentSessionId sb,
     h_domain = (\<lambda>port. case sb_domain sb port of Inl e \<Rightarrow> None | Inr d \<Rightarrow> Some (sdkHost d))\<rparr>"

definition realRunDetached :: "sdk \<Rightarrow> nat \<Rightarrow> string \<Rightarrow> string list \<Rightarrow> err + string" where
  "realRunDetached k n name args = (case callSdk (sdk_runCommand k n name \<lparr>sx_args = args, sx_detached = True\<rparr>) of
     Inl e \<Rightarrow> Inl e | Inr (cmdId, code, out) \<Rightarrow> Inr cmdId)"

definition realRun :: "sdk \<Rightarrow> nat \<Rightarrow> string \<Rightarrow> string list \<Rightarrow> err + int \<times> string" where
  "realRun k n name args = (case callSdk (sdk_runCommand k n name \<lparr>sx_args = args, sx_detached = False\<rparr>) of
     Inl e \<Rightarrow> Inl e | Inr (cmdId, code, out) \<Rightarrow> Inr (nullish code (-1), out))"

definition realCommandStatus :: "sdk \<Rightarrow> nat \<Rightarrow> string \<Rightarrow> string \<Rightarrow> err + (int option \<times> bool)" where
  "realCommandStatus k n name cmdId = (case callSdk (sdk_getCommand k n name cmdId) of
     Inl e \<Rightarrow> Inl e | Inr code \<Rightarrow> Inr (code, code = None))"

definition realWait :: "sdk \<Rightarrow> nat \<Rightarrow> string \<Rightarrow> string \<Rightarrow> int \<Rightarrow> err + int" where
  "realWait k n name cmdId timeoutMs = (case callSdk (sdk_getCommand k n name cmdId) of
     Inl e \<Rightarrow> Inl e
   | Inr _ \<Rightarrow> (case callSdk (sdk_wait k n name cmdId timeoutMs) of Inl e \<Rightarrow> Inl e | Inr code \<Rightarrow> Inr (nullish code (-1))))"

definition realKill :: "sdk \<Rightarrow> nat \<Rightarrow> string \<Rightarrow> string \<Rightarrow> err + unit" where
  "realKill k n name cmdId = (case callSdk (sdk_getCommand k n name cmdId) of
     Inl e \<Rightarrow> Inl e | Inr _ \<Rightarrow> callSdk (sdk_kill k n name cmdId))"

record sandboxUsage =
  su_activeCpuDurationMs :: int
  su_ingressBytes :: int
  su_egressBytes :: int

definition realStop :: "sdk \<Rightarrow> nat \<Rightarrow> string \<Rightarrow> err + stopResult \<times> sandboxUsage" where
  "realStop k n name = (case callSdk (sdk_stop k n name) of
     Inl e \<Rightarrow> Inl e
   | Inr r \<Rightarrow> Inr (\<lparr>sr_snapshotId = st_snapshotId r, sr_snapshotSizeBytes = st_sizeBytes r\<rparr>,
       \<lparr>su_activeCpuDurationMs = nullish (st_activeCpuMs r) 0, su_ingressBytes = nullish (st_ingress r) 0,
        su_egressBytes = nullish (st_egress r) 0\<rparr>))"

section \<open>The adapter\<close>

definition createParams :: "createSandboxInput \<Rightarrow> sdkCreate" where
  "createParams i = \<lparr>sc_name = ci_name i, sc_resume = True, sc_persistent = True, sc_ports = ci_ports i,
     sc_timeout = ci_timeoutMs i, sc_region = ci_region i, sc_vcpus = ci_vcpus i, sc_env = ci_env i,
     sc_networkPolicy = ci_networkPolicy i, sc_tags = ci_tags i, sc_snapshotExpiration = ci_snapshotExpirationMs i,
     sc_keepLastSnapshots = ci_keepLastSnapshots i, sc_image = ci_image i\<rparr>"

definition realCreate :: "sdk \<Rightarrow> nat \<Rightarrow> createSandboxInput \<Rightarrow> err + handle" where
  "realCreate k n i = (case callSdk (sdk_getOrCreate k n (createParams i)) of
     Inl e \<Rightarrow> Inl e | Inr sb \<Rightarrow> Inr (realHandle sb))"

definition realGet :: "sdk \<Rightarrow> nat \<Rightarrow> string \<Rightarrow> bool \<Rightarrow> err + (handle \<times> bool) option" where
  "realGet k n name resume = (case sdk_get k n name resume of
     Inr (sb, resumed) \<Rightarrow> Inr (Some (realHandle sb, resumed))
   | Inl e \<Rightarrow> (case toSandboxError e of SandboxError Not_found r m \<Rightarrow> Inr None | mapped \<Rightarrow> Inl mapped))"

definition realDeleteSnapshot :: "sdk \<Rightarrow> nat \<Rightarrow> string \<Rightarrow> err + unit" where
  "realDeleteSnapshot k n i = (case (case sdk_getSnapshot k n i of Inl e \<Rightarrow> Inl e | Inr _ \<Rightarrow> sdk_deleteSnapshot k n i) of
     Inr u \<Rightarrow> Inr ()
   | Inl e \<Rightarrow> (case toSandboxError e of SandboxError Not_found r m \<Rightarrow> Inr ()
       | SandboxError Snapshot_expired r m \<Rightarrow> Inr () | mapped \<Rightarrow> Inl mapped))"

definition vercelPlatform :: "sdk \<Rightarrow> platform \<Rightarrow> platform" where
  "vercelPlatform k pf = pf\<lparr>pf_create := realCreate k, pf_get := realGet k, pf_runDetached := realRunDetached k,
     pf_run := realRun k, pf_wait := realWait k, pf_kill := realKill k,
     pf_stop := (\<lambda>n name. case realStop k n name of Inl e \<Rightarrow> Inl e | Inr (r, usage) \<Rightarrow> Inr r),
     pf_extend := (\<lambda>n name ms. callSdk (sdk_extendTimeout k n name ms)),
     pf_delete := (\<lambda>n name. callSdk (sdk_delete k n name)),
     pf_snapshots := (\<lambda>n name. callSdk (sdk_listSnapshots k n name)),
     pf_deleteSnapshot := realDeleteSnapshot k, pf_listByTag := (\<lambda>n tag. callSdk (sdk_list k n tag)),
     pf_readFile := (\<lambda>n name path. callSdk (sdk_readFile k n name path))\<rparr>"

section \<open>Lemmas\<close>

text \<open>\<open>Sandbox.get({ name })\<close> answers the sandbox of that name: the interface the workflows rely on.\<close>

definition sdkNamed :: "sdk \<Rightarrow> bool" where
  "sdkNamed k \<longleftrightarrow> (\<forall>n name r sb b. sdk_get k n name r = Inr (sb, b) \<longrightarrow> sb_name sb = name)"

lemma vercel_handlesNamed: "sdkNamed k \<Longrightarrow> handlesNamed (vercelPlatform k pf)"
  by (auto simp: sdkNamed_def handlesNamed_def vercelPlatform_def realGet_def realHandle_def
      split: sum.splits err.splits sandboxErrorCode.splits)

text \<open>Every failure of a call is a \<open>SandboxError\<close>.\<close>

definition isSandboxError :: "err \<Rightarrow> bool" where
  "isSandboxError e \<longleftrightarrow> (case e of SandboxError c r m \<Rightarrow> True | _ \<Rightarrow> False)"

lemma toSandboxError_class: "isSandboxError (toSandboxError e)"
  by (simp add: toSandboxError_def isSandboxError_def split: sdkThrown.split)

lemma callSdk_class: "callSdk r = Inl e \<Longrightarrow> isSandboxError e"
  using toSandboxError_class by (auto simp: callSdk_def split: sum.splits)

lemma realGet_null: "realGet k n name r = Inr None \<longleftrightarrow>
    (\<exists>e c m. sdk_get k n name r = Inl e \<and> toSandboxError e = SandboxError Not_found c m)"
  by (auto simp: realGet_def split: sum.splits err.splits sandboxErrorCode.splits)

subsection \<open>Retries\<close>

text \<open>The failures the workflow runtime tries again: an image that is not there yet, and a server error nobody named.\<close>

definition transient :: "sdkThrown \<Rightarrow> bool" where
  "transient e \<longleftrightarrow> (case e of
      SdkSandboxError c r m \<Rightarrow> r
    | SdkApiError f \<Rightarrow> af_code f \<in> {Some ''image_not_ready'', Some ''image_pending''}
        \<or> (\<exists>n \<ge> 500. af_status f = Some n) \<and> af_code f \<notin> {Some ''snapshot_not_found'', Some ''snapshot_region_mismatch'',
             Some ''not_found'', Some ''quota_exceeded''}
    | SdkOther m \<Rightarrow> False)"

lemma toSandboxError_retry: "\<exists>c m. toSandboxError e = SandboxError c (transient e) m"
  by (cases e) (auto simp: toSandboxError_def transient_def apiSandboxError_def split: option.splits)

lemma fail_transient: "fail (toSandboxError e) w =
    (Inl (if transient e then RetryableError (''sandbox_'' @ sandboxCodeText c)
       else FatalError (''sandbox_'' @ sandboxCodeText c @ '': '' @ m)), w)"
  if "toSandboxError e = SandboxError c r m"
  using that toSandboxError_retry [of e] by (auto simp: fail_def throwE_def)

text \<open>A step that always throws: a retryable error is met once per attempt, a fatal one once.\<close>

lemma runStep_again:
  assumes "\<And>v. m v = (Inl (RetryableError t), f v)"
  shows "runStep n m w = (Inl (RetryableError t), (f ^^ Suc n) w)"
proof (induction n arbitrary: w)
  case (Suc n)
  have "runStep (Suc n) m w = runStep n m (f w)" by (simp add: catchE_def assms)
  then show ?case by (simp add: Suc.IH funpow_swap1)
qed (simp add: assms)

lemma runStep_fatal: "m w = (Inl (FatalError t), v) \<Longrightarrow> runStep n m w = (Inl (FatalError t), v)"
  by (cases n) (simp_all add: catchE_def throwE_def)

definition createCalled :: "platform \<Rightarrow> string \<Rightarrow> world \<Rightarrow> world" where
  "createCalled pf name w = w\<lparr>tick := Suc (tick w), now := now w + int (pf_elapsed pf (tick w)),
     trace := trace w @ [EvCreate name]\<rparr>"

lemma createCalled_trace: "trace ((createCalled pf name ^^ n) w) = trace w @ replicate n (EvCreate name)
    \<and> workspacesT ((createCalled pf name ^^ n) w) = workspacesT w"
proof (induction n)
  case (Suc n)
  then show ?case by (simp add: createCalled_def replicate_append_same)
qed simp

lemma create_refused:
  assumes "\<And>n i. sdk_getOrCreate k n i = Inl e"
  shows "\<exists>x. stepCreateSandbox (vercelPlatform k pf) input w =
    (Inl x, (createCalled pf (ci_name input) ^^ (if transient e then Suc (pf_retries pf) else 1)) w)"
proof -
  obtain c r m where e: "toSandboxError e = SandboxError c r m" using toSandboxError_retry by blast
  define x where "x = (if transient e then RetryableError (''sandbox_'' @ sandboxCodeText c)
       else FatalError (''sandbox_'' @ sandboxCodeText c @ '': '' @ m))"
  let ?p = "vercelPlatform k pf"
  have create: "pf_create ?p n input = Inl (toSandboxError e)" for n
    by (simp add: vercelPlatform_def realCreate_def callSdk_def assms)
  have elapsed: "pf_elapsed ?p = pf_elapsed pf" "pf_retries ?p = pf_retries pf" by (simp_all add: vercelPlatform_def)
  have body: "bindE (catchE (extE ?p (\<lambda>_. EvCreate (ci_name input)) (\<lambda>n. pf_create ?p n input)) fail) g v
      = (Inl x, createCalled pf (ci_name input) v)" for g v
    by (simp add: bindE_def catchE_def extE_def ext_def create throwE_def elapsed createCalled_def
        fail_transient [OF e] x_def)
  show ?thesis
  proof (cases "transient e")
    case True
    then show ?thesis
      unfolding stepCreateSandbox_def step_def elapsed
      by (intro exI) (subst runStep_again [where f = "createCalled pf (ci_name input)"], simp_all add: body x_def)
  next
    case False
    then show ?thesis
      unfolding stepCreateSandbox_def step_def elapsed
      by (intro exI) (rule runStep_fatal, simp add: body x_def)
  qed
qed

end
