(* ===== verification/Bundles.thy ===== *)
theory Bundles
  imports Json Sessions
begin

text \<open>
  The editor bundles a deployment serves (\<open>scripts/fetch-editor-bundle.ts\<close>): which builds are kept,
  how one is downloaded and unpacked, and what is pruned. The state is the directory \<open>public/editor\<close>; the
  source of the bundles is a parameter. The texts of errors are abridged.
\<close>

section \<open>The directory and the source\<close>

text \<open>The directories of the builds with their files, and the list in \<open>manifest.json\<close>.\<close>

record bundleDir =
  bd_dirs :: "(string \<times> (string \<times> string) list) list"
  bd_manifest :: "string list option"

type_synonym 'a dirAct = "(bundleDir, string, 'a) act"

text \<open>
  What the source answers: status and JSON for the manifest, status and archive for a build; an archive is
  the files \<open>tar\<close> unpacks, \<open>None\<close> where it fails.
\<close>

record bundleSource =
  so_manifest :: "int \<times> json option"
  so_tar :: "string \<Rightarrow> int \<times> (string \<times> string) list option"

definition SERVED_FILES :: "string list" where
  "SERVED_FILES = [''zed_web.js'', ''zed_web_bg.wasm'', ''zed-assets.tar'', ''build.json'']"

definition isLocalBuild :: "string \<Rightarrow> bool" where
  "isLocalBuild name \<longleftrightarrow> prefix ''dev-'' name"

definition filesOf :: "bundleDir \<Rightarrow> string \<Rightarrow> (string \<times> string) list" where
  "filesOf d build = (case map_of (bd_dirs d) build of None \<Rightarrow> [] | Some fs \<Rightarrow> fs)"

definition hasFile :: "(string \<times> string) list \<Rightarrow> string \<Rightarrow> bool" where
  "hasFile fs f \<longleftrightarrow> map_of fs f \<noteq> None"

definition putDir :: "string \<Rightarrow> (string \<times> string) list \<Rightarrow> bundleDir \<Rightarrow> bundleDir" where
  "putDir build fs d = d\<lparr>bd_dirs := (build, fs) # filter (\<lambda>e. fst e \<noteq> build) (bd_dirs d)\<rparr>"

section \<open>Build ids\<close>

definition buildIdStart :: "char \<Rightarrow> bool" where
  "buildIdStart c \<longleftrightarrow> c \<in> set ''ABCDEFGHIJKLMNOPQRSTUVWXYZabcdefghijklmnopqrstuvwxyz0123456789''"

definition buildIdChar :: "char \<Rightarrow> bool" where
  "buildIdChar c \<longleftrightarrow> buildIdStart c \<or> c = CHR ''.'' \<or> c = CHR ''_'' \<or> c = CHR ''-''"

definition assertBuildId :: "string \<Rightarrow> string + string" where
  "assertBuildId build = (case build of [] \<Rightarrow> Inl ''invalid build id''
     | c # cs \<Rightarrow> if buildIdStart c \<and> list_all buildIdChar cs \<and> length cs \<le> 127 then Inr build
         else Inl ''invalid build id'')"

definition isTestBuildId :: "string \<Rightarrow> bool" where
  "isTestBuildId build \<longleftrightarrow> suffix ''-test'' build \<or> suffix ''-test-names'' build"

text \<open>\<open>meta\<close> is the parsed \<open>build.json\<close>, \<open>None\<close> where none is given.\<close>

definition assertServableBuild :: "string \<Rightarrow> json option \<Rightarrow> string + string" where
  "assertServableBuild build meta = (if isTestBuildId build then Inl ''refusing the test-hooks bundle''
     else if jget meta ''test_hooks'' = Some (JBool True) then Inl ''refusing: its build.json says test_hooks: true''
     else Inr build)"

definition ofResult :: "'e + 'a \<Rightarrow> ('w, 'e, 'a) act" where
  "ofResult r = (case r of Inl e \<Rightarrow> throwE e | Inr x \<Rightarrow> retE x)"

section \<open>One bundle\<close>

text \<open>\<open>build.json\<close> of a directory has to be JSON, and not \<open>null\<close>, to be asked for its fields.\<close>

definition readMeta :: "(string \<times> string) list \<Rightarrow> string + json" where
  "readMeta fs = (case map_of fs ''build.json'' of None \<Rightarrow> Inl ''ENOENT''
     | Some t \<Rightarrow> (case jsonParse t of None \<Rightarrow> Inl ''SyntaxError'' | Some JNull \<Rightarrow> Inl ''TypeError'' | Some j \<Rightarrow> Inr j))"

definition namesBuild :: "json \<Rightarrow> string \<Rightarrow> bool" where
  "namesBuild meta build \<longleftrightarrow> jget (Some meta) ''build_id'' = Some (JStr build)"

text \<open>The files at the root of the archive, or under \<open>build/\<close>.\<close>

definition bundleRoot :: "string \<Rightarrow> (string \<times> string) list \<Rightarrow> (string \<times> string) list" where
  "bundleRoot build tar = (if hasFile tar ''build.json'' then tar
     else map (\<lambda>(f, t). (drop (Suc (length build)) f, t)) (filter (\<lambda>(f, t). prefix (build @ ''/'') f) tar))"

definition unpackBundle :: "(string \<times> string) list option \<Rightarrow> string \<Rightarrow> unit dirAct" where
  "unpackBundle archive build = (case archive of None \<Rightarrow> throwE ''tar failed'' | Some tar \<Rightarrow>
     let root = bundleRoot build tar in
     if \<not> hasFile root ''build.json'' then throwE ''carries no build.json''
     else bindE (ofResult (readMeta root)) (\<lambda>meta.
       if \<not> namesBuild meta build then throwE ''build.json.build_id''
       else bindE (ofResult (assertServableBuild build (Some meta))) (\<lambda>_.
         if \<not> list_all (hasFile root) SERVED_FILES then throwE ''carries no file''
         else modE (putDir build (map (\<lambda>f. (f, the (map_of root f))) SERVED_FILES)))))"

definition ensureBundle :: "bundleSource \<Rightarrow> string \<Rightarrow> bool dirAct" where
  "ensureBundle src build = bindE (getE (\<lambda>d. filesOf d build)) (\<lambda>present.
     if list_all (hasFile present) SERVED_FILES then
       bindE (ofResult (readMeta present)) (\<lambda>meta.
         if \<not> namesBuild meta build then throwE ''existing build.json names another build''
         else bindE (ofResult (assertServableBuild build (Some meta))) (\<lambda>_. retE False))
     else (case so_tar src build of (status, archive) \<Rightarrow>
       if status < 200 \<or> status \<ge> 300 then throwE ''HTTP'' else thenE (unpackBundle archive build) (retE True)))"

section \<open>A deployment\<close>

definition fetchManifest :: "bundleSource \<Rightarrow> string + string list option" where
  "fetchManifest src = (case so_manifest src of (status, raw) \<Rightarrow>
     if status = 404 then Inr None
     else if status < 200 \<or> status \<ge> 300 then Inl ''HTTP''
     else (case raw of None \<Rightarrow> Inl ''SyntaxError''
       | Some j \<Rightarrow> (case jget (Some j) ''builds'' of
           Some (JArr es) \<Rightarrow> if list_all (\<lambda>e. case e of JStr s \<Rightarrow> True | _ \<Rightarrow> False) es
             then Inr (Some (concat (map (\<lambda>e. case e of JStr s \<Rightarrow> [s] | _ \<Rightarrow> []) es)))
             else Inl ''builds''
         | _ \<Rightarrow> Inl ''builds'')))"

fun wantedFrom :: "int \<Rightarrow> string list \<Rightarrow> string list \<Rightarrow> string + string list" where
  "wantedFrom keep wanted [] = Inr wanted"
| "wantedFrom keep wanted (older # olds) =
     (if int (length wanted) \<ge> max 1 keep then Inr wanted
      else case assertBuildId older of Inl e \<Rightarrow> Inl e | Inr i \<Rightarrow>
        wantedFrom keep (if isTestBuildId i \<or> i \<in> set wanted then wanted else wanted @ [i]) olds)"

fun ensureAll :: "bundleSource \<Rightarrow> string list \<Rightarrow> string list dirAct" where
  "ensureAll src [] = retE []"
| "ensureAll src (i # ids) = bindE (ensureBundle src i) (\<lambda>fresh.
     bindE (ensureAll src ids) (\<lambda>fetched. retE (if fresh then i # fetched else fetched)))"

definition pruned :: "string list \<Rightarrow> string \<Rightarrow> bool" where
  "pruned keep name \<longleftrightarrow> name \<notin> set keep \<and> \<not> isLocalBuild name"

definition pruneBundles :: "string list \<Rightarrow> string list dirAct" where
  "pruneBundles keep = bindE (getE (\<lambda>d. filter (pruned keep) (map fst (bd_dirs d)))) (\<lambda>removed.
     thenE (modE (\<lambda>d. d\<lparr>bd_dirs := filter (\<lambda>e. \<not> pruned keep (fst e)) (bd_dirs d)\<rparr>)) (retE removed))"

record fetchResult =
  fr_fetched :: "string list"
  fr_kept :: "string list"
  fr_removed :: "string list"

definition fetchEditorBundles :: "bundleSource \<Rightarrow> string \<Rightarrow> int \<Rightarrow> fetchResult dirAct" where
  "fetchEditorBundles src build keep =
     bindE (ofResult (assertBuildId build)) (\<lambda>_.
     bindE (ofResult (assertServableBuild build None)) (\<lambda>_.
     bindE (ofResult (fetchManifest src)) (\<lambda>manifest.
     bindE (ofResult (wantedFrom keep [build] (case manifest of None \<Rightarrow> [] | Some bs \<Rightarrow> bs))) (\<lambda>wanted.
     bindE (ensureAll src wanted) (\<lambda>fetched.
     bindE (getE (\<lambda>d. filter (\<lambda>i. hasFile (filesOf d i) ''build.json'') wanted)) (\<lambda>kept.
     thenE (modE (\<lambda>d. d\<lparr>bd_manifest := Some kept\<rparr>))
     (bindE (pruneBundles kept) (\<lambda>removed.
     retE \<lparr>fr_fetched = fetched, fr_kept = kept, fr_removed = removed\<rparr>))))))))"

section \<open>Lemmas\<close>

lemma wp_ofResult [wp_simps]: "wp (ofResult r) Q E w = (case r of Inl e \<Rightarrow> E e w | Inr x \<Rightarrow> Q x w)"
  by (simp add: ofResult_def wp_simps split: sum.split)

text \<open>A bundle that can be served: its four files, for this build, without test hooks.\<close>

definition wholeBundle :: "string \<Rightarrow> (string \<times> string) list \<Rightarrow> bool" where
  "wholeBundle build fs \<longleftrightarrow> list_all (hasFile fs) SERVED_FILES \<and> \<not> isTestBuildId build
     \<and> (case readMeta fs of Inl e \<Rightarrow> False
        | Inr meta \<Rightarrow> namesBuild meta build \<and> jget (Some meta) ''test_hooks'' \<noteq> Some (JBool True))"

lemma filesOf_put: "filesOf (putDir b fs d) c = (if c = b then fs else filesOf d c)"
proof -
  have "map_of (filter (\<lambda>e. fst e \<noteq> b) es) c = (if c = b then None else map_of es c)" for es :: "(string \<times> (string \<times> string) list) list"
    by (induction es) auto
  then show ?thesis by (simp add: filesOf_def putDir_def)
qed

lemma served_whole:
  assumes "list_all (hasFile root) SERVED_FILES" and "readMeta root = Inr meta" and "namesBuild meta build"
    and "assertServableBuild build (Some meta) = Inr x"
  shows "wholeBundle build (map (\<lambda>f. (f, the (map_of root f))) SERVED_FILES)"
proof -
  let ?fs = "map (\<lambda>f. (f, the (map_of root f))) SERVED_FILES"
  have look: "map_of ?fs f = map_of root f" if "f \<in> set SERVED_FILES" for f
    using that assms(1) by (auto simp: SERVED_FILES_def hasFile_def)
  have "readMeta ?fs = readMeta root"
    unfolding readMeta_def by (subst look) (simp_all add: SERVED_FILES_def)
  moreover have "list_all (hasFile ?fs) SERVED_FILES"
    using assms(1) look by (simp add: list_all_iff hasFile_def)
  ultimately show ?thesis
    using assms(2-4) by (simp add: wholeBundle_def assertServableBuild_def split: if_splits)
qed

text \<open>Ensuring one bundle makes it whole, and touches no other directory and no bundle that was whole.\<close>

definition ensured :: "string list \<Rightarrow> bundleDir \<Rightarrow> bundleDir \<Rightarrow> bool" where
  "ensured bs d d' \<longleftrightarrow> (\<forall>b. wholeBundle b (filesOf d b) \<longrightarrow> filesOf d' b = filesOf d b)
     \<and> (\<forall>b. b \<notin> set bs \<longrightarrow> filesOf d' b = filesOf d b)
     \<and> (\<forall>b. b \<in> set (map fst (bd_dirs d')) \<longrightarrow> b \<in> set bs \<union> set (map fst (bd_dirs d)))"

lemma ensured_refl: "ensured bs d d"
  by (simp add: ensured_def)

lemma ensured_put:
  assumes "\<not> wholeBundle b (filesOf d b)"
  shows "ensured [b] d (putDir b fs d)"
proof -
  have "c \<in> set (map fst (bd_dirs (putDir b fs d))) \<Longrightarrow> c \<in> {b} \<union> set (map fst (bd_dirs d))" for c
    by (auto simp: putDir_def)
  with assms show ?thesis by (auto simp: ensured_def filesOf_put)
qed

lemma wp_unpackBundle:
  assumes "\<not> wholeBundle b (filesOf d b)"
  shows "wp (unpackBundle archive b) (\<lambda>_ d'. ensured [b] d d' \<and> wholeBundle b (filesOf d' b))
    (\<lambda>_ d'. ensured [b] d d') d"
proof (cases archive)
  case (Some tar)
  let ?root = "bundleRoot b tar"
  have "ensured [b] d (putDir b (map (\<lambda>f. (f, the (map_of ?root f))) SERVED_FILES) d)"
    using assms by (rule ensured_put)
  moreover have "wholeBundle b (filesOf (putDir b (map (\<lambda>f. (f, the (map_of ?root f))) SERVED_FILES) d) b)"
    if "list_all (hasFile ?root) SERVED_FILES" "readMeta ?root = Inr meta" "namesBuild meta b"
      "assertServableBuild b (Some meta) = Inr x" for meta x
    using served_whole [OF that] by (simp add: filesOf_put)
  ultimately show ?thesis
    by (simp add: unpackBundle_def Some Let_def wp_simps ensured_refl split: sum.split)
qed (simp add: unpackBundle_def wp_simps ensured_refl)

lemma wp_ensureBundle:
  "wp (ensureBundle src b) (\<lambda>_ d'. ensured [b] d d' \<and> wholeBundle b (filesOf d' b)) (\<lambda>_ d'. ensured [b] d d') d"
proof (cases "list_all (hasFile (filesOf d b)) SERVED_FILES")
  case True
  have "wholeBundle b (filesOf d b)"
    if "readMeta (filesOf d b) = Inr meta" "namesBuild meta b" "assertServableBuild b (Some meta) = Inr x" for meta x
    using True that by (simp add: wholeBundle_def assertServableBuild_def split: if_splits)
  with True show ?thesis by (simp add: ensureBundle_def wp_simps ensured_refl split: sum.split)
next
  case False
  then have "\<not> wholeBundle b (filesOf d b)" by (simp add: wholeBundle_def)
  from wp_unpackBundle [OF this] False show ?thesis
    by (simp add: ensureBundle_def wp_simps wp_ret' ensured_refl split: prod.split)
qed

lemma ensured_trans:
  assumes "ensured [b] d d1" and "ensured bs d1 d2"
  shows "ensured (b # bs) d d2"
proof -
  have "c \<in> set (b # bs) \<union> set (map fst (bd_dirs d))" if "c \<in> set (map fst (bd_dirs d2))" for c
  proof -
    have "c \<in> set bs \<union> set (map fst (bd_dirs d1))" using assms(2) that by (simp add: ensured_def)
    moreover have "c \<in> set (map fst (bd_dirs d1)) \<Longrightarrow> c \<in> set [b] \<union> set (map fst (bd_dirs d))"
      using assms(1) by (simp add: ensured_def)
    ultimately show ?thesis by fastforce
  qed
  moreover have "filesOf d2 c = filesOf d c" if "wholeBundle c (filesOf d c) \<or> c \<notin> set (b # bs)" for c
  proof -
    have "filesOf d1 c = filesOf d c" using assms(1) that by (auto simp: ensured_def)
    moreover have "filesOf d2 c = filesOf d1 c"
      using assms(2) that calculation by (auto simp: ensured_def)
    ultimately show ?thesis by simp
  qed
  ultimately show ?thesis by (simp add: ensured_def)
qed

lemma wp_ensureAll:
  "wp (ensureAll src ids) (\<lambda>_ d'. ensured ids d d' \<and> (\<forall>b \<in> set ids. wholeBundle b (filesOf d' b)))
     (\<lambda>_ d'. ensured ids d d') d"
proof (induction ids arbitrary: d)
  case (Cons i ids)
  have weaken: "ensured [i] d d1 \<Longrightarrow> ensured (i # ids) d d1" for d1
    by (auto simp: ensured_def)
  have whole: "wholeBundle i (filesOf d1 i) \<Longrightarrow> ensured ids d1 d2 \<Longrightarrow> wholeBundle i (filesOf d2 i)" for d1 d2
    by (simp add: ensured_def)
  show ?case
    unfolding ensureAll.simps wp_bind wp_ret'
    by (rule wp_mono [OF wp_ensureBundle], rule wp_mono [OF Cons.IH])
      (auto intro: ensured_trans whole weaken)
qed (simp add: wp_ret ensured_refl)

lemma wantedFrom_ok:
  assumes "wantedFrom keep wanted olds = Inr ids" and "distinct wanted" and "int (length wanted) \<le> max 1 keep"
  shows "(\<exists>more. ids = wanted @ more) \<and> distinct ids \<and> int (length ids) \<le> max 1 keep"
  using assms
proof (induction keep wanted olds rule: wantedFrom.induct)
  case (2 keep wanted older olds)
  show ?case
  proof (cases "int (length wanted) \<ge> max 1 keep")
    case True
    then have "ids = wanted" using "2.prems"(1) by simp
    with "2.prems" show ?thesis by simp
  next
    case False
    then obtain i where i: "assertBuildId older = Inr i" using "2.prems"(1) by (auto split: sum.splits)
    let ?w = "if isTestBuildId i \<or> i \<in> set wanted then wanted else wanted @ [i]"
    have "(\<exists>more. ids = ?w @ more) \<and> distinct ids \<and> int (length ids) \<le> max 1 keep"
      using "2.IH" [OF False i] "2.prems" False i by (auto split: if_splits)
    then show ?thesis by (auto split: if_splits)
  qed
qed auto

lemma assertBuildId_same: "assertBuildId b = Inr i \<Longrightarrow> i = b"
  by (auto simp: assertBuildId_def split: list.splits if_splits)

lemma wantedFrom_ids:
  assumes "wantedFrom keep wanted olds = Inr ids" and "list_all (\<lambda>b. assertBuildId b = Inr b) wanted"
  shows "list_all (\<lambda>b. assertBuildId b = Inr b) ids"
  using assms
proof (induction keep wanted olds rule: wantedFrom.induct)
  case (2 keep wanted older olds)
  show ?case
  proof (cases "int (length wanted) \<ge> max 1 keep")
    case True
    with 2 show ?thesis by simp
  next
    case False
    then obtain i where i: "assertBuildId older = Inr i" using "2.prems"(1) by (auto split: sum.splits)
    then have "assertBuildId i = Inr i" using assertBuildId_same [OF i] by simp
    with "2.IH" [OF False i] "2.prems" False i show ?thesis by (auto split: if_splits)
  qed
qed auto

lemma filesOf_pruned:
  assumes "b \<in> set keep"
  shows "filesOf (d\<lparr>bd_manifest := m, bd_dirs := filter (\<lambda>e. \<not> pruned keep (fst e)) (bd_dirs d)\<rparr>) b = filesOf d b"
proof -
  have "map_of (filter (\<lambda>e. \<not> pruned keep (fst e)) es) b = map_of es b" for es :: "(string \<times> (string \<times> string) list) list"
    using assms by (induction es) (auto simp: pruned_def)
  then show ?thesis by (simp add: filesOf_def)
qed

definition servedAs :: "string \<Rightarrow> int \<Rightarrow> string list \<Rightarrow> bundleDir \<Rightarrow> bool" where
  "servedAs build keep kept d \<longleftrightarrow> hd kept = build \<and> build \<in> set kept \<and> distinct kept \<and> int (length kept) \<le> max 1 keep
     \<and> bd_manifest d = Some kept \<and> list_all (\<lambda>b. assertBuildId b = Inr b) kept
     \<and> (\<forall>b \<in> set kept. wholeBundle b (filesOf d b))
     \<and> (\<forall>b \<in> set (map fst (bd_dirs d)). b \<in> set kept \<or> isLocalBuild b)"

definition unharmed :: "bundleDir \<Rightarrow> bundleDir \<Rightarrow> bool" where
  "unharmed d d' \<longleftrightarrow> (\<forall>b. wholeBundle b (filesOf d b) \<longrightarrow> filesOf d' b = filesOf d b) \<and> bd_manifest d' = bd_manifest d"

lemma manifest_ensureAll: "wp (ensureAll src ids) (\<lambda>_ d'. bd_manifest d' = m) (\<lambda>_ d'. bd_manifest d' = m) d"
  if "bd_manifest d = m"
  using that
proof (induction ids arbitrary: d)
  case (Cons i ids)
  have "wp (ensureBundle src i) (\<lambda>_ d'. bd_manifest d' = m) (\<lambda>_ d'. bd_manifest d' = m) d"
    using Cons.prems by (simp add: ensureBundle_def unpackBundle_def Let_def wp_simps putDir_def split: sum.split prod.split option.split)
  moreover have "wp (ensureAll src ids) (\<lambda>_ d'. bd_manifest d' = m) (\<lambda>_ d'. bd_manifest d' = m) d1"
    if "bd_manifest d1 = m" for d1
    using that by (rule Cons.IH)
  ultimately show ?case
    unfolding ensureAll.simps wp_bind wp_ret' by (rule wp_mono)
qed (simp add: wp_ret)

lemma wp_fetchEditorBundles:
  "wp (fetchEditorBundles src build keep) (\<lambda>r. servedAs build keep (fr_kept r)) (\<lambda>_. unharmed d) d"
proof -
  have same: "unharmed d d" by (simp add: unharmed_def)
  have rest: "wp (bindE (ensureAll src wanted) (\<lambda>fetched.
     bindE (getE (\<lambda>d. filter (\<lambda>i. hasFile (filesOf d i) ''build.json'') wanted)) (\<lambda>kept.
     thenE (modE (\<lambda>d. d\<lparr>bd_manifest := Some kept\<rparr>))
     (bindE (pruneBundles kept) (\<lambda>removed.
     retE \<lparr>fr_fetched = fetched, fr_kept = kept, fr_removed = removed\<rparr>)))))
     (\<lambda>r. servedAs build keep (fr_kept r)) (\<lambda>_. unharmed d) d"
    if wanted: "wantedFrom keep [build] olds = Inr wanted" and build: "assertBuildId build = Inr x" for olds wanted x
  proof -
    obtain more where ids: "wanted = [build] @ more" "distinct wanted" "int (length wanted) \<le> max 1 keep"
      using wantedFrom_ok [OF wanted] by auto
    have named: "list_all (\<lambda>b. assertBuildId b = Inr b) wanted"
      using wantedFrom_ids [OF wanted] build assertBuildId_same by fastforce
    have all: "filter (\<lambda>i. hasFile (filesOf d1 i) ''build.json'') wanted = wanted"
      if "\<forall>b \<in> set wanted. wholeBundle b (filesOf d1 b)" for d1
      using that by (auto simp: filter_id_conv wholeBundle_def SERVED_FILES_def)
    have served: "servedAs build keep wanted
        (d1\<lparr>bd_manifest := Some wanted, bd_dirs := filter (\<lambda>e. \<not> pruned wanted (fst e)) (bd_dirs d1)\<rparr>)"
      if "\<forall>b \<in> set wanted. wholeBundle b (filesOf d1 b)" for d1
    proof -
      have "hd wanted = build \<and> build \<in> set wanted" using ids(1) by simp
      moreover have "b \<in> set wanted \<or> isLocalBuild b"
        if "b \<in> set (map fst (filter (\<lambda>e. \<not> pruned wanted (fst e)) (bd_dirs d1)))" for b
        using that by (auto simp: pruned_def)
      ultimately show ?thesis using ids(2,3) named that by (simp add: servedAs_def filesOf_pruned)
    qed
    show ?thesis
      unfolding wp_bind [of "ensureAll src wanted"]
      by (rule wp_mono [OF wp_conj [OF wp_ensureAll manifest_ensureAll [OF refl]]])
        (auto simp: wp_simps wp_ret' pruneBundles_def all served unharmed_def ensured_def)
  qed
  show ?thesis
    unfolding fetchEditorBundles_def wp_bind [of "ofResult r" for r] wp_ofResult
    by (auto simp: same rest split: sum.split simp del: wantedFrom.simps)
qed

end
