(* ===== verification/LocalSandbox.thy ===== *)
theory LocalSandbox
  imports Export "HOL-Library.AList"
begin

text \<open>
  The local sandbox backend (\<open>lib/sandbox-local.ts\<close>): sandboxes as directories and processes of the
  developer's machine. The state is that machine: the directory of every sandbox with its record, its
  files and its archives, the ports reserved in this process, the clock and the signals sent. What the
  operating system answers is a parameter, as is \<open>during\<close>, whatever else happens while an operation
  waits. A directory is known by its files; an empty one is none.
\<close>

section \<open>Records and directories\<close>

text \<open>\<open>LocalCommandRecord\<close> and \<open>LocalSandboxRecord\<close>; an object keyed by a text or a port is the list of its entries.\<close>

record localCommand =
  lc_cmd :: string
  lc_args :: "string list"
  lc_pid :: int
  lc_startedAt :: int
  lc_exitCode :: "int option"
  lc_logFile :: string

record localRecord =
  lr_name :: string
  lr_region :: region
  lr_vcpus :: int
  lr_ports :: "int list"
  lr_portMap :: "(int \<times> int) list"
  lr_localApi :: int
  lr_control :: int
  lr_status :: sandboxStatus
  lr_createdAt :: int
  lr_startedAt :: "int option"
  lr_expiresAt :: "int option"
  lr_sessionId :: "string option"
  lr_sessionSeq :: int
  lr_timeoutMs :: int
  lr_image :: string
  lr_env :: "(string \<times> string) list"
  lr_tags :: "(string \<times> string) list"
  lr_networkPolicy :: string
  lr_snapshotExpirationMs :: int
  lr_keepLastSnapshots :: int
  lr_snapshotIds :: "string list"
  lr_commands :: "(string \<times> localCommand) list"
  lr_cmdSeq :: int

text \<open>
  The directory of a sandbox: \<open>sandbox.json\<close> where it parses with version 1, the files by the segments of
  their paths, and what each archive under \<open>snapshots\<close> holds.
\<close>

type_synonym files = "(string list \<times> string) list"

record localDir =
  ld_record :: "localRecord option"
  ld_files :: files
  ld_archives :: "(string \<times> files) list"

record host =
  ho_now :: int
  ho_calls :: nat
  ho_dirs :: "(string \<times> localDir) list"
  ho_reserved :: "int list"
  ho_live :: "(string \<times> string) list"
  ho_signals :: "(int \<times> string) list"

type_synonym 'a localAct = "(host, err, 'a) act"

text \<open>
  The operating system and the process: answers of the \<open>n\<close>th call. \<open>os_matching\<close> is \<open>pgrep\<close> with the
  program names \<open>ps\<close> adds, \<open>os_pidFile\<close> the number in the supervisor's pid file.
\<close>

record localOs =
  os_elapsed :: "nat \<Rightarrow> nat"
  os_freePort :: "nat \<Rightarrow> int option"
  os_alive :: "nat \<Rightarrow> int \<Rightarrow> bool"
  os_pidFile :: "nat \<Rightarrow> string \<Rightarrow> int option"
  os_matching :: "nat \<Rightarrow> string \<Rightarrow> (int \<times> string) list"
  os_spawn :: "nat \<Rightarrow> string \<Rightarrow> string list \<Rightarrow> (string \<times> string) list \<Rightarrow> string \<Rightarrow> int option"
  os_runToEnd :: "nat \<Rightarrow> string \<Rightarrow> string list \<Rightarrow> string + int \<times> string"
  os_waitLive :: "nat \<Rightarrow> string \<Rightarrow> string \<Rightarrow> int \<Rightarrow> int option"
  os_tar :: "nat \<Rightarrow> bool"
  os_archiveSize :: "nat \<Rightarrow> int"
  os_pid :: int
  os_env :: "string \<Rightarrow> string option"
  os_username :: string
  os_darwin :: bool
  os_root :: string
  os_agentBin :: string
  os_serveBin :: string

definition observe :: "localOs \<Rightarrow> (nat \<Rightarrow> 'a) \<Rightarrow> 'a localAct" where
  "observe os f = (\<lambda>h. (Inr (f (ho_calls h)),
     h\<lparr>ho_calls := Suc (ho_calls h), ho_now := ho_now h + int (os_elapsed os (ho_calls h))\<rparr>))"

definition dirOf :: "host \<Rightarrow> string \<Rightarrow> localDir option" where
  "dirOf h name = map_of (ho_dirs h) name"

definition putLocal :: "string \<Rightarrow> localDir \<Rightarrow> host \<Rightarrow> host" where
  "putLocal name d h = h\<lparr>ho_dirs := (if dirOf h name = None then ho_dirs h @ [(name, d)]
     else map (\<lambda>e. if fst e = name then (name, d) else e) (ho_dirs h))\<rparr>"

definition emptyDir :: localDir where
  "emptyDir = \<lparr>ld_record = None, ld_files = [], ld_archives = []\<rparr>"

definition updLocal :: "string \<Rightarrow> (localDir \<Rightarrow> localDir) \<Rightarrow> host \<Rightarrow> host" where
  "updLocal name f h = putLocal name (f (case dirOf h name of None \<Rightarrow> emptyDir | Some d \<Rightarrow> d)) h"

definition sandboxDir :: "localOs \<Rightarrow> string \<Rightarrow> string" where
  "sandboxDir os name = os_root os @ ''/'' @ name"

definition recordOf :: "string \<Rightarrow> host \<Rightarrow> localRecord option" where
  "recordOf name h = (case dirOf h name of None \<Rightarrow> None | Some d \<Rightarrow> ld_record d)"

definition readRecord :: "string \<Rightarrow> localRecord option localAct" where
  "readRecord name = getE (recordOf name)"

definition writeRecord :: "localRecord \<Rightarrow> unit localAct" where
  "writeRecord r = modE (updLocal (lr_name r) (\<lambda>d. d\<lparr>ld_record := Some r\<rparr>))"

definition requireRecord :: "string \<Rightarrow> localRecord localAct" where
  "requireRecord name = bindE (readRecord name) (\<lambda>r. case r of
     None \<Rightarrow> throwE (SandboxError Not_found False ''does not exist'') | Some r \<Rightarrow> retE r)"

text \<open>Oldest first; \<open>sort\<close> is stable.\<close>

definition allRecords :: "host \<Rightarrow> localRecord list" where
  "allRecords h = sort_key lr_createdAt (List.map_filter (\<lambda>e. ld_record (snd e)) (ho_dirs h))"

section \<open>Ports\<close>

definition isInfraRange :: "int \<Rightarrow> bool" where
  "isInfraRange port \<longleftrightarrow> 8443 \<le> port \<and> port \<le> 8460"

definition recordPorts :: "localRecord \<Rightarrow> int list" where
  "recordPorts r = map snd (lr_portMap r) @ [lr_localApi r, lr_control r]"

definition portsInUseByRecords :: "host \<Rightarrow> int list" where
  "portsInUseByRecords h = ho_reserved h @ concat (map recordPorts (allRecords h))"

text \<open>One attempt: a rejected bind rejects the allocation, a port that is taken asks for another.\<close>

definition bindFreePort :: "localOs \<Rightarrow> (host \<Rightarrow> host) \<Rightarrow> int localAct" where
  "bindFreePort os during = bindE (observe os (os_freePort os)) (\<lambda>p. thenE (modE during) (case p of
     None \<Rightarrow> throwE (OtherError ''no port'') | Some port \<Rightarrow> retE port))"

fun portAttempts :: "localOs \<Rightarrow> (host \<Rightarrow> host) \<Rightarrow> nat \<Rightarrow> int list \<Rightarrow> (int \<times> int list) localAct" where
  "portAttempts os during 0 taken = throwE (SandboxError Unknown_code False ''could not allocate a free loopback port'')"
| "portAttempts os during (Suc n) taken = bindE (bindFreePort os during) (\<lambda>port.
     if port \<in> set taken \<or> isInfraRange port then portAttempts os during n taken
     else thenE (modE (\<lambda>h. h\<lparr>ho_reserved := port # ho_reserved h\<rparr>)) (retE (port, port # taken)))"

definition allocatePort :: "localOs \<Rightarrow> (host \<Rightarrow> host) \<Rightarrow> int list \<Rightarrow> (int \<times> int list) localAct" where
  "allocatePort os during taken = portAttempts os during 50 taken"

fun allocatePortMap ::
  "localOs \<Rightarrow> (host \<Rightarrow> host) \<Rightarrow> int list \<Rightarrow> (int \<times> int) list \<Rightarrow> int list \<Rightarrow> ((int \<times> int) list \<times> int list) localAct" where
  "allocatePortMap os during [] m taken = retE (m, taken)"
| "allocatePortMap os during (port # ports) m taken =
     (if map_of m port \<noteq> None then allocatePortMap os during ports m taken
      else if isInfraRange port then bindE (allocatePort os during taken) (\<lambda>(p, taken').
        allocatePortMap os during ports (m @ [(port, p)]) taken')
      else allocatePortMap os during ports (m @ [(port, port)]) taken)"

section \<open>Processes\<close>

definition pidAlive :: "localOs \<Rightarrow> int \<Rightarrow> bool localAct" where
  "pidAlive os pid = observe os (\<lambda>n. os_alive os n pid)"

definition signalGroup :: "int \<Rightarrow> string \<Rightarrow> unit localAct" where
  "signalGroup pid signal = modE (\<lambda>h. h\<lparr>ho_signals := ho_signals h @ [(pid, signal)]\<rparr>)"

definition sleepLocal :: "(host \<Rightarrow> host) \<Rightarrow> int \<Rightarrow> unit localAct" where
  "sleepLocal during ms = modE (\<lambda>h. during (h\<lparr>ho_now := ho_now h + ms\<rparr>))"

definition exitRound :: "localOs \<Rightarrow> (host \<Rightarrow> host) \<Rightarrow> int \<Rightarrow> int \<Rightarrow> bool option localAct" where
  "exitRound os during pid deadline = bindE (pidAlive os pid) (\<lambda>alive.
     if \<not> alive then retE (Some True)
     else bindE (getE ho_now) (\<lambda>t. if t \<ge> deadline then retE (Some False)
       else thenE (sleepLocal during 200) (retE None)))"

definition waitForExit :: "localOs \<Rightarrow> (host \<Rightarrow> host) \<Rightarrow> int \<Rightarrow> int \<Rightarrow> bool localAct" where
  "waitForExit os during pid timeoutMs = bindE (getE ho_now) (\<lambda>t0.
     roundsE (OtherError ''no rounds left'') (loopFuel timeoutMs 200) (exitRound os during pid (t0 + timeoutMs)))"

definition baseName :: "string \<Rightarrow> string" where
  "baseName p = last ([] # segments p)"

definition ownedProgramNames :: "localOs \<Rightarrow> string list" where
  "ownedProgramNames os = [baseName (os_agentBin os), baseName (os_serveBin os), ''zs-agent'', ''zed-remote-server'',
     ''remote_server'', ''sh'', ''bash'', ''git'', ''tar'']"

definition supervisorPid :: "localOs \<Rightarrow> string \<Rightarrow> int option localAct" where
  "supervisorPid os name = bindE (observe os (\<lambda>n. os_pidFile os n name)) (\<lambda>p. case p of
     None \<Rightarrow> retE None
   | Some pid \<Rightarrow> if pid > 1 then bindE (pidAlive os pid) (\<lambda>alive. retE (if alive then Some pid else None)) else retE None)"

definition sandboxPids :: "localOs \<Rightarrow> (host \<Rightarrow> host) \<Rightarrow> string \<Rightarrow> int list localAct" where
  "sandboxPids os during name = bindE (supervisorPid os name) (\<lambda>supervisor.
     bindE (observe os (\<lambda>n. os_matching os n name)) (\<lambda>found. thenE (modE during)
     (retE (remdups (case_option [] (\<lambda>p. [p]) supervisor
        @ map fst (filter (\<lambda>(pid, prog). pid > 1 \<and> pid \<noteq> os_pid os \<and> prog \<in> set (ownedProgramNames os)) found))))))"

fun aliveAmong :: "localOs \<Rightarrow> int list \<Rightarrow> int list localAct" where
  "aliveAmong os [] = retE []"
| "aliveAmong os (p # ps) = bindE (pidAlive os p) (\<lambda>a.
     bindE (aliveAmong os ps) (\<lambda>rest. retE (if a then p # rest else rest)))"


section \<open>Paths and environments\<close>

text \<open>\<open>path.join\<close> below an absolute directory: the normal form, with the slash it ends in.\<close>

definition joinPath :: "string \<Rightarrow> string \<Rightarrow> string" where
  "joinPath base p = (let s = base @ ''/'' @ p; segs = segments s in
     ''/'' @ joinWith CHR ''/'' segs @ (if p \<noteq> [] \<and> last p = CHR ''/'' \<and> segs \<noteq> [] then ''/'' else []))"

definition mapSandboxPath :: "string \<Rightarrow> string \<Rightarrow> string" where
  "mapSandboxPath dir p = (let
       under = (\<lambda>pre. p = pre \<or> prefix (pre @ ''/'') p);
       into = (\<lambda>pre target. joinPath (joinPath dir target) (drop (length pre) p)) in
     if p = ''/'' then dir
     else if under ''/tmp'' then into ''/tmp'' ''tmp''
     else if under ''/workspaces'' then into ''/workspaces'' ''workspaces''
     else if under ''/vercel'' then into ''/vercel'' ''home''
     else p)"

definition resolveProgram :: "localOs \<Rightarrow> string \<Rightarrow> string \<times> string list" where
  "resolveProgram os cmd = (if cmd = ''zs-agent'' then (os_agentBin os, [])
     else if cmd = ''sha256sum'' \<and> os_darwin os then (''shasum'', [''-a'', ''256'']) else (cmd, []))"

text \<open>\<open>{ ...a, ...b }\<close>.\<close>

definition spread :: "(string \<times> string) list \<Rightarrow> (string \<times> string) list \<Rightarrow> (string \<times> string) list" where
  "spread a b = filter (\<lambda>e. fst e \<notin> set (map fst b)) a @ b"

definition inheritedEnv :: "localOs \<Rightarrow> (string \<times> string) list" where
  "inheritedEnv os = (let
       given = concat (map (\<lambda>k. case os_env os k of None \<Rightarrow> [] | Some v \<Rightarrow> if v = [] then [] else [(k, v)])
         [''PATH'', ''SHELL'', ''USER'', ''LANG'', ''LC_ALL'', ''TERM'', ''SSH_AUTH_SOCK'']) in
     spread [(''PATH'', ''/usr/local/bin:/usr/bin:/bin:/usr/sbin:/sbin''), (''SHELL'', ''/bin/sh''),
       (''USER'', os_username os), (''LANG'', ''en_US.UTF-8'')] given)"

definition mappedPort :: "localRecord \<Rightarrow> int \<Rightarrow> int" where
  "mappedPort r port = (case map_of (lr_portMap r) port of None \<Rightarrow> port | Some p \<Rightarrow> p)"

definition loopbackListen :: "int \<Rightarrow> string" where
  "loopbackListen port = ''127.0.0.1:'' @ showInt port"

definition localSupervisorEnv :: "localOs \<Rightarrow> env \<Rightarrow> localRecord \<Rightarrow> string \<Rightarrow> (string \<times> string) list" where
  "localSupervisorEnv os e r dir = spread (spread (inheritedEnv os) (lr_env r))
     [(''ZS_LOCAL'', ''1''), (''HOME'', joinPath dir ''home''), (''TMPDIR'', joinPath dir ''tmp''),
      (''ZS_WORKSPACES_DIR'', joinPath dir ''workspaces''), (''ZS_STATE_DIR'', joinPath dir ''state''),
      (''ZS_DATA_DIR'', joinPath dir ''home/.local/share/zed''), (''ZS_SERVER_BIN'', os_serveBin os),
      (''ZS_BUILD_ID'', nullish (ZS_SERVER_BUILD_ID e) ''dev''),
      (''ZS_RPC_LISTEN'', loopbackListen (mappedPort r (ZS_RPC_PORT e))),
      (''ZS_HEALTH_LISTEN'', loopbackListen (mappedPort r (ZS_HEALTH_PORT e))),
      (''ZS_LOCAL_API_LISTEN'', loopbackListen (lr_localApi r)),
      (''ZS_SERVER_CONTROL_LISTEN'', loopbackListen (lr_control r)), (''ZS_PROXY_BIND_IP'', ''127.0.0.1''),
      (''ZS_PROXY_SLOTS'', joinWith CHR '','' (map (\<lambda>s. showInt (mappedPort r s)) proxySlots)),
      (''ZS_INSECURE_COOKIES'', ''1''), (''RUST_LOG'', nullish (os_env os ''RUST_LOG'') ''info'')]"

record runInput =
  ri_cmd :: string
  ri_args :: "string list"
  ri_env :: "(string \<times> string) list"
  ri_cwd :: "string option"

definition prepare ::
  "localOs \<Rightarrow> env \<Rightarrow> string \<Rightarrow> runInput \<Rightarrow> (string \<times> string list \<times> (string \<times> string) list \<times> string) localAct" where
  "prepare os e name input = bindE (requireRecord name) (\<lambda>r.
     let dir = sandboxDir os name; (program, pre) = resolveProgram os (ri_cmd input);
       base = (if ri_cmd input = ''zs-agent'' then localSupervisorEnv os e r dir else spread (inheritedEnv os) (lr_env r));
       cwd = (case ri_cwd input of None \<Rightarrow> joinPath dir ''workspaces''
         | Some c \<Rightarrow> if c = [] then joinPath dir ''workspaces'' else mapSandboxPath dir c) in
     retE (program, pre @ map (mapSandboxPath dir) (ri_args input), spread base (ri_env input), cwd))"

section \<open>Commands\<close>

definition domainOf :: "string \<Rightarrow> int \<Rightarrow> string localAct" where
  "domainOf name port = bindE (requireRecord name) (\<lambda>r. case map_of (lr_portMap r) port of
     None \<Rightarrow> throwE (OtherError ''port was not declared'') | Some p \<Rightarrow> retE (''http://127.0.0.1:'' @ showInt p))"

definition commandId :: "int \<Rightarrow> string" where
  "commandId n = (let t = showInt n in ''lcmd_'' @ replicate (4 - length t) CHR ''0'' @ t)"

definition logName :: "string \<Rightarrow> string" where
  "logName cmd = map (\<lambda>c. if isLetter c \<or> isDigit c \<or> c \<in> set ''_.-'' then c else CHR ''_'') cmd"

definition runDetachedLocal :: "localOs \<Rightarrow> env \<Rightarrow> string \<Rightarrow> runInput \<Rightarrow> string localAct" where
  "runDetachedLocal os e name input = bindE (requireRecord name) (\<lambda>r.
     if lr_status r \<noteq> StRunning then throwE (SandboxError Unknown_code False ''is not running'')
     else bindE (prepare os e name input) (\<lambda>(program, args, childEnv, cwd).
       let seq = lr_cmdSeq r + 1; cmdId = commandId seq;
         logFile = joinPath (sandboxDir os name) (''logs/'' @ cmdId @ ''-'' @ logName (ri_cmd input) @ ''.log'') in
       bindE (observe os (\<lambda>n. os_spawn os n program args childEnv cwd)) (\<lambda>pid. case pid of
         None \<Rightarrow> throwE (SandboxError Unknown_code False ''could not start'')
       | Some p \<Rightarrow> if p = 0 then throwE (SandboxError Unknown_code False ''could not start'')
         else bindE (getE ho_now) (\<lambda>t.
           let c = \<lparr>lc_cmd = ri_cmd input, lc_args = ri_args input, lc_pid = p, lc_startedAt = t,
             lc_exitCode = None, lc_logFile = logFile\<rparr> in
           thenE (modE (\<lambda>h. h\<lparr>ho_live := (name, cmdId) # ho_live h\<rparr>))
           (thenE (writeRecord (r\<lparr>lr_cmdSeq := seq, lr_commands := AList.update cmdId c (lr_commands r)\<rparr>))
           (retE cmdId))))))"

text \<open>What the \<open>exit\<close> callback of a child does.\<close>

definition exitCodes :: "(string \<Rightarrow> localCommand \<Rightarrow> int option) \<Rightarrow> localRecord \<Rightarrow> localRecord" where
  "exitCodes f r = r\<lparr>lr_commands := map (\<lambda>(i, c). (i, c\<lparr>lc_exitCode := f i c\<rparr>)) (lr_commands r)\<rparr>"

definition commandExited :: "string \<Rightarrow> string \<Rightarrow> int \<Rightarrow> host \<Rightarrow> host" where
  "commandExited name cmdId code h = (let h' = (case recordOf name h of None \<Rightarrow> h | Some r \<Rightarrow>
       if map_of (lr_commands r) cmdId = None then h
       else updLocal (lr_name r) (\<lambda>d. d\<lparr>ld_record := Some (exitCodes (\<lambda>i c. if i = cmdId then Some code else lc_exitCode c) r)\<rparr>) h) in
     h'\<lparr>ho_live := filter (\<lambda>k. k \<noteq> (name, cmdId)) (ho_live h')\<rparr>)"

definition runCommand :: "localOs \<Rightarrow> (host \<Rightarrow> host) \<Rightarrow> env \<Rightarrow> string \<Rightarrow> runInput \<Rightarrow> (int \<times> string) localAct" where
  "runCommand os during e name input = bindE (prepare os e name input) (\<lambda>(program, args, childEnv, cwd).
     bindE (observe os (\<lambda>n. os_runToEnd os n program args)) (\<lambda>r. thenE (modE during) (case r of
       Inl m \<Rightarrow> throwE (SandboxError Unknown_code False m) | Inr res \<Rightarrow> retE res)))"

definition waitCommandLocal :: "localOs \<Rightarrow> (host \<Rightarrow> host) \<Rightarrow> string \<Rightarrow> string \<Rightarrow> int \<Rightarrow> int localAct" where
  "waitCommandLocal os during name cmdId timeoutMs = bindE (requireRecord name) (\<lambda>r. case map_of (lr_commands r) cmdId of
     None \<Rightarrow> throwE (SandboxError Not_found False ''no command'')
   | Some c \<Rightarrow> (case lc_exitCode c of Some code \<Rightarrow> retE code | None \<Rightarrow>
       bindE (getE ho_live) (\<lambda>live.
       if (name, cmdId) \<in> set live then
         bindE (observe os (\<lambda>n. os_waitLive os n name cmdId timeoutMs)) (\<lambda>code. thenE (modE during) (case code of
           None \<Rightarrow> throwE (SandboxError Unknown_code False ''wait timed out'') | Some x \<Rightarrow> retE x))
       else bindE (waitForExit os during (lc_pid c) timeoutMs) (\<lambda>gone.
         if \<not> gone then throwE (SandboxError Unknown_code False ''wait timed out'')
         else bindE (requireRecord name) (\<lambda>current. case map_of (lr_commands current) cmdId of
             None \<Rightarrow> retE (-1)
           | Some entry \<Rightarrow> (case lc_exitCode entry of Some code \<Rightarrow> retE code | None \<Rightarrow>
               thenE (writeRecord (exitCodes (\<lambda>i c. if i = cmdId then Some (-1) else lc_exitCode c) current)) (retE (-1))))))))"

definition killCommand :: "string \<Rightarrow> string \<Rightarrow> string \<Rightarrow> unit localAct" where
  "killCommand name cmdId signal = bindE (requireRecord name) (\<lambda>r. case map_of (lr_commands r) cmdId of
     None \<Rightarrow> retE () | Some c \<Rightarrow> whenE (lc_exitCode c = None) (signalGroup (lc_pid c) signal))"

definition extendLocal :: "string \<Rightarrow> int \<Rightarrow> unit localAct" where
  "extendLocal name ms = bindE (requireRecord name) (\<lambda>r. bindE (getE ho_now) (\<lambda>t.
     writeRecord (r\<lparr>lr_expiresAt := Some (case_option t id (lr_expiresAt r) + ms)\<rparr>)))"


section \<open>Stopping\<close>

definition STOP_GRACE_MS :: int where "STOP_GRACE_MS = 2000"

text \<open>
  \<open>leftovers\<close> is a variable of the loop, which ends when it is empty or the grace is over.
\<close>

definition leftoverRound ::
  "localOs \<Rightarrow> (host \<Rightarrow> host) \<Rightarrow> string \<Rightarrow> int \<Rightarrow> int list \<Rightarrow> (int list + int list) localAct" where
  "leftoverRound os during name graceUntil leftovers = bindE (getE ho_now) (\<lambda>t.
     if leftovers = [] \<or> t \<ge> graceUntil then retE (Inl leftovers)
     else thenE (sleepLocal during 200) (bindE (sandboxPids os during name) (\<lambda>pids.
       bindE (aliveAmong os pids) (\<lambda>ls. retE (Inr ls)))))"

definition markExited :: "localOs \<Rightarrow> localRecord \<Rightarrow> unit localAct" where
  "markExited os r = bindE (aliveAmong os (map (\<lambda>e. lc_pid (snd e)) (filter (\<lambda>e. lc_exitCode (snd e) = None) (lr_commands r))))
     (\<lambda>alive. writeRecord (exitCodes (\<lambda>i c. if lc_exitCode c = None \<and> lc_pid c \<notin> set alive then Some (-1) else lc_exitCode c) r))"

definition terminateAll :: "localOs \<Rightarrow> (host \<Rightarrow> host) \<Rightarrow> string \<Rightarrow> unit localAct" where
  "terminateAll os during name = bindE (requireRecord name) (\<lambda>r.
     bindE (supervisorPid os name) (\<lambda>supervisor.
     let first = map (\<lambda>e. lc_pid (snd e)) (filter (\<lambda>e. lc_exitCode (snd e) = None) (lr_commands r))
       @ case_option [] (\<lambda>p. [p]) supervisor in
     thenE (forE first (\<lambda>pid. signalGroup pid ''SIGTERM''))
     (bindE (getE ho_now) (\<lambda>t0.
     thenE (forE first (\<lambda>pid. bindE (getE ho_now) (\<lambda>t.
       thenE (waitForExit os during pid (max 0 (t0 + 22000 - t))) (retE ()))))
     (bindE (sandboxPids os during name) (\<lambda>found.
     thenE (forE found (\<lambda>pid. signalGroup pid ''SIGTERM''))
     (bindE (getE ho_now) (\<lambda>t1.
     bindE (iterE (OtherError ''no rounds left'') (loopFuel STOP_GRACE_MS 200)
       (leftoverRound os during name (t1 + STOP_GRACE_MS)) found) (\<lambda>leftovers.
     bindE (aliveAmong os first) (\<lambda>stubborn.
     thenE (forE stubborn (\<lambda>pid. signalGroup pid ''SIGKILL''))
     (thenE (forE leftovers (\<lambda>pid. signalGroup pid ''SIGKILL''))
     (bindE (requireRecord name) (\<lambda>current.
     markExited os current)))))))))))))"

text \<open>What \<open>tar\<close> takes: \<open>workspaces\<close>, \<open>home\<close> and \<open>state\<close> but \<open>state/run\<close>.\<close>

definition archived :: "string list \<Rightarrow> bool" where
  "archived path \<longleftrightarrow> path \<noteq> [] \<and> hd path \<in> {''workspaces'', ''home'', ''state''} \<and> \<not> prefix [''state'', ''run''] path"

definition archiveOf :: "files \<Rightarrow> files" where
  "archiveOf fs = filter (\<lambda>e. archived (fst e)) fs"

definition base36Digit :: "nat \<Rightarrow> char" where
  "base36Digit d = ''0123456789abcdefghijklmnopqrstuvwxyz'' ! d"

function base36 :: "nat \<Rightarrow> string" where
  "base36 n = (if n < 36 then [base36Digit n] else base36 (n div 36) @ [base36Digit (n mod 36)])"
  by pat_completeness auto
termination by (relation "measure id") auto

declare base36.simps [simp del]

definition snapshotIdAt :: "string \<Rightarrow> int \<Rightarrow> string" where
  "snapshotIdAt name t = ''lsnap_'' @ name @ ''_'' @ base36 (nat t)"

text \<open>The retention loop drops the oldest ids, and their archives; \<open>keep = 0\<close> keeps all.\<close>

fun retain :: "int \<Rightarrow> string list \<Rightarrow> string list \<times> string list" where
  "retain keep [] = ([], [])"
| "retain keep (i # ids) = (if keep > 0 \<and> int (length (i # ids)) > keep
     then (let (dropped, kept) = retain keep ids in (i # dropped, kept)) else ([], i # ids))"

definition snapshotTaken :: "string \<Rightarrow> localRecord \<Rightarrow> host \<Rightarrow> host" where
  "snapshotTaken snapshotId r h = (let (dropped, kept) = retain (lr_keepLastSnapshots r) (lr_snapshotIds r @ [snapshotId]) in
     updLocal (lr_name r) (\<lambda>d. d\<lparr>ld_record := Some (r\<lparr>lr_snapshotIds := kept\<rparr>),
       ld_archives := filter (\<lambda>e. fst e \<notin> set (filter (\<lambda>i. i \<noteq> []) dropped)) (ld_archives d)\<rparr>) h)"

definition makeSnapshot :: "localOs \<Rightarrow> (host \<Rightarrow> host) \<Rightarrow> string \<Rightarrow> (string \<times> int) localAct" where
  "makeSnapshot os during name = bindE (getE ho_now) (\<lambda>t.
     let snapshotId = snapshotIdAt name t in
     bindE (observe os (os_tar os)) (\<lambda>ok.
     if \<not> ok then thenE (modE during) (throwE (OtherError ''tar''))
     else thenE (modE (updLocal name (\<lambda>d. d\<lparr>ld_archives := AList.update snapshotId (archiveOf (ld_files d)) (ld_archives d)\<rparr>)))
     (thenE (modE during)
     (bindE (observe os (os_archiveSize os)) (\<lambda>sizeBytes.
     bindE (requireRecord name) (\<lambda>r.
     thenE (modE (snapshotTaken snapshotId r)) (retE (snapshotId, sizeBytes))))))))"

definition stopLocal :: "localOs \<Rightarrow> (host \<Rightarrow> host) \<Rightarrow> string \<Rightarrow> stopResult localAct" where
  "stopLocal os during name = bindE (requireRecord name) (\<lambda>r.
     if lr_status r = StStopped then retE \<lparr>sr_snapshotId = None, sr_snapshotSizeBytes = None\<rparr>
     else thenE (writeRecord (r\<lparr>lr_status := StStopping\<rparr>))
     (thenE (terminateAll os during name)
     (bindE (makeSnapshot os during name) (\<lambda>(snapshotId, sizeBytes).
     bindE (requireRecord name) (\<lambda>stopped.
     thenE (writeRecord (stopped\<lparr>lr_status := StStopped, lr_sessionId := None, lr_startedAt := None, lr_expiresAt := None\<rparr>))
     (retE \<lparr>sr_snapshotId = Some snapshotId, sr_snapshotSizeBytes = Some sizeBytes\<rparr>))))))"

definition readLocalFile :: "localOs \<Rightarrow> string \<Rightarrow> string \<Rightarrow> string option localAct" where
  "readLocalFile os name p = getE (\<lambda>h. let base = segments (sandboxDir os name); full = segments (mapSandboxPath (sandboxDir os name) p) in
     case dirOf h name of None \<Rightarrow> None
     | Some d \<Rightarrow> if prefix base full then map_of (ld_files d) (drop (length base) full) else None)"

definition deleteLocal :: "localOs \<Rightarrow> (host \<Rightarrow> host) \<Rightarrow> string \<Rightarrow> unit localAct" where
  "deleteLocal os during name = bindE (readRecord name) (\<lambda>r. case r of None \<Rightarrow> retE () | Some _ \<Rightarrow>
     thenE (terminateAll os during name)
     (modE (\<lambda>h. h\<lparr>ho_live := filter (\<lambda>k. fst k \<noteq> name) (ho_live h), ho_dirs := filter (\<lambda>e. fst e \<noteq> name) (ho_dirs h)\<rparr>)))"

definition listSnapshotIds :: "string \<Rightarrow> string list localAct" where
  "listSnapshotIds name = bindE (requireRecord name) (\<lambda>r. retE (lr_snapshotIds r))"

section \<open>The api\<close>

definition startSession :: "int \<Rightarrow> localRecord \<Rightarrow> localRecord" where
  "startSession t r = r\<lparr>lr_sessionSeq := lr_sessionSeq r + 1,
     lr_sessionId := Some (''lses_'' @ lr_name r @ ''_'' @ showInt (lr_sessionSeq r + 1)),
     lr_startedAt := Some t, lr_expiresAt := Some (t + lr_timeoutMs r), lr_status := StRunning\<rparr>"

text \<open>\<open>tar -x\<close> writes what the archive holds over the files that are there.\<close>

definition unpacked :: "files \<Rightarrow> files \<Rightarrow> files" where
  "unpacked arch fs = filter (\<lambda>e. fst e \<notin> set (map fst arch)) fs @ arch"

definition restoreIfNeeded :: "localOs \<Rightarrow> (host \<Rightarrow> host) \<Rightarrow> localRecord \<Rightarrow> unit localAct" where
  "restoreIfNeeded os during r = bindE (getE (\<lambda>h. case dirOf h (lr_name r) of None \<Rightarrow> emptyDir | Some d \<Rightarrow> d)) (\<lambda>d.
     if list_ex (\<lambda>e. prefix [''workspaces''] (fst e)) (ld_files d) \<or> lr_snapshotIds r = [] then retE ()
     else case map_of (ld_archives d) (last (lr_snapshotIds r)) of None \<Rightarrow> retE ()
     | Some arch \<Rightarrow> bindE (observe os (os_tar os)) (\<lambda>ok.
         if \<not> ok then thenE (modE during) (throwE (OtherError ''tar''))
         else thenE (modE (updLocal (lr_name r) (\<lambda>d. d\<lparr>ld_files := unpacked arch (ld_files d)\<rparr>))) (modE during)))"

definition resumeLocal :: "localOs \<Rightarrow> (host \<Rightarrow> host) \<Rightarrow> localRecord \<Rightarrow> unit localAct" where
  "resumeLocal os during r = thenE (restoreIfNeeded os during r)
     (bindE (getE ho_now) (\<lambda>t. writeRecord (startSession t r)))"

definition newRecord :: "createSandboxInput \<Rightarrow> int \<Rightarrow> (int \<times> int) list \<Rightarrow> int \<Rightarrow> int \<Rightarrow> localRecord" where
  "newRecord input t portMap localApi control = startSession t
     \<lparr>lr_name = ci_name input, lr_region = ci_region input, lr_vcpus = ci_vcpus input,
       lr_ports = remdups (ci_ports input), lr_portMap = portMap, lr_localApi = localApi, lr_control = control,
       lr_status = StRunning, lr_createdAt = t, lr_startedAt = None, lr_expiresAt = None, lr_sessionId = None,
       lr_sessionSeq = 0, lr_timeoutMs = ci_timeoutMs input, lr_image = ci_image input, lr_env = ci_env input,
       lr_tags = ci_tags input, lr_networkPolicy = ci_networkPolicy input,
       lr_snapshotExpirationMs = ci_snapshotExpirationMs input, lr_keepLastSnapshots = ci_keepLastSnapshots input,
       lr_snapshotIds = [], lr_commands = [], lr_cmdSeq = 0\<rparr>"

definition createLocal :: "localOs \<Rightarrow> (host \<Rightarrow> host) \<Rightarrow> createSandboxInput \<Rightarrow> string localAct" where
  "createLocal os during input = bindE (readRecord (ci_name input)) (\<lambda>existing. case existing of
     Some r \<Rightarrow> thenE (whenE (lr_status r \<noteq> StRunning) (resumeLocal os during r)) (retE (ci_name input))
   | None \<Rightarrow>
     thenE (modE (updLocal (ci_name input) id))
     (bindE (getE portsInUseByRecords) (\<lambda>taken.
     bindE (allocatePortMap os during (ci_ports input) [] taken) (\<lambda>(portMap, taken1).
     bindE (allocatePort os during taken1) (\<lambda>(localApi, taken2).
     bindE (allocatePort os during taken2) (\<lambda>(control, taken3).
     bindE (getE ho_now) (\<lambda>t.
     thenE (writeRecord (newRecord input t portMap localApi control)) (retE (ci_name input)))))))))"

text \<open>\<open>onResume\<close> is the caller's hook.\<close>

definition getLocal :: "localOs \<Rightarrow> (host \<Rightarrow> host) \<Rightarrow> string \<Rightarrow> bool \<Rightarrow> (string \<Rightarrow> unit localAct) \<Rightarrow> string option localAct" where
  "getLocal os during name resumes onResume = bindE (readRecord name) (\<lambda>record. case record of
     None \<Rightarrow> retE None
   | Some r \<Rightarrow> thenE (whenE (resumes \<and> lr_status r \<noteq> StRunning) (thenE (resumeLocal os during r) (onResume name))) (retE (Some name)))"

definition listByTagLocal :: "(string \<times> string) list \<Rightarrow> host \<Rightarrow> (string \<times> sandboxStatus \<times> int) list" where
  "listByTagLocal tag h = map (\<lambda>r. (lr_name r, lr_status r, lr_createdAt r)) (filter (\<lambda>r. case tag of [] \<Rightarrow> True
     | (k, v) # _ \<Rightarrow> map_of (lr_tags r) k = Some v) (allRecords h))"

definition deleteSnapshotLocal :: "string \<Rightarrow> unit localAct" where
  "deleteSnapshotLocal snapshotId = bindE (getE allRecords) (\<lambda>rs. forE rs (\<lambda>r.
     whenE (snapshotId \<in> set (lr_snapshotIds r)) (modE (updLocal (lr_name r) (\<lambda>d. d\<lparr>
       ld_archives := filter (\<lambda>e. fst e \<noteq> snapshotId) (ld_archives d),
       ld_record := Some (r\<lparr>lr_snapshotIds := filter (\<lambda>i. i \<noteq> snapshotId) (lr_snapshotIds r)\<rparr>)\<rparr>)))))"


section \<open>Lemmas\<close>

subsection \<open>Views of the directories\<close>

text \<open>
  What an operation leaves alone is a view of the directories, entry by entry. \<open>named\<close> says that the
  entries are distinct and every record lies in the directory of its name.
\<close>

definition viewBy :: "(localDir \<Rightarrow> 'v) \<Rightarrow> host \<Rightarrow> (string \<times> 'v) list" where
  "viewBy v h = map (\<lambda>e. (fst e, v (snd e))) (ho_dirs h)"

definition recordNames :: "host \<Rightarrow> (string \<times> string option) list" where
  "recordNames h = viewBy (\<lambda>d. map_option lr_name (ld_record d)) h"

definition named :: "host \<Rightarrow> bool" where
  "named h \<longleftrightarrow> distinct (map fst (ho_dirs h))
     \<and> list_all (\<lambda>e. case ld_record (snd e) of None \<Rightarrow> True | Some r \<Rightarrow> lr_name r = fst e) (ho_dirs h)"

lemma wp_observe [wp_simps]: "wp (observe os f) Q E h =
    Q (f (ho_calls h)) (h\<lparr>ho_calls := Suc (ho_calls h), ho_now := ho_now h + int (os_elapsed os (ho_calls h))\<rparr>)"
  by (simp add: wp_def observe_def)

lemma named_record: "named h \<Longrightarrow> recordOf name h = Some r \<Longrightarrow> lr_name r = name"
  by (auto simp: named_def recordOf_def dirOf_def list_all_iff dest!: map_of_SomeD split: option.splits)

lemma dirOf_record: "recordOf name h = Some r \<Longrightarrow> \<exists>d. dirOf h name = Some d \<and> ld_record d = Some r"
  by (auto simp: recordOf_def split: option.splits)

lemma dirOf_put: "dirOf (putLocal name d h) n = (if n = name then Some d else dirOf h n)"
proof -
  have new: "map_of (es @ [(name, d)]) n = (if n = name then Some d else map_of es n)" if "map_of es name = None" for es :: "(string \<times> localDir) list"
    using that by (induction es) (auto split: if_splits)
  have old: "map_of (map (\<lambda>e. if fst e = name then (name, d) else e) es) n = (if n = name then Some d else map_of es n)"
    if "map_of es name \<noteq> None" for es :: "(string \<times> localDir) list"
  proof -
    have "map_of (map (\<lambda>e. if fst e = name then (name, d) else e) es) n =
        (if n = name \<and> map_of es name \<noteq> None then Some d else map_of es n)" for es :: "(string \<times> localDir) list"
      by (induction es) auto
    with that show ?thesis by simp
  qed
  show ?thesis
  proof (cases "map_of (ho_dirs h) name = None")
    case True
    then show ?thesis using new [OF True] by (simp add: putLocal_def dirOf_def)
  next
    case False
    then obtain y where "map_of (ho_dirs h) name = Some y" by blast
    then show ?thesis using old [OF False] by (simp add: putLocal_def dirOf_def)
  qed
qed

lemma dirOf_upd: "dirOf (updLocal name f h) n =
    (if n = name then Some (f (case dirOf h name of None \<Rightarrow> emptyDir | Some d \<Rightarrow> d)) else dirOf h n)"
  by (simp add: updLocal_def dirOf_put)

lemma recordOf_upd: "recordOf n (updLocal name f h) =
    (if n = name then ld_record (f (case dirOf h name of None \<Rightarrow> emptyDir | Some d \<Rightarrow> d)) else recordOf n h)"
  by (simp add: recordOf_def dirOf_upd)

text \<open>Changing an entry to one with the same view keeps the view.\<close>

lemma viewBy_upd:
  assumes "distinct (map fst (ho_dirs h))" and "dirOf h name = Some d" and "v (f d) = v d"
  shows "viewBy v (updLocal name f h) = viewBy v h"
proof -
  have "(if fst e = name then (name, v (f d)) else (fst e, v (snd e))) = (fst e, v (snd e))" if "e \<in> set (ho_dirs h)" for e
  proof (cases "fst e = name")
    case True
    have "map_of (ho_dirs h) (fst e) = Some (snd e)"
      using that assms(1) by (simp add: map_of_eq_Some_iff)
    with True assms(2,3) show ?thesis by (simp add: dirOf_def)
  qed simp
  then have "map (\<lambda>e. if fst e = name then (name, v (f d)) else (fst e, v (snd e))) (ho_dirs h) = viewBy v h"
    unfolding viewBy_def by (rule map_cong [OF refl])
  moreover have "viewBy v (updLocal name f h) = map (\<lambda>e. if fst e = name then (name, v (f d)) else (fst e, v (snd e))) (ho_dirs h)"
    using assms(2) by (simp add: viewBy_def updLocal_def putLocal_def)
  ultimately show ?thesis by simp
qed

lemma viewBy_of: "viewBy u h = viewBy u h' \<Longrightarrow> (\<And>d. v d = g (u d)) \<Longrightarrow> viewBy v h = viewBy v h'"
proof -
  assume *: "viewBy u h = viewBy u h'" and "\<And>d. v d = g (u d)"
  then have "viewBy v h = map (\<lambda>e. (fst e, g (snd e))) (viewBy u h)" for h
    by (simp add: viewBy_def)
  then show ?thesis by (simp add: *)
qed

lemma map_of_view: "map_of (viewBy v h) n = map_option v (dirOf h n)"
proof -
  have "map_of (map (\<lambda>e. (fst e, v (snd e))) es) n = map_option v (map_of es n)" for es :: "(string \<times> localDir) list"
    by (induction es) auto
  then show ?thesis by (simp add: viewBy_def dirOf_def)
qed

lemma viewBy_dirOf: "viewBy v h = viewBy v h' \<Longrightarrow> map_option v (dirOf h n) = map_option v (dirOf h' n)"
proof -
  assume *: "viewBy v h = viewBy v h'"
  then show ?thesis by (simp flip: map_of_view)
qed


text \<open>Everything but the commands; \<open>during\<close> is quiet when it does what exiting children do and no more.\<close>

definition coreOf :: "localDir \<Rightarrow> localRecord option \<times> files \<times> (string \<times> files) list" where
  "coreOf d = (map_option (\<lambda>r. r\<lparr>lr_commands := []\<rparr>) (ld_record d), ld_files d, ld_archives d)"

definition quietDuring :: "(host \<Rightarrow> host) \<Rightarrow> bool" where
  "quietDuring during \<longleftrightarrow> (\<forall>h. named h \<longrightarrow> viewBy coreOf (during h) = viewBy coreOf h
     \<and> ho_reserved (during h) = ho_reserved h \<and> ho_now h \<le> ho_now (during h))"

lemma named_by: "named h \<longleftrightarrow> distinct (map fst (recordNames h))
    \<and> list_all (\<lambda>e. case snd e of None \<Rightarrow> True | Some n \<Rightarrow> n = fst e) (recordNames h)"
proof -
  have "list_all (\<lambda>e. case snd e of None \<Rightarrow> True | Some n \<Rightarrow> n = fst e)
        (map (\<lambda>e. (fst e, map_option lr_name (ld_record (snd e)))) es) =
      list_all (\<lambda>e. case ld_record (snd e) of None \<Rightarrow> True | Some r \<Rightarrow> lr_name r = fst e) es" for es :: "(string \<times> localDir) list"
    by (induction es) (auto split: option.splits)
  then show ?thesis by (simp add: named_def recordNames_def viewBy_def comp_def)
qed

lemma named_core: "viewBy coreOf h = viewBy coreOf h' \<Longrightarrow> named h = named h'"
proof -
  assume "viewBy coreOf h = viewBy coreOf h'"
  then have "recordNames h = recordNames h'"
    unfolding recordNames_def
    by (rule viewBy_of [where g = "\<lambda>c. map_option lr_name (fst c)"]) (simp add: coreOf_def option.map_comp comp_def)
  then show ?thesis by (simp add: named_by)
qed

lemma coreOf_commands: "ld_record d = Some r \<Longrightarrow> coreOf (d\<lparr>ld_record := Some (exitCodes f r)\<rparr>) = coreOf d"
  by (simp add: coreOf_def exitCodes_def)

lemma named_distinct: "named h \<Longrightarrow> distinct (map fst (ho_dirs h))"
  by (simp add: named_def)

lemma quietDuring_exited: "quietDuring (commandExited name cmdId code)"
proof -
  have "viewBy coreOf (commandExited name cmdId code h) = viewBy coreOf h \<and> ho_reserved (commandExited name cmdId code h) = ho_reserved h
      \<and> ho_now h \<le> ho_now (commandExited name cmdId code h)" if "named h" for h
  proof (cases "recordOf name h")
    case None
    then show ?thesis by (simp add: commandExited_def viewBy_def)
  next
    case (Some r)
    obtain d where d: "dirOf h name = Some d" "ld_record d = Some r" using dirOf_record [OF Some] by blast
    have "viewBy coreOf (updLocal name (\<lambda>d. d\<lparr>ld_record := Some (exitCodes f r)\<rparr>) h) = viewBy coreOf h" for f
      by (rule viewBy_upd [OF named_distinct [OF that] d(1)]) (rule coreOf_commands [OF d(2)])
    then show ?thesis
      using Some named_record [OF that Some]
      by (simp add: commandExited_def Let_def viewBy_def updLocal_def putLocal_def)
  qed
  then show ?thesis by (simp add: quietDuring_def)
qed

lemma named_write:
  assumes "named h" and "\<And>d. map_option lr_name (ld_record (f d)) = Some name"
  shows "named (updLocal name f h)"
proof (cases "dirOf h name")
  case None
  then have "name \<notin> set (map fst (ho_dirs h))" by (simp add: dirOf_def map_of_eq_None_iff)
  with assms(1) assms(2) [of emptyDir] None show ?thesis
    by (auto simp: named_def updLocal_def putLocal_def split: option.splits)
next
  case (Some d)
  have keys: "map fst (map (\<lambda>e. if fst e = name then (name, f d) else e) es) = map fst es" for es :: "(string \<times> localDir) list"
    by (induction es) auto
  have "list_all (\<lambda>e. case ld_record (snd e) of None \<Rightarrow> True | Some r \<Rightarrow> lr_name r = fst e)
      (map (\<lambda>e. if fst e = name then (name, f d) else e) es)"
    if "list_all (\<lambda>e. case ld_record (snd e) of None \<Rightarrow> True | Some r \<Rightarrow> lr_name r = fst e) es" for es
    using that assms(2) [of d] by (induction es) (auto split: option.splits)
  moreover have "ho_dirs (updLocal name f h) = map (\<lambda>e. if fst e = name then (name, f d) else e) (ho_dirs h)"
    using Some by (simp add: updLocal_def putLocal_def)
  ultimately show ?thesis using assms(1) by (simp only: named_def keys simp_thms)
qed

subsection \<open>What stopping leaves alone\<close>

text \<open>
  A view of the directories that does not look at commands is kept by everything that only waits for
  processes and records their exits.
\<close>

lemma keeps_iterE: "(\<And>s. keeps (body s) I) \<Longrightarrow> keeps (iterE e n body s) I"
  by (induction n arbitrary: s) (auto split: sum.splits)

locale local_view =
  fixes v :: "localDir \<Rightarrow> 'v"
  assumes v_core: "coreOf d = coreOf d' \<Longrightarrow> v d = v d'"
    and v_record: "v d = v d' \<Longrightarrow> (ld_record d = None) = (ld_record d' = None)"
    and v_write: "v d = v d' \<Longrightarrow> ld_record d = Some r \<Longrightarrow> v (d'\<lparr>ld_record := Some (r\<lparr>lr_commands := c\<rparr>)\<rparr>) = v d'"
begin

definition holds :: "(string \<times> 'v) list \<Rightarrow> host \<Rightarrow> bool" where
  "holds V h \<longleftrightarrow> named h \<and> viewBy v h = V"

definition fits :: "(string \<times> 'v) list \<Rightarrow> localRecord \<Rightarrow> bool" where
  "fits V r \<longleftrightarrow> (\<exists>d. map_of V (lr_name r) = Some (v d) \<and> ld_record d = Some r)"

lemma view_core: "viewBy coreOf h = viewBy coreOf h' \<Longrightarrow> viewBy v h = viewBy v h'"
proof -
  assume same: "viewBy coreOf h = viewBy coreOf h'"
  have pick: "coreOf (SOME d'. coreOf d' = coreOf d) = coreOf d" for d
    by (rule someI [where P = "\<lambda>d'. coreOf d' = coreOf d" and x = d]) simp
  show ?thesis
    by (rule viewBy_of [OF same, where g = "\<lambda>c. v (SOME d'. coreOf d' = c)"], rule v_core, rule pick [symmetric])
qed

lemma keeps_during: "quietDuring during \<Longrightarrow> keeps (modE during) (holds V)"
proof (rule keeps_mod)
  fix h assume "quietDuring during" and h: "holds V h"
  then have same: "viewBy coreOf (during h) = viewBy coreOf h" by (simp add: quietDuring_def holds_def)
  show "holds V (during h)"
    using h named_core [OF same] view_core [OF same] by (simp add: holds_def)
qed

lemma keeps_same: "(\<And>h. ho_dirs (f h) = ho_dirs h) \<Longrightarrow> keeps (modE f) (holds V)"
  by (intro keeps_mod) (simp add: holds_def named_def viewBy_def)

lemma keeps_observe: "keeps (observe os f) (holds V)"
  by (simp add: keeps_def wp_def observe_def holds_def named_def viewBy_def)

lemma keeps_sleep: "quietDuring during \<Longrightarrow> keeps (sleepLocal during ms) (holds V)"
proof -
  assume "quietDuring during"
  then have "keeps (thenE (modE (\<lambda>h. h\<lparr>ho_now := ho_now h + ms\<rparr>)) (modE during)) (holds V)"
    by (intro keeps_then keeps_same keeps_during) simp
  then show ?thesis by (simp add: keeps_def wp_simps sleepLocal_def)
qed

lemma keeps_require:
  assumes "\<And>r. fits V r \<Longrightarrow> lr_name r = name \<Longrightarrow> keeps (k r) (holds V)"
  shows "keeps (bindE (requireRecord name) k) (holds V)"
proof (rule keepsI)
  fix h assume h: "holds V h"
  show "wp (bindE (requireRecord name) k) (\<lambda>_. holds V) (\<lambda>_. holds V) h"
  proof (cases "recordOf name h")
    case None
    then show ?thesis by (simp add: requireRecord_def readRecord_def wp_simps h)
  next
    case (Some r)
    obtain d where d: "dirOf h name = Some d" "ld_record d = Some r" using dirOf_record [OF Some] by blast
    have "fits V r" "lr_name r = name"
      using h d named_record [OF _ Some] by (auto simp: fits_def holds_def map_of_view)
    from keepsD [OF assms [OF this] h] Some show ?thesis
      by (simp add: requireRecord_def readRecord_def wp_simps)
  qed
qed


lemma keeps_write:
  assumes "fits V r"
  shows "keeps (writeRecord (exitCodes f r)) (holds V)"
  unfolding writeRecord_def
proof (rule keeps_mod)
  fix h assume h: "holds V h"
  then have n: "named h" and V: "viewBy v h = V" by (simp_all add: holds_def)
  let ?r = "exitCodes f r"
  have name: "lr_name ?r = lr_name r" by (simp add: exitCodes_def)
  obtain d where d: "map_of V (lr_name r) = Some (v d)" "ld_record d = Some r" using assms by (auto simp: fits_def)
  have "map_option v (dirOf h (lr_name r)) = Some (v d)"
    using d(1) map_of_view [of v h "lr_name r"] V by simp
  then obtain d' where d': "dirOf h (lr_name r) = Some d'" "v d = v d'"
    by (cases "dirOf h (lr_name r)") auto
  have "v (d'\<lparr>ld_record := Some ?r\<rparr>) = v d'"
    unfolding exitCodes_def by (rule v_write [OF d'(2) d(2)])
  then have "viewBy v (updLocal (lr_name r) (\<lambda>d. d\<lparr>ld_record := Some ?r\<rparr>) h) = V"
    using viewBy_upd [OF named_distinct [OF n] d'(1), where v = v and f = "\<lambda>d. d\<lparr>ld_record := Some ?r\<rparr>"] V by simp
  moreover have "named (updLocal (lr_name r) (\<lambda>d. d\<lparr>ld_record := Some ?r\<rparr>) h)"
    using n by (rule named_write) (simp add: name)
  ultimately show "holds V (updLocal (lr_name ?r) (\<lambda>d. d\<lparr>ld_record := Some ?r\<rparr>) h)"
    by (simp add: holds_def name)
qed

lemma keeps_waitForExit: "quietDuring during \<Longrightarrow> keeps (waitForExit os during pid ms) (holds V)"
  unfolding waitForExit_def exitRound_def pidAlive_def
  by (intro keeps_shape keeps_loopE keeps_observe keeps_sleep)

lemma keeps_supervisorPid: "keeps (supervisorPid os name) (holds V)"
  unfolding supervisorPid_def pidAlive_def by (intro keeps_shape keeps_observe)

lemma keeps_sandboxPids: "quietDuring during \<Longrightarrow> keeps (sandboxPids os during name) (holds V)"
  unfolding sandboxPids_def by (intro keeps_shape keeps_supervisorPid keeps_observe keeps_during)

lemma keeps_aliveAmong: "keeps (aliveAmong os ps) (holds V)"
  by (induction ps) (auto simp: pidAlive_def intro!: keeps_observe)

lemma keeps_signal: "keeps (signalGroup pid signal) (holds V)"
  unfolding signalGroup_def by (rule keeps_same) simp

lemma keeps_terminateAll: "quietDuring during \<Longrightarrow> keeps (terminateAll os during name) (holds V)"
  unfolding terminateAll_def leftoverRound_def markExited_def Let_def
  by (intro keeps_shape keeps_require keeps_iterE keeps_supervisorPid keeps_sandboxPids keeps_aliveAmong keeps_signal
      keeps_waitForExit keeps_sleep keeps_write)

end

interpretation coreView: local_view coreOf
  by unfold_locales (auto simp: coreOf_def)

text \<open>The ports each record holds of its own, which no operation but a creation changes.\<close>

definition allocatedPorts :: "localRecord \<Rightarrow> int list" where
  "allocatedPorts r = map snd (filter (\<lambda>e. isInfraRange (fst e)) (lr_portMap r)) @ [lr_localApi r, lr_control r]"

definition portsOf :: "localDir \<Rightarrow> (string \<times> int list) option" where
  "portsOf d = map_option (\<lambda>r. (lr_name r, allocatedPorts r)) (ld_record d)"

lemma portsOf_core: "portsOf d = map_option (\<lambda>r. (lr_name r, allocatedPorts r)) (fst (coreOf d))"
  by (simp add: portsOf_def coreOf_def allocatedPorts_def option.map_comp comp_def)

interpretation portsView: local_view portsOf
proof unfold_locales
  show "portsOf d = portsOf d'" if "coreOf d = coreOf d'" for d d'
    using that by (simp add: portsOf_core)
  show "(ld_record d = None) = (ld_record d' = None)" if "portsOf d = portsOf d'" for d d'
    using that by (auto simp: portsOf_def)
  show "portsOf (d'\<lparr>ld_record := Some (r\<lparr>lr_commands := c\<rparr>)\<rparr>) = portsOf d'"
    if "portsOf d = portsOf d'" "ld_record d = Some r" for d d' r c
    using that by (simp add: portsOf_def allocatedPorts_def)
qed


subsection \<open>Stopping ends, and what it leaves\<close>

text \<open>An action that keeps \<open>I\<close> and never throws.\<close>

definition sure :: "('w, 'e, 'a) act \<Rightarrow> ('w \<Rightarrow> bool) \<Rightarrow> bool" where
  "sure m I \<longleftrightarrow> (\<forall>w. I w \<longrightarrow> wp m (\<lambda>_. I) (\<lambda>_ _. False) w)"

lemma sureI: "(\<And>w. I w \<Longrightarrow> wp m (\<lambda>_. I) (\<lambda>_ _. False) w) \<Longrightarrow> sure m I"
  and sureD: "sure m I \<Longrightarrow> I w \<Longrightarrow> wp m (\<lambda>_. I) (\<lambda>_ _. False) w"
  by (simp_all add: sure_def)

lemma sure_ret: "sure (retE x) I"
  and sure_get: "sure (getE f) I"
  and sure_mod: "(\<And>w. I w \<Longrightarrow> I (u w)) \<Longrightarrow> sure (modE u) I"
  and sure_when: "(b \<Longrightarrow> sure n I) \<Longrightarrow> sure (whenE b n) I"
  by (auto simp: sure_def wp_simps)

lemma sure_bind: "sure m I \<Longrightarrow> (\<And>a. sure (k a) I) \<Longrightarrow> sure (bindE m k) I"
  unfolding sure_def wp_bind by (blast intro: wp_mono)

lemma sure_then: "sure m I \<Longrightarrow> sure k I \<Longrightarrow> sure (thenE m k) I"
  unfolding thenE_def by (rule sure_bind)

lemma sure_if: "(b \<Longrightarrow> sure m I) \<Longrightarrow> (\<not> b \<Longrightarrow> sure n I) \<Longrightarrow> sure (if b then m else n) I"
  by simp

lemma sure_option: "sure a I \<Longrightarrow> (\<And>y. x = Some y \<Longrightarrow> sure (b y) I) \<Longrightarrow> sure (case x of None \<Rightarrow> a | Some y \<Rightarrow> b y) I"
  by (cases x) auto

lemma sure_forE: "(\<And>x. x \<in> set xs \<Longrightarrow> sure (f x) I) \<Longrightarrow> sure (forE xs f) I"
  by (induction xs) (auto intro: sure_ret sure_bind)

lemmas sure_shape = sure_ret sure_get sure_bind sure_then sure_when sure_if sure_option sure_forE

lemma sure_keeps: "keeps m I \<Longrightarrow> (\<And>w. I w \<Longrightarrow> wp m (\<lambda>_ _. True) (\<lambda>_ _. False) w) \<Longrightarrow> sure m I"
proof (rule sureI)
  fix w assume k: "keeps m I" and t: "\<And>w. I w \<Longrightarrow> wp m (\<lambda>_ _. True) (\<lambda>_ _. False) w" and w: "I w"
  show "wp m (\<lambda>_. I) (\<lambda>_ _. False) w"
    by (rule wp_mono [OF wp_conj [OF keepsD [OF k w] t [OF w]]]) auto
qed

text \<open>The rounds a wait has left, 200 ms each.\<close>

definition roundsTo :: "int \<Rightarrow> host \<Rightarrow> nat" where
  "roundsTo deadline h = nat ((deadline - ho_now h) div 200 + 1)"

lemma roundsTo_less:
  assumes "ho_now h < deadline" and "ho_now h + 200 \<le> ho_now h'"
  shows "roundsTo deadline h' < roundsTo deadline h"
proof -
  have "(deadline - ho_now h') div 200 \<le> (deadline - ho_now h - 200) div 200" using assms(2) by (intro zdiv_mono1) auto
  also have "\<dots> = (deadline - ho_now h) div 200 - 1" by simp
  finally have "(deadline - ho_now h') div 200 + 1 \<le> (deadline - ho_now h) div 200" by simp
  moreover have "0 \<le> (deadline - ho_now h) div 200" using assms(1) by (simp add: pos_imp_zdiv_nonneg_iff)
  ultimately show ?thesis by (simp add: roundsTo_def)
qed

lemma roundsTo_fuel: "roundsTo (ho_now h + ms) h < loopFuel ms 200"
  by (simp add: roundsTo_def loopFuel_def)

context local_view
begin

definition since :: "int \<Rightarrow> (string \<times> 'v) list \<Rightarrow> host \<Rightarrow> bool" where
  "since t V h \<longleftrightarrow> holds V h \<and> t \<le> ho_now h"

lemma sure_observe: "sure (observe os f) (since t V)"
  by (auto simp: sure_def wp_simps since_def holds_def named_def viewBy_def)

lemma sure_during: "quietDuring during \<Longrightarrow> sure (modE during) (since t V)"
proof (rule sure_mod)
  fix h assume q: "quietDuring during" and h: "since t V h"
  then have "named h" by (simp add: since_def holds_def)
  then have "ho_now h \<le> ho_now (during h)" using q by (simp add: quietDuring_def)
  moreover have "holds V (during h)"
    using keepsD [OF keeps_during [OF q]] h by (simp add: since_def wp_mod)
  ultimately show "since t V (during h)" using h by (simp add: since_def)
qed

lemma sure_same: "(\<And>h. ho_dirs (f h) = ho_dirs h) \<Longrightarrow> (\<And>h. ho_now h \<le> ho_now (f h)) \<Longrightarrow> sure (modE f) (since t V)"
proof (rule sure_mod)
  fix h assume "\<And>h. ho_dirs (f h) = ho_dirs h" and "\<And>h. ho_now h \<le> ho_now (f h)" and "since t V h"
  then show "since t V (f h)" by (auto simp: since_def holds_def named_def viewBy_def intro: order_trans)
qed

lemma sure_write: "fits V r \<Longrightarrow> sure (writeRecord (exitCodes f r)) (since t V)"
proof (rule sureI)
  fix h assume f: "fits V r" and h: "since t V h"
  then have "wp (writeRecord (exitCodes f r)) (\<lambda>_. holds V) (\<lambda>_. holds V) h"
    by (intro keepsD keeps_write) (simp_all add: since_def)
  with h show "wp (writeRecord (exitCodes f r)) (\<lambda>_. since t V) (\<lambda>_ _. False) h"
    by (simp add: writeRecord_def wp_mod since_def updLocal_def putLocal_def)
qed

lemma sure_require:
  assumes "map_of V name = Some (v d)" and "ld_record d \<noteq> None"
    and "\<And>r. fits V r \<Longrightarrow> lr_name r = name \<Longrightarrow> sure (k r) (since t V)"
  shows "sure (bindE (requireRecord name) k) (since t V)"
proof (rule sureI)
  fix h assume h: "since t V h"
  then have n: "named h" and V: "viewBy v h = V" by (simp_all add: since_def holds_def)
  have "map_option v (dirOf h name) = Some (v d)" using assms(1) V map_of_view [of v h name] by simp
  then obtain d' where d': "dirOf h name = Some d'" "v d' = v d" by (cases "dirOf h name") auto
  then obtain r where r: "ld_record d' = Some r" using v_record [OF d'(2)] assms(2) by auto
  then have rec: "recordOf name h = Some r" using d'(1) by (simp add: recordOf_def)
  have "lr_name r = name" by (rule named_record [OF n rec])
  moreover have "fits V r" using assms(1) d'(2) [symmetric] r calculation by (auto simp: fits_def)
  ultimately show "wp (bindE (requireRecord name) k) (\<lambda>_. since t V) (\<lambda>_ _. False) h"
    using sureD [OF assms(3) h] rec by (simp add: requireRecord_def readRecord_def wp_simps)
qed

text \<open>One 200 ms round: the clock moves on by at least as much.\<close>

lemma wp_sleepLocal:
  assumes "quietDuring during" and "since t V h"
  shows "wp (sleepLocal during ms) (\<lambda>_ h'. holds V h' \<and> ho_now h + ms \<le> ho_now h') (\<lambda>_ _. False) h"
proof -
  let ?h = "h\<lparr>ho_now := ho_now h + ms\<rparr>"
  have "since (ho_now h + ms) V ?h" using assms(2) by (simp add: since_def holds_def named_def viewBy_def)
  from sureD [OF sure_during [OF assms(1)] this] show ?thesis by (simp add: sleepLocal_def wp_mod since_def)
qed

lemma wp_waitForExit:
  assumes "quietDuring during" and "since t V h"
  shows "wp (waitForExit os during pid ms) (\<lambda>gone h'. since t V h' \<and> (gone \<or> ho_now h + ms \<le> ho_now h')) (\<lambda>_ _. False) h"
proof -
  let ?d = "ho_now h + ms"
  have round: "wp (exitRound os during pid ?d)
      (\<lambda>r h'. case r of Some x \<Rightarrow> since t V h' \<and> (x \<or> ?d \<le> ho_now h') | None \<Rightarrow> since t V h' \<and> roundsTo ?d h' < roundsTo ?d g)
      (\<lambda>_ _. False) g" if "since t V g" for g
  proof -
    let ?g = "g\<lparr>ho_calls := Suc (ho_calls g), ho_now := ho_now g + int (os_elapsed os (ho_calls g))\<rparr>"
    have g: "since t V ?g" using that by (simp add: since_def holds_def named_def viewBy_def)
    have less: "roundsTo ?d h' < roundsTo ?d g" if "ho_now ?g < ?d" "ho_now ?g + 200 \<le> ho_now h'" for h'
      using that by (intro roundsTo_less) auto
    have later: "since t V h'" if "holds V h'" "ho_now ?g + 200 \<le> ho_now h'" for h'
      using that g by (simp add: since_def)
    show ?thesis
      unfolding exitRound_def pidAlive_def wp_bind
      using g by (auto simp: wp_observe wp_simps wp_ret' intro!: wp_mono [OF wp_sleepLocal [OF assms(1) g, of 200]] less later)
  qed
  show ?thesis
    unfolding waitForExit_def wp_bind wp_get
    by (rule wp_loopE [where I = "since t V" and \<mu> = "roundsTo ?d", OF assms(2) roundsTo_fuel round])
qed

lemma sure_waitForExit: "quietDuring during \<Longrightarrow> sure (waitForExit os during pid ms) (since t V)"
  by (rule sureI, rule wp_mono [OF wp_waitForExit]) auto

lemma sure_supervisorPid: "sure (supervisorPid os name) (since t V)"
  unfolding supervisorPid_def pidAlive_def by (intro sure_shape sure_observe)

lemma sure_sandboxPids: "quietDuring during \<Longrightarrow> sure (sandboxPids os during name) (since t V)"
  unfolding sandboxPids_def by (intro sure_shape sure_supervisorPid sure_observe sure_during)

lemma sure_aliveAmong: "sure (aliveAmong os ps) (since t V)"
  by (induction ps) (auto simp: pidAlive_def intro!: sure_observe sure_shape)

lemma sure_signal: "sure (signalGroup pid signal) (since t V)"
  unfolding signalGroup_def by (rule sure_same) simp_all

lemma sure_leftovers:
  assumes "quietDuring during"
  shows "sure (bindE (getE ho_now) (\<lambda>t1. iterE e (loopFuel ms 200) (leftoverRound os during name (t1 + ms)) found)) (since t V)"
proof (rule sureI)
  fix h assume h: "since t V h"
  let ?d = "ho_now h + ms"
  have round: "wp (leftoverRound os during name ?d ls)
      (\<lambda>r h'. case r of Inl x \<Rightarrow> since t V h' | Inr ls' \<Rightarrow> since t V h' \<and> roundsTo ?d h' < roundsTo ?d g) (\<lambda>_ _. False) g"
    if g: "since t V g" for ls g
  proof (cases "ls = [] \<or> ho_now g \<ge> ?d")
    case True
    then show ?thesis using g by (auto simp: leftoverRound_def wp_simps)
  next
    case False
    have later: "wp (bindE (sandboxPids os during name) (\<lambda>pids. bindE (aliveAmong os pids) (\<lambda>ls. retE (Inr ls :: int list + int list))))
        (\<lambda>r h'. case r of Inl x \<Rightarrow> since t V h' | Inr ls' \<Rightarrow> since t V h' \<and> roundsTo ?d h' < roundsTo ?d g) (\<lambda>_ _. False) g'"
      if "holds V g'" "ho_now g + 200 \<le> ho_now g'" for g'
    proof -
      have "since (ho_now g + 200) V g'" using that by (simp add: since_def)
      then have "wp (bindE (sandboxPids os during name) (aliveAmong os)) (\<lambda>_. since (ho_now g + 200) V) (\<lambda>_ _. False) g'"
        by (intro sureD) (intro sure_shape sure_sandboxPids sure_aliveAmong assms)
      then have "wp (bindE (bindE (sandboxPids os during name) (aliveAmong os)) (\<lambda>ls. retE (Inr ls :: int list + int list)))
          (\<lambda>r h'. (\<exists>ls. r = Inr ls) \<and> since (ho_now g + 200) V h') (\<lambda>_ _. False) g'"
        unfolding wp_bind [where m = "bindE m k" for m k] by (rule wp_mono) (simp_all add: wp_ret)
      then show ?thesis
        unfolding wp_bind
        by (elim wp_mono) (use False g in \<open>auto simp: wp_ret since_def intro!: roundsTo_less elim!: wp_mono\<close>)
    qed
    from False show ?thesis
      unfolding leftoverRound_def wp_bind [of "getE f" for f] wp_get
      by (simp add: wp_then) (rule wp_mono [OF wp_sleepLocal [OF assms g]]; auto intro: later)
  qed
  show "wp (bindE (getE ho_now) (\<lambda>t1. iterE e (loopFuel ms 200) (leftoverRound os during name (t1 + ms)) found))
      (\<lambda>_. since t V) (\<lambda>_ _. False) h"
    unfolding wp_bind wp_get
    by (rule wp_iterE [where I = "\<lambda>_. since t V" and \<mu> = "\<lambda>_. roundsTo ?d", OF h roundsTo_fuel round])
qed

lemma sure_terminateAll:
  assumes "quietDuring during" and "map_of V name = Some (v d)" and "ld_record d \<noteq> None"
  shows "sure (terminateAll os during name) (since t V)"
proof -
  have assoc: "bindE (getE ho_now) (\<lambda>t1. bindE (iterE e n (body t1) found) k) = bindE (bindE (getE ho_now) (\<lambda>t1. iterE e n (body t1) found)) k"
    for e n body found and k :: "int list \<Rightarrow> unit localAct"
    by (simp add: bindE_def fun_eq_iff split: prod.splits sum.splits)
  show ?thesis
    unfolding terminateAll_def markExited_def Let_def assoc
    by (intro sure_leftovers sure_require [OF assms(2,3)] sure_shape sure_supervisorPid sure_sandboxPids sure_aliveAmong sure_signal
        sure_waitForExit sure_write assms(1))
qed

end

subsection \<open>Ports\<close>

lemma portsView_fits: "portsView.fits V r \<Longrightarrow> map_of V (lr_name r) = Some (Some (lr_name r, allocatedPorts r))"
  by (auto simp: portsView.fits_def portsOf_def)

text \<open>A record is replaced by one with the same ports, or a directory changes around its record.\<close>

lemma keeps_portsRecord:
  assumes "portsView.fits V r0" and "lr_name r = lr_name r0" and "allocatedPorts r = allocatedPorts r0"
    and "\<And>d. ld_record (f d) = Some r"
  shows "keeps (modE (updLocal (lr_name r) f)) (portsView.holds V)"
proof (rule keeps_mod)
  fix h assume h: "portsView.holds V h"
  then have n: "named h" and V: "viewBy portsOf h = V" by (simp_all add: portsView.holds_def)
  have "map_option portsOf (dirOf h (lr_name r)) = Some (Some (lr_name r, allocatedPorts r))"
    using portsView_fits [OF assms(1)] assms(2,3) map_of_view [of portsOf h "lr_name r"] V by simp
  then obtain d where d: "dirOf h (lr_name r) = Some d" "portsOf d = Some (lr_name r, allocatedPorts r)"
    by (cases "dirOf h (lr_name r)") auto
  have "portsOf (f d) = portsOf d" unfolding d(2) by (simp add: portsOf_def assms(4))
  then have "viewBy portsOf (updLocal (lr_name r) f h) = V"
    using viewBy_upd [OF named_distinct [OF n] d(1), where v = portsOf and f = f] V by simp
  then show "portsView.holds V (updLocal (lr_name r) f h)"
    using named_write [OF n, where f = f and name = "lr_name r"] assms(4) by (simp add: portsView.holds_def)
qed

lemma keeps_portsWrite:
  assumes "portsView.fits V r0" and "lr_name r = lr_name r0" and "allocatedPorts r = allocatedPorts r0"
  shows "keeps (writeRecord r) (portsView.holds V)"
  unfolding writeRecord_def by (rule keeps_portsRecord [OF assms]) simp

lemma keeps_portsDir:
  assumes "map_of V name \<noteq> None" and "\<And>d. ld_record (f d) = ld_record d"
  shows "keeps (modE (updLocal name f)) (portsView.holds V)"
proof (rule keeps_mod)
  fix h assume h: "portsView.holds V h"
  then have n: "named h" and V: "viewBy portsOf h = V" by (simp_all add: portsView.holds_def)
  then obtain d where d: "dirOf h name = Some d"
    using assms(1) map_of_view [of portsOf h name] by (cases "dirOf h name") auto
  have "viewBy (\<lambda>d. map_option lr_name (ld_record d)) (updLocal name f h) = viewBy (\<lambda>d. map_option lr_name (ld_record d)) h"
    by (rule viewBy_upd [OF named_distinct [OF n] d]) (simp add: assms(2))
  then have "named (updLocal name f h)" using n by (simp add: named_by recordNames_def)
  moreover have "viewBy portsOf (updLocal name f h) = V"
    using viewBy_upd [OF named_distinct [OF n] d, where v = portsOf and f = f] assms(2) V by (simp add: portsOf_def)
  ultimately show "portsView.holds V (updLocal name f h)" by (simp add: portsView.holds_def)
qed

lemma portsView_known: "portsView.fits V r \<Longrightarrow> map_of V (lr_name r) \<noteq> None"
  by (simp add: portsView_fits)

lemma keeps_makeSnapshot:
  assumes "quietDuring during" and "map_of V name \<noteq> None"
  shows "keeps (makeSnapshot os during name) (portsView.holds V)"
proof -
  have taken: "keeps (modE (snapshotTaken i r)) (portsView.holds V)" if "portsView.fits V r" for i r
    unfolding snapshotTaken_def Let_def case_prod_unfold
    by (rule keeps_portsRecord [OF that, where r = "r\<lparr>lr_snapshotIds := x\<rparr>" for x, simplified]) (simp_all add: allocatedPorts_def)
  show ?thesis
    unfolding makeSnapshot_def Let_def
    by (intro keeps_shape portsView.keeps_observe portsView.keeps_during portsView.keeps_require keeps_portsDir taken assms) simp_all
qed

lemma keeps_stopLocal:
  assumes "quietDuring during"
  shows "keeps (stopLocal os during name) (portsView.holds V)"
proof -
  have writes: "keeps (writeRecord (r\<lparr>lr_status := st, lr_sessionId := a, lr_startedAt := b, lr_expiresAt := c\<rparr>)) (portsView.holds V)"
    if "portsView.fits V r" for r st a b c
    by (rule keeps_portsWrite [OF that]) (simp_all add: allocatedPorts_def)
  have stopping: "keeps (writeRecord (r\<lparr>lr_status := st\<rparr>)) (portsView.holds V)" if "portsView.fits V r" for r st
    by (rule keeps_portsWrite [OF that]) (simp_all add: allocatedPorts_def)
  show ?thesis
    unfolding stopLocal_def
    by (intro keeps_shape portsView.keeps_require portsView.keeps_terminateAll keeps_makeSnapshot writes stopping assms)
      (auto dest: portsView_known)
qed

lemma keeps_readRecord:
  assumes "keeps (k None) (portsView.holds V)"
    and "\<And>r. portsView.fits V r \<Longrightarrow> lr_name r = name \<Longrightarrow> keeps (k (Some r)) (portsView.holds V)"
  shows "keeps (bindE (readRecord name) k) (portsView.holds V)"
proof (rule keepsI)
  fix h assume h: "portsView.holds V h"
  show "wp (bindE (readRecord name) k) (\<lambda>_. portsView.holds V) (\<lambda>_. portsView.holds V) h"
  proof (cases "recordOf name h")
    case None
    then show ?thesis using keepsD [OF assms(1) h] by (simp add: readRecord_def wp_simps)
  next
    case (Some r)
    have "keeps (bindE (requireRecord name) (\<lambda>r. k (Some r))) (portsView.holds V)"
      by (intro portsView.keeps_require assms(2))
    from keepsD [OF this h] Some show ?thesis
      by (simp add: requireRecord_def readRecord_def wp_simps)
  qed
qed

lemma keeps_resumeLocal:
  assumes "quietDuring during" and "portsView.fits V r"
  shows "keeps (resumeLocal os during r) (portsView.holds V)"
proof -
  have writes: "keeps (writeRecord (startSession t r)) (portsView.holds V)" for t
    by (rule keeps_portsWrite [OF assms(2)]) (simp_all add: allocatedPorts_def startSession_def)
  show ?thesis
    unfolding resumeLocal_def restoreIfNeeded_def
    by (intro keeps_shape portsView.keeps_observe portsView.keeps_during keeps_portsDir writes assms(1) portsView_known [OF assms(2)]) simp
qed

lemma keeps_getLocal:
  assumes "quietDuring during" and "keeps (onResume name) (portsView.holds V)"
  shows "keeps (getLocal os during name resumes onResume) (portsView.holds V)"
  unfolding getLocal_def
  by (intro keeps_readRecord keeps_shape keeps_resumeLocal assms) simp_all

lemma keeps_prepare: "keeps (prepare os e name input) (portsView.holds V)"
  unfolding prepare_def Let_def by (intro portsView.keeps_require keeps_shape)

lemma keeps_runDetachedLocal: "keeps (runDetachedLocal os e name input) (portsView.holds V)"
proof -
  have writes: "keeps (writeRecord (r\<lparr>lr_cmdSeq := n, lr_commands := c\<rparr>)) (portsView.holds V)" if "portsView.fits V r" for r n c
    by (rule keeps_portsWrite [OF that]) (simp_all add: allocatedPorts_def)
  show ?thesis
    unfolding runDetachedLocal_def Let_def
    by (intro portsView.keeps_require keeps_shape keeps_prepare portsView.keeps_observe portsView.keeps_same writes) simp_all
qed

lemma keeps_waitCommandLocal:
  assumes "quietDuring during"
  shows "keeps (waitCommandLocal os during name cmdId ms) (portsView.holds V)"
  unfolding waitCommandLocal_def
  by (intro keeps_shape portsView.keeps_require portsView.keeps_observe portsView.keeps_during portsView.keeps_waitForExit
      portsView.keeps_write assms)

lemma keeps_extendLocal: "keeps (extendLocal name ms) (portsView.holds V)"
  unfolding extendLocal_def
  by (intro keeps_shape portsView.keeps_require keeps_portsWrite) (simp_all add: allocatedPorts_def)

lemma keeps_killCommand: "keeps (killCommand name cmdId signal) (portsView.holds V)"
  unfolding killCommand_def by (intro keeps_shape portsView.keeps_require portsView.keeps_signal)


text \<open>The ports of all records, and what is always true of them.\<close>

definition portsHeld :: "(string \<times> (string \<times> int list) option) list \<Rightarrow> int list" where
  "portsHeld V = concat (map (\<lambda>e. case snd e of None \<Rightarrow> [] | Some (n, ps) \<Rightarrow> ps) V)"

definition portsOk :: "host \<Rightarrow> bool" where
  "portsOk h \<longleftrightarrow> named h \<and> distinct (portsHeld (viewBy portsOf h)) \<and> list_all (\<lambda>p. \<not> isInfraRange p) (portsHeld (viewBy portsOf h))"

lemma set_map_filter_some: "set (List.map_filter f xs) = {y. \<exists>x \<in> set xs. f x = Some y}"
  by (induction xs) (auto simp: List.map_filter_simps split: option.splits)

lemma portsHeld_taken: "set (portsHeld (viewBy portsOf h)) \<subseteq> set (portsInUseByRecords h)"
proof
  fix p assume "p \<in> set (portsHeld (viewBy portsOf h))"
  then obtain n d r where r: "(n, d) \<in> set (ho_dirs h)" "ld_record d = Some r" "p \<in> set (allocatedPorts r)"
    by (auto simp: portsHeld_def viewBy_def portsOf_def split: option.splits) (metis (no_types))
  then have "r \<in> set (List.map_filter (\<lambda>e. ld_record (snd e)) (ho_dirs h))"
    by (force simp: set_map_filter_some)
  moreover have "p \<in> set (recordPorts r)" using r(3) by (auto simp: allocatedPorts_def recordPorts_def)
  ultimately show "p \<in> set (portsInUseByRecords h)" by (auto simp: portsInUseByRecords_def allRecords_def)
qed

text \<open>An allocation is fresh, and the caller's list of taken ports grows by it.\<close>

lemma wp_portAttempts:
  assumes "quietDuring during" and "portsView.holds V h"
  shows "wp (portAttempts os during n taken)
    (\<lambda>(p, taken') h'. portsView.holds V h' \<and> p \<notin> set taken \<and> \<not> isInfraRange p \<and> set taken' = insert p (set taken))
    (\<lambda>_. portsView.holds V) h"
  using assms(2)
proof (induction n arbitrary: h)
  case 0
  then show ?case by (simp add: wp_simps)
next
  case (Suc n)
  have "keeps (bindFreePort os during) (portsView.holds V)"
    unfolding bindFreePort_def
    by (intro keeps_shape portsView.keeps_observe portsView.keeps_during assms(1))
  from keepsD [OF this Suc.prems] show ?case
    unfolding portAttempts.simps wp_bind
    by (rule wp_mono) (auto simp: wp_simps intro: Suc.IH, simp add: portsView.holds_def named_def viewBy_def)
qed

lemma wp_allocatePort:
  assumes "quietDuring during" and "portsView.holds V h"
  shows "wp (allocatePort os during taken)
    (\<lambda>(p, taken') h'. portsView.holds V h' \<and> p \<notin> set taken \<and> \<not> isInfraRange p \<and> set taken' = insert p (set taken))
    (\<lambda>_. portsView.holds V) h"
  unfolding allocatePort_def by (rule wp_portAttempts [OF assms])

definition freshOver :: "int list \<Rightarrow> int list \<Rightarrow> int list \<Rightarrow> bool" where
  "freshOver taken ps taken' \<longleftrightarrow> distinct ps \<and> list_all (\<lambda>p. \<not> isInfraRange p) ps \<and> set ps \<inter> set taken = {}
     \<and> set taken' = set ps \<union> set taken"

definition mappedPorts :: "(int \<times> int) list \<Rightarrow> int list" where
  "mappedPorts m = map snd (filter (\<lambda>e. isInfraRange (fst e)) m)"

lemma wp_allocatePortMap:
  assumes "quietDuring during" and "portsView.holds V h" and "freshOver taken0 (mappedPorts m) taken"
  shows "wp (allocatePortMap os during ports m taken)
    (\<lambda>(m', taken') h'. portsView.holds V h' \<and> freshOver taken0 (mappedPorts m') taken')
    (\<lambda>_. portsView.holds V) h"
  using assms(2,3)
proof (induction ports arbitrary: h m taken)
  case Nil
  then show ?case by (simp add: wp_simps)
next
  case (Cons port ports)
  show ?case
  proof (cases "map_of m port \<noteq> None \<or> \<not> isInfraRange port")
    case True
    have "mappedPorts (m @ [(port, port)]) = mappedPorts m" if "\<not> isInfraRange port"
      using that by (simp add: mappedPorts_def)
    with True Cons show ?thesis by (auto simp: wp_simps)
  next
    case False
    have fresh: "freshOver taken0 (mappedPorts (m @ [(port, p)])) taken'"
      if "p \<notin> set taken" "\<not> isInfraRange p" "set taken' = insert p (set taken)" for p taken'
      using Cons.prems(2) that False by (auto simp: freshOver_def mappedPorts_def)
    from False show ?thesis
      by (simp add: wp_bind)
        (rule wp_mono [OF wp_allocatePort [OF assms(1) Cons.prems(1), of os taken]]; auto simp: wp_simps intro: Cons.IH fresh)
  qed
qed

definition putHeld :: "string \<Rightarrow> int list \<Rightarrow> (string \<times> (string \<times> int list) option) list \<Rightarrow> (string \<times> (string \<times> int list) option) list" where
  "putHeld n ps V = map (\<lambda>e. if fst e = n then (n, Some (n, ps)) else e) V"

lemma portsHeld_simps [simp]: "portsHeld [] = []"
    "portsHeld (e # W) = (case snd e of None \<Rightarrow> [] | Some (n, ps) \<Rightarrow> ps) @ portsHeld W"
  by (simp_all add: portsHeld_def)

lemma putHeld_ports: "set (portsHeld (putHeld n ps W)) \<subseteq> set ps \<union> set (portsHeld W)"
  unfolding putHeld_def by (induction W) (auto split: if_splits)

lemma putHeld_distinct:
  assumes "distinct (map fst W)" and "distinct (portsHeld W)" and "distinct ps" and "set ps \<inter> set (portsHeld W) = {}"
  shows "distinct (portsHeld (putHeld n ps W))"
  using assms
proof (induction W)
  case Nil
  then show ?case by (simp add: putHeld_def)
next
  case (Cons e W)
  show ?case
  proof (cases "fst e = n")
    case True
    then have "n \<notin> fst ` set W" using Cons.prems(1) by simp
    then have "fst e' \<noteq> n" if "e' \<in> set W" for e' using imageI [OF that, of fst] by auto
    then have "putHeld n ps W = W" unfolding putHeld_def by (intro map_idI) simp
    then have "portsHeld (putHeld n ps (e # W)) = ps @ portsHeld W" using True by (simp add: putHeld_def)
    with Cons.prems show ?thesis by auto
  next
    case False
    then have "portsHeld (putHeld n ps (e # W)) = (case snd e of None \<Rightarrow> [] | Some (n, ps) \<Rightarrow> ps) @ portsHeld (putHeld n ps W)"
      by (simp add: putHeld_def)
    moreover have "distinct (portsHeld (putHeld n ps W))" using Cons by auto
    moreover have "set (case snd e of None \<Rightarrow> [] | Some (n, ps) \<Rightarrow> ps) \<inter> (set ps \<union> set (portsHeld W)) = {}"
      "distinct (case snd e of None \<Rightarrow> [] | Some (n, ps) \<Rightarrow> ps)"
      using Cons.prems(2,4) unfolding portsHeld_simps distinct_append set_append by blast+
    ultimately show ?thesis
      using putHeld_ports [where W = W and n = n and ps = ps] unfolding distinct_append by auto
  qed
qed

lemma portsOk_new:
  assumes "portsView.holds V h" and "distinct (portsHeld V)" and "list_all (\<lambda>p. \<not> isInfraRange p) (portsHeld V)"
    and "map_of V (lr_name r) = Some None"
    and "distinct (allocatedPorts r)" and "list_all (\<lambda>p. \<not> isInfraRange p) (allocatedPorts r)"
    and "set (allocatedPorts r) \<inter> set (portsHeld V) = {}"
  shows "portsOk (updLocal (lr_name r) (\<lambda>d. d\<lparr>ld_record := Some r\<rparr>) h)"
proof -
  let ?h = "updLocal (lr_name r) (\<lambda>d. d\<lparr>ld_record := Some r\<rparr>) h"
  have n: "named h" and V: "viewBy portsOf h = V" using assms(1) by (simp_all add: portsView.holds_def)
  obtain d where d: "dirOf h (lr_name r) = Some d"
    using assms(4) map_of_view [of portsOf h "lr_name r"] V by (cases "dirOf h (lr_name r)") auto
  have keys: "distinct (map fst V)" using n V by (auto simp: viewBy_def named_def comp_def)
  have "viewBy portsOf ?h = map (\<lambda>e. if fst e = lr_name r then (lr_name r, Some (lr_name r, allocatedPorts r)) else e) V"
    using d by (auto simp: viewBy_def updLocal_def putLocal_def portsOf_def simp flip: V)
  then have "viewBy portsOf ?h = putHeld (lr_name r) (allocatedPorts r) V" by (simp add: putHeld_def)
  with putHeld_ports [where W = V and n = "lr_name r" and ps = "allocatedPorts r"]
    putHeld_distinct [OF keys assms(2,5,7), of "lr_name r"] assms(3,6) named_write [OF n]
  show ?thesis by (auto simp: portsOk_def list_all_iff)
qed


lemma portsOk_holds: "portsOk h \<Longrightarrow> portsView.holds (viewBy portsOf h) h"
  by (simp add: portsOk_def portsView.holds_def)

lemma portsOk_view: "portsOk h \<Longrightarrow> portsView.holds (viewBy portsOf h) h' \<Longrightarrow> portsOk h'"
  by (simp add: portsOk_def portsView.holds_def)

lemma portsOk_keeps: "(\<And>V. keeps m (portsView.holds V)) \<Longrightarrow> keeps m portsOk"
  unfolding keeps_def by (blast intro: wp_mono portsOk_holds portsOk_view)

text \<open>A new directory has no ports.\<close>

lemma portsOk_dir:
  assumes "portsOk h" and "recordOf name h = None"
  shows "portsOk (updLocal name id h)" and "map_of (viewBy portsOf (updLocal name id h)) name = Some None"
    and "portsHeld (viewBy portsOf (updLocal name id h)) = portsHeld (viewBy portsOf h)"
proof -
  have n: "named h" using assms(1) by (simp add: portsOk_def)
  show held: "portsHeld (viewBy portsOf (updLocal name id h)) = portsHeld (viewBy portsOf h)"
  proof (cases "dirOf h name")
    case None
    then show ?thesis by (simp add: updLocal_def putLocal_def viewBy_def portsHeld_def portsOf_def emptyDir_def)
  next
    case (Some d)
    show ?thesis by (simp add: viewBy_upd [OF named_distinct [OF n] Some])
  qed
  have "named (updLocal name id h)"
  proof (cases "dirOf h name")
    case None
    then have "name \<notin> set (map fst (ho_dirs h))" by (simp add: dirOf_def map_of_eq_None_iff)
    with n None show ?thesis by (auto simp: named_def updLocal_def putLocal_def emptyDir_def)
  next
    case (Some d)
    have "recordNames (updLocal name id h) = recordNames h"
      unfolding recordNames_def by (rule viewBy_upd [OF named_distinct [OF n] Some]) simp
    with n show ?thesis by (simp add: named_by)
  qed
  with held assms(1) show "portsOk (updLocal name id h)" by (simp add: portsOk_def)
  show "map_of (viewBy portsOf (updLocal name id h)) name = Some None"
    using assms(2) by (auto simp: map_of_view dirOf_upd portsOf_def recordOf_def emptyDir_def split: option.splits)
qed

lemma wp_createLocal:
  assumes "quietDuring during" and "portsOk h"
  shows "wp (createLocal os during input) (\<lambda>_. portsOk) (\<lambda>_. portsOk) h"
proof (cases "recordOf (ci_name input) h")
  case (Some r)
  have "keeps (bindE (readRecord (ci_name input)) (\<lambda>x. case x of None \<Rightarrow> retE (ci_name input)
     | Some r \<Rightarrow> thenE (whenE (lr_status r \<noteq> StRunning) (resumeLocal os during r)) (retE (ci_name input)))) portsOk"
    by (intro portsOk_keeps keeps_readRecord keeps_shape keeps_resumeLocal assms(1)) simp_all
  from keepsD [OF this assms(2)] Some show ?thesis
    by (simp add: createLocal_def readRecord_def wp_simps)
next
  case None
  let ?h = "updLocal (ci_name input) id h"
  let ?V = "viewBy portsOf ?h"
  note start = portsOk_dir [OF assms(2) None]
  have held: "distinct (portsHeld ?V)" "list_all (\<lambda>p. \<not> isInfraRange p) (portsHeld ?V)"
    using start(1) by (simp_all add: portsOk_def)
  have failed: "portsOk h'" if "portsView.holds ?V h'" for h'
    by (rule portsOk_view [OF start(1) that])
  have made: "portsOk (updLocal (lr_name r) (\<lambda>d. d\<lparr>ld_record := Some r\<rparr>) h')"
    if "portsView.holds ?V h'" "lr_name r = ci_name input" "lr_portMap r = m" "lr_localApi r = a" "lr_control r = c"
      "freshOver (portsInUseByRecords ?h) (mappedPorts m) t1" "a \<notin> set t1" "\<not> isInfraRange a" "set t2 = insert a (set t1)"
      "c \<notin> set t2" "\<not> isInfraRange c" for h' r m a c t1 t2
  proof (rule portsOk_new [OF that(1) held])
    show "map_of ?V (lr_name r) = Some None" using start(2) that(2) by simp
    have ports: "allocatedPorts r = mappedPorts m @ [a, c]"
      using that(3-5) by (simp add: allocatedPorts_def mappedPorts_def)
    show "distinct (allocatedPorts r)" "list_all (\<lambda>p. \<not> isInfraRange p) (allocatedPorts r)"
      using that(6-11) by (auto simp: ports freshOver_def)
    show "set (allocatedPorts r) \<inter> set (portsHeld ?V) = {}"
      using that(6-11) portsHeld_taken [of ?h] by (auto simp: ports freshOver_def)
  qed
  have none: "freshOver t (mappedPorts []) t" for t by (simp add: freshOver_def mappedPorts_def)
  have mapRule: "wp (bindE (allocatePortMap os during (ci_ports input) [] (portsInUseByRecords ?h)) k) (\<lambda>_. portsOk) (\<lambda>_. portsOk) ?h"
    if "\<And>m t1 h'. portsView.holds ?V h' \<Longrightarrow> freshOver (portsInUseByRecords ?h) (mappedPorts m) t1 \<Longrightarrow>
      wp (k (m, t1)) (\<lambda>_. portsOk) (\<lambda>_. portsOk) h'" for k :: "_ \<Rightarrow> string localAct"
    unfolding wp_bind
    by (rule wp_mono [OF wp_allocatePortMap [OF assms(1) portsOk_holds [OF start(1)] none]])
      (auto intro: that failed)
  have portRule: "wp (bindE (allocatePort os during t) k) (\<lambda>_. portsOk) (\<lambda>_. portsOk) h'"
    if "portsView.holds ?V h'" and "\<And>p t' h''. portsView.holds ?V h'' \<Longrightarrow> p \<notin> set t \<Longrightarrow> \<not> isInfraRange p \<Longrightarrow>
      set t' = insert p (set t) \<Longrightarrow> wp (k (p, t')) (\<lambda>_. portsOk) (\<lambda>_. portsOk) h''" for t h' and k :: "_ \<Rightarrow> string localAct"
    unfolding wp_bind
    by (rule wp_mono [OF wp_allocatePort [OF assms(1) that(1)]]) (auto intro: that(2) failed)
  let ?finish = "\<lambda>m a c. bindE (getE ho_now) (\<lambda>t. thenE (writeRecord (newRecord input t m a c)) (retE (ci_name input)))"
  have last: "wp (?finish m a c) (\<lambda>_. portsOk) (\<lambda>_. portsOk) h'"
    if "portsView.holds ?V h'" "freshOver (portsInUseByRecords ?h) (mappedPorts m) t1" "a \<notin> set t1" "\<not> isInfraRange a"
      "set t2 = insert a (set t1)" "c \<notin> set t2" "\<not> isInfraRange c" for h' m a c t1 t2
    unfolding wp_bind wp_get wp_then writeRecord_def wp_mod wp_ret
    by (rule made [OF that(1) _ _ _ _ that(2-7)]) (simp_all add: newRecord_def startSession_def)
  have "wp (bindE (allocatePortMap os during (ci_ports input) [] (portsInUseByRecords ?h)) (\<lambda>(m, t1).
      bindE (allocatePort os during t1) (\<lambda>(a, t2). bindE (allocatePort os during t2) (\<lambda>(c, t3). ?finish m a c))))
      (\<lambda>_. portsOk) (\<lambda>_. portsOk) ?h"
    by (rule mapRule, unfold prod.case, rule portRule, assumption, unfold prod.case, rule portRule, assumption, unfold prod.case)
      (rule last)
  then show ?thesis
    using None by (simp add: createLocal_def readRecord_def wp_bind [of "getE f" for f] wp_get wp_then wp_mod)
qed


lemma keeps_deleteLocal:
  assumes "quietDuring during"
  shows "keeps (deleteLocal os during name) portsOk"
proof -
  have "keeps (terminateAll os during name) portsOk"
    by (intro portsOk_keeps portsView.keeps_terminateAll assms)
  moreover have "portsOk (h\<lparr>ho_live := l, ho_dirs := filter P (ho_dirs h)\<rparr>)" if "portsOk h" for h l P
  proof -
    have "viewBy portsOf (h\<lparr>ho_live := l, ho_dirs := filter P (ho_dirs h)\<rparr>) = map (\<lambda>e. (fst e, portsOf (snd e))) (filter P (ho_dirs h))"
      by (simp add: viewBy_def)
    moreover have "set (portsHeld (map (\<lambda>e. (fst e, portsOf (snd e))) (filter P es))) \<subseteq> set (portsHeld (map (\<lambda>e. (fst e, portsOf (snd e))) es))
        \<and> (distinct (portsHeld (map (\<lambda>e. (fst e, portsOf (snd e))) es)) \<longrightarrow>
          distinct (portsHeld (map (\<lambda>e. (fst e, portsOf (snd e))) (filter P es))))" for es :: "(string \<times> localDir) list"
      by (induction es) auto
    ultimately show ?thesis
      using that by (auto simp: portsOk_def named_def viewBy_def list_all_iff distinct_map_filter)
  qed
  ultimately show ?thesis
    unfolding deleteLocal_def readRecord_def by (intro keeps_shape keeps_mod) auto
qed

lemma keeps_deleteSnapshot: "keeps (deleteSnapshotLocal snapshotId) portsOk"
proof (rule keepsI)
  fix h assume h: "portsOk h"
  let ?V = "viewBy portsOf h"
  have fits: "portsView.fits ?V r" if row: "r \<in> set (allRecords h)" for r
  proof -
    obtain n d where d: "(n, d) \<in> set (ho_dirs h)" "ld_record d = Some r"
      using row by (auto simp: allRecords_def set_map_filter_some)
    have n: "named h" using h by (simp add: portsOk_def)
    then have "dirOf h n = Some d" using d(1) by (simp add: dirOf_def named_def)
    moreover have "lr_name r = n" using n d by (auto simp: named_def list_all_iff)
    ultimately show ?thesis using d(2) by (auto simp: portsView.fits_def map_of_view)
  qed
  have one: "keeps (whenE (snapshotId \<in> set (lr_snapshotIds r)) (modE (updLocal (lr_name r) (\<lambda>d. d\<lparr>
       ld_archives := filter (\<lambda>e. fst e \<noteq> snapshotId) (ld_archives d),
       ld_record := Some (r\<lparr>lr_snapshotIds := filter (\<lambda>i. i \<noteq> snapshotId) (lr_snapshotIds r)\<rparr>)\<rparr>)))) (portsView.holds ?V)"
    if "r \<in> set (allRecords h)" for r
    by (intro keeps_when keeps_portsRecord [OF fits [OF that], where r = "r\<lparr>lr_snapshotIds := x\<rparr>" for x, simplified])
      (simp_all add: allocatedPorts_def)
  have "wp (forE (allRecords h) (\<lambda>r. whenE (snapshotId \<in> set (lr_snapshotIds r)) (modE (updLocal (lr_name r) (\<lambda>d. d\<lparr>
       ld_archives := filter (\<lambda>e. fst e \<noteq> snapshotId) (ld_archives d),
       ld_record := Some (r\<lparr>lr_snapshotIds := filter (\<lambda>i. i \<noteq> snapshotId) (lr_snapshotIds r)\<rparr>)\<rparr>)))))
       (\<lambda>_. portsOk) (\<lambda>_. portsOk) h"
    by (rule wp_mono [OF keepsD [OF keeps_forE [OF one] portsOk_holds [OF h]]]) (auto intro: portsOk_view [OF h])
  then show "wp (deleteSnapshotLocal snapshotId) (\<lambda>_. portsOk) (\<lambda>_. portsOk) h"
    by (simp add: deleteSnapshotLocal_def wp_bind wp_get)
qed

subsection \<open>A stopped sandbox and its files\<close>

text \<open>\<open>sits name c\<close>: the directory of \<open>name\<close> is \<open>c\<close> up to its commands.\<close>

definition sits :: "string \<Rightarrow> localRecord option \<times> files \<times> (string \<times> files) list \<Rightarrow> host \<Rightarrow> bool" where
  "sits name c h \<longleftrightarrow> named h \<and> map_option coreOf (dirOf h name) = Some c"

definition fileAt :: "string \<Rightarrow> string list \<Rightarrow> host \<Rightarrow> string option" where
  "fileAt name p h = (case dirOf h name of None \<Rightarrow> None | Some d \<Rightarrow> map_of (ld_files d) p)"

lemma sits_record:
  assumes "sits name (Some r0, fs, ar) h"
  obtains d r where "dirOf h name = Some d" "ld_record d = Some r" "r\<lparr>lr_commands := []\<rparr> = r0"
    "ld_files d = fs" "ld_archives d = ar" "recordOf name h = Some r" "lr_name r = name"
proof -
  from assms obtain d where d: "named h" "dirOf h name = Some d" "coreOf d = (Some r0, fs, ar)"
    by (auto simp: sits_def)
  then obtain r where r: "ld_record d = Some r" "r\<lparr>lr_commands := []\<rparr> = r0" "ld_files d = fs" "ld_archives d = ar"
    by (cases "ld_record d") (auto simp: coreOf_def)
  then have rec: "recordOf name h = Some r" using d(2) by (simp add: recordOf_def)
  show thesis by (rule that [OF d(2) r rec named_record [OF d(1) rec]])
qed

lemma sits_upd:
  assumes "sits name c h" and "\<And>d. coreOf d = c \<Longrightarrow> coreOf (f d) = c'"
    and "\<And>d. coreOf d = c \<Longrightarrow> map_option lr_name (ld_record d) = Some name \<or> ld_record d = None \<Longrightarrow>
      map_option lr_name (ld_record (f d)) = Some name \<or> ld_record (f d) = None"
  shows "sits name c' (updLocal name f h)"
proof -
  obtain d where d: "named h" "dirOf h name = Some d" "coreOf d = c" using assms(1) by (auto simp: sits_def)
  have "map_option lr_name (ld_record d) = Some name \<or> ld_record d = None"
    using named_record [of h name] d by (cases "ld_record d") (auto simp: recordOf_def)
  then have "map_option lr_name (ld_record (f d)) = Some name \<or> ld_record (f d) = None" by (rule assms(3) [OF d(3)])
  moreover have keys: "map fst (map (\<lambda>e. if fst e = name then (name, f d) else e) es) = map fst es" for es :: "(string \<times> localDir) list"
    by (induction es) auto
  moreover have "list_all (\<lambda>e. case ld_record (snd e) of None \<Rightarrow> True | Some r \<Rightarrow> lr_name r = fst e)
      (map (\<lambda>e. if fst e = name then (name, f d) else e) es)"
    if "list_all (\<lambda>e. case ld_record (snd e) of None \<Rightarrow> True | Some r \<Rightarrow> lr_name r = fst e) es" for es
    using that calculation(1) by (induction es) (auto split: option.splits)
  moreover have "ho_dirs (updLocal name f h) = map (\<lambda>e. if fst e = name then (name, f d) else e) (ho_dirs h)"
    using d(2) by (simp add: updLocal_def putLocal_def)
  ultimately have "named (updLocal name f h)" using d(1) by (simp only: named_def keys simp_thms)
  then show ?thesis using d assms(2) by (simp add: sits_def dirOf_upd)
qed

lemma sits_core: "sits name c h \<Longrightarrow> named h' \<Longrightarrow> viewBy coreOf h' = viewBy coreOf h \<Longrightarrow> sits name c h'"
  using viewBy_dirOf [of coreOf h' h name] by (simp add: sits_def)

lemma sits_during:
  assumes "quietDuring during" and "sits name c h"
  shows "sits name c (during h)"
proof -
  have "named h" using assms(2) by (simp add: sits_def)
  then have "viewBy coreOf (during h) = viewBy coreOf h" using assms(1) by (simp add: quietDuring_def)
  with \<open>named h\<close> show ?thesis by (intro sits_core [OF assms(2)]) (simp_all add: named_core [of "during h" h])
qed

lemma sits_same: "ho_dirs h' = ho_dirs h \<Longrightarrow> sits name c h' = sits name c h"
  by (simp add: sits_def named_def dirOf_def)

lemma wp_terminateAll:
  assumes "quietDuring during" and "sits name (Some r0, fs, ar) h"
  shows "wp (terminateAll os during name) (\<lambda>_ h'. sits name (Some r0, fs, ar) h' \<and> ho_now h \<le> ho_now h') (\<lambda>_ _. False) h"
proof -
  obtain d r where d: "dirOf h name = Some d" "ld_record d = Some r"
    by (rule sits_record [OF assms(2)])
  have start: "coreView.since (ho_now h) (viewBy coreOf h) h"
    using assms(2) by (simp add: coreView.since_def coreView.holds_def sits_def)
  have here: "map_of (viewBy coreOf h) name = Some (coreOf d)" using d(1) by (simp add: map_of_view)
  have "ld_record d \<noteq> None" using d(2) by simp
  from sureD [OF coreView.sure_terminateAll [OF assms(1) here this] start] show ?thesis
    by (rule wp_mono) (auto simp: coreView.since_def coreView.holds_def intro: sits_core [OF assms(2)])
qed

lemma retain_last:
  "\<exists>dropped kept. retain keep (ids @ [i]) = (dropped, kept @ [i]) \<and> set dropped \<subseteq> set ids
     \<and> (keep > 0 \<longrightarrow> int (length (kept @ [i])) \<le> keep)"
  by (induction ids) (auto simp: Let_def split: prod.split)

definition savedCore :: "string \<Rightarrow> localRecord \<Rightarrow> files \<Rightarrow> localRecord option \<times> files \<times> (string \<times> files) list \<Rightarrow> bool" where
  "savedCore i r fs c \<longleftrightarrow> (\<exists>kept ar. c = (Some (r\<lparr>lr_snapshotIds := kept @ [i]\<rparr>), fs, ar) \<and> map_of ar i = Some (archiveOf fs)
     \<and> (lr_keepLastSnapshots r > 0 \<longrightarrow> int (length (kept @ [i])) \<le> lr_keepLastSnapshots r))"

lemma map_of_update_filter:
  assumes "i \<notin> A"
  shows "map_of (filter (\<lambda>e. fst e \<notin> A) (AList.update i x es)) i = Some x"
proof -
  have "map_of (filter (\<lambda>e. fst e \<notin> A) es) i = map_of es i" for es :: "('a \<times> 'b) list"
    using assms by (induction es) auto
  then show ?thesis by (simp add: update_conv)
qed

lemma wp_makeSnapshot:
  assumes q: "quietDuring during" and h: "sits name (Some r0, fs, ar) h"
    and fresh: "snapshotIdAt name (ho_now h) \<notin> set (lr_snapshotIds r0)"
  shows "wp (makeSnapshot os during name)
    (\<lambda>(i, n) h'. \<exists>c. sits name c h' \<and> savedCore i r0 fs c)
    (\<lambda>e h'. e = OtherError ''tar'' \<and> sits name (Some r0, fs, ar) h') h"
proof -
  let ?i = "snapshotIdAt name (ho_now h)"
  let ?ar = "AList.update ?i (archiveOf fs) ar"
  let ?f = "\<lambda>d. d\<lparr>ld_archives := AList.update ?i (archiveOf (ld_files d)) (ld_archives d)\<rparr>"
  have dur: "sits name c (during g)" if "sits name c g" for c g by (rule sits_during [OF q that])
  have arch: "sits name (Some r0, fs, ?ar) (updLocal name ?f g)" if "sits name (Some r0, fs, ar) g" for g
    by (rule sits_upd [OF that]) (auto simp: coreOf_def)
  obtain dropped kept where ret: "retain (lr_keepLastSnapshots r0) (lr_snapshotIds r0 @ [?i]) = (dropped, kept @ [?i])"
      "set dropped \<subseteq> set (lr_snapshotIds r0)" "lr_keepLastSnapshots r0 > 0 \<longrightarrow> int (length (kept @ [?i])) \<le> lr_keepLastSnapshots r0"
    using retain_last by blast
  let ?c = "(Some (r0\<lparr>lr_snapshotIds := kept @ [?i]\<rparr>), fs, filter (\<lambda>e. fst e \<notin> set (filter (\<lambda>i. i \<noteq> []) dropped)) ?ar)"
  have "map_of (filter (\<lambda>e. fst e \<notin> set (filter (\<lambda>i. i \<noteq> []) dropped)) ?ar) ?i = Some (archiveOf fs)"
    by (rule map_of_update_filter) (use ret(2) fresh in auto)
  then have saved: "savedCore ?i r0 fs ?c"
    using ret(3) unfolding savedCore_def by blast
  have push: "sits name ?c (snapshotTaken ?i r g)" if g: "sits name (Some r0, fs, ?ar) g" and r: "recordOf name g = Some r" for g r
  proof -
    obtain d r' where "recordOf name g = Some r'" "r'\<lparr>lr_commands := []\<rparr> = r0" "lr_name r' = name"
      by (rule sits_record [OF g])
    with r have r0: "r\<lparr>lr_commands := []\<rparr> = r0" "lr_name r = name" by simp_all
    then have same: "lr_keepLastSnapshots r = lr_keepLastSnapshots r0" "lr_snapshotIds r = lr_snapshotIds r0" by auto
    have "sits name ?c (updLocal name (\<lambda>d. d\<lparr>ld_record := Some (r\<lparr>lr_snapshotIds := kept @ [?i]\<rparr>),
        ld_archives := filter (\<lambda>e. fst e \<notin> set (filter (\<lambda>i. i \<noteq> []) dropped)) (ld_archives d)\<rparr>) g)"
      by (rule sits_upd [OF g]) (use r0 in \<open>auto simp: coreOf_def\<close>)
    then show ?thesis by (simp only: snapshotTaken_def same ret(1) r0(2) Let_def prod.case)
  qed
  have known: "recordOf name g \<noteq> None" if g: "sits name (Some r0, fs, ?ar) g" for g
    by (rule sits_record [OF g]) simp
  have tick: "sits name c (g\<lparr>ho_calls := a, ho_now := b\<rparr>) = sits name c g" for c g a b
    by (rule sits_same) simp
  have rest: "wp (bindE (observe os (os_archiveSize os)) (\<lambda>sizeBytes. bindE (requireRecord name) (\<lambda>r.
      thenE (modE (snapshotTaken ?i r)) (retE (?i, sizeBytes)))))
      (\<lambda>(i, n) h'. \<exists>c. sits name c h' \<and> savedCore i r0 fs c)
      (\<lambda>e h'. e = OtherError ''tar'' \<and> sits name (Some r0, fs, ar) h') g" if g: "sits name (Some r0, fs, ?ar) g" for g
  proof -
    let ?g = "g\<lparr>ho_calls := Suc (ho_calls g), ho_now := ho_now g + int (os_elapsed os (ho_calls g))\<rparr>"
    have g': "sits name (Some r0, fs, ?ar) ?g" using g by (simp only: tick)
    then obtain r where r: "recordOf name ?g = Some r" using known by blast
    have "\<exists>c. sits name c (snapshotTaken ?i r ?g) \<and> savedCore ?i r0 fs c" using push [OF g' r] saved by blast
    then show ?thesis
      by (simp only: wp_bind wp_observe requireRecord_def readRecord_def wp_get r option.case wp_ret wp_then wp_mod prod.case)
  qed
  let ?h = "h\<lparr>ho_calls := Suc (ho_calls h), ho_now := ho_now h + int (os_elapsed os (ho_calls h))\<rparr>"
  have "sits name (Some r0, fs, ar) ?h" using h by (simp only: tick)
  then show ?thesis
    using rest [OF dur [OF arch]] dur
    by (auto simp only: makeSnapshot_def Let_def wp_bind [of "getE f" for f] wp_get wp_bind [of "observe os f" for f] wp_observe
      wp_if wp_then wp_mod wp_throw simp_thms split: if_split)
qed

definition stoppedAs :: "localRecord \<Rightarrow> localRecord" where
  "stoppedAs r = r\<lparr>lr_status := StStopped, lr_sessionId := None, lr_startedAt := None, lr_expiresAt := None\<rparr>"

text \<open>Replacing the record of a sandbox by one of the same name.\<close>

lemma sits_write:
  assumes "sits name (Some r0, fs, ar) h" and "lr_name r = name"
  shows "sits name (Some (r\<lparr>lr_commands := []\<rparr>), fs, ar) (updLocal name (\<lambda>d. d\<lparr>ld_record := Some r\<rparr>) h)"
  by (rule sits_upd [OF assms(1)]) (auto simp: coreOf_def assms(2))

lemma wp_require: "recordOf name h = Some r \<Longrightarrow> wp (bindE (requireRecord name) k) Q E h = wp (k r) Q E h"
  by (simp add: requireRecord_def readRecord_def wp_simps)

lemma wp_written: "wp (thenE (writeRecord r) k) Q E h = wp k Q E (updLocal (lr_name r) (\<lambda>d. d\<lparr>ld_record := Some r\<rparr>) h)"
  by (simp add: writeRecord_def wp_simps)

lemma wp_stopLocal:
  assumes q: "quietDuring during" and h: "sits name (Some r0, fs, ar) h" and "lr_status r0 \<noteq> StStopped"
    and fresh: "\<And>t. ho_now h \<le> t \<Longrightarrow> snapshotIdAt name t \<notin> set (lr_snapshotIds r0)"
  shows "wp (stopLocal os during name)
    (\<lambda>res h'. \<exists>i. sr_snapshotId res = Some i \<and> (\<exists>c. sits name c h' \<and> savedCore i (stoppedAs r0) fs c))
    (\<lambda>e h'. e = OtherError ''tar'' \<and> sits name (Some (r0\<lparr>lr_status := StStopping\<rparr>), fs, ar) h') h"
proof -
  obtain d r where r: "r\<lparr>lr_commands := []\<rparr> = r0" "recordOf name h = Some r" "lr_name r = name"
    by (rule sits_record [OF h])
  let ?s = "r0\<lparr>lr_status := StStopping\<rparr>"
  let ?h = "updLocal name (\<lambda>d. d\<lparr>ld_record := Some (r\<lparr>lr_status := StStopping\<rparr>)\<rparr>) h"
  have status: "lr_status r \<noteq> StStopped" using assms(3) r(1) by auto
  have stopping: "lr_name (r\<lparr>lr_status := StStopping\<rparr>) = name" using r(3) by simp
  have h1: "sits name (Some ?s, fs, ar) ?h"
  proof -
    have "(r\<lparr>lr_status := StStopping\<rparr>)\<lparr>lr_commands := []\<rparr> = ?s" unfolding r(1) [symmetric] by simp
    with sits_write [OF h, of "r\<lparr>lr_status := StStopping\<rparr>"] r(3) show ?thesis by simp
  qed
  have now: "ho_now ?h = ho_now h" by (simp add: updLocal_def putLocal_def)
  have final: "wp (bindE (requireRecord name) (\<lambda>stopped. thenE (writeRecord (stoppedAs stopped))
      (retE \<lparr>sr_snapshotId = Some i, sr_snapshotSizeBytes = Some n\<rparr>)))
      (\<lambda>res h'. \<exists>i. sr_snapshotId res = Some i \<and> (\<exists>c. sits name c h' \<and> savedCore i (stoppedAs r0) fs c)) E g"
    if c: "sits name c g" "savedCore i ?s fs c" for i n c g E
  proof -
    obtain kept ar' where c': "c = (Some (?s\<lparr>lr_snapshotIds := kept @ [i]\<rparr>), fs, ar')" "map_of ar' i = Some (archiveOf fs)"
        "lr_keepLastSnapshots r0 > 0 \<longrightarrow> int (length (kept @ [i])) \<le> lr_keepLastSnapshots r0"
      using c(2) by (auto simp: savedCore_def)
    obtain d' r' where r': "r'\<lparr>lr_commands := []\<rparr> = ?s\<lparr>lr_snapshotIds := kept @ [i]\<rparr>" "recordOf name g = Some r'" "lr_name r' = name"
      by (rule sits_record [OF c(1) [unfolded c'(1)]])
    have "(stoppedAs r')\<lparr>lr_commands := []\<rparr> = stoppedAs (r'\<lparr>lr_commands := []\<rparr>)" by (simp add: stoppedAs_def)
    also have "\<dots> = (stoppedAs r0)\<lparr>lr_snapshotIds := kept @ [i]\<rparr>" by (simp add: r'(1) stoppedAs_def)
    finally have "sits name (Some ((stoppedAs r0)\<lparr>lr_snapshotIds := kept @ [i]\<rparr>), fs, ar')
        (updLocal name (\<lambda>d. d\<lparr>ld_record := Some (stoppedAs r')\<rparr>) g)"
      using sits_write [OF c(1) [unfolded c'(1)], of "stoppedAs r'"] r'(3) by (simp add: stoppedAs_def)
    moreover have "savedCore i (stoppedAs r0) fs (Some ((stoppedAs r0)\<lparr>lr_snapshotIds := kept @ [i]\<rparr>), fs, ar')"
      using c'(2,3) by (auto simp: savedCore_def stoppedAs_def)
    moreover have "lr_name (stoppedAs r') = name" using r'(3) by (simp add: stoppedAs_def)
    ultimately show ?thesis
      by (auto simp only: wp_bind requireRecord_def readRecord_def wp_get r'(2) option.case wp_ret wp_then wp_mod writeRecord_def stopResult.simps)
  qed
  have snap: "wp (bindE (makeSnapshot os during name) (\<lambda>(i, n). bindE (requireRecord name) (\<lambda>stopped. thenE (writeRecord (stoppedAs stopped))
      (retE \<lparr>sr_snapshotId = Some i, sr_snapshotSizeBytes = Some n\<rparr>))))
      (\<lambda>res h'. \<exists>i. sr_snapshotId res = Some i \<and> (\<exists>c. sits name c h' \<and> savedCore i (stoppedAs r0) fs c))
      (\<lambda>e h'. e = OtherError ''tar'' \<and> sits name (Some ?s, fs, ar) h') g"
    if g: "sits name (Some ?s, fs, ar) g" and t: "ho_now h \<le> ho_now g" for g
    unfolding wp_bind [of "makeSnapshot os during name"]
    by (rule wp_mono [OF wp_makeSnapshot [OF q g]]) (use fresh [OF t] in \<open>auto simp del: split_paired_Ex intro: final\<close>)
  have "wp (thenE (terminateAll os during name) (bindE (makeSnapshot os during name) (\<lambda>(i, n). bindE (requireRecord name) (\<lambda>stopped. thenE (writeRecord (stoppedAs stopped))
      (retE \<lparr>sr_snapshotId = Some i, sr_snapshotSizeBytes = Some n\<rparr>)))))
      (\<lambda>res h'. \<exists>i. sr_snapshotId res = Some i \<and> (\<exists>c. sits name c h' \<and> savedCore i (stoppedAs r0) fs c))
      (\<lambda>e h'. e = OtherError ''tar'' \<and> sits name (Some ?s, fs, ar) h') ?h"
    unfolding wp_then
    by (rule wp_mono [OF wp_terminateAll [OF q h1]]) (auto simp: now simp del: split_paired_Ex intro: snap)
  then show ?thesis
    using status by (simp only: stopLocal_def stoppedAs_def [symmetric] wp_require [OF r(2)] if_False wp_written stopping)
qed

text \<open>Different instants have different names.\<close>

lemma base36Digit_inj: "a < 36 \<Longrightarrow> b < 36 \<Longrightarrow> base36Digit a = base36Digit b \<Longrightarrow> a = b"
proof -
  have "distinct ''0123456789abcdefghijklmnopqrstuvwxyz''" "length ''0123456789abcdefghijklmnopqrstuvwxyz'' = 36"
    by code_simp+
  then show "a < 36 \<Longrightarrow> b < 36 \<Longrightarrow> base36Digit a = base36Digit b \<Longrightarrow> a = b"
    unfolding base36Digit_def by (metis nth_eq_iff_index_eq)
qed

lemma base36_inj: "base36 m = base36 n \<Longrightarrow> m = n"
proof (induction m arbitrary: n rule: less_induct)
  case (less m)
  have long: "base36 k \<noteq> []" for k by (subst base36.simps) simp
  have last36: "last (base36 k) = base36Digit (k mod 36)" and butlast36: "butlast (base36 k) = (if k < 36 then [] else base36 (k div 36))" for k
    by (subst base36.simps, simp)+
  have "m mod 36 = n mod 36"
    using less.prems last36 [of m] last36 [of n] by (intro base36Digit_inj) simp_all
  moreover have "m div 36 = n div 36"
  proof (cases "m < 36")
    case True
    then show ?thesis using less.prems butlast36 [of m] butlast36 [of n] long [of "n div 36"] by (auto split: if_splits)
  next
    case False
    then show ?thesis
      using less.prems butlast36 [of m] butlast36 [of n] long [of "m div 36"] less.IH [of "m div 36" "n div 36"]
      by (auto split: if_splits)
  qed
  ultimately show "m = n" by (metis div_mult_mod_eq)
qed

definition earlierIds :: "string \<Rightarrow> int \<Rightarrow> string list \<Rightarrow> bool" where
  "earlierIds name t0 ids \<longleftrightarrow> (\<forall>i \<in> set ids. \<exists>t. 0 \<le> t \<and> t < t0 \<and> i = snapshotIdAt name t)"

lemma earlierIds_fresh: "earlierIds name t0 ids \<Longrightarrow> t0 \<le> t \<Longrightarrow> snapshotIdAt name t \<notin> set ids"
proof
  assume "earlierIds name t0 ids" "t0 \<le> t" "snapshotIdAt name t \<in> set ids"
  then obtain t' where "0 \<le> t'" "t' < t" "snapshotIdAt name t = snapshotIdAt name t'"
    unfolding earlierIds_def by fastforce
  then show False using base36_inj [of "nat t" "nat t'"] by (simp add: snapshotIdAt_def)
qed

text \<open>What is left of a directory whose checkout was deleted.\<close>

definition loseWorkspaces :: "string \<Rightarrow> host \<Rightarrow> host" where
  "loseWorkspaces name = updLocal name (\<lambda>d. d\<lparr>ld_files := filter (\<lambda>e. \<not> prefix [''workspaces''] (fst e)) (ld_files d)\<rparr>)"

lemma map_of_unpacked:
  assumes "archived p"
  shows "map_of (unpacked (archiveOf fs) (filter P fs)) p = map_of fs p"
proof -
  have arch: "map_of (archiveOf es) p = map_of es p" for es
    using assms by (induction es) (auto simp: archiveOf_def)
  have skip: "map_of (filter (\<lambda>e. fst e \<notin> A) es @ more) p = map_of more p" if "p \<in> A \<or> p \<notin> fst ` set es" for A es and more :: files
    using that by (induction es) auto
  have "p \<in> set (map fst (archiveOf fs)) \<or> p \<notin> fst ` set (filter P fs)"
  proof (cases "map_of fs p")
    case None
    then show ?thesis by (auto simp: map_of_eq_None_iff)
  next
    case (Some x)
    then have "p \<in> fst ` set (archiveOf fs)" using arch [of fs] by (metis map_of_eq_None_iff option.distinct(1))
    then show ?thesis by simp
  qed
  from skip [OF this] show ?thesis by (simp only: unpacked_def arch)
qed

text \<open>
  Stopped, its checkout deleted, and opened again: the sandbox runs with the files it had.
\<close>

lemma wp_openAgain:
  assumes q: "quietDuring during" and c: "sits name c h" and saved: "savedCore i r0 fs c" and "lr_status r0 = StStopped"
  shows "wp (thenE (modE (loseWorkspaces name)) (getLocal os during name True (\<lambda>_. retE ())))
    (\<lambda>ans h'. ans = Some name \<and> map_option lr_status (recordOf name h') = Some StRunning
       \<and> (\<forall>p. archived p \<longrightarrow> fileAt name p h' = map_of fs p))
    (\<lambda>e _. e = OtherError ''tar'') h"
proof -
  obtain kept ar where c': "c = (Some (r0\<lparr>lr_snapshotIds := kept @ [i]\<rparr>), fs, ar)" "map_of ar i = Some (archiveOf fs)"
    using saved by (auto simp: savedCore_def)
  let ?r = "r0\<lparr>lr_snapshotIds := kept @ [i]\<rparr>"
  let ?fs = "filter (\<lambda>e. \<not> prefix [''workspaces''] (fst e)) fs"
  have lost: "sits name (Some ?r, ?fs, ar) (loseWorkspaces name h)"
    unfolding loseWorkspaces_def by (rule sits_upd [OF c [unfolded c'(1)]]) (auto simp: coreOf_def)
  obtain d r where r: "dirOf (loseWorkspaces name h) name = Some d" "r\<lparr>lr_commands := []\<rparr> = ?r" "ld_files d = ?fs" "ld_archives d = ar"
      "recordOf name (loseWorkspaces name h) = Some r" "lr_name r = name"
    by (rule sits_record [OF lost])
  have ids: "lr_snapshotIds r = kept @ [i]" "lr_status r = StStopped" 
    using arg_cong [OF r(2), of lr_snapshotIds] arg_cong [OF r(2), of lr_status] assms(4) by simp_all
  let ?un = "unpacked (archiveOf fs) ?fs"
  have tick: "sits name c (g\<lparr>ho_calls := a, ho_now := b\<rparr>) = sits name c g" for c g a b
    by (rule sits_same) simp
  have started: "map_option lr_status (recordOf name g') = Some StRunning \<and> (\<forall>p. archived p \<longrightarrow> fileAt name p g' = map_of fs p)"
    if g: "sits name (Some ?r, ?un, ar) g" and g': "g' = updLocal name (\<lambda>d. d\<lparr>ld_record := Some (startSession t r)\<rparr>) g" for g t g'
  proof -
    obtain d' where d': "dirOf g name = Some d'" "ld_files d' = ?un" by (rule sits_record [OF g])
    show ?thesis
      by (simp add: g' recordOf_upd dirOf_upd d' fileAt_def startSession_def map_of_unpacked)
  qed
  have unpack: "sits name (Some ?r, ?un, ar) (during (updLocal name (\<lambda>d. d\<lparr>ld_files := unpacked (archiveOf fs) (ld_files d)\<rparr>) g))"
    if "sits name (Some ?r, ?fs, ar) g" for g
    by (intro sits_during [OF q] sits_upd [OF that]) (auto simp: coreOf_def)
  have none: "\<not> list_ex (\<lambda>e. prefix [''workspaces''] (fst e)) (ld_files d)"
    by (simp add: r(3) list_ex_iff)
  have "startSession t r = x \<Longrightarrow> lr_name x = name" for t x using r(6) by (auto simp: startSession_def)
  then have nm: "lr_name (startSession t r) = name" for t by blast
  let ?g = "(loseWorkspaces name h)\<lparr>ho_calls := Suc (ho_calls (loseWorkspaces name h)),
      ho_now := ho_now (loseWorkspaces name h) + int (os_elapsed os (ho_calls (loseWorkspaces name h)))\<rparr>"
  have sits_g: "sits name (Some ?r, ?fs, ar) ?g" using lost by (simp only: tick)
  have resume: "wp (resumeLocal os during r)
      (\<lambda>_ g'. map_option lr_status (recordOf name g') = Some StRunning \<and> (\<forall>p. archived p \<longrightarrow> fileAt name p g' = map_of fs p))
      (\<lambda>e _. e = OtherError ''tar'') (loseWorkspaces name h)"
    using none c'(2) started [OF unpack [OF sits_g] refl]
    by (simp add: resumeLocal_def restoreIfNeeded_def writeRecord_def wp_simps r(1,4,6) ids nm)
  have "wp (getLocal os during name True (\<lambda>_. retE ()))
      (\<lambda>ans h'. ans = Some name \<and> map_option lr_status (recordOf name h') = Some StRunning
         \<and> (\<forall>p. archived p \<longrightarrow> fileAt name p h' = map_of fs p)) (\<lambda>e _. e = OtherError ''tar'') (loseWorkspaces name h)"
    unfolding getLocal_def readRecord_def wp_bind [of "getE f" for f] wp_get r(5) option.case wp_then wp_when
    using ids(2) resume by (simp add: wp_then wp_ret')
  then show ?thesis by (simp only: wp_then wp_mod)
qed

section \<open>Every order of operations\<close>

text \<open>
  The operations of the adapter and its handles, one after the other in any order, with any machine and
  any quiet interference in each, whether they return or throw; and children that exit in between.
\<close>

definition ran :: "(host, err, 'a) act \<Rightarrow> host \<Rightarrow> host \<Rightarrow> bool" where
  "ran m h h' \<longleftrightarrow> h' = snd (m h)"

inductive localStep :: "host \<Rightarrow> host \<Rightarrow> bool" where
  created: "quietDuring during \<Longrightarrow> ran (createLocal os during input) h h' \<Longrightarrow> localStep h h'"
| got: "quietDuring during \<Longrightarrow> ran (getLocal os during name resumes (\<lambda>n. thenE (runDetachedLocal os e n input) (retE ()))) h h' \<Longrightarrow> localStep h h'"
| stopped: "quietDuring during \<Longrightarrow> ran (stopLocal os during name) h h' \<Longrightarrow> localStep h h'"
| deleted: "quietDuring during \<Longrightarrow> ran (deleteLocal os during name) h h' \<Longrightarrow> localStep h h'"
| started: "ran (runDetachedLocal os e name input) h h' \<Longrightarrow> localStep h h'"
| waited: "quietDuring during \<Longrightarrow> ran (waitCommandLocal os during name cmdId ms) h h' \<Longrightarrow> localStep h h'"
| killed: "ran (killCommand name cmdId signal) h h' \<Longrightarrow> localStep h h'"
| extended: "ran (extendLocal name ms) h h' \<Longrightarrow> localStep h h'"
| pruned: "ran (deleteSnapshotLocal snapshotId) h h' \<Longrightarrow> localStep h h'"
| exited: "localStep h (commandExited name cmdId code h)"

lemma ran_keeps: "ran m h h' \<Longrightarrow> keeps m I \<Longrightarrow> I h \<Longrightarrow> I h'"
  by (cases "m h") (auto simp: ran_def intro: keeps_run)

lemma localStep_ports: "localStep h h' \<Longrightarrow> portsOk h \<Longrightarrow> portsOk h'"
proof (induction rule: localStep.induct)
  case (created during os input h h')
  have "keeps (createLocal os during input) portsOk" by (intro keepsI wp_createLocal created)
  with created show ?case by (blast intro: ran_keeps)
next
  case (exited h name cmdId code)
  have "keeps (modE (commandExited name cmdId code)) portsOk"
    by (intro portsOk_keeps portsView.keeps_during quietDuring_exited)
  from keepsD [OF this exited] show ?case by (simp add: wp_mod)
qed (blast intro: ran_keeps portsOk_keeps keeps_getLocal keeps_then keeps_ret keeps_runDetachedLocal keeps_stopLocal keeps_deleteLocal
    keeps_waitCommandLocal keeps_killCommand keeps_extendLocal keeps_deleteSnapshot)+

lemma localRun_ports: "localStep\<^sup>*\<^sup>* h h' \<Longrightarrow> portsOk h \<Longrightarrow> portsOk h'"
  by (induction rule: rtranclp_induct) (auto intro: localStep_ports)

text \<open>Two sandboxes never hold the same port.\<close>

lemma portsOk_records:
  assumes "portsOk h" and "recordOf n h = Some r"
  shows "distinct (allocatedPorts r) \<and> list_all (\<lambda>p. \<not> isInfraRange p) (allocatedPorts r)
    \<and> (\<forall>m s. recordOf m h = Some s \<longrightarrow> m \<noteq> n \<longrightarrow> set (allocatedPorts r) \<inter> set (allocatedPorts s) = {})"
proof -
  have split: "portsHeld V = portsHeld A @ ps @ portsHeld B" if "V = A @ (n, Some (n, ps)) # B" for V A B ps
    using that by (simp add: portsHeld_def)
  have held: "(n, Some (n, allocatedPorts r)) \<in> set (viewBy portsOf h)" if rn: "recordOf n h = Some r" for n r
  proof -
    obtain d where d: "dirOf h n = Some d" "ld_record d = Some r" using dirOf_record [OF rn] by blast
    have "lr_name r = n" using assms(1) rn by (auto simp: portsOk_def intro: named_record)
    with d have "map_of (viewBy portsOf h) n = Some (Some (n, allocatedPorts r))"
      by (simp add: map_of_view portsOf_def)
    then show ?thesis by (rule map_of_SomeD)
  qed
  obtain A B where V: "viewBy portsOf h = A @ (n, Some (n, allocatedPorts r)) # B"
    using split_list [OF held [OF assms(2)]] by blast
  have ok: "distinct (portsHeld A @ allocatedPorts r @ portsHeld B)" "list_all (\<lambda>p. \<not> isInfraRange p) (portsHeld A @ allocatedPorts r @ portsHeld B)"
    using assms(1) by (simp_all add: portsOk_def split [OF V])
  moreover have "set (allocatedPorts s) \<subseteq> set (portsHeld A) \<union> set (portsHeld B)" if "recordOf m h = Some s" "m \<noteq> n" for m s
    using held [OF that(1)] that(2) by (force simp: V portsHeld_def)
  ultimately show ?thesis by fastforce
qed

end
