(* ===== verification/LocalRepos.thy ===== *)
theory LocalRepos
  imports GitHub Export
begin

text \<open>
  The repositories of the local backend (the second half of \<open>lib/sandbox-local.ts\<close>): directories under
  \<open>ZS_LOCAL_REPOS_DIR\<close> answered to the lookups of \<open>GitHub\<close>. What \<open>git -C <directory> <arguments>\<close> prints is a
  parameter, \<open>None\<close> where it fails, as are the existence of a path, the first word of SHA-256 and the
  text of a \<open>file:\<close> URL.
\<close>

record gitHost =
  gt_exists :: "string \<Rightarrow> bool"
  gt_git :: "string \<Rightarrow> string list \<Rightarrow> string option"
  gt_digest32 :: "string \<Rightarrow> int"
  gt_fileUrl :: "string \<Rightarrow> string"

section \<open>Paths and refs\<close>

definition alnum :: "char \<Rightarrow> bool" where
  "alnum c \<longleftrightarrow> isLetter c \<or> isDigit c"

text \<open>\<open>/^[A-Za-z0-9][A-Za-z0-9._-]{0,99}$/\<close>.\<close>

definition localRepoName :: "string \<Rightarrow> bool" where
  "localRepoName s \<longleftrightarrow> (case s of [] \<Rightarrow> False
     | c # cs \<Rightarrow> alnum c \<and> list_all (\<lambda>x. alnum x \<or> x \<in> set ''._-'') cs \<and> length cs \<le> 99)"

definition resolvePath :: "string \<Rightarrow> string \<Rightarrow> string" where
  "resolvePath root p = ''/'' @ joinWith CHR ''/'' (segments (if isAbsolute p then p else root @ ''/'' @ p))"

definition localRepoPath :: "string \<Rightarrow> string \<Rightarrow> err + string" where
  "localRepoPath root name =
     (if \<not> localRepoName name \<or> name = ''.'' \<or> name = ''..'' then Inl (ApiError 404 ''repo_not_found'')
      else let resolved = resolvePath root name in
        if \<not> prefix (root @ ''/'') resolved then Inl (ApiError 404 ''repo_not_found'') else Inr resolved)"

definition localCloneUrl :: "gitHost \<Rightarrow> string \<Rightarrow> string \<Rightarrow> err + string" where
  "localCloneUrl gt root name = map_sum id (gt_fileUrl gt) (localRepoPath root name)"

definition localGithubRepoId :: "gitHost \<Rightarrow> string \<Rightarrow> int" where
  "localGithubRepoId gt name = - (gt_digest32 gt (''local/'' @ name) mod 2 ^ 31 + 1)"

text \<open>\<open>/^[A-Za-z0-9][A-Za-z0-9._/-]*$/\<close>.\<close>

definition gitRefChars :: "string \<Rightarrow> bool" where
  "gitRefChars s \<longleftrightarrow> (case s of [] \<Rightarrow> False | c # cs \<Rightarrow> alnum c \<and> list_all (\<lambda>x. alnum x \<or> x \<in> set ''._/-'') cs)"

definition assertGitRef :: "string \<Rightarrow> err + string" where
  "assertGitRef ref = (if \<not> gitRefChars ref \<or> hasPart ref ''..'' \<or> suffix ''/'' ref \<or> suffix ''.lock'' ref
     then Inl (ApiError 400 ''invalid_body'') else Inr ref)"

section \<open>Lookups\<close>

definition isGitRepo :: "gitHost \<Rightarrow> string \<Rightarrow> bool" where
  "isGitRepo gt repo \<longleftrightarrow> gt_exists gt repo \<and> gt_git gt repo [''rev-parse'', ''--git-dir''] \<noteq> None"

definition trimText :: "string \<Rightarrow> string" where
  "trimText s = rev (dropWhile isSpace (rev (dropWhile isSpace s)))"

definition defaultBranchOf :: "gitHost \<Rightarrow> string \<Rightarrow> string" where
  "defaultBranchOf gt repo =
     (let head = gt_git gt repo [''symbolic-ref'', ''--short'', ''-q'', ''HEAD''] in
      if truthy head then the head
      else case gt_git gt repo [''for-each-ref'', ''--format=%(refname:short)'', ''refs/heads/''] of
        None \<Rightarrow> ''main''
      | Some branches \<Rightarrow> (case find (\<lambda>line. trimText line \<noteq> []) (splitOn CHR 0x0A branches) of
          None \<Rightarrow> ''main'' | Some line \<Rightarrow> trimText line))"

definition localFetchRepo :: "gitHost \<Rightarrow> string \<Rightarrow> string \<Rightarrow> err + installationRepo option" where
  "localFetchRepo gt root name = (case localRepoPath root name of Inl e \<Rightarrow> Inl e
     | Inr repo \<Rightarrow> Inr (if \<not> isGitRepo gt repo then None
         else Some \<lparr>ir_id = localGithubRepoId gt name, ir_owner = ''local'', ir_name = name,
           ir_defaultBranch = defaultBranchOf gt repo, ir_private = False\<rparr>))"

definition revParse :: "gitHost \<Rightarrow> string \<Rightarrow> string \<Rightarrow> string option" where
  "revParse gt repo operand =
     gt_git gt repo [''rev-parse'', ''--verify'', ''--quiet'', ''--end-of-options'', operand @ ''^{commit}'']"

definition localResolveRef :: "gitHost \<Rightarrow> string \<Rightarrow> string \<Rightarrow> refInput \<Rightarrow> err + resolvedRef" where
  "localResolveRef gt root name ref = (case localRepoPath root name of Inl e \<Rightarrow> Inl e
     | Inr repo \<Rightarrow>
       if \<not> isGitRepo gt repo then Inl (ApiError 404 ''repo_not_found'')
       else (case ref of
         RefPullRequest n \<Rightarrow> Inl (ApiError 400 ''invalid_body'')
       | RefRevision r \<Rightarrow> (case assertGitRef r of Inl e \<Rightarrow> Inl e
           | Inr r' \<Rightarrow> (let sha = revParse gt repo r' in
               if truthy sha then Inr \<lparr>rr_branch = None, rr_sha = the sha, rr_gitRef = None\<rparr>
               else Inl (ApiError 404 ''repo_not_found'')))
       | RefBranch b \<Rightarrow> (case assertGitRef b of Inl e \<Rightarrow> Inl e
           | Inr b' \<Rightarrow> (let sha = revParse gt repo (''refs/heads/'' @ b') in
               if truthy sha then Inr \<lparr>rr_branch = Some b', rr_sha = the sha, rr_gitRef = None\<rparr>
               else Inl (ApiError 404 ''repo_not_found'')))))"

text \<open>The lookups of \<open>GitHub\<close> on a machine with local repositories.\<close>

definition withLocalRepos :: "gitHost \<Rightarrow> string \<Rightarrow> github \<Rightarrow> github" where
  "withLocalRepos gt root gh = gh\<lparr>gh_localRepo := localFetchRepo gt root, gh_localRef := localResolveRef gt root,
     gh_localCloneUrl := localCloneUrl gt root\<rparr>"

section \<open>Lemmas\<close>

text \<open>A root is what \<open>path.resolve\<close> returns; the root directory itself would not do.\<close>

definition resolvedRoot :: "string \<Rightarrow> bool" where
  "resolvedRoot root \<longleftrightarrow> segments root \<noteq> [] \<and> root = ''/'' @ joinWith CHR ''/'' (segments root)"

definition cleanSegment :: "string \<Rightarrow> bool" where
  "cleanSegment s \<longleftrightarrow> s \<noteq> [] \<and> s \<noteq> ''.'' \<and> s \<noteq> ''..''"

lemma popDots_clean: "list_all cleanSegment acc \<Longrightarrow> list_all cleanSegment (popDots acc ss)"
proof (induction ss arbitrary: acc)
  case Nil
  then show ?case by (simp add: list_all_iff)
next
  case (Cons s ss)
  have "list_all cleanSegment (tl acc)" using Cons.prems by (cases acc) simp_all
  moreover have "cleanSegment s" if "s \<noteq> []" "s \<noteq> ''.''" "s \<noteq> ''..''" using that by (simp add: cleanSegment_def)
  ultimately show ?case
    using Cons.IH [of acc] Cons.IH [of "tl acc"] Cons.IH [of "s # acc"] Cons.prems
    unfolding popDots.simps by (simp only: list.pred_inject split: if_split) blast
qed

lemma popDots_id: "list_all cleanSegment ss \<Longrightarrow> popDots acc ss = rev acc @ ss"
  by (induction ss arbitrary: acc) (auto simp: cleanSegment_def)

lemma joinWith_snoc: "xs \<noteq> [] \<Longrightarrow> joinWith d (xs @ [x]) = joinWith d xs @ d # x"
  by (induction d xs rule: joinWith.induct) simp_all

lemma resolvePath_child:
  assumes "resolvedRoot root" and "cleanSegment name" and "CHR ''/'' \<notin> set name"
  shows "resolvePath root name = root @ ''/'' @ name"
proof -
  let ?segs = "segments root"
  have root: "?segs \<noteq> []" "root = ''/'' @ joinWith CHR ''/'' ?segs" using assms(1) by (simp_all add: resolvedRoot_def)
  have clean: "list_all cleanSegment ?segs" unfolding segments_def by (rule popDots_clean) simp
  have plain: "\<forall>s \<in> set (?segs @ [name]). CHR ''/'' \<notin> set s" using segments_ok [of root] assms(3) by auto
  have "root @ ''/'' @ name = [] @ CHR ''/'' # joinWith CHR ''/'' (?segs @ [name])"
    by (simp add: joinWith_snoc [OF root(1)]) (subst root(2), simp)
  then have "splitOn CHR ''/'' (root @ ''/'' @ name) = splitOn CHR ''/'' ([] @ CHR ''/'' # joinWith CHR ''/'' (?segs @ [name]))"
    by (rule arg_cong)
  also have "\<dots> = [] # splitOn CHR ''/'' (joinWith CHR ''/'' (?segs @ [name]))"
    by (rule splitOn_append) simp
  also have "\<dots> = [] # ?segs @ [name]" using splitOn_join [OF _ plain] by simp
  finally have "segments (root @ ''/'' @ name) = popDots [] ([] # ?segs @ [name])" by (simp add: segments_def)
  also have "\<dots> = ?segs @ [name]" using clean assms(2) popDots_id [of "?segs @ [name]" "[]"] by simp
  finally have segs: "segments (root @ ''/'' @ name) = ?segs @ [name]" .
  have "\<not> isAbsolute name" using assms(2,3) by (cases name) (auto simp: isAbsolute_def)
  then have "resolvePath root name = ''/'' @ joinWith CHR ''/'' (?segs @ [name])"
    using segs by (simp add: resolvePath_def)
  also have "\<dots> = root @ ''/'' @ name" by (simp add: joinWith_snoc [OF root(1)]) (subst (2) root(2), simp)
  finally show ?thesis .
qed

lemma localRepoName_clean: "localRepoName s \<Longrightarrow> cleanSegment s \<and> CHR ''/'' \<notin> set s"
proof -
  assume s: "localRepoName s"
  then obtain c cs where c: "s = c # cs" "alnum c" "list_all (\<lambda>x. alnum x \<or> x \<in> set ''._-'') cs"
    by (auto simp: localRepoName_def split: list.splits)
  have "\<not> alnum CHR ''.''" "\<not> alnum CHR ''/''" by code_simp+
  then show ?thesis using c by (auto simp: cleanSegment_def list_all_iff)
qed

lemma localRepoPath_child:
  assumes "resolvedRoot root"
  shows "localRepoPath root name = Inr p \<longleftrightarrow> localRepoName name \<and> p = root @ ''/'' @ name"
proof (cases "localRepoName name")
  case True
  then have n: "cleanSegment name" "CHR ''/'' \<notin> set name" using localRepoName_clean by blast+
  then have "name \<noteq> ''.''" "name \<noteq> ''..''" by (simp_all add: cleanSegment_def)
  then show ?thesis using True resolvePath_child [OF assms n] by (auto simp: localRepoPath_def Let_def)
qed (simp add: localRepoPath_def)

text \<open>What git is asked: fixed questions, and one operand that is no option and leads nowhere else.\<close>

definition plainOperand :: "string \<Rightarrow> bool" where
  "plainOperand s \<longleftrightarrow> s \<noteq> [] \<and> alnum (hd s) \<and> \<not> hasPart s ''..'' \<and> list_all (\<lambda>c. alnum c \<or> c \<in> set ''._/-'') s"

definition safeQuestion :: "string list \<Rightarrow> bool" where
  "safeQuestion args \<longleftrightarrow> args \<in> {[''rev-parse'', ''--git-dir''], [''symbolic-ref'', ''--short'', ''-q'', ''HEAD''],
       [''for-each-ref'', ''--format=%(refname:short)'', ''refs/heads/'']}
     \<or> (\<exists>r. plainOperand r \<and> (args = [''rev-parse'', ''--verify'', ''--quiet'', ''--end-of-options'', r @ ''^{commit}'']
         \<or> args = [''rev-parse'', ''--verify'', ''--quiet'', ''--end-of-options'', (''refs/heads/'' @ r) @ ''^{commit}'']))"

lemma assertGitRef_plain: "assertGitRef ref = Inr r \<Longrightarrow> r = ref \<and> plainOperand ref"
  by (auto simp: assertGitRef_def gitRefChars_def plainOperand_def split: if_splits list.splits)

text \<open>Two machines that agree on the repository and on these questions answer alike.\<close>

definition agreeOn :: "string \<Rightarrow> gitHost \<Rightarrow> gitHost \<Rightarrow> bool" where
  "agreeOn repo gt gt' \<longleftrightarrow> gt_exists gt repo = gt_exists gt' repo \<and> gt_digest32 gt = gt_digest32 gt'
     \<and> (\<forall>args. safeQuestion args \<longrightarrow> gt_git gt repo args = gt_git gt' repo args)"

lemma agreeOn_git: "agreeOn repo gt gt' \<Longrightarrow> safeQuestion args \<Longrightarrow> gt_git gt repo args = gt_git gt' repo args"
  by (simp add: agreeOn_def)

lemma fixedQuestions:
  "safeQuestion [''rev-parse'', ''--git-dir'']" "safeQuestion [''symbolic-ref'', ''--short'', ''-q'', ''HEAD'']"
  "safeQuestion [''for-each-ref'', ''--format=%(refname:short)'', ''refs/heads/'']"
  by (simp_all add: safeQuestion_def)

lemma operandQuestion:
  assumes "plainOperand r"
  shows "safeQuestion [''rev-parse'', ''--verify'', ''--quiet'', ''--end-of-options'', r @ ''^{commit}'']"
    and "safeQuestion [''rev-parse'', ''--verify'', ''--quiet'', ''--end-of-options'', (''refs/heads/'' @ r) @ ''^{commit}'']"
  unfolding safeQuestion_def
  by (rule disjI2, rule exI [of _ r], rule conjI [OF assms], rule disjI1, rule refl)
    (rule disjI2, rule exI [of _ r], rule conjI [OF assms], rule disjI2, rule refl)

lemma revParse_agree:
  assumes "agreeOn repo gt gt'" and "plainOperand r"
  shows "revParse gt repo r = revParse gt' repo r"
    and "revParse gt repo (''refs/heads/'' @ r) = revParse gt' repo (''refs/heads/'' @ r)"
  unfolding revParse_def
  by (rule agreeOn_git [OF assms(1) operandQuestion(1) [OF assms(2)]])
    (rule agreeOn_git [OF assms(1) operandQuestion(2) [OF assms(2)]])

lemma localLookups_agree:
  assumes "agreeOn (root @ ''/'' @ name) gt gt'" and "resolvedRoot root"
  shows "localFetchRepo gt root name = localFetchRepo gt' root name"
    and "localResolveRef gt root name ref = localResolveRef gt' root name ref"
proof -
  let ?repo = "root @ ''/'' @ name"
  have git: "isGitRepo gt ?repo = isGitRepo gt' ?repo"
    using assms(1) agreeOn_git [OF assms(1) fixedQuestions(1)] by (simp add: isGitRepo_def agreeOn_def)
  have main: "defaultBranchOf gt ?repo = defaultBranchOf gt' ?repo"
    using agreeOn_git [OF assms(1) fixedQuestions(2)] agreeOn_git [OF assms(1) fixedQuestions(3)]
    by (simp only: defaultBranchOf_def)
  have path: "p = ?repo" if "localRepoPath root name = Inr p" for p
    using that by (simp add: localRepoPath_child [OF assms(2)])
  show "localFetchRepo gt root name = localFetchRepo gt' root name"
    using git main path assms(1)
    by (cases "localRepoPath root name") (simp_all add: localFetchRepo_def localGithubRepoId_def agreeOn_def)
  show "localResolveRef gt root name ref = localResolveRef gt' root name ref"
  proof (cases "localRepoPath root name")
    case (Inr p)
    have "revParse gt ?repo r' = revParse gt' ?repo r'" "revParse gt ?repo (''refs/heads/'' @ r') = revParse gt' ?repo (''refs/heads/'' @ r')"
      if "assertGitRef r = Inr r'" for r r'
      using assertGitRef_plain [OF that] revParse_agree [OF assms(1), of r'] by simp_all
    with git path [OF Inr] Inr show ?thesis
      by (auto simp: localResolveRef_def Let_def split: refInput.split sum.split)
  qed (simp add: localResolveRef_def)
qed

end
