(* ===== verification/Proxy.thy ===== *)
theory Proxy
  imports Export
begin

text \<open>
  What stands before every page and route (\<open>proxy.ts\<close>): the origin guard with its local-development
  check (\<open>lib/dev-auth.ts\<close>, \<open>lib/origin.ts\<close>) and the content policy of the editor document (\<open>lib/csp.ts\<close>).
  What \<open>new URL\<close> makes of an origin or of a host is a parameter; a refusal's message is one word.
\<close>

section \<open>Local development\<close>

definition LOOPBACK_NAMES :: "string list" where
  "LOOPBACK_NAMES = [''localhost'', ''127.0.0.1'', ''[::1]'', ''::1'']"

text \<open>\<open>/^127\.\d{1,3}\.\d{1,3}\.\d{1,3}$/\<close>.\<close>

definition loopbackAddress :: "string \<Rightarrow> bool" where
  "loopbackAddress s \<longleftrightarrow> (case splitOn CHR ''.'' s of
     [a, b, c, d] \<Rightarrow> a = ''127'' \<and> list_all (\<lambda>x. list_all isDigit x \<and> 1 \<le> length x \<and> length x \<le> 3) [b, c, d]
   | _ \<Rightarrow> False)"

text \<open>\<open>hostnameOf h\<close> is \<open>new URL(`http://${h}`).hostname\<close>.\<close>

definition isLoopbackHost :: "(string \<Rightarrow> string option) \<Rightarrow> string option \<Rightarrow> bool" where
  "isLoopbackHost hostnameOf hostHeader = (if \<not> truthy hostHeader then False
     else case hostnameOf (the hostHeader) of None \<Rightarrow> False
     | Some hostname \<Rightarrow> hostname \<in> set LOOPBACK_NAMES \<or> loopbackAddress hostname)"

definition devRequestRefusal ::
  "(string \<Rightarrow> string option) \<Rightarrow> (string \<Rightarrow> (string \<times> string) option) \<Rightarrow> (string \<Rightarrow> string option) \<Rightarrow> string option" where
  "devRequestRefusal hostnameOf originOf header =
     (if \<not> isLoopbackHost hostnameOf (header ''host'') then Some ''host''
      else if truthy (header ''sec-fetch-site'') \<and> header ''sec-fetch-site'' \<noteq> Some ''none''
        \<and> header ''sec-fetch-site'' \<noteq> Some ''same-origin'' then Some ''site''
      else case header ''origin'' of None \<Rightarrow> None
      | Some origin \<Rightarrow>
          let originHost = (case originOf origin of None \<Rightarrow> None
            | Some (protocol, host) \<Rightarrow> if protocol = ''http:'' \<or> protocol = ''https:'' then Some host else None) in
          if originHost = None \<or> originHost \<noteq> header ''host'' then Some ''origin'' else None)"

section \<open>The content policy\<close>

record editorCspOptions =
  eo_dev :: bool
  eo_unsafeEval :: bool
  eo_localSandbox :: bool

text \<open>A policy is a list of directives, each a name with its sources; \<open>join(' ')\<close> and \<open>join('; ')\<close> write it.\<close>

type_synonym directive = "string \<times> string list"

definition quoted :: "string \<Rightarrow> string" where
  "quoted s = CHR 0x27 # s @ [CHR 0x27]"

definition connectSrc :: "bool \<Rightarrow> string list" where
  "connectSrc local = [quoted ''self'', ''wss://*.vercel.run'', ''https://*.vercel.run'']
     @ (if local then [''ws://127.0.0.1:*'', ''http://127.0.0.1:*'', ''ws://localhost:*'', ''http://localhost:*''] else [])"

definition editorDirectives :: "string \<Rightarrow> editorCspOptions \<Rightarrow> directive list" where
  "editorDirectives nonce opts =
     [(''default-src'', [quoted ''self'']),
      (''script-src'', [quoted ''self'', quoted (''nonce-'' @ nonce), quoted ''strict-dynamic'', quoted ''wasm-unsafe-eval'']
        @ (if eo_dev opts \<or> eo_unsafeEval opts then [quoted ''unsafe-eval''] else [])),
      (''connect-src'', connectSrc (eo_localSandbox opts)),
      (''worker-src'', [quoted ''self'', ''blob:'']),
      (''img-src'', [quoted ''self'', ''blob:'', ''data:'']),
      (''style-src'', [quoted ''self'', if eo_dev opts then quoted ''unsafe-inline'' else quoted (''nonce-'' @ nonce)]),
      (''font-src'', [quoted ''self'', ''blob:'', ''data:'']),
      (''object-src'', [quoted ''none'']),
      (''base-uri'', [quoted ''self'']),
      (''form-action'', [quoted ''self'']),
      (''frame-ancestors'', [quoted ''none'']),
      (''manifest-src'', [quoted ''self''])]
     @ (if \<not> eo_dev opts then [(''upgrade-insecure-requests'', [])] else [])"


definition directiveText :: "directive \<Rightarrow> string" where
  "directiveText d = joinWith CHR '' '' (fst d # snd d)"

fun joinDirectives :: "string list \<Rightarrow> string" where
  "joinDirectives [] = []"
| "joinDirectives [t] = t"
| "joinDirectives (t # ts) = t @ ''; '' @ joinDirectives ts"

definition editorCsp :: "string \<Rightarrow> editorCspOptions \<Rightarrow> string" where
  "editorCsp nonce opts = joinDirectives (map directiveText (editorDirectives nonce opts))"

text \<open>The base64 of a text, three bytes to four characters.\<close>

definition BASE64 :: string where
  "BASE64 = ''ABCDEFGHIJKLMNOPQRSTUVWXYZabcdefghijklmnopqrstuvwxyz0123456789+/''"

definition base64Char :: "nat \<Rightarrow> char" where
  "base64Char n = BASE64 ! (n mod 64)"

fun base64 :: "nat list \<Rightarrow> string" where
  "base64 [] = []"
| "base64 [a] = [base64Char (a div 4), base64Char (a mod 4 * 16), CHR ''='', CHR ''='']"
| "base64 [a, b] = [base64Char (a div 4), base64Char (a mod 4 * 16 + b div 16), base64Char (b mod 16 * 4), CHR ''='']"
| "base64 (a # b # c # bs) = base64Char (a div 4) # base64Char (a mod 4 * 16 + b div 16)
     # base64Char (b mod 16 * 4 + c div 64) # base64Char (c mod 64) # base64 bs"

definition newCspNonce :: "string \<Rightarrow> string" where
  "newCspNonce uuid = base64 (map of_char uuid)"

section \<open>The proxy\<close>

text \<open>
  The answer: a refusal with its status and code, the request passed on, or passed on with the nonce
  and the policy in the headers of both the request and the response.
\<close>

datatype proxyAnswer = Refused int string | PassedOn | DocumentWith string string

record proxyUrls =
  px_originOf :: "string \<Rightarrow> (string \<times> string) option"
  px_hostnameOf :: "string \<Rightarrow> string option"

definition editorDocumentResponse :: "env \<Rightarrow> nodeEnv option \<Rightarrow> string \<Rightarrow> proxyAnswer" where
  "editorDocumentResponse e processNodeEnv uuid = (let nonce = newCspNonce uuid in
     DocumentWith nonce (editorCsp nonce \<lparr>eo_dev = (processNodeEnv = Some NodeDevelopment), eo_unsafeEval = ZS_CSP_UNSAFE_EVAL e,
       eo_localSandbox = (ZS_SANDBOX_BACKEND e \<noteq> Vercel \<and> processNodeEnv \<noteq> Some NodeProduction)\<rparr>))"

definition proxy ::
  "env \<Rightarrow> nodeEnv option \<Rightarrow> proxyUrls \<Rightarrow> string \<Rightarrow> string \<Rightarrow> string \<Rightarrow> (string \<Rightarrow> string option) \<Rightarrow> proxyAnswer" where
  "proxy e processNodeEnv px uuid meth path header =
     (if ZS_SANDBOX_BACKEND e \<noteq> Vercel \<and> devRequestRefusal (px_hostnameOf px) (px_originOf px) header \<noteq> None
      then Refused 403 ''dev_origin_refused''
      else if meth \<notin> {''GET'', ''HEAD'', ''OPTIONS''}
        \<and> (\<not> originMatchesHost (px_originOf px) header
           \<or> truthy (header ''sec-fetch-site'') \<and> header ''sec-fetch-site'' \<noteq> Some ''same-origin''
             \<and> header ''sec-fetch-site'' \<noteq> Some ''none'')
      then Refused 403 ''origin_refused''
      else if \<not> prefix ''/w/'' path then PassedOn
      else editorDocumentResponse e processNodeEnv uuid)"

text \<open>The paths \<open>config.matcher\<close> sends through the proxy.\<close>

definition ASSET_SUFFIXES :: "string list" where
  "ASSET_SUFFIXES = [''.html'', ''.htm'', ''.css'', ''.js'', ''.wasm'', ''.tar'', ''.jpeg'', ''.jpg'', ''.webp'', ''.png'',
     ''.gif'', ''.svg'', ''.ttf'', ''.woff'', ''.woff2'', ''.ico'', ''.csv'', ''.doc'', ''.docx'', ''.xls'', ''.xlsx'',
     ''.zip'', ''.webmanifest'']"

definition matched :: "string \<Rightarrow> bool" where
  "matched path \<longleftrightarrow> (case path of [] \<Rightarrow> False | c # rest \<Rightarrow> c = CHR ''/''
     \<and> \<not> list_ex (\<lambda>p. prefix p rest) [''_next'', ''editor/'', ''sw.js'', ''manifest.webmanifest'', ''.well-known/workflow/'',
          ''api/sandboxes/'', ''api/cron/'', ''api/ai/'']
     \<and> (prefix ''api/'' rest \<or> \<not> list_ex (\<lambda>x. suffix x rest) ASSET_SUFFIXES))"

section \<open>Lemmas\<close>

text \<open>What a browser makes of a policy.\<close>

definition wordsOf :: "string \<Rightarrow> string list" where
  "wordsOf t = filter (\<lambda>w. w \<noteq> []) (splitOn CHR '' '' t)"

definition readPolicy :: "string \<Rightarrow> directive list" where
  "readPolicy t = map (\<lambda>d. case wordsOf d of [] \<Rightarrow> ([], []) | n # ws \<Rightarrow> (n, ws)) (splitOn CHR '';'' t)"

definition plainWord :: "string \<Rightarrow> bool" where
  "plainWord w \<longleftrightarrow> w \<noteq> [] \<and> CHR '' '' \<notin> set w \<and> CHR '';'' \<notin> set w"

definition plainDirective :: "directive \<Rightarrow> bool" where
  "plainDirective d \<longleftrightarrow> plainWord (fst d) \<and> list_all plainWord (snd d)"

lemma wordsOf_directive:
  assumes "plainDirective d"
  shows "wordsOf (directiveText d) = fst d # snd d" "wordsOf (CHR '' '' # directiveText d) = fst d # snd d"
proof -
  have "splitOn CHR '' '' (directiveText d) = fst d # snd d"
    using assms unfolding directiveText_def
    by (intro splitOn_join) (auto simp: plainDirective_def plainWord_def list_all_iff)
  moreover have "filter (\<lambda>w. w \<noteq> []) (fst d # snd d) = fst d # snd d"
    using assms by (auto simp: plainDirective_def plainWord_def list_all_iff filter_id_conv)
  moreover have "splitOn CHR '' '' (CHR '' '' # t) = [] # splitOn CHR '' '' t" for t
    using splitOn_append [of "CHR '' ''" "[]" t] by simp
  ultimately show "wordsOf (directiveText d) = fst d # snd d" "wordsOf (CHR '' '' # directiveText d) = fst d # snd d"
    by (simp_all add: wordsOf_def)
qed

lemma directiveText_plain: "plainDirective d \<Longrightarrow> CHR '';'' \<notin> set (directiveText d)"
proof -
  have "CHR '';'' \<notin> set (joinWith CHR '' '' ws)" if "list_all plainWord ws" for ws
    using that by (induction "CHR '' ''" ws rule: joinWith.induct) (auto simp: plainWord_def)
  then show "plainDirective d \<Longrightarrow> CHR '';'' \<notin> set (directiveText d)"
    by (simp add: directiveText_def plainDirective_def)
qed

lemma readPolicy_join:
  assumes "ds \<noteq> []" and "list_all plainDirective ds"
  shows "readPolicy (joinDirectives (map directiveText ds)) = ds"
  using assms
proof (induction ds)
  case (Cons d ds)
  show ?case
  proof (cases ds)
    case Nil
    then show ?thesis
      using Cons.prems splitOn_plain [OF directiveText_plain, of d] by (simp add: readPolicy_def wordsOf_directive)
  next
    case (Cons d' ds')
    have d: "plainDirective d" using Cons.prems by simp
    let ?rest = "joinDirectives (map directiveText ds)"
    have rest: "joinDirectives (map directiveText (d # ds)) = directiveText d @ CHR '';'' # CHR '' '' # ?rest"
      using Cons by simp
    have "readPolicy (directiveText d @ CHR '';'' # CHR '' '' # ?rest)
        = (fst d, snd d) # readPolicy (CHR '' '' # ?rest)"
      using splitOn_append [OF directiveText_plain [OF d]] by (simp add: readPolicy_def wordsOf_directive [OF d])
    moreover have "readPolicy (CHR '' '' # ?rest) = readPolicy ?rest"
    proof -
      have "splitOn CHR '';'' (CHR '' '' # t) = (CHR '' '' # hd (splitOn CHR '';'' t)) # tl (splitOn CHR '';'' t)" for t
        using splitOn_nonempty [of "CHR '';''" t] by (simp split: list.split)
      moreover have "wordsOf (CHR '' '' # t) = wordsOf t" for t
        using splitOn_append [of "CHR '' ''" "[]" t] by (simp add: wordsOf_def)
      ultimately show ?thesis
        using splitOn_nonempty [of "CHR '';''" ?rest] by (cases "splitOn CHR '';'' ?rest") (simp_all add: readPolicy_def)
    qed
    ultimately show ?thesis using Cons.IH Cons.prems Cons rest by simp
  qed
qed simp

lemma base64_chars: "list_all (\<lambda>c. c \<in> set (BASE64 @ ''='')) (base64 bs)"
proof -
  have "length BASE64 = 64" by (simp add: BASE64_def)
  then have "base64Char n \<in> set BASE64" for n
    unfolding base64Char_def by (intro nth_mem) simp
  then have digit: "base64Char n \<in> set (BASE64 @ ''='')" for n by simp
  have pad: "CHR ''='' \<in> set (BASE64 @ ''='')" by simp
  show ?thesis by (induction bs rule: base64.induct) (simp_all only: base64.simps list.pred_inject digit pad simp_thms)
qed

lemma nonce_plain: "c \<in> {CHR '' '', CHR '';''} \<Longrightarrow> c \<notin> set (newCspNonce uuid)"
proof -
  have "CHR '' '' \<notin> set (BASE64 @ ''='')" "CHR '';'' \<notin> set (BASE64 @ ''='')" by code_simp+
  then show "c \<in> {CHR '' '', CHR '';''} \<Longrightarrow> c \<notin> set (newCspNonce uuid)"
    using base64_chars unfolding newCspNonce_def list_all_iff by blast
qed

lemma plain_quoted: "CHR '' '' \<notin> set s \<Longrightarrow> CHR '';'' \<notin> set s \<Longrightarrow> plainWord (quoted s)"
  by (auto simp: plainWord_def quoted_def)

lemma editorDirectives_plain: "list_all plainDirective (editorDirectives (newCspNonce uuid) opts)"
proof -
  have nonce: "plainWord (quoted (''nonce-'' @ newCspNonce uuid))"
    by (rule plain_quoted) (simp_all add: nonce_plain)
  have words: "list_all plainWord [quoted ''self'', quoted ''none'', quoted ''strict-dynamic'', quoted ''wasm-unsafe-eval'',
      quoted ''unsafe-eval'', quoted ''unsafe-inline'', ''wss://*.vercel.run'', ''https://*.vercel.run'', ''ws://127.0.0.1:*'',
      ''http://127.0.0.1:*'', ''ws://localhost:*'', ''http://localhost:*'', ''blob:'', ''data:'', ''default-src'', ''script-src'',
      ''connect-src'', ''worker-src'', ''img-src'', ''style-src'', ''font-src'', ''object-src'', ''base-uri'', ''form-action'',
      ''frame-ancestors'', ''manifest-src'', ''upgrade-insecure-requests'']"
    by code_simp
  show ?thesis
    using words nonce by (simp add: editorDirectives_def connectSrc_def plainDirective_def)
qed

lemma editorCsp_reads: "readPolicy (editorCsp (newCspNonce uuid) opts) = editorDirectives (newCspNonce uuid) opts"
  unfolding editorCsp_def by (rule readPolicy_join [OF _ editorDirectives_plain]) (simp add: editorDirectives_def)

definition tame :: "string \<Rightarrow> bool" where
  "tame w \<longleftrightarrow> w \<noteq> quoted ''unsafe-inline'' \<and> w \<noteq> quoted ''unsafe-eval''"

lemma sources_tame:
  assumes "\<not> eo_dev opts"
  shows "list_all (\<lambda>(d, ws). list_all (\<lambda>w. tame w \<or> d = ''script-src'' \<and> w = quoted ''unsafe-eval'' \<and> eo_unsafeEval opts) ws)
    (editorDirectives nonce opts)"
proof -
  have "list_all tame [quoted ''self'', quoted ''none'', quoted ''strict-dynamic'', quoted ''wasm-unsafe-eval'',
      ''wss://*.vercel.run'', ''https://*.vercel.run'', ''ws://127.0.0.1:*'', ''http://127.0.0.1:*'', ''ws://localhost:*'',
      ''http://localhost:*'', ''blob:'', ''data:'']"
    by code_simp
  moreover have "tame (quoted (''nonce-'' @ nonce))" by (simp add: tame_def quoted_def)
  ultimately show ?thesis using assms by (simp add: editorDirectives_def connectSrc_def)
qed

lemma sources_named:
  assumes "(d, ws) \<in> set (editorDirectives nonce opts)" and "\<not> eo_dev opts"
  shows "quoted ''unsafe-inline'' \<notin> set ws \<and> (quoted ''unsafe-eval'' \<in> set ws \<longrightarrow> d = ''script-src'' \<and> eo_unsafeEval opts)"
proof -
  have each: "tame w \<or> d = ''script-src'' \<and> w = quoted ''unsafe-eval'' \<and> eo_unsafeEval opts" if "w \<in> set ws" for w
    using sources_tame [OF assms(2), of nonce] assms(1) that unfolding list_all_iff by fastforce
  have "quoted ''unsafe-inline'' \<noteq> quoted ''unsafe-eval''" by code_simp
  then show ?thesis
    using each [of "quoted ''unsafe-inline''"] each [of "quoted ''unsafe-eval''"] unfolding tame_def by metis
qed

text \<open>A request another site made, by its own headers.\<close>

definition foreignRequest :: "(string \<Rightarrow> (string \<times> string) option) \<Rightarrow> (string \<Rightarrow> string option) \<Rightarrow> bool" where
  "foreignRequest originOf header \<longleftrightarrow>
     (truthy (header ''origin'') \<and> \<not> (\<exists>p host. originOf (the (header ''origin'')) = Some (p, host)
        \<and> p \<in> {''http:'', ''https:''} \<and> header ''host'' = Some host))
     \<or> (truthy (header ''sec-fetch-site'') \<and> header ''sec-fetch-site'' \<notin> {Some ''same-origin'', Some ''none''})"

lemma originMatches_iff: "originMatchesHost originOf header \<longleftrightarrow> \<not> truthy (header ''origin'')
    \<or> (\<exists>p host. originOf (the (header ''origin'')) = Some (p, host) \<and> p \<in> {''http:'', ''https:''} \<and> header ''host'' = Some host)"
proof (cases "header ''origin''")
  case None
  then show ?thesis by (simp add: originMatchesHost_def truthy_def)
next
  case (Some x)
  then show ?thesis
    by (cases "originOf x") (auto simp: originMatchesHost_def truthy_def nullish_def)
qed

lemma proxy_refuses:
  assumes "meth \<notin> {''GET'', ''HEAD'', ''OPTIONS''}"
  shows "(\<exists>code. proxy e pe px uuid meth path header = Refused 403 code) \<longleftrightarrow>
    foreignRequest (px_originOf px) header
    \<or> (ZS_SANDBOX_BACKEND e \<noteq> Vercel \<and> devRequestRefusal (px_hostnameOf px) (px_originOf px) header \<noteq> None)"
  using assms
  by (auto simp: proxy_def foreignRequest_def originMatches_iff editorDocumentResponse_def Let_def)

lemma matched_api:
  "prefix ''/api/'' path \<Longrightarrow> \<not> prefix ''/api/sandboxes/'' path \<Longrightarrow> \<not> prefix ''/api/cron/'' path \<Longrightarrow>
    \<not> prefix ''/api/ai/'' path \<Longrightarrow> matched path"
  by (auto simp: matched_def prefix_def)

end
