(* ===== verification/Docker.thy ===== *)
theory Docker
  imports LocalSandbox
begin

text \<open>
  The Docker backend (\<open>lib/sandbox-docker.ts\<close>): sandboxes as containers of the developer's machine. What the
  engine answers to a command line, and what its documents say once parsed, is a parameter, a function of
  the number of the call, so anything may happen between two calls. The state keeps every command with
  its answer. The Python programs that run inside a container are known by name.
\<close>

section \<open>Commands\<close>

datatype pythonScript = KEEPALIVE | RUNNER | EXIT_OF | KILL_GROUP | SET_DEADLINE

text \<open>What follows \<open>docker\<close> on the command line; options come before the name they are about.\<close>

datatype dockerCommand =
    InspectContainer string
  | StartContainer string
  | StopContainer string
  | RemoveContainer string
  | ExecIn "string list" string "string list"
  | CreateContainer string "string list" "(string \<times> string) list" "string list" string "string list"
  | CommitContainer "(string \<times> string) list" string string
  | InspectImage "string list" string
  | ListImages "string list"
  | RemoveImage string
  | ListContainers "string list"

definition labelText :: "string \<times> string \<Rightarrow> string" where
  "labelText kv = fst kv @ ''='' @ snd kv"

fun render :: "dockerCommand \<Rightarrow> string list" where
  "render (InspectContainer name) = [''container'', ''inspect'', name]"
| "render (StartContainer i) = [''start'', i]"
| "render (StopContainer i) = [''stop'', ''--time'', ''20'', i]"
| "render (RemoveContainer i) = [''rm'', ''--force'', i]"
| "render (ExecIn opts i line) = ''exec'' # opts @ i # line"
| "render (CreateContainer name opts labels post img line) = [''create'', ''--name'', name] @ opts
     @ concat (map (\<lambda>l. [''--label'', labelText l]) labels) @ post @ img # line"
| "render (CommitContainer labels i img) =
     ''commit'' # concat (map (\<lambda>l. [''--change'', ''LABEL '' @ labelText l]) labels) @ [i, img]"
| "render (InspectImage opts img) = [''image'', ''inspect''] @ opts @ [img]"
| "render (ListImages opts) = [''image'', ''ls''] @ opts"
| "render (RemoveImage img) = [''image'', ''rm'', img]"
| "render (ListContainers opts) = [''ps'', ''--all''] @ opts"

text \<open>\<open>Container\<close>: a port maps to its bindings, each a host address with a host port.\<close>

record container =
  c_id :: string
  c_created :: int
  c_running :: bool
  c_paused :: bool
  c_startedAt :: string
  c_labels :: "(string \<times> string) list"
  c_ports :: "(string \<times> (string \<times> string) list) list"

text \<open>
  \<open>dk_container\<close> is \<open>JSON.parse(stdout)[0] as Container\<close>, with no answer where using it throws;
  \<open>dk_imageLabels\<close> the labels of an image in the same way; \<open>dk_seconds\<close> a time in seconds read as milliseconds,
  where it is finite; \<open>dk_number\<close> and \<open>dk_parseDate\<close> are \<open>Number\<close> and \<open>Date.parse\<close>; \<open>dk_rootPath\<close> resolves a path.
\<close>

record dockerEngine =
  dk_elapsed :: "nat \<Rightarrow> nat"
  dk_answer :: "nat \<Rightarrow> string list \<Rightarrow> (string \<times> string) list \<Rightarrow> string + string"
  dk_container :: "string \<Rightarrow> container option"
  dk_imageLabels :: "string \<Rightarrow> (string \<times> string) list option"
  dk_seconds :: "string \<Rightarrow> int option"
  dk_number :: "string \<Rightarrow> int"
  dk_parseDate :: "string \<Rightarrow> int option"
  dk_sha256 :: "string \<Rightarrow> string"
  dk_uuid :: "nat \<Rightarrow> string"
  dk_rootPath :: "string \<Rightarrow> string"
  dk_script :: "pythonScript \<Rightarrow> string"

type_synonym dockerLog = "(dockerCommand \<times> (string \<times> string) list \<times> (string + string)) list"

record dockerState =
  ds_now :: int
  ds_calls :: nat
  ds_log :: dockerLog

type_synonym 'a dockerAct = "(dockerState, err, 'a) act"

section \<open>The instance\<close>

definition LABEL :: string where "LABEL = ''com.zedspaces.local''"

definition DEADLINE :: string where "DEADLINE = ''/tmp/zs-docker-deadline''"

definition dockerBackendEnabled :: "env \<Rightarrow> err + bool" where
  "dockerBackendEnabled e = (if ZS_SANDBOX_BACKEND e \<noteq> Docker then Inr False
     else if NODE_ENV e = Some NodeProduction \<or> VERCEL_ENV e \<noteq> None then Inl (EnvError [''ZS_SANDBOX_BACKEND''])
     else Inr True)"

definition instanceOf :: "dockerEngine \<Rightarrow> env \<Rightarrow> err + string" where
  "instanceOf en e = (case dockerBackendEnabled e of Inl x \<Rightarrow> Inl x
     | Inr enabled \<Rightarrow> if \<not> enabled then Inl (OtherError ''Docker backend is not enabled'')
         else Inr (take 16 (dk_sha256 en (dk_rootPath en (nullish (ZS_DOCKER_ROOT e) ''.zs-dev/docker'')))))"

definition instanceE :: "dockerEngine \<Rightarrow> env \<Rightarrow> string dockerAct" where
  "instanceE en e = (case instanceOf en e of Inl x \<Rightarrow> throwE x | Inr i \<Rightarrow> retE i)"

text \<open>
  \<open>docker(args, values)\<close>: the values of the environment are handed over apart from the command line. A
  call that takes too long fails like any other.
\<close>

definition docker :: "dockerEngine \<Rightarrow> dockerCommand \<Rightarrow> (string \<times> string) list \<Rightarrow> string dockerAct" where
  "docker en c values = (\<lambda>s. let a = dk_answer en (ds_calls s) (render c) values;
       s' = s\<lparr>ds_calls := Suc (ds_calls s), ds_now := ds_now s + int (dk_elapsed en (ds_calls s)),
         ds_log := ds_log s @ [(c, values, a)]\<rparr> in
     (case a of Inl m \<Rightarrow> Inl (SandboxError Unknown_code True (''Docker: '' @ take 1200 m)) | Inr out \<Rightarrow> Inr out, s'))"

definition delayD :: "int \<Rightarrow> unit dockerAct" where
  "delayD ms = modE (\<lambda>s. s\<lparr>ds_now := ds_now s + ms\<rparr>)"

definition drawUuid :: "dockerEngine \<Rightarrow> string dockerAct" where
  "drawUuid en = (\<lambda>s. (Inr (dk_uuid en (ds_calls s)), s\<lparr>ds_calls := Suc (ds_calls s)\<rparr>))"

definition nameChar :: "char \<Rightarrow> bool" where
  "nameChar c \<longleftrightarrow> isLetter c \<or> isDigit c"

definition containerName :: "dockerEngine \<Rightarrow> env \<Rightarrow> string \<Rightarrow> string dockerAct" where
  "containerName en e name =
     (if (case name of [] \<Rightarrow> False | c # cs \<Rightarrow> nameChar c \<and> list_all (\<lambda>x. nameChar x \<or> x \<in> set ''_.-'') cs \<and> length cs \<le> 127)
      then bindE (instanceE en e) (\<lambda>i. retE (''zs-'' @ i @ ''-'' @ name))
      else throwE (OtherError ''Invalid sandbox name''))"

text \<open>\<open>/No such (container|object)/i.test(err.message)\<close>.\<close>

definition noSuch :: "string \<Rightarrow> err \<Rightarrow> bool" where
  "noSuch what err \<longleftrightarrow> (case err of SandboxError c r m \<Rightarrow>
       hasPart (map toLower m) (''no such '' @ what) \<or> hasPart (map toLower m) ''no such object'' | _ \<Rightarrow> False)"

definition inspect :: "dockerEngine \<Rightarrow> env \<Rightarrow> string \<Rightarrow> container option dockerAct" where
  "inspect en e name = catchE
     (bindE (containerName en e name) (\<lambda>cn. bindE (docker en (InspectContainer cn) []) (\<lambda>out.
        case dk_container en out of None \<Rightarrow> throwE (OtherError ''TypeError'')
        | Some info \<Rightarrow> bindE (instanceE en e) (\<lambda>i.
            if map_of (c_labels info) LABEL \<noteq> Some i then throwE (OtherError ''Container belongs to another instance'')
            else retE (Some info)))))
     (\<lambda>err. if noSuch ''container'' err then retE None else throwE err)"

section \<open>The handle\<close>

record dockerHandle =
  dh_name :: string
  dh_info :: container
  dh_deadline :: "int option"

definition dockerStatus :: "container \<Rightarrow> sandboxStatus" where
  "dockerStatus info = (if c_paused info then StSnapshotting else if c_running info then StRunning else StStopped)"

text \<open>A deadline no date can be made of is none.\<close>

definition newHandle :: "dockerEngine \<Rightarrow> string \<Rightarrow> container \<Rightarrow> dockerHandle" where
  "newHandle en name info = \<lparr>dh_name = name, dh_info = info, dh_deadline =
     (if dockerStatus info \<noteq> StRunning then None
      else case (dk_parseDate en (c_startedAt info), map_of (c_labels info) (LABEL @ ''.timeout'')) of
        (Some t, Some ms) \<Rightarrow> map_option (\<lambda>n. t + n) (readInt ms) | _ \<Rightarrow> None)\<rparr>"

definition readDeadline :: "dockerEngine \<Rightarrow> dockerHandle \<Rightarrow> dockerHandle dockerAct" where
  "readDeadline en h = (if dockerStatus (dh_info h) \<noteq> StRunning then retE h
     else catchE (bindE (docker en (ExecIn [] (c_id (dh_info h)) [''cat'', DEADLINE]) []) (\<lambda>out. case dk_seconds en out of
         Some t \<Rightarrow> retE (if t > 0 then h\<lparr>dh_deadline := Some t\<rparr> else h) | None \<Rightarrow> retE h))
       (\<lambda>_. retE h))"

definition sessionOf :: "dockerEngine \<Rightarrow> container \<Rightarrow> string option" where
  "sessionOf en info = (if dockerStatus info = StRunning then Some (take 24 (dk_sha256 en (c_id info @ c_startedAt info))) else None)"

definition dockerDomain :: "container \<Rightarrow> int \<Rightarrow> err + string" where
  "dockerDomain info port = (case map_of (c_ports info) (showInt port @ ''/tcp'') of
     None \<Rightarrow> Inl (OtherError ''not published'')
   | Some bindings \<Rightarrow> (case find (\<lambda>b. fst b = ''127.0.0.1'') bindings of
       None \<Rightarrow> Inl (OtherError ''not published'') | Some b \<Rightarrow> Inr (''http://127.0.0.1:'' @ snd b)))"

definition lowHex :: "char \<Rightarrow> bool" where
  "lowHex c \<longleftrightarrow> c \<in> set ''0123456789abcdef''"

definition isCommandId :: "string \<Rightarrow> bool" where
  "isCommandId s \<longleftrightarrow> length s = 61 \<and> list_all lowHex (take 24 s) \<and> s ! 24 = CHR ''-''
     \<and> list_all (\<lambda>c. lowHex c \<or> c = CHR ''-'') (drop 25 s)"

definition commandDir :: "string \<Rightarrow> string dockerAct" where
  "commandDir cmdId = (if isCommandId cmdId then retE (''/tmp/zs-exec/'' @ cmdId)
     else throwE (SandboxError Not_found False ''Unknown Docker command''))"

definition refresh :: "dockerEngine \<Rightarrow> env \<Rightarrow> bool \<Rightarrow> dockerHandle \<Rightarrow> dockerHandle dockerAct" where
  "refresh en e resumes h = bindE (inspect en e (dh_name h)) (\<lambda>found. case found of
     None \<Rightarrow> throwE (SandboxError Not_found False [])
   | Some info \<Rightarrow> if \<not> c_running info \<and> resumes
       then thenE (docker en (StartContainer (c_id info)) []) (bindE (inspect en e (dh_name h)) (\<lambda>again. case again of
         None \<Rightarrow> throwE (OtherError ''TypeError'') | Some info' \<Rightarrow> retE (h\<lparr>dh_info := info'\<rparr>)))
       else retE (h\<lparr>dh_info := info\<rparr>))"

record dockerInput = runInput +
  di_sudo :: bool
  di_timeoutMs :: "int option"

text \<open>\<open>String(ms / 1000)\<close> of a number of milliseconds.\<close>

definition showSeconds :: "int \<Rightarrow> string" where
  "showSeconds ms = showInt (ms div 1000) @ (if ms mod 1000 = 0 then [] else
     (let t = showInt (ms mod 1000) in ''.'' @ rev (dropWhile (\<lambda>c. c = CHR ''0'') (rev (replicate (3 - length t) CHR ''0'' @ t)))))"

text \<open>The environment of a command: the address of the control plane as a container sees it.\<close>

definition dockerValues :: "env \<Rightarrow> (string \<times> string) list \<Rightarrow> (string \<times> string) list" where
  "dockerValues e vs = map (\<lambda>(k, v). (k, if k = ''ZS_CONTROL_URL'' \<and> v \<noteq> [] then nullish (ZS_DOCKER_CONTROL_URL e) v else v)) vs"

definition envKeys :: "(string \<times> string) list \<Rightarrow> string list" where
  "envKeys vs = concat (map (\<lambda>kv. [''--env'', fst kv]) vs)"

definition runDetachedIn :: "dockerEngine \<Rightarrow> env \<Rightarrow> dockerHandle \<Rightarrow> dockerInput \<Rightarrow> (dockerHandle \<times> string) dockerAct" where
  "runDetachedIn en e h input = bindE (refresh en e False h) (\<lambda>h. case sessionOf en (dh_info h) of
     None \<Rightarrow> throwE (SandboxError Not_found False ''Sandbox is stopped'')
   | Some session \<Rightarrow> bindE (drawUuid en) (\<lambda>uuid.
       let cmdId = session @ ''-'' @ uuid; values = dockerValues e (ri_env input) in
       bindE (commandDir cmdId) (\<lambda>dir.
       thenE (docker en (ExecIn (''--detach'' # (if di_sudo input then [''--user'', ''root''] else [])
           @ (if truthy (ri_cwd input) then [''--workdir'', the (ri_cwd input)] else []) @ envKeys values) (c_id (dh_info h))
           ([''python3'', ''-c'', dk_script en RUNNER, dir, showSeconds (nullish (di_timeoutMs input) 0), ri_cmd input] @ ri_args input)) values)
       (retE (h, cmdId)))))"

text \<open>\<open>CommandStatus\<close>: an exit code, or none while the command runs.\<close>

definition commandStatus :: "dockerEngine \<Rightarrow> env \<Rightarrow> dockerHandle \<Rightarrow> string \<Rightarrow> (dockerHandle \<times> int option) dockerAct" where
  "commandStatus en e h cmdId = bindE (refresh en e False h) (\<lambda>h.
     if (case sessionOf en (dh_info h) of None \<Rightarrow> True | Some session \<Rightarrow> \<not> prefix (session @ ''-'') cmdId) then retE (h, Some 137)
     else bindE (commandDir cmdId) (\<lambda>dir.
       bindE (docker en (ExecIn [] (c_id (dh_info h)) [''python3'', ''-c'', dk_script en EXIT_OF, dir]) []) (\<lambda>out.
       retE (h, if trimBoth out = ''running'' then None else Some (dk_number en out)))))"

definition dockerWaitRound ::
  "dockerEngine \<Rightarrow> env \<Rightarrow> string \<Rightarrow> int \<Rightarrow> dockerHandle \<Rightarrow> ((dockerHandle \<times> int) + dockerHandle) dockerAct" where
  "dockerWaitRound en e cmdId deadline h = bindE (commandStatus en e h cmdId) (\<lambda>(h, code). case code of
     Some c \<Rightarrow> retE (Inl (h, c))
   | None \<Rightarrow> bindE (getE ds_now) (\<lambda>t. thenE (delayD (min 200 (max 1 (deadline - t))))
       (bindE (getE ds_now) (\<lambda>t'. if t' < deadline then retE (Inr h)
         else throwE (SandboxError Unknown_code False ''Docker command wait timed out'')))))"

definition waitCommandIn :: "dockerEngine \<Rightarrow> env \<Rightarrow> dockerHandle \<Rightarrow> string \<Rightarrow> int \<Rightarrow> (dockerHandle \<times> int) dockerAct" where
  "waitCommandIn en e h cmdId timeoutMs = bindE (getE ds_now) (\<lambda>t0.
     iterE (OtherError ''no rounds left'') (Suc (nat timeoutMs)) (dockerWaitRound en e cmdId (t0 + timeoutMs)) h)"

definition runIn :: "dockerEngine \<Rightarrow> env \<Rightarrow> dockerHandle \<Rightarrow> dockerInput \<Rightarrow> (dockerHandle \<times> int \<times> string \<times> string) dockerAct" where
  "runIn en e h input = (let ms = nullish (di_timeoutMs input) 60000 in
     bindE (runDetachedIn en e h (input\<lparr>di_timeoutMs := Some ms\<rparr>)) (\<lambda>(h, cmdId).
     bindE (waitCommandIn en e h cmdId (ms + 10000)) (\<lambda>(h, code).
     bindE (commandDir cmdId) (\<lambda>dir.
     let output = (\<lambda>f. docker en (ExecIn [''--user'', ''root''] (c_id (dh_info h)) [''cat'', dir @ ''/'' @ f]) []) in
     bindE (output ''stdout'') (\<lambda>out. bindE (output ''stderr'') (\<lambda>err. retE (h, code, out, err)))))))"

definition killCommandIn :: "dockerEngine \<Rightarrow> env \<Rightarrow> dockerHandle \<Rightarrow> string \<Rightarrow> string \<Rightarrow> dockerHandle dockerAct" where
  "killCommandIn en e h cmdId signal = bindE (commandStatus en e h cmdId) (\<lambda>(h, code).
     if code \<noteq> None then retE h
     else bindE (commandDir cmdId) (\<lambda>dir.
       thenE (docker en (ExecIn [''--user'', ''root''] (c_id (dh_info h)) [''python3'', ''-c'', dk_script en KILL_GROUP, dir, signal]) []) (retE h)))"

definition extendTimeoutIn :: "dockerEngine \<Rightarrow> env \<Rightarrow> dockerHandle \<Rightarrow> int \<Rightarrow> dockerHandle dockerAct" where
  "extendTimeoutIn en e h ms = bindE (refresh en e False h) (\<lambda>h. bindE (getE ds_now) (\<lambda>t.
     thenE (docker en (ExecIn [] (c_id (dh_info h)) [''python3'', ''-c'', dk_script en SET_DEADLINE, showSeconds (t + ms)]) [])
     (retE (h\<lparr>dh_deadline := Some (t + ms)\<rparr>))))"

definition stopIn :: "dockerEngine \<Rightarrow> env \<Rightarrow> dockerHandle \<Rightarrow> dockerHandle dockerAct" where
  "stopIn en e h = bindE (refresh en e False h) (\<lambda>h.
     thenE (whenE (dockerStatus (dh_info h) = StRunning) (thenE (docker en (StopContainer (c_id (dh_info h))) []) (retE ())))
     (bindE (refresh en e False h) (\<lambda>h. retE (h\<lparr>dh_deadline := None\<rparr>))))"

definition snapshotIn :: "dockerEngine \<Rightarrow> env \<Rightarrow> dockerHandle \<Rightarrow> int \<Rightarrow> (dockerHandle \<times> string \<times> int) dockerAct" where
  "snapshotIn en e h expirationMs = bindE (refresh en e True h) (\<lambda>h. bindE (instanceE en e) (\<lambda>i. bindE (drawUuid en) (\<lambda>uuid.
     bindE (getE ds_now) (\<lambda>t.
     let snapshotId = ''zedspaces-snapshot-'' @ i @ '':'' @ uuid; expires = (if expirationMs \<noteq> 0 then t + expirationMs else 0) in
     thenE (docker en (CommitContainer [(LABEL, i), (LABEL @ ''.sandbox'', dh_name h), (LABEL @ ''.expires'', showInt expires)]
       (c_id (dh_info h)) snapshotId) [])
     (bindE (docker en (InspectImage [''--format'', ''{{.Size}}''] snapshotId) []) (\<lambda>out. retE (h, snapshotId, dk_number en out)))))))"

text \<open>The stream of a file is its whole text; a failure of the stream is one of the call.\<close>

definition readFileIn :: "dockerEngine \<Rightarrow> env \<Rightarrow> dockerHandle \<Rightarrow> string \<Rightarrow> (dockerHandle \<times> string option) dockerAct" where
  "readFileIn en e h file = bindE (refresh en e True h) (\<lambda>h.
     bindE (runIn en e h \<lparr>ri_cmd = ''test'', ri_args = [''-f'', file], ri_env = [], ri_cwd = None, di_sudo = False, di_timeoutMs = None\<rparr>)
     (\<lambda>(h, code, _). if code \<noteq> 0 then retE (h, None)
       else bindE (docker en (ExecIn [] (c_id (dh_info h)) [''cat'', ''--'', file]) []) (\<lambda>out. retE (h, Some out))))"

definition deleteIn :: "dockerEngine \<Rightarrow> env \<Rightarrow> string \<Rightarrow> unit dockerAct" where
  "deleteIn en e name = bindE (inspect en e name) (\<lambda>info. case info of None \<Rightarrow> retE ()
     | Some c \<Rightarrow> thenE (docker en (RemoveContainer (c_id c)) []) (retE ()))"

definition linesOf :: "string \<Rightarrow> string list" where
  "linesOf out = splitOn CHR 0x0A (trimBoth out)"

definition labelFilter :: "string \<times> string \<Rightarrow> string list" where
  "labelFilter kv = [''--filter'', ''label='' @ labelText kv]"

definition listSnapshotIdsIn :: "dockerEngine \<Rightarrow> env \<Rightarrow> string \<Rightarrow> string list dockerAct" where
  "listSnapshotIdsIn en e name = bindE (instanceE en e) (\<lambda>i.
     bindE (docker en (ListImages (labelFilter (LABEL, i) @ labelFilter (LABEL @ ''.sandbox'', name)
       @ [''--format'', ''{{.Repository}}:{{.Tag}}''])) []) (\<lambda>out.
     retE (filter (prefix (''zedspaces-snapshot-'' @ i @ '':'')) (linesOf out))))"

section \<open>The api\<close>

definition isSnapshotOf :: "string \<Rightarrow> string \<Rightarrow> bool" where
  "isSnapshotOf i s \<longleftrightarrow> (let p = ''zedspaces-snapshot-'' @ i @ '':'' in
     prefix p s \<and> length s = length p + 36 \<and> list_all (\<lambda>c. lowHex c \<or> c = CHR ''-'') (drop (length p) s))"

definition snapshotInfo :: "dockerEngine \<Rightarrow> env \<Rightarrow> string \<Rightarrow> (string \<times> string) list option dockerAct" where
  "snapshotInfo en e i = bindE (instanceE en e) (\<lambda>inst.
     if \<not> isSnapshotOf inst i then throwE (SandboxError Not_found False ''Snapshot belongs to another instance'')
     else catchE (bindE (docker en (InspectImage [] i) []) (\<lambda>out. case dk_imageLabels en out of
         None \<Rightarrow> throwE (OtherError ''TypeError'')
       | Some labels \<Rightarrow> if map_of labels LABEL \<noteq> Some inst then throwE (OtherError ''Snapshot belongs to another instance'')
           else retE (Some labels)))
       (\<lambda>err. if noSuch ''image'' err then retE None else throwE err))"

definition getIn ::
  "dockerEngine \<Rightarrow> env \<Rightarrow> string \<Rightarrow> bool \<Rightarrow> (dockerHandle \<Rightarrow> unit dockerAct) \<Rightarrow> dockerHandle option dockerAct" where
  "getIn en e name resumes onResume = bindE (inspect en e name) (\<lambda>found. case found of None \<Rightarrow> retE None
     | Some info \<Rightarrow> let resumed = \<not> c_running info \<and> resumes in
         bindE (if resumed then thenE (docker en (StartContainer (c_id info)) []) (bindE (inspect en e name) (\<lambda>again. case again of
             None \<Rightarrow> throwE (OtherError ''TypeError'') | Some info' \<Rightarrow> retE info')) else retE info) (\<lambda>info.
         bindE (readDeadline en (newHandle en name info)) (\<lambda>h.
         thenE (whenE resumed (onResume h)) (retE (Some h)))))"

text \<open>Another creation of the same name may have reserved it before its container can be seen.\<close>

definition awaitOther :: "dockerEngine \<Rightarrow> env \<Rightarrow> string \<Rightarrow> err \<Rightarrow> int \<Rightarrow> unit option dockerAct" where
  "awaitOther en e name err deadline = bindE (inspect en e name) (\<lambda>found. if found \<noteq> None then retE (Some ())
     else bindE (getE ds_now) (\<lambda>t. if t \<ge> deadline then throwE err else thenE (delayD 100) (retE None)))"

definition nameInUse :: "err \<Rightarrow> bool" where
  "nameInUse err \<longleftrightarrow> (case err of SandboxError c r m \<Rightarrow> hasPart m ''already in use by container'' | _ \<Rightarrow> False)"

definition assertSource :: "dockerEngine \<Rightarrow> env \<Rightarrow> string option \<Rightarrow> unit dockerAct" where
  "assertSource en e source = (case source of None \<Rightarrow> retE () | Some i \<Rightarrow> bindE (snapshotInfo en e i) (\<lambda>saved. bindE (getE ds_now) (\<lambda>t.
     let expires = (case saved of None \<Rightarrow> None | Some ls \<Rightarrow> (case map_of ls (LABEL @ ''.expires'') of None \<Rightarrow> None | Some x \<Rightarrow> readInt x)) in
     whenE (saved = None \<or> nullish expires 0 \<noteq> 0 \<and> nullish expires 0 < t) (throwE (SandboxError Snapshot_expired False [])))))"

definition createIn :: "dockerEngine \<Rightarrow> env \<Rightarrow> createSandboxInput \<Rightarrow> string option \<Rightarrow> dockerHandle option dockerAct" where
  "createIn en e input source = (let noHook = (\<lambda>_. retE ()) in
     bindE (getIn en e (ci_name input) True noHook) (\<lambda>existing. if existing \<noteq> None then retE existing
     else if ci_networkPolicy input \<noteq> ''allow-all'' then throwE (SandboxError Unknown_code False ''no domain allowlists'')
     else thenE (assertSource en e source)
     (let img = nullish source (ci_image input) in
      if img = [] then throwE (SandboxError Image_not_ready False ''A Docker workspace image is required'')
      else bindE (containerName en e (ci_name input)) (\<lambda>cn. bindE (instanceE en e) (\<lambda>i.
        let labels = [(LABEL, i), (LABEL @ ''.name'', ci_name input), (LABEL @ ''.region'', regionText (ci_region input)),
            (LABEL @ ''.timeout'', showInt (ci_timeoutMs input))] @ map (\<lambda>(k, v). (LABEL @ ''.tag.'' @ k, v)) (ci_tags input);
          values = spread (ci_env input) [(''ZS_INSECURE_COOKIES'', ''1''), (''ZS_DOCKER_TIMEOUT'', showSeconds (ci_timeoutMs input))];
          command = CreateContainer cn [''--platform'', ''linux/amd64'', ''--init'', ''--cpus'', showInt (ci_vcpus input), ''--memory'',
              showInt (ci_vcpus input * 2) @ ''g'', ''--pids-limit'', ''4096'', ''--add-host'', ''host.docker.internal:host-gateway'',
              ''--entrypoint'', ''python3''] labels
            (concat (map (\<lambda>p. [''--publish'', ''127.0.0.1::'' @ showInt p]) (ci_ports input)) @ envKeys values) img
            [''-c'', dk_script en KEEPALIVE] in
        thenE (catchE (thenE (docker en command values) (retE ())) (\<lambda>err. bindE (getE ds_now) (\<lambda>t.
          let patience = (if nameInUse err then 10000 else 0) in
          roundsE (OtherError ''no rounds left'') (loopFuel patience 100) (awaitOther en e (ci_name input) err (t + patience)))))
        (getIn en e (ci_name input) True noHook))))))"

definition listByTagIn :: "dockerEngine \<Rightarrow> env \<Rightarrow> (string \<times> string) list \<Rightarrow> (string \<times> sandboxStatus \<times> int) list dockerAct" where
  "listByTagIn en e tags = bindE (instanceE en e) (\<lambda>i.
     bindE (docker en (ListContainers (labelFilter (LABEL, i) @ [''--format'', ''{{.Label \"'' @ LABEL @ ''.name\"}}'']
       @ concat (map (\<lambda>(k, v). labelFilter (LABEL @ ''.tag.'' @ k, v)) tags))) []) (\<lambda>out.
     foldr (\<lambda>name rest. bindE (inspect en e name) (\<lambda>found. bindE rest (\<lambda>xs. retE (case found of None \<Rightarrow> xs
       | Some info \<Rightarrow> (name, if c_running info then StRunning else StStopped, c_created info) # xs))))
       (filter (\<lambda>n. n \<noteq> []) (linesOf out)) (retE [])))"

definition deleteSnapshotIn :: "dockerEngine \<Rightarrow> env \<Rightarrow> string \<Rightarrow> unit dockerAct" where
  "deleteSnapshotIn en e i = bindE (snapshotInfo en e i) (\<lambda>found.
     whenE (found \<noteq> None) (thenE (docker en (RemoveImage i) []) (retE ())))"

section \<open>Lemmas\<close>

subsection \<open>What a command is about\<close>

text \<open>
  \<open>owns\<close>: the engine has shown a container with this id and the label of this instance; \<open>ownsImage\<close> the same of
  an image. \<open>allowed\<close> is what may be asked after a log: to change only what is owned, and to make only what
  carries the label.
\<close>

definition owns :: "dockerEngine \<Rightarrow> string \<Rightarrow> dockerLog \<Rightarrow> string \<Rightarrow> bool" where
  "owns en i log cid \<longleftrightarrow> (\<exists>name vs out info. (InspectContainer name, vs, Inr out) \<in> set log
     \<and> dk_container en out = Some info \<and> map_of (c_labels info) LABEL = Some i \<and> c_id info = cid)"

definition ownsImage :: "dockerEngine \<Rightarrow> string \<Rightarrow> dockerLog \<Rightarrow> string \<Rightarrow> bool" where
  "ownsImage en i log img \<longleftrightarrow> isSnapshotOf i img \<and> (\<exists>vs out ls. (InspectImage [] img, vs, Inr out) \<in> set log
     \<and> dk_imageLabels en out = Some ls \<and> map_of ls LABEL = Some i)"

fun allowed :: "dockerEngine \<Rightarrow> string \<Rightarrow> dockerLog \<Rightarrow> dockerCommand \<Rightarrow> bool" where
  "allowed en i log (StartContainer cid) = owns en i log cid"
| "allowed en i log (StopContainer cid) = owns en i log cid"
| "allowed en i log (RemoveContainer cid) = owns en i log cid"
| "allowed en i log (ExecIn opts cid line) = owns en i log cid"
| "allowed en i log (CommitContainer labels cid img) = (owns en i log cid \<and> map_of labels LABEL = Some i)"
| "allowed en i log (RemoveImage img) = ownsImage en i log img"
| "allowed en i log (CreateContainer name opts labels post img line) =
     (prefix (''zs-'' @ i @ ''-'') name \<and> map_of labels LABEL = Some i)"
| "allowed en i log c = True"

definition confined :: "dockerEngine \<Rightarrow> string \<Rightarrow> dockerLog \<Rightarrow> bool" where
  "confined en i log \<longleftrightarrow> (\<forall>pre e post. log = pre @ e # post \<longrightarrow> allowed en i pre (fst e))"

lemma confined_Nil: "confined en i []"
  by (simp add: confined_def)

lemma confined_snoc: "confined en i (log @ [e]) \<longleftrightarrow> confined en i log \<and> allowed en i log (fst e)"
proof
  assume c: "confined en i (log @ [e])"
  then have "allowed en i log (fst e)" unfolding confined_def by blast
  moreover have "allowed en i pre (fst e')" if "log = pre @ e' # post" for pre e' post
    using c that unfolding confined_def by (metis append_Cons append_assoc)
  ultimately show "confined en i log \<and> allowed en i log (fst e)" by (simp add: confined_def)
next
  assume c: "confined en i log \<and> allowed en i log (fst e)"
  have "allowed en i pre (fst e')" if split: "log @ [e] = pre @ e' # post" for pre e' post
  proof (cases post rule: rev_cases)
    case Nil
    then show ?thesis using split c by simp
  next
    case (snoc post' x)
    then have "log = pre @ e' # post'" using split by simp
    then show ?thesis using c unfolding confined_def by blast
  qed
  then show "confined en i (log @ [e])" unfolding confined_def by blast
qed

lemma owns_snoc: "owns en i log cid \<Longrightarrow> owns en i (log @ [e]) cid"
proof -
  assume "owns en i log cid"
  moreover have "set log \<subseteq> set (log @ [e])" by auto
  ultimately show ?thesis unfolding owns_def by blast
qed

subsection \<open>Every operation stays confined\<close>

text \<open>
  An action that knows the containers \<open>K\<close> is safe when it stays confined, whether it returns or throws, and
  goes on knowing \<open>K\<close> and what its result names.
\<close>

definition knows :: "dockerEngine \<Rightarrow> string \<Rightarrow> string list \<Rightarrow> dockerState \<Rightarrow> bool" where
  "knows en i K s \<longleftrightarrow> confined en i (ds_log s) \<and> (\<forall>k \<in> set K. owns en i (ds_log s) k)"

definition safe :: "dockerEngine \<Rightarrow> string \<Rightarrow> string list \<Rightarrow> 'a dockerAct \<Rightarrow> ('a \<Rightarrow> string list) \<Rightarrow> bool" where
  "safe en i K m out \<longleftrightarrow> (\<forall>s. knows en i K s \<longrightarrow> wp m (\<lambda>r. knows en i (K @ out r)) (\<lambda>_. knows en i K) s)"

lemma knows_mono: "knows en i K s \<Longrightarrow> set K' \<subseteq> set K \<Longrightarrow> knows en i K' s"
  by (auto simp: knows_def)

lemma knows_log: "ds_log s' = ds_log s \<Longrightarrow> knows en i K s' = knows en i K s"
  by (simp add: knows_def)

lemma safeD: "safe en i K m out \<Longrightarrow> knows en i K s \<Longrightarrow> wp m (\<lambda>r. knows en i (K @ out r)) (\<lambda>_. knows en i K) s"
  by (simp add: safe_def)

lemma safe_ret: "set (out x) \<subseteq> set K \<Longrightarrow> safe en i K (retE x) out"
  by (auto simp: safe_def wp_simps knows_def)

lemma safe_unit: "safe en i K (retE ()) (\<lambda>_. [])"
  by (simp add: safe_ret)

lemma safe_throw: "safe en i K (throwE x) out"
  and safe_get: "safe en i K (getE f) (\<lambda>_. [])"
  and safe_mod: "(\<And>s. ds_log (g s) = ds_log s) \<Longrightarrow> safe en i K (modE g) (\<lambda>_. [])"
  and safe_uuid: "safe en i K (drawUuid en) (\<lambda>_. [])"
  by (auto simp: safe_def wp_simps knows_def) (simp add: wp_def drawUuid_def knows_def)

lemma safe_bind:
  assumes "safe en i K m out" and "\<And>a. safe en i (K @ out a) (k a) out'"
  shows "safe en i K (bindE m k) out'"
proof -
  have rest: "wp (k a) (\<lambda>r. knows en i (K @ out' r)) (\<lambda>_. knows en i K) s" if "knows en i (K @ out a) s" for a s
    by (rule wp_mono [OF safeD [OF assms(2) that]]) (erule knows_mono, auto)+
  show ?thesis
    unfolding safe_def wp_bind by (intro allI impI, rule wp_mono [OF safeD [OF assms(1)]], assumption) (rule rest)
qed

lemma safe_then: "safe en i K m out \<Longrightarrow> (\<And>a. safe en i (K @ out a) k out') \<Longrightarrow> safe en i K (thenE m k) out'"
  unfolding thenE_def by (rule safe_bind)

lemma safe_catch: "safe en i K m out \<Longrightarrow> (\<And>x. safe en i K (h x) out) \<Longrightarrow> safe en i K (catchE m h) out"
  unfolding safe_def wp_catch by (blast intro: wp_mono)

lemma safe_if: "(b \<Longrightarrow> safe en i K m out) \<Longrightarrow> (\<not> b \<Longrightarrow> safe en i K n out) \<Longrightarrow> safe en i K (if b then m else n) out"
  by simp

lemma safe_when: "(b \<Longrightarrow> safe en i K m (\<lambda>_. [])) \<Longrightarrow> safe en i K (whenE b m) (\<lambda>_. [])"
  by (simp add: whenE_def safe_ret)

lemma safe_option: "safe en i K a out \<Longrightarrow> (\<And>y. x = Some y \<Longrightarrow> safe en i K (b y) out) \<Longrightarrow>
    safe en i K (case x of None \<Rightarrow> a | Some y \<Rightarrow> b y) out"
  by (cases x) auto

lemma safe_prod: "(\<And>a b. x = (a, b) \<Longrightarrow> safe en i K (f a b) out) \<Longrightarrow> safe en i K (case x of (a, b) \<Rightarrow> f a b) out"
  by (cases x) auto

lemma safe_iterE:
  assumes "\<And>t. safe en i K (body t) (\<lambda>r. case r of Inl x \<Rightarrow> out x | Inr _ \<Rightarrow> [])"
  shows "safe en i K (iterE err n body t) out"
proof (induction n arbitrary: t)
  case 0
  then show ?case by (simp add: safe_throw)
next
  case (Suc n)
  have "safe en i (K @ []) (iterE err n body t') out" for t' using Suc by simp
  then show ?case
    unfolding iterE.simps by (rule_tac safe_bind [OF assms]) (auto intro: safe_ret split: sum.split)
qed

lemma safe_roundsE:
  assumes "safe en i K body (\<lambda>_. [])"
  shows "safe en i K (roundsE err n body) (\<lambda>_. [])"
proof (induction n)
  case 0
  then show ?case by (simp add: safe_throw)
next
  case (Suc n)
  then show ?case
    unfolding roundsE.simps by (rule_tac safe_bind [OF assms]) (auto intro: safe_ret split: option.split)
qed

text \<open>A command that is allowed wherever \<open>K\<close> is owned.\<close>

lemma wp_docker: "wp (docker en c vs) Q E s =
    (let a = dk_answer en (ds_calls s) (render c) vs;
       s' = s\<lparr>ds_calls := Suc (ds_calls s), ds_now := ds_now s + int (dk_elapsed en (ds_calls s)), ds_log := ds_log s @ [(c, vs, a)]\<rparr> in
     case a of Inl m \<Rightarrow> E (SandboxError Unknown_code True (''Docker: '' @ take 1200 m)) s' | Inr out \<Rightarrow> Q out s')"
  by (simp add: wp_def docker_def Let_def split: sum.split)

lemma knows_snoc:
  assumes "knows en i K s" and "ds_log s' = ds_log s @ [x]" and "allowed en i (ds_log s) (fst x)"
  shows "knows en i K s'"
  using assms by (auto simp: knows_def confined_snoc intro: owns_snoc)

lemma safe_docker:
  assumes "\<And>log. (\<And>k. k \<in> set K \<Longrightarrow> owns en i log k) \<Longrightarrow> allowed en i log c"
  shows "safe en i K (docker en c vs) (\<lambda>_. [])"
proof -
  have "knows en i K s'" if "knows en i K s" "ds_log s' = ds_log s @ [(c, vs, a)]" for s s' a
  proof -
    have "allowed en i (ds_log s) c" using that(1) by (intro assms) (simp add: knows_def)
    with knows_snoc [OF that] show ?thesis by simp
  qed
  then show ?thesis
    unfolding safe_def wp_docker Let_def by (auto split: sum.split)
qed

lemma safe_owned:
  assumes "cid \<in> set K"
  shows "safe en i K (docker en (StartContainer cid) vs) (\<lambda>_. [])"
    and "safe en i K (docker en (StopContainer cid) vs) (\<lambda>_. [])"
    and "safe en i K (docker en (RemoveContainer cid) vs) (\<lambda>_. [])"
    and "safe en i K (docker en (ExecIn opts cid line) vs) (\<lambda>_. [])"
  by (rule safe_docker, simp add: assms)+

lemma safe_commit: "cid \<in> set K \<Longrightarrow> map_of labels LABEL = Some i \<Longrightarrow> safe en i K (docker en (CommitContainer labels cid img) vs) (\<lambda>_. [])"
  and safe_createContainer: "prefix (''zs-'' @ i @ ''-'') name \<Longrightarrow> map_of labels LABEL = Some i \<Longrightarrow>
    safe en i K (docker en (CreateContainer name opts labels post img line) vs) (\<lambda>_. [])"
  by (rule safe_docker, simp)+

lemma safe_query:
  assumes "\<And>log. allowed en i log c"
  shows "safe en i K (docker en c vs) (\<lambda>_. [])"
  by (rule safe_docker) (rule assms)

lemma bind_ret: "bindE (retE x) k = k x"
  by (simp add: bindE_def retE_def)

lemma bind_instance: "instanceOf en e = Inr i \<Longrightarrow> bindE (instanceE en e) k = k i"
  by (simp add: instanceE_def bind_ret)

lemma containerName_prefix:
  assumes "instanceOf en e = Inr i" and "\<And>cn. prefix (''zs-'' @ i @ ''-'') cn \<Longrightarrow> safe en i K (k cn) out"
  shows "safe en i K (bindE (containerName en e name) k) out"
proof -
  have throw: "bindE (throwE x) k = throwE x" for x and k :: "string \<Rightarrow> 'a dockerAct" by (simp add: bindE_def throwE_def)
  have "prefix (''zs-'' @ i @ ''-'') (''zs-'' @ i @ ''-'' @ name)" by (simp add: prefix_def)
  from assms(2) [OF this] show ?thesis
    by (simp add: containerName_def bind_instance [OF assms(1)] bind_ret throw safe_throw)
qed

text \<open>What \<open>inspect\<close> answers is owned.\<close>

lemma safe_inspect:
  assumes "instanceOf en e = Inr i"
  shows "safe en i K (inspect en e name) (\<lambda>r. case r of None \<Rightarrow> [] | Some info \<Rightarrow> [c_id info])"
proof -
  have call: "wp (docker en (InspectContainer cn) [])
      (\<lambda>out s'. knows en i K s' \<and> (\<forall>info. dk_container en out = Some info \<longrightarrow> map_of (c_labels info) LABEL = Some i
         \<longrightarrow> owns en i (ds_log s') (c_id info)))
      (\<lambda>_. knows en i K) s" if "knows en i K s" for s cn
    unfolding wp_docker Let_def using that
    by (auto split: sum.split intro!: knows_snoc [OF that]) (auto simp: owns_def)
  have "safe en i K (bindE (docker en (InspectContainer cn) []) (\<lambda>out.
        case dk_container en out of None \<Rightarrow> throwE (OtherError ''TypeError'')
        | Some info \<Rightarrow> bindE (instanceE en e) (\<lambda>i.
            if map_of (c_labels info) LABEL \<noteq> Some i then throwE (OtherError ''Container belongs to another instance'')
            else retE (Some info)))) (\<lambda>r. case r of None \<Rightarrow> [] | Some info \<Rightarrow> [c_id info])" for cn
    unfolding safe_def wp_bind [of "docker en c vs" for c vs]
    by (intro allI impI, rule wp_mono [OF call])
      (auto simp: wp_simps instanceE_def assms knows_def split: option.split)
  then show ?thesis
    unfolding inspect_def by (intro safe_catch containerName_prefix [OF assms] safe_if safe_ret safe_throw) simp_all
qed

lemma safe_Let: "safe en i K (f x) out \<Longrightarrow> safe en i K (Let x f) out"
  by simp

lemma safe_commandDir: "safe en i K (commandDir cmdId) (\<lambda>_. [])"
  unfolding commandDir_def by (intro safe_if safe_ret safe_throw) simp

lemma safe_delay: "safe en i K (delayD ms) (\<lambda>_. [])"
  unfolding delayD_def by (rule safe_mod) simp

abbreviation idOf :: "dockerHandle \<Rightarrow> string list" where
  "idOf h \<equiv> [c_id (dh_info h)]"

lemmas safe_shape = safe_unit safe_then safe_throw safe_get safe_uuid safe_commandDir safe_delay safe_ret safe_owned
  safe_bind safe_if safe_option safe_prod safe_when safe_Let

lemma safe_refresh:
  assumes "instanceOf en e = Inr i"
  shows "safe en i K (refresh en e b h) idOf"
  unfolding refresh_def
  by (rule safe_shape assms safe_inspect | simp)+

lemma safe_runDetached:
  assumes "instanceOf en e = Inr i"
  shows "safe en i K (runDetachedIn en e h input) (\<lambda>(h, _). idOf h)"
  unfolding runDetachedIn_def
  by (rule safe_shape assms safe_refresh | simp)+

lemma safe_commandStatus:
  assumes "instanceOf en e = Inr i"
  shows "safe en i K (commandStatus en e h cmdId) (\<lambda>(h, _). idOf h)"
  unfolding commandStatus_def
  by (rule safe_shape assms safe_refresh safe_query | simp)+

lemma safe_waitCommand:
  assumes "instanceOf en e = Inr i"
  shows "safe en i K (waitCommandIn en e h cmdId ms) (\<lambda>(h, _). idOf h)"
  unfolding waitCommandIn_def dockerWaitRound_def
  by (rule safe_shape assms safe_iterE safe_commandStatus | simp)+

lemma safe_run:
  assumes "instanceOf en e = Inr i"
  shows "safe en i K (runIn en e h input) (\<lambda>(h, _). idOf h)"
  unfolding runIn_def
  by (rule safe_shape assms safe_runDetached safe_waitCommand | simp)+

lemma safe_killCommand:
  assumes "instanceOf en e = Inr i"
  shows "safe en i K (killCommandIn en e h cmdId signal) idOf"
  unfolding killCommandIn_def
  by (rule safe_shape assms safe_commandStatus | simp)+

lemma safe_extendTimeout:
  assumes "instanceOf en e = Inr i"
  shows "safe en i K (extendTimeoutIn en e h ms) idOf"
  unfolding extendTimeoutIn_def
  by (rule safe_shape assms safe_refresh | simp)+

lemma safe_stop:
  assumes "instanceOf en e = Inr i"
  shows "safe en i K (stopIn en e h) idOf"
  unfolding stopIn_def
  by (rule safe_shape assms safe_refresh | simp)+

lemma safe_snapshot:
  assumes "instanceOf en e = Inr i"
  shows "safe en i K (snapshotIn en e h ms) (\<lambda>(h, _). idOf h)"
  unfolding snapshotIn_def bind_instance [OF assms]
  by (rule safe_shape assms safe_refresh safe_commit safe_query | simp)+

lemma safe_readFile:
  assumes "instanceOf en e = Inr i"
  shows "safe en i K (readFileIn en e h file) (\<lambda>(h, _). idOf h)"
  unfolding readFileIn_def
  by (rule safe_shape assms safe_refresh safe_run | simp)+

lemma safe_delete:
  assumes "instanceOf en e = Inr i"
  shows "safe en i K (deleteIn en e name) (\<lambda>_. [])"
  unfolding deleteIn_def
  by (rule safe_shape assms safe_inspect | simp)+

lemma safe_readDeadline:
  assumes "c_id (dh_info h) \<in> set K"
  shows "safe en i K (readDeadline en h) idOf"
  unfolding readDeadline_def
  by (rule safe_shape safe_catch | simp add: assms)+

lemma safe_getIn:
  assumes "instanceOf en e = Inr i" and "\<And>K h. safe en i K (onResume h) (\<lambda>_. [])"
  shows "safe en i K (getIn en e name resumes onResume) (\<lambda>h. case h of None \<Rightarrow> [] | Some h \<Rightarrow> idOf h)"
proof -
  have found: "safe en i K (if b then thenE (docker en (StartContainer (c_id info)) [])
      (bindE (inspect en e name) (\<lambda>again. case again of None \<Rightarrow> throwE (OtherError ''TypeError'') | Some info' \<Rightarrow> retE info'))
      else retE info) (\<lambda>info. [c_id info])" if "c_id info \<in> set K" for b info K
    by (rule safe_shape safe_inspect assms(1) | simp add: that)+
  have rest: "safe en i K (bindE (readDeadline en (newHandle en name info)) (\<lambda>h. thenE (whenE b (onResume h)) (retE (Some h))))
      (\<lambda>h. case h of None \<Rightarrow> [] | Some h \<Rightarrow> idOf h)" if "c_id info \<in> set K" for b info K
    by (rule safe_bind [OF safe_readDeadline]) (simp add: newHandle_def that, (rule safe_then safe_when assms(2) safe_ret | simp)+)
  show ?thesis
    unfolding getIn_def Let_def
    by (rule safe_bind [OF safe_inspect [OF assms(1)]], rule safe_option, rule safe_ret, simp, hypsubst,
        rule safe_bind [OF found], simp, rule rest, simp)
qed

lemma safe_snapshotInfo:
  assumes "instanceOf en e = Inr i"
  shows "safe en i K (snapshotInfo en e img) (\<lambda>_. [])"
  unfolding snapshotInfo_def bind_instance [OF assms]
  by (rule safe_shape assms safe_catch safe_query | simp)+

lemma safe_awaitOther:
  assumes "instanceOf en e = Inr i"
  shows "safe en i K (awaitOther en e name err t) (\<lambda>_. [])"
  unfolding awaitOther_def
  by (rule safe_shape assms safe_inspect | simp)+

lemma safe_assertSource:
  assumes "instanceOf en e = Inr i"
  shows "safe en i K (assertSource en e source) (\<lambda>_. [])"
  unfolding assertSource_def
  by (cases source) (simp add: safe_unit, simp, (rule safe_shape safe_snapshotInfo assms)+)

lemma safe_createIn:
  assumes "instanceOf en e = Inr i"
  shows "safe en i K (createIn en e input source) (\<lambda>h. case h of None \<Rightarrow> [] | Some h \<Rightarrow> idOf h)"
proof -
  have hook: "safe en i K (retE ()) (\<lambda>_. [])" for K by (simp add: safe_ret)
  note get = safe_getIn [OF assms hook]
  show ?thesis
    unfolding createIn_def Let_def bind_instance [OF assms]
    by (rule get containerName_prefix [OF assms] safe_createContainer safe_assertSource safe_catch safe_roundsE safe_awaitOther
        safe_shape assms | assumption | simp)+
qed

lemma safe_listByTag:
  assumes "instanceOf en e = Inr i"
  shows "safe en i K (listByTagIn en e tags) (\<lambda>_. [])"
proof -
  have each: "safe en i K (foldr (\<lambda>name rest. bindE (inspect en e name) (\<lambda>found. bindE rest (\<lambda>xs. retE (case found of None \<Rightarrow> xs
       | Some info \<Rightarrow> (name, if c_running info then StRunning else StStopped, c_created info) # xs)))) names (retE [])) (\<lambda>_. [])" for names K
    by (induction names arbitrary: K) (auto intro!: safe_bind [OF safe_inspect [OF assms]] safe_bind safe_ret)
  show ?thesis
    unfolding listByTagIn_def bind_instance [OF assms]
    by (rule safe_bind [OF safe_query], simp, simp add: each)
qed

lemma safe_listSnapshotIds:
  assumes "instanceOf en e = Inr i"
  shows "safe en i K (listSnapshotIdsIn en e name) (\<lambda>_. [])"
  unfolding listSnapshotIdsIn_def bind_instance [OF assms]
  by (rule safe_shape assms safe_query | simp)+

text \<open>Only an image that was shown to carry the label is removed.\<close>

lemma safe_deleteSnapshot:
  assumes "instanceOf en e = Inr i"
  shows "safe en i K (deleteSnapshotIn en e img) (\<lambda>_. [])"
proof -
  have info: "wp (snapshotInfo en e img) (\<lambda>found s'. knows en i K s' \<and> (found \<noteq> None \<longrightarrow> ownsImage en i (ds_log s') img))
      (\<lambda>_. knows en i K) s" if k: "knows en i K s" for s
  proof (cases "isSnapshotOf i img")
    case False
    then show ?thesis using k by (simp add: snapshotInfo_def bind_instance [OF assms] wp_simps)
  next
    case True
    have next_log: "knows en i K s'" if "ds_log s' = ds_log s @ [(InspectImage [] img, [], a)]" for s' a
      by (rule knows_snoc [OF k that]) simp
    show ?thesis
      using True unfolding snapshotInfo_def bind_instance [OF assms]
      by (auto simp: wp_catch wp_bind wp_docker Let_def wp_simps ownsImage_def intro!: next_log split: sum.split option.split)
  qed
  have remove: "wp (thenE (docker en (RemoveImage img) []) (retE ())) (\<lambda>_. knows en i K) (\<lambda>_. knows en i K) s"
    if "knows en i K s" "ownsImage en i (ds_log s) img" for s
    using that by (auto simp: wp_then wp_docker Let_def wp_ret intro!: knows_snoc [OF that(1)] split: sum.split)
  show ?thesis
    unfolding safe_def deleteSnapshotIn_def wp_bind
    by (intro allI impI, rule wp_mono [OF info]) (auto simp: wp_when intro: remove)
qed

subsection \<open>Every order of operations\<close>

text \<open>
  The operations of the adapter and its handles in any order, whether they return or throw, on handles of
  any age; a resumed container starts its supervisor.
\<close>

inductive dockerStep :: "dockerEngine \<Rightarrow> env \<Rightarrow> dockerState \<Rightarrow> dockerState \<Rightarrow> bool" for en e where
  created: "dockerStep en e s (snd (createIn en e input source s))"
| got: "dockerStep en e s (snd (getIn en e name resumes (\<lambda>h. thenE (runDetachedIn en e h input) (retE ())) s))"
| started: "dockerStep en e s (snd (runDetachedIn en e h input s))"
| ran: "dockerStep en e s (snd (runIn en e h input s))"
| waited: "dockerStep en e s (snd (waitCommandIn en e h cmdId ms s))"
| killed: "dockerStep en e s (snd (killCommandIn en e h cmdId signal s))"
| extended: "dockerStep en e s (snd (extendTimeoutIn en e h ms s))"
| stopped: "dockerStep en e s (snd (stopIn en e h s))"
| saved: "dockerStep en e s (snd (snapshotIn en e h ms s))"
| read: "dockerStep en e s (snd (readFileIn en e h file s))"
| deleted: "dockerStep en e s (snd (deleteIn en e name s))"
| listed: "dockerStep en e s (snd (listByTagIn en e tags s))"
| named: "dockerStep en e s (snd (listSnapshotIdsIn en e name s))"
| pruned: "dockerStep en e s (snd (deleteSnapshotIn en e img s))"

lemma safe_confined:
  assumes "\<And>K. safe en i K m out" and "confined en i (ds_log s)"
  shows "confined en i (ds_log (snd (m s)))"
  using safeD [OF assms(1), of "[]" s] assms(2)
  by (cases "m s") (auto simp: knows_def wp_def split: sum.splits)

lemma dockerStep_confined:
  assumes "instanceOf en e = Inr i"
  shows "dockerStep en e s s' \<Longrightarrow> confined en i (ds_log s) \<Longrightarrow> confined en i (ds_log s')"
proof (induction rule: dockerStep.induct)
  case (got s name resumes input)
  have "safe en i K (thenE (runDetachedIn en e h input) (retE ())) (\<lambda>_. [])" for K h
    by (rule safe_then [OF safe_runDetached [OF assms]]) (simp add: safe_ret)
  from safe_confined [OF safe_getIn [OF assms this] got] show ?case .
qed (erule safe_confined [rotated];
     (rule safe_createIn safe_runDetached safe_run safe_waitCommand safe_killCommand safe_extendTimeout safe_stop safe_snapshot
       safe_readFile safe_delete safe_listByTag safe_listSnapshotIds safe_deleteSnapshot; rule assms))+

lemma dockerRun_confined:
  assumes "instanceOf en e = Inr i"
  shows "(dockerStep en e)\<^sup>*\<^sup>* s s' \<Longrightarrow> confined en i (ds_log s) \<Longrightarrow> confined en i (ds_log s')"
  by (induction rule: rtranclp_induct) (auto intro: dockerStep_confined [OF assms])

subsection \<open>Waits end\<close>

text \<open>An action that does not turn the clock back and does not throw for want of rounds.\<close>

definition fuelLess :: "err \<Rightarrow> bool" where
  "fuelLess x \<longleftrightarrow> x \<noteq> OtherError ''no rounds left''"

definition onward :: "'a dockerAct \<Rightarrow> bool" where
  "onward m \<longleftrightarrow> (\<forall>s. wp m (\<lambda>_ s'. ds_now s \<le> ds_now s') (\<lambda>x s'. ds_now s \<le> ds_now s' \<and> fuelLess x) s)"

lemma onwardD: "onward m \<Longrightarrow> t \<le> ds_now s \<Longrightarrow> wp m (\<lambda>_ s'. t \<le> ds_now s') (\<lambda>x s'. t \<le> ds_now s' \<and> fuelLess x) s"
  unfolding onward_def by (rule wp_mono, blast) auto

lemma onward_bind: "onward m \<Longrightarrow> (\<And>a. onward (k a)) \<Longrightarrow> onward (bindE m k)"
  unfolding onward_def [of "bindE m k"] wp_bind
  by (intro allI, rule wp_mono [OF onwardD, OF _ order_refl], assumption) (auto intro: onwardD)

lemma onward_then: "onward m \<Longrightarrow> onward k \<Longrightarrow> onward (thenE m k)"
  unfolding thenE_def by (rule onward_bind)

lemma onward_catch: "onward m \<Longrightarrow> (\<And>x. onward (h x)) \<Longrightarrow> onward (catchE m h)"
  unfolding onward_def [of "catchE m h"] wp_catch
  by (intro allI, rule wp_mono [OF onwardD, OF _ order_refl], assumption) (auto intro: onwardD)

text \<open>A handler may throw what it caught.\<close>

lemma onward_catch_again: "onward m \<Longrightarrow> (\<And>x. fuelLess x \<Longrightarrow> onward (h x)) \<Longrightarrow> onward (catchE m h)"
  unfolding onward_def [of "catchE m h"] wp_catch
  by (intro allI, rule wp_mono [OF onwardD, OF _ order_refl], assumption) (auto intro: onwardD)

lemma onward_ret: "onward (retE y)"
  and onward_throw: "fuelLess x \<Longrightarrow> onward (throwE x)"
  and onward_get: "onward (getE f)"
  and onward_uuid: "onward (drawUuid en)"
  and onward_delay: "0 \<le> ms \<Longrightarrow> onward (delayD ms)"
  and onward_docker: "onward (docker en c vs)"
  by (simp_all add: onward_def wp_simps delayD_def wp_docker Let_def fuelLess_def split: sum.split) (simp add: wp_def drawUuid_def)

lemma onward_if: "(b \<Longrightarrow> onward m) \<Longrightarrow> (\<not> b \<Longrightarrow> onward n) \<Longrightarrow> onward (if b then m else n)"
  and onward_when: "(b \<Longrightarrow> onward n') \<Longrightarrow> onward (whenE b n')"
  and onward_Let: "onward (f x) \<Longrightarrow> onward (Let x f)"
  by (simp_all add: whenE_def onward_ret)

lemma onward_option: "onward a \<Longrightarrow> (\<And>y. x = Some y \<Longrightarrow> onward (b y)) \<Longrightarrow> onward (case x of None \<Rightarrow> a | Some y \<Rightarrow> b y)"
  by (cases x) auto

lemma onward_prod: "(\<And>a b. x = (a, b) \<Longrightarrow> onward (f a b)) \<Longrightarrow> onward (case x of (a, b) \<Rightarrow> f a b)"
  by (cases x) auto

lemmas onward_shape = onward_ret onward_throw onward_get onward_uuid onward_docker onward_then onward_bind onward_if onward_when
  onward_Let onward_option onward_prod

lemma onward_instance: "onward (instanceE en e)"
  by (auto simp: instanceE_def instanceOf_def dockerBackendEnabled_def fuelLess_def split: sum.split intro!: onward_ret onward_throw)

lemma onward_inspect: "onward (inspect en e name)"
  unfolding inspect_def containerName_def
  by (rule onward_catch_again onward_shape onward_instance | simp add: fuelLess_def)+

lemma onward_refresh: "onward (refresh en e b h)"
  unfolding refresh_def by (rule onward_shape onward_inspect | simp add: fuelLess_def)+

lemma onward_commandStatus: "onward (commandStatus en e h cmdId)"
  unfolding commandStatus_def commandDir_def by (rule onward_shape onward_refresh | simp add: fuelLess_def)+

text \<open>Every round that goes on moves the clock towards the deadline.\<close>

lemma onward_waitCommand: "onward (waitCommandIn en e h cmdId ms)"
  unfolding onward_def
proof
  fix s :: dockerState
  let ?d = "ds_now s + ms"
  have round: "wp (dockerWaitRound en e cmdId ?d h)
      (\<lambda>r s'. case r of Inl x \<Rightarrow> ds_now s \<le> ds_now s' | Inr h' \<Rightarrow> ds_now s \<le> ds_now s' \<and> nat (?d - ds_now s') < nat (?d - ds_now v))
      (\<lambda>x s'. ds_now s \<le> ds_now s' \<and> fuelLess x) v" if "ds_now s \<le> ds_now v" for h v
    unfolding dockerWaitRound_def wp_bind
    by (rule wp_mono [OF onwardD [OF onward_commandStatus order_refl]])
      (use that in \<open>auto simp: wp_simps delayD_def fuelLess_def split: option.split\<close>)
  show "wp (waitCommandIn en e h cmdId ms) (\<lambda>_ s'. ds_now s \<le> ds_now s') (\<lambda>x s'. ds_now s \<le> ds_now s' \<and> fuelLess x) s"
    unfolding waitCommandIn_def wp_bind wp_get
    by (rule wp_iterE [where I = "\<lambda>_ s'. ds_now s \<le> ds_now s'" and \<mu> = "\<lambda>_ s'. nat (?d - ds_now s')", OF order_refl _ round]) simp_all
qed

lemma onward_await:
  assumes "fuelLess err" and "0 \<le> ms"
  shows "onward (bindE (getE ds_now) (\<lambda>t. roundsE (OtherError ''no rounds left'') (loopFuel ms 100) (awaitOther en e name err (t + ms))))"
  unfolding onward_def
proof
  fix s :: dockerState
  let ?d = "ds_now s + ms"
  let ?mu = "\<lambda>s. nat ((?d - ds_now s) div 100 + 1)"
  have round: "wp (awaitOther en e name err ?d)
      (\<lambda>r s'. case r of Some x \<Rightarrow> ds_now s \<le> ds_now s' | None \<Rightarrow> ds_now s \<le> ds_now s' \<and> ?mu s' < ?mu v)
      (\<lambda>x s'. ds_now s \<le> ds_now s' \<and> fuelLess x) v" if v: "ds_now s \<le> ds_now v" for v
  proof -
    have less: "?mu (s'\<lparr>ds_now := ds_now s' + 100\<rparr>) < ?mu v" if "ds_now v \<le> ds_now s'" "ds_now s' < ?d" for s'
    proof -
      have "(?d - (ds_now s' + 100)) div 100 = (?d - ds_now s') div 100 - 1" by simp
      moreover have "(?d - ds_now s') div 100 \<le> (?d - ds_now v) div 100" using that by (intro zdiv_mono1) auto
      moreover have "0 \<le> (?d - ds_now s') div 100" using that by (simp add: pos_imp_zdiv_nonneg_iff)
      ultimately show ?thesis by simp
    qed
    show ?thesis
      unfolding awaitOther_def wp_bind
      by (rule wp_mono [OF onwardD [OF onward_inspect order_refl]]) (use v assms(1) less in \<open>auto simp: wp_simps delayD_def\<close>)
  qed
  have "?mu s < loopFuel ms 100" using assms(2) by (simp add: loopFuel_def)
  then show "wp (bindE (getE ds_now) (\<lambda>t. roundsE (OtherError ''no rounds left'') (loopFuel ms 100) (awaitOther en e name err (t + ms))))
      (\<lambda>_ s'. ds_now s \<le> ds_now s') (\<lambda>x s'. ds_now s \<le> ds_now s' \<and> fuelLess x) s"
    unfolding wp_bind wp_get
    by (intro wp_loopE [where I = "\<lambda>s'. ds_now s \<le> ds_now s'" and \<mu> = ?mu, OF order_refl _ round])
qed

lemma onward_getIn: "(\<And>h. onward (onResume h)) \<Longrightarrow> onward (getIn en e name resumes onResume)"
  unfolding getIn_def readDeadline_def by (rule onward_catch onward_shape onward_inspect | simp add: fuelLess_def)+

lemma onward_createIn: "onward (createIn en e input source)"
proof -
  have source: "onward (assertSource en e source)"
    unfolding assertSource_def snapshotInfo_def
    by (rule onward_catch_again onward_shape onward_instance | simp add: fuelLess_def)+
  have name: "onward (containerName en e n)" for n
    unfolding containerName_def by (rule onward_shape onward_instance | simp add: fuelLess_def)+
  have get: "onward (getIn en e n True (\<lambda>_. retE ()))" for n by (intro onward_getIn onward_ret)
  have wait: "onward (bindE (getE ds_now) (\<lambda>t. roundsE (OtherError ''no rounds left'') (loopFuel (if nameInUse err then 10000 else 0) 100)
      (awaitOther en e n err (t + (if nameInUse err then 10000 else 0)))))" if "fuelLess err" for err n
    by (rule onward_await [OF that]) simp
  show ?thesis
    unfolding createIn_def Let_def
    by (rule source name get wait onward_catch_again onward_shape onward_instance | assumption | simp add: fuelLess_def)+
qed

end
