(* ===== verification/Actions.thy ===== *)
theory Actions
  imports Routes
begin

text \<open>
  The dashboard (\<open>app/(site)/(dashboard)\<close>): its server actions over the same library functions the
  routes call (\<open>actions.ts\<close>, \<open>action-state.ts\<close>), the data of its pages (\<open>data.ts\<close>) and the texts it shows
  (\<open>format.ts\<close>). A redirect is the error Next throws for it; the audit rows are not kept and what
  \<open>revalidatePath\<close> drops from a cache is no state of the program.
\<close>

section \<open>Forms\<close>

datatype formEntry = FormText string | FormFile

type_synonym form = "string \<Rightarrow> formEntry option"

definition formText :: "form \<Rightarrow> string \<Rightarrow> string" where
  "formText form field = trimBoth (case form field of None \<Rightarrow> [] | Some (FormText s) \<Rightarrow> s | Some FormFile \<Rightarrow> ''[object File]'')"

text \<open>\<open>text(form, field) || null\<close>, and \<open>|| undefined\<close>: a field that is left out.\<close>

definition emptyAsNull :: "string \<Rightarrow> json" where
  "emptyAsNull s = (if s = [] then JNull else JStr s)"

definition unlessEmpty :: "string \<Rightarrow> json \<Rightarrow> string \<Rightarrow> (string \<times> json) list" where
  "unlessEmpty k j s = (if s = [] then [] else [(k, j)])"

text \<open>
  \<open>Number(s)\<close> of a trimmed, non-empty text: a decimal literal with its sign, fraction and exponent, or a
  hexadecimal, octal or binary one. \<open>NaN\<close> and the infinities, which no schema of a number takes, are
  \<open>JNull\<close>.
\<close>

definition signed :: "string \<Rightarrow> bool \<times> string" where
  "signed s = (case s of [] \<Rightarrow> (False, [])
     | c # cs \<Rightarrow> if c = CHR ''-'' then (True, cs) else if c = CHR ''+'' then (False, cs) else (False, s))"

definition fraction :: "string \<Rightarrow> string \<times> string" where
  "fraction s = (case s of [] \<Rightarrow> ([], []) | c # cs \<Rightarrow> if c = CHR ''.'' then spanDigits cs else ([], s))"

definition decimalLiteral :: "string \<Rightarrow> json" where
  "decimalLiteral s = (case signed s of (neg, body) \<Rightarrow>
     (case spanDigits body of (ip, r1) \<Rightarrow> (case fraction r1 of (fp, r2) \<Rightarrow>
       if ip = [] \<and> fp = [] then JNull
       else (case expPart r2 of
           Some (e, []) \<Rightarrow> (let m = int (readDigits 0 (ip @ fp)) in decimal (if neg then - m else m) (e - int (length fp)))
         | _ \<Rightarrow> JNull))))"

definition digitIn :: "nat \<Rightarrow> char \<Rightarrow> nat option" where
  "digitIn b c = (let v = (if isDigit c then of_char c - 48 else of_char (toLower c) - 87) in
     if (isDigit c \<or> CHR ''a'' \<le> toLower c \<and> toLower c \<le> CHR ''f'') \<and> v < b then Some v else None)"

fun digitsIn :: "nat \<Rightarrow> nat \<Rightarrow> string \<Rightarrow> nat option" where
  "digitsIn b n [] = Some n"
| "digitsIn b n (c # cs) = (case digitIn b c of None \<Rightarrow> None | Some v \<Rightarrow> digitsIn b (n * b + v) cs)"

definition prefixed :: "nat \<Rightarrow> string \<Rightarrow> json" where
  "prefixed b cs = (if cs = [] then JNull else case digitsIn b 0 cs of None \<Rightarrow> JNull | Some n \<Rightarrow> JNum (int n))"

definition numberOf :: "string \<Rightarrow> json" where
  "numberOf s = (case s of c # d # cs \<Rightarrow>
       if c = CHR ''0'' \<and> toLower d = CHR ''x'' then prefixed 16 cs
       else if c = CHR ''0'' \<and> toLower d = CHR ''o'' then prefixed 8 cs
       else if c = CHR ''0'' \<and> toLower d = CHR ''b'' then prefixed 2 cs
       else decimalLiteral s
     | _ \<Rightarrow> decimalLiteral s)"

section \<open>Outcomes\<close>

text \<open>The status and what it says: the message, or the error whose message is shown.\<close>

datatype actionState = IDLE_ACTION | ActionOk string | ActionFailed err

definition redirectTo :: "string \<Rightarrow> err" where
  "redirectTo path = OtherError (''NEXT_REDIRECT '' @ path)"

definition runAction :: "actionState io \<Rightarrow> actionState io" where
  "runAction fn = catchE fn (\<lambda>e.
     if (case e of ApiError _ _ \<Rightarrow> True | EnvError _ \<Rightarrow> True | _ \<Rightarrow> e = zodError) then retE (ActionFailed e) else throwE e)"

text \<open>\<open>schema.parse\<close>.\<close>

definition zodParse :: "(json \<Rightarrow> 'a option) \<Rightarrow> json \<Rightarrow> 'a io" where
  "zodParse schema j = (case schema j of None \<Rightarrow> throwE zodError | Some x \<Rightarrow> retE x)"

section \<open>Actions on a workspace\<close>

definition ELLIPSIS :: string where "ELLIPSIS = [CHR 0xE2, CHR 0x80, CHR 0xA6]"

definition workspaceAction :: "string option \<Rightarrow> form \<Rightarrow> (workspace \<Rightarrow> viewer \<Rightarrow> string io) \<Rightarrow> actionState io" where
  "workspaceAction sessionUser form mutate = runAction
     (bindE (requireViewer sessionUser) (\<lambda>v.
      thenE (assertNotFlagged v)
      (bindE (assertWorkspaceId (formText form ''workspaceId'')) (\<lambda>wid.
      bindE (requireWorkspaceAccess v wid None) (\<lambda>ws.
      bindE (mutate ws v) (\<lambda>message. retE (ActionOk message)))))))"

definition stopMutation :: "platform \<Rightarrow> workspace \<Rightarrow> viewer \<Rightarrow> string io" where
  "stopMutation pf ws v =
     bindE (if ws_state ws = Stopped
            then bindE (isRunActive pf (workflowRunId ws)) (\<lambda>active. retE (\<not> active)) else retE False) (\<lambda>nothing.
     if nothing then retE ''Already stopped.''
     else thenE (startLifecycle pf (ws_id ws) (StopWorkspaceRun (ws_id ws) SrUser False))
       (retE (''Stopping the workspace'' @ ELLIPSIS)))"

definition stopWorkspaceAction :: "platform \<Rightarrow> string option \<Rightarrow> form \<Rightarrow> actionState io" where
  "stopWorkspaceAction pf sessionUser form = workspaceAction sessionUser form (stopMutation pf)"

definition rebuildWorkspaceAction :: "platform \<Rightarrow> string option \<Rightarrow> form \<Rightarrow> actionState io" where
  "rebuildWorkspaceAction pf sessionUser form = workspaceAction sessionUser form (\<lambda>ws v.
     thenE (startLifecycle pf (ws_id ws) (RebuildWorkspaceRun (ws_id ws) (v_userId v) None))
       (retE (''Rebuilding the workspace'' @ ELLIPSIS)))"

definition deleteWorkspaceAction :: "platform \<Rightarrow> string option \<Rightarrow> form \<Rightarrow> actionState io" where
  "deleteWorkspaceAction pf sessionUser form =
     bindE (workspaceAction sessionUser form (\<lambda>ws v.
       thenE (startLifecycle pf (ws_id ws) (DeleteWorkspaceRun (ws_id ws) (v_userId v) False))
         (retE (''Deleting the workspace'' @ ELLIPSIS)))) (\<lambda>result.
     case result of ActionOk _ \<Rightarrow> throwE (redirectTo ''/workspaces'') | _ \<Rightarrow> retE result)"

definition settingsForm :: "form \<Rightarrow> json" where
  "settingsForm form = JObj (unlessEmpty ''name'' (JStr (formText form ''name'')) (formText form ''name'')
     @ unlessEmpty ''idleMinutes'' (numberOf (formText form ''idleMinutes'')) (formText form ''idleMinutes''))"

definition updateWorkspaceAction :: "string option \<Rightarrow> form \<Rightarrow> actionState io" where
  "updateWorkspaceAction sessionUser form = workspaceAction sessionUser form (\<lambda>ws v.
     bindE (zodParse patchWorkspaceSchema (settingsForm form)) (\<lambda>patch.
     thenE (updWs (ws_id ws) (\<lambda>w. patchRow patch (now w))) (retE ''Workspace settings saved.'')))"

text \<open>\<open>Number("")\<close> is 0.\<close>

definition portField :: "form \<Rightarrow> json" where
  "portField form = (if formText form ''port'' = [] then JNum 0 else numberOf (formText form ''port''))"

definition forwardForm :: "form \<Rightarrow> json" where
  "forwardForm form = JObj [(''port'', portField form), (''visibility'', JStr (formText form ''visibility'')),
     (''label'', emptyAsNull (formText form ''label''))]"

definition forwardPortAction :: "platform \<Rightarrow> string option \<Rightarrow> form \<Rightarrow> actionState io" where
  "forwardPortAction pf sessionUser form = workspaceAction sessionUser form (\<lambda>ws v.
     bindE (zodParse createForwardSchema (forwardForm form)) (\<lambda>input.
     thenE (createForward pf ws input)
       (retE (''Port '' @ showInt (cf_port input) @ '' is forwarded ('' @ visibilityText (cf_visibility input) @ '').''))))"

definition unforwardPortAction :: "platform \<Rightarrow> string option \<Rightarrow> form \<Rightarrow> actionState io" where
  "unforwardPortAction pf sessionUser form = workspaceAction sessionUser form (\<lambda>ws v.
     bindE (zodParse userPortSchema (portField form)) (\<lambda>port.
     thenE (removeForward pf (ws_id ws) port)
       (retE (''Port '' @ showInt port @ '' is no longer forwarded.''))))"

section \<open>Actions on the account\<close>

definition kindText :: "settingsKind \<Rightarrow> string" where
  "kindText kind = (case kind of SettingsDoc \<Rightarrow> ''settings'' | KeymapDoc \<Rightarrow> ''keymap'' | DotfilesDoc \<Rightarrow> ''dotfiles'')"

text \<open>\<open>form.get("content")\<close> as it is: \<open>null\<close>, a text, or a file, which is no string.\<close>

definition contentField :: "form \<Rightarrow> json" where
  "contentField form = (case form ''content'' of None \<Rightarrow> JNull | Some (FormText s) \<Rightarrow> JStr s | Some FormFile \<Rightarrow> JObj [])"

definition accountAction :: "string option \<Rightarrow> (viewer \<Rightarrow> string io) \<Rightarrow> actionState io" where
  "accountAction sessionUser save = runAction
     (bindE (requireViewer sessionUser) (\<lambda>v.
      thenE (assertNotFlagged v)
      (thenE (ensureUser v)
      (bindE (save v) (\<lambda>message. retE (ActionOk message))))))"

definition saveSettingsDocAction :: "string option \<Rightarrow> form \<Rightarrow> actionState io" where
  "saveSettingsDocAction sessionUser form = accountAction sessionUser (\<lambda>v.
     bindE (zodParse (zEnum [(''settings'', SettingsDoc), (''keymap'', KeymapDoc)]) (JStr (formText form ''kind''))) (\<lambda>kind.
     bindE (zodParse putSettingsDocSchema (JObj ((''content'', contentField form)
         # unlessEmpty ''version'' (numberOf (formText form ''version'')) (formText form ''version'')))) (\<lambda>input.
     bindE (writeDoc (v_userId v) kind (ps_content input) (ps_version input)) (\<lambda>saved.
     retE (''Saved '' @ kindText kind @ ''.json (version '' @ showInt (sv_version saved) @ '').'')))))"

text \<open>\<open>isUrl\<close> is what \<open>new URL\<close> accepts, as in the route.\<close>

definition dotfilesForm :: "form \<Rightarrow> json" where
  "dotfilesForm form = JObj [(''repoUrl'', emptyAsNull (formText form ''repoUrl'')),
     (''installCommand'', emptyAsNull (formText form ''installCommand''))]"

definition saveDotfilesAction :: "(string \<Rightarrow> bool) \<Rightarrow> string option \<Rightarrow> form \<Rightarrow> actionState io" where
  "saveDotfilesAction isUrl sessionUser form = accountAction sessionUser (\<lambda>v.
     bindE (zodParse (putDotfilesSchema isUrl) (dotfilesForm form)) (\<lambda>input.
     thenE (writeDotfiles (v_userId v) input) (retE ''Dotfiles configuration saved.'')))"

section \<open>A submitted form\<close>

datatype dashboardForm = StopForm | RebuildForm | DeleteForm | UpdateForm | ForwardForm | UnforwardForm
  | SettingsForm | DotfilesForm

fun onAccount :: "dashboardForm \<Rightarrow> bool" where
  "onAccount SettingsForm = True"
| "onAccount DotfilesForm = True"
| "onAccount _ = False"

fun dashboardAction ::
  "platform \<Rightarrow> (string \<Rightarrow> bool) \<Rightarrow> string option \<Rightarrow> dashboardForm \<Rightarrow> form \<Rightarrow> actionState io" where
  "dashboardAction pf isUrl sessionUser StopForm form = stopWorkspaceAction pf sessionUser form"
| "dashboardAction pf isUrl sessionUser RebuildForm form = rebuildWorkspaceAction pf sessionUser form"
| "dashboardAction pf isUrl sessionUser DeleteForm form = deleteWorkspaceAction pf sessionUser form"
| "dashboardAction pf isUrl sessionUser UpdateForm form = updateWorkspaceAction sessionUser form"
| "dashboardAction pf isUrl sessionUser ForwardForm form = forwardPortAction pf sessionUser form"
| "dashboardAction pf isUrl sessionUser UnforwardForm form = unforwardPortAction pf sessionUser form"
| "dashboardAction pf isUrl sessionUser SettingsForm form = saveSettingsDocAction sessionUser form"
| "dashboardAction pf isUrl sessionUser DotfilesForm form = saveDotfilesAction isUrl sessionUser form"

section \<open>Pages\<close>

definition requirePageViewer :: "string option \<Rightarrow> string \<Rightarrow> viewer io" where
  "requirePageViewer sessionUser returnTo = bindE (getViewer sessionUser) (\<lambda>v. case v of
      None \<Rightarrow> throwE (redirectTo (''/login?next='' @ encodeURIComponent returnTo))
    | Some x \<Rightarrow> retE x)"

definition dashboardViewer :: "string option \<Rightarrow> (viewer \<times> user) io" where
  "dashboardViewer sessionUser =
     bindE (requirePageViewer sessionUser ''/workspaces'') (\<lambda>v. bindE (ensureUser v) (\<lambda>u. retE (v, u)))"

definition listWorkspaceViews :: "platform \<Rightarrow> string option \<Rightarrow> workspaceView list io" where
  "listWorkspaceViews pf sessionUser =
     bindE (dashboardViewer sessionUser) (\<lambda>(v, _).
     bindE (getE (visibleWorkspaces (v_userId v))) (workspaceViews pf))"

record workspaceDetail =
  wd_workspace :: workspace
  wd_view :: workspaceView
  wd_sessions :: "session list"
  wd_listening :: "int list"
  wd_slotsFree :: int

definition workspaceDetailOf :: "platform \<Rightarrow> viewer \<Rightarrow> string \<Rightarrow> workspaceDetail io" where
  "workspaceDetailOf pf v i =
     bindE (assertWorkspaceId i) (\<lambda>wid.
     bindE (requireWorkspaceAccess v wid None) (\<lambda>ws.
     bindE (workspaceViewE pf ws) (\<lambda>view.
     bindE (getE (\<lambda>w. take 10 (sort_key (\<lambda>s. - startedAt s) (filter (\<lambda>s. s_workspaceId s = ws_id ws) (sessionsT w))))) (\<lambda>recent.
     bindE (getE (\<lambda>w. listeningPorts (pf_env pf) (kvT w) (ws_id ws) (now w))) (\<lambda>listening.
     retE \<lparr>wd_workspace = ws, wd_view = view, wd_sessions = recent, wd_listening = listening,
       wd_slotsFree = max 0 (int (length proxySlots) - int (length (filter (\<lambda>f. fv_slot f \<noteq> None) (wv_forwards view))))\<rparr>)))))"

definition listRegisteredRepos :: "string option \<Rightarrow> repoView list io" where
  "listRegisteredRepos sessionUser = bindE (dashboardViewer sessionUser) (\<lambda>(v, _). getE (visibleRepos (v_userId v)))"

record settingsPage =
  sp_settings :: settingsDocView
  sp_keymap :: settingsDocView
  sp_dotfiles :: dotfilesView

definition settingsPageData :: "viewer \<Rightarrow> settingsPage io" where
  "settingsPageData v =
     bindE (readDoc (v_userId v) SettingsDoc) (\<lambda>settings.
     bindE (readDoc (v_userId v) KeymapDoc) (\<lambda>keymap.
     bindE (readDotfiles (v_userId v)) (\<lambda>dotfiles.
     retE \<lparr>sp_settings = settings, sp_keymap = keymap, sp_dotfiles = dotfiles\<rparr>)))"

section \<open>Texts\<close>

text \<open>
  An instant is its milliseconds, as in the views; \<open>None\<close> is an absent one. The date is that of the
  proleptic Gregorian calendar, counted in eras of 400 years from a 1 March.
\<close>

definition DASH :: string where "DASH = [CHR 0xE2, CHR 0x80, CHR 0x94]"
definition MINUTE :: int where "MINUTE = 60000"
definition HOUR :: int where "HOUR = 60 * MINUTE"
definition DAY :: int where "DAY = 24 * HOUR"

definition civil :: "int \<Rightarrow> int \<times> int \<times> int" where
  "civil days = (let z = days + 719468; era = z div 146097; doe = z mod 146097;
       yoe = (doe - doe div 1460 + doe div 36524 - doe div 146096) div 365;
       doy = doe - (365 * yoe + yoe div 4 - yoe div 100);
       mp = (5 * doy + 2) div 153; m = (if mp < 10 then mp + 3 else mp - 9) in
     (yoe + era * 400 + (if m \<le> 2 then 1 else 0), m, doy - (153 * mp + 2) div 5 + 1))"

definition padded :: "nat \<Rightarrow> int \<Rightarrow> string" where
  "padded n i = (let s = showNat (nat i) in replicate (n - length s) CHR ''0'' @ s)"

definition yearText :: "int \<Rightarrow> string" where
  "yearText y = (if y < 0 then CHR ''-'' # padded 6 (- y) else if y \<le> 9999 then padded 4 y else CHR ''+'' # padded 6 y)"

definition toISOString :: "int \<Rightarrow> string" where
  "toISOString t = (case civil (t div DAY) of (y, m, d) \<Rightarrow>
     yearText y @ ''-'' @ padded 2 m @ ''-'' @ padded 2 d @ ''T'' @ padded 2 (t mod DAY div HOUR) @ '':''
       @ padded 2 (t mod HOUR div MINUTE) @ '':'' @ padded 2 (t mod MINUTE div 1000) @ ''.'' @ padded 3 (t mod 1000) @ ''Z'')"

fun replaceFirst :: "char \<Rightarrow> char \<Rightarrow> string \<Rightarrow> string" where
  "replaceFirst a b [] = []"
| "replaceFirst a b (c # cs) = (if c = a then b # cs else c # replaceFirst a b cs)"

definition formatTimestamp :: "int option \<Rightarrow> string" where
  "formatTimestamp instant = (case instant of None \<Rightarrow> DASH
     | Some t \<Rightarrow> take 16 (replaceFirst CHR ''T'' CHR '' '' (toISOString t)) @ '' UTC'')"

definition formatRelative :: "int option \<Rightarrow> int \<Rightarrow> string" where
  "formatRelative instant t = (case instant of None \<Rightarrow> ''never''
     | Some then' \<Rightarrow> (let delta = t - then' in
         if delta < 0 then formatTimestamp instant
         else if delta < MINUTE then ''just now''
         else if delta < HOUR then showInt (delta div MINUTE) @ '' min ago''
         else if delta < DAY then showInt (delta div HOUR) @ '' h ago''
         else if delta < 30 * DAY then showInt (delta div DAY) @ '' d ago''
         else formatTimestamp instant))"

fun STATE_LABELS :: "workspaceState \<Rightarrow> string" where
  "STATE_LABELS Creating = ''Creating''"
| "STATE_LABELS Running = ''Running''"
| "STATE_LABELS Stopping = ''Stopping''"
| "STATE_LABELS Stopped = ''Stopped''"
| "STATE_LABELS Rebuilding = ''Rebuilding''"
| "STATE_LABELS Deleting = ''Deleting''"
| "STATE_LABELS ErrorState = ''Error''"

datatype tone = Green | Amber | Gray | Red | Blue

fun stateTone :: "workspaceState \<Rightarrow> tone" where
  "stateTone Running = Green"
| "stateTone Creating = Amber"
| "stateTone Rebuilding = Amber"
| "stateTone Stopping = Amber"
| "stateTone Stopped = Gray"
| "stateTone Deleting = Red"
| "stateTone ErrorState = Red"

definition isBusyState :: "workspaceState \<Rightarrow> bool" where
  "isBusyState s \<longleftrightarrow> s = Creating \<or> s = Stopping \<or> s = Rebuilding \<or> s = Deleting"

fun formatMachine :: "machineType \<Rightarrow> string" where
  "formatMachine Vcpu2 = ''2 vCPU '' @ [CHR 0xC2, CHR 0xB7] @ '' 4 GB''"
| "formatMachine Vcpu4 = ''4 vCPU '' @ [CHR 0xC2, CHR 0xB7] @ '' 8 GB''"
| "formatMachine Vcpu8 = ''8 vCPU '' @ [CHR 0xC2, CHR 0xB7] @ '' 16 GB''"
| "formatMachine Vcpu32 = ''32 vCPU '' @ [CHR 0xC2, CHR 0xB7] @ '' 64 GB''"

definition formatRef :: "string option \<Rightarrow> int option \<Rightarrow> string option \<Rightarrow> string" where
  "formatRef br pr rev' = (case pr of Some n \<Rightarrow> ''PR #'' @ showInt n
     | None \<Rightarrow> if truthy br then nullish br [] else if truthy rev' then take 7 (nullish rev' []) else DASH)"

definition formatRepo :: "string \<Rightarrow> string \<Rightarrow> string" where
  "formatRepo owner name = owner @ ''/'' @ name"

section \<open>Lemmas\<close>

lemma runAction_run:
  "runAction m w = (case m w of (Inr s, w') \<Rightarrow> (Inr s, w')
     | (Inl e, w') \<Rightarrow> (if (case e of ApiError _ _ \<Rightarrow> True | EnvError _ \<Rightarrow> True | _ \<Rightarrow> e = zodError)
          then Inr (ActionFailed e) else Inl e, w'))"
  by (auto simp: runAction_def act_defs split: prod.splits sum.splits)

lemma snd_runAction [simp]: "snd (runAction m w) = snd (m w)"
  by (auto simp: runAction_run split: prod.splits sum.splits)

lemma runAction_ok: "fst (runAction (bindE m (\<lambda>x. retE (ActionOk (f x)))) w) = Inr (ActionOk t) \<longleftrightarrow> (\<exists>x. fst (m w) = Inr x \<and> f x = t)"
  by (auto simp: runAction_run act_defs split: prod.splits sum.splits)

text \<open>The parts of the guard read the world, and refuse with an error of the API.\<close>

definition answersApi :: "'a io \<Rightarrow> world \<Rightarrow> bool" where
  "answersApi m w \<longleftrightarrow> (case m w of (Inl e, w') \<Rightarrow> w' = w \<and> (\<exists>st code. e = ApiError st code) | (Inr _, w') \<Rightarrow> w' = w)"

lemma answersApi_cases:
  assumes "answersApi m w"
  obtains (refused) st code where "m w = (Inl (ApiError st code), w)" | (passed) x where "m w = (Inr x, w)"
  using assms by (cases "m w"; cases "fst (m w)") (auto simp: answersApi_def)

lemma guards_answer:
  "answersApi (requireViewer sessionUser) w" "answersApi (assertNotFlagged v) w"
  "answersApi (assertWorkspaceId i) w" "answersApi (requireWorkspaceAccess v i allow) w" "answersApi (ensureUser v) w"
  by (simp_all add: answersApi_def requireViewer_def getViewer_def assertNotFlagged_def assertWorkspaceId_def
      requireWorkspaceAccess_def ensureUser_def act_defs split: option.splits)

text \<open>The guard of an action and that of a route let the same requests through.\<close>

lemma workspaceAction_guard:
  obtains (refused) e e' where "requireWorkspaceParam sessionUser (formText form ''workspaceId'') None True w = (Inl e, w)"
      "workspaceAction sessionUser form mutate w = (Inr (ActionFailed e'), w)"
  | (opened) v ws where "requireWorkspaceParam sessionUser (formText form ''workspaceId'') None True w = (Inr (v, ws), w)"
      "workspaceAction sessionUser form mutate w = runAction (bindE (mutate ws v) (\<lambda>m. retE (ActionOk m))) w"
proof -
  let ?i = "formText form ''workspaceId''"
  note defs = workspaceAction_def requireWorkspaceParam_def runAction_def bindE_def thenE_def catchE_def whenE_def retE_def
  have same: "assertWorkspaceId i w = (Inr x, w) \<Longrightarrow> x = i" for i x
    by (auto simp: assertWorkspaceId_def act_defs split: if_splits)
  from guards_answer(1) [of sessionUser w] show thesis
  proof (cases rule: answersApi_cases)
    case (refused st code)
    from guards_answer(3) [of ?i w] refused show ?thesis
      by (cases rule: answersApi_cases)
        (auto intro!: that(1) simp: defs)
  next
    case viewer: (passed v)
    from guards_answer(2) [of v w] show ?thesis
    proof (cases rule: answersApi_cases)
      case (refused st code)
      from guards_answer(3) [of ?i w] refused viewer show ?thesis
        by (cases rule: answersApi_cases)
          (auto intro!: that(1) simp: defs)
    next
      case flag: (passed x)
      from guards_answer(3) [of ?i w] show ?thesis
      proof (cases rule: answersApi_cases)
        case (refused st code)
        with viewer flag show ?thesis by (auto intro!: that(1) simp: defs)
      next
        case (passed j)
        with same have wid: "assertWorkspaceId ?i w = (Inr ?i, w)" by blast
        note seen = wid viewer flag
        from guards_answer(4) [of v ?i None w] show ?thesis
        proof (cases rule: answersApi_cases)
          case (refused st code)
          with seen show ?thesis by (auto intro!: that(1) simp: defs)
        next
          case (passed ws)
          with seen show ?thesis by (auto intro!: that(2) [of v ws] simp: defs)
        qed
      qed
    qed
  qed
qed

lemma bindE_answered: "m w = (Inr x, w) \<Longrightarrow> bindE m k w = k x w" "m w = (Inl e, w) \<Longrightarrow> bindE m k w = (Inl e, w)"
  by (simp_all add: bindE_def)

text \<open>
  An action and a route that do the same to the workspace they are let at leave the same world, and the
  form says so exactly when the route succeeds.
\<close>

lemma action_as_route:
  assumes "\<And>v ws. snd (mutate ws v w) = snd (k (v, ws) w)"
    and "\<And>v ws. (\<exists>m. fst (mutate ws v w) = Inr m) \<longleftrightarrow> (\<exists>x. fst (k (v, ws) w) = Inr x)"
  shows "snd (workspaceAction sessionUser form mutate w)
      = snd (bindE (requireWorkspaceParam sessionUser (formText form ''workspaceId'') None True) k w)"
    and "(\<exists>m. fst (workspaceAction sessionUser form mutate w) = Inr (ActionOk m))
      \<longleftrightarrow> (\<exists>x. fst (bindE (requireWorkspaceParam sessionUser (formText form ''workspaceId'') None True) k w) = Inr x)"
proof -
  have tail: "snd (bindE m (\<lambda>t. retE (ActionOk t)) w) = snd (m w)" for m :: "string io"
    by (auto simp: bindE_def retE_def split: prod.splits sum.splits)
  have ok: "(\<exists>t. fst (runAction (bindE m (\<lambda>x. retE (ActionOk x))) w) = Inr (ActionOk t)) \<longleftrightarrow> (\<exists>x. fst (m w) = Inr x)" for m :: "string io"
    by (simp add: runAction_ok)
  show "snd (workspaceAction sessionUser form mutate w)
      = snd (bindE (requireWorkspaceParam sessionUser (formText form ''workspaceId'') None True) k w)"
    by (cases rule: workspaceAction_guard [of sessionUser form w mutate]) (simp_all add: bindE_answered tail assms(1))
  show "(\<exists>m. fst (workspaceAction sessionUser form mutate w) = Inr (ActionOk m))
      \<longleftrightarrow> (\<exists>x. fst (bindE (requireWorkspaceParam sessionUser (formText form ''workspaceId'') None True) k w) = Inr x)"
    by (cases rule: workspaceAction_guard [of sessionUser form w mutate]) (simp_all add: bindE_answered ok assms(2))
qed

text \<open>An action that changed anything had the caller's own, undeleted workspace, and no flag.\<close>

lemma workspaceAction_changes:
  assumes "snd (workspaceAction sessionUser form mutate w) \<noteq> w"
  shows "\<exists>v ws. requireWorkspaceParam sessionUser (formText form ''workspaceId'') None True w = (Inr (v, ws), w)"
  using assms by (cases rule: workspaceAction_guard [of sessionUser form w mutate]) auto

subsection \<open>What an action leaves alone\<close>

text \<open>Everything but the workspace \<open>wid\<close>, its forwards and the documents of \<open>uid\<close>.\<close>

definition othersView :: "string \<Rightarrow> string \<Rightarrow> world \<Rightarrow> _" where
  "othersView uid wid w = (filter (\<lambda>r. ws_id r \<noteq> wid) (workspacesT w), filter (\<lambda>f. f_workspaceId f \<noteq> wid) (forwardsT w),
     filter (\<lambda>d. d_userId d \<noteq> uid) (docsT w), usersT w, reposT w, sessionsT w)"

lemma filter_updateWhere_other [simp]:
  "(\<And>x. p x \<Longrightarrow> \<not> q x) \<Longrightarrow> (\<And>x. p x \<Longrightarrow> \<not> q (f x)) \<Longrightarrow> filter q (updateWhere p f xs) = filter q xs"
  by (induction xs) (auto simp: updateWhere_def)

lemma finally_keeps: "keeps m I \<Longrightarrow> keeps f I \<Longrightarrow> keeps (finallyE m f) I"
  unfolding keeps_def wp_finally by (blast intro: wp_mono)

lemma others_settle [intro]: "(\<And>w r. ws_id (f w r) = ws_id r) \<Longrightarrow> keeps (settleRun wid pending f) (\<lambda>w. othersView uid wid w = X)"
  by (auto simp: keeps_def settleRun_def updWs_def wp_simps othersView_def)

lemma others_start: "keeps (startLifecycle pf wid run) (\<lambda>w. othersView uid wid w = X)"
proof -
  let ?I = "\<lambda>w. othersView uid wid w = X"
  have atoms: "keeps (startRun pf run) ?I" "keeps (randomUUID pf) ?I" "keeps (isRunActive pf i) ?I"
      "keeps (kvSetE k v t n) ?I" "keeps (kvCompareDeleteE k v) ?I" for i k v t n
    by (auto simp: keeps_def wp_simps isRunActive_def othersView_def Let_def split: sum.splits)
  have reserve: "keeps (reserveRun pf wid run r pending) ?I" for r pending
    by (auto simp: keeps_def reserveRun_def assertWorkspaceCapacity_def updWs_def setRun_def wp_simps othersView_def)
  have reserved: "keeps (startReserved pf wid run pending) ?I" for pending
    unfolding startReserved_def by (intro keeps_shape atoms others_settle) (simp_all add: setRun_def)
  have "keeps (admit pf wid run) ?I"
    unfolding admit_def reloadWorkspace_def by (intro keeps_shape atoms reserve reserved)
  then have "keeps (withLock pf k t (admit pf wid run)) ?I" for k t
    unfolding withLock_def by (intro keeps_shape atoms finally_keeps)
  then show ?thesis unfolding startLifecycle_def by (intro keeps_shape)
qed

lemma others_upsert: "filter (\<lambda>f. f_workspaceId f \<noteq> wid) (upsertForward fs wid port row
    (\<lambda>f. f\<lparr>f_visibility := v, f_label := l, f_url := u, f_slot := sl\<rparr>)) = filter (\<lambda>f. f_workspaceId f \<noteq> wid) fs"
  if "f_workspaceId row = wid"
proof -
  have "filter (\<lambda>f. f_workspaceId f \<noteq> wid) (updateWhere (keyed wid port)
      (\<lambda>f. f\<lparr>f_visibility := v, f_label := l, f_url := u, f_slot := sl\<rparr>) fs) = filter (\<lambda>f. f_workspaceId f \<noteq> wid) fs"
    by (rule filter_updateWhere_other) (simp_all add: keyed_def)
  with that show ?thesis by (simp add: upsertForward_def)
qed

lemma others_forward: "ws_id ws = wid \<Longrightarrow> keeps (createForward pf ws input) (\<lambda>w. othersView uid wid w = X)"
  unfolding createForward_def assertForwardablePort_def
  by (intro keeps_shape keeps_mod) (simp_all add: othersView_def others_upsert)

lemma others_unforward: "keeps (removeForward pf wid port) (\<lambda>w. othersView uid wid w = X)"
  unfolding removeForward_def assertForwardablePort_def
  by (intro keeps_shape keeps_mod) (auto simp: othersView_def keyed_def intro: filter_cong)

lemma others_update: "(\<And>w r. ws_id (f w r) = ws_id r) \<Longrightarrow> keeps (updWs wid f) (\<lambda>w. othersView uid wid w = X)"
  by (auto simp: keeps_def updWs_def wp_simps othersView_def)

lemma others_writeDoc: "keeps (writeDoc uid kind content version) (\<lambda>w. othersView uid wid w = X)"
proof -
  have other: "filter (\<lambda>d. d_userId d \<noteq> uid) (upsertDoc d ds) = filter (\<lambda>d. d_userId d \<noteq> uid) ds" if "d_userId d = uid" for d ds
  proof -
    have "filter (\<lambda>d. d_userId d \<noteq> uid) (updateWhere (docKey uid (d_kind d))
        (\<lambda>r. r\<lparr>d_content := d_content d, d_version := d_version d\<rparr>) ds) = filter (\<lambda>d. d_userId d \<noteq> uid) ds"
      by (rule filter_updateWhere_other) (simp_all add: docKey_def)
    with that show ?thesis by (simp add: upsertDoc_def)
  qed
  show ?thesis
    by (rule keepsI) (auto simp: writeDoc_outcome wp_def othersView_def other)
qed

subsection \<open>Who a form can change\<close>

definition activeUser :: "world \<Rightarrow> string \<Rightarrow> bool" where
  "activeUser w uid \<longleftrightarrow> (\<exists>u \<in> set (usersT w). u_id u = uid \<and> u_flaggedAt u = None \<and> u_deletedAt u = None)"

lemma viewer_active:
  "requireViewer sessionUser w = (Inr v, w) \<Longrightarrow> v_flaggedAt v = None \<Longrightarrow> sessionUser = Some (v_userId v) \<and> activeUser w (v_userId v)"
  by (auto simp: requireViewer_def getViewer_def act_defs activeUser_def split: option.splits if_splits dest!: selectOne_Some)

lemma param_opened:
  assumes "requireWorkspaceParam sessionUser i None True w = (Inr (v, ws), w)"
  shows "sessionUser = Some (v_userId v)" and "activeUser w (v_userId v)" and "ws \<in> set (workspacesT w)" and "ws_id ws = i"
    and "ownerUserId ws = v_userId v" and "deletedAt ws = None"
proof -
  note run = wp_run [OF wp_requireWorkspaceParam assms]
  show "sessionUser = Some (v_userId v)" "ws \<in> set (workspacesT w)" "ws_id ws = i" "ownerUserId ws = v_userId v" "deletedAt ws = None"
    using run by simp_all
  have flag: "v_flaggedAt v = None" using run by simp
  have "requireViewer sessionUser w = (Inr v, w)"
    using assms by (cases "requireViewer sessionUser w"; cases "fst (requireViewer sessionUser w)")
      (auto simp: requireWorkspaceParam_def assertWorkspaceId_def requireViewer_def getViewer_def act_defs
        split: option.splits if_splits prod.splits sum.splits)
  from viewer_active [OF this flag] show "activeUser w (v_userId v)" by simp
qed

lemma keeps_snd: "keeps m I \<Longrightarrow> I w \<Longrightarrow> I (snd (m w))"
  by (cases "m w") (auto dest: keeps_run)

lemma keeps_runAction: "keeps m I \<Longrightarrow> keeps (runAction m) I"
  unfolding runAction_def by (intro keeps_shape)

lemma keeps_zodParse: "keeps (zodParse schema j) I"
  unfolding zodParse_def by (intro keeps_shape)

lemma others_stop: "ws_id ws = wid \<Longrightarrow> keeps (stopMutation pf ws v) (\<lambda>w. othersView x wid w = X)"
proof -
  have active: "keeps (isRunActive pf i) (\<lambda>w. othersView x wid w = X)" for i
    by (auto simp: keeps_def wp_simps isRunActive_def othersView_def Let_def)
  show "ws_id ws = wid \<Longrightarrow> ?thesis" unfolding stopMutation_def by (intro keeps_shape active) (simp_all add: others_start)
qed

lemma delete_form_world: "snd (deleteWorkspaceAction pf sessionUser form w) = snd (workspaceAction sessionUser form (\<lambda>ws v.
     thenE (startLifecycle pf (ws_id ws) (DeleteWorkspaceRun (ws_id ws) (v_userId v) False))
       (retE (''Deleting the workspace'' @ ELLIPSIS))) w)"
  by (auto simp: deleteWorkspaceAction_def bindE_def retE_def throwE_def split: prod.splits sum.splits actionState.splits)

text \<open>Every mutation of a workspace leaves the others alone.\<close>

lemma workspace_form_others:
  assumes "\<not> onAccount d" and "requireWorkspaceParam sessionUser (formText form ''workspaceId'') None True w = (Inr (v, ws), w)"
  shows "othersView x (formText form ''workspaceId'') (snd (dashboardAction pf isUrl sessionUser d form w))
    = othersView x (formText form ''workspaceId'') w"
proof -
  let ?wid = "formText form ''workspaceId''"
  have same: "ws' = ws" if "requireWorkspaceParam sessionUser ?wid None True w = (Inr (v', ws'), w)" for v' ws'
    using that assms(2) by simp
  have id: "ws_id ws = ?wid" by (rule param_opened(4) [OF assms(2)])
  have frame: "othersView x ?wid (snd (workspaceAction sessionUser form mutate w)) = othersView x ?wid w"
    if "\<And>u. keeps (mutate ws u) (\<lambda>w'. othersView x ?wid w' = othersView x ?wid w)" for mutate
    by (cases rule: workspaceAction_guard [of sessionUser form w mutate])
      (auto dest!: same intro!: keeps_snd [where I = "\<lambda>w'. othersView x ?wid w' = othersView x ?wid w"] keeps_bind that)
  show ?thesis
    using assms(1)
    by (cases d)
      (simp_all add: stopWorkspaceAction_def rebuildWorkspaceAction_def updateWorkspaceAction_def forwardPortAction_def
        unforwardPortAction_def delete_form_world,
       (rule frame, intro others_stop others_start others_update others_forward others_unforward keeps_then keeps_bind keeps_ret
          keeps_zodParse; simp add: id others_start others_unforward patchRow_def others_update)+)
qed

lemma workspace_form_opened:
  assumes "\<not> onAccount d" and "snd (dashboardAction pf isUrl sessionUser d form w) \<noteq> w"
  shows "\<exists>v ws. requireWorkspaceParam sessionUser (formText form ''workspaceId'') None True w = (Inr (v, ws), w)"
  using assms by (cases d) (auto simp: delete_form_world stopWorkspaceAction_def rebuildWorkspaceAction_def updateWorkspaceAction_def
      forwardPortAction_def unforwardPortAction_def dest!: workspaceAction_changes)

lemma account_form_others:
  assumes "onAccount d" and "snd (dashboardAction pf isUrl sessionUser d form w) \<noteq> w"
  shows "\<exists>uid. sessionUser = Some uid \<and> activeUser w uid
    \<and> (\<forall>x. othersView uid x (snd (dashboardAction pf isUrl sessionUser d form w)) = othersView uid x w)"
proof -
  have main: "\<exists>uid. sessionUser = Some uid \<and> activeUser w uid
      \<and> (\<forall>x. othersView uid x (snd (accountAction sessionUser save w)) = othersView uid x w)"
    if changed: "snd (accountAction sessionUser save w) \<noteq> w"
      and save: "\<And>v x X. keeps (save v) (\<lambda>w. othersView (v_userId v) x w = X)" for save
  proof -
    from guards_answer(1) [of sessionUser w] show ?thesis
    proof (cases rule: answersApi_cases)
      case (refused st code)
      with changed show ?thesis by (simp add: accountAction_def bindE_answered)
    next
      case (passed v)
      have flag: "v_flaggedAt v = None"
        using changed passed by (auto simp: accountAction_def bindE_answered assertNotFlagged_def act_defs split: if_splits)
      have "keeps (thenE (assertNotFlagged v) (thenE (ensureUser v) (bindE (save v) (\<lambda>m. retE (ActionOk m)))))
          (\<lambda>w. othersView (v_userId v) x w = X)" for x X
        unfolding assertNotFlagged_def ensureUser_def by (intro keeps_shape save)
      from keeps_snd [OF this refl] have "\<forall>x. othersView (v_userId v) x (snd (accountAction sessionUser save w)) = othersView (v_userId v) x w"
        using passed by (simp add: accountAction_def bindE_answered)
      with viewer_active [OF passed flag] show ?thesis by blast
    qed
  qed
  show ?thesis
    using assms
    by (cases d) (auto simp: saveSettingsDocAction_def saveDotfilesAction_def writeDotfiles_def
        intro!: main keeps_bind keeps_then keeps_zodParse others_writeDoc)
qed

subsection \<open>Forms and routes\<close>

text \<open>The form and the route leave the same world, and succeed together.\<close>

definition sameOutcome :: "actionState io \<Rightarrow> 'a io \<Rightarrow> world \<Rightarrow> bool" where
  "sameOutcome action route w \<longleftrightarrow> snd (action w) = snd (route w)
     \<and> ((\<exists>m. fst (action w) = Inr (ActionOk m)) \<longleftrightarrow> (\<exists>x. fst (route w) = Inr x))"

lemma sameOutcome_param:
  assumes "\<And>v ws. snd (mutate ws v w) = snd (k (v, ws) w)"
    and "\<And>v ws. (\<exists>m. fst (mutate ws v w) = Inr m) \<longleftrightarrow> (\<exists>x. fst (k (v, ws) w) = Inr x)"
  shows "sameOutcome (workspaceAction sessionUser form mutate)
    (bindE (requireWorkspaceParam sessionUser (formText form ''workspaceId'') None True) k) w"
  unfolding sameOutcome_def by (intro conjI action_as_route assms)

lemma stop_same: "sameOutcome (stopWorkspaceAction pf sessionUser form) (stopPost pf sessionUser (formText form ''workspaceId'')) w"
  unfolding stopWorkspaceAction_def stopPost_def
  by (rule sameOutcome_param)
    (auto simp: stopMutation_def bindE_def thenE_def retE_def split: prod.splits sum.splits if_splits)

lemma forward_same:
  assumes "createForwardSchema (forwardForm form) = Some input" and "parseBody req createForwardSchema None = Inr input"
  shows "sameOutcome (forwardPortAction pf sessionUser form) (portsPost pf sessionUser (formText form ''workspaceId'') req) w"
  unfolding forwardPortAction_def portsPost_def
  by (rule sameOutcome_param)
    (auto simp: assms zodParse_def ofSum_def bindE_def thenE_def retE_def split: prod.splits sum.splits)

lemma unforward_same:
  assumes "userPortSchema (portField form) = Some port" and "portParam raw = Inr port"
  shows "sameOutcome (unforwardPortAction pf sessionUser form) (portsDelete pf sessionUser (formText form ''workspaceId'') raw) w"
  unfolding unforwardPortAction_def portsDelete_def
  by (rule sameOutcome_param)
    (auto simp: assms zodParse_def ofSum_def bindE_def thenE_def retE_def split: prod.splits sum.splits)

text \<open>
  Where the route asks for \<open>https:\<close>, the form stores any text that \<open>new URL\<close> accepts, and the next
  manifest carries it to the sandbox.
\<close>

lemma viewer_row: "requireViewer sessionUser w = (Inr v, w) \<Longrightarrow> \<exists>x. ensureUser v w = (Inr x, w)"
proof -
  assume "requireViewer sessionUser w = (Inr v, w)"
  then obtain uid u where u: "selectOne (\<lambda>u. u_id u = uid) (usersT w) = Some u" "u_deletedAt u = None" "v_userId v = u_id u"
    by (auto simp: requireViewer_def getViewer_def act_defs split: option.splits if_splits)
  have "u_id u = uid" using selectOne_Some [OF u(1)] by simp
  with u show ?thesis by (simp add: ensureUser_def act_defs)
qed

lemma dotfiles_form_stores:
  assumes session: "requireViewer sessionUser w = (Inr v, w)" "v_flaggedAt v = None"
    and url: "formText form ''repoUrl'' = u" "u \<noteq> []" "isUrl u"
    and command: "formText form ''installCommand'' = []"
    and small: "int (length (dotfilesJson \<lparr>df_repoUrl = Some u, df_installCommand = None\<rparr>)) \<le> MAX_DOC_BYTES"
  shows "\<exists>m w'. saveDotfilesAction isUrl sessionUser form w = (Inr (ActionOk m), w')
    \<and> readDotfiles (v_userId v) w' = (Inr \<lparr>df_repoUrl = Some u, df_installCommand = None\<rparr>, w')"
proof -
  have active: "activeUser w (v_userId v)" using viewer_active [OF session] by simp
  obtain x where user: "ensureUser v w = (Inr x, w)" using viewer_row [OF session(1)] by blast
  let ?d = "\<lparr>df_repoUrl = Some u, df_installCommand = None\<rparr>"
  have input: "putDotfilesSchema isUrl (dotfilesForm form) = Some ?d"
    by (simp add: putDotfilesSchema_def dotfilesForm_def emptyAsNull_def url command zKey_def zNullable_def zMatch_def jget_def)
  obtain d w' where stored: "writeDoc (v_userId v) DotfilesDoc (dotfilesJson ?d) None w = (Inr d, w')"
    using small by (auto simp: writeDoc_outcome)
  have "saveDotfilesAction isUrl sessionUser form w = (Inr (ActionOk ''Dotfiles configuration saved.''), w')"
    using session user input stored
    by (simp add: saveDotfilesAction_def accountAction_def runAction_run bindE_answered thenE_def assertNotFlagged_def whenE_def
        zodParse_def writeDotfiles_def bindE_def retE_def)
  moreover have "readDotfiles (v_userId v) w' = (Inr ?d, w')"
    using writeDoc_stored [OF stored] by (simp add: readDotfiles_def bindE_def readDoc_at parseDotfiles_json retE_def)
  ultimately show ?thesis by blast
qed

lemma dotfiles_route_refuses:
  assumes "protocol u \<noteq> Some ''https:''" and "parseBody req (putDotfilesSchema (\<lambda>u. protocol u \<noteq> None)) None = Inr input"
    and "df_repoUrl input = Some u"
  shows "\<exists>e. dotfilesPut protocol sessionUser req w = (Inl e, w)"
proof -
  have "\<exists>e. assertHttpsRepoUrl protocol u w = (Inl e, w)"
    using assms(1) by (auto simp: assertHttpsRepoUrl_def act_defs split: option.splits)
  then obtain e where e: "assertHttpsRepoUrl protocol u w = (Inl e, w)" by blast
  from guards_answer(1) [of sessionUser w] show ?thesis
  proof (cases rule: answersApi_cases)
    case (refused st code)
    then show ?thesis by (simp add: dotfilesPut_def bindE_answered)
  next
    case viewer: (passed v)
    from guards_answer(5) [of v w] show ?thesis
      by (cases rule: answersApi_cases)
        (simp_all add: dotfilesPut_def bindE_answered viewer thenE_def ofSum_def assms(2,3) e retE_def bindE_def
          del: not_None_eq)
  qed
qed

subsection \<open>Ages\<close>

text \<open>An age is shown in the largest unit that fits: 1 to 59 minutes, 1 to 23 hours, 1 to 29 days.\<close>

lemma formatRelative_unit:
  assumes "MINUTE \<le> t - s" and "t - s < 30 * DAY"
  shows "\<exists>n unit. formatRelative (Some s) t = showInt n @ unit \<and> 1 \<le> n \<and> n < 60
    \<and> (unit = '' min ago'' \<and> n * MINUTE \<le> t - s \<and> t - s < (n + 1) * MINUTE
       \<or> unit = '' h ago'' \<and> n < 24 \<and> n * HOUR \<le> t - s \<and> t - s < (n + 1) * HOUR
       \<or> unit = '' d ago'' \<and> n < 30 \<and> n * DAY \<le> t - s \<and> t - s < (n + 1) * DAY)"
proof -
  have unit: "n * k \<le> t - s \<and> t - s < (n + 1) * k" if "n = (t - s) div k" "0 < k" for n k :: int
  proof -
    have "n * k = (t - s) - (t - s) mod k" using that(1) by (simp add: minus_mod_eq_div_mult)
    moreover have "0 \<le> (t - s) mod k" "(t - s) mod k < k" using that(2) by simp_all
    ultimately show ?thesis unfolding distrib_right by linarith
  qed
  have pos: "0 < MINUTE" "0 < HOUR" "0 < DAY" by (simp_all add: MINUTE_def HOUR_def DAY_def)
  consider "t - s < HOUR" | "HOUR \<le> t - s" "t - s < DAY" | "DAY \<le> t - s" by linarith
  then show ?thesis
  proof cases
    case 1
    then have "formatRelative (Some s) t = showInt ((t - s) div MINUTE) @ '' min ago''" "1 \<le> (t - s) div MINUTE" "(t - s) div MINUTE < 60"
      using assms(1) by (auto simp: formatRelative_def MINUTE_def HOUR_def Let_def)
    with unit [OF refl pos(1)] show ?thesis by blast
  next
    case 2
    then have "formatRelative (Some s) t = showInt ((t - s) div HOUR) @ '' h ago''" "1 \<le> (t - s) div HOUR" "(t - s) div HOUR < 24"
      by (auto simp: formatRelative_def MINUTE_def HOUR_def DAY_def Let_def)
    with unit [OF refl pos(2)] show ?thesis by (intro exI [of _ "(t - s) div HOUR"] exI [of _ "'' h ago''"]) auto
  next
    case 3
    then have "formatRelative (Some s) t = showInt ((t - s) div DAY) @ '' d ago''" "1 \<le> (t - s) div DAY" "(t - s) div DAY < 30"
      using assms(2) by (auto simp: formatRelative_def MINUTE_def HOUR_def DAY_def Let_def)
    with unit [OF refl pos(3)] show ?thesis by (intro exI [of _ "(t - s) div DAY"] exI [of _ "'' d ago''"]) auto
  qed
qed

lemma civil_epoch: "civil 0 = (1970, 1, 1)" "civil 19782 = (2024, 2, 29)" "civil (-1) = (1969, 12, 31)"
  by code_simp+

end
