(* ===== verification/Redact.thy ===== *)
theory Redact
  imports Routes
begin

text \<open>
  What leaves the program as a diagnosis: \<open>lib/redact.ts\<close> (the token shapes that are scrubbed from a text)
  and \<open>lib/log-sink.ts\<close> (the record the log sink gets). A global replacement is a scan that asks a matcher
  at every position, which sees the character before it (for \<open>\b\<close>) and the rest of the text; the matcher
  answers what replaces how many characters. Each matcher is its regular expression with its greedy
  choices written out, on ASCII classes. What \<open>new URL\<close> makes of a text is a parameter.
\<close>

section \<open>Scanning\<close>

type_synonym matcher = "char option \<Rightarrow> string \<Rightarrow> (string \<times> nat) option"

fun scan :: "matcher \<Rightarrow> char option \<Rightarrow> nat \<Rightarrow> string \<Rightarrow> string" where
  "scan m before k [] = []"
| "scan m before (Suc k) (c # cs) = scan m (Some c) k cs"
| "scan m before 0 (c # cs) = (case m before (c # cs) of
      None \<Rightarrow> c # scan m (Some c) 0 cs
    | Some (r, n) \<Rightarrow> r @ scan m (Some c) (n - 1) cs)"

definition replaceAll :: "matcher \<Rightarrow> string \<Rightarrow> string" where
  "replaceAll m s = scan m None 0 s"

text \<open>\<open>[A-Za-z0-9]\<close>, \<open>\w\<close>, \<open>[A-Za-z0-9_-]\<close>, and the boundary \<open>\b\<close> before a word character.\<close>

definition letterOrDigit :: "char \<Rightarrow> bool" where
  "letterOrDigit c \<longleftrightarrow> isLetter c \<or> isDigit c"

definition wordChar :: "char \<Rightarrow> bool" where
  "wordChar c \<longleftrightarrow> letterOrDigit c \<or> c = CHR ''_''"

definition tokenChar :: "char \<Rightarrow> bool" where
  "tokenChar c \<longleftrightarrow> wordChar c \<or> c = CHR ''-''"

definition startsWord :: "char option \<Rightarrow> bool" where
  "startsWord before \<longleftrightarrow> (case before of None \<Rightarrow> True | Some c \<Rightarrow> \<not> wordChar c)"

definition beginsWith :: "(char \<Rightarrow> bool) \<Rightarrow> string \<Rightarrow> bool" where
  "beginsWith p s \<longleftrightarrow> (case s of [] \<Rightarrow> False | c # _ \<Rightarrow> p c)"

definition prefixCI :: "string \<Rightarrow> string \<Rightarrow> bool" where
  "prefixCI k s \<longleftrightarrow> length k \<le> length s \<and> map toLower (take (length k) s) = k"

section \<open>Token shapes\<close>

definition sandboxBearer :: matcher where
  "sandboxBearer before s = (let r = takeWhile tokenChar (drop 4 s) in
     if prefix ''zsb_'' s \<and> 20 \<le> length r then Some (''zsb_[redacted]'', 4 + length r) else None)"

definition githubToken :: matcher where
  "githubToken before s = (let r = takeWhile letterOrDigit (drop 4 s) in
     if startsWord before \<and> prefix ''gh'' s \<and> beginsWith (\<lambda>c. c \<in> set ''opsur'') (drop 2 s) \<and> prefix ''_'' (drop 3 s)
        \<and> 20 \<le> length r \<and> \<not> beginsWith wordChar (drop (4 + length r) s)
     then Some (''gh_[redacted]'', 4 + length r) else None)"

definition githubPat :: matcher where
  "githubPat before s = (let r = takeWhile wordChar (drop 11 s) in
     if startsWord before \<and> prefix ''github_pat_'' s \<and> 20 \<le> length r
     then Some (''github_pat_[redacted]'', 11 + length r) else None)"

text \<open>
  A dotted segment, with its dot; the last segment, which ends at the last \<open>\b\<close> of its run that leaves
  enough characters.
\<close>

definition segment :: "nat \<Rightarrow> string \<Rightarrow> nat option" where
  "segment lo s = (let r = takeWhile tokenChar s in
     if lo \<le> length r \<and> prefix ''.'' (drop (length r) s) then Some (length r + 1) else None)"

definition lastSegment :: "nat \<Rightarrow> string \<Rightarrow> nat option" where
  "lastSegment lo s = (let r = takeWhile tokenChar s in
     find (\<lambda>n. wordChar (s ! (n - 1)) \<noteq> beginsWith wordChar (drop n s)) (rev [lo..<Suc (length r)]))"

definition jsonWebToken :: matcher where
  "jsonWebToken before s =
     (if \<not> (startsWord before \<and> prefix ''eyJ'' s) then None
      else case segment 8 (drop 3 s) of None \<Rightarrow> None
      | Some a \<Rightarrow> (case segment 8 (drop (3 + a) s) of None \<Rightarrow> None
      | Some b \<Rightarrow> (case lastSegment 8 (drop (3 + a + b) s) of None \<Rightarrow> None
      | Some c \<Rightarrow> Some (''[jwt-redacted]'', 3 + a + b + c))))"

definition installationToken :: matcher where
  "installationToken before s =
     (if \<not> (startsWord before \<and> prefix ''v1.'' s) then None
      else case segment 16 (drop 3 s) of None \<Rightarrow> None
      | Some a \<Rightarrow> (case lastSegment 16 (drop (3 + a) s) of None \<Rightarrow> None
      | Some b \<Rightarrow> Some (''v1.[redacted]'', 3 + a + b)))"

definition urlCredentials :: matcher where
  "urlCredentials before s = (let r = takeWhile (\<lambda>c. c \<noteq> CHR ''/'' \<and> c \<noteq> CHR 0x40 \<and> \<not> isSpace c) (drop 3 s) in
     if prefix ''://'' s \<and> r \<noteq> [] \<and> beginsWith (\<lambda>c. c = CHR 0x40) (drop (3 + length r) s)
     then Some (''://[redacted]'' @ [CHR 0x40], 4 + length r) else None)"

text \<open>\<open>[^&;\s]+\<close>.\<close>

definition paramRun :: "string \<Rightarrow> string" where
  "paramRun s = takeWhile (\<lambda>c. c \<noteq> CHR ''&'' \<and> c \<noteq> CHR '';'' \<and> \<not> isSpace c) s"

definition keepHead :: "nat \<Rightarrow> string \<Rightarrow> nat \<Rightarrow> string \<times> nat" where
  "keepHead k s n = (take k s @ ''[redacted]'', k + n)"

definition portParameter :: matcher where
  "portParameter before s =
     (let k = (if prefixCI ''zs_port_token='' s then 14 else if prefixCI ''zs_port_session='' s then 16 else 0);
          r = paramRun (drop k s) in
      if k \<noteq> 0 \<and> r \<noteq> [] then Some (keepHead k s (length r)) else None)"

definition bearerSeparator :: "string \<Rightarrow> nat option" where
  "bearerSeparator s = (case s of [] \<Rightarrow> None | c # cs \<Rightarrow>
     if isSpace c then Some (length (takeWhile isSpace s))
     else if c = CHR ''='' \<or> c = CHR '':'' then Some (Suc (length (takeWhile isSpace cs))) else None)"

definition bearerHeader :: matcher where
  "bearerHeader before s =
     (if \<not> (startsWord before \<and> prefixCI ''bearer'' s) then None
      else case bearerSeparator (drop 6 s) of None \<Rightarrow> None
      | Some sep \<Rightarrow> (let k = 6 + sep; r = takeWhile (\<lambda>c. tokenChar c \<or> c \<in> set ''.~+/'') (drop k s);
            es = takeWhile (\<lambda>c. c = CHR ''='') (drop (k + length r) s) in
          if r \<noteq> [] then Some (keepHead k s (length r + length es)) else None))"

definition protectionBypass :: matcher where
  "protectionBypass before s =
     (if \<not> prefixCI ''x-vercel-protection-bypass'' s then None
      else case drop 26 s of [] \<Rightarrow> None
      | c # cs \<Rightarrow> (let k = 27 + length (takeWhile isSpace cs); r = paramRun (drop k s) in
          if (c = CHR ''='' \<or> c = CHR '':'') \<and> r \<noteq> [] then Some (keepHead k s (length r)) else None))"

definition scrubSecrets :: "string \<Rightarrow> string" where
  "scrubSecrets text' = replaceAll protectionBypass (replaceAll bearerHeader (replaceAll portParameter
     (replaceAll urlCredentials (replaceAll installationToken (replaceAll jsonWebToken (replaceAll githubPat
     (replaceAll githubToken (replaceAll sandboxBearer text'))))))))"

section \<open>Diagnostic texts\<close>

text \<open>\<open>new URL\<close>: the protocol, origin and path of what it accepts.\<close>

type_synonym urlParser = "string \<Rightarrow> (string \<times> string \<times> string) option"

definition diagnosticUrl :: "urlParser \<Rightarrow> string \<Rightarrow> string" where
  "diagnosticUrl url value' = (case url value' of
      None \<Rightarrow> ''[invalid URL]''
    | Some (protocol, origin, path) \<Rightarrow>
        if protocol \<in> {''http:'', ''https:'', ''ws:'', ''wss:''} then take 512 (scrubSecrets (origin @ path))
        else protocol @ ''[redacted]'')"

definition urlText :: "urlParser \<Rightarrow> matcher" where
  "urlText url before s =
     (case find (\<lambda>k. prefix k s) [''https:'', ''http:'', ''wss:'', ''ws:'', ''blob:'', ''data:''] of None \<Rightarrow> None
      | Some k \<Rightarrow> (let r = takeWhile (\<lambda>c. \<not> isSpace c \<and> c \<noteq> CHR ''<'' \<and> c \<noteq> CHR ''>'' \<and> c \<noteq> CHR 0x22 \<and> c \<noteq> CHR 0x27)
            (drop (length k) s) in
          if r \<noteq> [] then Some (diagnosticUrl url (k @ r), length k + length r) else None))"

text \<open>\<open>printed\<close>: the message of an error or \<open>String(value)\<close>, \<open>None\<close> where that throws.\<close>

definition diagnosticText :: "urlParser \<Rightarrow> string option \<Rightarrow> nat \<Rightarrow> string" where
  "diagnosticText url printed limit' = (case printed of None \<Rightarrow> ''[unprintable error]''
     | Some t \<Rightarrow> take limit' (scrubSecrets (replaceAll (urlText url) t)))"

section \<open>The log sink\<close>

text \<open>\<open>out[key] = entry\<close>: an existing key keeps its place.\<close>

definition assignKey :: "string \<times> json \<Rightarrow> (string \<times> json) list \<Rightarrow> (string \<times> json) list" where
  "assignKey kv out = (if fst kv \<in> set (map fst out)
     then map (\<lambda>e. if fst e = fst kv then kv else e) out else out @ [kv])"

fun scrubValue :: "json \<Rightarrow> json" where
  "scrubValue (JStr s) = JStr (scrubSecrets s)"
| "scrubValue (JArr xs) = JArr (map scrubValue xs)"
| "scrubValue (JObj kvs) = JObj (fold assignKey (map (\<lambda>kv. (scrubSecrets (fst kv), scrubValue (snd kv))) kvs) [])"
| "scrubValue j = j"

fun sinkKindText :: "sinkKind \<Rightarrow> string" where
  "sinkKindText LogRecord = ''log''"
| "sinkKindText ClientErrorRecord = ''client_error''"

definition sinkJson :: "sinkRecord \<Rightarrow> json" where
  "sinkJson r = JObj [(''kind'', JStr (sinkKindText (sk_kind r))), (''workspaceId'', JStr (sk_workspaceId r)),
     (''sandboxName'', JStr (sk_sandboxName r)), (''build'', case sk_build r of None \<Rightarrow> JNull | Some b \<Rightarrow> JStr b),
     (''payload'', sk_payload r)]"

text \<open>What a record becomes: a line of the platform's log, or a request to the sink, whose failure is swallowed.\<close>

datatype sinkOutput = SinkLine string | SinkPost string "string option" string

definition shipToSink :: "env \<Rightarrow> sinkRecord \<Rightarrow> sinkOutput" where
  "shipToSink e r = (let scrubbed = r\<lparr>sk_payload := scrubValue (sk_payload r)\<rparr> in
     if \<not> truthy (ZS_LOG_SINK_URL e)
     then SinkLine (''[sink:'' @ sinkKindText (sk_kind scrubbed) @ ''] '' @ sk_sandboxName scrubbed @ '' ''
       @ take 4096 (stringify (sk_payload scrubbed)))
     else SinkPost (the (ZS_LOG_SINK_URL e)) (if truthy (ZS_LOG_SINK_TOKEN e) then Some (''Bearer '' @ the (ZS_LOG_SINK_TOKEN e)) else None)
       (stringify (sinkJson scrubbed)))"

section \<open>Lemmas\<close>

subsection \<open>No bearer of a sandbox survives\<close>

text \<open>A sandbox's bearer in a text: \<open>zsb_\<close> and at least twenty characters of its alphabet.\<close>

definition bearerAt :: "string \<Rightarrow> bool" where
  "bearerAt s \<longleftrightarrow> prefix ''zsb_'' s \<and> 20 \<le> length (takeWhile tokenChar (drop 4 s))"

fun hasBearer :: "string \<Rightarrow> bool" where
  "hasBearer [] = False"
| "hasBearer (c # cs) = (bearerAt (c # cs) \<or> hasBearer cs)"


abbreviation tokenRun :: "string \<Rightarrow> string" where
  "tokenRun s \<equiv> takeWhile tokenChar s"

lemma bearerAt_run: "bearerAt s \<longleftrightarrow> prefix ''zsb_'' (tokenRun s) \<and> 24 \<le> length (tokenRun s)"
proof -
  have chars: "tokenChar (CHR ''z'')" "tokenChar (CHR ''s'')" "tokenChar (CHR ''b'')" "tokenChar (CHR ''_'')"
    by (simp_all add: tokenChar_def wordChar_def letterOrDigit_def isLetter_def isDigit_def)
  have "prefix ''zsb_'' (tokenRun s) \<longleftrightarrow> prefix ''zsb_'' s"
    by (cases s rule: list.exhaust; simp; rename_tac a t; case_tac t; simp; rename_tac b u; case_tac u; simp; rename_tac c v;
        case_tac v; simp add: chars) (use chars in auto)
  moreover have "tokenRun s = ''zsb_'' @ tokenRun (drop 4 s)" if "prefix ''zsb_'' s"
    using that chars by (auto simp: prefix_def)
  ultimately show ?thesis unfolding bearerAt_def by auto
qed

text \<open>A run of token characters that a replacement may leave: what was there, cut short in its last character.\<close>

definition nearRun :: "string \<Rightarrow> string \<Rightarrow> bool" where
  "nearRun r q \<longleftrightarrow> length q \<le> length r \<and> take (length q - 1) q = take (length q - 1) r"

lemma near_prefix: "prefix q r \<Longrightarrow> nearRun r q"
  by (auto simp: nearRun_def prefix_def)

lemma near_Cons: "nearRun r q \<Longrightarrow> nearRun (c # r) (c # q)"
  by (cases q) (auto simp: nearRun_def)

lemma prefix_take: "prefix q s \<longleftrightarrow> take (length q) s = q"
  by (metis append_eq_conv_conj prefix_def take_is_prefix)

lemma bearerAt_near: "nearRun (tokenRun s) (tokenRun t) \<Longrightarrow> bearerAt t \<Longrightarrow> bearerAt s"
proof -
  assume nearRun: "nearRun (tokenRun s) (tokenRun t)" and t: "bearerAt t"
  have len: "24 \<le> length (tokenRun t)" "24 \<le> length (tokenRun s)"
    using nearRun t by (auto simp: nearRun_def bearerAt_run)
  have "4 \<le> length (tokenRun t) - 1" using len(1) by arith
  then have "take 4 (tokenRun t) = take 4 (take (length (tokenRun t) - 1) (tokenRun t))" "take 4 (tokenRun s) = take 4 (take (length (tokenRun t) - 1) (tokenRun s))"
    by (simp_all add: min_absorb1)
  with nearRun have "take 4 (tokenRun s) = take 4 (tokenRun t)" by (simp add: nearRun_def)
  moreover have "prefix ''zsb_'' u \<longleftrightarrow> take 4 u = ''zsb_''" for u
    using prefix_take [of "''zsb_''" u] by (simp add: eval_nat_numeral)
  ultimately show ?thesis using t len by (simp add: bearerAt_run)
qed

lemma run_append: "a \<noteq> [] \<Longrightarrow> \<not> tokenChar (last a) \<Longrightarrow> tokenRun (a @ b) = tokenRun a"
  by (rule takeWhile_append1 [of "last a"]) auto

lemma hasBearer_append: "a \<noteq> [] \<Longrightarrow> \<not> tokenChar (last a) \<Longrightarrow> hasBearer (a @ b) \<longleftrightarrow> hasBearer a \<or> hasBearer b"
proof (induction a)
  case (Cons c a)
  have "bearerAt (c # a @ b) \<longleftrightarrow> bearerAt (c # a)"
    using run_append [OF Cons.prems, of b] by (simp only: bearerAt_run append_Cons)
  then show ?case
    using Cons by (cases "a = []") (auto simp: bearerAt_run)
qed simp

lemma hasBearer_length: "hasBearer s \<Longrightarrow> 24 \<le> length s"
proof (induction s)
  case (Cons c s)
  have "length (tokenRun (c # s)) \<le> length (c # s)" by (rule length_takeWhile_le)
  with Cons show ?case by (auto simp: bearerAt_run simp del: takeWhile.simps)
qed simp

lemma hasBearer_underscore: "hasBearer s \<Longrightarrow> CHR ''_'' \<in> set s"
  by (induction s) (auto simp: bearerAt_def prefix_def)

lemma hasBearer_drop: "hasBearer (drop n s) \<Longrightarrow> hasBearer s"
proof (induction s arbitrary: n)
  case (Cons c s)
  then show ?case by (cases n) auto
qed simp

lemma prefix_run_take: "prefix (tokenRun (take n s)) (tokenRun s)"
  by (induction s arbitrary: n) (auto simp: take_Cons split: nat.split)

lemma hasBearer_take: "hasBearer (take n s) \<Longrightarrow> hasBearer s"
proof (induction s arbitrary: n)
  case (Cons c s)
  have "bearerAt (take n (c # s)) \<Longrightarrow> bearerAt (c # s)" for n
    by (rule bearerAt_near [OF near_prefix [OF prefix_run_take]])
  from this [of n] Cons show ?case by (cases n) (auto simp del: takeWhile.simps)
qed simp

text \<open>A matcher whose replacements bring no bearer back.\<close>

definition safeMatcher :: "matcher \<Rightarrow> bool" where
  "safeMatcher m \<longleftrightarrow> (\<forall>before s r n. m before s = Some (r, n) \<longrightarrow>
     r \<noteq> [] \<and> \<not> tokenChar (last r) \<and> \<not> hasBearer r \<and> nearRun (tokenRun s) (tokenRun r))"

lemma scan_near: "safeMatcher m \<Longrightarrow> nearRun (tokenRun s) (tokenRun (scan m before 0 s))"
proof (induction s arbitrary: before)
  case Nil
  then show ?case by (simp add: nearRun_def)
next
  case (Cons c cs)
  show ?case
  proof (cases "m before (c # cs)")
    case None
    then show ?thesis
      using near_Cons [OF Cons.IH [OF Cons.prems, of "Some c"], of c] by (simp add: nearRun_def)
  next
    case (Some x)
    obtain r n where x: "x = (r, n)" by (cases x)
    with Cons.prems Some have "r \<noteq> []" "\<not> tokenChar (last r)" "nearRun (tokenRun (c # cs)) (tokenRun r)"
      unfolding safeMatcher_def by blast+
    with run_append show ?thesis by (simp add: Some x)
  qed
qed

text \<open>Scanning brings none in, and the scan for bearers leaves none.\<close>

lemma scan_bearer:
  assumes safe: "safeMatcher m"
    and "\<not> hasBearer s \<or> (\<forall>before s. bearerAt s \<longrightarrow> m before s \<noteq> None)"
  shows "\<not> hasBearer (scan m before k s)"
  using assms(2)
proof (induction s arbitrary: before k)
  case (Cons c cs)
  from Cons.prems have tail: "\<not> hasBearer cs \<or> (\<forall>before s. bearerAt s \<longrightarrow> m before s \<noteq> None)" by auto
  show ?case
  proof (cases k)
    case (Suc j)
    then show ?thesis using Cons.IH [OF tail] by simp
  next
    case 0
    show ?thesis
    proof (cases "m before (c # cs)")
      case None
      with Cons.prems have "\<not> bearerAt (c # cs)" by (metis hasBearer.simps(2))
      moreover have "bearerAt (c # scan m (Some c) 0 cs) \<Longrightarrow> bearerAt (c # cs)"
        by (rule bearerAt_near [of "c # cs"]) (use near_Cons [OF scan_near [OF safe]] in \<open>auto simp: nearRun_def\<close>)
      ultimately show ?thesis using 0 None Cons.IH [OF tail, of "Some c" 0] by auto
    next
      case (Some x)
      obtain r n where x: "x = (r, n)" by (cases x)
      with Some safe have "r \<noteq> []" "\<not> tokenChar (last r)" "\<not> hasBearer r" unfolding safeMatcher_def by blast+
      with 0 Some x hasBearer_append Cons.IH [OF tail] show ?thesis by simp
    qed
  qed
qed simp

lemma safeI:
  assumes "\<And>before s r n. m before s = Some (r, n) \<Longrightarrow> r \<noteq> [] \<and> \<not> tokenChar (last r) \<and> \<not> hasBearer r \<and> nearRun (tokenRun s) (tokenRun r)"
  shows "safeMatcher m"
  using assms unfolding safeMatcher_def by blast

lemmas char_classes = tokenChar_def wordChar_def letterOrDigit_def isLetter_def isDigit_def

lemma short_run: "length s < 24 \<Longrightarrow> \<not> hasBearer s"
  using hasBearer_length by fastforce

lemma safe_short:
  assumes "\<And>before s r n. m before s = Some (r, n) \<Longrightarrow> r \<noteq> [] \<and> \<not> tokenChar (last r) \<and> length r < 24 \<and> nearRun (tokenRun s) (tokenRun r)"
  shows "safeMatcher m"
  by (rule safeI) (use assms short_run in blast)

lemma safe_sandboxBearer: "safeMatcher sandboxBearer"
  by (rule safe_short) (auto simp: sandboxBearer_def Let_def prefix_def char_classes nearRun_def split: if_splits)

lemma safe_githubToken: "safeMatcher githubToken"
proof (rule safe_short)
  fix before s r n
  assume some: "githubToken before s = Some (r, n)"
  then have r: "r = ''gh_[redacted]''" and s: "prefix ''gh'' s" "beginsWith (\<lambda>c. c \<in> set ''opsur'') (drop 2 s)"
    by (auto simp: githubToken_def Let_def split: if_splits)
  from s obtain k t where "s = CHR ''g'' # CHR ''h'' # k # t" "k \<in> set ''opsur''"
    by (auto simp: prefix_def beginsWith_def split: list.splits)
  then show "r \<noteq> [] \<and> \<not> tokenChar (last r) \<and> length r < 24 \<and> nearRun (tokenRun s) (tokenRun r)"
    by (auto simp: r char_classes nearRun_def)
qed

lemma safe_githubPat: "safeMatcher githubPat"
  by (rule safe_short) (auto simp: githubPat_def Let_def prefix_def char_classes nearRun_def split: if_splits)

lemma safe_jsonWebToken: "safeMatcher jsonWebToken"
  by (rule safe_short) (auto simp: jsonWebToken_def char_classes nearRun_def split: if_splits option.splits)

lemma safe_installationToken: "safeMatcher installationToken"
  by (rule safe_short) (auto simp: installationToken_def prefix_def char_classes nearRun_def split: if_splits option.splits)

lemma safe_urlCredentials: "safeMatcher urlCredentials"
  by (rule safe_short) (auto simp: urlCredentials_def Let_def char_classes nearRun_def split: if_splits)

text \<open>A replacement that keeps the head of its match.\<close>

lemma redacted_text: "\<not> tokenChar (last ''[redacted]'')" "\<not> hasBearer ''[redacted]''" "tokenRun (''[redacted]'' @ t) = []"
proof -
  show "\<not> hasBearer ''[redacted]''" by (rule short_run) simp
qed (simp_all add: char_classes)

lemma run_before: "\<not> tokenChar x \<Longrightarrow> tokenRun (a @ x # b) = tokenRun a"
  by (induction a) auto

lemma hasBearer_before: "\<not> tokenChar x \<Longrightarrow> hasBearer (a @ x # b) \<longleftrightarrow> hasBearer a \<or> hasBearer (x # b)"
proof (induction a)
  case (Cons c a)
  have "bearerAt (c # a @ x # b) \<longleftrightarrow> bearerAt (c # a)"
    using run_before [OF Cons.prems, of "c # a" b] by (simp only: bearerAt_run append_Cons)
  with Cons show ?case by auto
qed simp

lemma kept_head:
  assumes "keepHead k s n = (r, m)" and "\<not> hasBearer (take k s)"
  shows "r \<noteq> [] \<and> \<not> tokenChar (last r) \<and> \<not> hasBearer r \<and> nearRun (tokenRun s) (tokenRun r)"
proof -
  have r: "r = take k s @ CHR ''['' # ''redacted]''" using assms(1) by (simp add: keepHead_def)
  have x: "\<not> tokenChar (CHR ''['')" by (simp add: char_classes)
  have "tokenRun r = tokenRun (take k s)" unfolding r by (rule run_before [OF x])
  moreover have "\<not> hasBearer r" unfolding r hasBearer_before [OF x] using assms(2) redacted_text(2) by simp
  moreover have "r \<noteq> []" "\<not> tokenChar (last r)" by (simp_all add: r char_classes)
  ultimately show ?thesis using near_prefix [OF prefix_run_take] by simp
qed

lemma hasBearer_spaces: "\<not> hasBearer (a @ takeWhile isSpace s)" if "\<not> hasBearer a"
proof (cases "takeWhile isSpace s")
  case (Cons x t)
  have space: "isSpace c \<Longrightarrow> \<not> tokenChar c" for c by (auto simp: isSpace_def char_classes)
  have none: "\<not> hasBearer u" if "\<And>c. c \<in> set u \<Longrightarrow> isSpace c" for u
    using that hasBearer_underscore [of u] by (auto simp: isSpace_def)
  have "isSpace c" if "c \<in> set (x # t)" for c using that set_takeWhileD [of c isSpace s] Cons by auto
  then show ?thesis using space [of x] none [of "x # t"] that Cons by (simp add: hasBearer_before)
qed (use that in simp)

lemma safe_portParameter: "safeMatcher portParameter"
proof (rule safeI)
  fix before s r n
  assume "portParameter before s = Some (r, n)"
  then obtain k j where "keepHead k s j = (r, n)" "k \<in> {14, 16}"
    by (auto simp: portParameter_def Let_def split: if_splits)
  moreover from this(2) have "\<not> hasBearer (take k s)" by (intro short_run) auto
  ultimately show "r \<noteq> [] \<and> \<not> tokenChar (last r) \<and> \<not> hasBearer r \<and> nearRun (tokenRun s) (tokenRun r)" by (intro kept_head)
qed

text \<open>A separator: one character that is none of a token, then blanks.\<close>

lemma separated_head: "\<not> hasBearer (take (k + Suc (length (takeWhile isSpace cs))) s)"
  if "drop k s = c # cs" "\<not> tokenChar c" "\<not> hasBearer (take k s)"
proof -
  have "take (k + Suc (length (takeWhile isSpace cs))) s = take k s @ take (Suc (length (takeWhile isSpace cs))) (drop k s)"
    by (simp only: take_add)
  also have "\<dots> = take k s @ [c] @ takeWhile isSpace cs"
    by (simp add: that(1)) (metis takeWhile_eq_take)
  finally have eq: "take (k + Suc (length (takeWhile isSpace cs))) s = (take k s @ [c]) @ takeWhile isSpace cs" by simp
  have "\<not> hasBearer (take k s @ [c])"
    using that(2,3) by (simp add: hasBearer_before bearerAt_def)
  then show ?thesis unfolding eq by (rule hasBearer_spaces)
qed

lemma separator_char: "\<not> tokenChar (CHR ''='')" "\<not> tokenChar (CHR '':'')"
  by (auto simp: char_classes)

lemma safe_bearerHeader: "safeMatcher bearerHeader"
proof (rule safeI)
  fix before s r n
  assume some: "bearerHeader before s = Some (r, n)"
  then obtain sep j where sep: "bearerSeparator (drop 6 s) = Some sep" "keepHead (6 + sep) s j = (r, n)"
    by (auto simp: bearerHeader_def Let_def split: if_splits option.splits)
  have space: "isSpace c \<Longrightarrow> \<not> tokenChar c" for c by (auto simp: isSpace_def char_classes)
  from sep(1) obtain c cs where c: "drop 6 s = c # cs" "\<not> tokenChar c" "sep = Suc (length (takeWhile isSpace cs))"
    by (auto simp: bearerSeparator_def separator_char dest: space split: list.splits if_splits)
  have "\<not> hasBearer (take (6 + sep) s)"
    unfolding c(3) by (rule separated_head [OF c(1,2)]) (intro short_run, simp)
  with sep(2) show "r \<noteq> [] \<and> \<not> tokenChar (last r) \<and> \<not> hasBearer r \<and> nearRun (tokenRun s) (tokenRun r)" by (intro kept_head)
qed

lemma safe_protectionBypass: "safeMatcher protectionBypass"
proof (rule safeI)
  fix before s r n
  assume some: "protectionBypass before s = Some (r, n)"
  then obtain c cs j where c: "drop 26 s = c # cs" "c = CHR ''='' \<or> c = CHR '':''"
      and kept: "keepHead (26 + Suc (length (takeWhile isSpace cs))) s j = (r, n)" and name: "prefixCI ''x-vercel-protection-bypass'' s"
    by (auto simp: protectionBypass_def Let_def split: if_splits list.splits)
  have "\<not> hasBearer (take 26 s)"
  proof
    assume "hasBearer (take 26 s)"
    then have "toLower (CHR ''_'') \<in> set (map toLower (take 26 s))" using hasBearer_underscore by (simp add: image_eqI)
    moreover have "map toLower (take 26 s) = ''x-vercel-protection-bypass''"
      using name by (simp add: prefixCI_def eval_nat_numeral)
    moreover have "toLower (CHR ''_'') = CHR ''_''" by (simp add: toLower_def)
    ultimately show False by simp
  qed
  then have "\<not> hasBearer (take (26 + Suc (length (takeWhile isSpace cs))) s)"
    using c(2) by (intro separated_head [OF c(1)]) (auto simp: char_classes)
  with kept show "r \<noteq> [] \<and> \<not> tokenChar (last r) \<and> \<not> hasBearer r \<and> nearRun (tokenRun s) (tokenRun r)" by (intro kept_head)
qed

lemma scrubSecrets_bearer: "\<not> hasBearer (scrubSecrets s)"
proof -
  have found: "bearerAt t \<Longrightarrow> sandboxBearer before t \<noteq> None" for before t by (simp add: bearerAt_def sandboxBearer_def Let_def)
  have first: "\<not> hasBearer (replaceAll sandboxBearer s)"
    unfolding replaceAll_def by (rule scan_bearer [OF safe_sandboxBearer]) (use found in blast)
  have later: "\<not> hasBearer t \<Longrightarrow> safeMatcher m \<Longrightarrow> \<not> hasBearer (replaceAll m t)" for m t
    unfolding replaceAll_def by (rule scan_bearer) auto
  show ?thesis
    unfolding scrubSecrets_def
    by (intro later first safe_githubToken safe_githubPat safe_jsonWebToken safe_installationToken safe_urlCredentials
        safe_portParameter safe_bearerHeader safe_protectionBypass)
qed

subsection \<open>What reaches the sink\<close>

text \<open>Every text of a document, its keys included.\<close>

fun jsonTexts :: "json \<Rightarrow> string list" where
  "jsonTexts (JStr s) = [s]"
| "jsonTexts (JArr xs) = concat (map jsonTexts xs)"
| "jsonTexts (JObj kvs) = concat (map (\<lambda>kv. fst kv # jsonTexts (snd kv)) kvs)"
| "jsonTexts j = []"

lemma set_assignKeys: "set (fold assignKey kvs out) \<subseteq> set kvs \<union> set out"
proof (induction kvs arbitrary: out)
  case (Cons kv kvs)
  have "set (assignKey kv out) \<subseteq> insert kv (set out)" by (auto simp: assignKey_def)
  with Cons [of "assignKey kv out"] show ?case by auto
qed simp

lemma scrubValue_texts: "t \<in> set (jsonTexts (scrubValue j)) \<Longrightarrow> \<not> hasBearer t"
proof (induction j arbitrary: t rule: scrubValue.induct)
  case (3 kvs)
  let ?kvs = "map (\<lambda>kv. (scrubSecrets (fst kv), scrubValue (snd kv))) kvs"
  from 3(2) obtain kv where "kv \<in> set (fold assignKey ?kvs [])" "t = fst kv \<or> t \<in> set (jsonTexts (snd kv))" by auto
  with set_assignKeys [of ?kvs "[]"] obtain e where "e \<in> set kvs" "t = scrubSecrets (fst e) \<or> t \<in> set (jsonTexts (scrubValue (snd e)))"
    by auto
  moreover obtain a b where "e = (a, b)" by (cases e)
  ultimately show ?case using 3(1) scrubSecrets_bearer by fastforce
qed (auto simp: scrubSecrets_bearer)

text \<open>Writing a text as JSON brings no bearer in: an escape starts with a backslash, and none of its letters starts one.\<close>

lemma run_quoted: "prefix (tokenRun (concat (map escapeChar s))) (tokenRun s)"
proof (induction s)
  case (Cons c s)
  show ?case
  proof (cases "escapeChar c = [c]")
    case True
    with Cons show ?thesis by simp
  next
    case False
    then have "hd (escapeChar c) = CHR 0x5C" "escapeChar c \<noteq> []" by (auto simp: escapeChar_def split: if_splits)
    then have "tokenRun (escapeChar c @ t) = []" for t by (cases "escapeChar c") (auto simp: char_classes)
    then show ?thesis by simp
  qed
qed simp

lemma bearerAt_z: "bearerAt (c # s) \<Longrightarrow> c = CHR ''z''"
  by (auto simp: bearerAt_def)

lemma hasBearer_skip: "list_all (\<lambda>c. c \<noteq> CHR ''z'') a \<Longrightarrow> hasBearer (a @ s) \<longleftrightarrow> hasBearer s"
  by (induction a) (auto dest: bearerAt_z)

lemma escape_no_z: "escapeChar c \<noteq> [c] \<Longrightarrow> list_all (\<lambda>x. x \<noteq> CHR ''z'') (escapeChar c)"
proof -
  have "hexLower d \<noteq> CHR ''z''" for d
  proof -
    have "hexLower d \<in> set ''0123456789abcdef''" unfolding hexLower_def by (rule nth_mem) simp
    then show ?thesis by auto
  qed
  then show "escapeChar c \<noteq> [c] \<Longrightarrow> ?thesis" by (auto simp: escapeChar_def split: if_splits)
qed

lemma hasBearer_escaped: "\<not> hasBearer s \<Longrightarrow> \<not> hasBearer (concat (map escapeChar s))"
proof (induction s)
  case (Cons c s)
  show ?case
  proof (cases "escapeChar c = [c]")
    case True
    have "bearerAt (c # concat (map escapeChar s)) \<Longrightarrow> bearerAt (c # s)"
      by (rule bearerAt_near [OF near_prefix]) (use run_quoted [of "c # s"] True in \<open>simp del: takeWhile.simps\<close>)
    with Cons True show ?thesis by auto
  next
    case False
    with Cons hasBearer_skip [OF escape_no_z] show ?thesis by simp
  qed
qed simp

lemma hasBearer_quoted: "\<not> hasBearer s \<Longrightarrow> \<not> hasBearer (quoteJson s)"
proof -
  assume s: "\<not> hasBearer s"
  have q: "\<not> tokenChar (CHR 0x22)" by (simp add: char_classes)
  have "\<not> hasBearer (concat (map escapeChar s) @ [CHR 0x22])"
    using hasBearer_escaped [OF s] hasBearer_before [OF q, of "concat (map escapeChar s)" "[]"] by (simp add: bearerAt_def)
  then show ?thesis by (auto simp: quoteJson_def dest: bearerAt_z)
qed

lemma hasBearer_no_z: "CHR ''z'' \<notin> set s \<Longrightarrow> \<not> hasBearer s"
  using hasBearer_skip [of s "[]"] by (auto simp: list_all_iff)

lemma hasBearer_number: "\<not> hasBearer (showInt n)" "\<not> hasBearer (showDec m k)"
proof -
  have digits: "CHR ''z'' \<notin> set (showNat i)" for i
  proof
    assume "CHR ''z'' \<in> set (showNat i)"
    then have "isDigit (CHR ''z'')" using showNat_digits [of i] by (simp only: list_all_iff)
    then show False by (simp add: isDigit_def)
  qed
  show "\<not> hasBearer (showInt n)" by (rule hasBearer_no_z) (simp add: showInt_def digits)
  let ?p = "replicate (Suc k - length (showNat (nat \<bar>m\<bar>))) CHR ''0'' @ showNat (nat \<bar>m\<bar>)"
  have "CHR ''z'' \<notin> set ?p" using digits by (simp add: set_replicate_conv_if)
  then have "CHR ''z'' \<notin> set (take i ?p)" "CHR ''z'' \<notin> set (drop i ?p)" for i
    by (meson in_set_takeD in_set_dropD)+
  then show "\<not> hasBearer (showDec m k)"
    unfolding showDec_def Let_def by (intro hasBearer_no_z) (auto simp del: take_append drop_append)
qed

lemma hasBearer_join: "(\<And>x. x \<in> set xs \<Longrightarrow> \<not> hasBearer x) \<Longrightarrow> \<not> hasBearer (joinWith CHR '','' xs)"
proof (induction xs rule: induct_list012)
  case (3 x y zs)
  have comma: "\<not> tokenChar (CHR '','')" by (simp add: char_classes)
  from 3 have "\<not> hasBearer x" "\<not> hasBearer (joinWith CHR '','' (y # zs))" by simp_all
  then show ?case by (auto simp: hasBearer_before [OF comma] dest: bearerAt_z)
qed simp_all

lemma hasBearer_enclosed: "c \<noteq> CHR ''z'' \<Longrightarrow> \<not> tokenChar d \<Longrightarrow> \<not> hasBearer s \<Longrightarrow> \<not> hasBearer (c # s @ [d])"
  using hasBearer_before [of d s "[]"] by (auto dest: bearerAt_z simp: bearerAt_def char_classes)

lemma stringify_bearer: "(\<And>t. t \<in> set (jsonTexts j) \<Longrightarrow> \<not> hasBearer t) \<Longrightarrow> \<not> hasBearer (stringify j)"
proof (induction j rule: stringify.induct)
  case 1
  then show ?case by (intro hasBearer_no_z) simp
next
  case (2 b)
  then show ?case by (intro hasBearer_no_z) simp
next
  case (6 xs)
  have "\<not> hasBearer (joinWith CHR '','' (map stringify xs))" by (rule hasBearer_join) (use 6 in auto)
  then show ?case unfolding stringify.simps by (intro hasBearer_enclosed) (simp_all add: char_classes)
next
  case (7 kvs)
  have colon: "\<not> tokenChar (CHR '':'')" by (simp add: char_classes)
  have "\<not> hasBearer (joinWith CHR '','' (map (\<lambda>kv. quoteJson (fst kv) @ CHR '':'' # stringify (snd kv)) kvs))"
  proof (rule hasBearer_join)
    fix x assume "x \<in> set (map (\<lambda>kv. quoteJson (fst kv) @ CHR '':'' # stringify (snd kv)) kvs)"
    then obtain kv where kv: "kv \<in> set kvs" "x = quoteJson (fst kv) @ CHR '':'' # stringify (snd kv)" by auto
    have "\<not> hasBearer (stringify (snd kv))" by (rule 7(1) [OF kv(1)]) (use 7(2) kv(1) in auto)
    moreover have "\<not> hasBearer (fst kv)" using 7(2) kv(1) by auto
    ultimately show "\<not> hasBearer x"
      by (auto simp: kv(2) hasBearer_before [OF colon] hasBearer_quoted dest: bearerAt_z)
  qed
  then show ?case unfolding stringify.simps by (intro hasBearer_enclosed) (simp_all add: char_classes)
qed (simp_all add: hasBearer_number hasBearer_quoted)

lemma shipped_payload: "\<not> hasBearer (stringify (scrubValue j))"
  by (rule stringify_bearer) (rule scrubValue_texts)

lemma diagnosticText_bearer: "\<not> hasBearer (diagnosticText url printed n)"
proof (cases printed)
  case None
  have "\<not> hasBearer ''[unprintable error]''" by (rule hasBearer_no_z) simp
  then show ?thesis unfolding None diagnosticText_def option.case .
next
  case (Some t)
  then show ?thesis
    using hasBearer_take [of n "scrubSecrets (replaceAll (urlText url) t)"] scrubSecrets_bearer
    by (auto simp: diagnosticText_def)
qed

definition outputText :: "sinkOutput \<Rightarrow> string" where
  "outputText out = (case out of SinkLine l \<Rightarrow> l | SinkPost _ _ body \<Rightarrow> body)"

lemma shipToSink_bearer:
  assumes "\<not> hasBearer (sk_sandboxName r)" and "\<not> hasBearer (sk_workspaceId r)" and "\<And>b. sk_build r = Some b \<Longrightarrow> \<not> hasBearer b"
  shows "\<not> hasBearer (outputText (shipToSink e r))"
proof -
  have space: "\<not> tokenChar (CHR '' '')" and close: "\<not> tokenChar (CHR '']'')" by (simp_all add: char_classes)
  have kind: "\<not> hasBearer (sinkKindText k)" for k by (cases k) (auto intro!: hasBearer_no_z simp del: hasBearer.simps)
  have clean: "\<not> hasBearer (take 4096 (stringify (scrubValue (sk_payload r))))"
    using hasBearer_take shipped_payload by blast
  have "\<not> hasBearer ((''[sink:'' @ sinkKindText k) @ CHR '']'' # CHR '' '' # sk_sandboxName r @ CHR '' '' # take 4096 (stringify (scrubValue (sk_payload r))))" for k
    unfolding hasBearer_before [OF close]
    using kind [of k] assms(1) clean hasBearer_skip [of "''[sink:''" "sinkKindText k"]
    by (auto simp: hasBearer_before [OF space] dest!: bearerAt_z)
  moreover have "\<not> hasBearer (stringify (sinkJson (r\<lparr>sk_payload := scrubValue (sk_payload r)\<rparr>)))"
  proof (rule stringify_bearer)
    fix t assume "t \<in> set (jsonTexts (sinkJson (r\<lparr>sk_payload := scrubValue (sk_payload r)\<rparr>)))"
    then have "t \<in> {''kind'', ''workspaceId'', ''sandboxName'', ''build'', ''payload'', sinkKindText (sk_kind r), sk_workspaceId r, sk_sandboxName r}
        \<or> sk_build r = Some t \<or> t \<in> set (jsonTexts (scrubValue (sk_payload r)))"
      by (auto simp: sinkJson_def split: option.splits)
    moreover have "\<not> hasBearer ''kind''" "\<not> hasBearer ''workspaceId''" "\<not> hasBearer ''sandboxName''" "\<not> hasBearer ''build''"
        "\<not> hasBearer ''payload''"
      by (rule hasBearer_no_z, simp)+
    ultimately show "\<not> hasBearer t" using assms kind scrubValue_texts by blast
  qed
  ultimately show ?thesis by (simp add: shipToSink_def outputText_def Let_def)
qed

text \<open>The build a report claims to come from is not scrubbed, though it is the reporter's own text.\<close>

lemma build_not_scrubbed:
  "hasBearer (outputText (shipToSink (defaultEnv\<lparr>ZS_LOG_SINK_URL := Some ''https://sink''\<rparr>)
     \<lparr>sk_kind = ClientErrorRecord, sk_workspaceId = ''ws'', sk_sandboxName = ''sb'',
      sk_build = Some ''zsb_AAAAAAAAAAAAAAAAAAAAAAAA'', sk_payload = JNull\<rparr>))"
  by code_simp

end
