(* ===== verification/Diagnostics.thy ===== *)
theory Diagnostics
  imports Redact
begin

text \<open>
  The page's recorder of browser events (\<open>app/(editor)/w/[id]/diagnostics.ts\<close>): a bounded list of
  scrubbed entries, the phase of the boot, one frame profile at a time. Instants and durations are
  microseconds. What a listener or an observer of the browser delivers is an event; the listeners are gone
  once the recorder is disposed of, while its own operations can still be called. How a profile prints is a
  parameter.
\<close>

record entry =
  en_at :: int
  en_kind :: string
  en_message :: string
  en_duration :: "int option"
  en_count :: nat
  en_status :: "int option"
  en_transferBytes :: "int option"

definition LIMIT :: nat where "LIMIT = 200"

text \<open>A running profile: when it started, its length, the gaps between frames, the last frame.\<close>

record profiling =
  pr_started :: int
  pr_micros :: int
  pr_gaps :: "int list"
  pr_previous :: "int option"

record profileResult =
  fr_frames :: nat
  fr_total :: int
  fr_p95 :: "int option"
  fr_max :: "int option"
  fr_interrupted :: bool

record diagnostics =
  dg_entries :: "entry list"
  dg_dropped :: nat
  dg_disposed :: bool
  dg_phase :: string
  dg_phaseStart :: int
  dg_profile :: "profiling option"
  dg_traps :: nat
  dg_results :: "profileResult list"

definition newDiagnostics :: "int \<Rightarrow> diagnostics" where
  "newDiagnostics t = \<lparr>dg_entries = [], dg_dropped = 0, dg_disposed = False, dg_phase = ''loading'', dg_phaseStart = t,
     dg_profile = None, dg_traps = 0, dg_results = []\<rparr>"

section \<open>Recording\<close>

text \<open>\<open>Math.round\<close> to a multiple of \<open>unit\<close> microseconds.\<close>

definition roundTo :: "int \<Rightarrow> int \<Rightarrow> int" where
  "roundTo unit t = (t + unit div 2) div unit"

definition sameEvent :: "string \<Rightarrow> string \<Rightarrow> entry \<Rightarrow> bool" where
  "sameEvent kind message e \<longleftrightarrow> en_kind e = kind \<and> en_message e = message"

definition newEntry :: "int \<Rightarrow> string \<Rightarrow> string \<Rightarrow> int option \<Rightarrow> (int option \<times> int option) option \<Rightarrow> entry" where
  "newEntry t kind message duration resource = \<lparr>en_at = roundTo 1000 t, en_kind = kind, en_message = message,
     en_duration = map_option (roundTo 100) duration, en_count = 1,
     en_status = (case resource of None \<Rightarrow> None | Some r \<Rightarrow> fst r),
     en_transferBytes = (case resource of None \<Rightarrow> None | Some r \<Rightarrow> snd r)\<rparr>"

text \<open>\<open>entries.findIndex\<close>, and \<open>entries.splice(i, 1)\<close>.\<close>

fun resourceIndex :: "entry list \<Rightarrow> nat option" where
  "resourceIndex [] = None"
| "resourceIndex (e # es) = (if en_kind e = ''resource'' then Some 0 else map_option Suc (resourceIndex es))"

definition removeAt :: "nat \<Rightarrow> 'a list \<Rightarrow> 'a list" where
  "removeAt i xs = take i xs @ drop (Suc i) xs"

definition bump :: "entry list \<Rightarrow> entry list" where
  "bump es = butlast es @ [(last es)\<lparr>en_count := Suc (en_count (last es))\<rparr>]"

definition record' ::
  "urlParser \<Rightarrow> int \<Rightarrow> string \<Rightarrow> string \<Rightarrow> int option \<Rightarrow> (int option \<times> int option) option \<Rightarrow> diagnostics \<Rightarrow> diagnostics" where
  "record' url t kind message duration resource d =
     (if dg_disposed d then d
      else let safe = diagnosticText url (Some message) 2048; es = dg_entries d in
        if es \<noteq> [] \<and> sameEvent kind safe (last es) \<and> duration = None then d\<lparr>dg_entries := bump es\<rparr>
        else if length es = LIMIT then
          (case resourceIndex es of
             None \<Rightarrow> if kind = ''resource'' then d\<lparr>dg_dropped := Suc (dg_dropped d)\<rparr>
               else d\<lparr>dg_entries := removeAt 0 es @ [newEntry t kind safe duration resource], dg_dropped := Suc (dg_dropped d)\<rparr>
           | Some i \<Rightarrow> d\<lparr>dg_entries := removeAt i es @ [newEntry t kind safe duration resource], dg_dropped := Suc (dg_dropped d)\<rparr>)
        else d\<lparr>dg_entries := es @ [newEntry t kind safe duration resource]\<rparr>)"

text \<open>A thrown value: an \<open>Error\<close> with its name, message and stack, or what \<open>String\<close> makes of it.\<close>

datatype thrown = ErrorValue string string string | OtherValue "string option"

definition recordError :: "urlParser \<Rightarrow> int \<Rightarrow> string \<Rightarrow> thrown \<Rightarrow> diagnostics \<Rightarrow> diagnostics" where
  "recordError url t kind err d = record' url t kind (case err of
       ErrorValue name message stack \<Rightarrow> name @ '': '' @ message @ CHR 0x0A # stack
     | OtherValue printed \<Rightarrow> diagnosticText url printed 2048) None None d"

definition stage :: "urlParser \<Rightarrow> int \<Rightarrow> string \<Rightarrow> diagnostics \<Rightarrow> diagnostics" where
  "stage url t phase d =
     (if dg_disposed d \<or> phase = dg_phase d then d
      else (record' url t ''phase'' (dg_phase d) (Some (t - dg_phaseStart d)) None d)\<lparr>dg_phase := phase, dg_phaseStart := t\<rparr>)"

definition clearEntries :: "diagnostics \<Rightarrow> diagnostics" where
  "clearEntries d = d\<lparr>dg_entries := [], dg_dropped := 0\<rparr>"

section \<open>Profiles\<close>

definition profileResultOf :: "profiling \<Rightarrow> int \<Rightarrow> profileResult" where
  "profileResultOf p t = (let gaps = sort (pr_gaps p) in
     \<lparr>fr_frames = length gaps, fr_total = sum_list gaps,
      fr_p95 = (if gaps = [] then None else Some (gaps ! ((length gaps * 19 + 19) div 20 - 1))),
      fr_max = (if gaps = [] then None else Some (last gaps)), fr_interrupted = (t - pr_started p < pr_micros p)\<rparr>)"

definition finishProfile :: "urlParser \<Rightarrow> (profileResult \<Rightarrow> string) \<Rightarrow> int \<Rightarrow> diagnostics \<Rightarrow> diagnostics" where
  "finishProfile url shown t d = (case dg_profile d of None \<Rightarrow> d
     | Some p \<Rightarrow> (let res = profileResultOf p t in
         (record' url t ''profile'' (shown res) (Some (t - pr_started p)) None (d\<lparr>dg_profile := None\<rparr>))
           \<lparr>dg_results := dg_results d @ [res]\<rparr>))"

text \<open>\<open>None\<close> is the rejected promise. A length of \<open>None\<close> is not finite.\<close>

definition startProfile :: "bool \<Rightarrow> int \<Rightarrow> int option \<Rightarrow> diagnostics \<Rightarrow> diagnostics option" where
  "startProfile hidden t micros d = (case micros of None \<Rightarrow> None
     | Some m \<Rightarrow> if m < 1000000 \<or> m > 30000000 then None
         else if dg_disposed d \<or> hidden \<or> dg_profile d \<noteq> None then None
         else Some (d\<lparr>dg_profile := Some \<lparr>pr_started = t, pr_micros = m, pr_gaps = [], pr_previous = None\<rparr>\<rparr>))"

definition frameTick :: "int \<Rightarrow> diagnostics \<Rightarrow> diagnostics" where
  "frameTick time d = (case dg_profile d of None \<Rightarrow> d
     | Some p \<Rightarrow> d\<lparr>dg_profile := Some (p\<lparr>pr_gaps := (case pr_previous p of None \<Rightarrow> pr_gaps p
           | Some before \<Rightarrow> if length (pr_gaps p) < 10000 then pr_gaps p @ [time - before] else pr_gaps p),
         pr_previous := Some time\<rparr>)\<rparr>)"

definition disposeDiagnostics :: "urlParser \<Rightarrow> (profileResult \<Rightarrow> string) \<Rightarrow> int \<Rightarrow> diagnostics \<Rightarrow> diagnostics" where
  "disposeDiagnostics url shown t d = (finishProfile url shown t d)\<lparr>dg_disposed := True\<rparr>"

section \<open>Events\<close>

datatype browserEvent =
    ScriptError thrown bool
  | ResourceError string
  | Rejection thrown bool
  | PolicyViolation string string
  | PageEvent string
  | VisibilityChange string bool
  | ResourceTiming string int "int option" int
  | LongTask int

definition trapped :: "bool \<Rightarrow> diagnostics \<Rightarrow> diagnostics" where
  "trapped trap d = (if trap then d\<lparr>dg_traps := Suc (dg_traps d)\<rparr> else d)"

text \<open>The flag of an error says that it is a \<open>WebAssembly.RuntimeError\<close>.\<close>

fun onBrowserEvent ::
  "urlParser \<Rightarrow> (profileResult \<Rightarrow> string) \<Rightarrow> int \<Rightarrow> browserEvent \<Rightarrow> diagnostics \<Rightarrow> diagnostics" where
  "onBrowserEvent url shown t (ScriptError err trap) d = trapped trap (recordError url t ''javascript'' err d)"
| "onBrowserEvent url shown t (ResourceError u) d =
     (if u = [] then d else record' url t ''resource-error'' (diagnosticUrl url u) None None d)"
| "onBrowserEvent url shown t (Rejection err trap) d = trapped trap (recordError url t ''unhandled-rejection'' err d)"
| "onBrowserEvent url shown t (PolicyViolation directive' blocked) d =
     (let source = (if blocked = [] then ''unknown'' else if blocked = ''inline'' \<or> blocked = ''eval'' then blocked
          else diagnosticUrl url blocked) in
      record' url t ''csp'' (directive' @ '': '' @ source) None None d)"
| "onBrowserEvent url shown t (PageEvent name) d = record' url t ''page'' name None None d"
| "onBrowserEvent url shown t (VisibilityChange state hidden) d =
     (let d' = record' url t ''page'' state None None d in if hidden then finishProfile url shown t d' else d')"
| "onBrowserEvent url shown t (ResourceTiming name duration status bytes) d =
     record' url t ''resource'' (diagnosticUrl url name) (Some duration)
       (Some (if status = Some 0 then None else status, Some bytes)) d"
| "onBrowserEvent url shown t (LongTask duration) d = record' url t ''longtask'' ''main-thread task'' (Some duration) None d"

section \<open>Steps\<close>

text \<open>Everything that can happen to a recorder, in any order.\<close>

inductive diagStep :: "urlParser \<Rightarrow> (profileResult \<Rightarrow> string) \<Rightarrow> diagnostics \<Rightarrow> diagnostics \<Rightarrow> bool"
  for url shown where
  listened: "\<not> dg_disposed d \<Longrightarrow> diagStep url shown d (onBrowserEvent url shown t ev d)"
| recorded: "diagStep url shown d (record' url t kind message duration resource d)"
| errored: "diagStep url shown d (recordError url t kind err d)"
| staged: "diagStep url shown d (stage url t phase d)"
| cleared: "diagStep url shown d (clearEntries d)"
| profiled: "startProfile hidden t micros d = Some d' \<Longrightarrow> diagStep url shown d d'"
| ticked: "diagStep url shown d (frameTick time d)"
| finished: "diagStep url shown d (finishProfile url shown t d)"
| disposed: "diagStep url shown d (disposeDiagnostics url shown t d)"

section \<open>Lemmas\<close>

text \<open>The recorder stays bounded, every entry happened, and no text of it holds a sandbox's bearer.\<close>

definition recorderOk :: "diagnostics \<Rightarrow> bool" where
  "recorderOk d \<longleftrightarrow> length (dg_entries d) \<le> LIMIT \<and> (\<forall>e \<in> set (dg_entries d). 1 \<le> en_count e \<and> \<not> hasBearer (en_message e))"

lemma resourceIndex_less: "resourceIndex es = Some i \<Longrightarrow> i < length es \<and> en_kind (es ! i) = ''resource''"
  by (induction es arbitrary: i) (auto split: if_splits)

lemma resourceIndex_none: "resourceIndex es = None \<longleftrightarrow> (\<forall>e \<in> set es. en_kind e \<noteq> ''resource'')"
  by (induction es) auto

lemma length_removeAt: "i < length xs \<Longrightarrow> length (removeAt i xs) = length xs - 1"
  by (simp add: removeAt_def)

lemma set_removeAt: "set (removeAt i xs) \<subseteq> set xs"
  by (auto simp: removeAt_def dest: in_set_takeD in_set_dropD)

lemma bump_props:
  assumes "es \<noteq> []"
  shows "length (bump es) = length es" and "map en_message (bump es) = map en_message es" and "map en_kind (bump es) = map en_kind es"
    and "(\<And>e. e \<in> set es \<Longrightarrow> P e \<and> P (e\<lparr>en_count := Suc (en_count e)\<rparr>)) \<Longrightarrow> e' \<in> set (bump es) \<Longrightarrow> P e'"
proof -
  have es: "es = butlast es @ [last es]" using assms by simp
  show "length (bump es) = length es" using assms by (simp add: bump_def)
  have "map en_message (bump es) = map en_message (butlast es @ [last es])" "map en_kind (bump es) = map en_kind (butlast es @ [last es])"
    unfolding bump_def by simp_all
  with es show "map en_message (bump es) = map en_message es" "map en_kind (bump es) = map en_kind es" by simp_all
  show "(\<And>e. e \<in> set es \<Longrightarrow> P e \<and> P (e\<lparr>en_count := Suc (en_count e)\<rparr>)) \<Longrightarrow> e' \<in> set (bump es) \<Longrightarrow> P e'"
    using assms by (auto simp: bump_def dest: in_set_butlastD)
qed

lemma record_ok:
  assumes "recorderOk d"
  shows "recorderOk (record' url t kind message duration resource d)"
proof -
  let ?safe = "diagnosticText url (Some message) 2048"
  have fresh: "1 \<le> en_count (newEntry t kind ?safe duration resource) \<and> \<not> hasBearer (en_message (newEntry t kind ?safe duration resource))"
    by (simp add: newEntry_def diagnosticText_bearer)
  have bumped: "\<forall>e \<in> set (bump (dg_entries d)). 1 \<le> en_count e \<and> \<not> hasBearer (en_message e)" if "dg_entries d \<noteq> []"
    using assms by (intro ballI bump_props(4) [OF that, where P = "\<lambda>e. 1 \<le> en_count e \<and> \<not> hasBearer (en_message e)"])
      (auto simp: recorderOk_def)
  have kept: "recorderOk (d\<lparr>dg_entries := removeAt i (dg_entries d) @ [newEntry t kind ?safe duration resource], dg_dropped := n\<rparr>)"
    if "i < length (dg_entries d)" for i n
    using assms fresh that set_removeAt [of i "dg_entries d"] by (auto simp: recorderOk_def length_removeAt)
  have full: "0 < length (dg_entries d)" if "length (dg_entries d) = LIMIT" using that by (simp add: LIMIT_def)
  show ?thesis
    using assms bumped kept full resourceIndex_less [of "dg_entries d"] fresh
    by (auto simp: record'_def Let_def recorderOk_def bump_props(1) split: option.splits)
qed

text \<open>A routine fetch evicts no other entry; what is missing is counted.\<close>

lemma filter_removeAt: "i < length xs \<Longrightarrow> \<not> p (xs ! i) \<Longrightarrow> filter p (removeAt i xs) = filter p xs"
  by (subst (2) id_take_nth_drop [of i xs]) (simp_all add: removeAt_def)

lemma filter_bump: "es \<noteq> [] \<Longrightarrow> en_kind (last es) = ''resource'' \<Longrightarrow>
    filter (\<lambda>e. en_kind e \<noteq> ''resource'') (bump es) = filter (\<lambda>e. en_kind e \<noteq> ''resource'') es"
  by (cases es rule: rev_cases) (simp_all add: bump_def)

lemma fetch_evicts_no_other:
  "filter (\<lambda>e. en_kind e \<noteq> ''resource'') (dg_entries (record' url t ''resource'' message duration resource d))
    = filter (\<lambda>e. en_kind e \<noteq> ''resource'') (dg_entries d)"
  using resourceIndex_less [of "dg_entries d"]
  by (auto simp: record'_def Let_def newEntry_def filter_removeAt filter_bump sameEvent_def split: option.splits)

lemma missing_counted:
  assumes "\<not> dg_disposed d"
  shows "dg_entries (record' url t kind message duration resource d) = bump (dg_entries d)
    \<or> length (dg_entries (record' url t kind message duration resource d)) + dg_dropped (record' url t kind message duration resource d)
      = length (dg_entries d) + dg_dropped d + 1"
  using assms resourceIndex_less [of "dg_entries d"]
  by (auto simp: record'_def Let_def length_removeAt LIMIT_def split: option.splits)

subsection \<open>Every order of steps\<close>

definition diagInv :: "diagnostics \<Rightarrow> bool" where
  "diagInv d \<longleftrightarrow> recorderOk d \<and> (dg_disposed d \<longrightarrow> dg_profile d = None)"

lemma recorderOk_cong [simp]:
  "recorderOk (d\<lparr>dg_phase := a, dg_phaseStart := b\<rparr>) = recorderOk d" "recorderOk (d\<lparr>dg_profile := p\<rparr>) = recorderOk d"
  "recorderOk (d\<lparr>dg_results := rs\<rparr>) = recorderOk d" "recorderOk (d\<lparr>dg_disposed := x\<rparr>) = recorderOk d"
  "recorderOk (d\<lparr>dg_traps := n\<rparr>) = recorderOk d"
  by (simp_all add: recorderOk_def)

lemma record_rest [simp]:
  "dg_disposed (record' url t kind message duration resource d) = dg_disposed d"
  "dg_profile (record' url t kind message duration resource d) = dg_profile d"
  by (simp_all add: record'_def Let_def split: option.splits)

lemma diagInv_record: "diagInv d \<Longrightarrow> diagInv (record' url t kind message duration resource d)"
  by (simp add: diagInv_def record_ok)

lemma diagInv_error: "diagInv d \<Longrightarrow> diagInv (recordError url t kind err d)"
  unfolding recordError_def by (rule diagInv_record)

lemma diagInv_finish: "diagInv d \<Longrightarrow> diagInv (finishProfile url shown t d) \<and> dg_profile (finishProfile url shown t d) = None"
  by (auto simp: finishProfile_def diagInv_def Let_def record_ok split: option.splits)

lemma diagInv_trapped: "diagInv d \<Longrightarrow> diagInv (trapped trap d)"
  by (simp add: trapped_def diagInv_def)

lemma diagInv_event: "diagInv d \<Longrightarrow> diagInv (onBrowserEvent url shown t ev d)"
  by (cases ev) (simp_all add: Let_def diagInv_trapped diagInv_error diagInv_record diagInv_finish)

lemma diagInv_step: "diagStep url shown d d' \<Longrightarrow> diagInv d \<Longrightarrow> diagInv d'"
proof (induction rule: diagStep.induct)
  case (staged d t phase)
  then show ?case by (auto simp: stage_def diagInv_def record_ok)
next
  case (cleared d)
  then show ?case by (simp add: clearEntries_def diagInv_def recorderOk_def)
next
  case (profiled hidden t micros d d')
  then show ?case by (auto simp: startProfile_def diagInv_def split: option.splits if_splits)
next
  case (ticked d time)
  then show ?case by (auto simp: frameTick_def diagInv_def split: option.splits)
next
  case (disposed d t)
  then show ?case using diagInv_finish [of d url shown t] by (auto simp: disposeDiagnostics_def diagInv_def)
qed (simp_all add: diagInv_event diagInv_record diagInv_error diagInv_finish)

lemma diagInv_reachable: "(diagStep url shown)\<^sup>*\<^sup>* (newDiagnostics t) d \<Longrightarrow> diagInv d"
proof (induction rule: rtranclp_induct)
  case base
  then show ?case by (simp add: diagInv_def newDiagnostics_def recorderOk_def)
next
  case (step d d')
  then show ?case using diagInv_step by blast
qed

text \<open>A recorder that was disposed of records nothing more.\<close>

lemma disposed_still:
  assumes "dg_disposed d" and "dg_profile d = None" and "diagStep url shown d d'"
  shows "dg_disposed d' \<and> (dg_entries d' = dg_entries d \<or> dg_entries d' = [])"
  using assms(3,1,2)
  by (induction rule: diagStep.induct)
    (auto simp: record'_def recordError_def stage_def clearEntries_def startProfile_def frameTick_def finishProfile_def
      disposeDiagnostics_def split: option.splits if_splits)

end
