(* ===== verification/Loader.thy ===== *)
theory Loader
  imports Forwards
begin

text \<open>
  Loading the editor and calling it (\<open>app/(editor)/w/[id]/loader.ts\<close>). The browser is a parameter: what
  importing the glue gives, the staged and the fetched files, instantiating the WebAssembly module, the build
  the module names, whether the page has been aborted at each check. Booting is an action on the log of what
  it did. The module's exports then are only called through a runtime that stops at the first trap.
\<close>

section \<open>Booting\<close>

datatype loaderError = LoadAborted | BundleMissing string | BundleInvalid string | LoadFailed string

datatype bootEvent =
    BeStage string
  | BeImport string
  | BeShim string
  | BeFetch string
  | BeStopDownloads
  | BeGlobalCtors
  | BeInstanceCtors
  | BeStart

type_synonym 'a loading = "(bootEvent list, loaderError, 'a) act"

text \<open>
  \<open>lb_import\<close>: the exports of the glue that are functions; \<open>lb_staged\<close>: the status of a file in the cache
  of the build; \<open>lb_fetch\<close>: the status of the network's answer, or what it threw; \<open>lb_wasmFirst\<close>: whether the
  module's rejection is the one that arrives first when both downloads fail.
\<close>

record loaderBrowser =
  lb_aborted :: "nat \<Rightarrow> bool"
  lb_import :: "string \<Rightarrow> string + string list"
  lb_staged :: "string \<Rightarrow> int option"
  lb_fetch :: "string \<Rightarrow> loaderError + int"
  lb_instantiate :: "loaderError + bool"
  lb_assets :: "loaderError + string"
  lb_globalCtors :: bool
  lb_buildId :: string
  lb_wasmFirst :: bool

definition doneE :: "bootEvent \<Rightarrow> unit loading" where
  "doneE ev = modE (\<lambda>log. log @ [ev])"

definition throwIfAborted :: "loaderBrowser \<Rightarrow> nat \<Rightarrow> unit loading" where
  "throwIfAborted b n = whenE (lb_aborted b n) (throwE LoadAborted)"

definition editorUrl :: "string \<Rightarrow> string \<Rightarrow> string" where
  "editorUrl build file = ''/editor/'' @ encodeURIComponent build @ ''/'' @ file"

definition EXPORTS :: "string list" where
  "EXPORTS = [''default'', ''start'', ''flush_client_state'', ''set_hidden'', ''has_unsaved_changes'', ''build_id'', ''set_update_status'']"

definition loadZedWeb :: "loaderBrowser \<Rightarrow> string \<Rightarrow> unit loading" where
  "loadZedWeb b build = (let url = editorUrl build ''zed_web.js'' in
     thenE (doneE (BeImport url)) (case lb_import b url of
        Inl m \<Rightarrow> throwE (BundleMissing url)
      | Inr fs \<Rightarrow> whenE (\<not> list_all (\<lambda>f. f \<in> set fs) EXPORTS) (throwE (BundleInvalid url))))"

text \<open>A staged file is used as it is; \<open>ok\<close> is a status from 200 to 299.\<close>

definition statusOk :: "int \<Rightarrow> bool" where
  "statusOk s \<longleftrightarrow> 200 \<le> s \<and> s \<le> 299"

definition fetchBundleFile :: "loaderBrowser \<Rightarrow> nat \<Rightarrow> string \<Rightarrow> string \<Rightarrow> unit loading" where
  "fetchBundleFile b n build file = (let url = editorUrl build file in
     thenE (throwIfAborted b n)
     (thenE (doneE (BeFetch url))
     (case (case lb_staged b url of Some s \<Rightarrow> Inr s | None \<Rightarrow> lb_fetch b url) of
        Inl e \<Rightarrow> throwE e
      | Inr s \<Rightarrow> whenE (\<not> statusOk s) (throwE (BundleMissing url)))))"

definition fetchWasm :: "loaderBrowser \<Rightarrow> string \<Rightarrow> bool loading" where
  "fetchWasm b build = thenE (fetchBundleFile b 2 build ''zed_web_bg.wasm'')
     (case lb_instantiate b of Inl e \<Rightarrow> throwE e | Inr ctors \<Rightarrow> retE ctors)"

definition fetchAssets :: "loaderBrowser \<Rightarrow> string \<Rightarrow> string loading" where
  "fetchAssets b build = thenE (fetchBundleFile b 3 build ''zed-assets.tar'')
     (case lb_assets b of Inl e \<Rightarrow> throwE e | Inr bytes \<Rightarrow> retE bytes)"

definition outcomeOf :: "'a loading \<Rightarrow> (loaderError + 'a) loading" where
  "outcomeOf m = catchE (bindE m (\<lambda>x. retE (Inr x))) (\<lambda>e. retE (Inl e))"

text \<open>\<open>Promise.all\<close> of both downloads, and the \<open>finally\<close> that stops what is left of them.\<close>

definition fetchBoth :: "loaderBrowser \<Rightarrow> string \<Rightarrow> (bool \<times> string) loading" where
  "fetchBoth b build =
     bindE (outcomeOf (fetchWasm b build)) (\<lambda>wasm.
     bindE (outcomeOf (fetchAssets b build)) (\<lambda>assets.
     thenE (doneE BeStopDownloads)
     (case (wasm, assets) of
        (Inr ctors, Inr bytes) \<Rightarrow> retE (ctors, bytes)
      | (Inl e, Inr _) \<Rightarrow> throwE e
      | (Inr _, Inl e) \<Rightarrow> throwE e
      | (Inl e, Inl f) \<Rightarrow> throwE (if lb_wasmFirst b then e else f))))"

text \<open>\<open>lb_instantiate\<close> answers whether the instance has constructors of its own.\<close>

definition runCtors :: "loaderBrowser \<Rightarrow> bool \<Rightarrow> unit loading" where
  "runCtors b ctors = (if lb_globalCtors b then doneE BeGlobalCtors
     else if ctors then doneE BeInstanceCtors else retE ())"

definition bootEditor :: "loaderBrowser \<Rightarrow> string \<Rightarrow> unit loading" where
  "bootEditor b build =
     thenE (throwIfAborted b 0)
     (thenE (doneE (BeStage ''booting''))
     (thenE (loadZedWeb b build)
     (thenE (throwIfAborted b 1)
     (thenE (doneE (BeShim (editorUrl build ''zed_web.js'')))
     (bindE (fetchBoth b build) (\<lambda>(ctors, bytes).
      thenE (throwIfAborted b 4)
     (thenE (runCtors b ctors)
     (thenE (doneE (BeStage ''assets''))
     (thenE (whenE (lb_buildId b \<noteq> build) (throwE (BundleInvalid build)))
       (doneE BeStart))))))))))"

section \<open>The runtime\<close>

record editorRuntime =
  rt_invalid :: bool
  rt_calls :: "string list"
  rt_trapReports :: "string list"
  rt_hostReports :: "(string \<times> string) list"

definition bootedRuntime :: editorRuntime where
  "bootedRuntime = \<lparr>rt_invalid = False, rt_calls = [], rt_trapReports = [], rt_hostReports = []\<rparr>"

datatype 'a called = CallReturned 'a | CallThrew bool string

text \<open>The flag of a throw says that it is a \<open>WebAssembly.RuntimeError\<close>.\<close>

definition invalidate :: "editorRuntime \<Rightarrow> editorRuntime" where
  "invalidate r = r\<lparr>rt_invalid := True\<rparr>"

definition failRuntime :: "string \<Rightarrow> editorRuntime \<Rightarrow> editorRuntime" where
  "failRuntime message r = (if rt_invalid r then r
     else r\<lparr>rt_invalid := True, rt_trapReports := rt_trapReports r @ [message]\<rparr>)"

definition invoke :: "string \<Rightarrow> 'a called \<Rightarrow> 'a \<Rightarrow> editorRuntime \<Rightarrow> 'a \<times> editorRuntime" where
  "invoke name answer fallback r = (if rt_invalid r then (fallback, r)
     else let r' = r\<lparr>rt_calls := rt_calls r @ [name]\<rparr> in
       case answer of CallReturned x \<Rightarrow> (x, r') | CallThrew trap m \<Rightarrow> (fallback, failRuntime m r'))"

definition setHidden :: "unit called \<Rightarrow> editorRuntime \<Rightarrow> editorRuntime" where
  "setHidden answer r = snd (invoke ''set_hidden'' answer () r)"

definition setUpdateStatus :: "unit called \<Rightarrow> editorRuntime \<Rightarrow> editorRuntime" where
  "setUpdateStatus answer r = snd (invoke ''set_update_status'' answer () r)"

definition hasUnsavedChanges :: "bool called \<Rightarrow> editorRuntime \<Rightarrow> bool \<times> editorRuntime" where
  "hasUnsavedChanges answer r = invoke ''has_unsaved_changes'' answer True r"

text \<open>\<open>flushClientState\<close>: its call, and what becomes of it later. \<open>None\<close> is a rejection.\<close>

definition flushCalled :: "editorRuntime \<Rightarrow> editorRuntime option" where
  "flushCalled r = (if rt_invalid r then None else Some (r\<lparr>rt_calls := rt_calls r @ [''flush_client_state'']\<rparr>))"

definition flushSettled :: "unit called \<Rightarrow> editorRuntime \<Rightarrow> unit option \<times> editorRuntime" where
  "flushSettled answer r = (case answer of CallReturned _ \<Rightarrow> (Some (), r)
     | CallThrew trap m \<Rightarrow> (None, if trap then failRuntime m r else r))"

text \<open>The \<open>reportError\<close> the module is started with.\<close>

definition moduleReports :: "string \<Rightarrow> string \<Rightarrow> editorRuntime \<Rightarrow> editorRuntime" where
  "moduleReports kind message r = (let r' = (if kind = ''panic'' then invalidate r else r) in
     r'\<lparr>rt_hostReports := rt_hostReports r' @ [(kind, message)]\<rparr>)"

inductive runtimeStep :: "editorRuntime \<Rightarrow> editorRuntime \<Rightarrow> bool" where
  hidden: "runtimeStep r (setHidden answer r)"
| updateStatus: "runtimeStep r (setUpdateStatus answer r)"
| unsaved: "runtimeStep r (snd (hasUnsavedChanges answer' r))"
| flushing: "flushCalled r = Some r' \<Longrightarrow> runtimeStep r r'"
| flushed: "runtimeStep r (snd (flushSettled answer r))"
| reported: "runtimeStep r (moduleReports kind message r)"
| invalidated: "runtimeStep r (invalidate r)"

section \<open>Lemmas\<close>

lemma wp_doneE [wp_simps]: "wp (doneE ev) Q E log = Q () (log @ [ev])"
  by (simp add: doneE_def wp_simps)

lemma wp_outcomeOf: "wp (outcomeOf m) Q E log = wp m (\<lambda>x. Q (Inr x)) (\<lambda>e. Q (Inl e)) log"
  by (auto simp: outcomeOf_def wp_def act_defs split: prod.splits sum.splits)

text \<open>
  The editor is started once at most, as the last thing, and only when the page was not aborted, the glue has
  every export, both files arrived and the module names the build that was asked for.
\<close>

definition startable :: "loaderBrowser \<Rightarrow> string \<Rightarrow> bool" where
  "startable b build \<longleftrightarrow> \<not> lb_aborted b 0 \<and> \<not> lb_aborted b 4
     \<and> (\<exists>fs. lb_import b (editorUrl build ''zed_web.js'') = Inr fs \<and> set EXPORTS \<subseteq> set fs)
     \<and> (\<forall>file \<in> {''zed_web_bg.wasm'', ''zed-assets.tar''}. \<exists>s. statusOk s
          \<and> (case lb_staged b (editorUrl build file) of Some t \<Rightarrow> Inr t | None \<Rightarrow> lb_fetch b (editorUrl build file)) = Inr s)
     \<and> lb_buildId b = build"

definition notStarted :: "bootEvent list \<Rightarrow> bool" where
  "notStarted log \<longleftrightarrow> BeStart \<notin> set log"

lemma wp_fetchFile:
  "notStarted log \<Longrightarrow> wp (fetchBundleFile b n build file)
    (\<lambda>_ log'. notStarted log' \<and> (\<exists>s. statusOk s
       \<and> (case lb_staged b (editorUrl build file) of Some t \<Rightarrow> Inr t | None \<Rightarrow> lb_fetch b (editorUrl build file)) = Inr s))
    (\<lambda>_ log'. notStarted log') log"
  by (auto simp: fetchBundleFile_def throwIfAborted_def Let_def wp_simps notStarted_def split: sum.splits option.splits)

definition fileArrived :: "loaderBrowser \<Rightarrow> string \<Rightarrow> string \<Rightarrow> bool" where
  "fileArrived b build file \<longleftrightarrow> (\<exists>s. statusOk s
     \<and> (case lb_staged b (editorUrl build file) of Some t \<Rightarrow> Inr t | None \<Rightarrow> lb_fetch b (editorUrl build file)) = Inr s)"

lemma wp_fetchBoth:
  assumes "notStarted log"
  shows "wp (fetchBoth b build) (\<lambda>_ log'. notStarted log' \<and> fileArrived b build ''zed_web_bg.wasm'' \<and> fileArrived b build ''zed-assets.tar'')
    (\<lambda>_ log'. notStarted log') log"
proof -
  have wasm: "wp (fetchWasm b build) (\<lambda>_ l. notStarted l \<and> fileArrived b build ''zed_web_bg.wasm'') (\<lambda>_. notStarted) l"
    if "notStarted l" for l
    unfolding fetchWasm_def wp_then
    by (rule wp_mono [OF wp_fetchFile [OF that]]) (auto simp: wp_simps fileArrived_def split: sum.splits)
  have assets: "wp (fetchAssets b build) (\<lambda>_ l. notStarted l \<and> fileArrived b build ''zed-assets.tar'') (\<lambda>_. notStarted) l"
    if "notStarted l" for l
    unfolding fetchAssets_def wp_then
    by (rule wp_mono [OF wp_fetchFile [OF that]]) (auto simp: wp_simps fileArrived_def split: sum.splits)
  have stop: "notStarted l \<Longrightarrow> notStarted (l @ [BeStopDownloads])" for l by (simp add: notStarted_def)
  show ?thesis
    unfolding fetchBoth_def wp_bind wp_outcomeOf
    by (rule wp_mono [OF wasm [OF assms]]; rule wp_mono [OF assets])
      (auto simp: wp_simps stop split: sum.splits)
qed

text \<open>A boot that succeeds has started the editor as its last act, and everything was as asked; one that fails has not.\<close>

lemma wp_bootEditor:
  assumes "notStarted log"
  shows "wp (bootEditor b build) (\<lambda>_ log'. (\<exists>past. log' = past @ [BeStart] \<and> notStarted past) \<and> startable b build)
    (\<lambda>_ log'. notStarted log') log"
proof -
  have more: "notStarted (l @ evs) \<longleftrightarrow> notStarted l \<and> BeStart \<notin> set evs" for l evs by (auto simp: notStarted_def)
  have rest: "wp (thenE (throwIfAborted b 4) (thenE (runCtors b ctors) (thenE (doneE (BeStage ''assets''))
       (thenE (whenE (lb_buildId b \<noteq> build) (throwE (BundleInvalid build))) (doneE BeStart)))))
      (\<lambda>_ log'. (\<exists>past. log' = past @ [BeStart] \<and> notStarted past) \<and> \<not> lb_aborted b 4 \<and> lb_buildId b = build)
      (\<lambda>_ log'. notStarted log') l" if "notStarted l" for l ctors
    using that by (auto simp: throwIfAborted_def runCtors_def wp_simps more)
  have both: "wp (bindE (fetchBoth b build) (\<lambda>(ctors, bytes). thenE (throwIfAborted b 4) (thenE (runCtors b ctors)
       (thenE (doneE (BeStage ''assets'')) (thenE (whenE (lb_buildId b \<noteq> build) (throwE (BundleInvalid build))) (doneE BeStart))))))
      (\<lambda>_ log'. (\<exists>past. log' = past @ [BeStart] \<and> notStarted past) \<and> \<not> lb_aborted b 4 \<and> lb_buildId b = build
         \<and> fileArrived b build ''zed_web_bg.wasm'' \<and> fileArrived b build ''zed-assets.tar'')
      (\<lambda>_ log'. notStarted log') l" if "notStarted l" for l
    unfolding wp_bind
    by (rule wp_mono [OF wp_fetchBoth [OF that]]) (auto intro!: wp_mono [OF rest])
  have ready: "startable b build \<longleftrightarrow> \<not> lb_aborted b 0 \<and> \<not> lb_aborted b 4
      \<and> (\<exists>fs. lb_import b (editorUrl build ''zed_web.js'') = Inr fs \<and> set EXPORTS \<subseteq> set fs)
      \<and> fileArrived b build ''zed_web_bg.wasm'' \<and> fileArrived b build ''zed-assets.tar'' \<and> lb_buildId b = build"
    by (simp add: startable_def fileArrived_def)
  show ?thesis
    unfolding bootEditor_def loadZedWeb_def throwIfAborted_def [of b 0] throwIfAborted_def [of b 1] Let_def
    using assms
    by (auto simp: wp_then wp_if wp_when wp_throw wp_ret wp_doneE more ready list_all_iff subset_iff split: sum.splits
        intro!: wp_mono [OF both])
qed

text \<open>After a trap or an invalidation the module is never called again, and the guards answer with their fallbacks.\<close>

lemma invalid_final: "runtimeStep r r' \<Longrightarrow> rt_invalid r \<Longrightarrow> rt_invalid r' \<and> rt_calls r' = rt_calls r \<and> rt_trapReports r' = rt_trapReports r"
  by (induction rule: runtimeStep.induct)
    (auto simp: setHidden_def setUpdateStatus_def hasUnsavedChanges_def invoke_def flushCalled_def flushSettled_def failRuntime_def
      moduleReports_def invalidate_def Let_def split: called.splits if_splits)

lemma invalid_stays: "runtimeStep\<^sup>*\<^sup>* r r' \<Longrightarrow> rt_invalid r \<Longrightarrow> rt_invalid r' \<and> rt_calls r' = rt_calls r \<and> rt_trapReports r' = rt_trapReports r"
proof (induction rule: rtranclp_induct)
  case (step y z)
  with invalid_final [OF step(2)] show ?case by simp
qed simp

definition trapsOnce :: "editorRuntime \<Rightarrow> bool" where
  "trapsOnce r \<longleftrightarrow> length (rt_trapReports r) \<le> 1 \<and> (rt_trapReports r \<noteq> [] \<longrightarrow> rt_invalid r)"

lemma trapsOnce_step: "runtimeStep r r' \<Longrightarrow> trapsOnce r \<Longrightarrow> trapsOnce r'"
  by (induction rule: runtimeStep.induct)
    (auto simp: trapsOnce_def setHidden_def setUpdateStatus_def hasUnsavedChanges_def invoke_def flushCalled_def flushSettled_def
      failRuntime_def moduleReports_def invalidate_def Let_def split: called.splits if_splits)

lemma trapsOnce_reachable: "runtimeStep\<^sup>*\<^sup>* bootedRuntime r \<Longrightarrow> trapsOnce r"
proof (induction rule: rtranclp_induct)
  case base
  then show ?case by (simp add: trapsOnce_def bootedRuntime_def)
next
  case (step y z)
  then show ?case using trapsOnce_step by blast
qed

end
