(* ===== verification/BlobStores.thy ===== *)
theory BlobStores
  imports Docker LocalRepos Actions
begin

text \<open>
  Where rebuild archives are kept: the stores behind the steps' put, delete and presigned URLs
  (\<open>lib/blob.ts\<close>, \<open>lib/blob-file.ts\<close>) and the route that serves the signed URLs of the file store
  (\<open>app/api/sandboxes/local-blobs\<close>). The digest and the keyed hash are parameters, as are the calls of the
  Vercel SDK; a body is the list of its chunks, the last of which may be a failure of the stream. The query
  of a request is the list of its parameters.
\<close>

section \<open>Bodies\<close>

datatype bodyPart = Bytes string | StreamBroke

text \<open>What arrives of a body, \<open>None\<close> where the stream fails.\<close>

fun collect :: "bodyPart list \<Rightarrow> string option" where
  "collect [] = Some []"
| "collect (Bytes c # ps) = map_option (\<lambda>rest. c @ rest) (collect ps)"
| "collect (StreamBroke # ps) = None"

record storedBlob =
  sb_pathname :: string
  sb_bytes :: nat

section \<open>In memory\<close>

type_synonym memoryBlobs = "string \<Rightarrow> string option"

definition memoryPut :: "string \<Rightarrow> bodyPart list \<Rightarrow> memoryBlobs \<Rightarrow> storedBlob option \<times> memoryBlobs" where
  "memoryPut pathname body m = (case collect body of None \<Rightarrow> (None, m)
     | Some b \<Rightarrow> (Some \<lparr>sb_pathname = pathname, sb_bytes = length b\<rparr>, m(pathname \<mapsto> b)))"

definition memoryDel :: "string \<Rightarrow> memoryBlobs \<Rightarrow> memoryBlobs" where
  "memoryDel pathname m = m(pathname := None)"

definition memoryExists :: "string \<Rightarrow> memoryBlobs \<Rightarrow> bool" where
  "memoryExists pathname m \<longleftrightarrow> m pathname \<noteq> None"

definition memoryPresignGet :: "string \<Rightarrow> int \<Rightarrow> int \<Rightarrow> string" where
  "memoryPresignGet pathname ttlMs t = ''https://blob.test/'' @ pathname @ ''?expires='' @ showInt (t + ttlMs)"

definition memoryPresignPut :: "string \<Rightarrow> int \<Rightarrow> int \<Rightarrow> int \<Rightarrow> string" where
  "memoryPresignPut pathname ttlMs maxBytes t =
     ''https://blob.test/put/'' @ pathname @ ''?expires='' @ showInt (t + ttlMs) @ ''&max='' @ showInt maxBytes"

section \<open>On Vercel\<close>

datatype blobOperation = BlobGet | BlobPut

record vercelToken =
  vt_pathname :: string
  vt_operation :: blobOperation
  vt_validUntil :: int
  vt_maximum :: "int option"

text \<open>Every call of the SDK may throw; \<open>vs_head\<close> answers whether the object is there.\<close>

record vercelSdk =
  vs_put :: "string \<Rightarrow> bodyPart list \<Rightarrow> bool \<Rightarrow> err option"
  vs_del :: "string \<Rightarrow> err option"
  vs_head :: "string \<Rightarrow> err + bool"
  vs_issue :: "vercelToken \<Rightarrow> err + string"
  vs_presign :: "string \<Rightarrow> blobOperation \<Rightarrow> string \<Rightarrow> err + string"

fun partLength :: "bodyPart \<Rightarrow> nat" where
  "partLength (Bytes c) = length c"
| "partLength StreamBroke = 0"

text \<open>A stream is uploaded in parts and counted on its way; the flag is \<open>multipart\<close>.\<close>

definition vercelPut :: "vercelSdk \<Rightarrow> string \<Rightarrow> bodyPart list \<Rightarrow> bool \<Rightarrow> err + storedBlob" where
  "vercelPut vs pathname body stream = (case vs_put vs pathname body stream of
      Some e \<Rightarrow> Inl e
    | None \<Rightarrow> Inr \<lparr>sb_pathname = pathname, sb_bytes = sum_list (map partLength body)\<rparr>)"

definition vercelDel :: "vercelSdk \<Rightarrow> string \<Rightarrow> err + unit" where
  "vercelDel vs pathname = (case vs_del vs pathname of Some e \<Rightarrow> Inl e | None \<Rightarrow> Inr ())"

definition vercelExists :: "vercelSdk \<Rightarrow> string \<Rightarrow> err + bool" where
  "vercelExists vs pathname = vs_head vs pathname"

definition vercelPresignGet :: "vercelSdk \<Rightarrow> string \<Rightarrow> int \<Rightarrow> int \<Rightarrow> err + string" where
  "vercelPresignGet vs pathname ttlMs t =
     (case vs_issue vs \<lparr>vt_pathname = pathname, vt_operation = BlobGet, vt_validUntil = t + ttlMs, vt_maximum = None\<rparr> of
        Inl e \<Rightarrow> Inl e | Inr token \<Rightarrow> vs_presign vs token BlobGet pathname)"

definition vercelPresignPut :: "vercelSdk \<Rightarrow> string \<Rightarrow> int \<Rightarrow> int \<Rightarrow> int \<Rightarrow> err + string" where
  "vercelPresignPut vs pathname ttlMs maxBytes t =
     (case vs_issue vs \<lparr>vt_pathname = pathname, vt_operation = BlobPut, vt_validUntil = t + ttlMs, vt_maximum = Some maxBytes\<rparr> of
        Inl e \<Rightarrow> Inl e | Inr token \<Rightarrow> vs_presign vs token BlobPut pathname)"

section \<open>Which store\<close>

text \<open>The memo keeps the first answer of the process.\<close>

definition blobStoreFor :: "env \<Rightarrow> blobDriver" where
  "blobStoreFor e = (case ZS_BLOB_DRIVER e of Some d \<Rightarrow> d
     | None \<Rightarrow> if truthy (BLOB_READ_WRITE_TOKEN e) then BlobVercel else BlobMemory)"

definition blobStore :: "blobDriver option \<Rightarrow> env \<Rightarrow> blobDriver" where
  "blobStore cached e = (case cached of Some d \<Rightarrow> d | None \<Rightarrow> blobStoreFor e)"

section \<open>On disk\<close>

text \<open>The archives of the machine: a path and its bytes.\<close>

type_synonym archives = "string \<Rightarrow> string option"

record blobHost =
  bh_digest :: "string \<Rightarrow> string"
  bh_hmac :: "string \<Rightarrow> string \<Rightarrow> string"
  bh_env :: env
  bh_cwd :: string

definition hexKey :: "string \<Rightarrow> bool" where
  "hexKey s \<longleftrightarrow> length s = 64 \<and> list_all (\<lambda>c. c \<in> set ''0123456789abcdef'') s"

definition archiveRoot :: "blobHost \<Rightarrow> string" where
  "archiveRoot bh = resolvePath (bh_cwd bh) (nullish (ZS_DOCKER_ROOT (bh_env bh)) ''.zs-dev/docker'')"

definition location :: "blobHost \<Rightarrow> string \<Rightarrow> err + string" where
  "location bh key = (case dockerBackendEnabled (bh_env bh) of
      Inl e \<Rightarrow> Inl e
    | Inr enabled \<Rightarrow>
        if \<not> enabled then Inl (OtherError ''File archives require the local Docker backend'')
        else if \<not> hexKey key then Inl (OtherError ''Invalid archive key'')
        else Inr (archiveRoot bh @ ''/archives/'' @ key))"

text \<open>The pipeline: what it wrote, and whether it came to an end within the limit.\<close>

fun pump :: "int option \<Rightarrow> int \<Rightarrow> bodyPart list \<Rightarrow> string \<times> bool" where
  "pump maximum n [] = ([], True)"
| "pump maximum n (StreamBroke # ps) = ([], False)"
| "pump maximum n (Bytes c # ps) = (let m = n + int (length c) in
     if (case maximum of None \<Rightarrow> False | Some x \<Rightarrow> m > x) then ([], False)
     else case pump maximum m ps of (rest, ok) \<Rightarrow> (c @ rest, ok))"

text \<open>\<open>u\<close> is the random UUID of the temporary file, which is created exclusively and removed in the end.\<close>

definition writeArchive ::
  "blobHost \<Rightarrow> string \<Rightarrow> string \<Rightarrow> bodyPart list \<Rightarrow> int option \<Rightarrow> archives \<Rightarrow> (err + int) \<times> archives" where
  "writeArchive bh u key body maximum files = (case location bh key of
      Inl e \<Rightarrow> (Inl e, files)
    | Inr dest \<Rightarrow> (let temporary = dest @ ''.'' @ u @ ''.tmp'' in
        if files temporary \<noteq> None then (Inl (OtherError ''EEXIST''), files(temporary := None))
        else case pump maximum 0 body of (written, ok) \<Rightarrow>
          if ok then (Inr (int (length written)), (files(dest \<mapsto> written))(temporary := None))
          else (Inl (OtherError ''pipeline''), files(temporary := None))))"

definition filePut :: "blobHost \<Rightarrow> string \<Rightarrow> string \<Rightarrow> bodyPart list \<Rightarrow> archives \<Rightarrow> (err + storedBlob) \<times> archives" where
  "filePut bh u name body files = (case writeArchive bh u (bh_digest bh name) body None files of
      (Inl e, files') \<Rightarrow> (Inl e, files')
    | (Inr n, files') \<Rightarrow> (Inr \<lparr>sb_pathname = name, sb_bytes = nat n\<rparr>, files'))"

definition fileDel :: "blobHost \<Rightarrow> string \<Rightarrow> archives \<Rightarrow> (err + unit) \<times> archives" where
  "fileDel bh name files = (case location bh (bh_digest bh name) of
      Inl e \<Rightarrow> (Inl e, files) | Inr dest \<Rightarrow> (Inr (), files(dest := None)))"

definition fileExists :: "blobHost \<Rightarrow> string \<Rightarrow> archives \<Rightarrow> err + bool" where
  "fileExists bh name files = map_sum id (\<lambda>dest. files dest \<noteq> None) (location bh (bh_digest bh name))"

section \<open>Signed URLs\<close>

text \<open>\<open>URLSearchParams.toString\<close>: the form encoding of the parameters.\<close>

definition formPlain :: "char \<Rightarrow> bool" where
  "formPlain c \<longleftrightarrow> c \<in> set ''ABCDEFGHIJKLMNOPQRSTUVWXYZabcdefghijklmnopqrstuvwxyz0123456789*-._''"

definition formChar :: "char \<Rightarrow> string" where
  "formChar c = (if formPlain c then [c]
     else if c = CHR '' '' then ''+''
     else [CHR ''%'', upperHexDigit (of_char c div 16), upperHexDigit (of_char c)])"

definition formText' :: "string \<Rightarrow> string" where
  "formText' s = concat (map formChar s)"

type_synonym query = "(string \<times> string) list"

definition queryText :: "query \<Rightarrow> string" where
  "queryText q = joinWith CHR ''&'' (map (\<lambda>kv. formText' (fst kv) @ CHR ''='' # formText' (snd kv)) q)"

definition signature :: "blobHost \<Rightarrow> string \<Rightarrow> err + string" where
  "signature bh text' = (if \<not> truthy (BETTER_AUTH_SECRET (bh_env bh)) then Inl (EnvError [''BETTER_AUTH_SECRET''])
     else Inr (bh_hmac bh (the (BETTER_AUTH_SECRET (bh_env bh))) text'))"

definition capability :: "blobHost \<Rightarrow> string \<Rightarrow> string \<Rightarrow> int \<Rightarrow> int \<Rightarrow> query" where
  "capability bh name verb expires maximum = [(''key'', bh_digest bh name), (''method'', verb), (''expires'', showInt expires),
     (''maximum'', showInt maximum)]"

definition signedQuery :: "blobHost \<Rightarrow> string \<Rightarrow> string \<Rightarrow> int \<Rightarrow> int \<Rightarrow> int \<Rightarrow> err + query" where
  "signedQuery bh name verb ttl maximum t = (let q = capability bh name verb (t + ttl) maximum in
     map_sum id (\<lambda>s. q @ [(''signature'', s)]) (signature bh (queryText q)))"

definition signedUrl :: "blobHost \<Rightarrow> string \<Rightarrow> string \<Rightarrow> int \<Rightarrow> int \<Rightarrow> int \<Rightarrow> err + string" where
  "signedUrl bh name verb ttl maximum t = (case signedQuery bh name verb ttl maximum t of Inl e \<Rightarrow> Inl e
     | Inr q \<Rightarrow> if \<not> truthy (ZS_DOCKER_CONTROL_URL (bh_env bh)) then Inl (EnvError [''ZS_DOCKER_CONTROL_URL''])
         else Inr (the (ZS_DOCKER_CONTROL_URL (bh_env bh)) @ ''/sandboxes/local-blobs?'' @ queryText q))"

definition filePresignGet :: "blobHost \<Rightarrow> string \<Rightarrow> int \<Rightarrow> int \<Rightarrow> err + string" where
  "filePresignGet bh name ttl t = signedUrl bh name ''GET'' ttl 0 t"

definition filePresignPut :: "blobHost \<Rightarrow> string \<Rightarrow> int \<Rightarrow> int \<Rightarrow> int \<Rightarrow> err + string" where
  "filePresignPut bh name ttl maximum t = signedUrl bh name ''PUT'' ttl maximum t"

section \<open>The route\<close>

record blobRequest =
  br_method :: string
  br_query :: query
  br_body :: "bodyPart list option"

definition param :: "query \<Rightarrow> string \<Rightarrow> string option" where
  "param q k = map_of q k"

text \<open>\<open>Number(query.get(k))\<close>: an absent or empty parameter is 0.\<close>

definition paramNumber :: "query \<Rightarrow> string \<Rightarrow> json" where
  "paramNumber q k = (let s = trimBoth (nullish (param q k) []) in if s = [] then JNum 0 else numberOf s)"

definition laterThan :: "int \<Rightarrow> json \<Rightarrow> bool" where
  "laterThan t j = (case j of JNum n \<Rightarrow> t < n | JDec m k \<Rightarrow> t * 10 ^ k < m | _ \<Rightarrow> False)"

record blobResponse =
  bs_status :: int
  bs_body :: "string option"

definition emptyResponse :: "int \<Rightarrow> blobResponse" where
  "emptyResponse s = \<lparr>bs_status = s, bs_body = None\<rparr>"

text \<open>Both sides of \<open>timingSafeEqual\<close> are the bytes of 64 lower-case hexadecimal digits.\<close>

definition grantValid :: "string \<Rightarrow> string \<Rightarrow> blobRequest \<Rightarrow> query \<Rightarrow> int \<Rightarrow> bool" where
  "grantValid expected supplied rq q t \<longleftrightarrow> hexKey supplied \<and> supplied = expected
     \<and> laterThan t (paramNumber q ''expires'') \<and> param q ''method'' = Some (br_method rq) \<and> hexKey (nullish (param q ''key'') [])"

definition acceptUpload :: "blobHost \<Rightarrow> string \<Rightarrow> blobRequest \<Rightarrow> query \<Rightarrow> archives \<Rightarrow> blobResponse \<times> archives" where
  "acceptUpload bh u rq q files = (case (br_body rq, zInt (paramNumber q ''maximum'')) of
      (Some body, Some maximum) \<Rightarrow>
        if maximum \<le> 0 then (emptyResponse 400, files)
        else (case writeArchive bh u (nullish (param q ''key'') []) body (Some maximum) files of
            (Inl e, files') \<Rightarrow> (emptyResponse 413, files')
          | (Inr n, files') \<Rightarrow> (emptyResponse 200, files'))
    | _ \<Rightarrow> (emptyResponse 400, files))"

definition serveLocalBlob :: "blobHost \<Rightarrow> string \<Rightarrow> blobRequest \<Rightarrow> int \<Rightarrow> archives \<Rightarrow> (err + blobResponse) \<times> archives" where
  "serveLocalBlob bh u rq t files = (case dockerBackendEnabled (bh_env bh) of
      Inl e \<Rightarrow> (Inl e, files)
    | Inr enabled \<Rightarrow>
      if \<not> enabled then (Inr (emptyResponse 404), files)
      else let supplied = nullish (param (br_query rq) ''signature'') [];
          q = filter (\<lambda>kv. fst kv \<noteq> ''signature'') (br_query rq) in
        if \<not> hexKey supplied then (Inr (emptyResponse 403), files)
        else (case signature bh (queryText q) of Inl e \<Rightarrow> (Inl e, files)
        | Inr expected \<Rightarrow>
            if \<not> grantValid expected supplied rq q t then (Inr (emptyResponse 403), files)
            else if br_method rq = ''PUT'' then (case acceptUpload bh u rq q files of (r, files') \<Rightarrow> (Inr r, files'))
            else (case location bh (nullish (param q ''key'') []) of
                Inl e \<Rightarrow> (Inl e, files)
              | Inr dest \<Rightarrow> (case files dest of
                  None \<Rightarrow> (Inr (emptyResponse 404), files)
                | Some b \<Rightarrow> (Inr \<lparr>bs_status = 200, bs_body = Some b\<rparr>, files)))))"

section \<open>Lemmas\<close>

subsection \<open>A query is its text\<close>

lemma upperHex_inj: "a < 16 \<Longrightarrow> b < 16 \<Longrightarrow> upperHexDigit a = upperHexDigit b \<Longrightarrow> a = b"
  using nth_eq_iff_index_eq [of "''0123456789ABCDEF''" a b] by (simp add: upperHexDigit_def)

lemma percent_inj:
  assumes "upperHexDigit (of_char a div 16) = upperHexDigit (of_char b div 16)" and "upperHexDigit (of_char a) = upperHexDigit (of_char b)"
  shows "a = b"
proof -
  have small: "(of_char c :: nat) div 16 < 16" for c :: char by (simp add: less_mult_imp_div_less)
  have "of_char a mod 16 = (of_char b mod 16 :: nat)"
    using assms(2) upperHex_inj [of "of_char a mod 16" "of_char b mod 16"] by (simp add: upperHexDigit_def)
  moreover have "of_char a div 16 = (of_char b div 16 :: nat)" using upperHex_inj [OF small small assms(1)] .
  ultimately have "of_char a = (of_char b :: nat)" by (metis div_mult_mod_eq)
  then show ?thesis by simp
qed

lemma formPlain_not: "\<not> formPlain (CHR ''%'')" "\<not> formPlain (CHR ''+'')" "\<not> formPlain (CHR ''&'')" "\<not> formPlain (CHR ''='')"
  by (simp_all add: formPlain_def)

lemma formChar_head: "formChar a @ x = formChar b @ y \<Longrightarrow> a = b \<and> x = y"
  using percent_inj [of a b] formPlain_not by (auto simp: formChar_def split: if_splits)

lemma formText'_inj: "formText' a = formText' b \<longleftrightarrow> a = b"
proof (induction a arbitrary: b)
  case Nil
  have "formChar c \<noteq> []" for c by (simp add: formChar_def)
  then show ?case by (cases b) (simp_all add: formText'_def)
next
  case (Cons c a)
  have ne: "formChar c \<noteq> []" for c by (simp add: formChar_def)
  show ?case
  proof (cases b)
    case Nil
    then show ?thesis by (simp add: formText'_def ne)
  next
    case (Cons d b')
    then show ?thesis using formChar_head [of c "formText' a" d "formText' b'"] Cons.IH [of b'] by (auto simp: formText'_def)
  qed
qed

lemma formChar_plain: "CHR ''&'' \<notin> set (formChar a)" "CHR ''='' \<notin> set (formChar a)"
proof -
  have hex: "upperHexDigit d \<in> set ''0123456789ABCDEF''" for d unfolding upperHexDigit_def by (rule nth_mem) simp
  have "CHR ''&'' \<notin> set ''0123456789ABCDEF''" "CHR ''='' \<notin> set ''0123456789ABCDEF''" by simp_all
  then have digit: "upperHexDigit d \<noteq> CHR ''&''" "upperHexDigit d \<noteq> CHR ''=''" for d using hex [of d] by metis+
  show "CHR ''&'' \<notin> set (formChar a)" "CHR ''='' \<notin> set (formChar a)"
    unfolding formChar_def using digit [symmetric] formPlain_not by (cases "a = CHR ''&''"; cases "a = CHR ''=''"; simp)+
qed

lemma formText'_plain: "CHR ''&'' \<notin> set (formText' s)" "CHR ''='' \<notin> set (formText' s)"
  using formChar_plain by (auto simp: formText'_def)

lemma pair_inj: "formText' a @ CHR ''='' # formText' b = formText' c @ CHR ''='' # formText' d \<longleftrightarrow> a = c \<and> b = d"
proof -
  have head: "takeWhile (\<lambda>x. x \<noteq> CHR ''='') (formText' u @ CHR ''='' # v) = formText' u" for u v
    using formText'_plain(2) [of u] by (subst takeWhile_append2) auto
  show ?thesis
  proof
    assume eq: "formText' a @ CHR ''='' # formText' b = formText' c @ CHR ''='' # formText' d"
    have "formText' a = formText' c" using head [of a "formText' b"] head [of c "formText' d"] eq by simp
    with eq show "a = c \<and> b = d" by (simp add: formText'_inj)
  qed simp
qed

lemma queryText_inj:
  assumes "queryText q = queryText q'" shows "q = q'"
proof -
  let ?f = "\<lambda>kv. formText' (fst kv) @ CHR ''='' # formText' (snd kv)"
  have inj: "inj ?f" by (rule injI) (auto simp: pair_inj prod_eq_iff)
  have split: "splitOn CHR ''&'' (queryText r) = map ?f r" if "r \<noteq> []" for r
    unfolding queryText_def using that formText'_plain(1) by (intro splitOn_join) auto
  have empty: "queryText r = [] \<longleftrightarrow> r = []" for r
    by (cases r; cases "tl r") (simp_all add: queryText_def)
  show ?thesis
  proof (cases "q = [] \<or> q' = []")
    case True
    then show ?thesis using assms empty by metis
  next
    case False
    then have "map ?f q = map ?f q'" using split [of q] split [of q'] assms by simp
    then show ?thesis by (simp only: inj_map_eq_map [OF inj])
  qed
qed

subsection \<open>Numbers of a query\<close>

lemma number_showInt: "numberOf (showInt n) = JNum n" "trimBoth (showInt n) = showInt n" "showInt n \<noteq> []"
proof -
  have digits: "list_all isDigit (showNat m)" "showNat m \<noteq> []" for m using showNat_digits [of m] by auto
  have space: "\<not> isSpace c" if "isDigit c \<or> c = CHR ''-''" for c
    using that by (auto simp: isDigit_def isSpace_def)
  have plain: "\<not> isSpace c" if "c \<in> set (showInt n)" for c
    using that digits(1) by (intro space) (auto simp: showInt_def list_all_iff split: if_splits)
  show ne: "showInt n \<noteq> []" using digits by (simp add: showInt_def)
  have drop: "dropWhile isSpace s = s" if "\<And>c. c \<in> set s \<Longrightarrow> \<not> isSpace c" for s
    using that by (cases s) auto
  have "dropWhile isSpace (showInt n) = showInt n" "dropWhile isSpace (rev (showInt n)) = rev (showInt n)"
    by (rule drop, use plain in simp)+
  then show "trimBoth (showInt n) = showInt n" by (simp add: trimBoth_def)
  have span: "spanDigits (showNat m) = (showNat m, [])" for m
    using digits(1) [of m] by (auto simp: spanDigits_def list_all_iff takeWhile_eq_all_conv dropWhile_eq_Nil_conv)
  have decimal: "decimalLiteral (showInt n) = JNum n"
  proof (cases "n < 0")
    case True
    then show ?thesis
      by (simp add: decimalLiteral_def signed_def showInt_def span fraction_def expPart_def digits readDigits_showNat decimal_def)
  next
    case False
    then obtain c cs where c: "showInt n = c # cs" "isDigit c" "showNat (nat n) = c # cs"
      using digits(1) [of "nat n"] ne by (cases "showNat (nat n)") (auto simp: showInt_def)
    then have "c \<noteq> CHR ''-''" "c \<noteq> CHR ''+''" by (auto simp: isDigit_def)
    then have "signed (showInt n) = (False, showNat (nat n))" using c by (simp add: signed_def)
    then show ?thesis
      using False by (simp add: decimalLiteral_def span fraction_def expPart_def digits readDigits_showNat decimal_def)
  qed
  have letter: "toLower d \<notin> {CHR ''x'', CHR ''o'', CHR ''b''}" if "isDigit d" for d
  proof -
    have "list_all (\<lambda>d. toLower d \<notin> {CHR ''x'', CHR ''o'', CHR ''b''}) ''0123456789''" by code_simp
    with that show ?thesis unfolding isDigit_def list_all_iff by blast
  qed
  show "numberOf (showInt n) = JNum n"
  proof (cases "showInt n")
    case (Cons c ds)
    show ?thesis
    proof (cases ds)
      case (Cons d cs)
      have "isDigit d" if "c = CHR ''0''"
      proof -
        have "\<not> n < 0" using \<open>showInt n = c # ds\<close> that by (auto simp: showInt_def)
        then show ?thesis using \<open>showInt n = c # ds\<close> Cons digits(1) [of "nat n"] by (simp add: showInt_def)
      qed
      then show ?thesis
        using letter [of d] decimal \<open>showInt n = c # ds\<close> Cons by (auto simp: numberOf_def)
    qed (use decimal \<open>showInt n = c # ds\<close> in \<open>simp add: numberOf_def\<close>)
  qed (use ne in simp)
qed

lemma capability_params:
  "param (capability bh name verb expires maximum) ''key'' = Some (bh_digest bh name)"
  "param (capability bh name verb expires maximum) ''method'' = Some verb"
  "paramNumber (capability bh name verb expires maximum) ''expires'' = JNum expires"
  "paramNumber (capability bh name verb expires maximum) ''maximum'' = JNum maximum"
  by (simp_all add: capability_def param_def paramNumber_def number_showInt Let_def)

lemma capability_unsigned: "filter (\<lambda>kv. fst kv \<noteq> ''signature'') (capability bh name verb expires maximum @ [(''signature'', x)])
    = capability bh name verb expires maximum"
  by (simp add: capability_def)

subsection \<open>Writing an archive\<close>

lemma pump_bounded: "pump (Some m) n ps = (b, True) \<Longrightarrow> n \<le> m \<Longrightarrow> n + int (length b) \<le> m"
  by (induction "Some m" n ps arbitrary: b rule: pump.induct) (auto simp: Let_def split: if_splits prod.splits)

lemma pump_collect: "pump None n ps = (b, ok) \<Longrightarrow> collect ps = (if ok then Some b else None)"
  by (induction "None :: int option" n ps arbitrary: b rule: pump.induct) (auto simp: Let_def split: prod.splits)

text \<open>
  A write that succeeds replaces one archive, within its limit; one that fails leaves every archive as it was,
  and no temporary file either way.
\<close>

definition temporaryOf :: "string \<Rightarrow> string \<Rightarrow> string" where
  "temporaryOf dest u = dest @ ''.'' @ u @ ''.tmp''"

lemma write_ok:
  assumes "writeArchive bh u key body maximum files = (Inr n, files')"
  shows "\<exists>dest b. location bh key = Inr dest \<and> files' = files(dest \<mapsto> b) \<and> n = int (length b)
    \<and> (\<forall>m. maximum = Some m \<longrightarrow> 0 \<le> m \<longrightarrow> n \<le> m) \<and> (maximum = None \<longrightarrow> collect body = Some b)"
proof -
  obtain dest where dest: "location bh key = Inr dest" using assms by (auto simp: writeArchive_def split: sum.splits)
  let ?tmp = "temporaryOf dest u"
  have other: "?tmp \<noteq> dest" by (simp add: temporaryOf_def)
  obtain written where w: "files ?tmp = None" "pump maximum 0 body = (written, True)" "n = int (length written)"
      "files' = (files(dest \<mapsto> written))(?tmp := None)"
    using assms by (auto simp: writeArchive_def dest Let_def temporaryOf_def split: if_splits prod.splits)
  have "files' = files(dest \<mapsto> written)" using w(1,4) other by (auto simp: fun_eq_iff)
  moreover have "\<forall>m. maximum = Some m \<longrightarrow> 0 \<le> m \<longrightarrow> n \<le> m" using w(2,3) pump_bounded [of _ 0 body written] by auto
  moreover have "maximum = None \<longrightarrow> collect body = Some written" using w(2) pump_collect [of 0 body written True] by auto
  ultimately show ?thesis using dest w(3) by blast
qed

lemma write_failed:
  assumes "writeArchive bh u key body maximum files = (Inl e, files')"
  shows "files' = files \<or> (\<exists>dest. location bh key = Inr dest \<and> files' = files(temporaryOf dest u := None))"
  using assms by (auto simp: writeArchive_def temporaryOf_def Let_def split: sum.splits if_splits prod.splits)

lemma location_key: "location bh key = Inr dest \<Longrightarrow> hexKey key"
  by (auto simp: location_def split: sum.splits if_splits)

subsection \<open>Capabilities\<close>

text \<open>
  What a request is served under a granted signature: the one archive the capability names, by the one
  method, before it expires, and an upload within its limit.
\<close>

lemma blob_served:
  assumes served: "serveLocalBlob bh u rq t files = (Inr resp, files')" "bs_status resp = 200"
    and issued: "signedQuery bh name verb ttl maximum t0 = Inr granted"
      "param (br_query rq) ''signature'' = param granted ''signature''"
    and unforged: "\<And>s q. BETTER_AUTH_SECRET (bh_env bh) = Some s \<Longrightarrow>
      bh_hmac bh s (queryText q) = bh_hmac bh s (queryText (capability bh name verb (t0 + ttl) maximum)) \<Longrightarrow>
      queryText q = queryText (capability bh name verb (t0 + ttl) maximum)"
  shows "br_method rq = verb \<and> t < t0 + ttl \<and> (\<exists>dest. location bh (bh_digest bh name) = Inr dest
    \<and> (if verb = ''PUT'' then \<exists>b. files' = files(dest \<mapsto> b) \<and> int (length b) \<le> maximum
       else files' = files \<and> bs_body resp = files dest))"
proof -
  let ?cap = "capability bh name verb (t0 + ttl) maximum"
  let ?q = "filter (\<lambda>kv. fst kv \<noteq> ''signature'') (br_query rq)"
  obtain secret where secret: "BETTER_AUTH_SECRET (bh_env bh) = Some secret" "secret \<noteq> []"
      and granted: "granted = ?cap @ [(''signature'', bh_hmac bh secret (queryText ?cap))]"
    using issued(1) by (auto simp: signedQuery_def signature_def Let_def truthy_def split: if_splits option.splits)
  have sign: "signature bh x = Inr (bh_hmac bh secret x)" for x using secret by (simp add: signature_def truthy_def)
  have "param granted ''signature'' = Some (bh_hmac bh secret (queryText ?cap))"
    by (simp add: granted param_def capability_def)
  with issued(2) have supplied: "param (br_query rq) ''signature'' = Some (bh_hmac bh secret (queryText ?cap))" by simp
  have enabled: "dockerBackendEnabled (bh_env bh) = Inr True"
    using served by (auto simp: serveLocalBlob_def emptyResponse_def split: sum.splits if_splits)
  have valid: "grantValid (bh_hmac bh secret (queryText ?q)) (bh_hmac bh secret (queryText ?cap)) rq ?q t"
    using served by (auto simp: serveLocalBlob_def enabled supplied sign emptyResponse_def Let_def split: if_splits)
  then have "queryText ?q = queryText ?cap" using unforged [OF secret(1), of ?q] by (simp add: grantValid_def)
  then have q: "?q = ?cap" by (rule queryText_inj)
  have verb: "verb = br_method rq" and time: "t < t0 + ttl"
    using valid unfolding q grantValid_def capability_params laterThan_def by simp_all
  have hex: "hexKey (bh_hmac bh secret (queryText ?cap))" using valid unfolding grantValid_def by (elim conjE)
  have run: "(if br_method rq = ''PUT'' then (case acceptUpload bh u rq ?cap files of (r, f) \<Rightarrow> (Inr r, f))
      else (case location bh (bh_digest bh name) of Inl e \<Rightarrow> (Inl e, files)
        | Inr dest \<Rightarrow> (case files dest of None \<Rightarrow> (Inr (emptyResponse 404), files)
           | Some b \<Rightarrow> (Inr \<lparr>bs_status = 200, bs_body = Some b\<rparr>, files)))) = (Inr resp, files')"
    using served(1) valid hex unfolding serveLocalBlob_def
    by (simp add: enabled supplied sign Let_def q capability_params nullish_def cong: if_cong split del: if_split)
  show ?thesis
  proof (cases "br_method rq = ''PUT''")
    case True
    with run have up: "acceptUpload bh u rq ?cap files = (resp, files')" by (simp split: prod.splits)
    obtain body m n where "zInt (JNum maximum) = Some m" "0 < m" "writeArchive bh u (bh_digest bh name) body (Some m) files = (Inr n, files')"
      using up served(2) by (auto simp: acceptUpload_def capability_params emptyResponse_def split: option.splits if_splits sum.splits prod.splits)
    moreover from this(1) have "m = maximum" by (auto simp: zInt_def split: if_splits)
    ultimately show ?thesis using verb time True write_ok [of bh u "bh_digest bh name" body "Some m" files n files'] by force
  next
    case False
    with run served(2) verb time show ?thesis by (auto simp: emptyResponse_def split: sum.splits option.splits)
  qed
qed

text \<open>What was put is what a presigned URL downloads, until it expires.\<close>

lemma blob_downloaded:
  assumes put: "filePut bh u name body files = (Inr sb, files1)"
    and issued: "signedQuery bh name ''GET'' ttl maximum t0 = Inr granted" and time: "t < t0 + ttl"
    and hex: "\<And>s x. hexKey (bh_hmac bh s x)"
  shows "serveLocalBlob bh u' \<lparr>br_method = ''GET'', br_query = granted, br_body = None\<rparr> t files1
    = (Inr \<lparr>bs_status = 200, bs_body = collect body\<rparr>, files1)" and "collect body \<noteq> None"
proof -
  let ?cap = "capability bh name ''GET'' (t0 + ttl) maximum"
  obtain n where "writeArchive bh u (bh_digest bh name) body None files = (Inr n, files1)"
    using put by (auto simp: filePut_def split: prod.splits sum.splits)
  from write_ok [OF this] obtain dest b where dest: "location bh (bh_digest bh name) = Inr dest" "files1 = files(dest \<mapsto> b)"
      "collect body = Some b" by auto
  have enabled: "dockerBackendEnabled (bh_env bh) = Inr True"
    using dest(1) by (auto simp: location_def split: sum.splits if_splits)
  obtain secret where secret: "BETTER_AUTH_SECRET (bh_env bh) = Some secret" "secret \<noteq> []"
      and granted: "granted = ?cap @ [(''signature'', bh_hmac bh secret (queryText ?cap))]"
    using issued by (auto simp: signedQuery_def signature_def Let_def truthy_def split: if_splits option.splits)
  have supplied: "param granted ''signature'' = Some (bh_hmac bh secret (queryText ?cap))"
    by (simp add: granted param_def capability_def)
  have q: "filter (\<lambda>kv. fst kv \<noteq> ''signature'') granted = ?cap" unfolding granted by (rule capability_unsigned)
  have "hexKey (bh_digest bh name)" by (rule location_key [OF dest(1)])
  then have valid: "grantValid (bh_hmac bh secret (queryText ?cap)) (bh_hmac bh secret (queryText ?cap))
      \<lparr>br_method = ''GET'', br_query = granted, br_body = None\<rparr> ?cap t"
    using time by (simp add: grantValid_def hex capability_params laterThan_def nullish_def)
  show "serveLocalBlob bh u' \<lparr>br_method = ''GET'', br_query = granted, br_body = None\<rparr> t files1
      = (Inr \<lparr>bs_status = 200, bs_body = collect body\<rparr>, files1)"
    using valid secret dest
    by (simp add: serveLocalBlob_def enabled supplied q signature_def truthy_def hex capability_params nullish_def Let_def)
  show "collect body \<noteq> None" using dest(3) by simp
qed

end
