(* ===== verification/DebugSessions.thy ===== *)
theory DebugSessions
  imports Routes Export
begin

text \<open>
  Debug adapters and kernels (\<open>lib/sandbox-process.ts\<close>, \<open>app/api/workspaces/[id]/debug/route.ts\<close>,
  \<open>kernel/route.ts\<close>): the guards of a session, what may be launched, and the token that carries the digest of
  the launch to the sandbox's tunnel. \<open>keys\<close> is what \<open>loadSigningKeys\<close> returned, \<open>originOf\<close> what \<open>new URL\<close>
  makes of an origin.
\<close>

section \<open>Launches\<close>

definition launchText :: "json \<Rightarrow> string option" where
  "launchText = zMatch (\<lambda>s. CHR 0x00 \<notin> set s)"

record adapterConnection =
  ac_host :: string
  ac_port :: int
  ac_timeout :: "int option"

record launch =
  la_command :: "string option"
  la_arguments :: "string list"
  la_envs :: "(string \<times> string) list"
  la_cwd :: "string option"
  la_connection :: "adapterConnection option"

definition connectionSchema :: "env \<Rightarrow> json \<Rightarrow> adapterConnection option" where
  "connectionSchema e j =
     (if \<not> onlyKeys [''host'', ''port'', ''timeout''] j then None
      else case (zKey ''host'' (zMatch (\<lambda>s. s = ''127.0.0.1'' \<or> s = ''::1'')) j, zKey ''port'' (zIntIn 1024 65535) j,
          zKey ''timeout'' (zNullable (zIntIn 0 MAX_SAFE_INTEGER)) j) of
        (Some h, Some p, Some t) \<Rightarrow> if isInfraPort e p then None else Some \<lparr>ac_host = h, ac_port = p, ac_timeout = t\<rparr>
      | _ \<Rightarrow> None)"

definition envsSchema :: "json \<Rightarrow> (string \<times> string) list option" where
  "envsSchema j = (case zRecord launchText j of None \<Rightarrow> None
     | Some kvs \<Rightarrow> if list_all (\<lambda>kv. CHR 0x00 \<notin> set (fst kv)) kvs \<and> length (remdups (map fst kvs)) \<le> 1024 then Some kvs else None)"

definition launchSchema :: "env \<Rightarrow> json \<Rightarrow> launch option" where
  "launchSchema e j =
     (if \<not> onlyKeys [''command'', ''arguments'', ''envs'', ''cwd'', ''connection''] j then None
      else case (zKey ''command'' (zNullable (zMatch (\<lambda>s. CHR 0x00 \<notin> set s \<and> s \<noteq> []))) j,
          zKey ''arguments'' (zArray 512 launchText) j, zKey ''envs'' envsSchema j,
          zKey ''cwd'' (zNullable launchText) j, zKey ''connection'' (zNullable (connectionSchema e)) j) of
        (Some c, Some as, Some es, Some d, Some con) \<Rightarrow> if c = None \<and> con = None then None
          else Some \<lparr>la_command = c, la_arguments = as, la_envs = es, la_cwd = d, la_connection = con\<rparr>
      | _ \<Rightarrow> None)"

text \<open>The limit of a launch document, in bytes.\<close>

definition tooLong :: "string \<Rightarrow> bool" where
  "tooLong s \<longleftrightarrow> int (length s) > 65536"

definition readDebugLaunch :: "env \<Rightarrow> request \<Rightarrow> err + string" where
  "readDebugLaunch e req = (case parseBody req (zMatch (\<lambda>s. \<not> tooLong s)) (Some 262144) of
      Inl x \<Rightarrow> Inl x
    | Inr text' \<Rightarrow> (case jsonParse text' of None \<Rightarrow> Inl (ApiError 400 ''invalid_debug_config'')
        | Some j \<Rightarrow> if launchSchema e j = None then Inl (ApiError 400 ''invalid_debug_config'') else Inr text'))"

section \<open>Kernels\<close>

datatype kernelChoice = ListKernels | PythonKernel "string option" | KernelSpec string

definition sandboxPath :: "json \<Rightarrow> string option" where
  "sandboxPath = zMatch (\<lambda>s. 1 \<le> length s \<and> length s \<le> 4096 \<and> prefix ''/'' s \<and> CHR 0x00 \<notin> set s)"

definition specName :: "string \<Rightarrow> bool" where
  "specName s \<longleftrightarrow> 1 \<le> length s \<and> length s \<le> 255
     \<and> list_all (\<lambda>c. c \<in> set ''ABCDEFGHIJKLMNOPQRSTUVWXYZabcdefghijklmnopqrstuvwxyz0123456789._-'') s"

definition kernelChoiceSchema :: "json \<Rightarrow> kernelChoice option" where
  "kernelChoiceSchema j = (case zKey ''kind'' zAnyString j of
      None \<Rightarrow> None
    | Some kind \<Rightarrow>
        if kind = ''list'' then (if onlyKeys [''kind''] j then Some ListKernels else None)
        else if kind = ''python'' then (if onlyKeys [''kind'', ''executable''] j
          then map_option PythonKernel (zKey ''executable'' (zNullable sandboxPath) j) else None)
        else if kind = ''kernelspec'' then (if onlyKeys [''kind'', ''name''] j
          then map_option KernelSpec (zKey ''name'' (zMatch specName) j) else None)
        else None)"

definition kernelSchema :: "json \<Rightarrow> (kernelChoice \<times> string) option" where
  "kernelSchema j = (if \<not> onlyKeys [''kernel'', ''cwd''] j then None
     else case (zKey ''kernel'' kernelChoiceSchema j, zKey ''cwd'' sandboxPath j) of
       (Some k, Some d) \<Rightarrow> Some (k, d) | _ \<Rightarrow> None)"

fun kernelJson :: "kernelChoice \<Rightarrow> json" where
  "kernelJson ListKernels = JObj [(''kind'', JStr ''list'')]"
| "kernelJson (PythonKernel x) = JObj [(''kind'', JStr ''python''), (''executable'', case x of None \<Rightarrow> JNull | Some p \<Rightarrow> JStr p)]"
| "kernelJson (KernelSpec n) = JObj [(''kind'', JStr ''kernelspec''), (''name'', JStr n)]"

definition bundledPython :: string where
  "bundledPython = ''/opt/zedspaces/repl/bin/python''"

definition kernelLaunch :: "kernelChoice \<Rightarrow> string \<Rightarrow> json" where
  "kernelLaunch k cwd = JObj [(''command'', JStr bundledPython),
     (''arguments'', JArr [JStr ''/usr/local/lib/zedspaces/kernel.py'', JStr (stringify (kernelJson k))]),
     (''envs'', JObj []), (''cwd'', if k = ListKernels then JNull else JStr cwd), (''connection'', JNull)]"

definition readKernelLaunch :: "request \<Rightarrow> err + string" where
  "readKernelLaunch req = (case parseBody req kernelSchema (Some 32768) of
      Inl x \<Rightarrow> Inl x
    | Inr (k, cwd) \<Rightarrow> Inr (stringify (kernelLaunch k cwd)))"

section \<open>The session\<close>

record 'tok processSession =
  ps_launch :: string
  ps_url :: string
  ps_token :: 'tok

definition processAudience :: "string \<Rightarrow> string" where
  "processAudience aud = aud @ ''/debug''"

definition processClaims :: "platform \<Rightarrow> signingKeys \<Rightarrow> string \<Rightarrow> int \<Rightarrow> viewer \<Rightarrow> workspace \<Rightarrow> string \<Rightarrow> payload" where
  "processClaims pf keys jti t v ws launch = [(''ws'', JStr (ws_id ws)), (''launch'', JStr (pf_sha256 pf launch)),
     (''iss'', JStr (sk_issuer keys)), (''sub'', JStr (v_userId v)), (''aud'', JStr (processAudience (audience ws))),
     (''iat'', JNum (t div 1000)), (''exp'', JNum (t div 1000 + 120)), (''jti'', JStr jti)]"

definition signProcess ::
  "platform \<Rightarrow> 'tok jose \<Rightarrow> signingKeys \<Rightarrow> viewer \<Rightarrow> workspace \<Rightarrow> string \<Rightarrow> handle \<Rightarrow> 'tok processSession io" where
  "signProcess pf jz keys v ws launch h =
     bindE (randomUUID pf) (\<lambda>jti. bindE (getE now) (\<lambda>t.
     case h_domain h 8448 of
       None \<Rightarrow> throwE (OtherError ''domain'')
     | Some host \<Rightarrow> retE \<lparr>ps_launch = launch, ps_url = sandboxWsScheme (pf_env pf) @ ''://'' @ host @ ''/debug'',
         ps_token = jz_sign jz (ak_privateKey (sk_active keys)) (ak_kid (sk_active keys)) (processClaims pf keys jti t v ws launch)\<rparr>))"

definition connectSandboxProcess ::
  "platform \<Rightarrow> 'tok jose \<Rightarrow> signingKeys \<Rightarrow> (string \<Rightarrow> (string \<times> string) option) \<Rightarrow> string option \<Rightarrow> string
   \<Rightarrow> request \<Rightarrow> err + string \<Rightarrow> 'tok processSession io" where
  "connectSandboxProcess pf jz keys originOf sessionUser i req readLaunch =
     (if \<not> originMatchesHost originOf (rq_header req) \<or> rq_header req ''sec-fetch-site'' = Some ''cross-site''
      then throwE (ApiError 403 ''cross_origin'')
      else
     bindE (requireWorkspaceParam sessionUser i (Some [Running]) True) (\<lambda>(v, ws).
     thenE (limit LimUserProcess (v_userId v))
     (bindE (ofSum readLaunch) (\<lambda>launch.
     if tooLong launch then throwE (ApiError 413 ''too_large'')
     else bindE (apiGet pf (sandboxName ws) False) (\<lambda>got. case got of
       None \<Rightarrow> throwE (ApiError 409 ''not_running'')
     | Some (h, _) \<Rightarrow>
         if h_status h \<noteq> StRunning then throwE (ApiError 409 ''not_running'')
         else signProcess pf jz keys v ws launch h)))))"

definition debugPost ::
  "platform \<Rightarrow> 'tok jose \<Rightarrow> signingKeys \<Rightarrow> (string \<Rightarrow> (string \<times> string) option) \<Rightarrow> string option \<Rightarrow> string
   \<Rightarrow> request \<Rightarrow> 'tok processSession io" where
  "debugPost pf jz keys originOf sessionUser i req =
     connectSandboxProcess pf jz keys originOf sessionUser i req (readDebugLaunch (pf_env pf) req)"

definition kernelPost ::
  "platform \<Rightarrow> 'tok jose \<Rightarrow> signingKeys \<Rightarrow> (string \<Rightarrow> (string \<times> string) option) \<Rightarrow> string option \<Rightarrow> string
   \<Rightarrow> request \<Rightarrow> 'tok processSession io" where
  "kernelPost pf jz keys originOf sessionUser i req =
     connectSandboxProcess pf jz keys originOf sessionUser i req (readKernelLaunch req)"

section \<open>Lemmas\<close>

text \<open>A process token opens its tunnel for two minutes, for one launch, and never an RPC session.\<close>

definition opensTunnel :: "platform \<Rightarrow> 'tok jose \<Rightarrow> signingKeys \<Rightarrow> int \<Rightarrow> workspace \<Rightarrow> string \<Rightarrow> string \<Rightarrow> 'tok \<Rightarrow> bool" where
  "opensTunnel pf jz keys t ws user launch token \<longleftrightarrow> (\<exists>p.
     jz_verify jz token (keyResolver keys) (sk_issuer keys) (processAudience (audience ws))
       [] 0 (t div 1000) = Inr p
     \<and> claim p ''ws'' = Some (JStr (ws_id ws)) \<and> claim p ''sub'' = Some (JStr user)
     \<and> claim p ''launch'' = Some (JStr (pf_sha256 pf launch)))"

definition processOk ::
  "platform \<Rightarrow> 'tok jose \<Rightarrow> signingKeys \<Rightarrow> workspace \<Rightarrow> string \<Rightarrow> int \<Rightarrow> 'tok processSession \<Rightarrow> bool" where
  "processOk pf jz keys ws user t ps \<longleftrightarrow>
     (\<forall>t' aud other. \<exists>x. verifySessionToken jz keys t' aud other (ps_token ps) = Inl x)
     \<and> (\<forall>t'. opensTunnel pf jz keys t' ws user (ps_launch ps) (ps_token ps) \<longleftrightarrow> t' div 1000 < t div 1000 + 120)"

lemma signed_process:
  assumes "jwt_library jz publicOf" and "jwt_library.matching publicOf keys"
  shows "wp (signProcess pf jz keys v ws launch h) (\<lambda>ps w'. ps_launch ps = launch \<and> processOk pf jz keys ws (v_userId v) (now w') ps) (\<lambda>_ _. True) w"
proof -
  note verify = jwt_library.verify_active [OF assms]
  show ?thesis
    by (auto simp: signProcess_def randomUUID_def wp_simps wp_def processOk_def opensTunnel_def processClaims_def verifySessionToken_def
        verify claimVerdict_def claim_def REQUIRED_SESSION_CLAIMS_def act_defs split: option.splits)
qed


lemma wp_connectSandboxProcess:
  assumes "jwt_library jz publicOf" and "jwt_library.matching publicOf keys"
  shows "wp (connectSandboxProcess pf jz keys originOf sessionUser i req readLaunch)
     (\<lambda>ps w'. originMatchesHost originOf (rq_header req) \<and> readLaunch = Inr (ps_launch ps) \<and> \<not> tooLong (ps_launch ps)
        \<and> (\<exists>ws \<in> set (workspacesT w). ws_id ws = i \<and> sessionUser = Some (ownerUserId ws) \<and> deletedAt ws = None \<and> ws_state ws = Running
             \<and> processOk pf jz keys ws (ownerUserId ws) (now w') ps))
     (\<lambda>_ _. True) w"
proof -
  let ?Q = "\<lambda>ws ps w'. readLaunch = Inr (ps_launch ps) \<and> \<not> tooLong (ps_launch ps) \<and> processOk pf jz keys ws (ownerUserId ws) (now w') ps"
  have rest: "wp (bindE (ofSum readLaunch) (\<lambda>launch. if tooLong launch then throwE (ApiError 413 ''too_large'')
      else bindE (apiGet pf (sandboxName ws) False) (\<lambda>got. case got of
         None \<Rightarrow> throwE (ApiError 409 ''not_running'')
       | Some (h, _) \<Rightarrow> if h_status h \<noteq> StRunning then throwE (ApiError 409 ''not_running'') else signProcess pf jz keys v ws launch h)))
      (?Q ws) (\<lambda>_ _. True) u" if "v_userId v = ownerUserId ws" for u v ws
  proof -
    have "wp (signProcess pf jz keys v ws launch h) (?Q ws) (\<lambda>_ _. True) x" if "readLaunch = Inr launch" "\<not> tooLong launch" for launch h x
      by (rule wp_mono [OF signed_process [OF assms]]) (use that \<open>v_userId v = ownerUserId ws\<close> in auto)
    then show ?thesis by (auto simp: ofSum_def wp_simps split: sum.splits option.splits)
  qed
  have limited: "wp (thenE (limit LimUserProcess (v_userId v)) m) (?Q ws) (\<lambda>_ _. True) u"
    if "\<And>u. wp m (?Q ws) (\<lambda>_ _. True) u" for m u v ws
    by (rule wp_anyT) (rule that)
  show ?thesis
    unfolding connectSandboxProcess_def
    by (auto simp: wp_throw wp_bind Let_def intro!: wp_mono [OF wp_requireWorkspaceParam] wp_mono [OF limited [OF rest]])
qed

text \<open>What a debug session launches: on loopback only, and never a port of the infrastructure.\<close>

lemma connection_confined:
  "connectionSchema e j = Some con \<Longrightarrow> ac_host con \<in> {''127.0.0.1'', ''::1''} \<and> 1024 \<le> ac_port con \<and> ac_port con \<le> 65535 \<and> \<not> isInfraPort e (ac_port con)"
  by (auto simp: connectionSchema_def zKey_def zMatch_def zIntIn_def zInt_def split: if_splits option.splits json.splits)

text \<open>What a kernel session launches meets the contract of debug launches.\<close>

lemma escape_no_nul: "CHR 0x00 \<notin> set (escapeChar c)"
proof -
  have "hexLower n \<noteq> CHR 0x00" for n
  proof -
    have "hexLower n \<in> set ''0123456789abcdef''" unfolding hexLower_def by (rule nth_mem) simp
    moreover have "CHR 0x00 \<notin> set ''0123456789abcdef''" by simp
    ultimately show ?thesis by metis
  qed
  then show ?thesis by (auto simp: escapeChar_def dest: sym)
qed

lemma quote_no_nul: "CHR 0x00 \<notin> set (quoteJson s)"
  using escape_no_nul by (auto simp: quoteJson_def)

lemma kernel_no_nul: "CHR 0x00 \<notin> set (stringify (kernelJson k))"
  by (cases k) (simp_all add: joinWith.simps quote_no_nul split: option.split)

lemma kernel_launch_meets:
  assumes "kernelSchema j = Some (k, cwd)"
  shows "\<exists>l. jsonParse (stringify (kernelLaunch k cwd)) = Some (kernelLaunch k cwd) \<and> launchSchema e (kernelLaunch k cwd) = Some l
    \<and> la_command l = Some bundledPython \<and> la_connection l = None"
proof -
  have parsed: "jsonParse (stringify (kernelLaunch k cwd)) = Some (kernelLaunch k cwd)"
    by (rule jsonParse_stringify) (simp add: kernelLaunch_def)
  have cwd: "CHR 0x00 \<notin> set cwd"
    using assms by (auto simp: kernelSchema_def zKey_def sandboxPath_def zMatch_def split: if_splits option.splits json.splits)
  have "bundledPython \<noteq> []" "CHR 0x00 \<notin> set bundledPython" "CHR 0x00 \<notin> set ''/usr/local/lib/zedspaces/kernel.py''"
    by (simp_all add: bundledPython_def)
  then have "\<exists>l. launchSchema e (kernelLaunch k cwd) = Some l \<and> la_command l = Some bundledPython \<and> la_connection l = None"
    using cwd kernel_no_nul [of k]
    by (simp add: launchSchema_def kernelLaunch_def onlyKeys_def zKey_def jget_def zNullable_def zMatch_def zArray_def launchText_def
        envsSchema_def zRecord_def)
  with parsed show ?thesis by blast
qed

lemma launch_confined:
  assumes "launchSchema e j = Some l" and "la_connection l = Some con"
  shows "ac_host con \<in> {''127.0.0.1'', ''::1''} \<and> \<not> isInfraPort e (ac_port con)"
proof -
  have "zKey ''connection'' (zNullable (connectionSchema e)) j = Some (Some con)"
    using assms unfolding launchSchema_def by (simp split: if_splits option.splits) auto
  then obtain v where "zNullable (connectionSchema e) v = Some (Some con)" by (auto simp: zKey_def split: option.splits)
  then have "connectionSchema e v = Some con" by (cases v) (simp_all add: zNullable_def)
  from connection_confined [OF this] show ?thesis by simp
qed

lemma debug_launch_checked: "readDebugLaunch e req = Inr text' \<Longrightarrow> \<exists>j l. jsonParse text' = Some j \<and> launchSchema e j = Some l"
  by (auto simp: readDebugLaunch_def split: sum.splits option.splits if_splits)

end
