(* ===== verification/Releases.thy ===== *)
theory Releases
  imports Bundles Tokens
begin

text \<open>
  Releasing the control plane: the checks of a deployment (\<open>scripts/deploy-preflight.ts\<close>,
  \<open>prebuild.ts\<close>), the archive of a bundle (\<open>pack-editor-bundle.ts\<close>), and \<open>scripts/release.ts\<close>, which
  publishes a build, pins the configuration of the deployment to it and restores the one before. The
  variables of the environment, what \<open>new URL\<close> makes of a text, the digest, the asset store's answers and
  the platform's interface for its variables are parameters. Texts of errors are abridged.
\<close>

section \<open>Checking a configuration\<close>

type_synonym variables = "string \<Rightarrow> string option"

record webUrl =
  wu_protocol :: string
  wu_username :: string
  wu_password :: string
  wu_search :: string
  wu_hash :: string
  wu_hostname :: string
  wu_pathname :: string
  wu_origin :: string

datatype problem =
    Required string
  | NotRemoteDatabase
  | NotPublic string
  | NotProduction string
  | BuildsDiffer
  | ImageNotPinned
  | ClientNotServed
  | NoDeferredUpdates
  | UpdatesNotServed
  | ServesNonProduction
  | NotForDeployment string
  | LocalOnly string
  | ShortCronSecret
  | ShortAuthSecret
  | BadSigningKey
  | BadMaximum

definition REQUIRED_KEYS :: "string list" where
  "REQUIRED_KEYS = [''TURSO_DATABASE_URL'', ''TURSO_AUTH_TOKEN'', ''ZS_CONTROL_URL'', ''ZS_JWT_PRIVATE_KEY'',
    ''GITHUB_CLIENT_ID'', ''GITHUB_CLIENT_SECRET'', ''BETTER_AUTH_SECRET'', ''CRON_SECRET'',
    ''ZS_CLIENT_BUILD_ID'', ''ZS_SERVER_BUILD_ID'', ''ZS_IMAGE_REF'', ''ZS_EDITOR_BUNDLE_SOURCE'', ''ZS_EDITOR_BUNDLES'',
    ''ZS_EDITOR_UPDATE_BUILDS'', ''BLOB_READ_WRITE_TOKEN'']"

definition requireValue :: "variables \<Rightarrow> string \<Rightarrow> problem list" where
  "requireValue e key = (if trimBoth (nullish (e key) []) = [] then [Required key] else [])"

text \<open>\<open>path\<close> is the path the URL has to have, if any.\<close>

definition publicUrl :: "(string \<Rightarrow> webUrl option) \<Rightarrow> string option \<Rightarrow> string \<Rightarrow> bool" where
  "publicUrl url path s = (case url s of None \<Rightarrow> False | Some u \<Rightarrow>
     wu_protocol u = ''https:'' \<and> wu_username u = [] \<and> wu_password u = [] \<and> wu_search u = [] \<and> wu_hash u = []
     \<and> \<not> list_ex (\<lambda>p. prefix p (wu_hostname u)) [''localhost'', ''127.'', ''[::1]'']
     \<and> (case path of None \<Rightarrow> True | Some p \<Rightarrow> wu_pathname u = p))"

definition servable :: "string \<Rightarrow> bool" where
  "servable build = (case assertBuildId build of Inl _ \<Rightarrow> False
     | Inr i \<Rightarrow> (case assertServableBuild i None of Inl _ \<Rightarrow> False | Inr _ \<Rightarrow> True))"

definition productionBuild :: "string \<Rightarrow> bool" where
  "productionBuild build \<longleftrightarrow> servable build \<and> \<not> prefix ''dev'' build \<and> \<not> suffix ''-names'' build"

definition slugChar :: "char \<Rightarrow> bool" where
  "slugChar c \<longleftrightarrow> c \<in> set ''abcdefghijklmnopqrstuvwxyz0123456789._-''"

definition digestText :: "string \<Rightarrow> bool" where
  "digestText s \<longleftrightarrow> prefix ''sha256:'' s \<and> length s = 71 \<and> list_all lowerHex (drop 7 s)"

definition pinnedImage :: "string \<Rightarrow> bool" where
  "pinnedImage s \<longleftrightarrow> prefix ''vcr.vercel.com/'' s \<and> (let t = drop 15 s; team = takeWhile slugChar t; u = drop (length team) t;
     name = takeWhile (\<lambda>c. slugChar c \<or> c = CHR ''/'') (tl u); v = drop (length name) (tl u) in
     team \<noteq> [] \<and> prefix ''/'' u \<and> name \<noteq> [] \<and> v \<noteq> [] \<and> hd v = CHR 0x40 \<and> digestText (tl v))"

definition servedBuilds :: "variables \<Rightarrow> string list" where
  "servedBuilds e = (case e ''ZS_EDITOR_BUNDLES'' of None \<Rightarrow> []
     | Some s \<Rightarrow> filter (\<lambda>i. i \<noteq> []) (map trimBoth (splitOn CHR '','' s)))"

definition updateBuilds :: "variables \<Rightarrow> string list" where
  "updateBuilds e = (case e ''ZS_EDITOR_UPDATE_BUILDS'' of None \<Rightarrow> []
     | Some s \<Rightarrow> filter (\<lambda>i. i \<noteq> []) (splitOn CHR '','' s))"

definition reportIf :: "bool \<Rightarrow> problem \<Rightarrow> problem list" where
  "reportIf b p = (if b then [p] else [])"

text \<open>What concerns the builds and the image.\<close>

definition buildProblems :: "variables \<Rightarrow> problem list" where
  "buildProblems e =
     (let client = e ''ZS_CLIENT_BUILD_ID''; server = e ''ZS_SERVER_BUILD_ID''; img = e ''ZS_IMAGE_REF'' in
      concat (map (\<lambda>k. reportIf (truthy (e k) \<and> \<not> productionBuild (the (e k))) (NotProduction k)) [''ZS_CLIENT_BUILD_ID'', ''ZS_SERVER_BUILD_ID''])
      @ reportIf (truthy client \<and> truthy server \<and> client \<noteq> server) BuildsDiffer
      @ reportIf (truthy img \<and> \<not> pinnedImage (the img)) ImageNotPinned
      @ reportIf (truthy client \<and> the client \<notin> set (servedBuilds e)) ClientNotServed
      @ reportIf (truthy client \<and> the client \<notin> set (updateBuilds e)) NoDeferredUpdates
      @ reportIf (\<not> set (updateBuilds e) \<subseteq> set (servedBuilds e)) UpdatesNotServed
      @ concat (map (\<lambda>i. reportIf (\<not> productionBuild i) ServesNonProduction) (servedBuilds e)))"

definition digitsBetween :: "nat \<Rightarrow> nat \<Rightarrow> string \<Rightarrow> bool" where
  "digitsBetween lo hi s \<longleftrightarrow> (case readNat s of None \<Rightarrow> False | Some n \<Rightarrow> lo \<le> n \<and> n \<le> hi)"

text \<open>\<open>p256\<close>: whether the text is a private key of that curve.\<close>

definition deploymentProblems :: "(string \<Rightarrow> webUrl option) \<Rightarrow> (string \<Rightarrow> bool) \<Rightarrow> variables \<Rightarrow> problem list" where
  "deploymentProblems url p256 e =
     concat (map (requireValue e) REQUIRED_KEYS)
     @ (let db = e ''TURSO_DATABASE_URL'' in
        reportIf (truthy db \<and> \<not> prefix ''libsql://'' (the db) \<and> \<not> prefix ''https://'' (the db)) NotRemoteDatabase)
     @ concat (map (\<lambda>(k, path). reportIf (truthy (e k) \<and> \<not> publicUrl url path (the (e k))) (NotPublic k))
         [(''ZS_CONTROL_URL'', Some ''/api''), (''ZS_EDITOR_BUNDLE_SOURCE'', None)])
     @ buildProblems e
     @ concat (map (\<lambda>k. reportIf (truthy (e k) \<and> e k \<noteq> Some ''vercel'') (NotForDeployment k)) [''ZS_SANDBOX_BACKEND'', ''ZS_BLOB_DRIVER''])
     @ concat (map (\<lambda>k. reportIf (truthy (e k)) (LocalOnly k)) [''ZS_DB_URL'', ''ZS_LOCAL_ROOT'', ''ZS_SERVE_BIN'', ''ZS_AGENT_BIN''])
     @ reportIf (truthy (e ''CRON_SECRET'') \<and> length (the (e ''CRON_SECRET'')) < 16) ShortCronSecret
     @ reportIf (truthy (e ''BETTER_AUTH_SECRET'') \<and> length (the (e ''BETTER_AUTH_SECRET'')) < 32) ShortAuthSecret
     @ reportIf (truthy (e ''ZS_JWT_PRIVATE_KEY'') \<and> \<not> p256 (unescapeNewlines (the (e ''ZS_JWT_PRIVATE_KEY'')))) BadSigningKey
     @ reportIf (truthy (e ''ZS_MAX_RUNNING_WORKSPACES'') \<and> \<not> digitsBetween 1 100 (the (e ''ZS_MAX_RUNNING_WORKSPACES''))) BadMaximum"

section \<open>Checking the bundles\<close>

text \<open>The first eight bytes, where a shorter file leaves zeros.\<close>

definition WASM_MAGIC :: string where
  "WASM_MAGIC = [CHR 0x00, CHR 0x61, CHR 0x73, CHR 0x6D, CHR 0x01, CHR 0x00, CHR 0x00, CHR 0x00]"

definition magicOk :: "string \<Rightarrow> bool" where
  "magicOk bytes \<longleftrightarrow> take 8 (bytes @ replicate 8 (CHR 0x00)) = WASM_MAGIC"

definition sizeIs :: "json \<Rightarrow> string \<Rightarrow> (string \<times> string) list \<Rightarrow> string \<Rightarrow> bool" where
  "sizeIs meta key fs f \<longleftrightarrow> (case map_of fs f of None \<Rightarrow> False | Some t \<Rightarrow> jget (Some meta) key = Some (JNum (int (length t))))"

definition bundleProblem :: "bundleDir \<Rightarrow> string \<Rightarrow> string option" where
  "bundleProblem d build = (case assertBuildId build of Inl x \<Rightarrow> Some x | Inr _ \<Rightarrow>
     (let fs = filesOf d build in case readMeta fs of Inl x \<Rightarrow> Some x | Inr meta \<Rightarrow>
       (case assertServableBuild build (Some meta) of Inl x \<Rightarrow> Some x | Inr _ \<Rightarrow>
         if \<not> namesBuild meta build \<or> jget (Some meta) ''test_hooks'' \<noteq> Some (JBool False) then Some ''identity/test_hooks mismatch''
         else if \<not> list_all (\<lambda>f. map_of fs f \<notin> {None, Some []}) SERVED_FILES then Some ''missing or empty''
         else if \<not> magicOk (the (map_of fs ''zed_web_bg.wasm'')) then Some ''invalid WebAssembly header''
         else if \<not> sizeIs meta ''wasm_bytes'' fs ''zed_web_bg.wasm'' then Some ''WebAssembly size differs''
         else None)))"

definition bundleProblems :: "bundleDir \<Rightarrow> string list \<Rightarrow> (string \<times> string) list" where
  "bundleProblems d builds = concat (map (\<lambda>b. case bundleProblem d b of None \<Rightarrow> [] | Some x \<Rightarrow> [(b, x)]) builds)"

text \<open>What the check of a deployment throws.\<close>

datatype preflightError = ConfigProblems "problem list" | BundleProblems "(string \<times> string) list" | UpdateProblems "string list" | CheckThrew string

definition updateMetaOk :: "bundleDir \<Rightarrow> string \<Rightarrow> string + bool" where
  "updateMetaOk d build = (let fs = filesOf d build in case readMeta fs of Inl x \<Rightarrow> Inl x | Inr meta \<Rightarrow>
     Inr (jget (Some meta) ''web_updates'' = Some (JBool True) \<and> sizeIs meta ''assets_bytes'' fs ''zed-assets.tar''
       \<and> sizeIs meta ''js_bytes'' fs ''zed_web.js''))"

fun updateProblems :: "bundleDir \<Rightarrow> string list \<Rightarrow> string + string list" where
  "updateProblems d [] = Inr []"
| "updateProblems d (b # bs) = (case updateMetaOk d b of Inl x \<Rightarrow> Inl x
     | Inr ok \<Rightarrow> map_sum id (\<lambda>ps. if ok then ps else b # ps) (updateProblems d bs))"

definition preflight :: "(string \<Rightarrow> webUrl option) \<Rightarrow> (string \<Rightarrow> bool) \<Rightarrow> variables \<Rightarrow> bundleDir \<Rightarrow> preflightError + unit" where
  "preflight url p256 e d =
     (if deploymentProblems url p256 e \<noteq> [] then Inl (ConfigProblems (deploymentProblems url p256 e))
      else if bundleProblems d (servedBuilds e) \<noteq> [] then Inl (BundleProblems (bundleProblems d (servedBuilds e)))
      else case updateProblems d (splitOn CHR '','' (the (e ''ZS_EDITOR_UPDATE_BUILDS''))) of
        Inl x \<Rightarrow> Inl (CheckThrew x) | Inr [] \<Rightarrow> Inr () | Inr ps \<Rightarrow> Inl (UpdateProblems ps))"

text \<open>The prebuild script: \<open>keep\<close> is the number \<open>ZS_EDITOR_BUNDLES_KEEP\<close> reads as.\<close>

definition prebuild ::
  "(string \<Rightarrow> webUrl option) \<Rightarrow> (string \<Rightarrow> bool) \<Rightarrow> variables \<Rightarrow> bundleSource \<Rightarrow> int
   \<Rightarrow> (bundleDir, preflightError, unit) act" where
  "prebuild url p256 e src keep =
     (let deployed = (e ''VERCEL'' = Some ''1'' \<or> e ''VERCEL_ENV'' \<in> {Some ''production'', Some ''preview''});
          source = rev (dropWhile (\<lambda>c. c = CHR ''/'') (rev (nullish (e ''ZS_EDITOR_BUNDLE_SOURCE'') []))) in
      if deployed \<and> deploymentProblems url p256 e \<noteq> [] then throwE (ConfigProblems (deploymentProblems url p256 e))
      else thenE (whenE (source \<noteq> [] \<and> truthy (e ''ZS_CLIENT_BUILD_ID''))
          (\<lambda>d. case fetchEditorBundles src (the (e ''ZS_CLIENT_BUILD_ID'')) keep d of
             (Inl x, d') \<Rightarrow> (Inl (CheckThrew x), d') | (Inr _, d') \<Rightarrow> (Inr (), d')))
        (whenE deployed (bindE (getE (preflight url p256 e)) ofResult)))"

section \<open>Packing a bundle\<close>

text \<open>The archive and the manifest, or what was thrown; \<open>exists\<close>: whether the output is there already.\<close>

definition packEditorBundle :: "bundleDir \<Rightarrow> string \<Rightarrow> bool \<Rightarrow> string + (string \<times> string) list \<times> string" where
  "packEditorBundle d build exists = (case assertBuildId build of Inl x \<Rightarrow> Inl x | Inr _ \<Rightarrow>
     if prefix ''dev'' build \<or> suffix ''-test'' build \<or> suffix ''-names'' build then Inl ''Choose a production build''
     else if bundleProblems d [build] \<noteq> [] then Inl ''problems''
     else if exists then Inl ''Output already exists''
     else Inr (map (\<lambda>f. (build @ ''/'' @ f, the (map_of (filesOf d build) f))) SERVED_FILES,
       stringify (JObj [(''builds'', JArr [JStr build])])))"

section \<open>The values of a release\<close>

definition releaseKeys :: "string list" where
  "releaseKeys = [''ZS_IMAGE_REF'', ''ZS_CLIENT_BUILD_ID'', ''ZS_SERVER_BUILD_ID'', ''ZS_EDITOR_BUNDLES'',
    ''ZS_EDITOR_BUNDLES_KEEP'', ''ZS_EDITOR_UPDATE_BUILDS'']"

record releaseImage =
  im_build :: string
  im_tag :: string
  im_digest :: string

record releaseRecord =
  rl_build :: string
  rl_origin' :: string
  rl_values :: "(string \<times> string) list"
  rl_previous :: "(string \<times> string option) list"
  rl_assetSha256 :: string

definition repositoryOk :: "string \<Rightarrow> bool" where
  "repositoryOk s \<longleftrightarrow> (case splitOn CHR ''/'' s of
     [host, team, project, name] \<Rightarrow> host = ''vcr.vercel.com'' \<and> team \<noteq> [] \<and> list_all slugChar team
       \<and> project \<noteq> [] \<and> list_all slugChar project \<and> name = ''zs-workspace''
   | _ \<Rightarrow> False)"

text \<open>The image, the build of both sides, and the builds that are served and that update.\<close>

definition valuesFor :: "string \<Rightarrow> string \<Rightarrow> string list \<Rightarrow> string list \<Rightarrow> (string \<times> string) list" where
  "valuesFor img build bundles updates = [(''ZS_IMAGE_REF'', img), (''ZS_CLIENT_BUILD_ID'', build), (''ZS_SERVER_BUILD_ID'', build),
     (''ZS_EDITOR_BUNDLES'', joinWith CHR '','' bundles), (''ZS_EDITOR_BUNDLES_KEEP'', showNat (length bundles)),
     (''ZS_EDITOR_UPDATE_BUILDS'', joinWith CHR '','' updates)]"

definition releaseValues :: "string \<Rightarrow> releaseImage \<Rightarrow> string \<Rightarrow> string + (string \<times> string) list" where
  "releaseValues build img repository =
     (case assertBuildId build of Inl x \<Rightarrow> Inl x | Inr _ \<Rightarrow>
      (case assertServableBuild build None of Inl x \<Rightarrow> Inl x | Inr _ \<Rightarrow>
        if prefix ''dev'' build \<or> suffix ''-names'' build then Inl ''Production build required''
        else if \<not> repositoryOk repository then Inl ''repository''
        else if im_build img \<noteq> build then Inl ''Image and browser build must match''
        else if im_tag img \<noteq> repository @ '':'' @ build then Inl ''tag''
        else if \<not> digestText (im_digest img) then Inl ''digest''
        else Inr (valuesFor (repository @ CHR 0x40 # im_digest img) build [build] [build])))"


section \<open>Publishing\<close>

text \<open>
  The asset store: a pathname's bytes and its version, and what this script put there with what it
  replaced. The record file is written last.
\<close>

record assets =
  as_blobs :: "string \<Rightarrow> (string \<times> nat) option"
  as_puts :: "(string \<times> (string \<times> nat) option) list"
  as_version :: nat
  as_record :: "releaseRecord option"

type_synonym 'a publishing = "(assets, string, 'a) act"

text \<open>
  What a publication reads. \<open>pu_others n\<close>: what others do to the store before its \<open>n\<close>-th use;
  \<open>pu_shown n\<close>: the builds the network shows at the \<open>n\<close>-th look.
\<close>

record publisher =
  pu_vars :: variables
  pu_url :: "string \<Rightarrow> webUrl option"
  pu_dir :: bundleDir
  pu_image :: "releaseImage option"
  pu_rows :: "workspace list"
  pu_archive :: "string option"
  pu_manifestStatus :: int
  pu_others :: "nat \<Rightarrow> (string \<Rightarrow> (string \<times> nat) option) \<Rightarrow> string \<Rightarrow> (string \<times> nat) option"
  pu_assetOrigin :: "string \<Rightarrow> string option"
  pu_download :: "int \<times> string"
  pu_shown :: "nat \<Rightarrow> string list option"
  pu_sha256 :: "string \<Rightarrow> string"

definition requiredVar :: "publisher \<Rightarrow> string \<Rightarrow> string + string" where
  "requiredVar p key = (if truthy (pu_vars p key) then Inr (the (pu_vars p key)) else Inl key)"

definition MANIFEST_PATH :: string where
  "MANIFEST_PATH = ''editor/manifest.json''"

definition bareHttps :: "publisher \<Rightarrow> string \<Rightarrow> string + webUrl" where
  "bareHttps p s = (case pu_url p s of None \<Rightarrow> Inl ''TypeError''
     | Some u \<Rightarrow> if wu_protocol u = ''https:'' \<and> wu_username u = [] \<and> wu_password u = [] then Inr u else Inl ''Public HTTPS URL required'')"

definition othersAct :: "publisher \<Rightarrow> nat \<Rightarrow> unit publishing" where
  "othersAct p n = modE (\<lambda>a. a\<lparr>as_blobs := pu_others p n (as_blobs a)\<rparr>)"

definition putBlob :: "string \<Rightarrow> string \<Rightarrow> unit publishing" where
  "putBlob path bytes = modE (\<lambda>a. a\<lparr>as_blobs := (as_blobs a)(path \<mapsto> (bytes, as_version a)),
     as_puts := as_puts a @ [(path, as_blobs a path)], as_version := Suc (as_version a)\<rparr>)"

text \<open>\<open>put\<close> refuses what is there, unless it may overwrite the version it names.\<close>

definition putNew :: "string \<Rightarrow> string \<Rightarrow> unit publishing" where
  "putNew path bytes = bindE (getE (\<lambda>a. as_blobs a path)) (\<lambda>old.
     if old \<noteq> None then throwE ''This blob already exists'' else putBlob path bytes)"

definition putMatching :: "string \<Rightarrow> string \<Rightarrow> nat \<Rightarrow> unit publishing" where
  "putMatching path bytes version = bindE (getE (\<lambda>a. as_blobs a path)) (\<lambda>old.
     if map_option snd old \<noteq> Some version then throwE ''Precondition failed'' else putBlob path bytes)"

definition publishTarget :: "publisher \<Rightarrow> string \<Rightarrow> string + string \<times> string \<times> string" where
  "publishTarget p build =
     (case requiredVar p ''ZS_CONTROL_URL'' of Inl x \<Rightarrow> Inl x | Inr c \<Rightarrow>
     (case bareHttps p c of Inl x \<Rightarrow> Inl x | Inr control \<Rightarrow>
      if bundleProblems (pu_dir p) [build] \<noteq> [] then Inl ''Production bundle validation''
      else case requiredVar p ''VERCEL_TEAM_SLUG'' of Inl x \<Rightarrow> Inl x | Inr team \<Rightarrow>
     (case requiredVar p ''VERCEL_PROJECT_SLUG'' of Inl x \<Rightarrow> Inl x | Inr project \<Rightarrow>
     (case requiredVar p ''ZS_EDITOR_BUNDLE_SOURCE'' of Inl x \<Rightarrow> Inl x | Inr s \<Rightarrow>
     (case bareHttps p s of Inl x \<Rightarrow> Inl x | Inr source \<Rightarrow>
      if wu_search source \<noteq> [] \<or> wu_hash source \<noteq> [] \<or> wu_pathname source \<noteq> ''/'' then Inl ''source''
      else case requiredVar p ''EDITOR_ASSETS_READ_WRITE_TOKEN'' of Inl x \<Rightarrow> Inl x
      | Inr token \<Rightarrow> Inr (wu_origin control, wu_origin source,
          ''vcr.vercel.com/'' @ team @ CHR ''/'' # project @ ''/zs-workspace''))))))"

text \<open>The version of the manifest that was seen, if there is one.\<close>

definition manifestHead :: "publisher \<Rightarrow> nat option publishing" where
  "manifestHead p = (let s = pu_manifestStatus p in
     if s = 404 then retE None
     else if s < 200 \<or> s > 299 then throwE ''Manifest HTTP''
     else thenE (othersAct p 0) (bindE (getE (\<lambda>a. as_blobs a MANIFEST_PATH)) (\<lambda>b.
       case b of None \<Rightarrow> throwE ''BlobNotFoundError'' | Some (_, version) \<Rightarrow> retE (Some version))))"

text \<open>Builds of workspaces that still exist; a \<open>Set\<close> keeps the first of equals.\<close>

definition pinnedBuilds :: "publisher \<Rightarrow> string + string list" where
  "pinnedBuilds p = (let bs = map clientBuild (filter (\<lambda>r. deletedAt r = None) (pu_rows p)) in
     if list_all servable bs then Inr bs else Inl ''invalid build id'')"

fun firsts :: "string list \<Rightarrow> string list" where
  "firsts [] = []"
| "firsts (x # xs) = x # filter (\<lambda>y. y \<noteq> x) (firsts xs)"

definition retainedBuilds :: "publisher \<Rightarrow> string \<Rightarrow> string list \<Rightarrow> string list" where
  "retainedBuilds p build pinned = firsts (filter (\<lambda>i. i \<noteq> []) (build # nullish (pu_vars p ''ZS_CLIENT_BUILD_ID'') [] # pinned))"

definition updatingBuilds :: "publisher \<Rightarrow> string \<Rightarrow> string list \<Rightarrow> string list" where
  "updatingBuilds p build retained = filter (\<lambda>i. i = build
     \<or> (case pu_vars p ''ZS_EDITOR_UPDATE_BUILDS'' of None \<Rightarrow> False | Some s \<Rightarrow> i \<in> set (splitOn CHR '','' s))) retained"

definition publishValues :: "publisher \<Rightarrow> string \<Rightarrow> string \<Rightarrow> string + string list \<times> (string \<times> string) list" where
  "publishValues p build repository = (case pu_image p of None \<Rightarrow> Inl ''ENOENT'' | Some img \<Rightarrow>
     (case releaseValues build img repository of Inl x \<Rightarrow> Inl x | Inr _ \<Rightarrow>
     (case readMeta (filesOf (pu_dir p) build) of Inl x \<Rightarrow> Inl x | Inr meta \<Rightarrow>
      if jget (Some meta) ''web_updates'' \<noteq> Some (JBool True) then Inl ''New releases must carry the web update bridge''
      else case pinnedBuilds p of Inl x \<Rightarrow> Inl x | Inr pinned \<Rightarrow>
        (let retained = retainedBuilds p build pinned in
         Inr (retained, valuesFor (repository @ CHR 0x40 # im_digest img) build retained (updatingBuilds p build retained))))))"

definition publishArchive :: "publisher \<Rightarrow> string \<Rightarrow> string \<Rightarrow> string publishing" where
  "publishArchive p origin build = (case pu_archive p of None \<Rightarrow> throwE ''ENOENT'' | Some archive \<Rightarrow>
     (let path = ''editor/'' @ build @ ''.tar'' in
      thenE (othersAct p 1) (bindE (getE (\<lambda>a. as_blobs a path)) (\<lambda>existing.
      thenE (whenE (existing = None) (thenE (othersAct p 2) (putNew path archive)))
      (if pu_assetOrigin p path \<noteq> Some origin then throwE ''Asset token must belong to the configured public store''
       else if fst (pu_download p) \<noteq> 200 then throwE ''download''
       else if pu_sha256 p (snd (pu_download p)) \<noteq> pu_sha256 p archive then throwE ''Immutable asset checksum''
       else retE (pu_sha256 p archive))))))"

definition publishManifest :: "publisher \<Rightarrow> nat option \<Rightarrow> string list \<Rightarrow> unit publishing" where
  "publishManifest p seen builds =
     (let bytes = stringify (JObj [(''builds'', JArr (map JStr builds))]) @ [CHR 0x0A] in
      thenE (othersAct p 3)
      (thenE (case seen of None \<Rightarrow> putNew MANIFEST_PATH bytes | Some version \<Rightarrow> putMatching MANIFEST_PATH bytes version)
        (whenE (\<not> list_ex (\<lambda>n. pu_shown p n = Some builds) [0..<30]) (throwE ''New manifest must be visible before deployment''))))"

definition publish :: "publisher \<Rightarrow> string \<Rightarrow> unit publishing" where
  "publish p build =
     bindE (ofResult (publishTarget p build)) (\<lambda>(control, origin, repository).
     bindE (manifestHead p) (\<lambda>seen.
     bindE (ofResult (publishValues p build repository)) (\<lambda>(retained, vals).
     bindE (publishArchive p origin build) (\<lambda>digest.
     thenE (publishManifest p seen (splitOn CHR '','' (nullish (map_of vals ''ZS_EDITOR_BUNDLES'') [])))
       (modE (\<lambda>a. a\<lparr>as_record := Some \<lparr>rl_build = build, rl_origin' = control, rl_values = vals,
          rl_previous = map (\<lambda>k. (k, pu_vars p k)) releaseKeys, rl_assetSha256 = digest\<rparr>\<rparr>))))))"

section \<open>Pinning a configuration\<close>

record envEntry =
  ee_id :: string
  ee_key :: string
  ee_targets :: "string list"

datatype envCall = EnvPatch string string string | EnvPost string string | EnvDelete string

definition productionEntry :: "envEntry list \<Rightarrow> string \<Rightarrow> envEntry option" where
  "productionEntry envs key = find (\<lambda>x. ee_key x = key \<and> ''production'' \<in> set (ee_targets x)) envs"

definition configureCall :: "envEntry list \<Rightarrow> string \<Rightarrow> string option \<Rightarrow> envCall option" where
  "configureCall envs key value' = (case (value', productionEntry envs key) of
      (None, None) \<Rightarrow> None
    | (None, Some x) \<Rightarrow> Some (EnvDelete (ee_id x))
    | (Some v, None) \<Rightarrow> Some (EnvPost key v)
    | (Some v, Some x) \<Rightarrow> Some (EnvPatch (ee_id x) key v))"

type_synonym 's envRequest = "envCall \<Rightarrow> 's \<Rightarrow> (string + unit) \<times> 's"

fun configureKeys :: "'s envRequest \<Rightarrow> envEntry list \<Rightarrow> (string \<times> string option) list \<Rightarrow> ('s, string, unit) act" where
  "configureKeys request envs [] = retE ()"
| "configureKeys request envs (kv # kvs) =
     thenE (case configureCall envs (fst kv) (snd kv) of None \<Rightarrow> retE () | Some c \<Rightarrow> request c) (configureKeys request envs kvs)"

text \<open>\<open>listing\<close>: the entries the platform lists, or the failure of that request.\<close>

definition wantedValues :: "releaseRecord \<Rightarrow> bool \<Rightarrow> (string \<times> string option) list" where
  "wantedValues rec restore = map (\<lambda>k. (k, if restore then nullish (map_of (rl_previous rec) k) None
     else map_of (rl_values rec) k)) releaseKeys"

definition configure ::
  "('s \<Rightarrow> string + envEntry list) \<Rightarrow> 's envRequest \<Rightarrow> releaseRecord \<Rightarrow> bool \<Rightarrow> ('s, string, unit) act" where
  "configure listing request rec restore =
     bindE (getE listing) (\<lambda>envs. bindE (ofResult envs) (\<lambda>es. configureKeys request es (wantedValues rec restore)))"

text \<open>The check of the deployment: the status of the home page, and of every build with its parsed description.\<close>

definition verifyRelease :: "int \<Rightarrow> (string \<Rightarrow> int \<times> json option) \<Rightarrow> releaseRecord \<Rightarrow> string + unit" where
  "verifyRelease home served rec =
     (if home \<noteq> 200 then Inl ''Public homepage must be reachable without login''
      else if list_all (\<lambda>b. case served b of (status, meta) \<Rightarrow> status = 200
          \<and> jget meta ''build_id'' = Some (JStr b) \<and> jget meta ''test_hooks'' = Some (JBool False))
        (splitOn CHR '','' (nullish (map_of (rl_values rec) ''ZS_EDITOR_BUNDLES'') []))
      then Inr () else Inl ''Published build'')"


section \<open>Lemmas\<close>

subsection \<open>A packed bundle\<close>

lemma bundleRoot_packed:
  "bundleRoot build (map (\<lambda>f. (build @ ''/'' @ f, t f)) SERVED_FILES) = map (\<lambda>f. (f, t f)) SERVED_FILES"
proof -
  have other: "build @ CHR ''/'' # f \<noteq> ''build.json''" for f
  proof
    assume eq: "build @ CHR ''/'' # f = ''build.json''"
    have "CHR ''/'' \<in> set (build @ CHR ''/'' # f)" by simp
    then show False unfolding eq by simp
  qed
  have "map_of (map (\<lambda>f. (build @ ''/'' @ f, t f)) SERVED_FILES) ''build.json'' = None"
    unfolding map_of_eq_None_iff
  proof
    assume "''build.json'' \<in> fst ` set (map (\<lambda>f. (build @ ''/'' @ f, t f)) SERVED_FILES)"
    then obtain f where "''build.json'' = build @ CHR ''/'' # f" by auto
    with other [of f] show False by metis
  qed
  then have "\<not> hasFile (map (\<lambda>f. (build @ ''/'' @ f, t f)) SERVED_FILES) ''build.json''" by (simp add: hasFile_def)
  then show ?thesis by (simp add: bundleRoot_def SERVED_FILES_def)
qed

lemma served_lookup: "f \<in> set SERVED_FILES \<Longrightarrow> map_of (map (\<lambda>f. (f, t f)) SERVED_FILES) f = Some (t f)"
  by (auto simp: SERVED_FILES_def)

text \<open>What is packed is what a deployment unpacks.\<close>

lemma packed_unpacks:
  assumes "packEditorBundle d build out = Inr (tar, manifest)"
  shows "wp (unpackBundle (Some tar) build) (\<lambda>_ d'. wholeBundle build (filesOf d' build)
      \<and> (\<forall>f \<in> set SERVED_FILES. map_of (filesOf d' build) f = map_of (filesOf d build) f)) (\<lambda>_ _. False) d0"
proof -
  let ?fs = "filesOf d build"
  let ?t = "\<lambda>f. the (map_of ?fs f)"
  let ?root = "map (\<lambda>f. (f, ?t f)) SERVED_FILES"
  have tar: "tar = map (\<lambda>f. (build @ ''/'' @ f, ?t f)) SERVED_FILES" and ok: "bundleProblem d build = None"
    using assms by (auto simp: packEditorBundle_def bundleProblems_def split: sum.splits if_splits option.splits)
  obtain meta x where meta: "readMeta ?fs = Inr meta" "assertServableBuild build (Some meta) = Inr x" "namesBuild meta build"
      and files: "list_all (\<lambda>f. map_of ?fs f \<notin> {None, Some []}) SERVED_FILES"
    using ok by (auto simp: bundleProblem_def Let_def split: sum.splits if_splits)
  have some: "map_of ?fs f = Some (?t f)" if "f \<in> set SERVED_FILES" for f
    using files that by (auto simp: list_all_iff)
  have root: "bundleRoot build tar = ?root" unfolding tar by (rule bundleRoot_packed)
  have "hasFile ?root f" if "f \<in> set SERVED_FILES" for f using served_lookup [OF that, of ?t] by (simp add: hasFile_def)
  then have has: "list_all (hasFile ?root) SERVED_FILES" "hasFile ?root ''build.json''"
    by (auto simp: list_all_iff SERVED_FILES_def)
  have read: "readMeta ?root = Inr meta"
    using meta(1) some [of "''build.json''"] served_lookup [of "''build.json''" ?t] by (simp add: readMeta_def SERVED_FILES_def)
  have again: "map (\<lambda>f. (f, the (map_of ?root f))) SERVED_FILES = ?root"
    by (rule map_cong [OF refl]) (subst served_lookup, assumption, simp)
  have whole: "wholeBundle build ?root" using served_whole [OF has(1) read meta(3,2)] unfolding again .
  have "map_of ?root f = map_of ?fs f" if "f \<in> set SERVED_FILES" for f
    using served_lookup [OF that, of ?t] some [OF that] by simp
  with whole show ?thesis
    by (simp add: unpackBundle_def root Let_def has read meta wp_simps again filesOf_put)
qed

subsection \<open>The values of a release pass the checks\<close>

lemma join_splitOn: "joinWith d (splitOn d s) = s"
proof (induction s)
  case (Cons c s)
  obtain q qs where "splitOn d s = q # qs" using splitOn_nonempty by (cases "splitOn d s") auto
  with Cons show ?case by (cases qs) auto
qed simp

lemma repository_parts:
  assumes "repositoryOk s"
  obtains team project where "s = ''vcr.vercel.com/'' @ team @ ''/'' @ project @ ''/zs-workspace''"
    "team \<noteq> []" "list_all slugChar team" "project \<noteq> []" "list_all slugChar project"
proof -
  from assms obtain team project where parts: "splitOn CHR ''/'' s = [''vcr.vercel.com'', team, project, ''zs-workspace'']"
      "team \<noteq> []" "list_all slugChar team" "project \<noteq> []" "list_all slugChar project"
    unfolding repositoryOk_def by (auto split: list.splits)
  have "s = joinWith CHR ''/'' [''vcr.vercel.com'', team, project, ''zs-workspace'']"
    using join_splitOn [of "CHR ''/''" s] parts(1) by simp
  with parts(2-5) that show thesis by simp
qed

lemma slug_slash: "\<not> slugChar (CHR ''/'')" "\<not> slugChar (CHR 0x40)"
  by (simp_all add: slugChar_def)

lemma takeWhile_until: "list_all p a \<Longrightarrow> \<not> p x \<Longrightarrow> takeWhile p (a @ x # b) = a"
  by (induction a) auto

lemma image_pinned:
  assumes "repositoryOk repository" and "digestText digest"
  shows "pinnedImage (repository @ CHR 0x40 # digest)"
proof -
  obtain team project where r: "repository = ''vcr.vercel.com/'' @ team @ ''/'' @ project @ ''/zs-workspace''"
    and slug: "team \<noteq> []" "list_all slugChar team" "project \<noteq> []" "list_all slugChar project"
    using assms(1) by (rule repository_parts)
  let ?name = "project @ ''/zs-workspace''"
  let ?p = "\<lambda>c. slugChar c \<or> c = CHR ''/''"
  have "list_all slugChar ''zs-workspace''" by (simp add: slugChar_def)
  then have "list_all ?p ?name" using slug(4) by (auto simp: list_all_iff)
  then have name: "takeWhile ?p (?name @ CHR 0x40 # digest) = ?name" by (rule takeWhile_until) (simp add: slug_slash)
  have team: "takeWhile slugChar (team @ CHR ''/'' # ?name @ CHR 0x40 # digest) = team" by (rule takeWhile_until [OF slug(2) slug_slash(1)])
  have "drop 15 (repository @ CHR 0x40 # digest) = team @ CHR ''/'' # ?name @ CHR 0x40 # digest" by (simp add: r eval_nat_numeral)
  moreover have "prefix ''vcr.vercel.com/'' (repository @ CHR 0x40 # digest)" by (simp add: r)
  ultimately show ?thesis
    unfolding pinnedImage_def Let_def using team name slug(1) assms(2) by simp
qed

lemma build_plain:
  assumes "servable b" shows "CHR '','' \<notin> set b" and "trimBoth b = b" and "b \<noteq> []"
proof -
  obtain c cs where b: "b = c # cs" "buildIdStart c" "list_all buildIdChar cs"
    using assms by (auto simp: servable_def assertBuildId_def split: sum.splits list.splits if_splits)
  have comma: "\<not> buildIdChar (CHR '','')" by (simp add: buildIdChar_def buildIdStart_def)
  have all: "\<forall>x \<in> set b. buildIdChar x" using b by (auto simp: list_all_iff buildIdChar_def)
  with comma show "CHR '','' \<notin> set b" by blast
  have "list_all (\<lambda>x. \<not> isSpace x) ''ABCDEFGHIJKLMNOPQRSTUVWXYZabcdefghijklmnopqrstuvwxyz0123456789._-''" by code_simp
  then have "\<not> isSpace x" if "buildIdChar x" for x
    using that unfolding buildIdChar_def buildIdStart_def list_all_iff by auto
  with all have space: "\<forall>x \<in> set b. \<not> isSpace x" by blast
  have drop: "dropWhile isSpace s = s" if "\<forall>x \<in> set s. \<not> isSpace x" for s using that by (cases s) auto
  show "trimBoth b = b" using drop [OF space] drop [of "rev b"] space by (simp add: trimBoth_def)
  show "b \<noteq> []" using b by simp
qed

definition configured :: "(string \<times> string) list \<Rightarrow> variables \<Rightarrow> variables" where
  "configured vals e = (\<lambda>k. case map_of vals k of None \<Rightarrow> e k | Some v \<Rightarrow> Some v)"

lemma split_builds: "bs \<noteq> [] \<Longrightarrow> \<forall>b \<in> set bs. servable b \<Longrightarrow> splitOn CHR '','' (joinWith CHR '','' bs) = bs"
  using build_plain(1) by (intro splitOn_join) auto

lemma release_values_pass:
  assumes "pinnedImage img" and "build \<in> set updates" and "set updates \<subseteq> set bundles" and "\<forall>b \<in> set bundles. productionBuild b"
  shows "buildProblems (configured (valuesFor img build bundles updates) e) = []"
proof -
  let ?e = "configured (valuesFor img build bundles updates) e"
  have vals: "?e ''ZS_CLIENT_BUILD_ID'' = Some build" "?e ''ZS_SERVER_BUILD_ID'' = Some build" "?e ''ZS_IMAGE_REF'' = Some img"
    "?e ''ZS_EDITOR_BUNDLES'' = Some (joinWith CHR '','' bundles)" "?e ''ZS_EDITOR_UPDATE_BUILDS'' = Some (joinWith CHR '','' updates)"
    by (simp_all add: configured_def valuesFor_def)
  have serv: "\<forall>b \<in> set bundles. servable b" "\<forall>b \<in> set updates. servable b" using assms(3,4) by (auto simp: productionBuild_def)
  have ne: "bundles \<noteq> []" "updates \<noteq> []" using assms(2,3) by auto
  have "map trimBoth bundles = bundles" "filter (\<lambda>i. i \<noteq> []) bundles = bundles" "filter (\<lambda>i. i \<noteq> []) updates = updates"
    using serv build_plain by (auto intro!: map_idI filter_True)
  then have "servedBuilds ?e = bundles" "updateBuilds ?e = updates"
    by (simp_all add: servedBuilds_def updateBuilds_def vals split_builds [OF ne(1) serv(1)] split_builds [OF ne(2) serv(2)])
  moreover have "productionBuild build" "build \<in> set bundles" using assms(2-4) by auto
  ultimately show ?thesis
    using assms by (auto simp: buildProblems_def Let_def vals reportIf_def truthy_def)
qed


subsection \<open>Publishing\<close>

text \<open>
  Whatever others do to the store meanwhile: an archive is never replaced, and the manifest only in the
  version that was seen.
\<close>

definition putsOk :: "publisher \<Rightarrow> string \<Rightarrow> (string \<Rightarrow> (string \<times> nat) option) \<Rightarrow> (string \<times> (string \<times> nat) option) list \<Rightarrow> bool" where
  "putsOk p build blobs puts \<longleftrightarrow> (\<forall>(path, old) \<in> set puts.
     (path = ''editor/'' @ build @ ''.tar'' \<and> old = None)
     \<or> (path = MANIFEST_PATH \<and> map_option snd old
          = (if pu_manifestStatus p = 404 then None else map_option snd (pu_others p 0 blobs MANIFEST_PATH))))"

definition publishedFrom :: "publisher \<Rightarrow> string \<Rightarrow> assets \<Rightarrow> assets \<Rightarrow> bool" where
  "publishedFrom p build a a' \<longleftrightarrow> (\<exists>new. as_puts a' = as_puts a @ new \<and> putsOk p build (as_blobs a) new)"

lemma wp_putNew: "wp (putNew path bytes) Q E a = (if as_blobs a path \<noteq> None then E ''This blob already exists'' a
    else Q () (a\<lparr>as_blobs := (as_blobs a)(path \<mapsto> (bytes, as_version a)), as_puts := as_puts a @ [(path, None)], as_version := Suc (as_version a)\<rparr>))"
  by (cases "as_blobs a path") (simp_all add: putNew_def putBlob_def wp_simps)

lemma wp_putMatching: "wp (putMatching path bytes n) Q E a = (if map_option snd (as_blobs a path) \<noteq> Some n then E ''Precondition failed'' a
    else Q () (a\<lparr>as_blobs := (as_blobs a)(path \<mapsto> (bytes, as_version a)), as_puts := as_puts a @ [(path, as_blobs a path)],
      as_version := Suc (as_version a)\<rparr>))"
  by (simp add: putMatching_def putBlob_def wp_simps)

lemma wp_manifestHead:
  "wp (manifestHead p) (\<lambda>seen a'. as_puts a' = as_puts a \<and> as_record a' = as_record a
       \<and> seen = (if pu_manifestStatus p = 404 then None else map_option snd (pu_others p 0 (as_blobs a) MANIFEST_PATH))
       \<and> (pu_manifestStatus p \<noteq> 404 \<longrightarrow> seen \<noteq> None))
     (\<lambda>_ a'. as_puts a' = as_puts a \<and> as_record a' = as_record a) a"
  by (auto simp: manifestHead_def Let_def othersAct_def wp_simps split: option.splits prod.splits)

lemma wp_publishArchive:
  "wp (publishArchive p origin build) (\<lambda>_ a'. as_record a' = as_record a
       \<and> as_puts a' \<in> {as_puts a, as_puts a @ [(''editor/'' @ build @ ''.tar'', None)]})
     (\<lambda>_ a'. as_record a' = as_record a \<and> as_puts a' \<in> {as_puts a, as_puts a @ [(''editor/'' @ build @ ''.tar'', None)]}) a"
  by (auto simp: publishArchive_def Let_def othersAct_def wp_simps wp_putNew split: option.splits)

lemma wp_publishManifest:
  "wp (publishManifest p seen builds)
     (\<lambda>_ a'. as_record a' = as_record a \<and> (\<exists>old. map_option snd old = seen \<and> as_puts a' = as_puts a @ [(MANIFEST_PATH, old)]))
     (\<lambda>_ a'. as_record a' = as_record a \<and> (as_puts a' = as_puts a
        \<or> (\<exists>old. map_option snd old = seen \<and> as_puts a' = as_puts a @ [(MANIFEST_PATH, old)]))) a"
  by (auto simp: publishManifest_def Let_def othersAct_def wp_simps wp_putNew wp_putMatching split: option.splits)

text \<open>The record of a release: the builds it serves and those it updates.\<close>

definition recordOk :: "publisher \<Rightarrow> string \<Rightarrow> releaseRecord \<Rightarrow> bool" where
  "recordOk p build rec \<longleftrightarrow> rl_build rec = build \<and> rl_previous rec = map (\<lambda>k. (k, pu_vars p k)) releaseKeys
     \<and> (\<exists>img bundles updates. rl_values rec = valuesFor img build bundles updates \<and> pinnedImage img \<and> distinct bundles
         \<and> build \<in> set updates \<and> set updates \<subseteq> set bundles
         \<and> (\<forall>r \<in> set (pu_rows p). deletedAt r = None \<longrightarrow> clientBuild r \<in> set bundles
              \<and> (clientBuild r \<in> set (updateBuilds (pu_vars p)) \<longrightarrow> clientBuild r \<in> set updates))
         \<and> (truthy (pu_vars p ''ZS_CLIENT_BUILD_ID'') \<longrightarrow> the (pu_vars p ''ZS_CLIENT_BUILD_ID'') \<in> set bundles))"

lemma firsts_props: "set (firsts xs) = set xs" "distinct (firsts xs)"
  by (induction xs) auto

lemma publishValues_ok:
  assumes "publishValues p build repository = Inr (retained, vals)"
  shows "recordOk p build \<lparr>rl_build = build, rl_origin' = c, rl_values = vals,
     rl_previous = map (\<lambda>k. (k, pu_vars p k)) releaseKeys, rl_assetSha256 = digest\<rparr>"
proof -
  obtain img x meta pinned where img: "pu_image p = Some img" "releaseValues build img repository = Inr x"
      and pinned: "pinnedBuilds p = Inr pinned" and vals: "retained = retainedBuilds p build pinned"
        "vals = valuesFor (repository @ CHR 0x40 # im_digest img) build retained (updatingBuilds p build retained)"
    using assms by (auto simp: publishValues_def Let_def split: option.splits sum.splits if_splits)
  have ok: "repositoryOk repository" "digestText (im_digest img)" "servable build"
    using img(2) assertBuildId_same [of build] by (auto simp: releaseValues_def servable_def split: sum.splits if_splits)
  have clients: "pinned = map clientBuild (filter (\<lambda>r. deletedAt r = None) (pu_rows p))" "list_all servable pinned"
    using pinned by (auto simp: pinnedBuilds_def Let_def split: if_splits)
  have set: "set retained = {i \<in> set (build # nullish (pu_vars p ''ZS_CLIENT_BUILD_ID'') [] # pinned). i \<noteq> []}"
    by (simp only: vals(1) retainedBuilds_def firsts_props(1) set_filter)
  have "b \<in> set retained" if "b = build \<or> b \<in> set pinned" for b
    using that set ok(3) clients(2) build_plain(3) [of b] by (auto simp: list_all_iff)
  then have rows: "clientBuild r \<in> set retained" if "r \<in> set (pu_rows p)" "deletedAt r = None" for r
    using that clients(1) by auto
  have build: "build \<in> set retained" using set build_plain(3) [OF ok(3)] by simp
  have "clientBuild r \<in> set (updatingBuilds p build retained)"
    if "r \<in> set (pu_rows p)" "deletedAt r = None" "clientBuild r \<in> set (updateBuilds (pu_vars p))" for r
    using that rows [of r] by (auto simp: updatingBuilds_def updateBuilds_def split: option.splits)
  moreover have "build \<in> set (updatingBuilds p build retained)" using build by (simp add: updatingBuilds_def)
  moreover have "set (updatingBuilds p build retained) \<subseteq> set retained" by (auto simp: updatingBuilds_def)
  moreover have "the (pu_vars p ''ZS_CLIENT_BUILD_ID'') \<in> set retained" if "truthy (pu_vars p ''ZS_CLIENT_BUILD_ID'')"
    using that set by (auto simp: truthy_def split: option.splits)
  moreover have "distinct retained" unfolding vals(1) retainedBuilds_def by (rule firsts_props(2))
  ultimately show ?thesis
    unfolding recordOk_def using image_pinned [OF ok(1,2)] vals(2) rows by (simp (no_asm_simp)) blast
qed

lemma wp_publish:
  "wp (publish p build) (\<lambda>_ a'. publishedFrom p build a a' \<and> (\<exists>rec. as_record a' = Some rec \<and> recordOk p build rec))
     (\<lambda>_ a'. publishedFrom p build a a' \<and> as_record a' = as_record a) a"
proof -
  let ?tar = "''editor/'' @ build @ ''.tar''"
  let ?seen = "if pu_manifestStatus p = 404 then None else map_option snd (pu_others p 0 (as_blobs a) MANIFEST_PATH)"
  have none: "publishedFrom p build a a'" if "as_puts a' = as_puts a" for a' :: assets using that by (simp add: publishedFrom_def putsOk_def)
  have one: "publishedFrom p build a a'" if "as_puts a' \<in> {as_puts a, as_puts a @ [(?tar, None)]}" for a' :: assets
    using that by (auto simp: publishedFrom_def putsOk_def)
  have two: "publishedFrom p build a a2" if "as_puts a1 \<in> {as_puts a, as_puts a @ [(?tar, None)]}" "map_option snd old = ?seen"
      "as_puts a2 = as_puts a1 @ [(MANIFEST_PATH, old)]" for a1 a2 :: assets and old
    using that by (auto simp: publishedFrom_def putsOk_def)
  have manifest: "wp (thenE (publishManifest p ?seen retained) (modE (\<lambda>a. a\<lparr>as_record := Some rec\<rparr>)))
      (\<lambda>_ a'. publishedFrom p build a a' \<and> (\<exists>rec. as_record a' = Some rec \<and> recordOk p build rec))
      (\<lambda>_ a'. publishedFrom p build a a' \<and> as_record a' = as_record a) a1"
    if "recordOk p build rec" "as_record a1 = as_record a" "as_puts a1 \<in> {as_puts a, as_puts a @ [(?tar, None)]}" for retained rec and a1 :: assets
    unfolding wp_then wp_mod
  proof (rule wp_mono [OF wp_publishManifest])
    fix u and a2 :: assets
    assume "as_record a2 = as_record a1 \<and> (\<exists>old. map_option snd old = ?seen \<and> as_puts a2 = as_puts a1 @ [(MANIFEST_PATH, old)])"
    then obtain old where "map_option snd old = ?seen" "as_puts a2 = as_puts a1 @ [(MANIFEST_PATH, old)]" by blast
    then have "publishedFrom p build a (a2\<lparr>as_record := Some rec\<rparr>)" using two [OF that(3), of old "a2\<lparr>as_record := Some rec\<rparr>"] by simp
    then show "publishedFrom p build a (a2\<lparr>as_record := Some rec\<rparr>) \<and> (\<exists>r. as_record (a2\<lparr>as_record := Some rec\<rparr>) = Some r \<and> recordOk p build r)"
      using that(1) by simp
  next
    fix e and a2 :: assets
    assume "as_record a2 = as_record a1 \<and> (as_puts a2 = as_puts a1
        \<or> (\<exists>old. map_option snd old = ?seen \<and> as_puts a2 = as_puts a1 @ [(MANIFEST_PATH, old)]))"
    then show "publishedFrom p build a a2 \<and> as_record a2 = as_record a" using that(2,3) one two by metis
  qed
  have archive: "wp (bindE (publishArchive p origin build) (\<lambda>digest. thenE (publishManifest p ?seen (splitOn CHR '','' (nullish (map_of vals ''ZS_EDITOR_BUNDLES'') [])))
        (modE (\<lambda>a. a\<lparr>as_record := Some \<lparr>rl_build = build, rl_origin' = control, rl_values = vals,
          rl_previous = map (\<lambda>k. (k, pu_vars p k)) releaseKeys, rl_assetSha256 = digest\<rparr>\<rparr>))))
      (\<lambda>_ a'. publishedFrom p build a a' \<and> (\<exists>rec. as_record a' = Some rec \<and> recordOk p build rec))
      (\<lambda>_ a'. publishedFrom p build a a' \<and> as_record a' = as_record a) a1"
    if "publishValues p build repository = Inr (retained, vals)" "as_puts a1 = as_puts a" "as_record a1 = as_record a"
    for origin repository control retained vals and a1 :: assets
    unfolding wp_bind
    by (rule wp_mono [OF wp_publishArchive]) (use that one manifest [OF publishValues_ok [OF that(1)]] in auto)
  have after: "wp (bindE (ofResult (publishValues p build repository)) (\<lambda>(retained, vals).
        bindE (publishArchive p origin build) (\<lambda>digest. thenE (publishManifest p seen (splitOn CHR '','' (nullish (map_of vals ''ZS_EDITOR_BUNDLES'') [])))
        (modE (\<lambda>a. a\<lparr>as_record := Some \<lparr>rl_build = build, rl_origin' = control, rl_values = vals,
          rl_previous = map (\<lambda>k. (k, pu_vars p k)) releaseKeys, rl_assetSha256 = digest\<rparr>\<rparr>)))))
      (\<lambda>_ a'. publishedFrom p build a a' \<and> (\<exists>rec. as_record a' = Some rec \<and> recordOk p build rec))
      (\<lambda>_ a'. publishedFrom p build a a' \<and> as_record a' = as_record a) a1"
    if seen: "seen = ?seen" and kept: "as_puts a1 = as_puts a" "as_record a1 = as_record a"
    for origin repository control seen and a1 :: assets
  proof (cases "publishValues p build repository")
    case (Inl e)
    then show ?thesis using kept none by (simp add: wp_bind wp_ofResult)
  next
    case (Inr x)
    obtain retained vals where x: "x = (retained, vals)" by (cases x)
    have pv: "publishValues p build repository = Inr (retained, vals)" using Inr x by simp
    show ?thesis
      unfolding seen pv unfolding wp_bind [of "ofResult (Inr (retained, vals))"] wp_ofResult sum.case prod.case
      by (rule archive [OF pv kept])
  qed
  show ?thesis
  proof (cases "publishTarget p build")
    case (Inl e)
    then show ?thesis using none by (simp add: publish_def wp_bind wp_ofResult)
  next
    case (Inr x)
    obtain control origin repository where x: "x = (control, origin, repository)" by (cases x) auto
    show ?thesis
      unfolding publish_def
      by (subst wp_bind, simp only: wp_ofResult Inr x sum.case prod.case, subst wp_bind, rule wp_mono [OF wp_manifestHead])
        (use none after in blast)+
  qed
qed

subsection \<open>Restoring what was configured\<close>

text \<open>
  What the platform documents of its variables: an entry can be edited, created and removed, and a request
  that concerns one key leaves the others alone.
\<close>

locale project_env =
  fixes entries :: "'s \<Rightarrow> envEntry list" and listing :: "'s \<Rightarrow> string + envEntry list" and request :: "'s envRequest"
    and production :: "'s \<Rightarrow> string \<Rightarrow> string option"
  assumes listed: "listing s = Inr es \<Longrightarrow> es = entries s"
    and unset: "productionEntry (entries s) k = None \<Longrightarrow> production s k = None"
    and others: "configureCall (entries s) k v = Some c \<Longrightarrow> k' \<noteq> k \<Longrightarrow> production (snd (request c s)) k' = production s k'
      \<and> productionEntry (entries (snd (request c s))) k' = productionEntry (entries s) k'"
    and answered: "configureCall (entries s) k v = Some c \<Longrightarrow> request c s = (Inr u, s') \<Longrightarrow> production s' k = v"
begin

lemma wp_configureKeys:
  assumes "distinct (map fst kvs)" and "\<forall>k \<in> set (map fst kvs). productionEntry envs k = productionEntry (entries s) k"
  shows "wp (configureKeys request envs kvs)
     (\<lambda>_ s'. (\<forall>kv \<in> set kvs. production s' (fst kv) = snd kv) \<and> (\<forall>k. k \<notin> set (map fst kvs) \<longrightarrow> production s' k = production s k))
     (\<lambda>_ s'. \<forall>k. k \<notin> set (map fst kvs) \<longrightarrow> production s' k = production s k) s"
  using assms
proof (induction kvs arbitrary: s)
  case (Cons kv kvs)
  have entry: "productionEntry envs (fst kv) = productionEntry (entries s) (fst kv)" using Cons.prems by simp
  then have same: "configureCall envs (fst kv) (snd kv) = configureCall (entries s) (fst kv) (snd kv)" by (simp add: configureCall_def)
  show ?case
  proof (cases "configureCall (entries s) (fst kv) (snd kv)")
    case None
    then have "production s (fst kv) = snd kv"
      using unset [of s "fst kv"] by (auto simp: configureCall_def split: option.splits)
    moreover have "wp (configureKeys request envs kvs)
       (\<lambda>_ s'. (\<forall>kv \<in> set kvs. production s' (fst kv) = snd kv) \<and> (\<forall>k. k \<notin> set (map fst kvs) \<longrightarrow> production s' k = production s k))
       (\<lambda>_ s'. \<forall>k. k \<notin> set (map fst kvs) \<longrightarrow> production s' k = production s k) s"
      using Cons.prems by (intro Cons.IH) auto
    ultimately show ?thesis
      unfolding configureKeys.simps same None option.case wp_then wp_ret
      by (elim wp_mono) (use Cons.prems in auto)
  next
    case (Some c)
    obtain r s1 where run: "request c s = (r, s1)" by (cases "request c s")
    have kept: "production s1 k = production s k \<and> productionEntry (entries s1) k = productionEntry (entries s) k" if "k \<noteq> fst kv" for k
      using others [OF Some that] run by simp
    show ?thesis
    proof (cases r)
      case (Inl e)
      then show ?thesis
        unfolding configureKeys.simps same Some option.case wp_then by (simp add: wp_def run) (use kept in auto)
    next
      case (Inr u)
      have val: "production s1 (fst kv) = snd kv" using answered [OF Some] run Inr by simp
      have "wp (configureKeys request envs kvs)
       (\<lambda>_ s'. (\<forall>kv \<in> set kvs. production s' (fst kv) = snd kv) \<and> (\<forall>k. k \<notin> set (map fst kvs) \<longrightarrow> production s' k = production s1 k))
       (\<lambda>_ s'. \<forall>k. k \<notin> set (map fst kvs) \<longrightarrow> production s' k = production s1 k) s1"
      proof (rule Cons.IH)
        show "distinct (map fst kvs)" using Cons.prems(1) by simp
        show "\<forall>k \<in> set (map fst kvs). productionEntry envs k = productionEntry (entries s1) k"
        proof
          fix k assume k: "k \<in> set (map fst kvs)"
          then have "k \<noteq> fst kv" using Cons.prems(1) by (metis distinct.simps(2) list.simps(9))
          moreover have "productionEntry envs k = productionEntry (entries s) k" using Cons.prems(2) k by auto
          ultimately show "productionEntry envs k = productionEntry (entries s1) k" using kept by simp
        qed
      qed
      then have "wp (configureKeys request envs kvs)
       (\<lambda>_ s'. (\<forall>x \<in> set (kv # kvs). production s' (fst x) = snd x) \<and> (\<forall>k. k \<notin> set (map fst (kv # kvs)) \<longrightarrow> production s' k = production s k))
       (\<lambda>_ s'. \<forall>k. k \<notin> set (map fst (kv # kvs)) \<longrightarrow> production s' k = production s k) s1"
        by (rule wp_mono) (use Cons.prems kept val in auto)
      then show ?thesis
        unfolding configureKeys.simps same Some option.case wp_then by (subst wp_def) (simp add: run Inr)
    qed
  qed
qed (simp add: wp_ret)

lemma wp_configure:
  "wp (configure listing request rec restore)
     (\<lambda>_ s'. (\<forall>kv \<in> set (wantedValues rec restore). production s' (fst kv) = snd kv)
        \<and> (\<forall>k. k \<notin> set releaseKeys \<longrightarrow> production s' k = production s k))
     (\<lambda>_ s'. \<forall>k. k \<notin> set releaseKeys \<longrightarrow> production s' k = production s k) s"
proof (cases "listing s")
  case (Inl e)
  then show ?thesis by (simp add: configure_def wp_bind wp_get wp_ofResult)
next
  case (Inr es)
  have keys: "map fst (wantedValues rec restore) = releaseKeys" by (simp add: wantedValues_def o_def)
  have "distinct releaseKeys" by (simp add: releaseKeys_def)
  with wp_configureKeys [of "wantedValues rec restore" es s] listed [OF Inr] show ?thesis
    by (simp add: configure_def wp_bind wp_get wp_ofResult Inr keys)
qed

text \<open>Whatever a configuration did before it failed, restoring brings every variable back.\<close>

lemma restored:
  assumes "rl_previous rec = map (\<lambda>k. (k, production s k)) releaseKeys"
    and "configure listing request rec False s = (r, s1)" and "configure listing request rec True s1 = (Inr u, s2)"
  shows "production s2 = production s"
proof
  fix k
  have one: "\<forall>k. k \<notin> set releaseKeys \<longrightarrow> production s1 k = production s k"
    using wp_configure [of rec False s] assms(2) by (auto simp: wp_def split: sum.splits)
  have two: "\<forall>kv \<in> set (wantedValues rec True). production s2 (fst kv) = snd kv"
      "\<forall>k. k \<notin> set releaseKeys \<longrightarrow> production s2 k = production s1 k"
    using wp_configure [of rec True s1] assms(3) by (auto simp: wp_def split: sum.splits)
  show "production s2 k = production s k"
  proof (cases "k \<in> set releaseKeys")
    case True
    have "map_of (rl_previous rec) k = Some (production s k)"
      unfolding assms(1) using True by (simp add: map_of_map_restrict)
    then have "(k, production s k) \<in> set (wantedValues rec True)" using True by (force simp: wantedValues_def)
    with two(1) show ?thesis by force
  qed (use one two(2) in simp)
qed

end

text \<open>A project whose variables are a list of keys and values, each its own entry.\<close>

definition plainEntries :: "(string \<times> string) list \<Rightarrow> envEntry list" where
  "plainEntries s = map (\<lambda>kv. \<lparr>ee_id = fst kv, ee_key = fst kv, ee_targets = [''production'']\<rparr>) s"

fun plainRequest :: "(string \<times> string) list envRequest" where
  "plainRequest (EnvPatch i k v) s = (Inr (), (k, v) # s)"
| "plainRequest (EnvPost k v) s = (Inr (), (k, v) # s)"
| "plainRequest (EnvDelete i) s = (Inr (), filter (\<lambda>kv. fst kv \<noteq> i) s)"

lemma plain_entry: "productionEntry (plainEntries s) k
    = (if map_of s k = None then None else Some \<lparr>ee_id = k, ee_key = k, ee_targets = [''production'']\<rparr>)"
  by (induction s) (auto simp: productionEntry_def plainEntries_def)

lemma map_of_without: "map_of (filter (\<lambda>kv. fst kv \<noteq> i) s) k = (if k = i then None else map_of s k)"
  by (induction s) auto

interpretation plainProject: project_env plainEntries "\<lambda>s. Inr (plainEntries s)" plainRequest map_of
  by unfold_locales
    (auto simp: plain_entry configureCall_def map_of_without split: option.splits if_splits)

end
