(* ===== verification/LocalAdmin.thy ===== *)
theory LocalAdmin
  imports Sessions
begin

text \<open>
  Two small parts of \<open>lib\<close>: what \<open>dev-local-admin.ts\<close> does to the rows once every local sandbox is gone, and
  the choice of a region in \<open>regions.ts\<close>, where the distance of each region from the requester is a parameter
  with values in any linear order (the code's kilometres are floating-point numbers).
\<close>

section \<open>Marking local workspaces stopped\<close>

definition LIVE_STATES :: "workspaceState list" where
  "LIVE_STATES = [Creating, Running, Stopping, Rebuilding]"

text \<open>The row after the update, at the instant the script took.\<close>

definition markedRow :: "int \<Rightarrow> workspace \<Rightarrow> workspace" where
  "markedRow t r = r\<lparr>ws_state := Stopped, stateReason := Some ''stopped:dev-local'', lastStoppedAt := Some t,
     currentWsHost := None, currentSlotHosts := None, currentHealthHost := None, supervisorCmdId := None,
     sandboxExpiresAt := None, workflowRunId := None, workflowRunStartedAt := None, updatedAt := t\<rparr>"

fun markRows :: "int \<Rightarrow> workspace list \<Rightarrow> (string \<times> workspaceState) list io" where
  "markRows t [] = retE []"
| "markRows t (row # rows) =
     thenE (modE (\<lambda>w. w\<lparr>workspacesT := updateWhere (\<lambda>r. ws_id r = ws_id row \<and> ws_state r \<in> set LIVE_STATES)
       (markedRow t) (workspacesT w)\<rparr>))
     (thenE (closeOpenSession (ws_id row) ''dev_local_stop'')
     (bindE (markRows t rows) (\<lambda>changed. retE ((ws_id row, ws_state row) # changed))))"

definition markLocalWorkspacesStopped :: "(string \<times> workspaceState) list io" where
  "markLocalWorkspacesStopped =
     bindE (getE (\<lambda>w. filter (\<lambda>r. ws_state r \<in> set LIVE_STATES \<and> deletedAt r = None) (workspacesT w))) (\<lambda>rows.
     bindE (getE now) (\<lambda>t. markRows t rows))"

section \<open>The nearest region\<close>

definition REGIONS :: "region list" where
  "REGIONS = [Iad1, Sfo1, Cle1, Cdg1]"

text \<open>\<open>None\<close> is the infinite distance the search starts from.\<close>

definition closer :: "(region \<Rightarrow> 'd::linorder) \<Rightarrow> region \<Rightarrow> region \<times> 'd option \<Rightarrow> region \<times> 'd option" where
  "closer km r best = (if (case snd best of None \<Rightarrow> True | Some b \<Rightarrow> km r < b) then (r, Some (km r)) else best)"

definition nearestRegionTo :: "(region \<Rightarrow> 'd::linorder) \<Rightarrow> region \<Rightarrow> region" where
  "nearestRegionTo km fallback = fst (fold (closer km) REGIONS (fallback, None))"

text \<open>\<open>position\<close>: the distances from the position the headers give, if it is one.\<close>

definition nearestRegion :: "env \<Rightarrow> (region \<Rightarrow> 'd::linorder) option \<Rightarrow> region" where
  "nearestRegion e position = (case position of None \<Rightarrow> ZS_DEFAULT_REGION e | Some km \<Rightarrow> nearestRegionTo km (ZS_DEFAULT_REGION e))"

section \<open>Lemmas\<close>

definition endedSession :: "int \<Rightarrow> session \<Rightarrow> session" where
  "endedSession t s = s\<lparr>endedAt := Some t, endReason := Some ''dev_local_stop''\<rparr>"

definition markOne :: "string set \<Rightarrow> int \<Rightarrow> workspace \<Rightarrow> workspace" where
  "markOne ids t r = (if ws_id r \<in> ids \<and> ws_state r \<in> set LIVE_STATES then markedRow t r else r)"

definition endOne :: "string set \<Rightarrow> int \<Rightarrow> session \<Rightarrow> session" where
  "endOne ids t s = (if s_workspaceId s \<in> ids \<and> endedAt s = None then endedSession t s else s)"

definition markedWorld :: "string set \<Rightarrow> world \<Rightarrow> world" where
  "markedWorld ids w = w\<lparr>workspacesT := map (markOne ids (now w)) (workspacesT w),
     sessionsT := map (endOne ids (now w)) (sessionsT w)\<rparr>"

lemma marked_stays: "ws_id (markedRow t r) = ws_id r" "ws_state (markedRow t r) \<notin> set LIVE_STATES"
  "s_workspaceId (endedSession t s) = s_workspaceId s" "endedAt (endedSession t s) \<noteq> None"
  by (simp_all add: markedRow_def endedSession_def LIVE_STATES_def)

lemma mark_again: "markOne J t (markOne I t r) = markOne (I \<union> J) t r" "endOne J t (endOne I t s) = endOne (I \<union> J) t s"
  by (auto simp: markOne_def endOne_def marked_stays)

lemma markedWorld_then: "markedWorld J (markedWorld I w) = markedWorld (I \<union> J) w"
  by (simp add: markedWorld_def o_def mark_again)

lemma wp_markRows:
  "wp (markRows (now w) rows) (\<lambda>changed w'. w' = markedWorld (set (map ws_id rows)) w
     \<and> changed = map (\<lambda>r. (ws_id r, ws_state r)) rows) (\<lambda>_ _. False) w"
proof (induction rows arbitrary: w)
  case Nil
  have "markOne {} t = id" "endOne {} t = id" for t by (simp_all add: fun_eq_iff markOne_def endOne_def)
  then have "markedWorld {} w = w" by (simp add: markedWorld_def)
  then show ?case by (simp add: wp_simps)
next
  case (Cons row rows)
  let ?w = "markedWorld {ws_id row} w"
  have step: "w\<lparr>workspacesT := updateWhere (\<lambda>r. ws_id r = ws_id row \<and> ws_state r \<in> set LIVE_STATES) (markedRow (now w)) (workspacesT w),
      sessionsT := updateWhere (\<lambda>s. s_workspaceId s = ws_id row \<and> endedAt s = None)
        (\<lambda>s. s\<lparr>endedAt := Some (now w), endReason := Some ''dev_local_stop''\<rparr>) (sessionsT w)\<rparr> = ?w"
    by (simp add: markedWorld_def updateWhere_def markOne_def [abs_def] endOne_def [abs_def] endedSession_def)
  have "now ?w = now w" by (simp add: markedWorld_def)
  then have "wp (markRows (now w) rows) (\<lambda>changed w'. w' = markedWorld (set (map ws_id rows)) ?w
     \<and> changed = map (\<lambda>r. (ws_id r, ws_state r)) rows) (\<lambda>_ _. False) ?w"
    using Cons.IH [of ?w] by simp
  then have "wp (bindE (markRows (now w) rows) (\<lambda>changed. retE ((ws_id row, ws_state row) # changed)))
     (\<lambda>changed w'. w' = markedWorld (set (map ws_id (row # rows))) w
        \<and> changed = map (\<lambda>r. (ws_id r, ws_state r)) (row # rows)) (\<lambda>_ _. False) ?w"
    unfolding wp_bind wp_ret by (rule wp_mono) (simp_all add: markedWorld_then)
  then show ?case
    by (simp add: closeOpenSession_def wp_then wp_mod step)
qed

lemma wp_markStopped:
  assumes "distinct (map ws_id (workspacesT w))"
  shows "wp markLocalWorkspacesStopped
    (\<lambda>changed w'. workspacesT w' = map (\<lambda>r. if ws_state r \<in> set LIVE_STATES \<and> deletedAt r = None then markedRow (now w) r else r) (workspacesT w)
       \<and> (\<forall>s \<in> set (sessionsT w'). endedAt s = None \<longrightarrow> s_workspaceId s \<notin> fst ` set changed))
    (\<lambda>_ _. False) w"
proof -
  let ?rows = "filter (\<lambda>r. ws_state r \<in> set LIVE_STATES \<and> deletedAt r = None) (workspacesT w)"
  have row: "ws_id r \<in> ws_id ` set ?rows \<longleftrightarrow> r \<in> set ?rows" if "r \<in> set (workspacesT w)" for r
    using assms that by (auto simp: distinct_map dest: inj_onD)
  have rows: "workspacesT (markedWorld (set (map ws_id ?rows)) w)
      = map (\<lambda>r. if ws_state r \<in> set LIVE_STATES \<and> deletedAt r = None then markedRow (now w) r else r) (workspacesT w)"
    using row by (auto simp: markedWorld_def markOne_def)
  have open': "s_workspaceId s \<notin> set (map ws_id ?rows)" if "s \<in> set (sessionsT (markedWorld (set (map ws_id ?rows)) w))" "endedAt s = None" for s
    using that by (auto simp: markedWorld_def endOne_def endedSession_def split: if_splits)
  show ?thesis
    unfolding markLocalWorkspacesStopped_def wp_bind wp_get
    by (rule wp_mono [OF wp_markRows]) (use rows open' in \<open>auto simp: image_image\<close>)
qed

lemma nearest_is_least: "km (nearestRegionTo km fallback) \<le> km r"
  by (cases r) (auto simp: nearestRegionTo_def REGIONS_def closer_def not_less)

end
