(* ===== verification/Examples.thy ===== *)
theory Examples
  imports Sweep Routes Export HostDocs EditorUpdater VercelSandbox Bundles LocalSandbox LocalRepos Proxy Docker Actions Diagnostics Loader BlobStores DebugSessions Releases LocalAdmin
begin

text \<open>
  The concrete deployment the witnesses run on: a platform whose sandboxes are healthy, one
  user with one workspace, and the plain JWT library of \<open>Tokens\<close> with its keys.
\<close>

definition demoEnv :: env where
  "demoEnv = defaultEnv\<lparr>ZS_IMAGE_REF := Some ''img'', ZS_SERVER_BUILD_ID := Some ''b1'',
     ZS_CONTROL_URL := Some ''https://z/api''\<rparr>"

definition demoHandle :: "string \<Rightarrow> handle" where
  "demoHandle name = \<lparr>h_name = name, h_status = StRunning, h_region = ''iad1'', h_expiresAt = None,
     h_currentSessionId = Some ''vm'', h_domain = (\<lambda>_. Some ''host'')\<rparr>"

definition demoHealth :: json where
  "demoHealth = JObj [(''status'', JStr ''ready''), (''build'', JStr ''b1''),
     (''server'', JObj [(''running'', JBool True)])]"

definition demoPf :: platform where
  "demoPf = \<lparr>pf_env = demoEnv, pf_elapsed = (\<lambda>_. 1), pf_uuid = (\<lambda>_. ''uuid''), pf_bytes = (\<lambda>_. replicate 20 0),
     pf_sha256 = (\<lambda>_. replicate 64 CHR ''0''), pf_create = (\<lambda>_ i. Inr (demoHandle (ci_name i))),
     pf_get = (\<lambda>_ name r. Inr (Some (demoHandle name, r))), pf_runDetached = (\<lambda>_ _ _. Inr ''cmd''),
     pf_run = (\<lambda>_ _ _. Inr (0, [])), pf_wait = (\<lambda>_ _ _ _. Inr 0), pf_kill = (\<lambda>_ _ _. Inr ()),
     pf_stop = (\<lambda>_ _. Inr \<lparr>sr_snapshotId = None, sr_snapshotSizeBytes = Some 1\<rparr>), pf_extend = (\<lambda>_ _ _. Inr ()),
     pf_delete = (\<lambda>_ _. Inr ()), pf_snapshots = (\<lambda>_ _. Inr []), pf_deleteSnapshot = (\<lambda>_ _. Inr ()),
     pf_listByTag = (\<lambda>_ _. Inr []), pf_health = (\<lambda>_ _. Some (200, demoHealth)),
     pf_readFile = (\<lambda>_ _ _. Inr True), pf_blobPut = (\<lambda>_ p. Inr (p, 1)), pf_blobDel = (\<lambda>_ _. Inr ()),
     pf_start = (\<lambda>_ _. Inr ''run''), pf_runStatus = (\<lambda>_ _. Some RunCompleted), pf_runReturn = (\<lambda>_ _. None),
     pf_retries = 1\<rparr>"

definition demoId :: string where "demoId = ''ws_00000000000000000000''"

definition demoName :: string where "demoName = ''sb-dev-00000000000000000000-g1''"

definition demoRow :: workspace where
  "demoRow = \<lparr>ws_id = demoId, ownerUserId = ''u1'', repoId = ''r1'', ws_name = ''n'', branch = None,
     workshopKey = None, revision = None, gitRef = None, pullRequest = None, machine = Vcpu2,
     ws_region = Iad1, sandboxName = demoName, previousSandboxName = None, sandboxGeneration = 1,
     imageRef = ''img'', serverBuild = ''b1'', clientBuild = ''b1'', restoreKind = Fresh,
     restoreBlobPathname = None, ws_state = Running, stateReason = None, audience = demoName,
     sandboxTokenHash = None, sandboxTokenGeneration = 0, supervisorCmdId = Some ''cmd'',
     currentWsHost = Some ''host'', currentSlotHosts = None, currentHealthHost = Some ''host'',
     currentSandboxSessionId = Some ''vm'', sessionStartedAt = Some 0, sandboxExpiresAt = None,
     snapshotSizeBytes = None, workflowRunId = None, workflowRunStartedAt = None, lastActiveAt = 0,
     idleMinutes = 30, installedExtensions = [], retentionUntil = None, retentionWarnedAt = None,
     createdAt = 0, updatedAt = 0, lastStoppedAt = None, deletedAt = None\<rparr>"

definition demoUser :: user where
  "demoUser = \<lparr>u_id = ''u1'', u_idleMinutesDefault = 30, u_flaggedAt = None, u_flagReason = None,
     u_updatedAt = 0, u_deletedAt = None\<rparr>"

definition demoRepo :: repo where
  "demoRepo = \<lparr>r_id = ''r1'', r_installationId = 1, r_githubRepoId = 1, r_owner = ''o'', r_name = ''n'',
     r_defaultBranch = ''main'', r_private = False, r_defaultMachine = Vcpu2, r_idleMinutes = None\<rparr>"

definition demoWorld :: world where
  "demoWorld = \<lparr>usersT = [demoUser], reposT = [demoRepo], workspacesT = [demoRow], sessionsT = [], forwardsT = [],
     docsT = [], kvT = Map.empty, now = 1000, tick = 0, trace = []\<rparr>"

definition demoKeys :: signingKeys where
  "demoKeys = \<lparr>sk_active = \<lparr>ak_kid = ''k1'', ak_privateKey = ''priv'', ak_publicKey = ''pub-priv'',
     ak_publicSpkiPem = ''PUBLIC KEY''\<rparr>, sk_previous = None, sk_issuer = ''zs''\<rparr>"

text \<open>GitHub, where every repository is public and has one branch.\<close>

definition demoGithub :: github where
  "demoGithub = \<lparr>gh_repo = (\<lambda>_ own name. Inr \<lparr>ir_id = 1, ir_owner = own, ir_name = name,
       ir_defaultBranch = ''main'', ir_private = False\<rparr>),
     gh_pull = (\<lambda>_ _ _ _. Inr (''topic'', replicate 40 CHR ''a'')),
     gh_commit = (\<lambda>_ _ _ _. Inr (replicate 40 CHR ''a'')), gh_branch = (\<lambda>_ _ _ _. Inr (replicate 40 CHR ''a'')),
     gh_localRepo = (\<lambda>_. Inr None), gh_localRef = (\<lambda>_ _. Inl (ApiError 404 ''not_found'')),
     gh_localCloneUrl = (\<lambda>n. Inr (''file:///'' @ n))\<rparr>"

definition demoInput :: createWorkspaceInput where
  "demoInput = \<lparr>cw_repo = RepoById ''r1'', cw_ref = None, cw_machine = None, cw_region = None,
     cw_idleMinutes = None, cw_name = None\<rparr>"

definition demoViewer :: viewer where
  "demoViewer = \<lparr>v_userId = ''u1'', v_flaggedAt = None\<rparr>"

text \<open>A network that answers every poll with a running workspace, a second each.\<close>

definition demoNetwork :: network where
  "demoNetwork = \<lparr>nw_answer = (\<lambda>_ _. Inr \<lparr>nr_status = 200, nr_statusText = ''OK'',
       nr_json = Some (JObj [(''workspace'', JObj [(''state'', JStr ''running'')])])\<rparr>),
     nw_elapsed = (\<lambda>_. 1000), nw_late = (\<lambda>_. 0), nw_abort = (\<lambda>_. None)\<rparr>"

definition demoPage :: page where
  "demoPage = \<lparr>pg_now = 0, pg_calls = 0, pg_seen = [], pg_progress = []\<rparr>"

text \<open>A release whose bundle is three small files, and an SDK that refuses every call with \<open>e\<close>.\<close>

definition demoRelease :: editorRelease where
  "demoRelease = \<lparr>er_imageRef = ''img2'', er_serverBuild = ''b2'', er_clientBuild = ''b2''\<rparr>"

definition demoStaging :: staging where
  "demoStaging = \<lparr>sg_meta = \<lparr>nr_status = 200, nr_statusText = ''OK'', nr_json = Some (JObj [(''build_id'', JStr ''b2''),
       (''test_hooks'', JBool False), (''web_updates'', JBool True), (''js_bytes'', JNum 2), (''wasm_bytes'', JNum 3),
       (''assets_bytes'', JNum 1)])\<rparr>,
     sg_file = (\<lambda>f. (200, Some (if f = ''zed_web.js'' then [''ab''] else if f = ''zed-assets.tar'' then [''c''] else [''d'', ''ef'']))),
     sg_aborts = (\<lambda>_. False)\<rparr>"

definition demoSdk :: "sdkThrown \<Rightarrow> sdk" where
  "demoSdk e = \<lparr>sdk_getOrCreate = (\<lambda>_ _. Inl e), sdk_get = (\<lambda>_ _ _. Inl e), sdk_runCommand = (\<lambda>_ _ _. Inl e),
     sdk_getCommand = (\<lambda>_ _ _. Inl e), sdk_wait = (\<lambda>_ _ _ _. Inl e), sdk_kill = (\<lambda>_ _ _. Inl e),
     sdk_extendTimeout = (\<lambda>_ _ _. Inl e), sdk_stop = (\<lambda>_ _. Inl e), sdk_delete = (\<lambda>_ _. Inl e),
     sdk_readFile = (\<lambda>_ _ _. Inl e), sdk_listSnapshots = (\<lambda>_ _. Inl e), sdk_list = (\<lambda>_ _. Inl e),
     sdk_getSnapshot = (\<lambda>_ _. Inl e), sdk_deleteSnapshot = (\<lambda>_ _. Inl e)\<rparr>"

definition demoCreate :: createSandboxInput where
  "demoCreate = \<lparr>ci_name = ''sb-1'', ci_region = Iad1, ci_vcpus = 4, ci_ports = [8443, 8448], ci_timeoutMs = 60000,
     ci_image = ''img'', ci_env = [], ci_networkPolicy = ''allow-all'', ci_tags = [], ci_snapshotExpirationMs = 0,
     ci_keepLastSnapshots = 1\<rparr>"

text \<open>A source of bundles whose manifest lists \<open>b1\<close>, a test build and \<open>b0\<close>.\<close>

definition demoBundles :: bundleSource where
  "demoBundles = \<lparr>so_manifest = (200, Some (JObj [(''builds'', JArr [JStr ''b1-test'', JStr ''b1'', JStr ''b0''])])),
     so_tar = (\<lambda>b. (200, Some [(''zed_web.js'', ''1''), (''zed_web_bg.wasm'', ''2''), (''zed-assets.tar'', ''3''),
       (''index.html'', ''4''), (''build.json'', stringify (JObj [(''build_id'', JStr b), (''test_hooks'', JBool False)]))]))\<rparr>"

text \<open>
  A developer's machine on which two binds at once are given the same free port, and later ones fresh ones;
  every other call succeeds. \<open>demoLocal\<close> asks for a sandbox on it.
\<close>

definition demoOs :: localOs where
  "demoOs = \<lparr>os_elapsed = (\<lambda>_. 1), os_freePort = (\<lambda>n. Some (if n \<le> 1 then 50001 else 50000 + int n)),
     os_alive = (\<lambda>_ _. False), os_pidFile = (\<lambda>_ _. None), os_matching = (\<lambda>_ _. []), os_spawn = (\<lambda>_ _ _ _ _. Some 77),
     os_runToEnd = (\<lambda>_ _ _. Inr (0, [])), os_waitLive = (\<lambda>_ _ _ _. Some 0), os_tar = (\<lambda>_. True), os_archiveSize = (\<lambda>_. 10),
     os_pid = 5, os_env = (\<lambda>_. None), os_username = ''dev'', os_darwin = False, os_root = ''/tmp/zs-local'',
     os_agentBin = ''/opt/zs-agent'', os_serveBin = ''/opt/zed''\<rparr>"

definition demoHost :: host where
  "demoHost = \<lparr>ho_now = 1000, ho_calls = 0, ho_dirs = [], ho_reserved = [], ho_live = [], ho_signals = []\<rparr>"

definition demoLocal :: "string \<Rightarrow> createSandboxInput" where
  "demoLocal name = demoCreate\<lparr>ci_name := name\<rparr>"

text \<open>A machine with one sandbox, whose checkout holds a file.\<close>

definition demoUsed :: host where
  "demoUsed = updLocal ''sb-a'' (\<lambda>d. d\<lparr>ld_files := [([''workspaces'', ''n'', ''a.txt''], ''hi'')]\<rparr>)
     (snd (createLocal demoOs id (demoLocal ''sb-a'') demoHost))"

text \<open>
  Creations that overlap are another matter: the list of taken ports is read before the first bind is
  awaited, so a creation does not see what the other reserves meanwhile.
\<close>

definition firstPort :: "string \<Rightarrow> host \<Rightarrow> int option" where
  "firstPort name h = map_option (\<lambda>r. hd (allocatedPorts r)) (recordOf name h)"

lemma overlapping_creations_share:
  "(let h = snd (createLocal demoOs (\<lambda>h. snd (createLocal demoOs id (demoLocal ''sb-b'') h)) (demoLocal ''sb-a'') demoHost) in
    firstPort ''sb-a'' h = Some 50001 \<and> firstPort ''sb-b'' h = Some 50001)"
  by code_simp

text \<open>An engine that shows one running container of this instance and does whatever it is told.\<close>

definition dockerEnv :: env where
  "dockerEnv = demoEnv\<lparr>ZS_SANDBOX_BACKEND := Docker\<rparr>"

definition demoContainer :: container where
  "demoContainer = \<lparr>c_id = ''abc'', c_created = 0, c_running = True, c_paused = False, c_startedAt = ''t'',
     c_labels = [(LABEL, ''0000000000000000'')], c_ports = []\<rparr>"

definition demoDocker :: dockerEngine where
  "demoDocker = \<lparr>dk_elapsed = (\<lambda>_. 1), dk_answer = (\<lambda>_ _ _. Inr []), dk_container = (\<lambda>_. Some demoContainer),
     dk_imageLabels = (\<lambda>_. None), dk_seconds = (\<lambda>_. None), dk_number = (\<lambda>_. 0), dk_parseDate = (\<lambda>_. None),
     dk_sha256 = (\<lambda>_. replicate 64 CHR ''0''), dk_uuid = (\<lambda>_. []), dk_rootPath = id, dk_script = (\<lambda>_. [])\<rparr>"

definition demoDockerState :: dockerState where
  "demoDockerState = \<lparr>ds_now = 0, ds_calls = 0, ds_log = []\<rparr>"

text \<open>A file store and a signed grant of it, a request for a debug session, and a release.\<close>

definition demoGrant :: query where
  "demoGrant = [(''key'', replicate 64 CHR ''a''), (''method'', ''PUT''), (''expires'', ''100''), (''maximum'', ''3'')]"

definition demoBlobs :: blobHost where
  "demoBlobs = \<lparr>bh_digest = (\<lambda>_. replicate 64 CHR ''a''),
     bh_hmac = (\<lambda>_ x. if x = queryText demoGrant then replicate 64 CHR ''0'' else replicate 64 CHR ''1''),
     bh_env = dockerEnv\<lparr>BETTER_AUTH_SECRET := Some ''secret'', ZS_DOCKER_CONTROL_URL := Some ''http://c''\<rparr>, bh_cwd = ''/app''\<rparr>"

definition demoDebug :: request where
  "demoDebug = \<lparr>rq_header = Map.empty, rq_body = Some [stringify (JStr (stringify (JObj [(''command'', JStr ''dap''),
     (''arguments'', JArr []), (''envs'', JObj []), (''cwd'', JNull), (''connection'', JNull)])))]\<rparr>"

definition demoBundleMeta :: json where
  "demoBundleMeta = JObj [(''build_id'', JStr ''b2''), (''test_hooks'', JBool False), (''web_updates'', JBool True), (''wasm_bytes'', JNum 8)]"

definition demoPublisher :: publisher where
  "demoPublisher = \<lparr>pu_vars = [''ZS_CONTROL_URL'' \<mapsto> ''c'', ''VERCEL_TEAM_SLUG'' \<mapsto> ''team'', ''VERCEL_PROJECT_SLUG'' \<mapsto> ''web'',
       ''ZS_EDITOR_BUNDLE_SOURCE'' \<mapsto> ''s'', ''EDITOR_ASSETS_READ_WRITE_TOKEN'' \<mapsto> ''t'', ''ZS_CLIENT_BUILD_ID'' \<mapsto> ''b1''],
     pu_url = (\<lambda>_. Some \<lparr>wu_protocol = ''https:'', wu_username = [], wu_password = [], wu_search = [], wu_hash = [],
       wu_hostname = ''h'', wu_pathname = ''/'', wu_origin = ''https://h''\<rparr>),
     pu_dir = \<lparr>bd_dirs = [(''b2'', [(''zed_web.js'', ''x''), (''zed_web_bg.wasm'', WASM_MAGIC), (''zed-assets.tar'', ''y''),
       (''build.json'', stringify demoBundleMeta)])], bd_manifest = None\<rparr>,
     pu_image = Some \<lparr>im_build = ''b2'', im_tag = ''vcr.vercel.com/team/web/zs-workspace:b2'',
       im_digest = ''sha256:'' @ replicate 64 CHR ''0''\<rparr>,
     pu_rows = [demoRow], pu_archive = Some ''tar'', pu_manifestStatus = 404, pu_others = (\<lambda>_. id),
     pu_assetOrigin = (\<lambda>_. Some ''https://h''), pu_download = (200, ''tar''), pu_shown = (\<lambda>_. Some [''b2'', ''b1'']), pu_sha256 = id\<rparr>"

lemmas demo_defs = demoEnv_def demoHandle_def demoHealth_def demoPf_def demoId_def demoName_def
  demoRow_def demoUser_def demoRepo_def demoWorld_def demoKeys_def defaultEnv_def

lemma demo_row: "rowOf demoWorld demoId = Some demoRow"
  by (simp add: rowOf_def demo_defs)

lemma demo_row_fields [simp]: "ws_id demoRow = demoId" "deletedAt demoRow = None"
  "previousSandboxName demoRow = None" "workflowRunId demoRow = None" "ws_state demoRow = Running"
  "sandboxName demoRow = demoName" "demoId \<noteq> []" "demoName \<noteq> []"
  by (simp_all add: demo_defs)

lemma demo_handles: "handlesNamed demoPf"
  by (simp add: handlesNamed_def demo_defs)

lemma demo_settled: "settledSeen demoPf"
  by (simp add: settledSeen_def demo_defs)

lemma demo_budgeted: "budgeted demoPf demoWorld"
  by (simp add: budgeted_def inUse_def demo_defs countsToward_def)

abbreviation publicHalf :: "string \<Rightarrow> string" where
  "publicHalf priv \<equiv> ''pub-'' @ priv"

lemma demo_jwt: "jwt_library plainJose publicHalf"
  by (rule plainLib.jwt_library_axioms)

lemma demo_matching: "jwt_library.matching publicHalf demoKeys"
  unfolding plainLib.matching_def by (simp add: demo_defs)

end
