(* ===== verification/Spec2Isabelle.thy ===== *)
theory Spec2Isabelle
  imports Examples
begin

text \<open>
  A verification library for the control plane of zedspaces (\<open>src/apps/web\<close>, TypeScript): a Next.js
  server that keeps workspaces in a SQLite database, runs durable workflows that bring their sandboxes
  up and down, answers the browser and the sandboxes over HTTP, and serves the page that hosts the editor.

  \<^bold>\<open>How the program fits together.\<close> A request passes the origin guard, is authorised against the row it
  names and read through a validating frame. What needs a sandbox is a workflow run: it is admitted under
  a database lock and a budget, recorded on the workspace row, and executed in steps with retries against
  the database and the sandbox platform. The supervisor in the sandbox fetches a manifest, reports
  activity, ports and logs with a bearer of its own. \<open>/connect\<close> waits for a run and mints a token for the
  editor's socket. A cron sweep reconciles runs and stops what is idle. In the browser a page connects,
  loads the editor bundle, saves documents and updates itself.

  \<^bold>\<open>Theories, from the bottom up.\<close>

  \<^item> \<open>ZPrelude\<close>: actions with state and errors and their weakest preconditions, tables as lists of rows,
    decimal texts. \<open>Json\<close>, \<open>JsonText\<close>: \<open>JSON.parse\<close> and \<open>stringify\<close>.
  \<^item> Data: \<open>Schema\<close> (\<open>lib/schema.ts\<close>), \<open>Config\<close> (\<open>lib/env.ts\<close>, \<open>builds.ts\<close>, \<open>release.ts\<close>, \<open>plans.ts\<close>),
    \<open>Ids\<close> (\<open>lib/ids.ts\<close>, \<open>archive.ts\<close>), \<open>KvStore\<close> (\<open>lib/kv.ts\<close>), \<open>Views\<close> (\<open>lib/views.ts\<close>, \<open>shell.ts\<close>).
  \<^item> Lifecycle: \<open>Platform\<close> (the world and what it calls: \<open>lib/sandbox.ts\<close>, \<open>withLock\<close>), \<open>Sessions\<close>
    (\<open>lib/connect.ts\<close>, \<open>sandbox-auth.ts\<close>), \<open>DbSteps\<close> and \<open>SandboxSteps\<close> (\<open>workflows/steps\<close>), \<open>Workflows\<close>
    with its lemmas in \<open>WorkflowFrames\<close> and \<open>WorkflowResults\<close> (\<open>workflows/*.ts\<close>), \<open>Lifecycle\<close>
    (\<open>lib/lifecycle.ts\<close>, \<open>workspace-budget.ts\<close>), \<open>Concurrency\<close>, \<open>Sweep\<close> (the cron route).
  \<^item> Platform adapters: \<open>VercelSandbox\<close> (\<open>lib/sandbox.ts\<close>), \<open>LocalSandbox\<close> and \<open>LocalRepos\<close>
    (\<open>lib/sandbox-local.ts\<close>), \<open>Docker\<close> (\<open>lib/sandbox-docker.ts\<close>).
  \<^item> Requests: \<open>Api\<close> (the frame of the handlers), \<open>Inputs\<close> (their bodies), \<open>Access\<close>, \<open>RateLimit\<close>,
    \<open>Tokens\<close>, \<open>ConnectRoute\<close>, \<open>Forwards\<close>, \<open>Activity\<close>, \<open>SettingsDocs\<close>, \<open>GitHub\<close>, \<open>CreateWorkspace\<close>,
    \<open>Manifest\<close>, \<open>Export\<close>, \<open>Routes\<close> (the rest); \<open>Proxy\<close> (\<open>proxy.ts\<close>, \<open>lib/csp.ts\<close>, \<open>dev-auth.ts\<close>), which
    every request passes first.
  \<^item> The browser (\<open>app/(editor)/w/[id]\<close>): \<open>EditorConnect\<close> (\<open>connect-client.ts\<close>), \<open>ShellPhase\<close>,
    \<open>EditorShell\<close>, \<open>HostDocs\<close> (\<open>zs-host.ts\<close>), \<open>EditorUpdater\<close>, \<open>Loader\<close>, \<open>Diagnostics\<close>; the dashboard:
    \<open>Actions\<close> (\<open>app/(site)/(dashboard)\<close>).
  \<^item> What leaves the program: \<open>Redact\<close> (\<open>lib/redact.ts\<close>, \<open>log-sink.ts\<close>), \<open>BlobStores\<close> (\<open>lib/blob.ts\<close>,
    \<open>blob-file.ts\<close>), \<open>DebugSessions\<close> (\<open>lib/sandbox-process.ts\<close>, the debug and kernel routes).
  \<^item> Deployments: \<open>Bundles\<close> (\<open>scripts/fetch-editor-bundle.ts\<close>), \<open>Releases\<close> (\<open>scripts/release.ts\<close>,
    \<open>deploy-preflight.ts\<close>, \<open>prebuild.ts\<close>, \<open>pack-editor-bundle.ts\<close>); \<open>LocalAdmin\<close> (\<open>lib/dev-local-admin.ts\<close>,
    \<open>regions.ts\<close>).
  \<^item> \<open>Examples\<close>: the deployment the witnesses run on.

  \<^bold>\<open>How code becomes definitions.\<close> A function keeps its name; a table is the list of its rows, a nullable
  column or a missing field an \<open>option\<close>, a number an \<open>int\<close>, an instant its milliseconds. A text is the
  list of its UTF-8 bytes, and a length counts them; where the code counts UTF-16 units the two agree on
  ASCII. Code that awaits is an action on the world: \<open>(\<open>world\<close>, \<open>err\<close>)\<close> \<open>act\<close> with \<open>throw\<close> and \<open>catch\<close> as the
  program has them, and \<open>wp m Q E w\<close> says what holds when \<open>m\<close> returns and when it throws. The world logs
  the calls that leave the program. What interleaves in the program (workers of a pool, callbacks of a
  stream, promises of a page, writes of a tab) is a step relation over every order; what other requests
  do while one sleeps is a parameter of the action that sleeps.

  \<^bold>\<open>Parameters.\<close> The platform record (sandbox calls, clock advance, random bytes, SHA-256, blob store, health
  probe, what the run store answers), the SDK behind the Vercel adapter, the operating system, git and the
  container engine behind the local ones, the JWT library (\<open>jose\<close> with the contract \<open>jwt_library\<close>),
  GitHub's answers, the network of the page, what \<open>new URL\<close> accepts, a release's files, the source of
  bundles. They are functions of the number of the call, so a theorem holds for every behaviour of the
  outside; where one needs more, the contract is a hypothesis of the theorem.

  \<^bold>\<open>Contracts.\<close> \<open>kv_contract\<close> (what a store keeps), \<open>step_frame\<close> and \<open>run_frame\<close> (what a step or a whole run
  leaves alone; interpreted on the clock, the log, the pointers of a row, the safety of the files),
  \<open>row_invariant\<close> and \<open>creation_invariant\<close> (invariants of the rows a creation keeps: the budget, the
  uniqueness of a workshop's workspace), \<open>local_view\<close> (a view of the local machine every operation but its
  own keeps), \<open>jwt_library\<close>, \<open>project_env\<close> (what the hosting platform documents of its variables).

  \<^bold>\<open>What the groups of properties show.\<close> Lifecycle: a failed rebuild loses nothing, one run per row, the
  budget, waits that end, rows that are always released. Connecting: a token opens what it was minted
  for, reconnecting wakes nothing, sessions are arbitrated. The local backend: distinct ports, files that
  survive a stop, paths and containers that stay inside their roots. Creation, documents and answers: uniqueness,
  no lost update, round trips, the manifest's contract. Requests from elsewhere: what the origin guard refuses and the policy of the
  editor's document. Browser: a connection is what was asked for, a
  crash is final, saves arrive in order, an update is staged first, an editor is started once and checked.
  What leaves the program: no bearer in a log, signed URLs good for one archive, debug tokens good for one
  launch. Releases: no editor is lost, a restore undoes a configuration. Sweep, pool, limiter, lock, ports:
  their decisions, bounds and invariants.

  \<^bold>\<open>Fuel.\<close> A wait is \<open>loopE\<close> with the fuel \<open>loopFuel\<close> of its deadline and its interval. Every round sleeps
  at least the interval, so \<open>roundsLeft\<close> is a measure and \<open>wp_loopE\<close> shows that the deadline comes before the
  fuel ends: the error \<open>outOfFuel\<close> is never thrown. The page's wait takes \<open>waitRounds\<close> in the same way, and
  its connecting loop at most one round per millisecond of its deadline, because a request takes at least
  one. The waits of the local backends count their rounds from the remaining milliseconds. The JSON reader takes fuel linear in the text (\<open>parse_enough\<close>).

  \<^bold>\<open>Not modelled.\<close> Texts of error messages beyond their code, except where a program reads them; the audit
  table, which no code reads; the login library and its tables; rendering (React components,
  \<open>shell-ui.tsx\<close>); distances in \<open>lib/regions.ts\<close> (floating point; they are a parameter); the delivery of
  records to the log sink; command-line helpers around containers and files. The environment
  is read as validated. A child run is executed where its parent starts it, the sweep takes its rows one
  after the other, React's state updates are immediate, and the updater's percentage is exact.
\<close>

section \<open>Lifecycle workflows\<close>

text \<open>
  C1. A rebuild that throws, anywhere, has not deleted the sandbox that holds the user's files,
  nor listed its snapshots, nor deleted any archive; the row still names that sandbox and is left
  in \<open>error\<close> with its run id cleared. One that returns leaves no pending generation.
\<close>

theorem rebuild_crash_safe:
  assumes "handlesNamed pf" and "rowOf w wid = Some r" and "deletedAt r = None"
    and "sandboxName r \<noteq> []" and "previousSandboxName r \<noteq> Some []"
    and "previousSandboxName r \<noteq> Some (sandboxName r)"
  shows "wp (rebuildWorkspace pf wid user upgrade)
     (\<lambda>_. rowIs wid (\<lambda>r'. endedRow r' \<and> previousSandboxName r' = None))
     (\<lambda>e w'. logs (sparing (holdsFiles r)) (trace w) w' \<and> namedBy wid (holdsFiles r) w'
        \<and> rowIs wid (failedRow e) w') w"
  by (rule wp_mono [OF rebuild_safe [OF assms]]) (simp_all add: dataSafe_def)

theorem rebuild_crash_safe_witness:
  "wp (rebuildWorkspace demoPf demoId ''u1'' None)
     (\<lambda>_. rowIs demoId (\<lambda>r'. endedRow r' \<and> previousSandboxName r' = None))
     (\<lambda>e w'. logs (sparing demoName) [] w' \<and> namedBy demoId demoName w' \<and> rowIs demoId (failedRow e) w') demoWorld"
  using rebuild_crash_safe [OF demo_handles demo_row, of "''u1''" None]
  by (simp add: holdsFiles_def demoWorld_def)

text \<open>
  C2. Starting a run that brings a sandbox up never takes the instance above
  \<open>ZS_MAX_RUNNING_WORKSPACES\<close> workspaces in use, whether the start succeeds or throws.
\<close>

theorem lifecycle_budget:
  assumes "activates (runName run)" and "distinct (map ws_id (workspacesT w))" and "wid \<noteq> []"
    and "inUse w \<le> ZS_MAX_RUNNING_WORKSPACES (pf_env pf)"
  shows "wp (startLifecycle pf wid run) (\<lambda>_ w'. inUse w' \<le> ZS_MAX_RUNNING_WORKSPACES (pf_env pf))
     (\<lambda>_ w'. inUse w' \<le> ZS_MAX_RUNNING_WORKSPACES (pf_env pf)) w"
  by (rule startLifecycle_budget [OF assms])

theorem lifecycle_budget_witness:
  "wp (startLifecycle demoPf demoId (RestartSessionRun demoId)) (\<lambda>_ w'. inUse w' \<le> 5) (\<lambda>_ w'. inUse w' \<le> 5) demoWorld"
  using lifecycle_budget [of "RestartSessionRun demoId" demoWorld demoId demoPf]
  by (simp add: activates_def inUse_def demoWorld_def) (simp add: demoPf_def demoEnv_def defaultEnv_def countsToward_def)

text \<open>
  C3. A workspace whose recorded run is still being admitted, or is pending or running in the run
  store, is never given a second one: the request is answered 423 \<open>workspace_busy\<close>, no run is
  started and no row changes.
\<close>

theorem lifecycle_single_run:
  assumes "rowOf w wid = Some r" and "workflowRunId r = Some i" and "i \<noteq> []"
    and "admitting i \<or> (\<forall>n. pf_runStatus pf n i \<in> {Some RunPending, Some RunRunning})"
  shows "wp (startLifecycle pf wid run) (\<lambda>_ _. False)
     (\<lambda>e w'. e = ApiError 423 ''workspace_busy'' \<and> workspacesT w' = workspacesT w
        \<and> startedSince (trace w) w' = []) w"
  by (rule startLifecycle_active [OF assms])

theorem lifecycle_single_run_witness:
  "wp (startLifecycle demoPf demoId (RestartSessionRun demoId)) (\<lambda>_ _. False)
     (\<lambda>e w'. e = ApiError 423 ''workspace_busy'' \<and> startedSince [] w' = [])
     (demoWorld\<lparr>workspacesT := [demoRow\<lparr>workflowRunId := Some ''admitting:x''\<rparr>]\<rparr>)"
  by (rule wp_mono [OF lifecycle_single_run [where r = "demoRow\<lparr>workflowRunId := Some ''admitting:x''\<rparr>"
          and i = "''admitting:x''"]])
    (simp_all add: rowOf_def admitting_def demoWorld_def)

text \<open>
  C4. The readiness wait of \<open>createWorkspace\<close> and \<open>connectWorkspace\<close> ends: either the last call was a
  probe of the host that answered with its server running, ready or degraded, on a build
  compatible with the row's, or a \<open>FatalError\<close> is thrown.
\<close>

theorem ready_wait_ends:
  "wp (awaitReady pf ws host cmd budget)
     (\<lambda>_ w'. \<exists>past h. trace w' = past @ [EvProbe host (Some h)] \<and> hp_serverRunning h
        \<and> (hp_status h = HsReady \<or> hp_status h = HsDegraded)
        \<and> buildsCompatible (hp_build h) (Some (serverBuild ws)))
     (\<lambda>e _. \<exists>m. e = FatalError m) w"
  by (rule wp_mono [OF wp_awaitReady]) (auto simp: readyProbe_def fatal_def)



section \<open>Connecting\<close>

text \<open>
  C6. A token that \<open>/connect\<close> answers is for the workspace of the request: it verifies against
  that workspace and the audience it comes with, carries the connection id and the expiry the
  answer names, for any JWT library that accepts what it signed.
\<close>

theorem connect_token_opens:
  assumes "jwt_library jz publicOf" and "ak_publicKey (sk_active keys) = publicOf (ak_privateKey (sk_active keys))"
  shows "wp (connectPost pf jz keys env sessionUser i input)
     (\<lambda>ans w'. \<forall>info. ans = Connected info \<longrightarrow> ct_workspaceId info = i \<and>
        (\<exists>c. verifySessionToken jz keys (now w') (ct_audience info) i (ct_token info) = Inr c \<and> sc_ws c = i
           \<and> sc_sid c = ct_sessionId info \<and> sc_exp c * 1000 = ct_sessionExpiresAt info))
     (\<lambda>_ _. True) w"
  using assms
  by (intro wp_mono [OF wp_connectPost [of jz publicOf]]) (auto simp: infoOk_def jwt_library.matching_def)

theorem connect_token_opens_witness:
  "wp (connectPost demoPf plainJose demoKeys id (Some ''u1'') demoId
       \<lparr>cn_clientBuild = None, cn_reason = OpenReason, cn_tabId = ''t''\<rparr>)
     (\<lambda>ans w'. \<forall>info. ans = Connected info \<longrightarrow> ct_workspaceId info = demoId \<and>
        (\<exists>c. verifySessionToken plainJose demoKeys (now w') (ct_audience info) demoId (ct_token info) = Inr c
           \<and> sc_ws c = demoId \<and> sc_sid c = ct_sessionId info \<and> sc_exp c * 1000 = ct_sessionExpiresAt info))
     (\<lambda>_ _. True) demoWorld"
  by (rule connect_token_opens [OF demo_jwt]) (simp add: demoKeys_def)

text \<open>
  C7. A tab that reconnects wakes nothing: whatever the request meets, no run is started and no
  sandbox is resumed.
\<close>

theorem reconnect_wakes_nothing:
  assumes "cn_reason input = ReconnectReason"
  shows "wp (connectPost pf jz keys env sessionUser i input)
     (\<lambda>_. logs wakesNothing (trace w)) (\<lambda>_. logs wakesNothing (trace w)) w"
  by (rule keepsD [OF connect_reconnect_quiet [OF assms] logs_refl])

theorem reconnect_wakes_nothing_witness:
  "wp (connectPost demoPf plainJose demoKeys id (Some ''u1'') demoId
       \<lparr>cn_clientBuild = None, cn_reason = ReconnectReason, cn_tabId = ''t''\<rparr>)
     (\<lambda>_. logs wakesNothing []) (\<lambda>_. logs wakesNothing []) demoWorld"
  by (rule wp_mono [OF reconnect_wakes_nothing]) (simp_all add: demoWorld_def)

text \<open>
  C8. Opening a session from a tab never leaves the tab with two open rows, and its result is the
  tab's open row, on the workspace's current generation and host; the unique index is never hit.
\<close>

theorem session_arbitration:
  assumes "openSessionsUnique (sessionsT w)" and "sessionIdsDistinct (sessionsT w)"
  shows "wp (openOrReuseSession pf ws input)
    (\<lambda>s w'. openSessionsUnique (sessionsT w') \<and> s \<in> set (sessionsT w')
       \<and> openTabSession (ws_id ws) (oi_tabId input) s
       \<and> s_sandboxGeneration s = sandboxGeneration ws \<and> wsHost s = oi_host input)
    (\<lambda>_ _. False) w"
  unfolding openOrReuseSession_def wp_catch by (rule wp_mono [OF wp_arbitrateSession [OF assms]]) simp_all

theorem session_arbitration_witness:
  "wp (openOrReuseSession demoPf demoRow
       \<lparr>oi_userId = ''u1'', oi_tabId = ''t'', oi_host = ''host'', oi_clientBuild = None, oi_serverBuild = None\<rparr>)
    (\<lambda>s w'. openSessionsUnique (sessionsT w') \<and> s \<in> set (sessionsT w') \<and> wsHost s = ''host'') (\<lambda>_ _. False) demoWorld"
  by (rule wp_mono [OF session_arbitration])
    (simp_all add: demoWorld_def openSessionsUnique_def sessionIdsDistinct_def)

section \<open>Sandboxes and their tokens\<close>

text \<open>
  C9. A minted session token is accepted for its workspace and audience, with the claims it was
  minted for, until thirty seconds after it expires, and refused as expired from then on; it lives at
  most an hour.
\<close>

theorem session_token_lifetime:
  assumes "jwt_library jz publicOf" and "ak_publicKey (sk_active keys) = publicOf (ak_privateKey (sk_active keys))"
    and "minted = mintSessionToken jz keys bytes t input"
  shows "(if t' div 1000 < mt_expiresAt minted div 1000 + 30
     then \<exists>c. verifySessionToken jz keys t' (mi_audience input) (mi_workspaceId input) (mt_token minted) = Inr c
        \<and> sc_sub c = mi_userId input \<and> sc_sid c = mi_sessionId input \<and> sc_ws c = mi_workspaceId input
     else verifySessionToken jz keys t' (mi_audience input) (mi_workspaceId input) (mt_token minted) = Inl TeExpired)
   \<and> mt_expiresAt minted \<le> t + 3600000"
proof -
  have m: "jwt_library.matching publicOf keys" using assms(1,2) by (simp add: jwt_library.matching_def)
  have exp: "mt_expiresAt minted div 1000 = t div 1000 + sessionTtl (mi_ttlSeconds input)"
    and raw: "mt_expiresAt minted = (t div 1000 + sessionTtl (mi_ttlSeconds input)) * 1000"
    by (simp_all add: assms(3) mintSessionToken_def Let_def)
  have "t div 1000 * 1000 \<le> t" by (simp add: minus_mod_eq_div_mult [symmetric])
  then have "mt_expiresAt minted \<le> t + 3600000"
    using sessionTtl_bounds [of "mi_ttlSeconds input"] unfolding raw by (simp add: distrib_right)
  then show ?thesis
    using jwt_library.verify_minted [OF assms(1) m, of t' t input bytes]
      jwt_library.verify_expired [OF assms(1) m, of t input t' bytes]
    unfolding assms(3) exp [unfolded assms(3)] CLOCK_TOLERANCE_def by (auto simp: not_less)
qed

theorem session_token_lifetime_witness:
  "verifySessionToken plainJose demoKeys 3600000 ''a'' ''w'' (mt_token (mintSessionToken plainJose demoKeys [] 0
     \<lparr>mi_userId = ''u'', mi_workspaceId = ''w'', mi_sessionId = ''s'', mi_participantId = None, mi_audience = ''a'',
      mi_ttlSeconds = Some 60\<rparr>)) = Inl TeExpired"
  using session_token_lifetime [OF demo_jwt _ refl, where keys = demoKeys and t' = 3600000 and t = 0 and bytes = "[]"
      and input = "\<lparr>mi_userId = ''u'', mi_workspaceId = ''w'', mi_sessionId = ''s'', mi_participantId = None,
        mi_audience = ''a'', mi_ttlSeconds = Some 60\<rparr>"]
  by (simp add: demoKeys_def mintSessionToken_def Let_def sessionTtl_def SESSION_TOKEN_TTL_SECS_def)

text \<open>
  C10. A port bootstrap token opens no RPC session: the verification of session tokens refuses it for
  its audience. It is never minted for a port of the infrastructure.
\<close>

theorem bootstrap_token_confined:
  assumes "jwt_library jz publicOf" and "ak_publicKey (sk_active keys) = publicOf (ak_privateKey (sk_active keys))"
    and "mintPortBootstrapToken jz e keys bytes t userId wid aud port = Inr (token, jti, expiresAt)"
  shows "verifySessionToken jz keys t' aud workspaceId token = Inl TeAudience \<and> \<not> isInfraPort e port"
proof
  have m: "jwt_library.matching publicOf keys" using assms(1,2) by (simp add: jwt_library.matching_def)
  show "verifySessionToken jz keys t' aud workspaceId token = Inl TeAudience"
    by (rule jwt_library.bootstrap_rejected [OF assms(1) m assms(3)])
  show "\<not> isInfraPort e port"
    using assms(3) by (simp add: mintPortBootstrapToken_def isInfraPort_def split: if_splits)
qed

theorem bootstrap_token_confined_witness:
  "\<exists>token jti x. mintPortBootstrapToken plainJose demoEnv demoKeys [] 0 ''u'' demoId demoName 3000 = Inr (token, jti, x)
     \<and> verifySessionToken plainJose demoKeys 0 demoName demoId token = Inl TeAudience"
proof -
  have "\<not> isInfraPort demoEnv 3000" by (simp add: isInfraPort_iff demoEnv_def defaultEnv_def)
  then obtain token jti x where m: "mintPortBootstrapToken plainJose demoEnv demoKeys [] 0 ''u'' demoId demoName 3000 = Inr (token, jti, x)"
    by (simp add: mintPortBootstrapToken_def isInfraPort_def Let_def)
  from bootstrap_token_confined [OF demo_jwt _ m] have "verifySessionToken plainJose demoKeys 0 demoName demoId token = Inl TeAudience"
    by (simp add: demoKeys_def)
  with m show ?thesis by blast
qed



section \<open>The local backend\<close>

text \<open>
  C12. Ports of local sandboxes are exclusive: after any sequence of operations of the backend and exits of
  its children, on any machine and whether they return or throw, the ports a sandbox was given are
  distinct, lie outside the range of the infrastructure, and belong to no other sandbox.
\<close>

theorem local_ports_disjoint:
  assumes "localStep\<^sup>*\<^sup>* h0 h" and "ho_dirs h0 = []" and "recordOf n h = Some r"
  shows "distinct (allocatedPorts r) \<and> list_all (\<lambda>p. \<not> isInfraRange p) (allocatedPorts r)
    \<and> (\<forall>m s. recordOf m h = Some s \<longrightarrow> m \<noteq> n \<longrightarrow> set (allocatedPorts r) \<inter> set (allocatedPorts s) = {})"
proof -
  have "portsOk h0" using assms(2) by (simp add: portsOk_def named_def viewBy_def)
  then show ?thesis by (rule portsOk_records [OF localRun_ports [OF assms(1)] assms(3)])
qed

theorem local_ports_disjoint_witness:
  "\<exists>h r s. recordOf ''sb-a'' h = Some r \<and> recordOf ''sb-b'' h = Some s \<and> set (allocatedPorts r) \<inter> set (allocatedPorts s) = {}"
proof -
  let ?h1 = "snd (createLocal demoOs id (demoLocal ''sb-a'') demoHost)"
  let ?h2 = "snd (createLocal demoOs id (demoLocal ''sb-b'') ?h1)"
  have q: "quietDuring id" by (simp add: quietDuring_def)
  have "localStep demoHost ?h1" "localStep ?h1 ?h2"
    by (rule localStep.created [OF q], simp add: ran_def)+
  then have steps: "localStep\<^sup>*\<^sup>* demoHost ?h2" by (meson converse_rtranclp_into_rtranclp r_into_rtranclp)
  have "recordOf ''sb-a'' ?h2 \<noteq> None" "recordOf ''sb-b'' ?h2 \<noteq> None" by code_simp+
  then obtain r s where rs: "recordOf ''sb-a'' ?h2 = Some r" "recordOf ''sb-b'' ?h2 = Some s" by blast
  have "ho_dirs demoHost = []" by (simp add: demoHost_def)
  moreover have "''sb-b'' \<noteq> ''sb-a''" by simp
  ultimately have "set (allocatedPorts r) \<inter> set (allocatedPorts s) = {}"
    using local_ports_disjoint [OF steps _ rs(1)] rs(2) by blast
  then show ?thesis using rs by blast
qed

text \<open>
  C13. Stopping a local sandbox loses no file: stopped, its checkout deleted, and opened again, it runs with
  every file of the checkout, the home and the state that it had when it was stopped, whatever number of
  archives is kept. The only failure is one of \<open>tar\<close>.
\<close>

theorem local_files_survive:
  assumes "quietDuring during" and "named h" and "recordOf name h = Some r" and "lr_status r \<noteq> StStopped"
    and "earlierIds name (ho_now h) (lr_snapshotIds r)"
  shows "wp (bindE (stopLocal os during name) (\<lambda>_. thenE (modE (loseWorkspaces name)) (getLocal os during name True (\<lambda>_. retE ()))))
    (\<lambda>ans h'. ans = Some name \<and> map_option lr_status (recordOf name h') = Some StRunning
       \<and> (\<forall>p. archived p \<longrightarrow> fileAt name p h' = fileAt name p h))
    (\<lambda>e _. e = OtherError ''tar'') h"
proof -
  obtain d where d: "dirOf h name = Some d" "ld_record d = Some r" using dirOf_record [OF assms(3)] by blast
  let ?r = "r\<lparr>lr_commands := []\<rparr>"
  have sits: "sits name (Some ?r, ld_files d, ld_archives d) h" using assms(2) d by (simp add: sits_def coreOf_def)
  have files: "fileAt name p h = map_of (ld_files d) p" for p by (simp add: fileAt_def d)
  have "lr_status ?r \<noteq> StStopped" "\<And>t. ho_now h \<le> t \<Longrightarrow> snapshotIdAt name t \<notin> set (lr_snapshotIds ?r)"
    using assms(4) earlierIds_fresh [OF assms(5)] by simp_all
  then have stop: "wp (stopLocal os during name)
      (\<lambda>res h'. \<exists>i. sr_snapshotId res = Some i \<and> (\<exists>c. sits name c h' \<and> savedCore i (stoppedAs ?r) (ld_files d) c))
      (\<lambda>e h'. e = OtherError ''tar'' \<and> sits name (Some (?r\<lparr>lr_status := StStopping\<rparr>), ld_files d, ld_archives d) h') h"
    by (intro wp_stopLocal [OF assms(1) sits])
  have stopped: "lr_status (stoppedAs x) = StStopped" for x by (simp add: stoppedAs_def)
  show ?thesis
    unfolding wp_bind [of "stopLocal os during name"] files
    by (rule wp_mono [OF stop], elim exE conjE, rule wp_openAgain [OF assms(1) _ _ stopped]) simp_all
qed

theorem local_files_survive_witness:
  "wp (bindE (stopLocal demoOs id ''sb-a'') (\<lambda>_. thenE (modE (loseWorkspaces ''sb-a'')) (getLocal demoOs id ''sb-a'' True (\<lambda>_. retE ()))))
    (\<lambda>_ h'. fileAt ''sb-a'' [''workspaces'', ''n'', ''a.txt''] h' = Some ''hi'') (\<lambda>e _. e = OtherError ''tar'') demoUsed"
proof -
  have q: "quietDuring id" by (simp add: quietDuring_def)
  have n: "named demoUsed" by code_simp
  have "map_option lr_status (recordOf ''sb-a'' demoUsed) = Some StRunning" "map_option lr_snapshotIds (recordOf ''sb-a'' demoUsed) = Some []"
    by code_simp+
  moreover from this obtain r where r: "recordOf ''sb-a'' demoUsed = Some r" by (cases "recordOf ''sb-a'' demoUsed") simp_all
  ultimately have s: "lr_status r \<noteq> StStopped" "lr_snapshotIds r = []" by simp_all
  have "earlierIds ''sb-a'' (ho_now demoUsed) (lr_snapshotIds r)" by (simp add: earlierIds_def s)
  note run = local_files_survive [OF q n r s(1) this, of demoOs]
  have "archived [''workspaces'', ''n'', ''a.txt'']" "fileAt ''sb-a'' [''workspaces'', ''n'', ''a.txt''] demoUsed = Some ''hi''"
    by code_simp+
  then show ?thesis by (intro wp_mono [OF run]) auto
qed

text \<open>
  C14. A request can name no other directory of the developer's machine: a name leads to a child of the
  repositories' root or nowhere, and the lookups depend on nothing but that child and on git's answers to
  questions whose operand is no option and has no \<open>..\<close>: two machines that agree on these answer alike.
\<close>

theorem local_repos_confined:
  assumes "resolvedRoot root" and "agreeOn (root @ ''/'' @ name) gt gt'"
  shows "(\<forall>p. localRepoPath root name = Inr p \<longleftrightarrow> localRepoName name \<and> p = root @ ''/'' @ name)
    \<and> localFetchRepo gt root name = localFetchRepo gt' root name
    \<and> localResolveRef gt root name ref = localResolveRef gt' root name ref"
  using localRepoPath_child [OF assms(1)] localLookups_agree [OF assms(2,1)] by blast

theorem local_repos_confined_witness:
  "(let gt = \<lparr>gt_exists = (\<lambda>_. True), gt_git = (\<lambda>repo args. if repo = ''/repos/zed'' then Some ''abc'' else None),
        gt_digest32 = (\<lambda>_. 7), gt_fileUrl = id\<rparr> in
    localResolveRef gt ''/repos'' ''zed'' (RefBranch ''main'')
      = localResolveRef (gt\<lparr>gt_git := \<lambda>_ _. Some ''abc''\<rparr>) ''/repos'' ''zed'' (RefBranch ''main''))"
proof -
  let ?gt = "\<lparr>gt_exists = (\<lambda>_. True), gt_git = (\<lambda>repo args. if repo = ''/repos/zed'' then Some ''abc'' else None),
    gt_digest32 = (\<lambda>_. 7), gt_fileUrl = id\<rparr>"
  have "resolvedRoot ''/repos''" unfolding resolvedRoot_def by code_simp
  moreover have "agreeOn (''/repos'' @ ''/'' @ ''zed'') ?gt (?gt\<lparr>gt_git := \<lambda>_ _. Some ''abc''\<rparr>)" by (simp add: agreeOn_def)
  ultimately show ?thesis unfolding Let_def using local_repos_confined by blast
qed

text \<open>
  C15. A checkout touches no container and no image but its own: whatever the engine answers, and in every
  order of the backend's operations, whether they return or throw, a command that starts, stops, removes,
  enters or saves a container names one the engine had shown to carry the label of this instance; an image
  is removed only after it was shown to carry it; and what is made carries it.
\<close>

theorem docker_confined:
  assumes "instanceOf en e = Inr i" and "(dockerStep en e)\<^sup>*\<^sup>* s0 s" and "ds_log s0 = []"
    and "ds_log s = pre @ (c, vs, a) # post"
  shows "allowed en i pre c"
proof -
  have "confined en i (ds_log s)"
    by (rule dockerRun_confined [OF assms(1,2)]) (simp add: assms(3) confined_Nil)
  then show ?thesis using assms(4) unfolding confined_def by (metis fst_conv)
qed

theorem docker_confined_witness:
  "allowed demoDocker ''0000000000000000''
     [(InspectContainer ''zs-0000000000000000-sb'', [], Inr [])] (RemoveContainer ''abc'')"
proof -
  let ?s = "snd (deleteIn demoDocker dockerEnv ''sb'' demoDockerState)"
  have i: "instanceOf demoDocker dockerEnv = Inr ''0000000000000000''" by code_simp
  have "dockerStep demoDocker dockerEnv demoDockerState ?s" by (rule dockerStep.deleted)
  then have step: "(dockerStep demoDocker dockerEnv)\<^sup>*\<^sup>* demoDockerState ?s" by (rule r_into_rtranclp)
  have log: "ds_log ?s = [(InspectContainer ''zs-0000000000000000-sb'', [], Inr [])] @ (RemoveContainer ''abc'', [], Inr []) # []"
    by code_simp
  show ?thesis by (rule docker_confined [OF i step _ log]) (simp add: demoDockerState_def)
qed

section \<open>Creating workspaces\<close>

text \<open>
  C16. A user has at most one live workspace per workshop: the creation keeps it so, and where there is
  one already it is what the request answers, with its run, nothing started and no row changed.
\<close>

theorem workshop_single_workspace:
  assumes "\<And>w. workshopsUnique w \<Longrightarrow> workshopsUnique (env w)" and "workshopsUnique w" and "k \<noteq> []"
  shows "wp (createPublicWorkspace pf env gh near v input (Some k))
     (\<lambda>(view, runId) w'. workshopsUnique w'
        \<and> (\<forall>r. selectOne (workshopMatch (v_userId v) k) (workspacesT w) = Some r \<longrightarrow>
             wv_id view = ws_id r \<and> runId = workflowRunId r \<and> workspacesT w' = workspacesT w \<and> trace w' = trace w))
     (\<lambda>_. workshopsUnique) w"
proof -
  have keeps: "wp (createPublicWorkspace pf env gh near v input (Some k)) (\<lambda>_. workshopsUnique) (\<lambda>_. workshopsUnique) w"
    by (rule keepsD [OF workshop_rows.keeps_create assms(2)]) (rule assms(1))
  show ?thesis
  proof (cases "selectOne (workshopMatch (v_userId v) k) (workspacesT w)")
    case None
    then show ?thesis using keeps by (auto elim!: wp_mono)
  next
    case (Some r)
    show ?thesis
      by (rule wp_mono [OF wp_conj [OF keeps createPublic_existing [OF Some assms(3)]]]) (auto simp: Some)
  qed
qed

theorem workshop_single_workspace_witness:
  "wp (createPublicWorkspace demoPf id demoGithub Iad1 demoViewer demoInput (Some ''k''))
     (\<lambda>(view, runId) w'. workshopsUnique w' \<and> wv_id view = demoId \<and> runId = None) (\<lambda>_. workshopsUnique)
     (demoWorld\<lparr>workspacesT := [demoRow\<lparr>workshopKey := Some ''k''\<rparr>]\<rparr>)"
  by (rule wp_mono [OF workshop_single_workspace])
    (auto simp: workshopsUnique_def workshopMatch_def demo_defs demoViewer_def)

section \<open>Requests from elsewhere\<close>

text \<open>
  C17. No other site changes anything: a request to the API (the endpoints with a bearer of their own aside)
  passes the proxy, which refuses it with 403 when its method is not a reading one and its headers tell
  that another site made it; on a development backend also when it does not come from this machine. No
  other such request is refused.
\<close>

theorem foreign_requests_refused:
  assumes "prefix ''/api/'' path" and "\<not> prefix ''/api/sandboxes/'' path" and "\<not> prefix ''/api/cron/'' path"
    and "\<not> prefix ''/api/ai/'' path" and "meth \<notin> {''GET'', ''HEAD'', ''OPTIONS''}"
  shows "matched path \<and> ((\<exists>code. proxy e pe px uuid meth path header = Refused 403 code) \<longleftrightarrow>
    foreignRequest (px_originOf px) header
    \<or> (ZS_SANDBOX_BACKEND e \<noteq> Vercel \<and> devRequestRefusal (px_hostnameOf px) (px_originOf px) header \<noteq> None))"
  using matched_api [OF assms(1-4)] proxy_refuses [OF assms(5)] by blast

theorem foreign_requests_refused_witness:
  "\<exists>code. proxy demoEnv None \<lparr>px_originOf = (\<lambda>_. Some (''https:'', ''evil'')), px_hostnameOf = Some\<rparr> ''u'' ''POST''
    ''/api/workspaces'' [''host'' \<mapsto> ''z'', ''origin'' \<mapsto> ''https://evil''] = Refused 403 code"
proof -
  have paths: "prefix ''/api/'' ''/api/workspaces''" "\<not> prefix ''/api/sandboxes/'' ''/api/workspaces''"
    "\<not> prefix ''/api/cron/'' ''/api/workspaces''" "\<not> prefix ''/api/ai/'' ''/api/workspaces''"
    "''POST'' \<notin> {''GET'', ''HEAD'', ''OPTIONS''}"
    by code_simp+
  have "foreignRequest (px_originOf \<lparr>px_originOf = (\<lambda>_. Some (''https:'', ''evil'')), px_hostnameOf = Some\<rparr>)
      [''host'' \<mapsto> ''z'', ''origin'' \<mapsto> ''https://evil'']"
    by (simp add: foreignRequest_def truthy_def)
  then show ?thesis using foreign_requests_refused [OF paths] by blast
qed

text \<open>
  C18. The editor document of a production build is served under the policy that was meant: what a browser
  reads from the header admits scripts by the nonce of this very document, no inline styles, \<open>eval\<close> only
  where the deployment allows it and only for scripts, connections to the site and the sandboxes of the
  platform only, no plugins, and no page that frames it.
\<close>

theorem editor_document_policy:
  assumes "proxy e (Some NodeProduction) px uuid meth path header = DocumentWith nonce csp"
  shows "prefix ''/w/'' path \<and> nonce = newCspNonce uuid
    \<and> (\<forall>(d, ws) \<in> set (readPolicy csp). quoted ''unsafe-inline'' \<notin> set ws
         \<and> (quoted ''unsafe-eval'' \<in> set ws \<longrightarrow> d = ''script-src'' \<and> ZS_CSP_UNSAFE_EVAL e))
    \<and> (\<exists>ws. map_of (readPolicy csp) ''script-src'' = Some ws \<and> quoted (''nonce-'' @ nonce) \<in> set ws)
    \<and> map_of (readPolicy csp) ''connect-src'' = Some [quoted ''self'', ''wss://*.vercel.run'', ''https://*.vercel.run'']
    \<and> map_of (readPolicy csp) ''object-src'' = Some [quoted ''none'']
    \<and> map_of (readPolicy csp) ''frame-ancestors'' = Some [quoted ''none'']"
proof -
  let ?o = "\<lparr>eo_dev = False, eo_unsafeEval = ZS_CSP_UNSAFE_EVAL e, eo_localSandbox = False\<rparr>"
  have doc: "prefix ''/w/'' path" "nonce = newCspNonce uuid" "csp = editorCsp nonce ?o"
    using assms by (auto simp: proxy_def editorDocumentResponse_def Let_def split: if_splits)
  then have read: "readPolicy csp = editorDirectives nonce ?o" by (simp add: editorCsp_reads)
  have each: "\<forall>(d, ws) \<in> set (editorDirectives nonce ?o). quoted ''unsafe-inline'' \<notin> set ws
      \<and> (quoted ''unsafe-eval'' \<in> set ws \<longrightarrow> d = ''script-src'' \<and> ZS_CSP_UNSAFE_EVAL e)"
  proof (intro ballI, clarify)
    fix d ws assume "(d, ws) \<in> set (editorDirectives nonce ?o)"
    from sources_named [OF this] show "quoted ''unsafe-inline'' \<notin> set ws
        \<and> (quoted ''unsafe-eval'' \<in> set ws \<longrightarrow> d = ''script-src'' \<and> ZS_CSP_UNSAFE_EVAL e)" by simp
  qed
  show ?thesis
    unfolding read using doc(1,2) each by (intro conjI) (simp_all add: editorDirectives_def connectSrc_def)
qed

theorem editor_document_policy_witness:
  "\<exists>csp. proxy demoEnv (Some NodeProduction) \<lparr>px_originOf = (\<lambda>_. None), px_hostnameOf = Some\<rparr> ''u'' ''GET'' ''/w/ws_1'' Map.empty
      = DocumentWith ''dQ=='' csp \<and> map_of (readPolicy csp) ''frame-ancestors'' = Some [quoted ''none'']"
proof -
  have nonce: "newCspNonce ''u'' = ''dQ==''" by code_simp
  obtain csp where "proxy demoEnv (Some NodeProduction) \<lparr>px_originOf = (\<lambda>_. None), px_hostnameOf = Some\<rparr> ''u'' ''GET'' ''/w/ws_1''
      Map.empty = DocumentWith ''dQ=='' csp"
    by (simp add: proxy_def editorDocumentResponse_def Let_def nonce demo_defs)
  with editor_document_policy [OF this] show ?thesis by blast
qed

section \<open>What leaves the program\<close>

text \<open>
  C19. What the log sink is sent, and every text of a diagnosis, holds no bearer of a sandbox: wherever one stands
  in a payload, in a key or inside a longer text, it is replaced, and no replacement brings another one
  about. The names of the record itself have to be free of one.
\<close>

theorem no_bearer_shipped:
  assumes "\<not> hasBearer (sk_sandboxName r)" and "\<not> hasBearer (sk_workspaceId r)"
    and "\<And>b. sk_build r = Some b \<Longrightarrow> \<not> hasBearer b"
  shows "\<not> hasBearer (outputText (shipToSink e r)) \<and> \<not> hasBearer (diagnosticText url printed limit')"
  using shipToSink_bearer [OF assms] diagnosticText_bearer by blast

theorem no_bearer_shipped_witness:
  "(let text' = ''token zsb_AAAAAAAAAAAAAAAAAAAAAAAA.'' in hasBearer text'
     \<and> \<not> hasBearer (outputText (shipToSink demoEnv \<lparr>sk_kind = LogRecord, sk_workspaceId = ''ws'', sk_sandboxName = ''sb'',
          sk_build = None, sk_payload = JArr [JStr text']\<rparr>)))"
proof -
  let ?text = "''token zsb_AAAAAAAAAAAAAAAAAAAAAAAA.''"
  have "hasBearer ?text" "\<not> hasBearer ''sb''" "\<not> hasBearer ''ws''" by code_simp+
  then show ?thesis
    using no_bearer_shipped [of "\<lparr>sk_kind = LogRecord, sk_workspaceId = ''ws'', sk_sandboxName = ''sb'',
        sk_build = None, sk_payload = JArr [JStr ?text]\<rparr>" demoEnv]
    by (simp add: Let_def)
qed

text \<open>
  C20. A signed URL of the file store is good for what it was issued for: a request that carries its signature and
  is served names the same archive and method, arrives before the expiry, and either downloads that archive,
  changing nothing, or stores at most the bytes it allows in it and nowhere else. Two queries with one keyed
  hash are the same text, by hypothesis.
\<close>

theorem blob_capability:
  assumes "serveLocalBlob bh u rq t files = (Inr resp, files')" and "bs_status resp = 200"
    and "signedQuery bh name verb ttl maximum t0 = Inr granted"
    and "param (br_query rq) ''signature'' = param granted ''signature''"
    and "\<And>s q. BETTER_AUTH_SECRET (bh_env bh) = Some s \<Longrightarrow>
      bh_hmac bh s (queryText q) = bh_hmac bh s (queryText (capability bh name verb (t0 + ttl) maximum)) \<Longrightarrow>
      queryText q = queryText (capability bh name verb (t0 + ttl) maximum)"
  shows "br_method rq = verb \<and> t < t0 + ttl \<and> (\<exists>dest. location bh (bh_digest bh name) = Inr dest
    \<and> (if verb = ''PUT'' then \<exists>b. files' = files(dest \<mapsto> b) \<and> int (length b) \<le> maximum
       else files' = files \<and> bs_body resp = files dest))"
  by (rule blob_served [OF assms])

theorem blob_capability_witness:
  "\<exists>resp files'. serveLocalBlob demoBlobs ''u'' \<lparr>br_method = ''PUT'', br_query = demoGrant @ [(''signature'', replicate 64 CHR ''0'')],
       br_body = Some [Bytes ''ab'']\<rparr> 50 Map.empty = (Inr resp, files') \<and> bs_status resp = 200 \<and> files' \<noteq> Map.empty"
proof -
  let ?rq = "\<lparr>br_method = ''PUT'', br_query = demoGrant @ [(''signature'', replicate 64 CHR ''0'')], br_body = Some [Bytes ''ab'']\<rparr>"
  have "(case serveLocalBlob demoBlobs ''u'' ?rq 50 Map.empty of (Inr resp, _) \<Rightarrow> bs_status resp | _ \<Rightarrow> 0) = 200" by code_simp
  then obtain resp files' where served: "serveLocalBlob demoBlobs ''u'' ?rq 50 Map.empty = (Inr resp, files')" "bs_status resp = 200"
    by (auto split: prod.splits sum.splits)
  have grant: "capability demoBlobs ''n'' ''PUT'' (40 + 60) 3 = demoGrant" by code_simp
  have issued: "signedQuery demoBlobs ''n'' ''PUT'' 60 3 40 = Inr (demoGrant @ [(''signature'', replicate 64 CHR ''0'')])" by code_simp
  have hmac: "bh_hmac demoBlobs s x = bh_hmac demoBlobs s (queryText demoGrant) \<Longrightarrow> x = queryText demoGrant" for s x
    by (simp add: demoBlobs_def eval_nat_numeral split: if_splits)
  have "\<exists>b. files' = (\<lambda>_. None)(the (map_option id (Some (case location demoBlobs (bh_digest demoBlobs ''n'') of Inr d \<Rightarrow> d))) \<mapsto> b)"
    using blob_capability [OF served issued] hmac unfolding grant by fastforce
  with served show ?thesis by (auto simp: fun_eq_iff)
qed

section \<open>The dashboard\<close>

text \<open>
  C21. A dashboard form changes nothing for a stranger: where a submission changes anything, the signed-in
  user exists, is neither deleted nor flagged, and owns the undeleted workspace the form names; no other
  workspace, no other workspace's forward and no other user's document changes, and a form of the account
  touches no workspace at all.
\<close>

theorem dashboard_confined:
  assumes "snd (dashboardAction pf isUrl sessionUser d form w) \<noteq> w"
  shows "\<exists>uid. sessionUser = Some uid \<and> activeUser w uid
     \<and> (let w' = snd (dashboardAction pf isUrl sessionUser d form w); wid = formText form ''workspaceId'' in
        if onAccount d then \<forall>x. othersView uid x w' = othersView uid x w
        else (\<exists>r \<in> set (workspacesT w). ws_id r = wid \<and> ownerUserId r = uid \<and> deletedAt r = None)
          \<and> (\<forall>x. othersView x wid w' = othersView x wid w))"
proof (cases "onAccount d")
  case True
  from account_form_others [OF this assms] True show ?thesis by (auto simp: Let_def)
next
  case False
  obtain v ws where opened: "requireWorkspaceParam sessionUser (formText form ''workspaceId'') None True w = (Inr (v, ws), w)"
    using workspace_form_opened [OF False assms] by blast
  with False param_opened [OF opened] workspace_form_others [OF False opened] show ?thesis by (auto simp: Let_def)
qed

theorem dashboard_confined_witness:
  "activeUser demoWorld ''u1'' \<and> (\<exists>r \<in> set (workspacesT demoWorld). ws_id r = demoId \<and> ownerUserId r = ''u1'')"
proof -
  let ?form = "[''workspaceId'' \<mapsto> FormText demoId, ''name'' \<mapsto> FormText ''x'']"
  have "map ws_name (workspacesT (snd (dashboardAction demoPf (\<lambda>_. True) (Some ''u1'') UpdateForm ?form demoWorld)))
      \<noteq> map ws_name (workspacesT demoWorld)"
    by code_simp
  then have "snd (dashboardAction demoPf (\<lambda>_. True) (Some ''u1'') UpdateForm ?form demoWorld) \<noteq> demoWorld" by auto
  from dashboard_confined [OF this] show ?thesis by (auto simp: Let_def formText_def demo_defs trimBoth_def)
qed



section \<open>Documents and answers\<close>



text \<open>
  C24. No lost update of the settings: a write that quotes a version succeeds only on the document of
  that version, stores the text as the next version, and every further write that quotes the old
  version is refused without a change.
\<close>

theorem settings_no_lost_update:
  assumes "writeDoc uid kind content (Some v) w = (Inr d, w')"
  shows "(\<exists>c. readDoc uid kind w = (Inr \<lparr>sv_content = c, sv_version = v\<rparr>, w))
     \<and> readDoc uid kind w' = (Inr \<lparr>sv_content = content, sv_version = v + 1\<rparr>, w')
     \<and> (\<exists>e. writeDoc uid kind other (Some v) w' = (Inl e, w'))"
proof -
  have v: "v = docVersion uid kind w" and d: "docAt uid kind w' = \<lparr>sv_content = content, sv_version = v + 1\<rparr>"
    using writeDoc_stored [OF assms] by auto
  have "docVersion uid kind w' = v + 1" by (simp add: docVersion_at d)
  then show ?thesis
    using v d by (cases "docAt uid kind w") (auto simp: readDoc_at docVersion_at writeDoc_outcome)
qed

theorem settings_no_lost_update_witness:
  "\<exists>w'. readDoc ''u1'' SettingsDoc w' = (Inr \<lparr>sv_content = ''{}'', sv_version = 1\<rparr>, w')
     \<and> (\<exists>e. writeDoc ''u1'' SettingsDoc ''[]'' (Some 0) w' = (Inl e, w'))"
proof -
  have json: "isJsonc ''{}''" by code_simp
  have "writeDoc ''u1'' SettingsDoc ''{}'' (Some 0) demoWorld
      = (Inr \<lparr>sv_content = ''{}'', sv_version = 1\<rparr>, snd (writeDoc ''u1'' SettingsDoc ''{}'' (Some 0) demoWorld))"
    by (simp add: writeDoc_outcome json MAX_DOC_BYTES_def docVersion_def docView_def demoWorld_def)
  from settings_no_lost_update [OF this, of "''[]''"] show ?thesis by auto
qed

text \<open>
  C25. A request repeated under its \<open>Idempotency-Key\<close> within a day answers what the first one
  answered: status, body and content type read back through the cached JSON, and the handler is
  not run again.
\<close>

theorem idempotent_replay:
  assumes "k \<noteq> []" and "length k \<le> 255" and "rs_contentType res \<noteq> Some []"
    and "idempotent encCached decCached (Some k) uid fn w = (Inr (res, False), w1)"
    and "200 \<le> rs_status res" and "rs_status res < 300"
    and "kvT v (idemKey uid k) = kvT w1 (idemKey uid k)" and "now v < now w1 + IDEMPOTENCY_TTL_MS"
  shows "idempotent encCached decCached (Some k) uid other v
     = (Inr (res\<lparr>rs_body := if rs_status res = 204 then [] else rs_body res\<rparr>, True), v)"
proof -
  have "kvGet (kvT v) (idemKey uid k) (now v) = Some (encCached res)"
    using idempotent_cached [OF assms(1,2,4,5,6)] assms(7,8) by (simp add: kvGet_def kvLive_def)
  from idempotent_hit [OF assms(1,2) this encCached_not_pending] show ?thesis
    by (simp add: decCached_enc [OF assms(3)])
qed

theorem idempotent_replay_witness:
  "\<exists>v. idempotent encCached decCached (Some ''k'') ''u1'' (throwE (OtherError ''twice'')) v
     = (Inr (\<lparr>rs_status = 202, rs_body = ''{}'', rs_contentType = None\<rparr>, True), v)"
proof -
  let ?r = "\<lparr>rs_status = 202, rs_body = ''{}'', rs_contentType = None\<rparr> :: response"
  let ?w1 = "snd (idempotent encCached decCached (Some ''k'') ''u1'' (retE ?r) demoWorld)"
  have "idempotent encCached decCached (Some ''k'') ''u1'' (retE ?r) demoWorld = (Inr (?r, False), ?w1)"
    by (simp add: idempotent_def act_defs kvSetE_def kvSet_def kvLive_def truthy_def nullish_def Let_def demoWorld_def)
  from idempotent_replay [OF _ _ _ this, of ?w1 "throwE (OtherError ''twice'')"] show ?thesis
    by (auto simp: IDEMPOTENCY_TTL_MS_def)
qed

section \<open>The browser\<close>

text \<open>
  C26. The editor is started at most once, as the last act of a boot that was not aborted, with a bundle that has
  every export, both files and the build that was asked for; a boot that fails has not started it. Once its
  module trapped, nothing calls into it again, and the trap is reported once.
\<close>

theorem editor_boot_checked:
  assumes "runtimeStep\<^sup>*\<^sup>* bootedRuntime r"
  shows "wp (bootEditor b build) (\<lambda>_ log. (\<exists>past. log = past @ [BeStart] \<and> BeStart \<notin> set past) \<and> startable b build)
      (\<lambda>_ log. BeStart \<notin> set log) []
    \<and> length (rt_trapReports r) \<le> 1
    \<and> (rt_invalid r \<longrightarrow> (\<forall>r'. runtimeStep\<^sup>*\<^sup>* r r' \<longrightarrow> rt_calls r' = rt_calls r))"
proof (intro conjI)
  have "notStarted []" by (simp add: notStarted_def)
  from wp_bootEditor [OF this, of b build]
  show "wp (bootEditor b build) (\<lambda>_ log. (\<exists>past. log = past @ [BeStart] \<and> BeStart \<notin> set past) \<and> startable b build)
      (\<lambda>_ log. BeStart \<notin> set log) []"
    by (simp add: notStarted_def)
qed (use trapsOnce_reachable [OF assms] invalid_stays in \<open>auto simp: trapsOnce_def\<close>)

theorem editor_boot_checked_witness:
  "let r = setHidden (CallThrew True ''unreachable'') bootedRuntime in
     rt_invalid r \<and> (\<forall>r'. runtimeStep\<^sup>*\<^sup>* r r' \<longrightarrow> rt_calls r' = [''set_hidden''])"
proof -
  let ?r = "setHidden (CallThrew True ''unreachable'') bootedRuntime"
  have step: "runtimeStep\<^sup>*\<^sup>* bootedRuntime ?r" by (rule r_into_rtranclp) (rule runtimeStep.hidden)
  have r: "rt_invalid ?r" "rt_calls ?r = [''set_hidden'']"
    by (simp_all add: setHidden_def invoke_def bootedRuntime_def failRuntime_def Let_def)
  have "\<forall>r'. runtimeStep\<^sup>*\<^sup>* ?r r' \<longrightarrow> rt_calls r' = rt_calls ?r"
    using editor_boot_checked [OF step] r(1) by blast
  with r show ?thesis unfolding Let_def r(2) by blast
qed





text \<open>
  C29. A tab's saves arrive in order and never conflict with each other: while no request of it is lost and
  no one else writes, every save of an acceptable document is acknowledged, the saves are stored in the
  order they were made, each over the version the one before was answered with, and when the tab is idle
  the server holds the last one.
\<close>

theorem tab_saves_in_order:
  assumes "entitled su i uid w" and "0 \<le> docVersion uid kind w"
    and "docRun su i kind es (docTabStart (Some (docVersion uid kind w)), w) (t, w')"
    and "GivenUp \<notin> set es" and "list_all acceptable (savedBy es)"
    and "docVersion uid kind w + int (length (savedBy es)) \<le> MAX_SAFE_INTEGER"
  shows "dt_failed t = [] \<and> dt_acked t @ sentContent t @ dt_queue t = savedBy es
     \<and> (dt_flight t = None \<longrightarrow> dt_version t = Some (docVersion uid kind w')
         \<and> (savedBy es \<noteq> [] \<longrightarrow> sv_content (docAt uid kind w') = last (savedBy es)))"
proof -
  have "roomFor uid kind (length (savedBy es) + 0) (docTabStart (Some (docVersion uid kind w)), w)"
    using assms(6) by (simp add: roomFor_def unserved_def docTabStart_def)
  from docRun_sync [OF assms(3) inSync_start [OF assms(1,2)] assms(4,5) this]
  show ?thesis
    by (cases "dt_flight t"; cases "dt_reply t")
      (auto simp: inSync_def flightOk_def storedOk_def sentContent_def)
qed

theorem tab_saves_in_order_witness:
  "\<exists>t w. docRun (Some ''u1'') demoId SettingsDoc [Saves ''{}'', Served, Answered] (docTabStart (Some 0), demoWorld) (t, w)
     \<and> dt_failed t = [] \<and> dt_acked t @ sentContent t @ dt_queue t = [''{}'']"
proof -
  have ent: "entitled (Some ''u1'') demoId ''u1'' demoWorld"
    by (simp add: entitled_def demo_defs WORKSPACE_ID_RE_def crockfordChar_def CROCKFORD_def)
  have ver: "docVersion ''u1'' SettingsDoc demoWorld = 0" by (simp add: docVersion_def docView_def demoWorld_def)
  have json: "acceptable ''{}''" by code_simp
  let ?t1 = "saveDocument ''{}'' (docTabStart (Some 0))"
  obtain r w1 where put: "workspaceDocPut (Some ''u1'') demoId (putRequest ''{}'' (Some 0)) SettingsDoc demoWorld = (r, w1)"
    by (metis surj_pair)
  have served: "docStep (Some ''u1'') demoId SettingsDoc Served (?t1, demoWorld) (?t1\<lparr>dt_reply := Some r\<rparr>, w1)"
    by (rule docStep.served [OF _ _ put]) (simp_all add: saveDocument_def docTabStart_def)
  have run: "docRun (Some ''u1'') demoId SettingsDoc ((([] @ [Saves ''{}'']) @ [Served]) @ [Answered])
      (docTabStart (Some 0), demoWorld) (answered r (?t1\<lparr>dt_reply := Some r\<rparr>), w1)"
    by (rule docRun.more [OF docRun.more [OF docRun.more [OF docRun.none docStep.saves] served] docStep.answered]) simp
  from tab_saves_in_order [OF ent _ run [folded ver]] json ver run show ?thesis
    by (auto simp: savedBy_def MAX_SAFE_INTEGER_def)
qed

text \<open>
  C30. The editor reloads into a release only after it was staged whole (its metadata name the build, its
  three files are in the cache in the declared sizes), the client state was flushed and then that
  very release was posted. An updater that was disposed posts and reloads nothing any more.
\<close>

theorem update_staged_first:
  assumes "updaterStep\<^sup>*\<^sup>* (updaterStart caches) u" and "updaterStep\<^sup>*\<^sup>* u u'"
  shows "reloadsEarned (up_log u')
     \<and> (up_disposed u \<longrightarrow> (\<exists>new. up_log u' = up_log u @ new \<and> list_all quietAct new))"
  using updaterRun_ok [OF assms(2) updaterRun_ok [OF assms(1) updaterOk_start]] updaterRun_wound [OF assms(2)]
  by (auto simp: updaterOk_def wound_def)

theorem update_staged_first_witness:
  "\<exists>u. updaterStep\<^sup>*\<^sup>* (updaterStart (\<lambda>_. Map.empty)) u \<and> Reloaded demoRelease \<in> set (up_log u) \<and> reloadsEarned (up_log u)"
proof -
  define u1 where "u1 = setInteractive True (updaterStart (\<lambda>_. Map.empty))"
  define u2 where "u2 = checkAnswered False demoRelease True u1"
  define u3 where "u3 = stagingEnded demoStaging demoRelease u2"
  define u4 where "u4 = action True u3"
  define u5 where "u5 = flushEnded True demoRelease u4"
  define u6 where "u6 = postEnded (Some 200) demoRelease u5"
  have 1: "updaterStep (updaterStart (\<lambda>_. Map.empty)) u1" unfolding u1_def by (rule updaterStep.interactive)
  have c1: "up_check u1 = Some (False, Asking)" "up_pending u1 = Some False" "up_prepared u1 = None"
    "up_interactive u1" "\<not> up_disposed u1" "\<not> up_installing u1"
    by (simp_all add: u1_def setInteractive_def startCheck_def updaterStart_def Let_def)
  have 2: "updaterStep u1 u2" unfolding u2_def by (rule updaterStep.asked [OF c1(1)])
  have c2: "up_check u2 = Some (False, Staging demoRelease)" "up_pending u2 = Some False"
    "up_interactive u2" "\<not> up_disposed u2" "\<not> up_installing u2"
    using c1 by (simp_all add: u2_def checkAnswered_def telling_def)
  have 3: "updaterStep u2 u3" unfolding u3_def by (rule updaterStep.staged [OF c2(1)])
  have staged: "fst (prepareBundle demoStaging ''b2'' cache) = Inr ()" if "cache = Map.empty" for cache
    unfolding that by code_simp
  have "fst (prepareBundle demoStaging ''b2'' (up_cache u2 ''b2'')) = Inr ()"
    by (rule staged) (simp add: u2_def u1_def checkAnswered_def setInteractive_def startCheck_def updaterStart_def
        telling_def checkFailed_def endCheck_def Let_def)
  then obtain cache p where "prepareBundle demoStaging ''b2'' (up_cache u2 ''b2'') = (Inr (), cache, p)"
    by (cases "prepareBundle demoStaging ''b2'' (up_cache u2 ''b2'')") auto
  then have c3: "up_prepared u3 = Some demoRelease" "up_interactive u3" "\<not> up_disposed u3" "\<not> up_installing u3"
    using c2 by (simp_all add: u3_def stagingEnded_def demoRelease_def Let_def endCheck_def telling_def acting_def)
  have 4: "updaterStep u3 u4" unfolding u4_def by (rule updaterStep.action)
  have c4: "up_install u4 = Some (demoRelease, Flushing)" "\<not> up_disposed u4"
    using c3 by (simp_all add: u4_def action_def startInstall_def telling_def)
  have 5: "updaterStep u4 u5" unfolding u5_def by (rule updaterStep.flushed [OF c4(1)])
  have c5: "up_install u5 = Some (demoRelease, Posting)" "\<not> up_disposed u5"
    using c4 by (simp_all add: u5_def flushEnded_def Let_def acting_def)
  have 6: "updaterStep u5 u6" unfolding u6_def by (rule updaterStep.posted [OF c5(1)])
  have "Reloaded demoRelease \<in> set (up_log u6)"
    using c5 by (simp add: u6_def postEnded_def installReload_def acting_def)
  moreover have run: "updaterStep\<^sup>*\<^sup>* (updaterStart (\<lambda>_. Map.empty)) u6"
    using 1 2 3 4 5 6 by (meson rtranclp.rtrancl_into_rtrancl rtranclp.rtrancl_refl)
  ultimately show ?thesis using update_staged_first [OF run rtranclp.rtrancl_refl] by blast
qed

section \<open>Deployments\<close>



text \<open>
  C32. A release loses no one's editor. Whatever others do to the store meanwhile, publishing replaces no archive and
  replaces the manifest only in the version it saw. One that succeeds records a configuration that serves the
  builds of every workspace that exists and of the current deployment, goes on updating those that could be,
  and, where they are production builds, passes the checks of the build. One that fails records nothing.
\<close>

theorem release_published:
  "wp (publish p build)
     (\<lambda>_ a'. publishedFrom p build a a' \<and> (\<exists>rec. as_record a' = Some rec \<and> recordOk p build rec
        \<and> (\<exists>img bundles updates. rl_values rec = valuesFor img build bundles updates
             \<and> ((\<forall>b \<in> set bundles. productionBuild b) \<longrightarrow> (\<forall>e. buildProblems (configured (rl_values rec) e) = [])))))
     (\<lambda>_ a'. publishedFrom p build a a' \<and> as_record a' = as_record a) a"
proof (rule wp_mono [OF wp_publish])
  fix u and a' :: assets
  assume post: "publishedFrom p build a a' \<and> (\<exists>rec. as_record a' = Some rec \<and> recordOk p build rec)"
  then obtain rec where rec: "as_record a' = Some rec" "recordOk p build rec" by blast
  then obtain img bundles updates where v: "rl_values rec = valuesFor img build bundles updates" "pinnedImage img"
      "build \<in> set updates" "set updates \<subseteq> set bundles"
    unfolding recordOk_def by blast
  have "(\<forall>b \<in> set bundles. productionBuild b) \<longrightarrow> (\<forall>e. buildProblems (configured (rl_values rec) e) = [])"
    using release_values_pass [OF v(2-4)] by (simp add: v(1))
  with post rec v(1) show "publishedFrom p build a a' \<and> (\<exists>rec. as_record a' = Some rec \<and> recordOk p build rec
        \<and> (\<exists>img bundles updates. rl_values rec = valuesFor img build bundles updates
             \<and> ((\<forall>b \<in> set bundles. productionBuild b) \<longrightarrow> (\<forall>e. buildProblems (configured (rl_values rec) e) = []))))"
    by blast
qed

theorem release_published_witness:
  "\<exists>a'. publish demoPublisher ''b2'' \<lparr>as_blobs = Map.empty, as_puts = [], as_version = 0, as_record = None\<rparr> = (Inr (), a')
     \<and> (\<exists>rec. as_record a' = Some rec \<and> recordOk demoPublisher ''b2'' rec)"
proof -
  let ?a = "\<lparr>as_blobs = Map.empty, as_puts = [], as_version = 0, as_record = None\<rparr>"
  have "case publish demoPublisher ''b2'' ?a of (Inr _, _) \<Rightarrow> True | _ \<Rightarrow> False" by code_simp
  then obtain a' where run: "publish demoPublisher ''b2'' ?a = (Inr (), a')" by (auto split: prod.splits sum.splits)
  from release_published [of demoPublisher "''b2''" ?a] have "\<exists>rec. as_record a' = Some rec \<and> recordOk demoPublisher ''b2'' rec"
    by (auto simp: wp_def run)
  with run show ?thesis by blast
qed



section \<open>Downloads\<close>

text \<open>
  C34. In every order of reads, cancellation and abort, the archive of a download is removed once at
  most and, when the stream is over, exactly once; the browser is never sent more bytes than the
  archive was announced with, and a download that ends normally has sent all of them.
\<close>

theorem export_stream_once:
  assumes "0 \<le> bytes" and "(streamStep bytes)\<^sup>*\<^sup>* exportStart s"
  shows "es_cleanups s \<le> 1 \<and> es_sent s \<le> bytes \<and> (es_state s \<noteq> Streaming \<longrightarrow> es_cleanups s = 1)
     \<and> (es_state s = Delivered \<longrightarrow> es_sent s = bytes)"
  using streamRun_ok [OF assms] by (auto simp: streamOk_def)

theorem export_stream_once_witness:
  "\<exists>s. (streamStep 3)\<^sup>*\<^sup>* exportStart s \<and> es_state s = Delivered \<and> es_cleanups s = 1 \<and> es_sent s = 3"
proof -
  let ?read = "\<lambda>r s. afterRead 3 r (s\<lparr>es_pulling := True\<rparr>)"
  let ?s = "?read ReadDone (?read (ReadChunk 3) exportStart)"
  have read: "(streamStep 3)\<^sup>*\<^sup>* s (?read r s)" if "es_state s = Streaming" "\<not> es_pulling s" for r s
    using streamStep.Pull [of s 3] streamStep.Read [of "s\<lparr>es_pulling := True\<rparr>" 3 r] that
    by (simp add: converse_rtranclp_into_rtranclp)
  have "(streamStep 3)\<^sup>*\<^sup>* exportStart ?s"
    by (rule rtranclp_trans [OF read read]) (simp_all add: exportStart_def afterRead_def Let_def)
  moreover have "es_state ?s = Delivered"
    by (simp add: exportStart_def afterRead_def Let_def settle_def release_def)
  ultimately show ?thesis using export_stream_once [of 3 ?s] by auto
qed

section \<open>The sweep\<close>


text \<open>
  C36. A run the store reports as ended is released by the next pass of the sweep, whatever happens to
  the other rows of the pass: the workspace can be started again.
\<close>

theorem ended_run_released:
  assumes "rowOf w wid = Some r" and "workflowRunId r = Some i" and "i \<noteq> []" and "deletedAt r = None"
    and "\<And>n. pf_runStatus pf n i \<in> {Some RunCompleted, Some RunFailed, Some RunCancelled}"
  shows "wp (reconcileRuns pf t) (\<lambda>_ w'. \<exists>r'. rowOf w' wid = Some r' \<and> workflowRunId r' = None) (\<lambda>_ _. False) w"
  by (rule reconcileRuns_ended [OF assms])

theorem ended_run_released_witness:
  "wp (reconcileRuns demoPf 5) (\<lambda>_ w'. \<exists>r'. rowOf w' demoId = Some r' \<and> workflowRunId r' = None) (\<lambda>_ _. False)
     (demoWorld\<lparr>workspacesT := [demoRow\<lparr>workflowRunId := Some ''run''\<rparr>]\<rparr>)"
  by (rule ended_run_released [where r = "demoRow\<lparr>workflowRunId := Some ''run''\<rparr>" and i = "''run''"])
    (simp_all add: rowOf_def demoPf_def)

section \<open>Concurrency, budgets and locks\<close>

text \<open>
  C37. The rate limiter lets at most its number of requests of one subject through in any window of its
  length, over any sequence of requests.
\<close>

theorem rate_window:
  assumes "kv (limitKey name subject) = None" and "sorted ts"
  shows "length (filter (\<lambda>a. u - snd (LIMITS name) * 1000 < a \<and> a \<le> u) (fst (limitRun name subject kv ts)))
     \<le> fst (LIMITS name)"
proof (cases ts)
  case (Cons t rest)
  have "length (filter (\<lambda>a. u - snd (LIMITS name) * 1000 < a \<and> a \<le> u) ([] @ fst (limitRun name subject kv ts)))
     \<le> fst (LIMITS name)"
    by (rule limitRun_window [OF recorded_start [where kv = kv and name = name and subject = subject and t = t, OF assms(1)]]) (use assms(2) Cons in auto)
  then show ?thesis by simp
qed simp

theorem rate_window_witness:
  "length (filter (\<lambda>a. 0 < a \<and> a \<le> 600000) (fst (limitRun LimUserCreate ''u1'' Map.empty [1, 2, 3])))
     \<le> fst (LIMITS LimUserCreate)"
  using rate_window [of Map.empty LimUserCreate "''u1''" "[1, 2, 3]" 600000] by simp



section \<open>Ports\<close>

text \<open>
  C39. Creating a forward keeps the slots of a workspace distinct and valid, never forwards a port of
  the infrastructure, and gives the port a proxy slot; a refused one changes nothing.
\<close>

theorem create_forward_slots:
  assumes "slotsOk (forwardsT w)"
  shows "wp (createForward pf ws req)
     (\<lambda>f w'. slotsOk (forwardsT w') \<and> \<not> isInfraPort (pf_env pf) (f_port f) \<and> f_port f = cf_port req
        \<and> (\<exists>s. f_slot f = Some s \<and> s \<in> set proxySlots))
     (\<lambda>_ w'. forwardsT w' = forwardsT w \<and> kvT w' = kvT w) w"
  by (rule createForward_ok [OF assms])

theorem create_forward_slots_witness:
  "wp (createForward demoPf demoRow \<lparr>cf_port = 3000, cf_visibility = Private, cf_label = None\<rparr>)
     (\<lambda>f w'. slotsOk (forwardsT w') \<and> f_port f = 3000) (\<lambda>_ w'. forwardsT w' = []) demoWorld"
proof (rule wp_mono [OF create_forward_slots])
  show "slotsOk (forwardsT demoWorld)" by (simp add: demoWorld_def slotsOk_def slotsUnique_def slotsValid_def)
qed (auto simp: demoWorld_def)



section \<open>Further facts\<close>

text \<open>
  A \<open>createWorkspace\<close> run that returns leaves the row running with no reason and no run id; one
  that throws leaves it in \<open>error\<close>, with the first 500 characters of the error as the reason.
\<close>

theorem create_run_ends:
  "wp (createWorkspace pf wid False budget) (\<lambda>_. rowIs wid (runningRow False)) (\<lambda>e. rowIs wid (failedRow e)) w"
  unfolding createWorkspace_def by (rule asRun_error) (rule wp_createWorkspace_done [unfolded createWorkspace_def])

text \<open>
  The JSONC reader agrees with JSON: a document that \<open>JSON.stringify\<close> wrote is accepted, and reads
  back as the value it was written from; no comment or trailing comma is seen in it.
\<close>

theorem json_settings_read_back:
  assumes "noDec j" shows "parseJsonc (stringify j) = Some (Some j) \<and> isJsonc (stringify j)"
  using parseJsonc_json [OF assms] by (simp add: isJsonc_def)

theorem json_settings_read_back_witness:
  "parseJsonc (stringify (JObj [(''a'', JArr [JNum 1, JNull])])) = Some (Some (JObj [(''a'', JArr [JNum 1, JNull])]))"
  using json_settings_read_back [of "JObj [(''a'', JArr [JNum 1, JNull])]"] by simp

text \<open>
  A folder is exported exactly when its path is absolute, its normal form extends the project's
  root, and no segment below the root is \<open>.git\<close>: no sequence of \<open>.\<close>, \<open>..\<close> and empty segments leads out.
\<close>

theorem export_stays_inside:
  "\<not> folderRefused base p \<longleftrightarrow> isAbsolute p
     \<and> (\<exists>rest. segments p = segments base @ rest \<and> ''.git'' \<notin> set rest)"
  by (rule folder_accepted)

text \<open>No wait of the Docker backend runs out of rounds before its deadline: waiting for a command and creating
  a sandbox end, in an error of the engine or of the program at worst.\<close>

theorem docker_waits_end:
  "wp (waitCommandIn en e h cmdId ms) (\<lambda>_ s'. ds_now s \<le> ds_now s') (\<lambda>x _. fuelLess x) s
    \<and> wp (createIn en e input source) (\<lambda>_ s'. ds_now s \<le> ds_now s') (\<lambda>x _. fuelLess x) s"
  using onwardD [OF onward_waitCommand order_refl, of en e h cmdId ms s] onwardD [OF onward_createIn order_refl, of en e input source s]
  by (auto elim: wp_mono)

text \<open>
  The sweep stops a workspace for idleness exactly from the instant \<open>idleStopAt\<close> its supervisor was
  told on the last activity report, unless the supervisor is busy.
\<close>

theorem idle_stop_as_shown:
  assumes "sessionStartedAt ws = Some s" and "isBusy ws report seen \<longrightarrow> seen \<le> a"
    and "sf_activity facts = Some (showInt a)" and "instantOf (sf_keepalive facts) = k" and "0 \<le> a"
    and "sessionStartedAt row = Some s" and "idleMinutes row = idleMinutes ws"
    and "lastActiveAt row = lastActiveAt ws \<or> lastActiveAt ws \<le> lastActiveAt row \<and> lastActiveAt row \<le> a"
  shows "idleDue row facts t \<longleftrightarrow> ad_idleStopAt (directiveFor e ws report seen a k fs) \<le> t \<and> sf_busy facts = None"
  by (rule idleDue_directive [OF assms])

theorem idle_stop_as_shown_witness:
  "idleDue demoRow \<lparr>sf_activity = Some (showInt 5), sf_keepalive = None, sf_health = None, sf_cpu = None,
       sf_busy = None, sf_attached = False\<rparr> 1800005
   \<and> ad_idleStopAt (directiveFor demoEnv demoRow \<lparr>ac_lastInputAt = None, ac_busy = False, ac_phase = ''ready'',
       ac_listening = None, ac_cpuBusyPct = None\<rparr> 5 5 0 []) = 1800005"
proof -
  let ?rep = "\<lparr>ac_lastInputAt = None, ac_busy = False, ac_phase = ''ready'', ac_listening = None, ac_cpuBusyPct = None\<rparr>"
  have at: "ad_idleStopAt (directiveFor demoEnv demoRow ?rep 5 5 0 []) = 1800005"
    by (simp add: directiveFor_def Let_def demoRow_def isBusy_def)
  have "idleDue demoRow \<lparr>sf_activity = Some (showInt 5), sf_keepalive = None, sf_health = None, sf_cpu = None,
       sf_busy = None, sf_attached = False\<rparr> 1800005
     \<longleftrightarrow> ad_idleStopAt (directiveFor demoEnv demoRow ?rep 5 5 0 []) \<le> 1800005 \<and> (None :: string option) = None"
    by (subst idle_stop_as_shown [where ws = demoRow and s = 0 and report = ?rep and seen = 5 and a = 5 and k = 0 and e = demoEnv and fs = "[]"])
      (simp_all add: demoRow_def isBusy_def instantOf_def)
  with at show ?thesis by simp
qed

text \<open>
  When \<open>mapConcurrent\<close> resolves, under any schedule of its workers, every item has settled and
  its result is at its own index; an item that rejects does not stop the others.
\<close>

theorem pool_settles_all:
  assumes "pooled ok len n p" and "poolDone p"
  shows "length (pl_results p) = len \<and> (\<forall>i < len. \<exists>r. pl_results p ! i = Some r \<and> ok i r)"
  using pooled_ok [OF assms(1)] pooled_done [OF assms] by (auto simp: poolOk_def)

theorem pool_settles_all_witness:
  "let p = \<lparr>pl_next = 1, pl_workers = [Returned], pl_results = [Some (Inl ''e'' :: string + nat)]\<rparr> in
     poolDone p \<and> length (pl_results p) = 1 \<and> (\<exists>r. pl_results p ! 0 = Some r \<and> r = Inl ''e'')"
proof -
  let ?ok = "\<lambda>i r. r = (Inl ''e'' :: string + nat)"
  let ?p1 = "\<lparr>pl_next = 1, pl_workers = [Awaiting 0], pl_results = [None]\<rparr> :: (string, nat) pool"
  let ?p2 = "\<lparr>pl_next = 1, pl_workers = [Ready], pl_results = [Some (Inl ''e'')]\<rparr> :: (string, nat) pool"
  let ?p3 = "\<lparr>pl_next = 1, pl_workers = [Returned], pl_results = [Some (Inl ''e'')]\<rparr> :: (string, nat) pool"
  have "pooled ?ok 1 1 ?p1" by (rule pooled.take [OF pooled.start, where k = 0]) (simp add: poolStart_def poolLimit_def)
  then have "pooled ?ok 1 1 ?p2" by (rule pooled.settle [where k = 0 and i = 0 and r = "Inl ''e''"]) simp_all
  then have reach: "pooled ?ok 1 1 ?p3" by (rule pooled.take [where k = 0]) simp
  from pool_settles_all [OF this] show ?thesis by (simp add: poolDone_def Let_def)
qed

text \<open>
  \<open>mapConcurrent\<close> terminates and never blocks: until every worker has returned some move is
  possible, and every move takes from the finite work left.
\<close>

theorem pool_progress:
  "(poolDone p \<or> (\<exists>m q. poolStep m p = Some q)) \<and> (\<forall>m q. poolStep m p = Some q \<longrightarrow> poolWork q < poolWork p)"
  using poolStep_live [of p] poolStep_work [of _ p] by blast

theorem pool_progress_witness:
  "\<exists>q. poolStep (Take 0) (poolStart 1 1 :: (string, nat) pool) = Some q \<and> poolWork q < poolWork (poolStart 1 1 :: (string, nat) pool)"
proof -
  obtain q where q: "poolStep (Take 0) (poolStart 1 1 :: (string, nat) pool) = Some q" by (simp add: poolStart_def poolLimit_def)
  with pool_progress [of "poolStart 1 1 :: (string, nat) pool"] show ?thesis by blast
qed

text \<open>
  A \<open>stopWorkspace\<close> run that stops the workspace leaves its row stopped (or \<open>rebuilding\<close> when a
  rebuild asked for it), detached from every host and supervisor and due for retention; a failed one
  leaves it in \<open>error\<close>.
\<close>

theorem stop_run_ends:
  "wp (stopWorkspace pf wid reason False)
     (\<lambda>stopped w'. if stopped then rowIs wid (stoppedRow reason False) w' else rowIs wid endedRow w')
     (\<lambda>e. rowIs wid (failedRow e)) w"
  unfolding stopWorkspace_def
  by (rule asRun_error) (rule wp_mono [OF wp_stopWorkspace_done [unfolded stopWorkspace_def]], auto simp: stopDone_def split: if_splits)

text \<open>
  Whatever a create, connect or stop run does, succeeds or throws, the sandbox names, the deletion
  mark and the run id of every row stay as they were: only its parent or the admission write those.
\<close>

theorem children_keep_pointers:
  "wp (createWorkspace pf wid True c) (\<lambda>_ w'. pointersOf w' = pointersOf w) (\<lambda>_ w'. pointersOf w' = pointersOf w) w
   \<and> wp (connectWorkspace pf wid True c) (\<lambda>_ w'. pointersOf w' = pointersOf w) (\<lambda>_ w'. pointersOf w' = pointersOf w) w
   \<and> wp (stopWorkspace pf wid reason True) (\<lambda>_ w'. pointersOf w' = pointersOf w) (\<lambda>_ w'. pointersOf w' = pointersOf w) w"
  by (intro conjI keepsD [OF pointerFrame.keeps_createWorkspace] keepsD [OF pointerFrame.keeps_connectWorkspace]
      keepsD [OF pointerFrame.keeps_stopWorkspace] pointerFrame.finishSafe_child refl)
text \<open>A \<open>connectWorkspace\<close> run, which wakes a stopped sandbox, ends as a \<open>createWorkspace\<close> run does.\<close>

theorem connect_run_ends:
  "wp (connectWorkspace pf wid False budget) (\<lambda>_. rowIs wid (runningRow False)) (\<lambda>e. rowIs wid (failedRow e)) w"
  unfolding connectWorkspace_def by (rule asRun_error) (rule wp_connectWorkspace_done [unfolded connectWorkspace_def])

text \<open>
  A sandbox whose token was just rotated is let in with the new token, under its own name, by
  \<open>requireSandbox\<close>, and by no token of another digest.
\<close>

theorem rotated_token_opens:
  assumes "rowOf w wid = Some r" and "deletedAt r = None" and "SANDBOX_NAME_RE (sandboxName r)"
    and "distinct (map ws_id (workspacesT w))"
    and "\<forall>x \<in> set (workspacesT w). sandboxName x = sandboxName r \<longrightarrow> ws_id x = wid"
    and "\<And>t. length (pf_sha256 pf t) = 64 \<and> list_all isHexChar (pf_sha256 pf t)"
  shows "wp (rotateSandboxToken pf wid)
    (\<lambda>(token, generation) w'. generation = sandboxTokenGeneration r + 1 \<and>
       (\<exists>r'. requireSandbox pf (Some token) (sandboxName r) w' = (Inr r', w') \<and> ws_id r' = wid) \<and>
       (\<forall>t. map toLower (pf_sha256 pf t) \<noteq> map toLower (pf_sha256 pf token) \<longrightarrow>
          (\<exists>e. requireSandbox pf (Some t) (sandboxName r) w' = (Inl e, w'))))
    (\<lambda>_ _. False) w"
  by (rule rotate_opens [OF assms])

theorem rotated_token_opens_witness:
  "wp (rotateSandboxToken demoPf demoId)
    (\<lambda>(token, generation) w'. generation = 1 \<and>
       (\<exists>r'. requireSandbox demoPf (Some token) demoName w' = (Inr r', w') \<and> ws_id r' = demoId)) (\<lambda>_ _. False) demoWorld"
  by (rule wp_mono [OF rotated_token_opens [OF demo_row]])
    (auto simp: demo_defs SANDBOX_NAME_RE_def sandboxChar_def list_all_iff isHexChar_def toLower_def hexDigits_def)

text \<open>
  The digest a rebuild archive is stored under is read back from its pathname, and an archive stored
  without one reads as having none.
\<close>

theorem blob_pathname_roundtrip:
  assumes "case sha256 of None \<Rightarrow> CHR ''-'' \<notin> set wid | Some d \<Rightarrow> length d = 64 \<and> list_all lowerHex d" and "0 \<le> t"
  shows "sha256FromBlobPathname (blobPathnameFor wid t sha256) = sha256"
  using assms blob_digest_read blob_no_digest_read by (cases sha256) simp_all

theorem blob_pathname_roundtrip_witness:
  "sha256FromBlobPathname (blobPathnameFor ''ws_0'' 5 (Some (replicate 64 CHR ''a''))) = Some (replicate 64 CHR ''a'')"
  by (rule blob_pathname_roundtrip) (simp_all add: lowerHex_def hexDigits_def list_all_iff)

text \<open>
  A supervisor cannot keep its workspace alive by lying about its input: the activity instant the
  report counts for is never before the session, never more than 30 s ahead of the clock, and without an
  attached editor or a busy boot it repeats what was known.
\<close>

theorem activity_bounded:
  assumes "nullish (sessionStartedAt ws) 0 \<le> t" and "lastActiveAt ws \<le> t + CLOCK_SKEW_MS"
    and "instantOf (kvGet kv (activityKey (ws_id ws)) t) \<le> t + CLOCK_SKEW_MS"
  shows "nullish (sessionStartedAt ws) 0 \<le> activityInstant ws report att kv t
    \<and> activityInstant ws report att kv t \<le> t + 30000
    \<and> (isBusy ws report t \<or> att \<or> activityInstant ws report att kv t
         = max (max (instantOf (kvGet kv (activityKey (ws_id ws)) t)) (nullish (sessionStartedAt ws) 0)) (lastActiveAt ws))"
  using activityInstant_bounds [OF assms] activityInstant_detached [of ws report t kv]
  by (cases att) (simp_all add: CLOCK_SKEW_MS_def, blast?)

theorem activity_bounded_witness:
  "activityInstant demoRow \<lparr>ac_lastInputAt = Some 9999999, ac_busy = False, ac_phase = ''ready'', ac_listening = None,
     ac_cpuBusyPct = None\<rparr> True Map.empty 1000 \<le> 31000"
  using activity_bounded [of demoRow 1000 Map.empty "\<lparr>ac_lastInputAt = Some 9999999, ac_busy = False,
     ac_phase = ''ready'', ac_listening = None, ac_cpuBusyPct = None\<rparr>" True]
  by (simp add: demo_defs instantOf_def kvGet_def CLOCK_SKEW_MS_def)

text \<open>
  At most \<open>max(1, limit)\<close> items are in flight at any point, and an item is awaited by one worker only.
\<close>

theorem pool_bounded:
  assumes "pooled ok len n p"
  shows "card (awaited p) \<le> min (poolLimit n) len \<and> soleWorker p"
  using pooled_ok [OF assms] inFlight_card [of p] by (auto simp: poolOk_def)

theorem pool_bounded_witness:
  "card (awaited (poolStart 3 2 :: (string, nat) pool)) \<le> 2 \<and> soleWorker (poolStart 3 2 :: (string, nat) pool)"
  using pool_bounded [OF pooled.start, where len = 3 and n = 2 and 'a = string and 'b = nat] by (simp add: poolLimit_def)

text \<open>
  The guard of the workspace routes hands on only the signed-in user's own, undeleted workspace
  of the requested id, in an allowed state, and writes nothing; everything else is an \<open>ApiError\<close>.
\<close>

theorem workspace_guard:
  "wp (requireWorkspaceParam sessionUser i allowStates control)
     (\<lambda>(v, ws) w'. w' = w \<and> ws \<in> set (workspacesT w) \<and> ws_id ws = i \<and> deletedAt ws = None
        \<and> sessionUser = Some (v_userId v) \<and> ownerUserId ws = v_userId v
        \<and> (control \<longrightarrow> v_flaggedAt v = None) \<and> (\<forall>ss. allowStates = Some ss \<longrightarrow> ws_state ws \<in> set ss))
     (\<lambda>e w'. w' = w \<and> (\<exists>st code. e = ApiError st code)) w"
  by (rule wp_mono [OF wp_requireWorkspaceParam]) auto

theorem workspace_guard_witness:
  "wp (requireWorkspaceParam (Some ''u1'') demoId None True)
     (\<lambda>(v, ws) w'. w' = demoWorld \<and> ws_id ws = demoId \<and> ownerUserId ws = ''u1'' \<and> v_flaggedAt v = None)
     (\<lambda>e w'. w' = demoWorld \<and> (\<exists>st code. e = ApiError st code)) demoWorld"
  by (rule wp_mono [OF workspace_guard]) auto

text \<open>
  A successful start has started exactly one run and recorded its id on the row; a failed one
  has left every row as it was, or released its own reservation.
\<close>

theorem lifecycle_admission:
  "wp (startLifecycle pf wid run)
     (\<lambda>runId w'. startedSince (trace w) w' = [EvStartRun runId run]
        \<and> (\<exists>r. rowOf w' wid = Some r \<and> workflowRunId r = Some runId \<and> workflowRunStartedAt r = Some (now w'))
        \<and> workspacesT w' = updateWhere (\<lambda>r. ws_id r = wid) (setRun (Some runId) (Some (now w'))) (workspacesT w))
     (\<lambda>e w'. workspacesT w' = workspacesT w
        \<or> workspacesT w' = updateWhere (\<lambda>r. ws_id r = wid) (setRun None None) (workspacesT w)) w"
  by (rule wp_mono [OF wp_startLifecycle]) (auto simp: admitted_def released_def)

text \<open>
  Creating a workspace, over HTTP or from a workshop link, never takes the instance above
  \<open>ZS_MAX_RUNNING_WORKSPACES\<close> workspaces in use, whether it succeeds or throws, if what other requests
  do while it waits for GitHub does not.
\<close>

theorem create_within_budget:
  assumes "\<And>w. budgeted pf w \<Longrightarrow> budgeted pf (env w)" and "budgeted pf w"
  shows "wp (createPublicWorkspace pf env gh near v input key) (\<lambda>_. budgeted pf) (\<lambda>_. budgeted pf) w"
  by (rule keepsD [OF budget_creation.keeps_create assms(2)]) (rule assms(1))

theorem create_within_budget_witness:
  "wp (createPublicWorkspace demoPf id demoGithub Iad1 demoViewer demoInput (Some ''k''))
     (\<lambda>_. budgeted demoPf) (\<lambda>_. budgeted demoPf) demoWorld"
  by (rule create_within_budget) (simp_all add: demo_budgeted)

text \<open>
  A page that connected holds a connection to the workspace it asked for, issued for its own build
  by a compatible server and parsed from the last answer it got, before its deadline. The session is
  renewed once at most, and where every request takes some time no network keeps it trying for ever.
\<close>

theorem connect_client:
  assumes "\<And>n. 0 < nw_elapsed nw n"
  shows "wp (connectWorkspacePage nw isWsUrl isDatetime req)
     (\<lambda>info q. ci_workspaceId info = cr_workspaceId req \<and> ci_clientBuild info = cr_build req
        \<and> buildsCompatible (Some (ci_serverBuild info)) (Some (cr_build req))
        \<and> pg_now q \<le> pg_now p + cr_deadlineMs req \<and> connecting p 1 q
        \<and> (\<exists>r j. last (pg_seen q) = (CallConnect, r) \<and> nr_status r = 200 \<and> nr_json r = Some j
             \<and> connectInfoSchema isWsUrl isDatetime j = Some info))
     (\<lambda>e q. e \<noteq> NoRoundsLeft \<and> connecting p 1 q) p"
  by (rule wp_connectWorkspacePage [OF assms, unfolded connected_def])

theorem connect_client_witness:
  "wp (connectWorkspacePage demoNetwork (\<lambda>_. True) (\<lambda>_. True)
       \<lparr>cr_workspaceId = demoId, cr_build = ''b1'', cr_deadlineMs = 60000\<rparr>)
     (\<lambda>info q. ci_workspaceId info = demoId \<and> ci_clientBuild info = ''b1'' \<and> pg_now q \<le> 60000)
     (\<lambda>e q. e \<noteq> NoRoundsLeft \<and> connecting demoPage 1 q) demoPage"
  by (rule wp_mono [OF connect_client [where p = demoPage]]) (simp_all add: demoNetwork_def demoPage_def)

text \<open>
  A port the user removed does not come back by discovery while it keeps listening: for thirty days
  no reconciliation from the removal's state recreates its forward.
\<close>

theorem removed_port_stays_away:
  assumes "keysDistinct (forwardsT w)" and "t \<ge> now w" and "t < now w + 30 * 86400000"
  shows "wp (removeForward pf (ws_id ws) port)
     (\<lambda>_ w'. \<forall>f \<in> set (snd (syncForwards e ws ports (kvT w') (forwardsT w') t)). \<not> keyed (ws_id ws) port f)
     (\<lambda>_ w'. w' = w) w"
  by (rule removed_stays_removed [OF assms])

theorem removed_port_stays_away_witness:
  "wp (removeForward demoPf demoId 3000)
     (\<lambda>_ w'. \<forall>f \<in> set (snd (syncForwards demoEnv demoRow [3000] (kvT w') (forwardsT w') 2000)). \<not> keyed demoId 3000 f)
     (\<lambda>_ w'. w' = demoWorld) demoWorld"
  using removed_port_stays_away [where ws = demoRow and w = demoWorld and t = 2000] by (simp add: keysDistinct_def) (simp add: demoWorld_def)

text \<open>
  One GitHub lookup a minute: the answer of a lookup nobody had made is what every later lookup of
  that repository gets within the minute, however its name is capitalised, without a request; a
  cached document reads back as the value that was fetched.
\<close>

theorem github_answer_shared:
  assumes "\<not> isLocalRepo (pf_env pf) own" and "lowerText own' = lowerText own" and "lowerText name' = lowerText name"
    and "\<not> isLocalRepo (pf_env pf) own'"
    and "key = lookupKey [JStr ''repo'', JStr (lowerText own), JStr (lowerText name)]"
    and "kvGet (kvT w) key (now w) = None" and "kvGet (kvT w) (key @ '':lock'') (now w) = None"
    and "fetchRepo pf env gh own name w = (Inr r, w1)"
    and "kvT v key = kvT w1 key" and "now v < now w1 + 60000"
  shows "fetchRepo pf env gh own' name' v = (Inr r, v)"
proof -
  let ?id = "[JStr ''repo'', JStr (lowerText own), JStr (lowerText name)]"
  have key: "lookupKey ?id = key" by (rule assms(5) [symmetric])
  have run: "cachedLookup pf env repoJson repoOfJson ?id (loadRepo pf gh own name) w = (Inr r, w1)"
    using assms(1,8) by (simp add: fetchRepo_def)
  have fetch: "wp (loadRepo pf gh own name) (\<lambda>x _. \<forall>y. x = Some y \<longrightarrow> \<not> ir_private y) (\<lambda>_ _. True) u" for u
    by (rule wp_mono [OF wp_loadRepo]) simp_all
  have "(\<forall>x. r = Some x \<longrightarrow> \<not> ir_private x) \<and> kvT w1 key = Some (stringify (repoJson r), Some (now w1 + 60000))"
    by (rule wp_run [OF wp_cachedLookup_stored [where identity = ?id, unfolded key, OF assms(6,7) fetch] run])
  then have hit: "kvGet (kvT v) key (now v) = Some (stringify (repoJson r))" and "repoOfJson (jsonParse (stringify (repoJson r))) = r"
    using assms(9,10) by (cases r; simp add: kvGet_def kvLive_def repoOfJson_none repoOfJson_json)+
  then show ?thesis
    using assms(2,3,4) by (simp add: fetchRepo_def cachedLookup_hit [where identity = ?id, unfolded key, OF hit])
qed

theorem github_answer_shared_witness:
  "\<exists>v r. fetchRepo demoPf id demoGithub ''O'' ''N'' v = (Inr r, v)"
proof -
  let ?w1 = "snd (fetchRepo demoPf id demoGithub ''o'' ''n'' demoWorld)"
  have "wp (fetchRepo demoPf id demoGithub ''o'' ''n'') (\<lambda>_ _. True) (\<lambda>_ _. False) demoWorld"
    by code_simp
  then obtain r where "fetchRepo demoPf id demoGithub ''o'' ''n'' demoWorld = (Inr r, ?w1)"
    by (auto simp: wp_def split: prod.splits sum.splits)
  from github_answer_shared [OF _ _ _ _ refl _ _ this refl, of "''O''" "''N''"] show ?thesis
    by (auto simp: isLocalRepo_def lowerText_def toLower_def demoWorld_def kvGet_def)
qed

text \<open>
  The recorder of the page keeps at most 200 entries and no bearer of a sandbox; a fetch evicts no other
  entry, and once disposed of it records nothing more.
\<close>

theorem recorder_keeps_errors:
  assumes "(diagStep url shown)\<^sup>*\<^sup>* (newDiagnostics t0) d"
  shows "length (dg_entries d) \<le> 200 \<and> (\<forall>e \<in> set (dg_entries d). 1 \<le> en_count e \<and> \<not> hasBearer (en_message e))
    \<and> filter (\<lambda>e. en_kind e \<noteq> ''resource'') (dg_entries (record' url t ''resource'' message duration resource d))
        = filter (\<lambda>e. en_kind e \<noteq> ''resource'') (dg_entries d)
    \<and> (dg_disposed d \<longrightarrow> (\<forall>d'. diagStep url shown d d' \<longrightarrow> dg_disposed d' \<and> dg_entries d' \<in> {dg_entries d, []}))"
proof -
  have "diagInv d" by (rule diagInv_reachable [OF assms])
  then have "recorderOk d" "dg_disposed d \<longrightarrow> dg_profile d = None" by (simp_all add: diagInv_def)
  then show ?thesis
    using fetch_evicts_no_other [of url t message duration resource d] disposed_still [of d url shown]
    by (auto simp: recorderOk_def LIMIT_def)
qed

theorem recorder_keeps_errors_witness:
  "(let d = record' (\<lambda>_. None) 5 ''javascript'' ''boom zsb_AAAAAAAAAAAAAAAAAAAAAAAA'' None None (newDiagnostics 0) in
     dg_entries d \<noteq> [] \<and> (\<forall>e \<in> set (dg_entries d). \<not> hasBearer (en_message e)))"
proof -
  let ?d = "record' (\<lambda>_. None) 5 ''javascript'' ''boom zsb_AAAAAAAAAAAAAAAAAAAAAAAA'' None None (newDiagnostics 0)"
  have "(diagStep (\<lambda>_. None) (\<lambda>_. []))\<^sup>*\<^sup>* (newDiagnostics 0) ?d" by (rule r_into_rtranclp) (rule diagStep.recorded)
  moreover have "dg_entries ?d \<noteq> []" by (simp add: record'_def newDiagnostics_def LIMIT_def)
  ultimately show ?thesis using recorder_keeps_errors by (auto simp: Let_def)
qed

text \<open>
  What was put into the file store is what a signed URL downloads, until it expires.
\<close>

theorem blob_roundtrip:
  assumes "filePut bh u name body files = (Inr sb, files1)" and "signedQuery bh name ''GET'' ttl maximum t0 = Inr granted"
    and "t < t0 + ttl" and "\<And>s x. hexKey (bh_hmac bh s x)"
  shows "serveLocalBlob bh u' \<lparr>br_method = ''GET'', br_query = granted, br_body = None\<rparr> t files1
    = (Inr \<lparr>bs_status = 200, bs_body = collect body\<rparr>, files1) \<and> collect body \<noteq> None"
  using blob_downloaded [OF assms] by blast

theorem blob_roundtrip_witness:
  "\<exists>granted files1. serveLocalBlob demoBlobs ''v'' \<lparr>br_method = ''GET'', br_query = granted, br_body = None\<rparr> 50 files1
    = (Inr \<lparr>bs_status = 200, bs_body = Some ''abc''\<rparr>, files1)"
proof -
  have "(case filePut demoBlobs ''u'' ''n'' [Bytes ''ab'', Bytes ''c''] Map.empty of (Inr _, _) \<Rightarrow> True | _ \<Rightarrow> False)"
    "(case signedQuery demoBlobs ''n'' ''GET'' 60 0 40 of Inr _ \<Rightarrow> True | _ \<Rightarrow> False)"
    by code_simp+
  then obtain sb files1 granted where put: "filePut demoBlobs ''u'' ''n'' [Bytes ''ab'', Bytes ''c''] Map.empty = (Inr sb, files1)"
    and issued: "signedQuery demoBlobs ''n'' ''GET'' 60 0 40 = Inr granted"
    by (auto split: prod.splits sum.splits)
  have "hexKey (replicate 64 CHR ''0'')" "hexKey (replicate 64 CHR ''1'')" by code_simp+
  then have "hexKey (bh_hmac demoBlobs s x)" for s x by (simp add: demoBlobs_def)
  from blob_roundtrip [OF put issued _ this, of 50 "''v''"] show ?thesis by auto
qed

text \<open>
  What \<open>editor:pack\<close> writes is what the prebuild step unpacks: the same files, a bundle that can be served.
\<close>

theorem packed_bundle_unpacks:
  assumes "packEditorBundle d build out = Inr (tar, manifest)"
  shows "wp (unpackBundle (Some tar) build) (\<lambda>_ d'. wholeBundle build (filesOf d' build)
      \<and> (\<forall>f \<in> set SERVED_FILES. map_of (filesOf d' build) f = map_of (filesOf d build) f)) (\<lambda>_ _. False) d0"
  by (rule packed_unpacks [OF assms])

theorem packed_bundle_unpacks_witness:
  "\<exists>tar. wp (unpackBundle (Some tar) ''b2'') (\<lambda>_ d'. wholeBundle ''b2'' (filesOf d' ''b2'')) (\<lambda>_ _. False) \<lparr>bd_dirs = [], bd_manifest = None\<rparr>"
proof -
  have "case packEditorBundle (pu_dir demoPublisher) ''b2'' False of Inr _ \<Rightarrow> True | _ \<Rightarrow> False" by code_simp
  then obtain tar manifest where packed: "packEditorBundle (pu_dir demoPublisher) ''b2'' False = Inr (tar, manifest)"
    by (auto split: sum.splits)
  show ?thesis by (rule exI, rule wp_mono [OF packed_bundle_unpacks [OF packed]]) simp_all
qed

text \<open>
  What a kernel session launches is a launch the debug route would accept, with the bundled interpreter.
\<close>

theorem kernel_launch_accepted:
  assumes "kernelSchema j = Some (k, cwd)"
  shows "\<exists>l. jsonParse (stringify (kernelLaunch k cwd)) = Some (kernelLaunch k cwd) \<and> launchSchema e (kernelLaunch k cwd) = Some l
    \<and> la_command l = Some bundledPython \<and> la_connection l = None"
  by (rule kernel_launch_meets [OF assms])

theorem kernel_launch_accepted_witness:
  "\<exists>l. launchSchema demoEnv (kernelLaunch ListKernels ''/w'') = Some l \<and> la_connection l = None"
proof -
  have "kernelSchema (JObj [(''kernel'', JObj [(''kind'', JStr ''list'')]), (''cwd'', JStr ''/w'')]) = Some (ListKernels, ''/w'')" by code_simp
  from kernel_launch_accepted [OF this, of demoEnv] show ?thesis by blast
qed

text \<open>
  The script that runs when every local sandbox is gone stops exactly the live rows that are not deleted, and
  leaves them no open session.
\<close>

theorem local_rows_marked:
  assumes "distinct (map ws_id (workspacesT w))"
  shows "wp markLocalWorkspacesStopped
    (\<lambda>changed w'. workspacesT w' = map (\<lambda>r. if ws_state r \<in> set LIVE_STATES \<and> deletedAt r = None then markedRow (now w) r else r) (workspacesT w)
       \<and> (\<forall>s \<in> set (sessionsT w'). endedAt s = None \<longrightarrow> s_workspaceId s \<notin> fst ` set changed))
    (\<lambda>_ _. False) w"
  by (rule wp_markStopped [OF assms])

theorem local_rows_marked_witness:
  "wp markLocalWorkspacesStopped (\<lambda>_ w'. map ws_state (workspacesT w') = [Stopped]) (\<lambda>_ _. False) demoWorld"
  by (rule wp_mono [OF local_rows_marked]) (simp_all add: demo_defs LIVE_STATES_def markedRow_def)

text \<open>
  The region that is picked is nearest, whatever the default is.
\<close>

theorem nearest_region:
  "km (nearestRegionTo km fallback) \<le> km r"
  by (rule nearest_is_least)

end
